(* ===== verification/Prelude.thy ===== *)
theory Prelude
  imports Main "HOL-Library.Word" "HOL-Library.List_Lexorder" "HOL-Library.Char_ord"
    "HOL-Library.Product_Lexorder"
begin

text \<open>
  Shared vocabulary of the development: machine integers of the Rust code with their
  saturating operations, the reading of an SQLite integer column, results and transactions,
  the string helpers of the standard library the code calls, and the two generic interfaces
  (wire encodings of enums, invariants of a transition system) that several components
  implement.
\<close>

named_theorems u64_simps "arithmetic of saturating machine integers"
named_theorems tx_simps "unfolding of transactions and results"

section \<open>Machine integers\<close>

type_synonym u16 = "16 word"
type_synonym u32 = "32 word"
type_synonym u64 = "64 word"

definition sat_add :: "'a::len word \<Rightarrow> 'a word \<Rightarrow> 'a word" where
  "sat_add a b = (if unat a + unat b < 2 ^ LENGTH('a) then a + b else - 1)"

definition sat_sub :: "'a::len word \<Rightarrow> 'a word \<Rightarrow> 'a word" where
  "sat_sub a b = (if a < b then 0 else a - b)"

definition sat_mul :: "'a::len word \<Rightarrow> 'a word \<Rightarrow> 'a word" where
  "sat_mul a b = (if unat a * unat b < 2 ^ LENGTH('a) then a * b else - 1)"

definition checked_sub :: "'a::len word \<Rightarrow> 'a word \<Rightarrow> 'a word option" where
  "checked_sub a b = (if a < b then None else Some (a - b))"

definition checked_add :: "'a::len word \<Rightarrow> 'a word \<Rightarrow> 'a word option" where
  "checked_add a b = (if unat a + unat b < 2 ^ LENGTH('a) then Some (a + b) else None)"

definition abs_diff :: "'a::len word \<Rightarrow> 'a word \<Rightarrow> 'a word" where
  "abs_diff a b = (if a < b then b - a else a - b)"

lemma unat_sat_add [u64_simps]:
  "unat (sat_add a (b :: 'a::len word)) = min (unat a + unat b) (2 ^ LENGTH('a) - 1)"
  by (auto simp: sat_add_def unat_word_ariths unsigned_minus_1_eq_mask mask_eq_exp_minus_1 min_def)

lemma unat_sat_sub [u64_simps]: "unat (sat_sub a b) = unat a - unat b"
  by (auto simp: sat_sub_def word_less_nat_alt unat_sub word_le_nat_alt)

lemma unat_abs_diff [u64_simps]: "unat (abs_diff a b) = (unat a - unat b) + (unat b - unat a)"
  by (auto simp: abs_diff_def word_less_nat_alt unat_sub word_le_nat_alt)

lemma unat_le_max: "unat (a :: 'a::len word) \<le> 2 ^ LENGTH('a) - Suc 0"
proof -
  have "unat a < 2 ^ LENGTH('a)" by simp
  then show ?thesis by linarith
qed

lemma sat_add_ge: "a \<le> sat_add a (b :: 'a::len word)"
  using unat_le_max [of a] by (simp add: word_le_nat_alt u64_simps min_def)

lemma Suc_unat_less: "a \<noteq> (- 1 :: 'a::len word) \<Longrightarrow> Suc (unat a) < 2 ^ LENGTH('a)"
proof -
  assume n: "a \<noteq> - 1"
  have "unat a < 2 ^ LENGTH('a)" by simp
  moreover have "unat a \<noteq> 2 ^ LENGTH('a) - 1" using n
    by (metis unsigned_minus_1_eq_mask mask_eq_exp_minus_1 unsigned_word_eqI)
  ultimately show ?thesis by linarith
qed

lemma unat_sat_add_1: "a \<noteq> (- 1 :: 'a::len word) \<Longrightarrow> unat (sat_add a 1) = Suc (unat a)"
  using Suc_unat_less [of a] by (simp add: u64_simps min_def)

lemma sat_add_max [simp]: "sat_add (- 1 :: 'a::len word) a = - 1"
proof (rule unsigned_word_eqI)
  show "unat (sat_add (- 1) a) = unat (- 1 :: 'a word)"
    by (simp add: u64_simps unsigned_minus_1_eq_mask mask_eq_exp_minus_1)
qed

text \<open>
  An unsigned value is bound to an SQLite INTEGER column with \<open>as i64\<close>, which keeps the
  bits, and read back with \<open>row.get::<_, i64>(..)?.max(0) as u64\<close>, which reads a negative
  column as 0. A column is kept as its 64 bits; \<open>column_u64\<close> is the reading.
\<close>

definition column_u64 :: "u64 \<Rightarrow> u64" where
  "column_u64 w = (if sint w < 0 then 0 else w)"

lemma sint_neg_iff: "sint (w :: 64 word) < 0 \<longleftrightarrow> 2 ^ 63 \<le> unat w"
proof -
  have a: "0 \<le> uint w" "uint w < 2 ^ 64" using uint_bounded [of w] by simp_all
  have "sint w = signed_take_bit 63 (uint w)" by (simp add: sint_uint)
  then have "(sint w < 0) = odd (uint w div 2 ^ 63)"
    by (simp add: bit_iff_odd)
  also have "\<dots> = (2 ^ 63 \<le> uint w)"
  proof -
    have "uint w div 2 ^ 63 < 2" using a by simp
    moreover have "0 \<le> uint w div 2 ^ 63" using a by (simp add: pos_imp_zdiv_nonneg_iff)
    ultimately have "uint w div 2 ^ 63 = 0 \<or> uint w div 2 ^ 63 = 1" by linarith
    then have "odd (uint w div 2 ^ 63) = (0 < uint w div 2 ^ 63)" by auto
    then show ?thesis using pos_imp_zdiv_pos_iff [of "2 ^ 63" "uint w"] by simp
  qed
  also have "\<dots> = (2 ^ 63 \<le> unat w)"
  proof -
    have "(2 ^ 63 \<le> uint w) = ((2 ^ 63 :: 64 word) \<le> w)" by (simp add: word_le_def)
    also have "\<dots> = (2 ^ 63 \<le> unat w)" by (simp add: word_le_nat_alt)
    finally show ?thesis .
  qed
  finally show ?thesis .
qed

lemma column_u64_id: "unat w < 2 ^ 63 \<Longrightarrow> column_u64 w = w"
  by (simp add: column_u64_def sint_neg_iff)

lemma column_u64_zero: "2 ^ 63 \<le> unat w \<Longrightarrow> column_u64 w = 0"
  by (simp add: column_u64_def sint_neg_iff)

lemma column_u64_idem [simp]: "column_u64 (column_u64 w) = column_u64 w"
  by (simp add: column_u64_def)

lemma column_u64_eq_iff: "column_u64 w = w \<longleftrightarrow> unat w < 2 ^ 63"
  by (cases "unat w < 2 ^ 63") (auto simp: column_u64_id column_u64_zero)

section \<open>Results and transactions\<close>

text \<open>
  A fallible operation returns a sum, \<open>Inl\<close> the error. A transaction body runs on the
  state: \<open>Inl\<close> is the \<open>?\<close> that drops the transaction, so the state is rolled back;
  \<open>Inr (s', r)\<close> is a committed state together with the value the caller gets, which can
  itself be an error, since some operations commit and then report one.
\<close>

fun bind_r :: "'e + 'a \<Rightarrow> ('a \<Rightarrow> 'e + 'b) \<Rightarrow> 'e + 'b" where
  "bind_r (Inl e) f = Inl e"
| "bind_r (Inr x) f = f x"

definition run_tx :: "('s \<Rightarrow> 'e + ('s \<times> ('e + 'a))) \<Rightarrow> 's \<Rightarrow> 's \<times> ('e + 'a)" where
  "run_tx body s = (case body s of Inl e \<Rightarrow> (s, Inl e) | Inr (s', r) \<Rightarrow> (s', r))"

lemma bind_r_Inr_iff [tx_simps]: "bind_r r f = Inr y \<longleftrightarrow> (\<exists>x. r = Inr x \<and> f x = Inr y)"
  by (cases r) auto

lemma bind_r_pair_Inr_iff [tx_simps]:
  "bind_r r (\<lambda>(a, b). f a b) = Inr y \<longleftrightarrow> (\<exists>a b. r = Inr (a, b) \<and> f a b = Inr y)"
  by (cases r) auto

lemma case_option_Inr_iff [tx_simps]:
  "(case x of None \<Rightarrow> Inl e | Some y \<Rightarrow> f y) = Inr z \<longleftrightarrow> (\<exists>y. x = Some y \<and> f y = Inr z)"
  "(case x of None \<Rightarrow> g | Some y \<Rightarrow> Inl (f' y)) = Inr z \<longleftrightarrow> x = None \<and> g = Inr z"
  by (cases x; simp)+

lemma if_Inl_Inr_iff [tx_simps]:
  "(if b then Inl e else r) = Inr z \<longleftrightarrow> \<not> b \<and> r = Inr z"
  by simp

lemma run_tx_rollback [tx_simps]: "body s = Inl e \<Longrightarrow> run_tx body s = (s, Inl e)"
  by (simp add: run_tx_def)

lemma run_tx_commit [tx_simps]: "body s = Inr (s', r) \<Longrightarrow> run_tx body s = (s', r)"
  by (simp add: run_tx_def)

lemma run_tx_Inr_iff: "run_tx body s = (s', Inr x) \<longleftrightarrow> body s = Inr (s', Inr x)"
  by (auto simp: run_tx_def split: sum.splits)

lemma run_tx_Inl_iff:
  "run_tx body s = (s', Inl e) \<longleftrightarrow> body s = Inl e \<and> s' = s \<or> body s = Inr (s', Inl e)"
  by (auto simp: run_tx_def split: sum.splits)

lemma run_tx_cases:
  assumes "run_tx body s = (s', r)"
  obtains (rollback) e where "body s = Inl e" "s' = s" "r = Inl e"
  | (commit) "body s = Inr (s', r)"
proof (cases "body s")
  case (Inl e)
  with assms have "s' = s" "r = Inl e" by (simp_all add: run_tx_def)
  with Inl show ?thesis by (rule rollback)
next
  case (Inr p)
  with assms have "body s = Inr (s', r)" by (cases p) (simp add: run_tx_def)
  then show ?thesis by (rule commit)
qed

section \<open>Strings\<close>

text \<open>
  A Rust string is the list of its UTF-8 bytes; the byte-wise order of \<open>str\<close> is the
  lexicographic order of \<open>List_Lexorder\<close> over \<open>Char_ord\<close>.
\<close>

definition is_ascii_digit :: "char \<Rightarrow> bool" where
  "is_ascii_digit c \<longleftrightarrow> CHR ''0'' \<le> c \<and> c \<le> CHR ''9''"

definition is_ascii_lower :: "char \<Rightarrow> bool" where
  "is_ascii_lower c \<longleftrightarrow> CHR ''a'' \<le> c \<and> c \<le> CHR ''z''"

definition is_ascii_upper :: "char \<Rightarrow> bool" where
  "is_ascii_upper c \<longleftrightarrow> CHR ''A'' \<le> c \<and> c \<le> CHR ''Z''"

definition is_ascii_alphanumeric :: "char \<Rightarrow> bool" where
  "is_ascii_alphanumeric c \<longleftrightarrow> is_ascii_digit c \<or> is_ascii_lower c \<or> is_ascii_upper c"

definition is_ascii_hexdigit :: "char \<Rightarrow> bool" where
  "is_ascii_hexdigit c \<longleftrightarrow> is_ascii_digit c \<or> (CHR ''a'' \<le> c \<and> c \<le> CHR ''f'')
     \<or> (CHR ''A'' \<le> c \<and> c \<le> CHR ''F'')"

definition is_lower_hexdigit :: "char \<Rightarrow> bool" where
  "is_lower_hexdigit c \<longleftrightarrow> is_ascii_digit c \<or> (CHR ''a'' \<le> c \<and> c \<le> CHR ''f'')"

definition is_ascii_space :: "char \<Rightarrow> bool" where
  "is_ascii_space c \<longleftrightarrow> c = CHR '' '' \<or> (CHR 0x09 \<le> c \<and> c \<le> CHR 0x0D)"

definition to_ascii_lower_char :: "char \<Rightarrow> char" where
  "to_ascii_lower_char c = (if is_ascii_upper c then char_of (of_char c + (32 :: nat)) else c)"

definition to_ascii_lowercase :: "string \<Rightarrow> string" where
  "to_ascii_lowercase s = map to_ascii_lower_char s"

definition starts_with :: "string \<Rightarrow> string \<Rightarrow> bool" where
  "starts_with p s \<longleftrightarrow> take (length p) s = p"

fun str_contains :: "string \<Rightarrow> string \<Rightarrow> bool" where
  "str_contains n [] = (n = [])"
| "str_contains n (c # cs) = (starts_with n (c # cs) \<or> str_contains n cs)"

fun split_on :: "char \<Rightarrow> string \<Rightarrow> string list" where
  "split_on d [] = [[]]"
| "split_on d (c # cs) =
     (if c = d then [] # split_on d cs
      else case split_on d cs of [] \<Rightarrow> [[c]] | w # ws \<Rightarrow> (c # w) # ws)"

text \<open>
  \<open>s.trim().is_empty()\<close>: every character has the Unicode property White_Space. On UTF-8
  bytes, \<open>whitespace_len\<close> is the length of the white-space character at the front, 0 when
  there is none.
\<close>

fun whitespace_len :: "string \<Rightarrow> nat" where
  "whitespace_len [] = 0"
| "whitespace_len (a # s) =
     (if is_ascii_space a then 1
      else case s of
        [] \<Rightarrow> 0
      | b # t \<Rightarrow>
          if a = CHR 0xC2 \<and> (b = CHR 0x85 \<or> b = CHR 0xA0) then 2
          else (case t of
            [] \<Rightarrow> 0
          | c # _ \<Rightarrow>
              if a = CHR 0xE1 \<and> b = CHR 0x9A \<and> c = CHR 0x80
                \<or> a = CHR 0xE2 \<and> b = CHR 0x80
                   \<and> (CHR 0x80 \<le> c \<and> c \<le> CHR 0x8A \<or> c = CHR 0xA8 \<or> c = CHR 0xA9 \<or> c = CHR 0xAF)
                \<or> a = CHR 0xE2 \<and> b = CHR 0x81 \<and> c = CHR 0x9F
                \<or> a = CHR 0xE3 \<and> b = CHR 0x80 \<and> c = CHR 0x80
              then 3 else 0))"

function trims_to_empty :: "string \<Rightarrow> bool" where
  "trims_to_empty s =
     (if s = [] then True
      else if whitespace_len s = 0 then False
      else trims_to_empty (drop (whitespace_len s) s))"
  by pat_completeness auto

termination by (relation "measure length") auto

declare trims_to_empty.simps [simp del]

lemma trims_to_empty_Nil [simp]: "trims_to_empty []"
  by (subst trims_to_empty.simps) simp

lemma not_trims_to_empty:
  assumes "\<not> is_ascii_space c" "c \<notin> {CHR 0xC2, CHR 0xE1, CHR 0xE2, CHR 0xE3}"
  shows "\<not> trims_to_empty (c # s)"
proof -
  have "whitespace_len (c # s) = 0" using assms by (auto split: list.splits)
  then show ?thesis by (subst trims_to_empty.simps) simp
qed

fun dec_nat :: "nat \<Rightarrow> string" where
  "dec_nat n = (if n < 10 then [char_of (48 + n)]
     else dec_nat (n div 10) @ [char_of (48 + n mod 10)])"

declare dec_nat.simps [simp del]

definition dec_u64 :: "'a::len word \<Rightarrow> string" where
  "dec_u64 w = dec_nat (unat w)"

section \<open>Generic interfaces\<close>

text \<open>
  Many enums are stored and sent as strings by \<open>as_str\<close> and read back by \<open>parse\<close>.
  The contract is that parsing undoes printing; then distinct values have distinct strings.
\<close>

locale wire_enum =
  fixes as_str :: "'a \<Rightarrow> string" and parse :: "string \<Rightarrow> 'a"
  assumes parse_as_str: "parse (as_str x) = x"
begin

lemma as_str_inject: "as_str x = as_str y \<longleftrightarrow> x = y"
  by (metis parse_as_str)

lemma as_str_inj: "inj as_str"
  by (rule injI) (simp add: as_str_inject)

end

section \<open>Decimal text\<close>

definition dec_value :: "string \<Rightarrow> nat" where
  "dec_value s = foldl (\<lambda>n ch. 10 * n + (of_char ch - 48)) 0 s"

lemma digit_char: "d < 10 \<Longrightarrow> is_ascii_digit (char_of (48 + d :: nat)) \<and> of_char (char_of (48 + d :: nat)) = 48 + d"
proof -
  assume d: "d < 10"
  have v: "of_char (char_of (48 + d :: nat)) = 48 + d" using d by simp
  moreover have "is_ascii_digit (char_of (48 + d :: nat))"
    using d by (simp add: is_ascii_digit_def less_eq_char_def)
  ultimately show ?thesis by simp
qed

lemma dec_nat_digits: "list_all is_ascii_digit (dec_nat n)"
proof (induction n rule: dec_nat.induct)
  case (1 n)
  show ?case
    by (subst dec_nat.simps) (use 1 digit_char [of n] digit_char [of "n mod 10"] in auto)
qed

lemma dec_nat_value: "dec_value (dec_nat n) = n"
proof (induction n rule: dec_nat.induct)
  case (1 n)
  show ?case
    by (subst dec_nat.simps)
      (use 1 digit_char [of n] digit_char [of "n mod 10"] in \<open>auto simp: dec_value_def\<close>)
qed

lemma dec_nat_length: "0 < k \<Longrightarrow> n < 10 ^ k \<Longrightarrow> length (dec_nat n) \<le> k"
proof (induction k arbitrary: n)
  case (Suc k)
  show ?case
  proof (cases "n < 10")
    case True then show ?thesis by (subst dec_nat.simps) simp
  next
    case False
    then have "0 < k" using Suc.prems by (cases k) auto
    moreover have "n div 10 < 10 ^ k" using Suc.prems by (simp add: less_mult_imp_div_less mult.commute)
    ultimately have "length (dec_nat (n div 10)) \<le> k" by (rule Suc.IH)
    with False show ?thesis by (subst dec_nat.simps) simp
  qed
qed simp

lemma dec_value_zeros: "dec_value (replicate k (CHR ''0'') @ s) = dec_value s"
  by (induction k) (simp_all add: dec_value_def)

lemma dec_nat_inject [simp]: "dec_nat m = dec_nat n \<longleftrightarrow> m = n"
  by (metis dec_nat_value)

text \<open>
  Reachable states of a transition system and the interface of an invariant that its
  initial states satisfy and its steps keep.
\<close>

inductive reach :: "('s \<Rightarrow> bool) \<Rightarrow> ('s \<Rightarrow> 's \<Rightarrow> bool) \<Rightarrow> 's \<Rightarrow> bool" for init step where
  reach_init: "init s \<Longrightarrow> reach init step s"
| reach_step: "reach init step s \<Longrightarrow> step s t \<Longrightarrow> reach init step t"

locale safe_system =
  fixes init :: "'s \<Rightarrow> bool" and step :: "'s \<Rightarrow> 's \<Rightarrow> bool" and inv :: "'s \<Rightarrow> bool"
  assumes init_inv: "init s \<Longrightarrow> inv s"
    and step_inv: "inv s \<Longrightarrow> step s t \<Longrightarrow> inv t"
begin

lemma reach_inv: "reach init step s \<Longrightarrow> inv s"
  by (induction rule: reach.induct) (auto intro: init_inv step_inv)

lemma star_inv: "step\<^sup>*\<^sup>* s t \<Longrightarrow> inv s \<Longrightarrow> inv t"
  by (induction rule: rtranclp_induct) (auto intro: step_inv)

end

end
