(* ===== verification/Ordered_Map.thy ===== *)
theory Ordered_Map
  imports Prelude
begin

text \<open>
  Keyed containers. \<open>keyed_store\<close> is the interface the components use; two providers are
  interpreted here: the standard library's \<open>BTreeMap\<close>, kept as an association list in key
  order so that iteration visits the keys in the order the code sees them, and an SQLite table
  with a primary key, kept as its rows in insertion order.
\<close>

section \<open>The interface\<close>

locale keyed_store =
  fixes get :: "'m \<Rightarrow> 'k \<Rightarrow> 'v option" and put :: "'k \<Rightarrow> 'v \<Rightarrow> 'm \<Rightarrow> 'm"
    and entries :: "'m \<Rightarrow> ('k \<times> 'v) list" and wf :: "'m \<Rightarrow> bool" and fits :: "'k \<Rightarrow> 'v \<Rightarrow> bool"
  assumes get_put: "wf m \<Longrightarrow> fits k v \<Longrightarrow> get (put k v m) j = (if j = k then Some v else get m j)"
    and wf_put: "wf m \<Longrightarrow> fits k v \<Longrightarrow> wf (put k v m)"
    and entries_get: "wf m \<Longrightarrow> map_of (entries m) k = get m k"
    and entries_distinct: "wf m \<Longrightarrow> distinct (map fst (entries m))"
begin

lemma get_put_same: "wf m \<Longrightarrow> fits k v \<Longrightarrow> get (put k v m) k = Some v"
  by (simp add: get_put)

lemma get_put_other: "wf m \<Longrightarrow> fits k v \<Longrightarrow> j \<noteq> k \<Longrightarrow> get (put k v m) j = get m j"
  by (simp add: get_put)

lemma in_entries_iff: "wf m \<Longrightarrow> (k, v) \<in> set (entries m) \<longleftrightarrow> get m k = Some v"
  by (simp add: entries_get [symmetric] entries_distinct)

lemma key_in_entries_iff: "wf m \<Longrightarrow> k \<in> fst ` set (entries m) \<longleftrightarrow> get m k \<noteq> None"
  by (simp add: entries_get [symmetric] map_of_eq_None_iff)

lemma keys_put: "wf m \<Longrightarrow> fits k v \<Longrightarrow>
    fst ` set (entries (put k v m)) = insert k (fst ` set (entries m))"
  by (rule set_eqI) (simp add: key_in_entries_iff wf_put get_put)

end

section \<open>BTreeMap\<close>

type_synonym ('k, 'v) btree_map = "('k \<times> 'v) list"

definition bt_get :: "('k, 'v) btree_map \<Rightarrow> 'k \<Rightarrow> 'v option" where
  "bt_get m k = map_of m k"

fun bt_insert :: "'k::linorder \<Rightarrow> 'v \<Rightarrow> ('k, 'v) btree_map \<Rightarrow> ('k, 'v) btree_map" where
  "bt_insert k v [] = [(k, v)]"
| "bt_insert k v ((a, b) # m) =
     (if k < a then (k, v) # (a, b) # m
      else if k = a then (k, v) # m
      else (a, b) # bt_insert k v m)"

definition bt_retain :: "('k \<Rightarrow> 'v \<Rightarrow> bool) \<Rightarrow> ('k, 'v) btree_map \<Rightarrow> ('k, 'v) btree_map" where
  "bt_retain P m = filter (\<lambda>(k, v). P k v) m"

definition bt_get_or :: "'v \<Rightarrow> ('k, 'v) btree_map \<Rightarrow> 'k \<Rightarrow> 'v" where
  "bt_get_or d m k = (case bt_get m k of None \<Rightarrow> d | Some v \<Rightarrow> v)"

definition bt_keys :: "('k, 'v) btree_map \<Rightarrow> 'k list" where
  "bt_keys m = map fst m"

definition bt_wf :: "('k::linorder, 'v) btree_map \<Rightarrow> bool" where
  "bt_wf m \<longleftrightarrow> sorted_wrt (<) (map fst m)"

lemma bt_wf_simps [simp]:
  "bt_wf []" "bt_wf ((k, v) # m) \<longleftrightarrow> (\<forall>j\<in>fst ` set m. k < j) \<and> bt_wf m"
  by (auto simp: bt_wf_def)

lemma bt_get_Nil [simp]: "bt_get [] k = None"
  by (simp add: bt_get_def)

lemma bt_get_insert [simp]: "bt_get (bt_insert k v m) j = (if j = k then Some v else bt_get m j)"
  by (induction m) (auto simp: bt_get_def)

lemma bt_keys_insert: "fst ` set (bt_insert k v m) = insert k (fst ` set m)"
proof (induction m)
  case (Cons p m)
  then show ?case by (cases p) auto
qed simp

lemma bt_wf_insert [simp]: "bt_wf m \<Longrightarrow> bt_wf (bt_insert k v m)"
proof (induction m)
  case (Cons p m)
  then show ?case
    by (cases p) (auto simp: bt_keys_insert)
qed simp

lemma bt_wf_distinct: "bt_wf m \<Longrightarrow> distinct (map fst m)"
  by (simp add: bt_wf_def strict_sorted_iff)

lemma bt_wf_retain [simp]: "bt_wf m \<Longrightarrow> bt_wf (bt_retain P m)"
  unfolding bt_wf_def bt_retain_def by (induction m) auto

lemma bt_get_retain: "bt_wf m \<Longrightarrow>
    bt_get (bt_retain P m) k = (case bt_get m k of Some v \<Rightarrow> if P k v then Some v else None | None \<Rightarrow> None)"
  unfolding bt_get_def bt_retain_def
proof (induction m)
  case (Cons p m)
  obtain a b where p: "p = (a, b)" by (cases p)
  have "map_of m a = None" using Cons.prems p by (auto simp: map_of_eq_None_iff)
  then show ?case using Cons p by (auto split: option.splits)
qed simp

lemma bt_get_in: "bt_get m k = Some v \<Longrightarrow> (k, v) \<in> set m"
  by (simp add: bt_get_def map_of_SomeD)

interpretation btree: keyed_store bt_get bt_insert "\<lambda>m. m" bt_wf "\<lambda>_ _. True"
  by unfold_locales (auto simp: bt_get_def [symmetric] bt_wf_distinct)

section \<open>SQLite tables with a primary key\<close>

definition sel_row :: "('r \<Rightarrow> 'k) \<Rightarrow> 'k \<Rightarrow> 'r list \<Rightarrow> 'r option" where
  "sel_row pk k rows = find (\<lambda>r. pk r = k) rows"

definition insert_row :: "('r \<Rightarrow> 'k) \<Rightarrow> 'r \<Rightarrow> 'r list \<Rightarrow> 'r list option" where
  "insert_row pk r rows = (if sel_row pk (pk r) rows = None then Some (rows @ [r]) else None)"

definition update_rows :: "('r \<Rightarrow> bool) \<Rightarrow> ('r \<Rightarrow> 'r) \<Rightarrow> 'r list \<Rightarrow> 'r list" where
  "update_rows P f rows = map (\<lambda>r. if P r then f r else r) rows"

definition count_rows :: "('r \<Rightarrow> bool) \<Rightarrow> 'r list \<Rightarrow> nat" where
  "count_rows P rows = length (filter P rows)"

definition upsert_row :: "('r \<Rightarrow> 'k) \<Rightarrow> ('r \<Rightarrow> 'r) \<Rightarrow> 'r \<Rightarrow> 'r list \<Rightarrow> 'r list" where
  "upsert_row pk merge r rows =
     (if sel_row pk (pk r) rows = None then rows @ [r]
      else update_rows (\<lambda>q. pk q = pk r) merge rows)"

definition pk_wf :: "('r \<Rightarrow> 'k) \<Rightarrow> 'r list \<Rightarrow> bool" where
  "pk_wf pk rows \<longleftrightarrow> distinct (map pk rows)"

lemma sel_row_simps [simp]:
  "sel_row pk k [] = None"
  "sel_row pk k (r # rows) = (if pk r = k then Some r else sel_row pk k rows)"
  by (simp_all add: sel_row_def)

lemma sel_row_SomeD: "sel_row pk k rows = Some r \<Longrightarrow> r \<in> set rows \<and> pk r = k"
  by (induction rows) (auto split: if_splits)

lemma sel_row_None_iff: "sel_row pk k rows = None \<longleftrightarrow> k \<notin> pk ` set rows"
  by (induction rows) auto

lemma sel_row_mem: "pk_wf pk rows \<Longrightarrow> r \<in> set rows \<Longrightarrow> sel_row pk (pk r) rows = Some r"
  unfolding pk_wf_def by (induction rows) (auto simp: image_iff)

lemma sel_row_append: "sel_row pk k (xs @ ys) =
    (case sel_row pk k xs of None \<Rightarrow> sel_row pk k ys | Some r \<Rightarrow> Some r)"
  by (induction xs) auto

lemma insert_row_SomeD: "insert_row pk r rows = Some rows' \<Longrightarrow>
    rows' = rows @ [r] \<and> pk r \<notin> pk ` set rows"
  by (auto simp: insert_row_def sel_row_None_iff split: if_splits)

lemma pk_wf_append1 [simp]: "pk_wf pk (rows @ [r]) \<longleftrightarrow> pk_wf pk rows \<and> pk r \<notin> pk ` set rows"
  by (auto simp: pk_wf_def)

lemma pk_wf_insert: "insert_row pk r rows = Some rows' \<Longrightarrow> pk_wf pk rows \<Longrightarrow> pk_wf pk rows'"
  by (auto dest: insert_row_SomeD)

lemma update_rows_keys: "(\<And>r. pk (f r) = pk r) \<Longrightarrow> map pk (update_rows P f rows) = map pk rows"
  by (simp add: update_rows_def)

lemma pk_wf_update: "(\<And>r. pk (f r) = pk r) \<Longrightarrow> pk_wf pk (update_rows P f rows) = pk_wf pk rows"
  by (simp add: pk_wf_def update_rows_keys)

lemma sel_row_update: "(\<And>r. pk (f r) = pk r) \<Longrightarrow>
    sel_row pk k (update_rows P f rows) = map_option (\<lambda>r. if P r then f r else r) (sel_row pk k rows)"
  unfolding update_rows_def by (induction rows) auto

lemma set_update_rows: "set (update_rows P f rows) = (\<lambda>r. if P r then f r else r) ` set rows"
  by (simp add: update_rows_def)

lemma mem_update_rows: "q \<in> set rows \<Longrightarrow> (if P q then f q else q) \<in> set (update_rows P f rows)"
  by (auto simp: update_rows_def)

lemma pk_eq: "pk_wf pk rows \<Longrightarrow> a \<in> set rows \<Longrightarrow> b \<in> set rows \<Longrightarrow> pk a = pk b \<Longrightarrow> a = b"
  by (metis option.inject sel_row_mem)

lemma length_update_rows [simp]: "length (update_rows P f rows) = length rows"
  by (simp add: update_rows_def)

lemma update_rows_none: "(\<And>r. r \<in> set rows \<Longrightarrow> \<not> P r) \<Longrightarrow> update_rows P f rows = rows"
  by (simp add: update_rows_def map_idI)

lemma count_rows_0_iff: "count_rows P rows = 0 \<longleftrightarrow> (\<forall>r\<in>set rows. \<not> P r)"
  by (auto simp: count_rows_def filter_empty_conv)

lemma count_rows_pk: "pk_wf pk rows \<Longrightarrow> (\<And>r. P r \<Longrightarrow> pk r = k) \<Longrightarrow>
    count_rows P rows = (case sel_row pk k rows of Some r \<Rightarrow> if P r then 1 else 0 | None \<Rightarrow> 0)"
proof (induction rows)
  case (Cons r rows)
  have "filter P rows = []" if "pk r = k"
    using that Cons.prems by (auto simp: pk_wf_def filter_empty_conv image_iff)
  with Cons show ?case
    by (auto simp: count_rows_def pk_wf_def split: option.splits)
qed (simp add: count_rows_def)

lemma pk_wf_upsert: "pk_wf pk rows \<Longrightarrow> (\<And>q. pk (merge q) = pk q) \<Longrightarrow> pk_wf pk (upsert_row pk merge r rows)"
  by (auto simp: upsert_row_def sel_row_None_iff pk_wf_update)

lemma sel_row_upsert:
  assumes "\<And>q. pk (merge q) = pk q"
  shows "sel_row pk k (upsert_row pk merge r rows) =
    (if k = pk r then Some (case sel_row pk k rows of None \<Rightarrow> r | Some q \<Rightarrow> merge q)
     else sel_row pk k rows)"
  using assms
  by (auto simp: upsert_row_def sel_row_append sel_row_update dest!: sel_row_SomeD split: option.splits)

text \<open>
  A whole-row upsert (every column the model keeps is replaced by \<open>excluded\<close>) is the
  interface's \<open>put\<close>; a row fits its key.
\<close>

lemma replace_row_get: "pk v = k \<Longrightarrow> pk_wf pk m \<Longrightarrow>
    sel_row pk j (update_rows (\<lambda>q. pk q = k) (\<lambda>_. v) m) =
      (if j = k \<and> sel_row pk k m \<noteq> None then Some v else sel_row pk j m)"
  unfolding update_rows_def pk_wf_def
  by (induction m) auto

lemma replace_row_keys: "pk v = k \<Longrightarrow> map pk (update_rows (\<lambda>q. pk q = k) (\<lambda>_. v) m) = map pk m"
  by (simp add: update_rows_def)

interpretation sql_table: keyed_store "\<lambda>rows k. sel_row pk k rows"
  "\<lambda>k v rows. upsert_row pk (\<lambda>_. v) v rows" "map (\<lambda>r. (pk r, r))" "pk_wf pk" "\<lambda>k v. pk v = k"
  for pk :: "'r \<Rightarrow> 'k"
proof unfold_locales
  fix m k v j
  assume m: "pk_wf pk m" and v: "pk v = k"
  show "sel_row pk j (upsert_row pk (\<lambda>_. v) v m) = (if j = k then Some v else sel_row pk j m)"
    using m v by (auto simp: upsert_row_def sel_row_append replace_row_get split: option.splits)
  show "pk_wf pk (upsert_row pk (\<lambda>_. v) v m)"
    using m v by (auto simp: upsert_row_def sel_row_None_iff pk_wf_def replace_row_keys)
next
  fix m k
  show "map_of (map (\<lambda>r. (pk r, r)) m) k = sel_row pk k m"
    by (induction m) auto
next
  fix m
  assume "pk_wf pk m"
  then show "distinct (map fst (map (\<lambda>r. (pk r, r)) m))"
    by (simp add: pk_wf_def comp_def)
qed

lemmas sql_simps = sel_row_append sel_row_update sel_row_upsert pk_wf_update pk_wf_upsert
  set_update_rows

end
