(* ===== verification/Error_Model.thy ===== *)
theory Error_Model
  imports Prelude
begin

text \<open>
  The error type of \<open>crates/devrelay-core/src/error.rs\<close>: its variants, the stable machine
  codes, and the human-readable rendering. A variant that wraps a library error carries that
  error's display text.
\<close>

datatype dr_error =
    Io string
  | Toml string
  | TomlSerialize string
  | Json string
  | Sqlite string
  | Glob string
  | Config string
  | Ipc string
  | Watcher string
  | Recover string
  | Manifest string
  | GitCommand string string string
  | NotGitRepository string
  | TargetDirty string
  | MissingSourceObject string
  | SnapshotMetadata string
  | UnsupportedRepositoryState string
  | Verification string

type_synonym 'a result = "dr_error + 'a"

fun error_code :: "dr_error \<Rightarrow> string" where
  "error_code (Io _) = ''DR-STORAGE-IO''"
| "error_code (Toml _) = ''DR-MANIFEST-INVALID''"
| "error_code (TomlSerialize _) = ''DR-MANIFEST-INVALID''"
| "error_code (Manifest _) = ''DR-MANIFEST-INVALID''"
| "error_code (Json _) = ''DR-SNAPSHOT-JSON''"
| "error_code (Sqlite _) = ''DR-STORAGE-SQLITE''"
| "error_code (Glob _) = ''DR-MANIFEST-GLOB''"
| "error_code (Config _) = ''DR-CONFIG''"
| "error_code (Ipc _) = ''DR-IPC-LOCAL''"
| "error_code (Watcher _) = ''DR-WATCHER''"
| "error_code (Recover _) = ''DR-RECOVER-SNAPSHOT-NOT-FOUND''"
| "error_code (GitCommand _ _ _) = ''DR-GIT-COMMAND''"
| "error_code (NotGitRepository _) = ''DR-GIT-NOT-REPOSITORY''"
| "error_code (TargetDirty _) = ''DR-APPLY-DIRTY-TARGET''"
| "error_code (MissingSourceObject _) = ''DR-APPLY-MISSING-SOURCE-OBJECT''"
| "error_code (SnapshotMetadata _) = ''DR-SNAPSHOT-METADATA''"
| "error_code (UnsupportedRepositoryState _) = ''DR-GIT-UNSUPPORTED-STATE''"
| "error_code (Verification _) = ''DR-APPLY-VERIFICATION-MISMATCH''"

fun error_to_string :: "dr_error \<Rightarrow> string" where
  "error_to_string (Io s) = ''I/O error: '' @ s"
| "error_to_string (Toml s) = ''TOML parse error: '' @ s"
| "error_to_string (TomlSerialize s) = ''TOML serialize error: '' @ s"
| "error_to_string (Json s) = ''JSON error: '' @ s"
| "error_to_string (Sqlite s) = ''SQLite error: '' @ s"
| "error_to_string (Glob s) = ''glob pattern error: '' @ s"
| "error_to_string (Config s) = ''configuration error: '' @ s"
| "error_to_string (Ipc s) = ''IPC error: '' @ s"
| "error_to_string (Watcher s) = ''filesystem watcher error: '' @ s"
| "error_to_string (Recover s) = ''recovery error: '' @ s"
| "error_to_string (Manifest s) = ''manifest validation failed: '' @ s"
| "error_to_string (GitCommand cwd args err) =
     ''git command failed in '' @ cwd @ '': git '' @ args @ [CHR 0x0A] @ err"
| "error_to_string (NotGitRepository s) = ''path is not a Git repository: '' @ s"
| "error_to_string (TargetDirty s) = ''target workspace is dirty: '' @ s"
| "error_to_string (MissingSourceObject s) = ''missing source snapshot object: '' @ s"
| "error_to_string (SnapshotMetadata s) = ''snapshot metadata validation failed: '' @ s"
| "error_to_string (UnsupportedRepositoryState s) = ''unsupported repository state: '' @ s"
| "error_to_string (Verification s) = ''snapshot verification failed: '' @ s"

text \<open>
  The errors SQLite itself raises in the statements the model executes: a primary-key or unique
  violation and a foreign-key violation.
\<close>

definition sqlite_unique_violation :: dr_error where
  "sqlite_unique_violation = Sqlite ''UNIQUE constraint failed''"

definition sqlite_foreign_key_violation :: dr_error where
  "sqlite_foreign_key_violation = Sqlite ''FOREIGN KEY constraint failed''"

end
