(* ===== verification/Lease_Model.thy ===== *)
theory Lease_Model
  imports Error_Model
begin

text \<open>
  The single-writer lease and the handoff enums: \<open>lease.rs\<close>, \<open>handoff.rs\<close>,
  \<open>session.rs\<close> of \<open>crates/devrelay-core/src\<close>, with the string forms the database stores.
\<close>

section \<open>Lease states\<close>

datatype lease_state = Active | HandoffPending | Committing | Inactive | Forked | Archived

fun lease_state_as_str :: "lease_state \<Rightarrow> string" where
  "lease_state_as_str Active = ''active''"
| "lease_state_as_str HandoffPending = ''handoff-pending''"
| "lease_state_as_str Committing = ''committing''"
| "lease_state_as_str Inactive = ''inactive''"
| "lease_state_as_str Forked = ''forked''"
| "lease_state_as_str Archived = ''archived''"

definition parse_lease_state :: "string \<Rightarrow> lease_state" where
  "parse_lease_state v =
     (if v = ''handoff-pending'' then HandoffPending
      else if v = ''committing'' then Committing
      else if v = ''inactive'' then Inactive
      else if v = ''forked'' then Forked
      else if v = ''archived'' then Archived
      else Active)"

fun can_transition_to :: "lease_state \<Rightarrow> lease_state \<Rightarrow> bool" where
  "can_transition_to Active Active = True"
| "can_transition_to Active HandoffPending = True"
| "can_transition_to Active Committing = True"
| "can_transition_to Active Inactive = True"
| "can_transition_to Active Archived = True"
| "can_transition_to HandoffPending Active = True"
| "can_transition_to HandoffPending HandoffPending = True"
| "can_transition_to HandoffPending Committing = True"
| "can_transition_to HandoffPending Archived = True"
| "can_transition_to Committing Active = True"
| "can_transition_to Committing Committing = True"
| "can_transition_to Committing Inactive = True"
| "can_transition_to Inactive Inactive = True"
| "can_transition_to Inactive Forked = True"
| "can_transition_to Inactive Archived = True"
| "can_transition_to Forked Forked = True"
| "can_transition_to Forked Archived = True"
| "can_transition_to Archived Archived = True"
| "can_transition_to _ _ = False"

interpretation lease_wire: wire_enum lease_state_as_str parse_lease_state
proof unfold_locales
  fix x :: lease_state
  show "parse_lease_state (lease_state_as_str x) = x"
    by (cases x) (simp_all add: parse_lease_state_def)
qed

section \<open>Lease records\<close>

record lease_record =
  lr_lease_id :: string
  lr_project_id :: string
  lr_session_id :: string
  lr_state :: lease_state
  lr_epoch :: u64
  lr_holder_device_id :: "string option"
  lr_latest_snapshot_id :: "string option"
  lr_handoff_id :: "string option"

definition validate_transition_to :: "lease_record \<Rightarrow> lease_record \<Rightarrow> unit result" where
  "validate_transition_to self next =
     (if lr_lease_id self \<noteq> lr_lease_id next
      then Inl (Config ''lease transition cannot change lease_id'')
      else if lr_project_id self \<noteq> lr_project_id next
      then Inl (Config ''lease transition cannot change project_id'')
      else if lr_session_id self \<noteq> lr_session_id next
      then Inl (Config ''lease transition cannot change session_id'')
      else if \<not> can_transition_to (lr_state self) (lr_state next)
      then Inl (Config (''illegal lease transition '' @ lease_state_as_str (lr_state self)
             @ '' -> '' @ lease_state_as_str (lr_state next)))
      else if lr_epoch next < lr_epoch self
      then Inl (Config (''lease epoch cannot decrease from '' @ dec_u64 (lr_epoch self)
             @ '' to '' @ dec_u64 (lr_epoch next)))
      else if lr_state self = Committing \<and> lr_state next = Active
              \<and> lr_epoch next = lr_epoch self
      then Inl (Config ''committed lease handoff must increment epoch'')
      else Inr ())"

lemma can_transition_refl: "can_transition_to s s"
  by (cases s) simp_all

lemma archived_is_final: "can_transition_to Archived t \<longleftrightarrow> t = Archived"
  by (cases t) simp_all

lemma validate_transition_Inr:
  "validate_transition_to a b = Inr () \<longleftrightarrow>
     lr_lease_id a = lr_lease_id b \<and> lr_project_id a = lr_project_id b
     \<and> lr_session_id a = lr_session_id b \<and> can_transition_to (lr_state a) (lr_state b)
     \<and> lr_epoch a \<le> lr_epoch b
     \<and> (lr_state a = Committing \<and> lr_state b = Active \<longrightarrow> lr_epoch a < lr_epoch b)"
  by (auto simp: validate_transition_to_def not_less order.strict_iff_order)

section \<open>Handoff states and journal phases\<close>

datatype handoff_state = TargetPrepare | TargetVerified | SourceReady | Committed | Aborted

fun handoff_state_as_str :: "handoff_state \<Rightarrow> string" where
  "handoff_state_as_str TargetPrepare = ''target-prepare''"
| "handoff_state_as_str TargetVerified = ''target-verified''"
| "handoff_state_as_str SourceReady = ''source-ready''"
| "handoff_state_as_str Committed = ''committed''"
| "handoff_state_as_str Aborted = ''aborted''"

definition parse_handoff_state :: "string \<Rightarrow> handoff_state" where
  "parse_handoff_state v =
     (if v = ''target-verified'' then TargetVerified
      else if v = ''source-ready'' then SourceReady
      else if v = ''committed'' then Committed
      else if v = ''aborted'' then Aborted
      else TargetPrepare)"

fun handoff_is_terminal :: "handoff_state \<Rightarrow> bool" where
  "handoff_is_terminal Committed = True"
| "handoff_is_terminal Aborted = True"
| "handoff_is_terminal _ = False"

interpretation handoff_wire: wire_enum handoff_state_as_str parse_handoff_state
proof unfold_locales
  fix x :: handoff_state
  show "parse_handoff_state (handoff_state_as_str x) = x"
    by (cases x) (simp_all add: parse_handoff_state_def)
qed

datatype journal_phase =
    PhBegin | PhTargetPrepare | PhTargetApply | PhTargetVerified | PhSourceReady
  | PhLeaseCommitted | PhAborted

fun journal_phase_as_str :: "journal_phase \<Rightarrow> string" where
  "journal_phase_as_str PhBegin = ''begin''"
| "journal_phase_as_str PhTargetPrepare = ''target-prepare''"
| "journal_phase_as_str PhTargetApply = ''target-apply''"
| "journal_phase_as_str PhTargetVerified = ''target-verified''"
| "journal_phase_as_str PhSourceReady = ''source-ready''"
| "journal_phase_as_str PhLeaseCommitted = ''lease-committed''"
| "journal_phase_as_str PhAborted = ''aborted''"

definition parse_journal_phase :: "string \<Rightarrow> journal_phase" where
  "parse_journal_phase v =
     (if v = ''target-prepare'' then PhTargetPrepare
      else if v = ''target-apply'' then PhTargetApply
      else if v = ''target-verified'' then PhTargetVerified
      else if v = ''source-ready'' then PhSourceReady
      else if v = ''lease-committed'' then PhLeaseCommitted
      else if v = ''aborted'' then PhAborted
      else PhBegin)"

interpretation journal_wire: wire_enum journal_phase_as_str parse_journal_phase
proof unfold_locales
  fix x :: journal_phase
  show "parse_journal_phase (journal_phase_as_str x) = x"
    by (cases x) (simp_all add: parse_journal_phase_def)
qed

record handoff_record =
  ho_handoff_id :: string
  ho_lease_id :: string
  ho_project_id :: string
  ho_expected_epoch :: u64
  ho_source_device_id :: string
  ho_target_device_id :: string
  ho_source_generation :: string
  ho_expires_at :: u64
  ho_state :: handoff_state

datatype recovery_outcome =
    WaitingForTarget | RecoveredCommitted | AbortedExpired | AlreadyCommitted | AlreadyAborted

section \<open>Sessions\<close>

datatype session_state = SessActive | SessArchived | SessFork

fun session_state_as_str :: "session_state \<Rightarrow> string" where
  "session_state_as_str SessActive = ''active''"
| "session_state_as_str SessArchived = ''archived''"
| "session_state_as_str SessFork = ''fork''"

definition parse_session_state :: "string \<Rightarrow> session_state" where
  "parse_session_state v =
     (if v = ''archived'' then SessArchived else if v = ''fork'' then SessFork else SessActive)"

interpretation session_wire: wire_enum session_state_as_str parse_session_state
proof unfold_locales
  fix x :: session_state
  show "parse_session_state (session_state_as_str x) = x"
    by (cases x) (simp_all add: parse_session_state_def)
qed

record stored_session =
  ss_session_id :: string
  ss_project_id :: string
  ss_name :: string
  ss_parent_session_id :: "string option"
  ss_active_workspace_id :: "string option"
  ss_state :: session_state
  ss_archived_at :: "u64 option"
  ss_created_at :: u64
  ss_updated_at :: u64

end
