(* ===== verification/Snapshot_Schema.thy ===== *)
theory Snapshot_Schema
  imports Error_Model "HOL-Library.Multiset"
begin

text \<open>
  Snapshot metadata, its validation and the canonical state hash:
  \<open>crates/devrelay-core/src/snapshot_schema.rs\<close>, with the record types it uses from
  \<open>operation_capsule.rs\<close>, \<open>git.rs\<close> and \<open>policy.rs\<close>. BLAKE3 is a parameter: the
  model computes the bytes fed to the hasher.
\<close>

section \<open>Record types\<close>

record status_counts =
  sc_staged :: nat
  sc_unstaged :: nat
  sc_untracked :: nat
  sc_ignored :: nat
  sc_unmerged :: nat

datatype git_operation_kind = Merge | CherryPick | Revert | RebaseMerge | RebaseApply | Sequencer

record git_operation_step =
  st_current :: "u64 option"
  st_total :: "u64 option"

record git_operation_progress =
  pr_interactive :: bool
  pr_original_head_oid :: "string option"
  pr_onto_oid :: "string option"
  pr_head_name :: "string option"
  pr_todo :: "string list"
  pr_done :: "string list"
  pr_current_step :: "git_operation_step option"

record git_operation_metadata =
  op_kind :: git_operation_kind
  op_current_head_oid :: string
  op_operation_oids :: "string list"
  op_original_head_oid :: "string option"
  op_progress :: "git_operation_progress option"

record index_stage_entry =
  ix_stage :: "8 word"
  ix_mode :: string
  ix_oid :: string

record unmerged_index_entry =
  un_path :: string
  un_stages :: "index_stage_entry list"

record conflict_worktree_file =
  cw_path :: string
  cw_contents :: string

record operation_capsule =
  oc_operation :: git_operation_metadata
  oc_unmerged_entries :: "unmerged_index_entry list"
  oc_worktree_files :: "conflict_worktree_file list"

datatype path_decision = Include | Exclude

record classified_path =
  cp_path :: string
  cp_decision :: path_decision
  cp_reason :: string

record snapshot_sidecar =
  sd_logical_path :: string
  sd_file_mode :: string
  sd_classification :: string
  sd_size_bytes :: u64
  sd_chunk_size_bytes :: u64
  sd_root_hash :: string
  sd_cas_manifest_id :: string

record snapshot_child =
  ch_relationship :: string
  ch_path :: string
  ch_project_id :: string
  ch_session_id :: string
  ch_snapshot_id :: string
  ch_state_hash :: string

record snapshot_metadata =
  sm_schema_version :: u32
  sm_snapshot_id :: string
  sm_project_id :: string
  sm_project_name :: string
  sm_session_id :: "string option"
  sm_parent_snapshot_id :: "string option"
  sm_child_snapshots :: "snapshot_child list"
  sm_source_device_id :: "string option"
  sm_branch :: "string option"
  sm_head_oid :: string
  sm_index_tree_oid :: string
  sm_index_commit_oid :: string
  sm_work_tree_oid :: string
  sm_work_commit_oid :: string
  sm_source_status :: status_counts
  sm_operation_capsule :: "operation_capsule option"
  sm_included_untracked :: "string list"
  sm_excluded :: "classified_path list"
  sm_sidecars :: "snapshot_sidecar list"
  sm_state_hash :: string
  sm_created_at :: u64

section \<open>Validation\<close>

definition snapshot_schema_version :: u32 where
  "snapshot_schema_version = 1"

definition is_valid_snapshot_id :: "string \<Rightarrow> bool" where
  "is_valid_snapshot_id s \<longleftrightarrow>
     starts_with ''s1_'' s \<and> length (drop 3 s) = 24 \<and> list_all is_ascii_hexdigit (drop 3 s)"

fun first_empty_field :: "(string \<times> string) list \<Rightarrow> unit result" where
  "first_empty_field [] = Inr ()"
| "first_empty_field ((field, value) # rest) =
     (if value = [] then Inl (SnapshotMetadata (field @ '' must not be empty''))
      else first_empty_field rest)"

definition not_repository_relative :: "string \<Rightarrow> bool" where
  "not_repository_relative p \<longleftrightarrow>
     starts_with ''/'' p \<or> CHR 0x5C \<in> set p \<or> ''..'' \<in> set (split_on CHR ''/'' p)"

definition validate_sidecar :: "snapshot_sidecar \<Rightarrow> unit result" where
  "validate_sidecar s =
     bind_r (first_empty_field
       [(''sidecar.logical_path'', sd_logical_path s), (''sidecar.file_mode'', sd_file_mode s),
        (''sidecar.classification'', sd_classification s), (''sidecar.root_hash'', sd_root_hash s),
        (''sidecar.cas_manifest_id'', sd_cas_manifest_id s)])
     (\<lambda>_. if not_repository_relative (sd_logical_path s)
       then Inl (SnapshotMetadata (''sidecar logical_path '' @ sd_logical_path s
              @ '' must be repository-relative''))
       else if sd_size_bytes s = 0
       then Inl (SnapshotMetadata (''sidecar '' @ sd_logical_path s @ '' size_bytes must be positive''))
       else if sd_chunk_size_bytes s = 0
       then Inl (SnapshotMetadata (''sidecar '' @ sd_logical_path s
              @ '' chunk_size_bytes must be positive''))
       else if sd_root_hash s \<noteq> sd_cas_manifest_id s
       then Inl (SnapshotMetadata (''sidecar '' @ sd_logical_path s
              @ '' root_hash must match cas_manifest_id''))
       else Inr ())"

definition validate_child :: "snapshot_child \<Rightarrow> unit result" where
  "validate_child c =
     bind_r (first_empty_field
       [(''child_snapshots.relationship'', ch_relationship c), (''child_snapshots.path'', ch_path c),
        (''child_snapshots.project_id'', ch_project_id c),
        (''child_snapshots.session_id'', ch_session_id c),
        (''child_snapshots.snapshot_id'', ch_snapshot_id c),
        (''child_snapshots.state_hash'', ch_state_hash c)])
     (\<lambda>_. if not_repository_relative (ch_path c)
       then Inl (SnapshotMetadata (''child snapshot path '' @ ch_path c
              @ '' must be repository-relative''))
       else if \<not> is_valid_snapshot_id (ch_snapshot_id c)
       then Inl (SnapshotMetadata (''child snapshot '' @ ch_path c @ '' has malformed snapshot_id ''
              @ ch_snapshot_id c))
       else Inr ())"

fun validate_all :: "('a \<Rightarrow> unit result) \<Rightarrow> 'a list \<Rightarrow> unit result" where
  "validate_all v [] = Inr ()"
| "validate_all v (x # xs) = bind_r (v x) (\<lambda>_. validate_all v xs)"

definition validate_metadata :: "snapshot_metadata \<Rightarrow> unit result" where
  "validate_metadata m =
     (if sm_schema_version m \<noteq> snapshot_schema_version
      then Inl (SnapshotMetadata (''unsupported snapshot schema '' @ dec_u64 (sm_schema_version m)
             @ '', expected '' @ dec_u64 snapshot_schema_version))
      else if \<not> is_valid_snapshot_id (sm_snapshot_id m)
      then Inl (SnapshotMetadata (''malformed snapshot_id '' @ sm_snapshot_id m))
      else bind_r (first_empty_field
        [(''project_id'', sm_project_id m), (''project_name'', sm_project_name m),
         (''head_oid'', sm_head_oid m), (''index_tree_oid'', sm_index_tree_oid m),
         (''index_commit_oid'', sm_index_commit_oid m), (''work_tree_oid'', sm_work_tree_oid m),
         (''work_commit_oid'', sm_work_commit_oid m), (''state_hash'', sm_state_hash m)])
      (\<lambda>_. bind_r (validate_all validate_sidecar (sm_sidecars m))
      (\<lambda>_. validate_all validate_child (sm_child_snapshots m))))"

lemma first_empty_field_Inr [simp]:
  "first_empty_field fs = Inr () \<longleftrightarrow> (\<forall>f\<in>set fs. snd f \<noteq> [])"
  by (induction fs rule: first_empty_field.induct) auto

lemma validate_all_Inr [simp]: "validate_all v xs = Inr () \<longleftrightarrow> (\<forall>x\<in>set xs. v x = Inr ())"
  by (induction xs) (auto simp: bind_r_Inr_iff)

lemma validate_metadata_Inr:
  "validate_metadata m = Inr () \<longleftrightarrow>
     sm_schema_version m = snapshot_schema_version \<and> is_valid_snapshot_id (sm_snapshot_id m)
     \<and> (\<forall>f\<in>{sm_project_id m, sm_project_name m, sm_head_oid m, sm_index_tree_oid m,
            sm_index_commit_oid m, sm_work_tree_oid m, sm_work_commit_oid m, sm_state_hash m}. f \<noteq> [])
     \<and> (\<forall>s\<in>set (sm_sidecars m). validate_sidecar s = Inr ())
     \<and> (\<forall>c\<in>set (sm_child_snapshots m). validate_child c = Inr ())"
  by (auto simp: validate_metadata_def bind_r_Inr_iff)

lemma validate_metadata_session [simp]:
  "validate_metadata (m\<lparr>sm_session_id := s\<rparr>) = validate_metadata m"
  "validate_metadata (m\<lparr>sm_parent_snapshot_id := p\<rparr>) = validate_metadata m"
  by (simp_all add: validate_metadata_def)

lemma valid_snapshot_id_length: "is_valid_snapshot_id s \<Longrightarrow> length s = 27"
  by (auto simp: is_valid_snapshot_id_def)

end
