(* ===== verification/Db_State.thy ===== *)
theory Db_State
  imports Ordered_Map Lease_Model Snapshot_Schema "HOL-Library.Product_Lexorder"
begin

text \<open>
  The per-project metadata database of \<open>crates/devrelay-core/src/storage.rs\<close>: the tables the
  state machines use, as lists of rows in insertion order, and the statements several
  operations share (journal and audit inserts, the revocation check, input validation, row
  readers). Rows keep the bits that were bound; the readers apply \<open>column_u64\<close>. A table is a
  field of \<open>metadata_db\<close>; AUTOINCREMENT counters are kept beside their tables. The clock,
  generated identifiers and serde\_json are arguments of the operations.
\<close>

section \<open>JSON values\<close>

datatype json =
    JNull | JBool bool | JNum string | JStr string | JArr "json list" | JObj "(string \<times> json) list"

record json_codec =
  js_print :: "json \<Rightarrow> string"
  js_parse :: "string \<Rightarrow> string + json"

definition json_opt_str :: "string option \<Rightarrow> json" where
  "json_opt_str v = (case v of None \<Rightarrow> JNull | Some s \<Rightarrow> JStr s)"

definition json_u64 :: "u64 \<Rightarrow> json" where
  "json_u64 w = JNum (dec_u64 w)"

definition from_str :: "json_codec \<Rightarrow> string \<Rightarrow> json result" where
  "from_str c s = (case js_parse c s of Inl e \<Rightarrow> Inl (Json e) | Inr v \<Rightarrow> Inr v)"

text \<open>
  What the operations rely on for a value they print and read back in the same transaction.
\<close>

definition reads_back :: "json_codec \<Rightarrow> json \<Rightarrow> bool" where
  "reads_back c v \<longleftrightarrow> (case js_parse c (js_print c v) of Inl _ \<Rightarrow> False | Inr _ \<Rightarrow> True)"

lemma reads_back_from_str: "reads_back c v \<Longrightarrow> \<exists>w. from_str c (js_print c v) = Inr w"
  by (auto simp: reads_back_def from_str_def split: sum.splits)

section \<open>Rows\<close>

record project_row =
  pj_project_id :: string
  pj_display_name :: string

record handoff_row = handoff_record +
  hr_created_at :: u64
  hr_committed_at :: "u64 option"
  hr_aborted_at :: "u64 option"

record handoff_journal_record =
  hj_journal_id :: nat
  hj_handoff_id :: string
  hj_lease_id :: string
  hj_project_id :: string
  hj_phase :: journal_phase
  hj_detail_json :: string
  hj_created_at :: u64

record stored_snapshot =
  sn_snapshot_id :: string
  sn_project_id :: string
  sn_session_id :: "string option"
  sn_parent_snapshot_id :: "string option"
  sn_sequence_number :: int
  sn_pinned :: bool
  sn_label :: "string option"
  sn_metadata :: snapshot_metadata
  sn_created_at :: u64

record device_revocation_record =
  rv_device_id :: string
  rv_revoked_by_device_id :: string
  rv_reason :: string
  rv_key_rotation_required :: bool
  rv_revoked_at :: u64

datatype audit_event_type =
    DevicePaired | DeviceRevoked | SnapshotPublished | SnapshotApplied | LeaseTransferred
  | EditorContextUpdated | EditorRestoreAcked | CommandApproved | SecurityBlocked | BackupPromoted

datatype audit_outcome = AuditSucceeded | AuditFailed | AuditBlocked

record audit_event_input =
  ai_event_type :: audit_event_type
  ai_outcome :: audit_outcome
  ai_summary :: string
  ai_project_id :: "string option"
  ai_actor_device_id :: "string option"
  ai_target_device_id :: "string option"
  ai_session_id :: "string option"
  ai_snapshot_id :: "string option"
  ai_lease_id :: "string option"
  ai_handoff_id :: "string option"
  ai_detail :: json

record audit_event_row =
  ae_audit_id :: nat
  ae_event_type :: audit_event_type
  ae_project_id :: "string option"
  ae_actor_device_id :: "string option"
  ae_target_device_id :: "string option"
  ae_session_id :: "string option"
  ae_snapshot_id :: "string option"
  ae_lease_id :: "string option"
  ae_handoff_id :: "string option"
  ae_outcome :: audit_outcome
  ae_summary :: string
  ae_detail_json :: string
  ae_created_at :: u64

record audit_event_record =
  ar_schema_version :: u32
  ar_row :: audit_event_row
  ar_detail :: json

record fabric_root_identity =
  fr_fabric_id :: string
  fr_fabric_name :: string
  fr_root_public_key_hex :: string
  fr_created_at :: u64
  fr_rotation_epoch :: u64

record device_public_identity =
  di_device_id :: string
  di_display_name :: string
  di_fabric_id :: string
  di_signing_public_key_hex :: string
  di_network_public_key_hex :: string
  di_platform_key :: string
  di_architecture :: string
  di_created_at :: u64
  di_last_seen :: u64

record device_identity =
  dv_device_id :: string
  dv_display_name :: string
  dv_platform_key :: string
  dv_architecture :: string
  dv_capabilities_json :: string
  dv_paired_at :: "u64 option"
  dv_last_seen :: u64

datatype pairing_state = PairPending | PairConfirmed | PairAborted | PairExpired

record pairing_session =
  pg_pairing_id :: string
  pg_fabric_id :: string
  pg_local_device_id :: string
  pg_peer_device_id :: string
  pg_peer_display_name :: string
  pg_peer_signing_public_key_hex :: string
  pg_peer_network_public_key_hex :: string
  pg_anchor_address :: "string option"
  pg_local_ephemeral_public_key_hex :: string
  pg_peer_ephemeral_public_key_hex :: string
  pg_transcript_hash_hex :: string
  pg_short_authentication_string :: string
  pg_state :: pairing_state
  pg_certificate_json :: "string option"
  pg_expires_at :: u64
  pg_confirmed_at :: "u64 option"
  pg_aborted_at :: "u64 option"
  pg_created_at :: u64

datatype trust_decision = AllowOnce | TrustThisVersion | RejectCommand

record command_trust_record =
  ct_approval_id :: nat
  ct_project_id :: string
  ct_device_id :: string
  ct_command_scope :: string
  ct_command_hash :: string
  ct_decision :: trust_decision
  ct_consumed_at :: "u64 option"
  ct_created_at :: u64

section \<open>The database\<close>

datatype fault_point = DuringLeaseCommit

record metadata_db =
  db_fault :: "fault_point option"
  db_projects :: "project_row list"
  db_workspaces :: "string list"
  db_sessions :: "stored_session list"
  db_snapshots :: "stored_snapshot list"
  db_leases :: "lease_record list"
  db_handoffs :: "handoff_row list"
  db_journal :: "handoff_journal_record list"
  db_next_journal_id :: nat
  db_audit :: "audit_event_row list"
  db_next_audit_id :: nat
  db_revocations :: "device_revocation_record list"
  db_devices :: "device_identity list"
  db_fabrics :: "fabric_root_identity list"
  db_identities :: "device_public_identity list"
  db_pairings :: "pairing_session list"
  db_trust :: "command_trust_record list"
  db_next_approval_id :: nat

definition empty_db :: metadata_db where
  "empty_db = \<lparr>db_fault = None, db_projects = [], db_workspaces = [], db_sessions = [], db_snapshots = [],
     db_leases = [], db_handoffs = [], db_journal = [], db_next_journal_id = 1, db_audit = [],
     db_next_audit_id = 1, db_revocations = [], db_devices = [], db_fabrics = [],
     db_identities = [], db_pairings = [], db_trust = [], db_next_approval_id = 1\<rparr>"

text \<open>
  \<open>query\<close> is a SELECT with a WHERE clause and an ORDER BY key; ties keep insertion order.
  A descending integer column is the negated key.
\<close>

definition sql_query :: "('r \<Rightarrow> bool) \<Rightarrow> ('r \<Rightarrow> 'k::linorder) \<Rightarrow> 'r list \<Rightarrow> 'r list" where
  "sql_query P key rows = sort_key key (filter P rows)"

definition sql_first :: "('r \<Rightarrow> bool) \<Rightarrow> ('r \<Rightarrow> 'k::linorder) \<Rightarrow> 'r list \<Rightarrow> 'r option" where
  "sql_first P key rows = (case sql_query P key rows of [] \<Rightarrow> None | r # _ \<Rightarrow> Some r)"

lemma set_sql_query [simp]: "set (sql_query P key rows) = {r \<in> set rows. P r}"
  by (simp add: sql_query_def)

lemma sql_first_None_iff: "sql_first P key rows = None \<longleftrightarrow> (\<forall>r\<in>set rows. \<not> P r)"
proof -
  have "sql_first P key rows = None \<longleftrightarrow> set (sql_query P key rows) = {}"
    by (cases "sql_query P key rows") (simp_all add: sql_first_def del: set_sql_query)
  then show ?thesis by auto
qed

lemma sql_first_SomeD: "sql_first P key rows = Some r \<Longrightarrow>
    r \<in> set rows \<and> P r \<and> (\<forall>q\<in>set rows. P q \<longrightarrow> key r \<le> key q)"
proof -
  assume a: "sql_first P key rows = Some r"
  then obtain rs where q: "sql_query P key rows = r # rs"
    by (auto simp: sql_first_def split: list.splits)
  have "sorted (map key (sql_query P key rows))" by (simp add: sql_query_def)
  then have m: "\<forall>q\<in>set (sql_query P key rows). key r \<le> key q"
    unfolding q by auto
  moreover have "r \<in> set (sql_query P key rows)" using q by simp
  ultimately show ?thesis by simp
qed

section \<open>Input validation\<close>

definition validate_non_empty :: "string \<Rightarrow> string \<Rightarrow> unit result" where
  "validate_non_empty field value =
     (if value = [] then Inl (Config (field @ '' must not be empty'')) else Inr ())"

definition validate_key_hex :: "string \<Rightarrow> string \<Rightarrow> unit result" where
  "validate_key_hex field value =
     (if length value \<noteq> 64 \<or> \<not> list_all is_ascii_hexdigit value
      then Inl (Config (field @ '' must be 64 hex characters'')) else Inr ())"

definition validate_audit_input :: "audit_event_input \<Rightarrow> unit result" where
  "validate_audit_input i =
     (if trims_to_empty (ai_summary i) then Inl (Config ''audit summary must not be empty'')
      else Inr ())"

definition normalize_journal_detail :: "json_codec \<Rightarrow> string option \<Rightarrow> string result" where
  "normalize_journal_detail c detail =
     bind_r (case detail of Some d \<Rightarrow> from_str c d | None \<Rightarrow> Inr (JObj []))
       (\<lambda>v. Inr (js_print c v))"

section \<open>Row readers\<close>

definition lease_from_row :: "lease_record \<Rightarrow> lease_record" where
  "lease_from_row r = r\<lparr>lr_epoch := column_u64 (lr_epoch r)\<rparr>"

definition handoff_from_row :: "handoff_row \<Rightarrow> handoff_record" where
  "handoff_from_row r = (handoff_record.truncate r)
     \<lparr>ho_expected_epoch := column_u64 (ho_expected_epoch r),
      ho_expires_at := column_u64 (ho_expires_at r)\<rparr>"

definition session_from_row :: "stored_session \<Rightarrow> stored_session" where
  "session_from_row r = r\<lparr>ss_archived_at := map_option column_u64 (ss_archived_at r),
     ss_created_at := column_u64 (ss_created_at r), ss_updated_at := column_u64 (ss_updated_at r)\<rparr>"

definition snapshot_from_row :: "stored_snapshot \<Rightarrow> stored_snapshot" where
  "snapshot_from_row r = r\<lparr>sn_created_at := column_u64 (sn_created_at r)\<rparr>"

definition revocation_from_row :: "device_revocation_record \<Rightarrow> device_revocation_record" where
  "revocation_from_row r = r\<lparr>rv_revoked_at := column_u64 (rv_revoked_at r)\<rparr>"

lemma lease_from_row_sel [simp]:
  "lr_lease_id (lease_from_row r) = lr_lease_id r"
  "lr_project_id (lease_from_row r) = lr_project_id r"
  "lr_session_id (lease_from_row r) = lr_session_id r"
  "lr_state (lease_from_row r) = lr_state r"
  "lr_epoch (lease_from_row r) = column_u64 (lr_epoch r)"
  "lr_holder_device_id (lease_from_row r) = lr_holder_device_id r"
  "lr_latest_snapshot_id (lease_from_row r) = lr_latest_snapshot_id r"
  "lr_handoff_id (lease_from_row r) = lr_handoff_id r"
  by (simp_all add: lease_from_row_def)

lemma handoff_from_row_sel [simp]:
  "ho_handoff_id (handoff_from_row r) = ho_handoff_id r"
  "ho_lease_id (handoff_from_row r) = ho_lease_id r"
  "ho_project_id (handoff_from_row r) = ho_project_id r"
  "ho_expected_epoch (handoff_from_row r) = column_u64 (ho_expected_epoch r)"
  "ho_source_device_id (handoff_from_row r) = ho_source_device_id r"
  "ho_target_device_id (handoff_from_row r) = ho_target_device_id r"
  "ho_source_generation (handoff_from_row r) = ho_source_generation r"
  "ho_expires_at (handoff_from_row r) = column_u64 (ho_expires_at r)"
  "ho_state (handoff_from_row r) = ho_state r"
  by (simp_all add: handoff_from_row_def handoff_record.defs)

section \<open>Shared statements\<close>

definition ensure_device_not_revoked :: "metadata_db \<Rightarrow> string \<Rightarrow> string \<Rightarrow> unit result" where
  "ensure_device_not_revoked db device_id operation =
     (case map_option revocation_from_row (sel_row rv_device_id device_id (db_revocations db)) of
        Some rv \<Rightarrow> Inl (Config (operation @ '' rejected: device '' @ rv_device_id rv
            @ '' was revoked by '' @ rv_revoked_by_device_id rv @ '' at ''
            @ dec_u64 (rv_revoked_at rv) @ '': '' @ rv_reason rv))
      | None \<Rightarrow> Inr ())"

definition device_revoked :: "metadata_db \<Rightarrow> string \<Rightarrow> bool" where
  "device_revoked db device_id \<longleftrightarrow> device_id \<in> rv_device_id ` set (db_revocations db)"

lemma ensure_not_revoked_Inr [simp]:
  "ensure_device_not_revoked db d op = Inr () \<longleftrightarrow> \<not> device_revoked db d"
  by (auto simp: ensure_device_not_revoked_def device_revoked_def
      sel_row_None_iff [of rv_device_id d "db_revocations db", symmetric] split: option.splits)

lemma ensure_not_revoked_ok [simp]:
  "\<not> device_revoked db d \<Longrightarrow> ensure_device_not_revoked db d op = Inr ()"
  using ensure_not_revoked_Inr by blast

definition insert_handoff_journal ::
    "handoff_record \<Rightarrow> journal_phase \<Rightarrow> string \<Rightarrow> u64 \<Rightarrow> metadata_db
      \<Rightarrow> (metadata_db \<times> handoff_journal_record) result" where
  "insert_handoff_journal h phase detail now db =
     (let r = \<lparr>hj_journal_id = db_next_journal_id db, hj_handoff_id = ho_handoff_id h,
               hj_lease_id = ho_lease_id h, hj_project_id = ho_project_id h, hj_phase = phase,
               hj_detail_json = detail, hj_created_at = now\<rparr>
      in if ho_handoff_id h \<notin> ho_handoff_id ` set (db_handoffs db)
            \<or> ho_project_id h \<notin> pj_project_id ` set (db_projects db)
         then Inl sqlite_foreign_key_violation
         else Inr (db\<lparr>db_journal := db_journal db @ [r],
                      db_next_journal_id := Suc (db_next_journal_id db)\<rparr>, r))"

definition audit_new :: "audit_event_type \<Rightarrow> audit_outcome \<Rightarrow> string \<Rightarrow> json \<Rightarrow> audit_event_input" where
  "audit_new t outcome summary detail =
     \<lparr>ai_event_type = t, ai_outcome = outcome, ai_summary = summary, ai_project_id = None,
      ai_actor_device_id = None, ai_target_device_id = None, ai_session_id = None,
      ai_snapshot_id = None, ai_lease_id = None, ai_handoff_id = None, ai_detail = detail\<rparr>"

definition audit_schema_version :: u32 where
  "audit_schema_version = 1"

definition insert_audit_event ::
    "json_codec \<Rightarrow> audit_event_input \<Rightarrow> u64 \<Rightarrow> metadata_db
      \<Rightarrow> (metadata_db \<times> audit_event_record) result" where
  "insert_audit_event c i now db =
     bind_r (validate_audit_input i) (\<lambda>_.
       let detail_json = js_print c (ai_detail i);
           r = \<lparr>ae_audit_id = db_next_audit_id db, ae_event_type = ai_event_type i,
                ae_project_id = ai_project_id i, ae_actor_device_id = ai_actor_device_id i,
                ae_target_device_id = ai_target_device_id i, ae_session_id = ai_session_id i,
                ae_snapshot_id = ai_snapshot_id i, ae_lease_id = ai_lease_id i,
                ae_handoff_id = ai_handoff_id i, ae_outcome = ai_outcome i,
                ae_summary = ai_summary i, ae_detail_json = detail_json, ae_created_at = now\<rparr>;
           db' = db\<lparr>db_audit := db_audit db @ [r], db_next_audit_id := Suc (db_next_audit_id db)\<rparr>
       in bind_r (from_str c detail_json) (\<lambda>d.
            Inr (db', \<lparr>ar_schema_version = audit_schema_version, ar_row = r, ar_detail = d\<rparr>)))"

definition inject_metadata_db_fault :: "fault_point option \<Rightarrow> fault_point \<Rightarrow> unit result" where
  "inject_metadata_db_fault configured fault =
     (if configured = Some fault
      then Inl (Config (''injected metadata DB fault at '' @ ''during-lease-commit''))
      else Inr ())"

definition stale_publish_error :: "string \<Rightarrow> dr_error" where
  "stale_publish_error detail =
     Config (''stale publish: '' @ detail @ ''; safe action: refresh lease'')"

text \<open>
  What a journal or an audit insert does to the rest of the database: it appends one row and
  changes no other table.
\<close>

lemma insert_journal_InrD:
  "insert_handoff_journal h ph d now db = Inr (db', r) \<Longrightarrow>
     db' = db\<lparr>db_journal := db_journal db @ [r], db_next_journal_id := Suc (db_next_journal_id db)\<rparr>
     \<and> hj_phase r = ph \<and> hj_handoff_id r = ho_handoff_id h \<and> hj_lease_id r = ho_lease_id h
     \<and> hj_journal_id r = db_next_journal_id db \<and> hj_detail_json r = d"
  by (auto simp: insert_handoff_journal_def Let_def split: if_splits)

lemma insert_audit_InrD:
  "insert_audit_event c i now db = Inr (db', r) \<Longrightarrow>
     db' = db\<lparr>db_audit := db_audit db @ [ar_row r], db_next_audit_id := Suc (db_next_audit_id db)\<rparr>
     \<and> ae_event_type (ar_row r) = ai_event_type i \<and> ae_outcome (ar_row r) = ai_outcome i
     \<and> ae_handoff_id (ar_row r) = ai_handoff_id i \<and> ae_lease_id (ar_row r) = ai_lease_id i
     \<and> ae_snapshot_id (ar_row r) = ai_snapshot_id i \<and> ae_created_at (ar_row r) = now
     \<and> ae_actor_device_id (ar_row r) = ai_actor_device_id i
     \<and> ae_target_device_id (ar_row r) = ai_target_device_id i
     \<and> ae_audit_id (ar_row r) = db_next_audit_id db"
  by (auto simp: insert_audit_event_def Let_def bind_r_Inr_iff)

lemma insert_audit_ok:
  "\<not> trims_to_empty (ai_summary i) \<Longrightarrow> reads_back c (ai_detail i) \<Longrightarrow>
     \<exists>r. insert_audit_event c i now db =
       Inr (db\<lparr>db_audit := db_audit db @ [ar_row r], db_next_audit_id := Suc (db_next_audit_id db)\<rparr>, r)"
  using reads_back_from_str [of c "ai_detail i"]
  by (auto simp: insert_audit_event_def validate_audit_input_def Let_def)

lemma insert_journal_ok:
  "ho_handoff_id h \<in> ho_handoff_id ` set (db_handoffs db) \<Longrightarrow>
   ho_project_id h \<in> pj_project_id ` set (db_projects db) \<Longrightarrow>
     \<exists>r. insert_handoff_journal h ph d now db =
       Inr (db\<lparr>db_journal := db_journal db @ [r], db_next_journal_id := Suc (db_next_journal_id db)\<rparr>, r)
       \<and> hj_phase r = ph \<and> hj_handoff_id r = ho_handoff_id h"
  by (simp add: insert_handoff_journal_def Let_def)

end
