(* ===== verification/Handoff_Db.thy ===== *)
theory Handoff_Db
  imports Db_State
begin

text \<open>
  Leases and the handoff protocol of \<open>storage.rs\<close>: begin, target apply, verified, source
  ready, commit, abort and recovery, each one transaction over the handoffs, leases, journal
  and audit tables. The clock \<open>now\<close>, the generated handoff id and serde\_json are arguments.
\<close>

section \<open>Leases\<close>

definition get_lease :: "string \<Rightarrow> metadata_db \<Rightarrow> lease_record option" where
  "get_lease lease_id db = map_option lease_from_row (sel_row lr_lease_id lease_id (db_leases db))"

definition list_leases :: "string option \<Rightarrow> metadata_db \<Rightarrow> lease_record list" where
  "list_leases project_id db =
     map lease_from_row (sql_query
       (\<lambda>r. case project_id of None \<Rightarrow> True | Some p \<Rightarrow> lr_project_id r = p)
       (\<lambda>r. (lr_project_id r, lr_session_id r, lr_lease_id r)) (db_leases db))"

definition upsert_lease :: "lease_record \<Rightarrow> metadata_db \<Rightarrow> metadata_db \<times> unit result" where
  "upsert_lease l = run_tx (\<lambda>db.
     if lr_project_id l \<notin> pj_project_id ` set (db_projects db)
     then Inl sqlite_foreign_key_violation
     else Inr (db\<lparr>db_leases := upsert_row lr_lease_id (\<lambda>_. l) l (db_leases db)\<rparr>, Inr ()))"

section \<open>Reading handoffs\<close>

definition get_handoff :: "string \<Rightarrow> metadata_db \<Rightarrow> handoff_record option" where
  "get_handoff handoff_id db =
     map_option handoff_from_row (sel_row ho_handoff_id handoff_id (db_handoffs db))"

definition list_handoffs :: "string option \<Rightarrow> metadata_db \<Rightarrow> handoff_record list" where
  "list_handoffs project_id db =
     map handoff_from_row (sql_query
       (\<lambda>r. case project_id of None \<Rightarrow> True | Some p \<Rightarrow> ho_project_id r = p)
       (\<lambda>r. (ho_project_id r, ho_handoff_id r)) (db_handoffs db))"

definition list_handoff_journal :: "string \<Rightarrow> metadata_db \<Rightarrow> handoff_journal_record list" where
  "list_handoff_journal handoff_id db =
     map (\<lambda>r. r\<lparr>hj_created_at := column_u64 (hj_created_at r)\<rparr>)
       (sql_query (\<lambda>r. hj_handoff_id r = handoff_id) hj_journal_id (db_journal db))"

definition unknown_handoff :: "string \<Rightarrow> dr_error" where
  "unknown_handoff handoff_id = Config (''unknown handoff '' @ handoff_id)"

section \<open>Starting a handoff\<close>

definition insert_handoff_row :: "handoff_row \<Rightarrow> metadata_db \<Rightarrow> metadata_db result" where
  "insert_handoff_row r db =
     (case insert_row ho_handoff_id r (db_handoffs db) of
        None \<Rightarrow> Inl sqlite_unique_violation
      | Some rows \<Rightarrow>
          if ho_project_id r \<notin> pj_project_id ` set (db_projects db)
          then Inl sqlite_foreign_key_violation
          else Inr (db\<lparr>db_handoffs := rows\<rparr>))"

definition new_handoff ::
    "string \<Rightarrow> u64 \<Rightarrow> lease_record \<Rightarrow> string \<Rightarrow> string \<Rightarrow> string \<Rightarrow> u64 \<Rightarrow> handoff_record" where
  "new_handoff new_id now l source target generation ttl =
     \<lparr>ho_handoff_id = new_id, ho_lease_id = lr_lease_id l, ho_project_id = lr_project_id l,
      ho_expected_epoch = lr_epoch l, ho_source_device_id = source,
      ho_target_device_id = target, ho_source_generation = generation,
      ho_expires_at = sat_add now (max ttl 1), ho_state = TargetPrepare\<rparr>"

definition handoff_row_of :: "handoff_record \<Rightarrow> u64 \<Rightarrow> handoff_row" where
  "handoff_row_of h now =
     handoff_record.extend h \<lparr>hr_created_at = now, hr_committed_at = None, hr_aborted_at = None\<rparr>"

lemma handoff_row_of_sel [simp]:
  "ho_handoff_id (handoff_row_of h now) = ho_handoff_id h"
  "ho_lease_id (handoff_row_of h now) = ho_lease_id h"
  "ho_project_id (handoff_row_of h now) = ho_project_id h"
  "ho_expected_epoch (handoff_row_of h now) = ho_expected_epoch h"
  "ho_source_device_id (handoff_row_of h now) = ho_source_device_id h"
  "ho_target_device_id (handoff_row_of h now) = ho_target_device_id h"
  "ho_source_generation (handoff_row_of h now) = ho_source_generation h"
  "ho_expires_at (handoff_row_of h now) = ho_expires_at h"
  "ho_state (handoff_row_of h now) = ho_state h"
  by (simp_all add: handoff_row_of_def handoff_record.defs)

definition begin_handoff ::
    "string \<Rightarrow> u64 \<Rightarrow> string \<Rightarrow> string \<Rightarrow> string \<Rightarrow> string \<Rightarrow> u64
      \<Rightarrow> metadata_db \<Rightarrow> metadata_db \<times> handoff_record result" where
  "begin_handoff new_id now lease_id source target generation ttl = run_tx (\<lambda>db.
     case get_lease lease_id db of
       None \<Rightarrow> Inl (Config (''unknown lease '' @ lease_id))
     | Some lease \<Rightarrow>
       (case sql_first (\<lambda>r. ho_lease_id r = lease_id \<and> \<not> handoff_is_terminal (ho_state r))
               (\<lambda>r. (sint (hr_created_at r), ho_handoff_id r)) (db_handoffs db) of
          Some existing \<Rightarrow> Inl (Config (''handoff already pending: '' @ ho_handoff_id existing))
        | None \<Rightarrow>
          if lr_state lease \<noteq> Active
          then Inl (Config (''cannot begin handoff from '' @ lease_state_as_str (lr_state lease)
                 @ '' lease''))
          else if lr_holder_device_id lease \<noteq> Some source
          then Inl (Config ''handoff source does not hold lease'')
          else bind_r (ensure_device_not_revoked db source ''begin handoff'') (\<lambda>_.
               bind_r (ensure_device_not_revoked db target ''begin handoff'') (\<lambda>_.
               let h = new_handoff new_id now lease source target generation ttl
               in bind_r (insert_handoff_row (handoff_row_of h now) db) (\<lambda>db1.
                  bind_r (insert_handoff_journal h PhBegin ''{}'' now db1) (\<lambda>(db2, _).
                  bind_r (insert_handoff_journal h PhTargetPrepare ''{}'' now db2) (\<lambda>(db3, _).
                  Inr (db3\<lparr>db_leases := update_rows (\<lambda>r. lr_lease_id r = lease_id)
                          (\<lambda>r. r\<lparr>lr_state := HandoffPending, lr_handoff_id := Some new_id\<rparr>)
                          (db_leases db3)\<rparr>, Inr h))))))))"

section \<open>Target progress\<close>

definition record_handoff_target_apply ::
    "json_codec \<Rightarrow> u64 \<Rightarrow> string \<Rightarrow> string option
      \<Rightarrow> metadata_db \<Rightarrow> metadata_db \<times> handoff_journal_record result" where
  "record_handoff_target_apply c now handoff_id detail = run_tx (\<lambda>db.
     bind_r (normalize_journal_detail c detail) (\<lambda>detail_json.
     case get_handoff handoff_id db of
       None \<Rightarrow> Inl (unknown_handoff handoff_id)
     | Some h \<Rightarrow>
       if handoff_is_terminal (ho_state h)
       then Inl (Config (''cannot record target apply for '' @ handoff_state_as_str (ho_state h)
              @ '' handoff''))
       else bind_r (insert_handoff_journal h PhTargetApply detail_json now db)
              (\<lambda>(db', r). Inr (db', Inr r))))"

definition update_handoff_state ::
    "u64 \<Rightarrow> string \<Rightarrow> handoff_state \<Rightarrow> handoff_state \<Rightarrow> journal_phase
      \<Rightarrow> metadata_db \<Rightarrow> metadata_db \<times> handoff_record result" where
  "update_handoff_state now handoff_id expected next_state phase = run_tx (\<lambda>db.
     case get_handoff handoff_id db of
       None \<Rightarrow> Inl (unknown_handoff handoff_id)
     | Some h \<Rightarrow>
       if ho_state h \<noteq> expected
       then Inl (Config (''handoff '' @ handoff_id @ '' is not '' @ handoff_state_as_str expected))
       else if count_rows (\<lambda>r. ho_handoff_id r = handoff_id \<and> ho_state r = expected) (db_handoffs db) = 0
       then Inl (Config (''handoff '' @ handoff_id @ '' is not '' @ handoff_state_as_str expected))
       else let db1 = db\<lparr>db_handoffs := update_rows
                    (\<lambda>r. ho_handoff_id r = handoff_id \<and> ho_state r = expected)
                    (\<lambda>r. r\<lparr>ho_state := next_state\<rparr>) (db_handoffs db)\<rparr>;
                updated = h\<lparr>ho_state := next_state\<rparr>
            in bind_r (insert_handoff_journal updated phase ''{}'' now db1)
                 (\<lambda>(db2, _). Inr (db2, Inr updated)))"

definition mark_handoff_target_verified ::
    "u64 \<Rightarrow> string \<Rightarrow> metadata_db \<Rightarrow> metadata_db \<times> handoff_record result" where
  "mark_handoff_target_verified now handoff_id =
     update_handoff_state now handoff_id TargetPrepare TargetVerified PhTargetVerified"

definition mark_handoff_source_ready ::
    "u64 \<Rightarrow> string \<Rightarrow> metadata_db \<Rightarrow> metadata_db \<times> handoff_record result" where
  "mark_handoff_source_ready now handoff_id =
     update_handoff_state now handoff_id TargetVerified SourceReady PhSourceReady"

section \<open>Commit\<close>

text \<open>
  The two updates of an abort, shared by the rejected commit and by \<open>abort_handoff_at\<close>.
\<close>

definition abort_rows :: "string \<Rightarrow> string \<Rightarrow> u64 \<Rightarrow> metadata_db \<Rightarrow> metadata_db" where
  "abort_rows handoff_id lease_id now db =
     db\<lparr>db_handoffs := update_rows (\<lambda>r. ho_handoff_id r = handoff_id)
          (\<lambda>r. r\<lparr>ho_state := Aborted, hr_aborted_at := Some now\<rparr>) (db_handoffs db),
        db_leases := update_rows (\<lambda>r. lr_lease_id r = lease_id \<and> lr_handoff_id r = Some handoff_id)
          (\<lambda>r. r\<lparr>lr_state := Active, lr_handoff_id := None\<rparr>) (db_leases db)\<rparr>"

text \<open>
  \<open>ensure_sidecars_available\<close> of \<open>sidecar.rs\<close>; the path check on the file system, the manifest
  lookup and the chunk presence test of the CAS are the environment.
\<close>

definition commit_rows :: "string \<Rightarrow> handoff_record \<Rightarrow> u64 \<Rightarrow> metadata_db \<Rightarrow> metadata_db" where
  "commit_rows handoff_id h now db =
     db\<lparr>db_leases := update_rows (\<lambda>l. lr_lease_id l = ho_lease_id h \<and> lr_epoch l = ho_expected_epoch h
            \<and> lr_handoff_id l = Some handoff_id)
          (\<lambda>l. l\<lparr>lr_state := Active, lr_epoch := sat_add (ho_expected_epoch h) 1,
                 lr_holder_device_id := Some (ho_target_device_id h), lr_handoff_id := None\<rparr>)
          (db_leases db),
        db_handoffs := update_rows (\<lambda>r. ho_handoff_id r = handoff_id)
          (\<lambda>r. r\<lparr>ho_state := Committed, hr_committed_at := Some now\<rparr>) (db_handoffs db)\<rparr>"

record sidecar_env =
  se_check_path :: "string \<Rightarrow> unit result"
  se_fetch_chunks :: "snapshot_sidecar \<Rightarrow> string list result"
  se_has_chunk :: "string \<Rightarrow> bool"

fun ensure_sidecars_available :: "sidecar_env \<Rightarrow> snapshot_sidecar list \<Rightarrow> unit result" where
  "ensure_sidecars_available env [] = Inr ()"
| "ensure_sidecars_available env (s # rest) =
     bind_r (se_check_path env (sd_logical_path s)) (\<lambda>_.
     bind_r (se_fetch_chunks env s) (\<lambda>hashes.
       let missing = filter (\<lambda>h. \<not> se_has_chunk env h) hashes
       in if missing \<noteq> []
          then Inl (MissingSourceObject (''missing '' @ dec_nat (length missing)
                 @ '' CAS chunks for sidecar '' @ sd_logical_path s))
          else ensure_sidecars_available env rest))"

record commit_preflight =
  pf_snapshot :: snapshot_metadata
  pf_env :: sidecar_env

definition preflight_verify :: "commit_preflight \<Rightarrow> handoff_record \<Rightarrow> unit result" where
  "preflight_verify pf h =
     (if sm_project_id (pf_snapshot pf) \<noteq> ho_project_id h
      then Inl (Config (''handoff snapshot project mismatch: expected '' @ ho_project_id h
             @ '', got '' @ sm_project_id (pf_snapshot pf)))
      else ensure_sidecars_available (pf_env pf) (sm_sidecars (pf_snapshot pf)))"

definition commit_abort_reason :: "handoff_record \<Rightarrow> string \<Rightarrow> u64 \<Rightarrow> string option" where
  "commit_abort_reason h observed now =
     (if ho_expires_at h < now then Some ''handoff expired''
      else if observed \<noteq> ho_source_generation h then Some ''source generation changed''
      else None)"

definition lease_transfer_audit :: "handoff_record \<Rightarrow> audit_event_input" where
  "lease_transfer_audit h =
     (audit_new LeaseTransferred AuditSucceeded ''lease transferred to target device''
        (JObj [(''from_device_id'', JStr (ho_source_device_id h)),
               (''to_device_id'', JStr (ho_target_device_id h)),
               (''previous_epoch'', json_u64 (ho_expected_epoch h)),
               (''next_epoch'', json_u64 (sat_add (ho_expected_epoch h) 1))]))
     \<lparr>ai_project_id := Some (ho_project_id h), ai_actor_device_id := Some (ho_source_device_id h),
      ai_target_device_id := Some (ho_target_device_id h), ai_lease_id := Some (ho_lease_id h),
      ai_handoff_id := Some (ho_handoff_id h)\<rparr>"

definition commit_handoff_inner ::
    "json_codec \<Rightarrow> string \<Rightarrow> string \<Rightarrow> u64 \<Rightarrow> commit_preflight option
      \<Rightarrow> metadata_db \<Rightarrow> metadata_db \<times> handoff_record result" where
  "commit_handoff_inner c handoff_id observed now preflight = run_tx (\<lambda>db.
     case get_handoff handoff_id db of
       None \<Rightarrow> Inl (unknown_handoff handoff_id)
     | Some h \<Rightarrow>
       if ho_state h \<noteq> SourceReady
       then Inl (Config (''handoff is not source-ready: '' @ handoff_state_as_str (ho_state h)))
       else (case commit_abort_reason h observed now of
         Some reason \<Rightarrow>
           Inr (abort_rows handoff_id (ho_lease_id h) now db,
                Inl (Config (''handoff commit rejected: '' @ reason)))
       | None \<Rightarrow>
           bind_r (ensure_device_not_revoked db (ho_target_device_id h) ''handoff commit'') (\<lambda>_.
           bind_r (case preflight of None \<Rightarrow> Inr () | Some pf \<Rightarrow> preflight_verify pf h) (\<lambda>_.
           let held = (\<lambda>r. lr_lease_id r = ho_lease_id h \<and> lr_epoch r = ho_expected_epoch h
                        \<and> lr_handoff_id r = Some handoff_id);
               db1 = db\<lparr>db_leases := update_rows held
                   (\<lambda>r. r\<lparr>lr_state := Active, lr_epoch := sat_add (ho_expected_epoch h) 1,
                          lr_holder_device_id := Some (ho_target_device_id h),
                          lr_handoff_id := None\<rparr>) (db_leases db)\<rparr>
           in if count_rows held (db_leases db) \<noteq> 1
              then Inl (Config ''handoff commit lost lease state race'')
              else bind_r (inject_metadata_db_fault (db_fault db) DuringLeaseCommit) (\<lambda>_.
                let db2 = db1\<lparr>db_handoffs := update_rows (\<lambda>r. ho_handoff_id r = handoff_id)
                      (\<lambda>r. r\<lparr>ho_state := Committed, hr_committed_at := Some now\<rparr>) (db_handoffs db1)\<rparr>
                in bind_r (insert_handoff_journal (h\<lparr>ho_state := Committed\<rparr>) PhLeaseCommitted ''{}'' now db2)
                   (\<lambda>(db3, _).
                   bind_r (insert_audit_event c (lease_transfer_audit h) now db3) (\<lambda>(db4, _).
                   Inr (db4, case get_handoff handoff_id db4 of
                       None \<Rightarrow> Inl (Config ''handoff commit disappeared'')
                     | Some done \<Rightarrow> Inr done))))))))"

definition commit_handoff ::
    "json_codec \<Rightarrow> string \<Rightarrow> string \<Rightarrow> u64 \<Rightarrow> metadata_db \<Rightarrow> metadata_db \<times> handoff_record result" where
  "commit_handoff c handoff_id observed now = commit_handoff_inner c handoff_id observed now None"

definition commit_handoff_with_snapshot_preflight ::
    "json_codec \<Rightarrow> string \<Rightarrow> string \<Rightarrow> u64 \<Rightarrow> commit_preflight
      \<Rightarrow> metadata_db \<Rightarrow> metadata_db \<times> handoff_record result" where
  "commit_handoff_with_snapshot_preflight c handoff_id observed now pf =
     commit_handoff_inner c handoff_id observed now (Some pf)"

section \<open>Abort and recovery\<close>

definition abort_handoff_at ::
    "json_codec \<Rightarrow> string \<Rightarrow> u64 \<Rightarrow> string \<Rightarrow> metadata_db \<Rightarrow> metadata_db \<times> handoff_record result" where
  "abort_handoff_at c handoff_id now reason = run_tx (\<lambda>db.
     case get_handoff handoff_id db of
       None \<Rightarrow> Inl (unknown_handoff handoff_id)
     | Some h \<Rightarrow>
       if ho_state h = Committed then Inl (Config ''cannot abort committed handoff'')
       else if ho_state h = Aborted then Inr (db, Inr h)
       else let db1 = abort_rows handoff_id (ho_lease_id h) now db;
                aborted = h\<lparr>ho_state := Aborted\<rparr>
            in bind_r (normalize_journal_detail c
                   (Some (js_print c (JObj [(''reason'', JStr reason)])))) (\<lambda>detail_json.
               bind_r (insert_handoff_journal aborted PhAborted detail_json now db1) (\<lambda>(db2, _).
               Inr (db2, Inr aborted))))"

definition abort_handoff ::
    "json_codec \<Rightarrow> u64 \<Rightarrow> string \<Rightarrow> metadata_db \<Rightarrow> metadata_db \<times> handoff_record result" where
  "abort_handoff c now handoff_id = abort_handoff_at c handoff_id now ''manual abort''"

definition abort_handoff_with_reason ::
    "json_codec \<Rightarrow> u64 \<Rightarrow> string \<Rightarrow> string \<Rightarrow> metadata_db \<Rightarrow> metadata_db \<times> handoff_record result" where
  "abort_handoff_with_reason c now handoff_id reason = abort_handoff_at c handoff_id now reason"

definition recover_handoff ::
    "json_codec \<Rightarrow> string \<Rightarrow> string \<Rightarrow> u64 \<Rightarrow> metadata_db \<Rightarrow> metadata_db \<times> recovery_outcome result" where
  "recover_handoff c handoff_id observed now db =
     (case get_handoff handoff_id db of
        None \<Rightarrow> (db, Inl (unknown_handoff handoff_id))
      | Some h \<Rightarrow>
        if ho_state h = Committed then (db, Inr AlreadyCommitted)
        else if ho_state h = Aborted then (db, Inr AlreadyAborted)
        else if ho_expires_at h < now
        then (let (db', r) = abort_handoff_at c handoff_id now ''expired during recovery'' db
              in (db', bind_r r (\<lambda>_. Inr AbortedExpired)))
        else if ho_state h = SourceReady
        then (let (db', r) = commit_handoff c handoff_id observed now db
              in (db', bind_r r (\<lambda>_. Inr RecoveredCommitted)))
        else (db, Inr WaitingForTarget))"

section \<open>Effects of the operations\<close>

text \<open>
  Each operation either leaves the database alone and reports an error, or makes the change
  its lemma names.
\<close>

lemma insert_handoff_row_InrD:
  "insert_handoff_row r db = Inr db' \<Longrightarrow>
     db' = db\<lparr>db_handoffs := db_handoffs db @ [r]\<rparr> \<and> ho_handoff_id r \<notin> ho_handoff_id ` set (db_handoffs db)
     \<and> ho_project_id r \<in> pj_project_id ` set (db_projects db)"
  by (auto simp: insert_handoff_row_def dest: insert_row_SomeD split: option.splits if_splits)

lemma handoff_from_row_upd [simp]:
  "handoff_from_row (r\<lparr>ho_state := s\<rparr>) = (handoff_from_row r)\<lparr>ho_state := s\<rparr>"
  "handoff_from_row (r\<lparr>hr_committed_at := t\<rparr>) = handoff_from_row r"
  "handoff_from_row (r\<lparr>hr_aborted_at := t\<rparr>) = handoff_from_row r"
  by (simp_all add: handoff_from_row_def handoff_record.defs)

lemma get_lease_SomeE:
  assumes "get_lease i db = Some l"
  obtains r where "sel_row lr_lease_id i (db_leases db) = Some r" "l = lease_from_row r"
    "r \<in> set (db_leases db)" "lr_lease_id r = i"
  using assms by (auto simp: get_lease_def dest: sel_row_SomeD)

lemma get_handoff_SomeE:
  assumes "get_handoff i db = Some h"
  obtains r where "sel_row ho_handoff_id i (db_handoffs db) = Some r" "h = handoff_from_row r"
    "r \<in> set (db_handoffs db)" "ho_handoff_id r = i"
  using assms by (auto simp: get_handoff_def dest: sel_row_SomeD)

lemma new_handoff_sel [simp]:
  "ho_handoff_id (new_handoff i now l s t g ttl) = i"
  "ho_lease_id (new_handoff i now l s t g ttl) = lr_lease_id l"
  "ho_project_id (new_handoff i now l s t g ttl) = lr_project_id l"
  "ho_expected_epoch (new_handoff i now l s t g ttl) = lr_epoch l"
  "ho_source_device_id (new_handoff i now l s t g ttl) = s"
  "ho_target_device_id (new_handoff i now l s t g ttl) = t"
  "ho_source_generation (new_handoff i now l s t g ttl) = g"
  "ho_expires_at (new_handoff i now l s t g ttl) = sat_add now (max ttl 1)"
  "ho_state (new_handoff i now l s t g ttl) = TargetPrepare"
  by (simp_all add: new_handoff_def)

lemma begin_handoff_Inl: "begin_handoff i now lid s t g ttl db = (db', Inl e) \<Longrightarrow> db' = db"
  unfolding begin_handoff_def
  by (erule run_tx_cases)
    (simp_all add: tx_simps Let_def)

lemma begin_handoff_InrD:
  assumes "begin_handoff i now lid s t g ttl db = (db', Inr h)"
  shows "\<exists>l j1 j2. sel_row lr_lease_id lid (db_leases db) = Some l \<and> lr_lease_id l = lid
    \<and> lr_state l = Active \<and> lr_holder_device_id l = Some s
    \<and> \<not> device_revoked db s \<and> \<not> device_revoked db t
    \<and> (\<forall>r\<in>set (db_handoffs db). ho_lease_id r = lid \<longrightarrow> handoff_is_terminal (ho_state r))
    \<and> i \<notin> ho_handoff_id ` set (db_handoffs db)
    \<and> lr_project_id l \<in> pj_project_id ` set (db_projects db)
    \<and> h = new_handoff i now (lease_from_row l) s t g ttl
    \<and> hj_phase j1 = PhBegin \<and> hj_handoff_id j1 = i
    \<and> hj_phase j2 = PhTargetPrepare \<and> hj_handoff_id j2 = i
    \<and> db' = db\<lparr>db_handoffs := db_handoffs db @ [handoff_row_of h now],
        db_journal := db_journal db @ [j1, j2], db_next_journal_id := Suc (Suc (db_next_journal_id db)),
        db_leases := update_rows (\<lambda>r. lr_lease_id r = lid)
          (\<lambda>r. r\<lparr>lr_state := HandoffPending, lr_handoff_id := Some i\<rparr>) (db_leases db)\<rparr>"
  using assms unfolding begin_handoff_def run_tx_Inr_iff
  apply (clarsimp simp: tx_simps Let_def sql_first_None_iff)
  apply (elim get_lease_SomeE)
  apply (drule insert_handoff_row_InrD insert_journal_InrD)+
  apply (clarsimp simp del: image_iff)
  subgoal for b ba r by (rule exI [of _ b], simp, rule exI [of _ ba], simp)
  done

lemma record_apply_Inl: "record_handoff_target_apply c now i d db = (db', Inl e) \<Longrightarrow> db' = db"
  unfolding record_handoff_target_apply_def
  by (erule run_tx_cases) (simp_all add: tx_simps)

lemma record_apply_InrD:
  assumes "record_handoff_target_apply c now i d db = (db', Inr j)"
  shows "\<exists>r. sel_row ho_handoff_id i (db_handoffs db) = Some r \<and> ho_handoff_id r = i
    \<and> \<not> handoff_is_terminal (ho_state r) \<and> hj_phase j = PhTargetApply \<and> hj_handoff_id j = i
    \<and> db' = db\<lparr>db_journal := db_journal db @ [j], db_next_journal_id := Suc (db_next_journal_id db)\<rparr>"
  using assms unfolding record_handoff_target_apply_def run_tx_Inr_iff
  by (auto simp: tx_simps elim!: get_handoff_SomeE dest!: insert_journal_InrD)

lemma update_state_Inl: "update_handoff_state now i ex nx ph db = (db', Inl e) \<Longrightarrow> db' = db"
  unfolding update_handoff_state_def
  by (erule run_tx_cases) (simp_all add: tx_simps Let_def)

lemma update_state_InrD:
  assumes "update_handoff_state now i ex nx ph db = (db', Inr h)"
  shows "\<exists>r j. sel_row ho_handoff_id i (db_handoffs db) = Some r \<and> ho_handoff_id r = i
    \<and> ho_state r = ex \<and> h = (handoff_from_row r)\<lparr>ho_state := nx\<rparr>
    \<and> hj_phase j = ph \<and> hj_handoff_id j = i
    \<and> db' = db\<lparr>db_handoffs := update_rows (\<lambda>r. ho_handoff_id r = i \<and> ho_state r = ex)
        (\<lambda>r. r\<lparr>ho_state := nx\<rparr>) (db_handoffs db),
      db_journal := db_journal db @ [j], db_next_journal_id := Suc (db_next_journal_id db)\<rparr>"
  using assms unfolding update_handoff_state_def run_tx_Inr_iff
  apply (clarsimp simp: tx_simps Let_def)
  apply (elim get_handoff_SomeE)
  apply (drule insert_journal_InrD)+
  apply clarsimp
  subgoal for b r by (rule exI [of _ b]) simp
  done

lemma abort_Inl: "abort_handoff_at c i now why db = (db', Inl e) \<Longrightarrow> db' = db"
  unfolding abort_handoff_at_def
  by (erule run_tx_cases) (auto simp: tx_simps Let_def split: if_splits)

lemma abort_InrD:
  assumes "abort_handoff_at c i now why db = (db', Inr h)"
  shows "\<exists>r. sel_row ho_handoff_id i (db_handoffs db) = Some r \<and> ho_handoff_id r = i
    \<and> h = (handoff_from_row r)\<lparr>ho_state := Aborted\<rparr>
    \<and> (ho_state r = Aborted \<and> db' = db
       \<or> \<not> handoff_is_terminal (ho_state r)
         \<and> (\<exists>j. hj_phase j = PhAborted \<and> hj_handoff_id j = i
              \<and> db' = (abort_rows i (ho_lease_id r) now db)\<lparr>db_journal := db_journal db @ [j],
                   db_next_journal_id := Suc (db_next_journal_id db)\<rparr>))"
proof -
  note body = assms [unfolded abort_handoff_at_def run_tx_Inr_iff]
  then obtain r where r: "sel_row ho_handoff_id i (db_handoffs db) = Some r" "ho_handoff_id r = i"
    and nc: "ho_state r \<noteq> Committed"
    by (auto simp: tx_simps elim!: get_handoff_SomeE)
  have same: "ho_state r = Aborted \<Longrightarrow> (handoff_from_row r)\<lparr>ho_state := Aborted\<rparr> = handoff_from_row r"
    by (simp add: handoff_from_row_def handoff_record.defs)
  show ?thesis
  proof (cases "ho_state r = Aborted")
    case True
    with body r same show ?thesis by (auto simp: get_handoff_def)
  next
    case False
    with body r nc show ?thesis
      by (cases "ho_state r")
        (auto simp: get_handoff_def tx_simps Let_def abort_rows_def dest!: insert_journal_InrD)
  qed
qed

lemma commit_InrD:
  assumes "commit_handoff_inner c i obs now pf db = (db', Inr h)"
  shows "\<exists>r j a. sel_row ho_handoff_id i (db_handoffs db) = Some r \<and> ho_handoff_id r = i
    \<and> ho_state r = SourceReady \<and> commit_abort_reason (handoff_from_row r) obs now = None
    \<and> \<not> device_revoked db (ho_target_device_id r)
    \<and> (\<forall>p. pf = Some p \<longrightarrow> preflight_verify p (handoff_from_row r) = Inr ())
    \<and> db_fault db \<noteq> Some DuringLeaseCommit
    \<and> count_rows (\<lambda>l. lr_lease_id l = ho_lease_id r \<and> lr_epoch l = column_u64 (ho_expected_epoch r)
         \<and> lr_handoff_id l = Some i) (db_leases db) = 1
    \<and> hj_phase j = PhLeaseCommitted \<and> hj_handoff_id j = i
    \<and> ae_event_type a = LeaseTransferred \<and> ae_outcome a = AuditSucceeded \<and> ae_handoff_id a = Some i
    \<and> ae_lease_id a = Some (ho_lease_id r) \<and> ae_target_device_id a = Some (ho_target_device_id r)
    \<and> h = (handoff_from_row r)\<lparr>ho_state := Committed\<rparr>
    \<and> db' = commit_rows i (handoff_from_row r) now db
       \<lparr>db_journal := db_journal db @ [j], db_next_journal_id := Suc (db_next_journal_id db),
        db_audit := db_audit db @ [a], db_next_audit_id := Suc (db_next_audit_id db)\<rparr>"
proof -
  note body = assms [unfolded commit_handoff_inner_def run_tx_Inr_iff]
  then obtain r where r: "sel_row ho_handoff_id i (db_handoffs db) = Some r" "ho_handoff_id r = i"
    and st: "ho_state r = SourceReady"
    by (auto simp: tx_simps elim!: get_handoff_SomeE)
  have why: "commit_abort_reason (handoff_from_row r) obs now = None"
    using body r st by (auto simp: get_handoff_def split: option.splits)
  show ?thesis
    using body r st why
    apply (clarsimp simp: get_handoff_def tx_simps Let_def inject_metadata_db_fault_def)
    apply (drule insert_journal_InrD insert_audit_InrD)+
    apply (clarsimp simp: sel_row_update)
    subgoal for b ba
      by (rule conjI, simp split: option.splits, rule exI [of _ b], intro conjI, simp, simp,
          rule exI [of _ "ar_row ba"])
        (simp add: commit_rows_def lease_transfer_audit_def audit_new_def)
    done
qed

lemma commit_InlD:
  assumes "commit_handoff_inner c i obs now pf db = (db', Inl e)"
  shows "db' = db \<or> (\<exists>r why. sel_row ho_handoff_id i (db_handoffs db) = Some r \<and> ho_handoff_id r = i
      \<and> ho_state r = SourceReady \<and> commit_abort_reason (handoff_from_row r) obs now = Some why
      \<and> e = Config (''handoff commit rejected: '' @ why) \<and> db' = abort_rows i (ho_lease_id r) now db)"
  using assms unfolding commit_handoff_inner_def run_tx_Inl_iff
proof (elim disjE conjE, goal_cases)
  case 2
  note body = this
  then obtain r where r: "sel_row ho_handoff_id i (db_handoffs db) = Some r" "ho_handoff_id r = i"
    and st: "ho_state r = SourceReady"
    by (auto simp: tx_simps elim!: get_handoff_SomeE)
  show ?case (is ?goal)
  proof (cases "commit_abort_reason (handoff_from_row r) obs now")
    case None
    from body r st None show ?goal
      apply (clarsimp simp: get_handoff_def tx_simps Let_def)
      apply (drule insert_journal_InrD insert_audit_InrD)+
      apply (clarsimp simp: sel_row_update)
      done
  next
    case (Some why)
    with body r st show ?goal by (auto simp: get_handoff_def)
  qed
qed simp

end
