(* ===== verification/Publish_Db.thy ===== *)
theory Publish_Db
  imports Handoff_Db
begin

text \<open>
  Sessions and snapshot publication of \<open>storage.rs\<close>: the canonical publish, which stores a
  snapshot and advances the lease's latest snapshot unless the publisher is stale, and the
  publish of an inactive workspace, which stores its work as a fork.
\<close>

section \<open>Sessions\<close>

definition get_session :: "string \<Rightarrow> metadata_db \<Rightarrow> stored_session option" where
  "get_session session_id db =
     map_option session_from_row (sel_row ss_session_id session_id (db_sessions db))"

definition insert_session_row :: "stored_session \<Rightarrow> metadata_db \<Rightarrow> metadata_db result" where
  "insert_session_row r db =
     (case insert_row ss_session_id r (db_sessions db) of
        None \<Rightarrow> Inl sqlite_unique_violation
      | Some rows \<Rightarrow>
          if ss_project_id r \<notin> pj_project_id ` set (db_projects db)
             \<or> (case ss_active_workspace_id r of None \<Rightarrow> False | Some w \<Rightarrow> w \<notin> set (db_workspaces db))
          then Inl sqlite_foreign_key_violation
          else Inr (db\<lparr>db_sessions := rows\<rparr>))"

definition insert_session ::
    "string \<Rightarrow> u64 \<Rightarrow> string \<Rightarrow> string \<Rightarrow> string option \<Rightarrow> string option \<Rightarrow> session_state
      \<Rightarrow> metadata_db \<Rightarrow> metadata_db \<times> stored_session result" where
  "insert_session new_id now project_id name parent workspace state = run_tx (\<lambda>db.
     bind_r (insert_session_row \<lparr>ss_session_id = new_id, ss_project_id = project_id, ss_name = name,
         ss_parent_session_id = parent, ss_active_workspace_id = workspace, ss_state = state,
         ss_archived_at = None, ss_created_at = now, ss_updated_at = now\<rparr> db) (\<lambda>db'.
     Inr (db', case get_session new_id db' of
         None \<Rightarrow> Inl (Config ''session insert disappeared'')
       | Some s \<Rightarrow> Inr s)))"

definition upsert_project_name :: "string \<Rightarrow> string \<Rightarrow> metadata_db \<Rightarrow> metadata_db" where
  "upsert_project_name project_id display_name db =
     db\<lparr>db_projects := update_rows (\<lambda>r. pj_project_id r = project_id)
         (\<lambda>r. r\<lparr>pj_display_name := display_name\<rparr>)
         (if project_id \<in> pj_project_id ` set (db_projects db) then db_projects db
          else db_projects db @ [\<lparr>pj_project_id = project_id, pj_display_name = display_name\<rparr>])\<rparr>"

definition ensure_default_session ::
    "string \<Rightarrow> u64 \<Rightarrow> string \<Rightarrow> string \<Rightarrow> string option
      \<Rightarrow> metadata_db \<Rightarrow> metadata_db \<times> stored_session result" where
  "ensure_default_session new_id now project_id display_name workspace db =
     (let db1 = upsert_project_name project_id display_name db
      in case sql_first (\<lambda>r. ss_project_id r = project_id \<and> ss_parent_session_id r = None)
                (\<lambda>r. (sint (ss_created_at r), ss_session_id r)) (db_sessions db1) of
           Some s \<Rightarrow> (db1, Inr (session_from_row s))
         | None \<Rightarrow> insert_session new_id now project_id display_name None workspace SessActive db1)"

definition list_sessions :: "string option \<Rightarrow> metadata_db \<Rightarrow> stored_session list" where
  "list_sessions project_id db =
     sort_key (\<lambda>s. (ss_project_id s, ss_created_at s, ss_session_id s))
       (map session_from_row (case project_id of
          Some p \<Rightarrow> sql_query (\<lambda>r. ss_project_id r = p)
                     (\<lambda>r. (sint (ss_created_at r), ss_session_id r)) (db_sessions db)
        | None \<Rightarrow> sql_query (\<lambda>_. True)
                     (\<lambda>r. (ss_project_id r, sint (ss_created_at r), ss_session_id r)) (db_sessions db)))"

definition fork_session ::
    "string \<Rightarrow> u64 \<Rightarrow> string \<Rightarrow> string \<Rightarrow> metadata_db \<Rightarrow> metadata_db \<times> stored_session result" where
  "fork_session new_id now session_id name db =
     (case get_session session_id db of
        None \<Rightarrow> (db, Inl (Config (''unknown session '' @ session_id)))
      | Some parent \<Rightarrow> insert_session new_id now (ss_project_id parent) name
          (Some (ss_session_id parent)) (ss_active_workspace_id parent) SessFork db)"

definition archive_session ::
    "u64 \<Rightarrow> string \<Rightarrow> metadata_db \<Rightarrow> metadata_db \<times> stored_session result" where
  "archive_session now session_id = run_tx (\<lambda>db.
     if count_rows (\<lambda>r. ss_session_id r = session_id) (db_sessions db) = 0
     then Inl (Config (''unknown session '' @ session_id))
     else let db' = db\<lparr>db_sessions := update_rows (\<lambda>r. ss_session_id r = session_id)
                 (\<lambda>r. r\<lparr>ss_state := SessArchived, ss_archived_at := Some now, ss_updated_at := now\<rparr>)
                 (db_sessions db)\<rparr>
          in Inr (db', case get_session session_id db' of
               None \<Rightarrow> Inl (Config ''session archive disappeared'')
             | Some s \<Rightarrow> Inr s))"

section \<open>Snapshot rows\<close>

text \<open>\<open>COALESCE(MAX(sequence_number), 0) + 1\<close> over the project's snapshots.\<close>

definition next_sequence :: "string \<Rightarrow> metadata_db \<Rightarrow> int" where
  "next_sequence project_id db =
     (case map sn_sequence_number (filter (\<lambda>r. sn_project_id r = project_id) (db_snapshots db)) of
        [] \<Rightarrow> 0
      | n # ns \<Rightarrow> foldl max n ns) + 1"

definition insert_snapshot_row :: "stored_snapshot \<Rightarrow> metadata_db \<Rightarrow> metadata_db result" where
  "insert_snapshot_row r db =
     (case insert_row sn_snapshot_id r (db_snapshots db) of
        None \<Rightarrow> Inl sqlite_unique_violation
      | Some rows \<Rightarrow>
          if sn_project_id r \<notin> pj_project_id ` set (db_projects db)
             \<or> (case sn_session_id r of None \<Rightarrow> False | Some s \<Rightarrow> s \<notin> ss_session_id ` set (db_sessions db))
             \<or> (case sn_parent_snapshot_id r of None \<Rightarrow> False | Some p \<Rightarrow> p \<notin> sn_snapshot_id ` set rows)
          then Inl sqlite_foreign_key_violation
          else Inr (db\<lparr>db_snapshots := rows\<rparr>))"

definition list_stored_snapshots :: "string option \<Rightarrow> metadata_db \<Rightarrow> stored_snapshot list" where
  "list_stored_snapshots project_id db =
     map snapshot_from_row (case project_id of
        Some p \<Rightarrow> sql_query (\<lambda>r. sn_project_id r = p) sn_sequence_number (db_snapshots db)
      | None \<Rightarrow> sql_query (\<lambda>_. True) (\<lambda>r. (sn_project_id r, sn_sequence_number r)) (db_snapshots db))"

section \<open>Canonical publish\<close>

record canonical_publish_request =
  cq_lease_id :: string
  cq_session_id :: string
  cq_expected_epoch :: u64
  cq_holder_device_id :: string
  cq_expected_latest_snapshot_id :: "string option"
  cq_metadata :: snapshot_metadata
  cq_pinned :: bool
  cq_label :: "string option"

record canonical_publish_result =
  cr_snapshot :: stored_snapshot
  cr_latest_snapshot_id :: string

definition stored_snapshot_of ::
    "snapshot_metadata \<Rightarrow> string option \<Rightarrow> int \<Rightarrow> bool \<Rightarrow> string option \<Rightarrow> stored_snapshot" where
  "stored_snapshot_of m session sequence pinned label =
     \<lparr>sn_snapshot_id = sm_snapshot_id m, sn_project_id = sm_project_id m, sn_session_id = session,
      sn_parent_snapshot_id = sm_parent_snapshot_id m, sn_sequence_number = sequence,
      sn_pinned = pinned, sn_label = label, sn_metadata = m, sn_created_at = sm_created_at m\<rparr>"

definition stale_reason :: "canonical_publish_request \<Rightarrow> lease_record \<Rightarrow> dr_error option" where
  "stale_reason q lease =
     (if lr_epoch lease \<noteq> cq_expected_epoch q
      then Some (stale_publish_error ''lease epoch changed; refresh before publishing'')
      else if lr_latest_snapshot_id lease \<noteq> cq_expected_latest_snapshot_id q
      then Some (stale_publish_error ''canonical latest changed; recover or fork before publishing'')
      else None)"

definition publish_audit :: "canonical_publish_request \<Rightarrow> lease_record \<Rightarrow> bool \<Rightarrow> audit_event_input" where
  "publish_audit q lease stale =
     (audit_new SnapshotPublished (if stale then AuditBlocked else AuditSucceeded)
        (if stale then ''snapshot stored without advancing canonical latest''
         else ''snapshot published as canonical latest'')
        (JObj [(''expected_epoch'', json_u64 (cq_expected_epoch q)),
               (''actual_epoch'', json_u64 (lr_epoch lease)),
               (''expected_latest_snapshot_id'', json_opt_str (cq_expected_latest_snapshot_id q)),
               (''previous_latest_snapshot_id'', json_opt_str (lr_latest_snapshot_id lease)),
               (''pinned'', JBool (cq_pinned q)), (''label'', json_opt_str (cq_label q))]))
     \<lparr>ai_project_id := Some (sm_project_id (cq_metadata q)),
      ai_actor_device_id := Some (cq_holder_device_id q), ai_session_id := Some (cq_session_id q),
      ai_snapshot_id := Some (sm_snapshot_id (cq_metadata q)), ai_lease_id := Some (cq_lease_id q)\<rparr>"

definition publish_snapshot_canonical ::
    "json_codec \<Rightarrow> canonical_publish_request
      \<Rightarrow> metadata_db \<Rightarrow> metadata_db \<times> canonical_publish_result result" where
  "publish_snapshot_canonical c q = run_tx (\<lambda>db.
     let m = cq_metadata q in
     bind_r (validate_metadata m) (\<lambda>_.
     if sm_session_id m \<noteq> Some (cq_session_id q)
     then Inl (Config ''snapshot session_id does not match publish session'')
     else case get_lease (cq_lease_id q) db of
       None \<Rightarrow> Inl (Config (''unknown lease '' @ cq_lease_id q))
     | Some lease \<Rightarrow>
       if lr_project_id lease \<noteq> sm_project_id m
       then Inl (Config ''lease project_id does not match snapshot project_id'')
       else if lr_session_id lease \<noteq> cq_session_id q
       then Inl (Config ''lease session_id does not match publish session'')
       else if count_rows (\<lambda>s. ss_session_id s = cq_session_id q \<and> ss_project_id s = sm_project_id m)
                 (db_sessions db) = 0
       then Inl (Config (''unknown session '' @ cq_session_id q))
       else if lr_holder_device_id lease \<noteq> Some (cq_holder_device_id q)
       then Inl (Config ''publish rejected: holder device mismatch'')
       else bind_r (ensure_device_not_revoked db (cq_holder_device_id q) ''snapshot publish'') (\<lambda>_.
       if lr_state lease \<noteq> Active
       then Inl (Config (''publish rejected: lease state is '' @ lease_state_as_str (lr_state lease)))
       else let snapshot = stored_snapshot_of m (Some (cq_session_id q))
                  (next_sequence (sm_project_id m) db) (cq_pinned q) (cq_label q)
            in bind_r (insert_snapshot_row snapshot db) (\<lambda>db1.
               let stale = stale_reason q lease;
                   db2 = (if stale \<noteq> None then db1
                     else db1\<lparr>db_leases := update_rows (\<lambda>r. lr_lease_id r = cq_lease_id q)
                       (\<lambda>r. r\<lparr>lr_latest_snapshot_id := Some (sm_snapshot_id m)\<rparr>) (db_leases db1)\<rparr>)
               in bind_r (insert_audit_event c (publish_audit q lease (stale \<noteq> None)) (sm_created_at m) db2)
                  (\<lambda>(db3, _). Inr (db3, case stale of
                       Some err \<Rightarrow> Inl err
                     | None \<Rightarrow> Inr \<lparr>cr_snapshot = snapshot, cr_latest_snapshot_id = sm_snapshot_id m\<rparr>))))))"

section \<open>Publishing an inactive workspace as a fork\<close>

record inactive_fork_request =
  fq_lease_id :: string
  fq_session_id :: string
  fq_holder_device_id :: string
  fq_metadata :: snapshot_metadata
  fq_label :: "string option"

record inactive_fork_result =
  fr_fork_session :: stored_session
  fr_snapshot :: stored_snapshot
  fr_canonical_latest :: "string option"

definition fork_metadata :: "string \<Rightarrow> lease_record \<Rightarrow> snapshot_metadata \<Rightarrow> snapshot_metadata" where
  "fork_metadata fork_id lease m =
     m\<lparr>sm_session_id := Some fork_id,
       sm_parent_snapshot_id := (case sm_parent_snapshot_id m of
          None \<Rightarrow> lr_latest_snapshot_id lease | Some p \<Rightarrow> Some p)\<rparr>"

definition fork_audit :: "inactive_fork_request \<Rightarrow> lease_record \<Rightarrow> string \<Rightarrow> string \<Rightarrow> audit_event_input" where
  "fork_audit q lease fork_id label =
     (audit_new SnapshotPublished AuditBlocked ''inactive workspace snapshot stored as fork''
        (JObj [(''source_session_id'', JStr (fq_session_id q)), (''fork_session_id'', JStr fork_id),
               (''canonical_latest_snapshot_id'', json_opt_str (lr_latest_snapshot_id lease)),
               (''pinned'', JBool True), (''label'', JStr label)]))
     \<lparr>ai_project_id := Some (sm_project_id (fq_metadata q)),
      ai_actor_device_id := Some (fq_holder_device_id q), ai_session_id := Some fork_id,
      ai_snapshot_id := Some (sm_snapshot_id (fq_metadata q)), ai_lease_id := Some (fq_lease_id q)\<rparr>"

definition publish_inactive_snapshot_as_fork ::
    "json_codec \<Rightarrow> string \<Rightarrow> u64 \<Rightarrow> inactive_fork_request
      \<Rightarrow> metadata_db \<Rightarrow> metadata_db \<times> inactive_fork_result result" where
  "publish_inactive_snapshot_as_fork c fork_id now q = run_tx (\<lambda>db.
     let m = fq_metadata q in
     if sm_session_id m \<noteq> Some (fq_session_id q)
     then Inl (Config ''snapshot session_id does not match inactive publish session'')
     else case get_lease (fq_lease_id q) db of
       None \<Rightarrow> Inl (Config (''unknown lease '' @ fq_lease_id q))
     | Some lease \<Rightarrow>
       if lr_project_id lease \<noteq> sm_project_id m
       then Inl (Config ''lease project_id does not match snapshot project_id'')
       else if lr_session_id lease \<noteq> fq_session_id q
       then Inl (Config ''lease session_id does not match inactive publish session'')
       else if lr_holder_device_id lease \<noteq> Some (fq_holder_device_id q)
       then Inl (Config ''inactive publish rejected: holder device mismatch'')
       else bind_r (ensure_device_not_revoked db (fq_holder_device_id q) ''inactive publish'') (\<lambda>_.
       if lr_state lease \<noteq> Inactive
       then Inl (Config (''inactive edit fork requires inactive lease; found ''
              @ lease_state_as_str (lr_state lease)))
       else case map_option session_from_row
              (find (\<lambda>s. ss_session_id s = fq_session_id q \<and> ss_project_id s = sm_project_id m) (db_sessions db)) of
         None \<Rightarrow> Inl (Config (''unknown session '' @ fq_session_id q))
       | Some parent \<Rightarrow>
         bind_r (validate_transition_to lease (lease\<lparr>lr_state := Forked\<rparr>)) (\<lambda>_.
         let fork_session = \<lparr>ss_session_id = fork_id, ss_project_id = ss_project_id parent,
               ss_name = ''Separate work from '' @ ss_name parent,
               ss_parent_session_id = Some (ss_session_id parent),
               ss_active_workspace_id = ss_active_workspace_id parent, ss_state = SessFork,
               ss_archived_at = None, ss_created_at = now, ss_updated_at = now\<rparr>;
             fm = fork_metadata fork_id lease m;
             label = (case fq_label q of None \<Rightarrow> ''separate work from inactive workspace'' | Some l \<Rightarrow> l)
         in bind_r (insert_session_row fork_session db) (\<lambda>db1.
            bind_r (validate_metadata fm) (\<lambda>_.
            let snapshot = stored_snapshot_of fm (Some fork_id) (next_sequence (sm_project_id fm) db1)
                  True (Some label)
            in bind_r (insert_snapshot_row snapshot db1) (\<lambda>db2.
               let P = (\<lambda>r. lr_lease_id r = fq_lease_id q \<and> lr_state r = Inactive);
                   db3 = db2\<lparr>db_leases := update_rows P (\<lambda>r. r\<lparr>lr_state := Forked\<rparr>) (db_leases db2)\<rparr>
               in if count_rows P (db_leases db2) \<noteq> 1
                  then Inl (Config ''inactive edit fork lost lease state race'')
                  else bind_r (insert_audit_event c (fork_audit q lease fork_id label) (sm_created_at fm) db3)
                    (\<lambda>(db4, _). Inr (db4, Inr \<lparr>fr_fork_session = fork_session, fr_snapshot = snapshot,
                       fr_canonical_latest = lr_latest_snapshot_id lease\<rparr>))))))))"

end
