(* ===== verification/Handoff_Safety.thy ===== *)
theory Handoff_Safety
  imports Handoff_Db
begin

text \<open>
  What the handoff protocol guarantees: the links between pending handoffs and leases, the
  journal of each handoff, and the step relation of the protocol.
\<close>

section \<open>Links between handoffs and leases\<close>

definition backs :: "lease_record \<Rightarrow> handoff_row \<Rightarrow> bool" where
  "backs l r \<longleftrightarrow> lr_lease_id l = ho_lease_id r \<and> lr_handoff_id l = Some (ho_handoff_id r)
     \<and> column_u64 (lr_epoch l) = ho_expected_epoch r
     \<and> lr_holder_device_id l = Some (ho_source_device_id r) \<and> lr_project_id l = ho_project_id r"

definition links :: "handoff_row list \<Rightarrow> lease_record list \<Rightarrow> bool" where
  "links hs ls \<longleftrightarrow>
     pk_wf lr_lease_id ls \<and> pk_wf ho_handoff_id hs
     \<and> (\<forall>r\<in>set hs. \<not> handoff_is_terminal (ho_state r) \<longrightarrow> (\<exists>l\<in>set ls. backs l r))
     \<and> (\<forall>l\<in>set ls. case lr_handoff_id l of None \<Rightarrow> lr_state l \<noteq> HandoffPending
          | Some i \<Rightarrow> lr_state l = HandoffPending
              \<and> (\<exists>r\<in>set hs. ho_handoff_id r = i \<and> \<not> handoff_is_terminal (ho_state r)
                   \<and> ho_lease_id r = lr_lease_id l))"

lemma linksI:
  assumes "pk_wf lr_lease_id ls" "pk_wf ho_handoff_id hs"
    and "\<And>r. r \<in> set hs \<Longrightarrow> \<not> handoff_is_terminal (ho_state r) \<Longrightarrow> \<exists>l\<in>set ls. backs l r"
    and "\<And>l. l \<in> set ls \<Longrightarrow> lr_handoff_id l = None \<Longrightarrow> lr_state l \<noteq> HandoffPending"
    and "\<And>l i. l \<in> set ls \<Longrightarrow> lr_handoff_id l = Some i \<Longrightarrow> lr_state l = HandoffPending
      \<and> (\<exists>r\<in>set hs. ho_handoff_id r = i \<and> \<not> handoff_is_terminal (ho_state r)
           \<and> ho_lease_id r = lr_lease_id l)"
  shows "links hs ls"
  using assms unfolding links_def by (auto split: option.splits)

lemma links_pk: "links hs ls \<Longrightarrow> pk_wf lr_lease_id ls" "links hs ls \<Longrightarrow> pk_wf ho_handoff_id hs"
  by (simp_all add: links_def)

lemma links_backed: "links hs ls \<Longrightarrow> r \<in> set hs \<Longrightarrow> \<not> handoff_is_terminal (ho_state r) \<Longrightarrow>
    \<exists>l\<in>set ls. backs l r"
  by (simp add: links_def)

lemma links_leaseD: "links hs ls \<Longrightarrow> l \<in> set ls \<Longrightarrow> lr_handoff_id l = Some i \<Longrightarrow>
    lr_state l = HandoffPending \<and> (\<exists>r\<in>set hs. ho_handoff_id r = i
      \<and> \<not> handoff_is_terminal (ho_state r) \<and> ho_lease_id r = lr_lease_id l)"
  by (auto simp: links_def)

lemma links_free: "links hs ls \<Longrightarrow> l \<in> set ls \<Longrightarrow> lr_handoff_id l = None \<Longrightarrow> lr_state l \<noteq> HandoffPending"
  by (auto simp: links_def)

lemma links_row:
  assumes L: "links hs ls" and r: "r \<in> set hs" and l: "l \<in> set ls"
    and i: "lr_handoff_id l = Some (ho_handoff_id r)"
  shows "\<not> handoff_is_terminal (ho_state r)" "backs l r"
proof -
  obtain q where "q \<in> set hs" "ho_handoff_id q = ho_handoff_id r" "\<not> handoff_is_terminal (ho_state q)"
    and lq: "ho_lease_id q = lr_lease_id l"
    using links_leaseD [OF L l i] by auto
  then have "q = r" using pk_eq [OF links_pk(2) [OF L]] r by auto
  with \<open>\<not> handoff_is_terminal (ho_state q)\<close> show nt: "\<not> handoff_is_terminal (ho_state r)" by simp
  obtain l' where l': "l' \<in> set ls" "backs l' r" using links_backed [OF L r nt] by blast
  then have "lr_lease_id l' = lr_lease_id l" using lq \<open>q = r\<close> by (simp add: backs_def)
  then have "l' = l" using pk_eq [OF links_pk(1) [OF L]] l l' by auto
  with l' show "backs l r" by simp
qed

text \<open>At most one pending handoff per lease.\<close>

lemma links_unique:
  assumes L: "links hs ls" and a: "a \<in> set hs" "\<not> handoff_is_terminal (ho_state a)"
    and b: "b \<in> set hs" "\<not> handoff_is_terminal (ho_state b)" and same: "ho_lease_id a = ho_lease_id b"
  shows "a = b"
proof -
  obtain l where l: "l \<in> set ls" "backs l a" using links_backed [OF L a] by blast
  obtain m where m: "m \<in> set ls" "backs m b" using links_backed [OF L b] by blast
  have "lr_lease_id l = lr_lease_id m" using l m same by (simp add: backs_def)
  then have "l = m" using pk_eq [OF links_pk(1) [OF L]] l m by auto
  then have "ho_handoff_id a = ho_handoff_id b" using l m by (simp add: backs_def)
  then show ?thesis using pk_eq [OF links_pk(2) [OF L]] a b by auto
qed

text \<open>The updates of each operation keep the links.\<close>

lemma links_begin:
  assumes L: "links hs ls" and l: "sel_row lr_lease_id lid ls = Some l"
    and st: "lr_state l = Active" and hold: "lr_holder_device_id l = Some s"
    and new: "i \<notin> ho_handoff_id ` set hs"
  shows "links (hs @ [handoff_row_of (new_handoff i now (lease_from_row l) s t g ttl) now])
    (update_rows (\<lambda>r. lr_lease_id r = lid)
       (\<lambda>r. r\<lparr>lr_state := HandoffPending, lr_handoff_id := Some i\<rparr>) ls)"
proof -
  have lm: "l \<in> set ls" "lr_lease_id l = lid" using sel_row_SomeD [OF l] by auto
  have free: "lr_handoff_id l = None" using links_leaseD [OF L lm(1)] st by (cases "lr_handoff_id l") auto
  have only: "m = l" if "m \<in> set ls" "lr_lease_id m = lid" for m
    using that lm pk_eq [OF links_pk(1) [OF L]] by auto
  show ?thesis
  proof (rule linksI, goal_cases)
    case 1 show ?case using links_pk(1) [OF L] by (simp add: pk_wf_update)
  next
    case 2 show ?case using links_pk(2) [OF L] new by simp
  next
    case (3 r)
    show ?case
    proof (cases "r \<in> set hs")
      case True
      then obtain m where m: "m \<in> set ls" "backs m r" using links_backed [OF L] 3 by auto
      then have "lr_lease_id m \<noteq> lid" using only free by (auto simp: backs_def)
      with m show ?thesis by (auto simp: set_update_rows intro: rev_bexI)
    next
      case False
      with 3 have "r = handoff_row_of (new_handoff i now (lease_from_row l) s t g ttl) now" by simp
      then show ?thesis using lm hold
        by (intro bexI [OF _ mem_update_rows [OF lm(1)]]) (simp add: backs_def)
    qed
  next
    case (4 m)
    then show ?case using links_free [OF L] by (auto simp: set_update_rows split: if_splits)
  next
    case (5 m j)
    then obtain k where k: "k \<in> set ls" and m: "m = (if lr_lease_id k = lid
        then k\<lparr>lr_state := HandoffPending, lr_handoff_id := Some i\<rparr> else k)"
      by (auto simp: set_update_rows)
    show ?case
    proof (cases "lr_lease_id k = lid")
      case True
      with m 5 lm show ?thesis by simp
    next
      case False
      with m 5 have "lr_handoff_id k = Some j" "m = k" by simp_all
      with links_leaseD [OF L k] show ?thesis by auto
    qed
  qed
qed

lemma links_advance:
  assumes L: "links hs ls" and e: "\<not> handoff_is_terminal ex" and n: "\<not> handoff_is_terminal nx"
  shows "links (update_rows (\<lambda>r. ho_handoff_id r = i \<and> ho_state r = ex) (\<lambda>r. r\<lparr>ho_state := nx\<rparr>) hs) ls"
proof (rule linksI, goal_cases)
  case 1 show ?case by (rule links_pk [OF L])
next
  case 2 show ?case using links_pk [OF L] by (simp add: pk_wf_update)
next
  case (3 r)
  then obtain q where "q \<in> set hs" "r = (if ho_handoff_id q = i \<and> ho_state q = ex then q\<lparr>ho_state := nx\<rparr> else q)"
    by (auto simp: set_update_rows)
  moreover have "\<not> handoff_is_terminal (ho_state q)" using 3 calculation e by (auto split: if_splits)
  ultimately show ?case using links_backed [OF L, of q] by (auto simp: backs_def)
next
  case (4 l) then show ?case by (rule links_free [OF L])
next
  case (5 l j)
  then obtain q where "q \<in> set hs" "ho_handoff_id q = j" "\<not> handoff_is_terminal (ho_state q)"
     "ho_lease_id q = lr_lease_id l" "lr_state l = HandoffPending"
    using links_leaseD [OF L] by blast
  then show ?case using n
    by (intro conjI bexI [OF _ mem_update_rows [of q]]) simp_all
qed

text \<open>
  Ending a handoff: its row becomes terminal and the lease that carries it is freed.
\<close>

lemma links_end:
  assumes L: "links hs ls" and r: "sel_row ho_handoff_id i hs = Some r"
    and nt: "\<not> handoff_is_terminal (ho_state r)"
    and fid: "\<And>q. ho_handoff_id (f q) = ho_handoff_id q" "\<And>q. handoff_is_terminal (ho_state (f q))"
    and gid: "\<And>l. lr_lease_id (g l) = lr_lease_id l" "\<And>l. lr_handoff_id (g l) = None"
      "\<And>l. lr_state (g l) = Active"
    and P: "\<And>l. l \<in> set ls \<Longrightarrow> P l \<longleftrightarrow> lr_handoff_id l = Some i"
  shows "links (update_rows (\<lambda>q. ho_handoff_id q = i) f hs) (update_rows P g ls)"
proof (rule linksI, goal_cases)
  case 1 show ?case using links_pk(1) [OF L] by (simp add: pk_wf_update gid)
next
  case 2 show ?case using links_pk(2) [OF L] by (simp add: pk_wf_update fid)
next
  case (3 q)
  then have q: "q \<in> set hs" "ho_handoff_id q \<noteq> i" using fid by (auto simp: set_update_rows split: if_splits)
  then obtain m where m: "m \<in> set ls" "backs m q" using 3 links_backed [OF L] by blast
  then have "\<not> P m" using P q by (auto simp: backs_def)
  with m show ?case by (auto simp: set_update_rows intro: rev_bexI)
next
  case (4 l) then show ?case using links_free [OF L] gid by (auto simp: set_update_rows split: if_splits)
next
  case (5 l j)
  then have l: "l \<in> set ls" "\<not> P l" using gid by (auto simp: set_update_rows split: if_splits)
  then obtain q where q: "q \<in> set hs" "ho_handoff_id q = j" "\<not> handoff_is_terminal (ho_state q)"
     "ho_lease_id q = lr_lease_id l" "lr_state l = HandoffPending"
    using 5 links_leaseD [OF L] by blast
  have "j \<noteq> i" using l P 5 by auto
  with q show ?case by (auto simp: set_update_rows intro!: bexI [of _ q])
qed

lemma links_leases:
  assumes L: "links hs ls"
    and same: "\<And>l. l \<in> set ls \<Longrightarrow> P l \<Longrightarrow> lr_handoff_id (f l) = lr_handoff_id l \<and> lr_epoch (f l) = lr_epoch l
      \<and> lr_holder_device_id (f l) = lr_holder_device_id l \<and> lr_project_id (f l) = lr_project_id l
      \<and> (lr_state (f l) = HandoffPending \<longleftrightarrow> lr_state l = HandoffPending)"
    and fid: "\<And>l. lr_lease_id (f l) = lr_lease_id l"
  shows "links hs (update_rows P f ls)"
proof (rule linksI, goal_cases)
  case 1 show ?case using links_pk(1) [OF L] by (simp add: pk_wf_update fid)
next
  case 2 show ?case by (rule links_pk [OF L])
next
  case (3 r)
  then obtain l where "l \<in> set ls" "backs l r" using links_backed [OF L] by blast
  then show ?case using same fid
    by (intro bexI [OF _ mem_update_rows [of l]]) (auto simp: backs_def)
next
  case (4 l) then show ?case using links_free [OF L] same by (auto simp: set_update_rows split: if_splits)
next
  case (5 l j) then show ?case using links_leaseD [OF L] same fid
    by (force simp: set_update_rows split: if_splits)
qed

lemma links_new_lease:
  assumes "links hs ls" "lr_lease_id l \<notin> lr_lease_id ` set ls" "lr_handoff_id l = None"
    "lr_state l \<noteq> HandoffPending"
  shows "links hs (ls @ [l])"
  using assms unfolding links_def by auto

section \<open>The journal of a handoff\<close>

text \<open>
  The milestones of a handoff are its journal phases without the target-apply notes, which may
  be recorded any number of times. They determine the state, except that a commit that finds
  the handoff expired or the source changed aborts without a journal entry.
\<close>

definition milestones :: "string \<Rightarrow> handoff_journal_record list \<Rightarrow> journal_phase list" where
  "milestones i js =
     filter (\<lambda>p. p \<noteq> PhTargetApply) (map hj_phase (filter (\<lambda>j. hj_handoff_id j = i) js))"

fun journal_matches :: "handoff_state \<Rightarrow> journal_phase list \<Rightarrow> bool" where
  "journal_matches TargetPrepare ms = (ms = [PhBegin, PhTargetPrepare])"
| "journal_matches TargetVerified ms = (ms = [PhBegin, PhTargetPrepare, PhTargetVerified])"
| "journal_matches SourceReady ms =
     (ms = [PhBegin, PhTargetPrepare, PhTargetVerified, PhSourceReady])"
| "journal_matches Committed ms =
     (ms = [PhBegin, PhTargetPrepare, PhTargetVerified, PhSourceReady, PhLeaseCommitted])"
| "journal_matches Aborted ms =
     (ms \<in> set [[PhBegin, PhTargetPrepare, PhAborted],
              [PhBegin, PhTargetPrepare, PhTargetVerified, PhAborted],
              [PhBegin, PhTargetPrepare, PhTargetVerified, PhSourceReady, PhAborted],
              [PhBegin, PhTargetPrepare, PhTargetVerified, PhSourceReady]])"

definition journal_wf :: "handoff_row list \<Rightarrow> handoff_journal_record list \<Rightarrow> bool" where
  "journal_wf hs js \<longleftrightarrow>
     (\<forall>j\<in>set js. hj_handoff_id j \<in> ho_handoff_id ` set hs)
     \<and> (\<forall>r\<in>set hs. journal_matches (ho_state r) (milestones (ho_handoff_id r) js))"

lemma milestones_append: "milestones i (xs @ ys) = milestones i xs @ milestones i ys"
  by (simp add: milestones_def)

lemma milestones_one: "milestones i [j] =
    (if hj_handoff_id j = i \<and> hj_phase j \<noteq> PhTargetApply then [hj_phase j] else [])"
  by (simp add: milestones_def)

lemma milestones_fresh: "i \<notin> hj_handoff_id ` set js \<Longrightarrow> milestones i js = []"
  by (auto simp: milestones_def filter_empty_conv)

lemma journal_begin:
  assumes J: "journal_wf hs js" and r: "ho_handoff_id r = i" "ho_state r = TargetPrepare"
    and i: "i \<notin> ho_handoff_id ` set hs"
    and j1: "hj_phase j1 = PhBegin" "hj_handoff_id j1 = i"
    and j2: "hj_phase j2 = PhTargetPrepare" "hj_handoff_id j2 = i"
  shows "journal_wf (hs @ [r]) (js @ [j1, j2])"
proof -
  have none: "milestones i js = []"
    using J i by (intro milestones_fresh) (auto simp: journal_wf_def)
  have two: "milestones k [j1, j2] = (if k = i then [PhBegin, PhTargetPrepare] else [])" for k
    using j1 j2 by (simp add: milestones_def)
  have "k \<in> set hs \<Longrightarrow> ho_handoff_id k \<noteq> i" for k using i by auto
  then show ?thesis
    using J r none two j1 j2 by (auto simp: journal_wf_def milestones_append)
qed

lemma journal_note:
  assumes J: "journal_wf hs js" and i: "hj_handoff_id j \<in> ho_handoff_id ` set hs"
    and p: "hj_phase j = PhTargetApply"
  shows "journal_wf hs (js @ [j])"
  using assms by (simp add: journal_wf_def milestones_append milestones_one)

text \<open>
  An update of the rows of one handoff with the entry that belongs to it; the new milestones
  need only match for that handoff.
\<close>

lemma journal_update:
  assumes J: "journal_wf hs js" and pk: "pk_wf ho_handoff_id hs"
    and r: "sel_row ho_handoff_id i hs = Some r"
    and f: "\<And>q. ho_handoff_id (f q) = ho_handoff_id q"
    and P: "P r" "\<And>q. P q \<Longrightarrow> ho_handoff_id q = i"
    and es: "\<forall>e\<in>set es. hj_handoff_id e = i"
    and m: "journal_matches (ho_state r) (milestones i js) \<Longrightarrow>
        journal_matches (ho_state (f r)) (milestones i js @ milestones i es)"
  shows "journal_wf (update_rows P f hs) (js @ es)"
proof -
  have rm: "r \<in> set hs" "ho_handoff_id r = i" using sel_row_SomeD [OF r] by auto
  have only: "q = r" if "q \<in> set hs" "P q" for q
    using that P(2) rm pk_eq [OF pk] by auto
  have ids: "ho_handoff_id ` set (update_rows P f hs) = ho_handoff_id ` set hs"
    using update_rows_keys [of ho_handoff_id f P hs, OF f] by (metis list.set_map)
  have other: "milestones k es = []" if "k \<noteq> i" for k
    using es that by (intro milestones_fresh) auto
  have "journal_matches (ho_state q) (milestones (ho_handoff_id q) (js @ es))"
    if q: "q \<in> set (update_rows P f hs)" for q
  proof -
    obtain p where p: "p \<in> set hs" "q = (if P p then f p else p)"
      using q by (auto simp: set_update_rows)
    have old: "journal_matches (ho_state p) (milestones (ho_handoff_id p) js)"
      using J p by (simp add: journal_wf_def)
    show ?thesis
    proof (cases "P p")
      case True
      then have "p = r" using only p by simp
      with True p old rm m f show ?thesis by (simp add: milestones_append)
    next
      case False
      have "ho_handoff_id p \<noteq> i" using False P(1) rm p(1) pk_eq [OF pk] by metis
      with False p old show ?thesis by (simp add: milestones_append other)
    qed
  qed
  moreover have "\<forall>j\<in>set (js @ es). hj_handoff_id j \<in> ho_handoff_id ` set (update_rows P f hs)"
    unfolding ids using J es rm by (auto simp: journal_wf_def)
  ultimately show ?thesis by (simp add: journal_wf_def)
qed

section \<open>The invariant\<close>

definition handoff_inv :: "metadata_db \<Rightarrow> bool" where
  "handoff_inv db \<longleftrightarrow> links (db_handoffs db) (db_leases db) \<and> journal_wf (db_handoffs db) (db_journal db)"

lemma inv_begin:
  assumes I: "handoff_inv db" and b: "begin_handoff i now lid s t g ttl db = (db', r)"
  shows "handoff_inv db'"
proof (cases r)
  case (Inl e) with b I show ?thesis using begin_handoff_Inl by metis
next
  case (Inr h)
  from begin_handoff_InrD [OF b [unfolded Inr]] show ?thesis
    using I unfolding handoff_inv_def
    by (elim exE conjE) (simp add: links_begin journal_begin)
qed

lemma inv_record_apply:
  assumes I: "handoff_inv db" and b: "record_handoff_target_apply c now i d db = (db', r)"
  shows "handoff_inv db'"
proof (cases r)
  case (Inl e) with b I show ?thesis using record_apply_Inl by metis
next
  case (Inr j)
  from record_apply_InrD [OF b [unfolded Inr]] show ?thesis
    using I unfolding handoff_inv_def
    by (elim exE conjE) (auto intro!: journal_note dest: sel_row_SomeD)
qed

lemma inv_update_state:
  assumes I: "handoff_inv db" and b: "update_handoff_state now i ex nx ph db = (db', r)"
    and e: "(ex, nx, ph) \<in> {(TargetPrepare, TargetVerified, PhTargetVerified),
                           (TargetVerified, SourceReady, PhSourceReady)}"
  shows "handoff_inv db'"
proof (cases r)
  case (Inl e') with b I show ?thesis using update_state_Inl by metis
next
  case (Inr h)
  from update_state_InrD [OF b [unfolded Inr]] obtain r j where
    r: "sel_row ho_handoff_id i (db_handoffs db) = Some r" "ho_state r = ex" "ho_handoff_id r = i"
    and j: "hj_phase j = ph" "hj_handoff_id j = i"
    and db': "db' = db\<lparr>db_handoffs := update_rows (\<lambda>r. ho_handoff_id r = i \<and> ho_state r = ex)
        (\<lambda>r. r\<lparr>ho_state := nx\<rparr>) (db_handoffs db),
      db_journal := db_journal db @ [j], db_next_journal_id := Suc (db_next_journal_id db)\<rparr>"
    by blast
  have L: "links (db_handoffs db) (db_leases db)" and J: "journal_wf (db_handoffs db) (db_journal db)"
    using I by (simp_all add: handoff_inv_def)
  have "journal_wf (update_rows (\<lambda>r. ho_handoff_id r = i \<and> ho_state r = ex)
        (\<lambda>r. r\<lparr>ho_state := nx\<rparr>) (db_handoffs db)) (db_journal db @ [j])"
    by (rule journal_update [OF J links_pk(2) [OF L] r(1)])
      (use r j e in \<open>auto simp: milestones_one\<close>)
  moreover have "links (update_rows (\<lambda>r. ho_handoff_id r = i \<and> ho_state r = ex)
        (\<lambda>r. r\<lparr>ho_state := nx\<rparr>) (db_handoffs db)) (db_leases db)"
    by (rule links_advance [OF L]) (use e in auto)
  ultimately show ?thesis by (simp add: handoff_inv_def db')
qed

text \<open>The lease a pending handoff is linked to is the one its updates select.\<close>

lemma carrier_iff:
  assumes L: "links hs ls" and r: "sel_row ho_handoff_id i hs = Some r" and l: "l \<in> set ls"
  shows "lr_lease_id l = ho_lease_id r \<and> lr_handoff_id l = Some i \<longleftrightarrow> lr_handoff_id l = Some i"
  using links_row(2) [OF L _ l, of r] sel_row_SomeD [OF r] by (auto simp: backs_def)

lemma matches_aborted:
  "journal_matches st ms \<Longrightarrow> \<not> handoff_is_terminal st \<Longrightarrow> journal_matches Aborted (ms @ [PhAborted])"
  "journal_matches SourceReady ms \<Longrightarrow> journal_matches Aborted ms"
  by (cases st; simp) simp

lemma inv_abort_rows:
  assumes I: "handoff_inv db" and r: "sel_row ho_handoff_id i (db_handoffs db) = Some r"
    and nt: "\<not> handoff_is_terminal (ho_state r)"
    and es: "es = [] \<and> ho_state r = SourceReady \<or> (\<exists>j. es = [j] \<and> hj_phase j = PhAborted \<and> hj_handoff_id j = i)"
  shows "handoff_inv ((abort_rows i (ho_lease_id r) now db)\<lparr>db_journal := db_journal db @ es,
     db_next_journal_id := n\<rparr>)"
proof -
  have L: "links (db_handoffs db) (db_leases db)" and J: "journal_wf (db_handoffs db) (db_journal db)"
    using I by (simp_all add: handoff_inv_def)
  have ms: "journal_matches Aborted (ms @ milestones i es)" if "journal_matches (ho_state r) ms" for ms
    using es
  proof (elim disjE exE conjE)
    assume "es = []" "ho_state r = SourceReady"
    with that show ?thesis by (simp only: milestones_fresh matches_aborted(2) list.set append_Nil2 image_empty empty_iff not_False_eq_True)
  next
    fix j assume "es = [j]" "hj_phase j = PhAborted" "hj_handoff_id j = i"
    then show ?thesis using matches_aborted(1) [OF that nt] by (simp only: milestones_one) simp
  qed
  have "journal_wf (update_rows (\<lambda>r. ho_handoff_id r = i)
        (\<lambda>r. r\<lparr>ho_state := Aborted, hr_aborted_at := Some now\<rparr>) (db_handoffs db)) (db_journal db @ es)"
  proof (rule journal_update [OF J links_pk(2) [OF L] r], goal_cases)
    case 4 show ?case using es by auto
  next
    case 5 then show ?case using ms by (simp del: journal_matches.simps)
  qed (use sel_row_SomeD [OF r] in auto)
  moreover have "links (update_rows (\<lambda>r. ho_handoff_id r = i)
        (\<lambda>r. r\<lparr>ho_state := Aborted, hr_aborted_at := Some now\<rparr>) (db_handoffs db))
      (update_rows (\<lambda>l. lr_lease_id l = ho_lease_id r \<and> lr_handoff_id l = Some i)
          (\<lambda>r. r\<lparr>lr_state := Active, lr_handoff_id := None\<rparr>) (db_leases db))"
    by (rule links_end [OF L r nt]) (use carrier_iff [OF L r] in auto)
  ultimately show ?thesis by (simp add: handoff_inv_def abort_rows_def)
qed

lemma inv_abort:
  assumes I: "handoff_inv db" and b: "abort_handoff_at c i now why db = (db', r)"
  shows "handoff_inv db'"
proof (cases r)
  case (Inl e) with b I show ?thesis using abort_Inl by metis
next
  case (Inr h)
  from abort_InrD [OF b [unfolded Inr]] show ?thesis
    using I inv_abort_rows [OF I] by blast
qed

lemma held_iff:
  assumes L: "links (db_handoffs db) (db_leases db)"
    and r: "sel_row ho_handoff_id i (db_handoffs db) = Some r"
    and c: "count_rows (\<lambda>l. lr_lease_id l = ho_lease_id r \<and> lr_epoch l = e \<and> lr_handoff_id l = Some i)
       (db_leases db) = 1"
    and l: "l \<in> set (db_leases db)"
  shows "lr_lease_id l = ho_lease_id r \<and> lr_epoch l = e \<and> lr_handoff_id l = Some i
    \<longleftrightarrow> lr_handoff_id l = Some i"
proof -
  have "count_rows (\<lambda>l. lr_lease_id l = ho_lease_id r \<and> lr_epoch l = e \<and> lr_handoff_id l = Some i)
       (db_leases db) \<noteq> 0" using c by simp
  then obtain k where k: "k \<in> set (db_leases db)" "lr_lease_id k = ho_lease_id r" "lr_epoch k = e"
    by (auto simp: count_rows_0_iff)
  have "l = k" if "lr_handoff_id l = Some i"
    using that carrier_iff [OF L r l] k pk_eq [OF links_pk(1) [OF L] l k(1)] by simp
  with k show ?thesis using carrier_iff [OF L r l] by auto
qed

lemma inv_commit:
  assumes I: "handoff_inv db" and b: "commit_handoff_inner c i obs now pf db = (db', r)"
  shows "handoff_inv db'"
proof (cases r)
  case (Inl e)
  show ?thesis
  proof (cases "db' = db")
    case False
    then obtain q where q: "sel_row ho_handoff_id i (db_handoffs db) = Some q" "ho_state q = SourceReady"
      and db': "db' = abort_rows i (ho_lease_id q) now db"
      using commit_InlD [OF b [unfolded Inl]] by blast
    have "handoff_inv ((abort_rows i (ho_lease_id q) now db)\<lparr>db_journal := db_journal db @ [],
       db_next_journal_id := db_next_journal_id db\<rparr>)"
      by (rule inv_abort_rows [OF I q(1)]) (use q in simp_all)
    then show ?thesis by (simp add: db' abort_rows_def handoff_inv_def)
  qed (use I in simp)
next
  case (Inr h)
  from commit_InrD [OF b [unfolded Inr]] obtain q j a where
    q: "sel_row ho_handoff_id i (db_handoffs db) = Some q" "ho_handoff_id q = i" "ho_state q = SourceReady"
    and c: "count_rows (\<lambda>l. lr_lease_id l = ho_lease_id q \<and> lr_epoch l = column_u64 (ho_expected_epoch q)
         \<and> lr_handoff_id l = Some i) (db_leases db) = 1"
    and j: "hj_phase j = PhLeaseCommitted" "hj_handoff_id j = i"
    and db': "db' = commit_rows i (handoff_from_row q) now db
       \<lparr>db_journal := db_journal db @ [j], db_next_journal_id := Suc (db_next_journal_id db),
        db_audit := db_audit db @ [a], db_next_audit_id := Suc (db_next_audit_id db)\<rparr>"
    by blast
  have L: "links (db_handoffs db) (db_leases db)" and J: "journal_wf (db_handoffs db) (db_journal db)"
    using I by (simp_all add: handoff_inv_def)
  have "links (update_rows (\<lambda>r. ho_handoff_id r = i)
          (\<lambda>r. r\<lparr>ho_state := Committed, hr_committed_at := Some now\<rparr>) (db_handoffs db))
      (update_rows (\<lambda>l. lr_lease_id l = ho_lease_id q \<and> lr_epoch l = column_u64 (ho_expected_epoch q)
            \<and> lr_handoff_id l = Some i)
          (\<lambda>l. l\<lparr>lr_state := Active, lr_epoch := sat_add (column_u64 (ho_expected_epoch q)) 1,
                 lr_holder_device_id := Some (ho_target_device_id q), lr_handoff_id := None\<rparr>)
          (db_leases db))"
    by (rule links_end [OF L q(1)]) (use q held_iff [OF L q(1) c] in simp_all)
  moreover have "journal_wf (update_rows (\<lambda>r. ho_handoff_id r = i)
          (\<lambda>r. r\<lparr>ho_state := Committed, hr_committed_at := Some now\<rparr>) (db_handoffs db))
        (db_journal db @ [j])"
    by (rule journal_update [OF J links_pk(2) [OF L] q(1)])
      (use q j in \<open>simp_all add: milestones_one\<close>)
  ultimately show ?thesis by (simp add: db' handoff_inv_def commit_rows_def)
qed

lemma inv_recover:
  assumes I: "handoff_inv db" and b: "recover_handoff c i obs now db = (db', r)"
  shows "handoff_inv db'"
  using b inv_abort [OF I] inv_commit [OF I] I
  by (auto simp: recover_handoff_def commit_handoff_def split: option.splits if_splits prod.splits)

section \<open>The protocol as a transition system\<close>

text \<open>
  The public operations on handoffs, in any order, with any arguments, any clock values and any
  outcome, together with the creation of a lease that no handoff refers to.
\<close>

inductive handoff_step :: "json_codec \<Rightarrow> metadata_db \<Rightarrow> metadata_db \<Rightarrow> bool" for c where
  hs_begin: "begin_handoff i now lid s t g ttl db = (db', r) \<Longrightarrow> handoff_step c db db'"
| hs_apply: "record_handoff_target_apply c now i d db = (db', r1) \<Longrightarrow> handoff_step c db db'"
| hs_verified: "mark_handoff_target_verified now i db = (db', r) \<Longrightarrow> handoff_step c db db'"
| hs_ready: "mark_handoff_source_ready now i db = (db', r) \<Longrightarrow> handoff_step c db db'"
| hs_commit: "commit_handoff_inner c i obs now pf db = (db', r) \<Longrightarrow> handoff_step c db db'"
| hs_abort: "abort_handoff_at c i now why db = (db', r) \<Longrightarrow> handoff_step c db db'"
| hs_recover: "recover_handoff c i obs now db = (db', r2) \<Longrightarrow> handoff_step c db db'"
| hs_lease: "upsert_lease l db = (db', r3) \<Longrightarrow> get_lease (lr_lease_id l) db = None \<Longrightarrow>
     lr_handoff_id l = None \<Longrightarrow> lr_state l \<noteq> HandoffPending \<Longrightarrow> handoff_step c db db'"

lemma upsert_new_lease:
  assumes "upsert_lease l db = (db', r)" and "get_lease (lr_lease_id l) db = None"
  shows "db' = db \<or> db' = db\<lparr>db_leases := db_leases db @ [l]\<rparr> \<and> lr_lease_id l \<notin> lr_lease_id ` set (db_leases db)"
  using assms unfolding upsert_lease_def
  by (auto simp: run_tx_def get_lease_def upsert_row_def sel_row_None_iff split: if_splits)

lemma handoff_step_inv: "handoff_inv db \<Longrightarrow> handoff_step c db db' \<Longrightarrow> handoff_inv db'"
proof (erule handoff_step.cases, goal_cases)
  case (8 l db db' r)
  then show ?case using upsert_new_lease [OF 8(4,5)]
    by (auto simp: handoff_inv_def links_new_lease)
qed (auto simp: mark_handoff_target_verified_def mark_handoff_source_ready_def
      dest: inv_begin inv_record_apply inv_update_state inv_commit inv_abort inv_recover)

end
