(* ===== verification/Handoff_Theorems.thy ===== *)
theory Handoff_Theorems
  imports Handoff_Safety
begin

text \<open>
  The contract of the handoff operations: when each succeeds and what it then does, what a
  rejected or faulty commit leaves behind, that a handoff can always be driven to the end, and
  what recovery reports.
\<close>

section \<open>Progress of the single operations\<close>

definition project_fk :: "metadata_db \<Rightarrow> bool" where
  "project_fk db \<longleftrightarrow>
     (\<forall>l\<in>set (db_leases db). lr_project_id l \<in> pj_project_id ` set (db_projects db))
     \<and> (\<forall>r\<in>set (db_handoffs db). ho_project_id r \<in> pj_project_id ` set (db_projects db))"

lemma begin_ok:
  assumes l: "sel_row lr_lease_id lid (db_leases db) = Some l"
    and st: "lr_state l = Active" "lr_holder_device_id l = Some s"
    and rev: "\<not> device_revoked db s" "\<not> device_revoked db t"
    and none: "\<forall>r\<in>set (db_handoffs db). ho_lease_id r = lid \<longrightarrow> handoff_is_terminal (ho_state r)"
    and i: "i \<notin> ho_handoff_id ` set (db_handoffs db)" and fk: "project_fk db"
  shows "\<exists>db'. begin_handoff i now lid s t g ttl db = (db', Inr (new_handoff i now (lease_from_row l) s t g ttl))"
proof -
  have "sql_first (\<lambda>r. ho_lease_id r = lid \<and> \<not> handoff_is_terminal (ho_state r))
      (\<lambda>r. (sint (hr_created_at r), ho_handoff_id r)) (db_handoffs db) = None"
    using none by (auto simp: sql_first_None_iff)
  moreover have "lr_project_id l \<in> pj_project_id ` set (db_projects db)"
    using fk sel_row_SomeD [OF l] by (auto simp: project_fk_def)
  moreover have "sel_row ho_handoff_id i (db_handoffs db) = None" using i by (simp add: sel_row_None_iff)
  ultimately show ?thesis
    using l st rev by (simp add: begin_handoff_def run_tx_def get_lease_def insert_handoff_row_def
        insert_row_def insert_handoff_journal_def Let_def)
qed

lemma update_state_ok:
  assumes r: "sel_row ho_handoff_id i (db_handoffs db) = Some r" and st: "ho_state r = ex"
    and fk: "project_fk db"
  shows "\<exists>db'. update_handoff_state now i ex nx ph db = (db', Inr ((handoff_from_row r)\<lparr>ho_state := nx\<rparr>))"
proof -
  have rm: "r \<in> set (db_handoffs db)" "ho_handoff_id r = i" using sel_row_SomeD [OF r] by auto
  have "count_rows (\<lambda>r. ho_handoff_id r = i \<and> ho_state r = ex) (db_handoffs db) \<noteq> 0"
    using rm st by (auto simp: count_rows_0_iff)
  moreover have "i \<in> ho_handoff_id ` set (update_rows (\<lambda>r. ho_handoff_id r = i \<and> ho_state r = ex)
      (\<lambda>r. r\<lparr>ho_state := nx\<rparr>) (db_handoffs db))"
    using rm by (intro image_eqI [OF _ mem_update_rows [OF rm(1)]]) simp
  moreover have "ho_project_id r \<in> pj_project_id ` set (db_projects db)"
    using fk rm by (simp add: project_fk_def)
  ultimately show ?thesis
    using r st rm(2) by (simp add: update_handoff_state_def run_tx_def get_handoff_def
        insert_handoff_journal_def Let_def)
qed

lemma commit_ok:
  assumes r: "sel_row ho_handoff_id i (db_handoffs db) = Some r" and st: "ho_state r = SourceReady"
    and why: "commit_abort_reason (handoff_from_row r) obs now = None"
    and rev: "\<not> device_revoked db (ho_target_device_id r)"
    and pf: "\<And>p. pf = Some p \<Longrightarrow> preflight_verify p (handoff_from_row r) = Inr ()"
    and fault: "db_fault db \<noteq> Some DuringLeaseCommit"
    and held: "count_rows (\<lambda>l. lr_lease_id l = ho_lease_id r \<and> lr_epoch l = column_u64 (ho_expected_epoch r)
         \<and> lr_handoff_id l = Some i) (db_leases db) = 1"
    and fk: "project_fk db" and rb: "reads_back c (ai_detail (lease_transfer_audit (handoff_from_row r)))"
  shows "\<exists>db'. commit_handoff_inner c i obs now pf db = (db', Inr ((handoff_from_row r)\<lparr>ho_state := Committed\<rparr>))"
proof -
  have rm: "r \<in> set (db_handoffs db)" "ho_handoff_id r = i" using sel_row_SomeD [OF r] by auto
  have "i \<in> ho_handoff_id ` set (update_rows (\<lambda>r. ho_handoff_id r = i)
      (\<lambda>r. r\<lparr>ho_state := Committed, hr_committed_at := Some now\<rparr>) (db_handoffs db))"
    using rm by (intro image_eqI [OF _ mem_update_rows [OF rm(1)]]) simp
  moreover have "ho_project_id r \<in> pj_project_id ` set (db_projects db)"
    using fk rm by (simp add: project_fk_def)
  moreover have "\<not> trims_to_empty (ai_summary (lease_transfer_audit h))" for h
    by (simp add: lease_transfer_audit_def audit_new_def not_trims_to_empty is_ascii_space_def)
  moreover have "(case pf of None \<Rightarrow> Inr () | Some p \<Rightarrow> preflight_verify p (handoff_from_row r)) = Inr ()"
    using pf by (cases pf) simp_all
  moreover obtain v where "from_str c (js_print c (ai_detail (lease_transfer_audit (handoff_from_row r)))) = Inr v"
    using reads_back_from_str [OF rb] by blast
  ultimately show ?thesis
    using r st why rev fault held rm(2)
    by (simp add: commit_handoff_inner_def run_tx_def get_handoff_def inject_metadata_db_fault_def
        insert_handoff_journal_def insert_audit_event_def validate_audit_input_def Let_def sel_row_update)
qed

lemma begin_frame:
  assumes l: "sel_row lr_lease_id lid (db_leases db) = Some l"
    and b: "begin_handoff i now lid s t g ttl db = (db', Inr h)"
  shows "h = new_handoff i now (lease_from_row l) s t g ttl"
    "sel_row ho_handoff_id i (db_handoffs db') = Some (handoff_row_of h now)"
    "sel_row lr_lease_id k (db_leases db') =
       (if k = lid then Some (l\<lparr>lr_state := HandoffPending, lr_handoff_id := Some i\<rparr>)
        else sel_row lr_lease_id k (db_leases db))"
    "db_projects db' = db_projects db" "db_revocations db' = db_revocations db" "db_fault db' = db_fault db"
    "project_fk db \<Longrightarrow> project_fk db'"
proof -
  from begin_handoff_InrD [OF b] l obtain j1 j2 where
    i: "i \<notin> ho_handoff_id ` set (db_handoffs db)" and pj: "lr_project_id l \<in> pj_project_id ` set (db_projects db)"
    and h: "h = new_handoff i now (lease_from_row l) s t g ttl"
    and db': "db' = db\<lparr>db_handoffs := db_handoffs db @ [handoff_row_of h now],
        db_journal := db_journal db @ [j1, j2], db_next_journal_id := Suc (Suc (db_next_journal_id db)),
        db_leases := update_rows (\<lambda>r. lr_lease_id r = lid)
          (\<lambda>r. r\<lparr>lr_state := HandoffPending, lr_handoff_id := Some i\<rparr>) (db_leases db)\<rparr>"
    by (elim exE conjE) simp
  have lid: "lr_lease_id l = lid" using sel_row_SomeD [OF l] by simp
  show "h = new_handoff i now (lease_from_row l) s t g ttl" by (rule h)
  show "sel_row ho_handoff_id i (db_handoffs db') = Some (handoff_row_of h now)"
    using i by (simp add: db' sel_row_append h split: option.splits) (auto dest: sel_row_SomeD)
  show "sel_row lr_lease_id k (db_leases db') =
       (if k = lid then Some (l\<lparr>lr_state := HandoffPending, lr_handoff_id := Some i\<rparr>)
        else sel_row lr_lease_id k (db_leases db))"
    using l lid by (cases "sel_row lr_lease_id k (db_leases db)")
      (auto simp: db' sel_row_update dest: sel_row_SomeD)
  show "db_projects db' = db_projects db" "db_revocations db' = db_revocations db" "db_fault db' = db_fault db"
    by (simp_all add: db')
  show "project_fk db \<Longrightarrow> project_fk db'"
    using pj by (auto simp: project_fk_def db' set_update_rows h)
qed

lemma stored_handoff:
  "handoff_from_row (handoff_row_of h now) = h\<lparr>ho_expected_epoch := column_u64 (ho_expected_epoch h),
     ho_expires_at := column_u64 (ho_expires_at h)\<rparr>"
  by (simp add: handoff_from_row_def handoff_row_of_def handoff_record.defs)

lemma update_state_frame:
  assumes r: "sel_row ho_handoff_id i (db_handoffs db) = Some r"
    and b: "update_handoff_state now i ex nx ph db = (db', Inr h)"
  shows "sel_row ho_handoff_id i (db_handoffs db') = Some (r\<lparr>ho_state := nx\<rparr>)"
    "db_leases db' = db_leases db" "db_projects db' = db_projects db"
    "db_revocations db' = db_revocations db" "db_fault db' = db_fault db"
    "project_fk db \<Longrightarrow> project_fk db'"
  using update_state_InrD [OF b] r
  by (auto simp: sel_row_update project_fk_def set_update_rows)

lemma no_pending:
  assumes L: "links hs ls" and q: "sel_row lr_lease_id lid ls = Some q" and st: "lr_state q = Active"
  shows "\<forall>r\<in>set hs. ho_lease_id r = lid \<longrightarrow> handoff_is_terminal (ho_state r)"
proof (intro ballI impI, rule ccontr)
  fix r assume r: "r \<in> set hs" "ho_lease_id r = lid" "\<not> handoff_is_terminal (ho_state r)"
  have qm: "q \<in> set ls" "lr_lease_id q = lid" using sel_row_SomeD [OF q] by auto
  obtain m where m: "m \<in> set ls" "backs m r" using links_backed [OF L] r by blast
  then have "m = q" using pk_eq [OF links_pk(1) [OF L] m(1) qm(1)] r qm by (simp add: backs_def)
  then show False using links_leaseD [OF L m(1)] m(2) st by (auto simp: backs_def)
qed

section \<open>Reading leases back\<close>

text \<open>The lease that carries a pending handoff, and what an update of exactly that lease does.\<close>

lemma carrier:
  assumes I: "handoff_inv db" and r: "sel_row ho_handoff_id i (db_handoffs db) = Some r"
    and nt: "\<not> handoff_is_terminal (ho_state r)"
  shows "\<exists>l. sel_row lr_lease_id (ho_lease_id r) (db_leases db) = Some l \<and> backs l r
    \<and> lr_state l = HandoffPending \<and> lr_handoff_id l = Some i
    \<and> (\<forall>m\<in>set (db_leases db). lr_handoff_id m = Some i \<longleftrightarrow> lr_lease_id m = ho_lease_id r)"
proof -
  have L: "links (db_handoffs db) (db_leases db)" using I by (simp add: handoff_inv_def)
  have rm: "r \<in> set (db_handoffs db)" "ho_handoff_id r = i" using sel_row_SomeD [OF r] by auto
  obtain l where l: "l \<in> set (db_leases db)" "backs l r" using links_backed [OF L rm(1) nt] by blast
  then have id: "lr_lease_id l = ho_lease_id r" "lr_handoff_id l = Some i" using rm by (auto simp: backs_def)
  have "lr_handoff_id m = Some i \<longleftrightarrow> lr_lease_id m = ho_lease_id r" if "m \<in> set (db_leases db)" for m
    using carrier_iff [OF L r that] pk_eq [OF links_pk(1) [OF L] that l(1)] id by auto
  then show ?thesis
    using l id sel_row_mem [OF links_pk(1) [OF L] l(1)] links_leaseD [OF L l(1) id(2)] by auto
qed

lemma get_lease_update:
  assumes "\<And>l. lr_lease_id (f l) = lr_lease_id l"
  shows "get_lease k (db\<lparr>db_leases := update_rows P f (db_leases db)\<rparr>) =
    map_option (\<lambda>l. lease_from_row (if P l then f l else l)) (sel_row lr_lease_id k (db_leases db))"
  by (simp add: get_lease_def sel_row_update assms option.map_comp comp_def)

lemma get_lease_other_tables [simp]:
  "get_lease k (db\<lparr>db_handoffs := x\<rparr>) = get_lease k db"
  "get_lease k (db\<lparr>db_journal := y\<rparr>) = get_lease k db"
  "get_lease k (db\<lparr>db_next_journal_id := n\<rparr>) = get_lease k db"
  "get_lease k (db\<lparr>db_audit := z\<rparr>) = get_lease k db"
  "get_lease k (db\<lparr>db_next_audit_id := m\<rparr>) = get_lease k db"
  by (simp_all add: get_lease_def)

text \<open>
  An update that touches only the carrier of handoff \<open>i\<close> changes that lease and no other.
\<close>

lemma carrier_update:
  assumes I: "handoff_inv db" and r: "sel_row ho_handoff_id i (db_handoffs db) = Some r"
    and nt: "\<not> handoff_is_terminal (ho_state r)"
    and P: "\<And>l. l \<in> set (db_leases db) \<Longrightarrow> P l \<longleftrightarrow> lr_handoff_id l = Some i"
    and f: "\<And>l. lr_lease_id (f l) = lr_lease_id l"
  shows "\<exists>l. sel_row lr_lease_id (ho_lease_id r) (db_leases db) = Some l \<and> backs l r
    \<and> lr_state l = HandoffPending
    \<and> get_lease (ho_lease_id r) (db\<lparr>db_leases := update_rows P f (db_leases db)\<rparr>) = Some (lease_from_row (f l))
    \<and> (\<forall>k. k \<noteq> ho_lease_id r \<longrightarrow>
         get_lease k (db\<lparr>db_leases := update_rows P f (db_leases db)\<rparr>) = get_lease k db)"
proof -
  obtain l where l: "sel_row lr_lease_id (ho_lease_id r) (db_leases db) = Some l" "backs l r"
      "lr_state l = HandoffPending"
    and only: "\<forall>m\<in>set (db_leases db). lr_handoff_id m = Some i \<longleftrightarrow> lr_lease_id m = ho_lease_id r"
    using carrier [OF I r nt] by blast
  have "get_lease k (db\<lparr>db_leases := update_rows P f (db_leases db)\<rparr>) = get_lease k db"
    if "k \<noteq> ho_lease_id r" for k
    unfolding get_lease_update [OF f] using that only P
    by (auto simp: get_lease_def dest: sel_row_SomeD split: option.splits
        intro!: option.map_cong)
  moreover have "P l" using P only sel_row_SomeD [OF l(1)] by auto
  ultimately show ?thesis using l by (simp add: get_lease_update f)
qed

section \<open>Sample data\<close>

text \<open>
  A database with one project and one lease, before a handoff and with a source-ready one; the
  witnesses of the properties run the operations on it.
\<close>

definition ex_lease :: "lease_state \<Rightarrow> string option \<Rightarrow> lease_record" where
  "ex_lease st h = \<lparr>lr_lease_id = ''l1'', lr_project_id = ''p1'', lr_session_id = ''s1'',
        lr_state = st, lr_epoch = 4, lr_holder_device_id = Some ''a'',
        lr_latest_snapshot_id = None, lr_handoff_id = h\<rparr>"

definition ex_base :: metadata_db where
  "ex_base = empty_db\<lparr>db_projects := [\<lparr>pj_project_id = ''p1'', pj_display_name = ''Demo''\<rparr>],
     db_leases := [ex_lease Active None]\<rparr>"

definition ex_codec :: json_codec where
  "ex_codec = \<lparr>js_print = \<lambda>_. ''{}'', js_parse = \<lambda>_. Inr (JObj [])\<rparr>"

definition ex_handoff :: "handoff_state \<Rightarrow> handoff_row" where
  "ex_handoff st = handoff_row_of \<lparr>ho_handoff_id = ''h1'', ho_lease_id = ''l1'', ho_project_id = ''p1'',
      ho_expected_epoch = 4, ho_source_device_id = ''a'', ho_target_device_id = ''b'',
      ho_source_generation = ''g1'', ho_expires_at = 160, ho_state = st\<rparr> 100"

definition ex_entry :: "nat \<Rightarrow> journal_phase \<Rightarrow> handoff_journal_record" where
  "ex_entry n ph = \<lparr>hj_journal_id = n, hj_handoff_id = ''h1'', hj_lease_id = ''l1'',
     hj_project_id = ''p1'', hj_phase = ph, hj_detail_json = ''{}'', hj_created_at = 100\<rparr>"

definition ex_ready :: metadata_db where
  "ex_ready = ex_base\<lparr>db_leases := [ex_lease HandoffPending (Some ''h1'')],
     db_handoffs := [ex_handoff SourceReady],
     db_journal := [ex_entry 1 PhBegin, ex_entry 2 PhTargetPrepare, ex_entry 3 PhTargetVerified,
                    ex_entry 4 PhSourceReady], db_next_journal_id := 5\<rparr>"

lemmas ex_defs = ex_base_def ex_ready_def ex_lease_def ex_handoff_def ex_entry_def empty_db_def ex_codec_def

lemma ex_base_inv: "handoff_inv ex_base"
  by (simp add: handoff_inv_def links_def journal_wf_def ex_defs pk_wf_def)

lemma ex_ready_inv: "handoff_inv ex_ready"
  by (simp add: handoff_inv_def links_def journal_wf_def ex_defs pk_wf_def milestones_def backs_def
      column_u64_id)

lemmas ex_eval = ex_defs run_tx_def get_handoff_def get_lease_def commit_abort_reason_def
  device_revoked_def count_rows_def insert_handoff_journal_def insert_audit_event_def
  validate_audit_input_def lease_transfer_audit_def audit_new_def Let_def not_trims_to_empty
  is_ascii_space_def inject_metadata_db_fault_def update_rows_def sat_add_def from_str_def
  column_u64_id

section \<open>Properties\<close>

lemma commit_transfers_lease_aux:
  assumes I: "handoff_inv db" and run: "commit_handoff_inner c i obs now pf db = (db', Inr h)"
  shows "\<exists>h0 l a. get_handoff i db = Some h0 \<and> ho_state h0 = SourceReady
    \<and> now \<le> ho_expires_at h0 \<and> obs = ho_source_generation h0
    \<and> \<not> device_revoked db (ho_target_device_id h0)
    \<and> (\<forall>p. pf = Some p \<longrightarrow> preflight_verify p h0 = Inr ())
    \<and> get_lease (ho_lease_id h0) db = Some l \<and> lr_state l = HandoffPending
    \<and> lr_holder_device_id l = Some (ho_source_device_id h0) \<and> lr_epoch l = ho_expected_epoch h0
    \<and> get_lease (ho_lease_id h0) db' =
         Some (l\<lparr>lr_state := Active, lr_epoch := column_u64 (sat_add (lr_epoch l) 1),
                 lr_holder_device_id := Some (ho_target_device_id h0), lr_handoff_id := None\<rparr>)
    \<and> (\<forall>k. k \<noteq> ho_lease_id h0 \<longrightarrow> get_lease k db' = get_lease k db)
    \<and> h = h0\<lparr>ho_state := Committed\<rparr> \<and> get_handoff i db' = Some h
    \<and> db_audit db' = db_audit db @ [a] \<and> ae_event_type a = LeaseTransferred
    \<and> ae_handoff_id a = Some i \<and> ae_target_device_id a = Some (ho_target_device_id h0)"
proof -
  from commit_InrD [OF run] obtain r j a where
    r: "sel_row ho_handoff_id i (db_handoffs db) = Some r" "ho_handoff_id r = i" "ho_state r = SourceReady"
    and why: "commit_abort_reason (handoff_from_row r) obs now = None"
    and rev: "\<not> device_revoked db (ho_target_device_id r)"
    and pf: "\<forall>p. pf = Some p \<longrightarrow> preflight_verify p (handoff_from_row r) = Inr ()"
    and held: "count_rows (\<lambda>l. lr_lease_id l = ho_lease_id r \<and> lr_epoch l = column_u64 (ho_expected_epoch r)
         \<and> lr_handoff_id l = Some i) (db_leases db) = 1"
    and a: "ae_event_type a = LeaseTransferred" "ae_handoff_id a = Some i"
      "ae_target_device_id a = Some (ho_target_device_id r)"
    and h: "h = (handoff_from_row r)\<lparr>ho_state := Committed\<rparr>"
    and db': "db' = commit_rows i (handoff_from_row r) now db
       \<lparr>db_journal := db_journal db @ [j], db_next_journal_id := Suc (db_next_journal_id db),
        db_audit := db_audit db @ [a], db_next_audit_id := Suc (db_next_audit_id db)\<rparr>"
    by blast
  have L: "links (db_handoffs db) (db_leases db)" using I by (simp add: handoff_inv_def)
  let ?P = "\<lambda>l. lr_lease_id l = ho_lease_id r \<and> lr_epoch l = column_u64 (ho_expected_epoch r)
         \<and> lr_handoff_id l = Some i"
  let ?f = "\<lambda>l. l\<lparr>lr_state := Active, lr_epoch := sat_add (column_u64 (ho_expected_epoch r)) 1,
                 lr_holder_device_id := Some (ho_target_device_id r), lr_handoff_id := None\<rparr>"
  have nt: "\<not> handoff_is_terminal (ho_state r)" using r by simp
  obtain l where l: "sel_row lr_lease_id (ho_lease_id r) (db_leases db) = Some l" "backs l r"
      "lr_state l = HandoffPending"
    and new: "get_lease (ho_lease_id r) (db\<lparr>db_leases := update_rows ?P ?f (db_leases db)\<rparr>)
        = Some (lease_from_row (?f l))"
    and old: "\<forall>k. k \<noteq> ho_lease_id r \<longrightarrow>
         get_lease k (db\<lparr>db_leases := update_rows ?P ?f (db_leases db)\<rparr>) = get_lease k db"
    using carrier_update [OF I r(1) nt, of ?P ?f] held_iff [OF L r(1) held] by auto
  have gl: "get_lease k db' = get_lease k (db\<lparr>db_leases := update_rows ?P ?f (db_leases db)\<rparr>)" for k
    by (simp add: db' commit_rows_def get_lease_def)
  have ep: "column_u64 (lr_epoch l) = column_u64 (ho_expected_epoch r)"
    using l(2) by (simp add: backs_def) (metis column_u64_idem)
  have lr: "get_lease (ho_lease_id r) db = Some (lease_from_row l)" using l by (simp add: get_lease_def)
  have "get_lease (ho_lease_id r) db' = Some ((lease_from_row l)\<lparr>lr_state := Active,
      lr_epoch := column_u64 (sat_add (lr_epoch (lease_from_row l)) 1),
      lr_holder_device_id := Some (ho_target_device_id r), lr_handoff_id := None\<rparr>)"
    using new ep by (simp add: gl lease_from_row_def)
  moreover have "get_handoff i db' = Some h"
    using r by (simp add: db' commit_rows_def get_handoff_def sel_row_update h)
  moreover have "now \<le> column_u64 (ho_expires_at r)" "obs = ho_source_generation r"
    using why by (auto simp: commit_abort_reason_def split: if_splits)
  moreover have "\<forall>k. k \<noteq> ho_lease_id r \<longrightarrow> get_lease k db' = get_lease k db" using old gl by simp
  moreover have "db_audit db' = db_audit db @ [a]" by (simp add: db' commit_rows_def)
  moreover have "get_handoff i db = Some (handoff_from_row r)" using r by (simp add: get_handoff_def)
  ultimately show ?thesis
    using r(3) rev pf a l lr ep h
    by (intro exI [of _ "handoff_from_row r"] exI [of _ "lease_from_row l"] exI [of _ a])
      (simp add: backs_def)
qed

text \<open>
  C1. A successful commit hands the lease over, and nothing else. If \<open>commit_handoff\<close> (with or
  without the snapshot preflight) returns a record, the handoff was source-ready, not expired,
  of the observed source generation and its target not revoked; its lease was pending, held by
  the source at the expected epoch; afterwards exactly that lease is active, held by the
  target, with the epoch advanced by one and no handoff, and one audit event records it.
\<close>

theorem commit_transfers_lease:
  assumes I: "handoff_inv db" and run: "commit_handoff_inner c i obs now pf db = (db', Inr h)"
  shows "\<exists>h0 l a. get_handoff i db = Some h0 \<and> ho_state h0 = SourceReady
    \<and> now \<le> ho_expires_at h0 \<and> obs = ho_source_generation h0
    \<and> \<not> device_revoked db (ho_target_device_id h0)
    \<and> (\<forall>p. pf = Some p \<longrightarrow> preflight_verify p h0 = Inr ())
    \<and> get_lease (ho_lease_id h0) db = Some l \<and> lr_state l = HandoffPending
    \<and> lr_holder_device_id l = Some (ho_source_device_id h0) \<and> lr_epoch l = ho_expected_epoch h0
    \<and> get_lease (ho_lease_id h0) db' =
         Some (l\<lparr>lr_state := Active, lr_epoch := column_u64 (sat_add (lr_epoch l) 1),
                 lr_holder_device_id := Some (ho_target_device_id h0), lr_handoff_id := None\<rparr>)
    \<and> (\<forall>k. k \<noteq> ho_lease_id h0 \<longrightarrow> get_lease k db' = get_lease k db)
    \<and> h = h0\<lparr>ho_state := Committed\<rparr> \<and> get_handoff i db' = Some h
    \<and> db_audit db' = db_audit db @ [a] \<and> ae_event_type a = LeaseTransferred
    \<and> ae_handoff_id a = Some i \<and> ae_target_device_id a = Some (ho_target_device_id h0)"
  using commit_transfers_lease_aux [OF I run] .

theorem commit_transfers_lease_witness:
  "\<exists>db' h. commit_handoff_inner ex_codec ''h1'' ''g1'' 130 None ex_ready = (db', Inr h)
     \<and> get_lease ''l1'' db' = Some ((ex_lease Active None)\<lparr>lr_epoch := 5, lr_holder_device_id := Some ''b''\<rparr>)
     \<and> (\<forall>k. k \<noteq> ''l1'' \<longrightarrow> get_lease k db' = None)"
proof -
  obtain db' h where run: "commit_handoff_inner ex_codec ''h1'' ''g1'' 130 None ex_ready = (db', Inr h)"
    by (simp add: commit_handoff_inner_def ex_eval)
  from commit_transfers_lease [OF ex_ready_inv run] obtain h0 l where
    h0: "get_handoff ''h1'' ex_ready = Some h0"
    and l: "get_lease (ho_lease_id h0) ex_ready = Some l"
    and l': "get_lease (ho_lease_id h0) db' =
         Some (l\<lparr>lr_state := Active, lr_epoch := column_u64 (sat_add (lr_epoch l) 1),
                 lr_holder_device_id := Some (ho_target_device_id h0), lr_handoff_id := None\<rparr>)"
    and o: "\<forall>k. k \<noteq> ho_lease_id h0 \<longrightarrow> get_lease k db' = get_lease k ex_ready"
    by blast
  have "ho_lease_id h0 = ''l1''" "ho_target_device_id h0 = ''b''" using h0 by (auto simp: ex_eval)
  moreover have "l = ex_lease HandoffPending (Some ''h1'')"
    using l calculation by (simp add: ex_eval lease_from_row_def)
  ultimately show ?thesis using run l' o
    by (intro exI [of _ db'] exI [of _ h]) (simp add: ex_eval)
qed

text \<open>
  C10. A commit that finds the handoff expired or the source generation changed is rejected
  durably: it reports the reason, the handoff is aborted, its lease is active again under the
  same holder and epoch with no handoff, and no other lease, no journal entry and no audit
  event changes.
\<close>

theorem commit_rejection_frees_lease:
  assumes I: "handoff_inv db" and h: "get_handoff i db = Some h0" and st: "ho_state h0 = SourceReady"
    and why: "commit_abort_reason h0 obs now = Some why"
  shows "\<exists>db' l. commit_handoff_inner c i obs now pf db
        = (db', Inl (Config (''handoff commit rejected: '' @ why)))
    \<and> get_handoff i db' = Some (h0\<lparr>ho_state := Aborted\<rparr>)
    \<and> get_lease (ho_lease_id h0) db = Some l
    \<and> get_lease (ho_lease_id h0) db' = Some (l\<lparr>lr_state := Active, lr_handoff_id := None\<rparr>)
    \<and> (\<forall>k. k \<noteq> ho_lease_id h0 \<longrightarrow> get_lease k db' = get_lease k db)
    \<and> db_journal db' = db_journal db \<and> db_audit db' = db_audit db"
proof -
  obtain r where r: "sel_row ho_handoff_id i (db_handoffs db) = Some r" "h0 = handoff_from_row r"
    using h by (auto elim: get_handoff_SomeE)
  have L: "links (db_handoffs db) (db_leases db)" using I by (simp add: handoff_inv_def)
  let ?P = "\<lambda>l. lr_lease_id l = ho_lease_id r \<and> lr_handoff_id l = Some i"
  let ?f = "\<lambda>l. l\<lparr>lr_state := Active, lr_handoff_id := None\<rparr>"
  have nt: "\<not> handoff_is_terminal (ho_state r)" using st r by simp
  obtain l where l: "sel_row lr_lease_id (ho_lease_id r) (db_leases db) = Some l"
    and new: "get_lease (ho_lease_id r) (db\<lparr>db_leases := update_rows ?P ?f (db_leases db)\<rparr>)
        = Some (lease_from_row (?f l))"
    and old: "\<forall>k. k \<noteq> ho_lease_id r \<longrightarrow>
         get_lease k (db\<lparr>db_leases := update_rows ?P ?f (db_leases db)\<rparr>) = get_lease k db"
    using carrier_update [OF I r(1) nt, of ?P ?f] carrier_iff [OF L r(1)] by auto
  let ?db = "abort_rows i (ho_lease_id r) now db"
  have gl: "get_lease k ?db = get_lease k (db\<lparr>db_leases := update_rows ?P ?f (db_leases db)\<rparr>)" for k
    by (simp add: abort_rows_def get_lease_def)
  have run: "commit_handoff_inner c i obs now pf db = (?db, Inl (Config (''handoff commit rejected: '' @ why)))"
    using h st why r by (simp add: commit_handoff_inner_def run_tx_def)
  moreover have "get_handoff i ?db = Some (h0\<lparr>ho_state := Aborted\<rparr>)"
    using r sel_row_SomeD [OF r(1)] by (simp add: abort_rows_def get_handoff_def sel_row_update)
  moreover have "get_lease (ho_lease_id h0) ?db = Some ((lease_from_row l)\<lparr>lr_state := Active, lr_handoff_id := None\<rparr>)"
    using new r by (simp add: gl lease_from_row_def)
  moreover have "get_lease (ho_lease_id h0) db = Some (lease_from_row l)"
    using l r by (simp add: get_lease_def)
  moreover have "\<forall>k. k \<noteq> ho_lease_id h0 \<longrightarrow> get_lease k ?db = get_lease k db" using old gl r by simp
  moreover have "db_journal ?db = db_journal db" "db_audit ?db = db_audit db"
    by (simp_all add: abort_rows_def)
  ultimately show ?thesis by blast
qed

theorem commit_rejection_frees_lease_witness:
  "\<exists>db'. commit_handoff_inner ex_codec ''h1'' ''g1'' 161 None ex_ready
      = (db', Inl (Config (''handoff commit rejected: handoff expired'')))
     \<and> get_lease ''l1'' db' = Some (ex_lease Active None)"
proof -
  have h: "get_handoff ''h1'' ex_ready = Some (handoff_from_row (ex_handoff SourceReady))"
    by (simp add: ex_eval)
  have st: "ho_state (handoff_from_row (ex_handoff SourceReady)) = SourceReady"
    by (simp add: ex_eval)
  have why: "commit_abort_reason (handoff_from_row (ex_handoff SourceReady)) ''g1'' 161 = Some ''handoff expired''"
    by (simp add: ex_eval)
  have id: "ho_lease_id (handoff_from_row (ex_handoff SourceReady)) = ''l1''" by (simp add: ex_eval)
  from commit_rejection_frees_lease [OF ex_ready_inv h st why, of ex_codec None] obtain db' l where
    "commit_handoff_inner ex_codec ''h1'' ''g1'' 161 None ex_ready
      = (db', Inl (Config (''handoff commit rejected: '' @ ''handoff expired'')))"
    "get_lease ''l1'' ex_ready = Some l"
    "get_lease ''l1'' db' = Some (l\<lparr>lr_state := Active, lr_handoff_id := None\<rparr>)"
    unfolding id by blast
  then show ?thesis by (simp add: ex_eval lease_from_row_def) auto
qed

text \<open>
  A fault while the lease is being committed rolls everything back: the handoff, the lease,
  the journal and the audit log are exactly as before, and the caller gets an error.
\<close>

theorem commit_fault_rolls_back:
  assumes f: "db_fault db = Some DuringLeaseCommit" and h: "get_handoff i db = Some h0"
    and why: "commit_abort_reason h0 obs now = None"
  shows "\<exists>e. commit_handoff_inner c i obs now pf db = (db, Inl e)"
proof -
  obtain db' x where run: "commit_handoff_inner c i obs now pf db = (db', x)"
    by (cases "commit_handoff_inner c i obs now pf db")
  show ?thesis
  proof (cases x)
    case (Inl e)
    from commit_InlD [OF run [unfolded Inl]] have "db' = db"
      using h why by (auto simp: get_handoff_def)
    with Inl run show ?thesis by simp
  next
    case (Inr y)
    from commit_InrD [OF run [unfolded Inr]] f show ?thesis by blast
  qed
qed

theorem commit_fault_rolls_back_witness:
  "\<exists>e. commit_handoff_inner ex_codec ''h1'' ''g1'' 130 None (ex_ready\<lparr>db_fault := Some DuringLeaseCommit\<rparr>)
     = (ex_ready\<lparr>db_fault := Some DuringLeaseCommit\<rparr>, Inl e)"
  by (rule commit_fault_rolls_back [where ?h0.0 = "handoff_from_row (ex_handoff SourceReady)"])
    (simp_all add: ex_eval)

text \<open>
  C11. When a handoff can begin: exactly if the lease is active and held by the source, neither
  device is revoked and the generated id is new. Then the lease is pending on the new handoff,
  other leases are as before, and the stored handoff is the returned one, with its expiry as
  an SQLite column reads it.
\<close>

theorem begin_handoff_iff:
  assumes I: "handoff_inv db" and fk: "project_fk db" and l: "get_lease lid db = Some l"
  shows "(\<exists>db' h. begin_handoff i now lid s t g ttl db = (db', Inr h)
      \<and> get_handoff i db' = Some (h\<lparr>ho_expires_at := column_u64 (sat_add now (max ttl 1))\<rparr>)
      \<and> ho_state h = TargetPrepare \<and> ho_expected_epoch h = lr_epoch l \<and> ho_lease_id h = lid
      \<and> get_lease lid db' = Some (l\<lparr>lr_state := HandoffPending, lr_handoff_id := Some i\<rparr>)
      \<and> (\<forall>k. k \<noteq> lid \<longrightarrow> get_lease k db' = get_lease k db))
    \<longleftrightarrow> lr_state l = Active \<and> lr_holder_device_id l = Some s
      \<and> \<not> device_revoked db s \<and> \<not> device_revoked db t
      \<and> i \<notin> ho_handoff_id ` set (db_handoffs db)"
    (is "?ok \<longleftrightarrow> ?cond")
proof
  obtain q where q: "sel_row lr_lease_id lid (db_leases db) = Some q" "l = lease_from_row q"
    "q \<in> set (db_leases db)" "lr_lease_id q = lid"
    using l by (rule get_lease_SomeE)
  show ?cond if ?ok
    using that q by (auto dest!: begin_handoff_InrD)
  show ?ok if c: ?cond
  proof -
    have L: "links (db_handoffs db) (db_leases db)" using I by (simp add: handoff_inv_def)
    have none: "\<forall>r\<in>set (db_handoffs db). ho_lease_id r = lid \<longrightarrow> handoff_is_terminal (ho_state r)"
      using no_pending [OF L q(1)] c q by simp
    obtain db' where run: "begin_handoff i now lid s t g ttl db = (db', Inr (new_handoff i now (lease_from_row q) s t g ttl))"
      using begin_ok [OF q(1) _ _ _ _ none _ fk, where s = s and t = t and i = i and now = now and g = g and ttl = ttl]
        c q by (auto simp del: new_handoff_sel)
    note frame = begin_frame [OF q(1) run]
    show ?thesis
      unfolding get_handoff_def get_lease_def
      by (rule exI [of _ db'], rule exI [of _ "new_handoff i now (lease_from_row q) s t g ttl"])
        (use run q in \<open>simp add: frame(2,3) stored_handoff new_handoff_def lease_from_row_def\<close>)
  qed
qed

theorem begin_handoff_iff_witness:
  "\<exists>db' h. begin_handoff ''h1'' 100 ''l1'' ''a'' ''b'' ''g1'' 60 ex_base = (db', Inr h)
     \<and> get_lease ''l1'' db' = Some (ex_lease HandoffPending (Some ''h1''))"
proof -
  have l: "get_lease ''l1'' ex_base = Some (ex_lease Active None)"
    by (simp add: ex_eval lease_from_row_def)
  have fk: "project_fk ex_base" by (simp add: project_fk_def ex_eval)
  show ?thesis
    using begin_handoff_iff [OF ex_base_inv fk l, of "''h1''" 100 "''a''" "''b''" "''g1''" 60]
    by (auto simp: ex_eval)
qed

text \<open>
  C12. A handoff can always be driven to the end. From an active lease whose stored epoch is
  below the column bound, begin, verify, source-ready and commit all succeed in this order when
  neither device is revoked, the clock has not passed the expiry and no fault is injected; the
  target then holds the lease at the next epoch.
\<close>

theorem handoff_completes:
  assumes I: "handoff_inv db" and fk: "project_fk db"
    and l: "sel_row lr_lease_id lid (db_leases db) = Some l" "lr_state l = Active"
      "lr_holder_device_id l = Some s"
    and ep: "unat (lr_epoch l) + 1 < 2 ^ 63"
    and rev: "\<not> device_revoked db s" "\<not> device_revoked db t"
    and i: "i \<notin> ho_handoff_id ` set (db_handoffs db)"
    and exp: "unat (sat_add now (max ttl 1)) < 2 ^ 63" "t3 \<le> sat_add now (max ttl 1)"
    and fault: "db_fault db \<noteq> Some DuringLeaseCommit"
    and rb: "\<And>h. reads_back c (ai_detail (lease_transfer_audit h))"
  shows "\<exists>db1 h1 db2 h2 db3 h3 db4 h4.
      begin_handoff i now lid s t g ttl db = (db1, Inr h1)
    \<and> mark_handoff_target_verified t1 i db1 = (db2, Inr h2)
    \<and> mark_handoff_source_ready t2 i db2 = (db3, Inr h3)
    \<and> commit_handoff c i g t3 db3 = (db4, Inr h4)
    \<and> get_lease lid db4 = Some (l\<lparr>lr_epoch := lr_epoch l + 1, lr_holder_device_id := Some t,
          lr_handoff_id := None\<rparr>)"
proof -
  have L: "links (db_handoffs db) (db_leases db)" using I by (simp add: handoff_inv_def)
  have lc: "column_u64 (lr_epoch l) = lr_epoch l" using ep by (simp add: column_u64_id)
  have gl: "get_lease lid db = Some l" using l lc by (simp add: get_lease_def lease_from_row_def)
  obtain db1 h1 where b1: "begin_handoff i now lid s t g ttl db = (db1, Inr h1)"
    using begin_ok [OF l rev no_pending [OF L l(1,2)] i fk] by blast
  note f1 = begin_frame [OF l(1) b1]
  obtain db2 h2 where b2: "mark_handoff_target_verified t1 i db1 = (db2, Inr h2)"
    using update_state_ok [OF f1(2) _ f1(7) [OF fk], where ex = TargetPrepare] f1(1)
    unfolding mark_handoff_target_verified_def by fastforce
  note f2 = update_state_frame [OF f1(2) b2 [unfolded mark_handoff_target_verified_def]]
  obtain db3 h3 where b3: "mark_handoff_source_ready t2 i db2 = (db3, Inr h3)"
    using update_state_ok [OF f2(1) _ f2(6) [OF f1(7) [OF fk]], where ex = TargetVerified]
    unfolding mark_handoff_source_ready_def by fastforce
  note f3 = update_state_frame [OF f2(1) b3 [unfolded mark_handoff_source_ready_def]]
  let ?r = "(handoff_row_of h1 now)\<lparr>ho_state := TargetVerified, ho_state := SourceReady\<rparr>"
  have r3: "sel_row ho_handoff_id i (db_handoffs db3) = Some ?r" using f3(1) by simp
  have l3: "sel_row lr_lease_id lid (db_leases db3) = Some (l\<lparr>lr_state := HandoffPending, lr_handoff_id := Some i\<rparr>)"
    using f3(2) f2(2) f1(3) by simp
  have I3: "handoff_inv db3"
    using inv_update_state [OF inv_update_state [OF inv_begin [OF I b1]
        b2 [unfolded mark_handoff_target_verified_def]] b3 [unfolded mark_handoff_source_ready_def]]
    by simp
  have lid: "lr_lease_id l = lid" using sel_row_SomeD [OF l(1)] by simp
  have "count_rows (\<lambda>m. lr_lease_id m = ho_lease_id ?r \<and> lr_epoch m = column_u64 (ho_expected_epoch ?r)
         \<and> lr_handoff_id m = Some i) (db_leases db3) = 1"
    using l3 lc lid I3 f1(1)
    by (subst count_rows_pk [where pk = lr_lease_id and k = lid]) (auto simp: handoff_inv_def links_def)
  moreover have "commit_abort_reason (handoff_from_row ?r) g t3 = None"
    using exp f1(1) by (simp add: commit_abort_reason_def column_u64_id not_less)
  moreover have "\<not> device_revoked db3 (ho_target_device_id ?r)"
    using rev f1 f2 f3 by (simp add: device_revoked_def)
  moreover have "db_fault db3 \<noteq> Some DuringLeaseCommit" using fault f1(6) f2(5) f3(5) by simp
  ultimately obtain db4 h4 where b4: "commit_handoff_inner c i g t3 None db3 = (db4, Inr h4)"
    using commit_ok [OF r3, where c = c and obs = g and now = t3 and pf = None] f3(6) [OF f2(6) [OF f1(7) [OF fk]]] rb
    by auto
  have "column_u64 (sat_add (lr_epoch l) 1) = lr_epoch l + 1"
  proof -
    have s: "sat_add (lr_epoch l) 1 = lr_epoch l + 1" using ep by (simp add: sat_add_def)
    have "unat (lr_epoch l + 1) < 2 ^ 63" using ep by (simp add: unat_word_ariths)
    with s show ?thesis by (simp add: column_u64_id)
  qed
  with commit_transfers_lease_aux [OF I3 b4] l3 r3 f1(1) lc lid l(2)
  have "get_lease lid db4 = Some (l\<lparr>lr_epoch := lr_epoch l + 1, lr_holder_device_id := Some t,
          lr_handoff_id := None\<rparr>)"
    by (auto simp: get_handoff_def get_lease_def lease_from_row_def)
  with b1 b2 b3 b4 show ?thesis by (auto simp: commit_handoff_def)
qed

theorem handoff_completes_witness:
  "\<exists>db1 h1 db2 h2 db3 h3 db4 h4.
      begin_handoff ''h1'' 100 ''l1'' ''a'' ''b'' ''g1'' 60 ex_base = (db1, Inr h1)
    \<and> mark_handoff_target_verified 110 ''h1'' db1 = (db2, Inr h2)
    \<and> mark_handoff_source_ready 120 ''h1'' db2 = (db3, Inr h3)
    \<and> commit_handoff ex_codec ''h1'' ''g1'' 160 db3 = (db4, Inr h4)
    \<and> get_lease ''l1'' db4 = Some (ex_lease Active None \<lparr>lr_epoch := 5, lr_holder_device_id := Some ''b''\<rparr>)"
proof -
  have fk: "project_fk ex_base" by (simp add: project_fk_def ex_eval)
  have l: "sel_row lr_lease_id ''l1'' (db_leases ex_base) = Some (ex_lease Active None)"
    "lr_state (ex_lease Active None) = Active" "lr_holder_device_id (ex_lease Active None) = Some ''a''"
    "unat (lr_epoch (ex_lease Active None)) + 1 < 2 ^ 63"
    "(ex_lease Active None) \<lparr>lr_epoch := lr_epoch (ex_lease Active None) + 1,
        lr_holder_device_id := Some ''b'', lr_handoff_id := None\<rparr>
      = (ex_lease Active None) \<lparr>lr_epoch := 5, lr_holder_device_id := Some ''b''\<rparr>"
    by (simp_all add: ex_eval)
  have e: "unat (sat_add (100 :: u64) (max 60 1)) < 2 ^ 63" "(160 :: u64) \<le> sat_add 100 (max 60 1)"
    by (simp_all add: sat_add_def max_def word_le_nat_alt)
  have rb: "reads_back ex_codec v" for v by (simp add: reads_back_def ex_codec_def)
  show ?thesis unfolding l(5) [symmetric]
    by (rule handoff_completes [OF ex_base_inv fk l(1-4) _ _ _ e _ rb])
      (simp_all add: ex_eval)
qed

text \<open>
  What recovery promises. When it reports an outcome, the handoff is settled or still waiting
  for its target: after a committed or an aborted outcome every later recovery reports that
  state again and changes nothing; waiting means that nothing changed and the handoff is
  neither expired nor source-ready.
\<close>

theorem recovery_settles:
  assumes run: "recover_handoff c i obs now db = (db', Inr outcome)"
  shows "(outcome = WaitingForTarget \<and> db' = db
        \<and> (\<exists>h. get_handoff i db = Some h \<and> now \<le> ho_expires_at h
            \<and> (ho_state h = TargetPrepare \<or> ho_state h = TargetVerified)))
    \<or> (outcome \<in> {RecoveredCommitted, AlreadyCommitted}
        \<and> (\<forall>obs' now'. recover_handoff c i obs' now' db' = (db', Inr AlreadyCommitted)))
    \<or> (outcome \<in> {AbortedExpired, AlreadyAborted}
        \<and> (\<forall>obs' now'. recover_handoff c i obs' now' db' = (db', Inr AlreadyAborted)))"
proof -
  obtain h where h: "get_handoff i db = Some h"
    using run by (auto simp: recover_handoff_def split: option.splits)
  consider (com) "ho_state h = Committed" | (ab) "ho_state h = Aborted"
    | (exp) "\<not> handoff_is_terminal (ho_state h)" "ho_expires_at h < now"
    | (rdy) "ho_state h = SourceReady" "\<not> ho_expires_at h < now"
    | (wait) "ho_state h = TargetPrepare \<or> ho_state h = TargetVerified" "\<not> ho_expires_at h < now"
    by (cases "ho_state h") auto
  then show ?thesis
  proof cases
    case exp
    then obtain x where ab: "abort_handoff_at c i now ''expired during recovery'' db = (db', Inr x)"
      and out: "outcome = AbortedExpired"
      using run h by (cases "ho_state h") (auto simp: recover_handoff_def bind_r_Inr_iff split: prod.splits)
    obtain r where "sel_row ho_handoff_id i (db_handoffs db') = Some r" "ho_state r = Aborted"
      using abort_InrD [OF ab] by (auto simp: abort_rows_def sel_row_update)
    then show ?thesis using out by (simp add: recover_handoff_def get_handoff_def)
  next
    case rdy
    then obtain x where ab: "commit_handoff_inner c i obs now None db = (db', Inr x)"
      and out: "outcome = RecoveredCommitted"
      using run h by (auto simp: recover_handoff_def commit_handoff_def bind_r_Inr_iff split: prod.splits)
    obtain r where "sel_row ho_handoff_id i (db_handoffs db') = Some r" "ho_state r = Committed"
      using commit_InrD [OF ab] by (auto simp: commit_rows_def sel_row_update)
    then show ?thesis using out by (simp add: recover_handoff_def get_handoff_def)
  next
    case com then show ?thesis using run h by (auto simp: recover_handoff_def)
  next
    case ab then show ?thesis using run h by (auto simp: recover_handoff_def)
  next
    case wait then show ?thesis using run h by (auto simp: recover_handoff_def)
  qed
qed

theorem recovery_settles_witness:
  "\<exists>db'. recover_handoff ex_codec ''h1'' ''g1'' 130 ex_ready = (db', Inr RecoveredCommitted)
     \<and> recover_handoff ex_codec ''h1'' ''g2'' 999 db' = (db', Inr AlreadyCommitted)"
proof -
  obtain db' where run: "recover_handoff ex_codec ''h1'' ''g1'' 130 ex_ready = (db', Inr RecoveredCommitted)"
    by (simp add: recover_handoff_def commit_handoff_def commit_handoff_inner_def ex_eval)
  from recovery_settles [OF run] run show ?thesis by auto
qed

text \<open>
  Aborting is safe to repeat and frees the lease: an abort that succeeds leaves the handoff
  aborted, its lease without that handoff, every holder and epoch as before, and a second abort
  succeeds without changing anything. A committed handoff cannot be aborted.
\<close>

theorem abort_is_idempotent:
  assumes I: "handoff_inv db" and run: "abort_handoff_at c i now why db = (db', Inr h)"
  shows "(\<exists>h0. get_handoff i db = Some h0 \<and> ho_state h0 \<noteq> Committed)
    \<and> ho_state h = Aborted \<and> get_handoff i db' = Some h
    \<and> abort_handoff_at c i now' why' db' = (db', Inr h)
    \<and> (\<forall>k l'. get_lease k db' = Some l' \<longrightarrow> lr_handoff_id l' \<noteq> Some i
        \<and> (\<exists>l. get_lease k db = Some l \<and> lr_holder_device_id l' = lr_holder_device_id l
              \<and> lr_epoch l' = lr_epoch l
              \<and> (lr_handoff_id l = Some i \<longrightarrow> lr_state l' = Active)
              \<and> (lr_handoff_id l \<noteq> Some i \<longrightarrow> l' = l)))"
proof -
  have L: "links (db_handoffs db) (db_leases db)" using I by (simp add: handoff_inv_def)
  from abort_InrD [OF run] obtain r where
    r: "sel_row ho_handoff_id i (db_handoffs db) = Some r" "h = (handoff_from_row r)\<lparr>ho_state := Aborted\<rparr>"
    and cases: "ho_state r = Aborted \<and> db' = db
       \<or> \<not> handoff_is_terminal (ho_state r) \<and> (\<exists>j. db' = (abort_rows i (ho_lease_id r) now db)
          \<lparr>db_journal := db_journal db @ [j], db_next_journal_id := Suc (db_next_journal_id db)\<rparr>)"
    by blast
  have rm: "r \<in> set (db_handoffs db)" "ho_handoff_id r = i" using sel_row_SomeD [OF r(1)] by auto
  have gh: "get_handoff i db' = Some h"
  proof (cases "ho_state r = Aborted")
    case True
    then have "db' = db" using cases by auto
    moreover have "(handoff_from_row r)\<lparr>ho_state := Aborted\<rparr> = handoff_from_row r"
      using True by (simp add: handoff_from_row_def handoff_record.defs)
    ultimately show ?thesis using r by (simp add: get_handoff_def)
  next
    case False
    then show ?thesis using cases r rm by (auto simp: get_handoff_def abort_rows_def sel_row_update)
  qed
  moreover have "abort_handoff_at c i now' why' db' = (db', Inr h)"
    using gh r by (simp add: abort_handoff_at_def run_tx_def)
  moreover have "lr_handoff_id l' \<noteq> Some i \<and> (\<exists>l. get_lease k db = Some l
      \<and> lr_holder_device_id l' = lr_holder_device_id l \<and> lr_epoch l' = lr_epoch l
      \<and> (lr_handoff_id l = Some i \<longrightarrow> lr_state l' = Active) \<and> (lr_handoff_id l \<noteq> Some i \<longrightarrow> l' = l))"
    if k: "get_lease k db' = Some l'" for k l'
  proof (cases "ho_state r = Aborted")
    case True
    then have same: "db' = db" using cases by auto
    obtain l where "l \<in> set (db_leases db)" "l' = lease_from_row l"
      using k same by (auto elim: get_lease_SomeE)
    then have "lr_handoff_id l' \<noteq> Some i"
      using links_row(1) [OF L rm(1)] True rm(2) by auto
    with k same show ?thesis by auto
  next
    case False
    then obtain l where l: "sel_row lr_lease_id k (db_leases db) = Some l" "l' = lease_from_row
        (if lr_lease_id l = ho_lease_id r \<and> lr_handoff_id l = Some i
         then l\<lparr>lr_state := Active, lr_handoff_id := None\<rparr> else l)"
      using k cases by (auto simp: abort_rows_def get_lease_def sel_row_update)
    have "lr_lease_id l = ho_lease_id r \<and> lr_handoff_id l = Some i \<longleftrightarrow> lr_handoff_id l = Some i"
      by (rule carrier_iff [OF L r(1)]) (use sel_row_SomeD [OF l(1)] in simp)
    with l show ?thesis by (auto simp: get_lease_def)
  qed
  moreover have "\<exists>h0. get_handoff i db = Some h0 \<and> ho_state h0 \<noteq> Committed"
    using r(1) cases by (auto simp: get_handoff_def)
  ultimately show ?thesis using r by simp
qed

theorem abort_is_idempotent_witness:
  "\<exists>db' h. abort_handoff_at ex_codec ''h1'' 130 ''stop'' ex_ready = (db', Inr h)
     \<and> abort_handoff_at ex_codec ''h1'' 140 ''again'' db' = (db', Inr h)"
proof -
  obtain db' h where run: "abort_handoff_at ex_codec ''h1'' 130 ''stop'' ex_ready = (db', Inr h)"
    by (simp add: abort_handoff_at_def abort_rows_def normalize_journal_detail_def ex_eval)
  from abort_is_idempotent [OF ex_ready_inv run] run show ?thesis by blast
qed

end
