(* ===== verification/Publish_Safety.thy ===== *)
theory Publish_Safety
  imports Publish_Db Handoff_Theorems
begin

text \<open>
  What publication guarantees: a canonical publish is a compare-and-swap on the lease, a stale
  one only stores the snapshot, forks never touch the canonical latest, and the snapshot table
  stays an append-only history in which every parent precedes its children.
\<close>

section \<open>Effects\<close>

lemma insert_snapshot_row_InrD:
  "insert_snapshot_row r db = Inr db' \<Longrightarrow>
     db' = db\<lparr>db_snapshots := db_snapshots db @ [r]\<rparr> \<and> sn_snapshot_id r \<notin> sn_snapshot_id ` set (db_snapshots db)
     \<and> (\<forall>p. sn_parent_snapshot_id r = Some p \<longrightarrow>
          p = sn_snapshot_id r \<or> p \<in> sn_snapshot_id ` set (db_snapshots db))"
  by (auto simp: insert_snapshot_row_def dest!: insert_row_SomeD split: option.splits if_splits)

lemma insert_session_row_InrD:
  "insert_session_row r db = Inr db' \<Longrightarrow>
     db' = db\<lparr>db_sessions := db_sessions db @ [r]\<rparr> \<and> ss_session_id r \<notin> ss_session_id ` set (db_sessions db)"
  by (auto simp: insert_session_row_def dest!: insert_row_SomeD split: option.splits if_splits)

lemma stored_snapshot_of_sel [simp]:
  "sn_snapshot_id (stored_snapshot_of m s n pin lab) = sm_snapshot_id m"
  "sn_project_id (stored_snapshot_of m s n pin lab) = sm_project_id m"
  "sn_session_id (stored_snapshot_of m s n pin lab) = s"
  "sn_parent_snapshot_id (stored_snapshot_of m s n pin lab) = sm_parent_snapshot_id m"
  "sn_sequence_number (stored_snapshot_of m s n pin lab) = n"
  "sn_pinned (stored_snapshot_of m s n pin lab) = pin"
  "sn_label (stored_snapshot_of m s n pin lab) = lab"
  "sn_metadata (stored_snapshot_of m s n pin lab) = m"
  by (simp_all add: stored_snapshot_of_def)

lemma publish_audit_sel [simp]:
  "ai_event_type (publish_audit q l stale) = SnapshotPublished"
  "ai_outcome (publish_audit q l stale) = (if stale then AuditBlocked else AuditSucceeded)"
  "ai_snapshot_id (publish_audit q l stale) = Some (sm_snapshot_id (cq_metadata q))"
  "ai_lease_id (publish_audit q l stale) = Some (cq_lease_id q)"
  by (simp_all add: publish_audit_def audit_new_def)

lemma publish_cases:
  assumes run: "publish_snapshot_canonical c q db = (db', r)"
  shows "(db' = db \<and> (\<exists>e. r = Inl e))
    \<or> (\<exists>l snapshot a. get_lease (cq_lease_id q) db = Some l \<and> lr_state l = Active
        \<and> lr_holder_device_id l = Some (cq_holder_device_id q)
        \<and> \<not> device_revoked db (cq_holder_device_id q) \<and> validate_metadata (cq_metadata q) = Inr ()
        \<and> lr_project_id l = sm_project_id (cq_metadata q)
        \<and> snapshot = stored_snapshot_of (cq_metadata q) (Some (cq_session_id q))
            (next_sequence (sm_project_id (cq_metadata q)) db) (cq_pinned q) (cq_label q)
        \<and> sn_snapshot_id snapshot \<notin> sn_snapshot_id ` set (db_snapshots db)
        \<and> (\<forall>p. sn_parent_snapshot_id snapshot = Some p \<longrightarrow>
            p = sn_snapshot_id snapshot \<or> p \<in> sn_snapshot_id ` set (db_snapshots db))
        \<and> ae_outcome a = (if stale_reason q l = None then AuditSucceeded else AuditBlocked)
        \<and> ae_event_type a = SnapshotPublished \<and> ae_snapshot_id a = Some (sn_snapshot_id snapshot)
        \<and> r = (case stale_reason q l of Some e \<Rightarrow> Inl e
              | None \<Rightarrow> Inr \<lparr>cr_snapshot = snapshot, cr_latest_snapshot_id = sn_snapshot_id snapshot\<rparr>)
        \<and> db' = db\<lparr>db_snapshots := db_snapshots db @ [snapshot],
            db_leases := (if stale_reason q l = None
               then update_rows (\<lambda>r. lr_lease_id r = cq_lease_id q)
                 (\<lambda>r. r\<lparr>lr_latest_snapshot_id := Some (sn_snapshot_id snapshot)\<rparr>) (db_leases db)
               else db_leases db),
            db_audit := db_audit db @ [a], db_next_audit_id := Suc (db_next_audit_id db)\<rparr>)"
  using run unfolding publish_snapshot_canonical_def
proof (cases rule: run_tx_cases)
  case rollback then show ?thesis by simp
next
  case commit
  let ?S = "stored_snapshot_of (cq_metadata q) (Some (cq_session_id q))
      (next_sequence (sm_project_id (cq_metadata q)) db) (cq_pinned q) (cq_label q)"
  let ?adv = "\<lambda>d. d\<lparr>db_leases := update_rows (\<lambda>r. lr_lease_id r = cq_lease_id q)
      (\<lambda>r. r\<lparr>lr_latest_snapshot_id := Some (sm_snapshot_id (cq_metadata q))\<rparr>) (db_leases d)\<rparr>"
  obtain l db1 a where l: "get_lease (cq_lease_id q) db = Some l" "lr_state l = Active"
      "lr_holder_device_id l = Some (cq_holder_device_id q)"
      "\<not> device_revoked db (cq_holder_device_id q)" "validate_metadata (cq_metadata q) = Inr ()"
      "lr_project_id l = sm_project_id (cq_metadata q)"
    and s: "insert_snapshot_row ?S db = Inr db1"
    and a: "insert_audit_event c (publish_audit q l (stale_reason q l \<noteq> None)) (sm_created_at (cq_metadata q))
        (if stale_reason q l \<noteq> None then db1 else ?adv db1) = Inr (db', a)"
    and r: "r = (case stale_reason q l of Some e \<Rightarrow> Inl e
        | None \<Rightarrow> Inr \<lparr>cr_snapshot = ?S, cr_latest_snapshot_id = sm_snapshot_id (cq_metadata q)\<rparr>)"
    using commit by (clarsimp simp: tx_simps Let_def simp del: not_None_eq)
  note s' = insert_snapshot_row_InrD [OF s] and a' = insert_audit_InrD [OF a]
  show ?thesis
  proof (intro disjI2 exI [of _ l] exI [of _ ?S] exI [of _ "ar_row a"])
  qed (use l s' a' r in \<open>cases "stale_reason q l"; simp\<close>)
qed

lemma fork_InlD: "publish_inactive_snapshot_as_fork c f now q db = (db', Inl e) \<Longrightarrow> db' = db"
  unfolding publish_inactive_snapshot_as_fork_def
  by (erule run_tx_cases) (simp_all add: tx_simps Let_def)

lemma fork_metadata_sel [simp]:
  "sm_snapshot_id (fork_metadata f l m) = sm_snapshot_id m"
  "sm_project_id (fork_metadata f l m) = sm_project_id m"
  "sm_session_id (fork_metadata f l m) = Some f"
  "sm_parent_snapshot_id (fork_metadata f l m) =
     (case sm_parent_snapshot_id m of None \<Rightarrow> lr_latest_snapshot_id l | Some p \<Rightarrow> Some p)"
  by (simp_all add: fork_metadata_def)

lemma next_sequence_sessions [simp]:
  "next_sequence p (db\<lparr>db_sessions := x\<rparr>) = next_sequence p db"
  by (simp add: next_sequence_def)

lemma fork_InrD:
  assumes run: "publish_inactive_snapshot_as_fork c f now q db = (db', Inr res)"
  shows "\<exists>l session snapshot a. get_lease (fq_lease_id q) db = Some l \<and> lr_state l = Inactive
    \<and> lr_holder_device_id l = Some (fq_holder_device_id q)
    \<and> \<not> device_revoked db (fq_holder_device_id q)
    \<and> ss_session_id session = f \<and> ss_state session = SessFork
    \<and> ss_parent_session_id session = Some (fq_session_id q)
    \<and> f \<notin> ss_session_id ` set (db_sessions db)
    \<and> sn_session_id snapshot = Some f \<and> sn_pinned snapshot
    \<and> sn_snapshot_id snapshot = sm_snapshot_id (fq_metadata q)
    \<and> sn_project_id snapshot = sm_project_id (fq_metadata q)
    \<and> sn_sequence_number snapshot = next_sequence (sm_project_id (fq_metadata q)) db
    \<and> sn_parent_snapshot_id snapshot = (case sm_parent_snapshot_id (fq_metadata q) of
         None \<Rightarrow> lr_latest_snapshot_id l | Some p \<Rightarrow> Some p)
    \<and> sn_snapshot_id snapshot \<notin> sn_snapshot_id ` set (db_snapshots db)
    \<and> (\<forall>p. sn_parent_snapshot_id snapshot = Some p \<longrightarrow>
        p = sn_snapshot_id snapshot \<or> p \<in> sn_snapshot_id ` set (db_snapshots db))
    \<and> res = \<lparr>fr_fork_session = session, fr_snapshot = snapshot,
             fr_canonical_latest = lr_latest_snapshot_id l\<rparr>
    \<and> db' = db\<lparr>db_sessions := db_sessions db @ [session], db_snapshots := db_snapshots db @ [snapshot],
        db_leases := update_rows (\<lambda>r. lr_lease_id r = fq_lease_id q \<and> lr_state r = Inactive)
          (\<lambda>r. r\<lparr>lr_state := Forked\<rparr>) (db_leases db),
        db_audit := db_audit db @ [a], db_next_audit_id := Suc (db_next_audit_id db)\<rparr>"
proof -
  let ?m = "fq_metadata q"
  let ?P = "\<lambda>r. lr_lease_id r = fq_lease_id q \<and> lr_state r = Inactive"
  obtain l parent db1 db2 a where l: "get_lease (fq_lease_id q) db = Some l" "lr_state l = Inactive"
      "lr_holder_device_id l = Some (fq_holder_device_id q)" "\<not> device_revoked db (fq_holder_device_id q)"
    and par: "find (\<lambda>s. ss_session_id s = fq_session_id q \<and> ss_project_id s = sm_project_id ?m) (db_sessions db)
        = Some parent"
    and se: "insert_session_row (fr_fork_session res) db = Inr db1"
    and sn: "insert_snapshot_row (fr_snapshot res) db1 = Inr db2"
    and a: "insert_audit_event c (fork_audit q l f (the (sn_label (fr_snapshot res)))) (sm_created_at (fork_metadata f l ?m))
        (db2\<lparr>db_leases := update_rows ?P (\<lambda>r. r\<lparr>lr_state := Forked\<rparr>) (db_leases db2)\<rparr>) = Inr (db', a)"
    and fs: "ss_session_id (fr_fork_session res) = f" "ss_state (fr_fork_session res) = SessFork"
      "ss_parent_session_id (fr_fork_session res) = Some (ss_session_id (session_from_row parent))"
    and sh: "fr_snapshot res = stored_snapshot_of (fork_metadata f l ?m) (Some f)
        (next_sequence (sm_project_id ?m) db1) True (sn_label (fr_snapshot res))"
    and cl: "fr_canonical_latest res = lr_latest_snapshot_id l"
    using run unfolding publish_inactive_snapshot_as_fork_def run_tx_Inr_iff
    by (clarsimp simp: tx_simps Let_def)
  have pid: "ss_session_id (session_from_row parent) = fq_session_id q"
    using par by (auto simp: find_Some_iff session_from_row_def)
  note se' = insert_session_row_InrD [OF se] and sn' = insert_snapshot_row_InrD [OF sn]
    and a' = insert_audit_InrD [OF a]
  have sq: "next_sequence (sm_project_id ?m) db1 = next_sequence (sm_project_id ?m) db"
    using se' by simp
  have snap: "sn_session_id (fr_snapshot res) = Some f" "sn_pinned (fr_snapshot res)"
    "sn_snapshot_id (fr_snapshot res) = sm_snapshot_id ?m" "sn_project_id (fr_snapshot res) = sm_project_id ?m"
    "sn_sequence_number (fr_snapshot res) = next_sequence (sm_project_id ?m) db"
    "sn_parent_snapshot_id (fr_snapshot res) = (case sm_parent_snapshot_id ?m of
         None \<Rightarrow> lr_latest_snapshot_id l | Some p \<Rightarrow> Some p)"
    by (subst sh, simp add: sq)+
  show ?thesis
  proof (intro exI [of _ l] exI [of _ "fr_fork_session res"] exI [of _ "fr_snapshot res"] exI [of _ "ar_row a"] conjI)
    show "res = \<lparr>fr_fork_session = fr_fork_session res, fr_snapshot = fr_snapshot res,
             fr_canonical_latest = lr_latest_snapshot_id l\<rparr>" using cl by simp
  qed (use l fs pid snap se' sn' a' in simp_all)
qed

section \<open>The snapshot history\<close>

text \<open>
  The table in insertion order is a history: ids are new, sequence numbers grow within a
  project, and a parent is an earlier snapshot (or, as the foreign key allows, the snapshot
  itself).
\<close>

definition extends_history :: "stored_snapshot list \<Rightarrow> stored_snapshot \<Rightarrow> bool" where
  "extends_history seen r \<longleftrightarrow>
     (\<forall>q\<in>set seen. sn_snapshot_id q \<noteq> sn_snapshot_id r
        \<and> (sn_project_id q = sn_project_id r \<longrightarrow> sn_sequence_number q < sn_sequence_number r))
     \<and> (case sn_parent_snapshot_id r of None \<Rightarrow> True
        | Some p \<Rightarrow> p = sn_snapshot_id r \<or> p \<in> sn_snapshot_id ` set seen)"

fun history_from :: "stored_snapshot list \<Rightarrow> stored_snapshot list \<Rightarrow> bool" where
  "history_from seen [] = True"
| "history_from seen (r # rs) = (extends_history seen r \<and> history_from (seen @ [r]) rs)"

definition snapshot_inv :: "metadata_db \<Rightarrow> bool" where
  "snapshot_inv db \<longleftrightarrow> history_from [] (db_snapshots db)"

lemma history_append: "history_from seen (xs @ [r]) \<longleftrightarrow> history_from seen xs \<and> extends_history (seen @ xs) r"
  by (induction xs arbitrary: seen) auto

lemma foldl_max_base: "(n :: int) \<le> foldl max n ns"
proof (induction ns arbitrary: n)
  case (Cons m ns)
  have "n \<le> max n m" by simp
  also have "\<dots> \<le> foldl max (max n m) ns" by (rule Cons)
  finally show ?case by simp
qed simp

lemma foldl_max_ge: "(x :: int) \<in> set (n # ns) \<Longrightarrow> x \<le> foldl max n ns"
proof (induction ns arbitrary: n)
  case (Cons m ns)
  show ?case
  proof (cases "x \<in> set ns")
    case True then show ?thesis using Cons.IH [of "max n m"] by simp
  next
    case False
    then have "x \<le> max n m" using Cons.prems by auto
    also have "\<dots> \<le> foldl max (max n m) ns" by (rule foldl_max_base)
    finally show ?thesis by simp
  qed
qed simp

lemma next_sequence_greater:
  assumes "q \<in> set (db_snapshots db)" "sn_project_id q = p"
  shows "sn_sequence_number q < next_sequence p db"
proof -
  let ?ns = "map sn_sequence_number (filter (\<lambda>r. sn_project_id r = p) (db_snapshots db))"
  have m: "sn_sequence_number q \<in> set ?ns" using assms by auto
  then obtain n ns where c: "?ns = n # ns" by (cases ?ns) auto
  have "sn_sequence_number q \<le> foldl max n ns" using foldl_max_ge m unfolding c by blast
  then show ?thesis by (simp add: next_sequence_def c)
qed

lemma snapshot_inv_insert:
  assumes "snapshot_inv db" "sn_snapshot_id r \<notin> sn_snapshot_id ` set (db_snapshots db)"
    "\<forall>p. sn_parent_snapshot_id r = Some p \<longrightarrow> p = sn_snapshot_id r \<or> p \<in> sn_snapshot_id ` set (db_snapshots db)"
    "sn_sequence_number r = next_sequence (sn_project_id r) db"
  shows "history_from [] (db_snapshots db @ [r])"
  using assms next_sequence_greater [of _ db "sn_project_id r"]
  by (auto simp: snapshot_inv_def history_append extends_history_def split: option.splits)
    (metis image_eqI)+

lemma snapshot_inv_publish:
  assumes I: "snapshot_inv db" and run: "publish_snapshot_canonical c q db = (db', r)"
  shows "snapshot_inv db'"
  using publish_cases [OF run]
proof (elim disjE exE conjE)
  fix l snapshot a
  assume "snapshot = stored_snapshot_of (cq_metadata q) (Some (cq_session_id q))
            (next_sequence (sm_project_id (cq_metadata q)) db) (cq_pinned q) (cq_label q)"
    "sn_snapshot_id snapshot \<notin> sn_snapshot_id ` set (db_snapshots db)"
    "\<forall>p. sn_parent_snapshot_id snapshot = Some p \<longrightarrow>
            p = sn_snapshot_id snapshot \<or> p \<in> sn_snapshot_id ` set (db_snapshots db)"
  then have "history_from [] (db_snapshots db @ [snapshot])"
    by (intro snapshot_inv_insert [OF I]) simp_all
  moreover assume "db' = db\<lparr>db_snapshots := db_snapshots db @ [snapshot],
            db_leases := (if stale_reason q l = None
               then update_rows (\<lambda>r. lr_lease_id r = cq_lease_id q)
                 (\<lambda>r. r\<lparr>lr_latest_snapshot_id := Some (sn_snapshot_id snapshot)\<rparr>) (db_leases db)
               else db_leases db),
            db_audit := db_audit db @ [a], db_next_audit_id := Suc (db_next_audit_id db)\<rparr>"
  ultimately show ?thesis by (simp add: snapshot_inv_def)
qed (use I in simp)

lemma snapshot_inv_fork:
  assumes I: "snapshot_inv db" and run: "publish_inactive_snapshot_as_fork c f now q db = (db', r)"
  shows "snapshot_inv db'"
proof (cases r)
  case (Inl e) with run I show ?thesis using fork_InlD by metis
next
  case (Inr res)
  from fork_InrD [OF run [unfolded Inr]] obtain snapshot where
    s: "sn_snapshot_id snapshot \<notin> sn_snapshot_id ` set (db_snapshots db)"
    "\<forall>p. sn_parent_snapshot_id snapshot = Some p \<longrightarrow>
            p = sn_snapshot_id snapshot \<or> p \<in> sn_snapshot_id ` set (db_snapshots db)"
    "sn_sequence_number snapshot = next_sequence (sn_project_id snapshot) db"
    and db': "db_snapshots db' = db_snapshots db @ [snapshot]"
    by (elim exE conjE) (rule that; simp)
  show ?thesis using snapshot_inv_insert [OF I s] by (simp add: snapshot_inv_def db')
qed

section \<open>Sample data\<close>

definition ex_meta :: snapshot_metadata where
  "ex_meta = \<lparr>sm_schema_version = 1, sm_snapshot_id = ''s1_0123456789abcdef01234567'',
     sm_project_id = ''p1'', sm_project_name = ''Demo'', sm_session_id = Some ''s1'',
     sm_parent_snapshot_id = None, sm_child_snapshots = [], sm_source_device_id = None,
     sm_branch = None, sm_head_oid = ''h'', sm_index_tree_oid = ''it'', sm_index_commit_oid = ''ic'',
     sm_work_tree_oid = ''wt'', sm_work_commit_oid = ''wc'',
     sm_source_status = \<lparr>sc_staged = 0, sc_unstaged = 0, sc_untracked = 0, sc_ignored = 0, sc_unmerged = 0\<rparr>,
     sm_operation_capsule = None, sm_included_untracked = [], sm_excluded = [], sm_sidecars = [],
     sm_state_hash = ''st'', sm_created_at = 100\<rparr>"

definition ex_session :: stored_session where
  "ex_session = \<lparr>ss_session_id = ''s1'', ss_project_id = ''p1'', ss_name = ''Demo'',
     ss_parent_session_id = None, ss_active_workspace_id = None, ss_state = SessActive,
     ss_archived_at = None, ss_created_at = 90, ss_updated_at = 90\<rparr>"

definition ex_publish :: canonical_publish_request where
  "ex_publish = \<lparr>cq_lease_id = ''l1'', cq_session_id = ''s1'', cq_expected_epoch = 4,
     cq_holder_device_id = ''a'', cq_expected_latest_snapshot_id = None, cq_metadata = ex_meta,
     cq_pinned = False, cq_label = None\<rparr>"

definition ex_fork :: inactive_fork_request where
  "ex_fork = \<lparr>fq_lease_id = ''l1'', fq_session_id = ''s1'', fq_holder_device_id = ''a'',
     fq_metadata = ex_meta, fq_label = None\<rparr>"

lemma ex_meta_valid: "validate_metadata ex_meta = Inr ()"
  by (simp add: validate_metadata_Inr ex_meta_def snapshot_schema_version_def is_valid_snapshot_id_def
      starts_with_def is_ascii_hexdigit_def is_ascii_digit_def)

lemma ex_meta_sel [simp]:
  "sm_snapshot_id ex_meta = ''s1_0123456789abcdef01234567''" "sm_project_id ex_meta = ''p1''"
  "sm_session_id ex_meta = Some ''s1''" "sm_parent_snapshot_id ex_meta = None" "sm_created_at ex_meta = 100"
  by (simp_all add: ex_meta_def)

section \<open>Properties\<close>

text \<open>
  C14. A canonical publish is a compare-and-swap on the lease. Either it is rejected and the
  database is unchanged; or the publisher held the active lease, was not revoked, and the
  snapshot is stored, and then the lease's latest snapshot advances to it exactly if the lease
  still had the expected epoch and the expected latest snapshot, and otherwise the caller gets
  the stale-publish error and the lease stays as it was. No other lease ever changes.
\<close>

theorem publish_compare_and_swap:
  assumes run: "publish_snapshot_canonical c q db = (db', r)"
  shows "(db' = db \<and> (\<exists>e. r = Inl e))
    \<or> (\<exists>l s. get_lease (cq_lease_id q) db = Some l \<and> lr_state l = Active
        \<and> lr_holder_device_id l = Some (cq_holder_device_id q)
        \<and> \<not> device_revoked db (cq_holder_device_id q)
        \<and> db_snapshots db' = db_snapshots db @ [s] \<and> sn_metadata s = cq_metadata q
        \<and> sn_snapshot_id s = sm_snapshot_id (cq_metadata q)
        \<and> (if lr_epoch l = cq_expected_epoch q
              \<and> lr_latest_snapshot_id l = cq_expected_latest_snapshot_id q
           then r = Inr \<lparr>cr_snapshot = s, cr_latest_snapshot_id = sn_snapshot_id s\<rparr>
             \<and> get_lease (cq_lease_id q) db' = Some (l\<lparr>lr_latest_snapshot_id := Some (sn_snapshot_id s)\<rparr>)
           else (\<exists>why. r = Inl (stale_publish_error why)) \<and> get_lease (cq_lease_id q) db' = Some l)
        \<and> (\<forall>k. k \<noteq> cq_lease_id q \<longrightarrow> get_lease k db' = get_lease k db))"
  using publish_cases [OF run]
proof (elim disjE exE conjE)
  fix l snapshot a
  assume l: "get_lease (cq_lease_id q) db = Some l" "lr_state l = Active"
      "lr_holder_device_id l = Some (cq_holder_device_id q)" "\<not> device_revoked db (cq_holder_device_id q)"
    and s: "snapshot = stored_snapshot_of (cq_metadata q) (Some (cq_session_id q))
            (next_sequence (sm_project_id (cq_metadata q)) db) (cq_pinned q) (cq_label q)"
    and r: "r = (case stale_reason q l of Some e \<Rightarrow> Inl e
              | None \<Rightarrow> Inr \<lparr>cr_snapshot = snapshot, cr_latest_snapshot_id = sn_snapshot_id snapshot\<rparr>)"
    and db': "db' = db\<lparr>db_snapshots := db_snapshots db @ [snapshot],
            db_leases := (if stale_reason q l = None
               then update_rows (\<lambda>r. lr_lease_id r = cq_lease_id q)
                 (\<lambda>r. r\<lparr>lr_latest_snapshot_id := Some (sn_snapshot_id snapshot)\<rparr>) (db_leases db)
               else db_leases db),
            db_audit := db_audit db @ [a], db_next_audit_id := Suc (db_next_audit_id db)\<rparr>"
  obtain q0 where q0: "sel_row lr_lease_id (cq_lease_id q) (db_leases db) = Some q0" "l = lease_from_row q0"
      "lr_lease_id q0 = cq_lease_id q"
    using l(1) by (rule get_lease_SomeE)
  have other: "get_lease k db' = get_lease k db" if "k \<noteq> cq_lease_id q" for k
    using that by (cases "sel_row lr_lease_id k (db_leases db)")
      (auto simp: db' get_lease_def sel_row_update dest: sel_row_SomeD)
  have this_lease: "get_lease (cq_lease_id q) db' = Some (if stale_reason q l = None
      then l\<lparr>lr_latest_snapshot_id := Some (sn_snapshot_id snapshot)\<rparr> else l)"
    using q0 by (simp add: db' get_lease_def sel_row_update lease_from_row_def)
  show ?thesis
    by (intro disjI2 exI [of _ l] exI [of _ snapshot] conjI allI impI)
      (use l s r other this_lease in \<open>auto simp: db' stale_reason_def\<close>)
qed simp

theorem publish_compare_and_swap_witness:
  "\<exists>db' res. publish_snapshot_canonical ex_codec ex_publish (ex_base\<lparr>db_sessions := [ex_session]\<rparr>) = (db', Inr res)
     \<and> get_lease ''l1'' db' = Some (ex_lease Active None\<lparr>lr_latest_snapshot_id := Some ''s1_0123456789abcdef01234567''\<rparr>)"
proof -
  obtain db' res where run:
    "publish_snapshot_canonical ex_codec ex_publish (ex_base\<lparr>db_sessions := [ex_session]\<rparr>) = (db', Inr res)"
    by (simp add: publish_snapshot_canonical_def ex_meta_valid ex_publish_def ex_session_def
        insert_snapshot_row_def insert_row_def stale_reason_def publish_audit_def ex_eval)
  from publish_compare_and_swap [OF run] show ?thesis
    using run by (auto simp: ex_publish_def ex_eval lease_from_row_def split: if_splits)
qed

text \<open>
  Work from an inactive workspace never reaches the canonical line. If the fork publish
  succeeds, the lease was inactive and becomes forked, its epoch, holder and latest snapshot
  stay, no other lease changes, the snapshot is stored pinned in a new fork session, and its
  parent is the one it named or else the canonical latest. If it fails nothing changes.
\<close>

theorem inactive_fork_keeps_canonical:
  assumes run: "publish_inactive_snapshot_as_fork c f now q db = (db', r)"
  shows "(db' = db \<and> (\<exists>e. r = Inl e))
    \<or> (\<exists>l res. r = Inr res \<and> get_lease (fq_lease_id q) db = Some l \<and> lr_state l = Inactive
        \<and> get_lease (fq_lease_id q) db' = Some (l\<lparr>lr_state := Forked\<rparr>)
        \<and> (\<forall>k. k \<noteq> fq_lease_id q \<longrightarrow> get_lease k db' = get_lease k db)
        \<and> fr_canonical_latest res = lr_latest_snapshot_id l
        \<and> db_sessions db' = db_sessions db @ [fr_fork_session res]
        \<and> ss_state (fr_fork_session res) = SessFork
        \<and> ss_parent_session_id (fr_fork_session res) = Some (fq_session_id q)
        \<and> f \<notin> ss_session_id ` set (db_sessions db)
        \<and> db_snapshots db' = db_snapshots db @ [fr_snapshot res] \<and> sn_pinned (fr_snapshot res)
        \<and> sn_session_id (fr_snapshot res) = Some f
        \<and> sn_parent_snapshot_id (fr_snapshot res) = (case sm_parent_snapshot_id (fq_metadata q) of
             None \<Rightarrow> lr_latest_snapshot_id l | Some p \<Rightarrow> Some p))"
proof (cases r)
  case (Inl e)
  then show ?thesis using fork_InlD run by blast
next
  case (Inr res)
  from fork_InrD [OF run [unfolded Inr]] obtain l session snapshot a where
    l: "get_lease (fq_lease_id q) db = Some l" "lr_state l = Inactive"
    and se: "ss_session_id session = f" "ss_state session = SessFork"
      "ss_parent_session_id session = Some (fq_session_id q)" "f \<notin> ss_session_id ` set (db_sessions db)"
    and sn: "sn_session_id snapshot = Some f" "sn_pinned snapshot"
      "sn_parent_snapshot_id snapshot = (case sm_parent_snapshot_id (fq_metadata q) of
         None \<Rightarrow> lr_latest_snapshot_id l | Some p \<Rightarrow> Some p)"
    and res: "res = \<lparr>fr_fork_session = session, fr_snapshot = snapshot,
             fr_canonical_latest = lr_latest_snapshot_id l\<rparr>"
    and db': "db' = db\<lparr>db_sessions := db_sessions db @ [session], db_snapshots := db_snapshots db @ [snapshot],
        db_leases := update_rows (\<lambda>r. lr_lease_id r = fq_lease_id q \<and> lr_state r = Inactive)
          (\<lambda>r. r\<lparr>lr_state := Forked\<rparr>) (db_leases db),
        db_audit := db_audit db @ [a], db_next_audit_id := Suc (db_next_audit_id db)\<rparr>"
    by (elim exE conjE) (rule that; assumption)
  obtain q0 where q0: "sel_row lr_lease_id (fq_lease_id q) (db_leases db) = Some q0" "l = lease_from_row q0"
      "lr_lease_id q0 = fq_lease_id q"
    using l(1) by (rule get_lease_SomeE)
  have other: "get_lease k db' = get_lease k db" if "k \<noteq> fq_lease_id q" for k
    using that by (cases "sel_row lr_lease_id k (db_leases db)")
      (auto simp: db' get_lease_def sel_row_update dest: sel_row_SomeD)
  have this_lease: "get_lease (fq_lease_id q) db' = Some (l\<lparr>lr_state := Forked\<rparr>)"
    using q0 l(2) by (simp add: db' get_lease_def sel_row_update lease_from_row_def)
  show ?thesis
    by (intro disjI2 exI [of _ l] exI [of _ res] conjI allI impI)
      (use Inr l se sn res other this_lease in \<open>simp_all add: db'\<close>)
qed

theorem inactive_fork_keeps_canonical_witness:
  "\<exists>db' res. publish_inactive_snapshot_as_fork ex_codec ''s2'' 100 ex_fork
      (ex_base\<lparr>db_sessions := [ex_session], db_leases := [ex_lease Inactive None]\<rparr>) = (db', Inr res)
     \<and> get_lease ''l1'' db' = Some (ex_lease Forked None)"
proof -
  have v: "validate_metadata (fork_metadata s l ex_meta) = Inr ()" for s l
    by (simp add: fork_metadata_def ex_meta_valid)
  obtain db' res where run: "publish_inactive_snapshot_as_fork ex_codec ''s2'' 100 ex_fork
      (ex_base\<lparr>db_sessions := [ex_session], db_leases := [ex_lease Inactive None]\<rparr>) = (db', Inr res)"
    by (simp add: publish_inactive_snapshot_as_fork_def v ex_fork_def ex_session_def session_from_row_def
        insert_session_row_def insert_snapshot_row_def insert_row_def fork_audit_def
        validate_transition_to_def ex_eval)
  from inactive_fork_keeps_canonical [OF run] show ?thesis
    using run by (auto simp: ex_fork_def ex_eval lease_from_row_def)
qed

end
