(* ===== verification/Paths.thy ===== *)
theory Paths
  imports Ordered_Map
begin

text \<open>
  File-system paths as the code compares them, the \<open>BTreeSet\<close> of the standard library, and the
  entry operations of \<open>BTreeMap\<close> that the background components use.
\<close>

section \<open>Paths\<close>

text \<open>
  \<open>Path\<close> equality, order and \<open>strip_prefix\<close> work on the components of a path, in the order root,
  current directory, parent directory, named component, names byte-wise.
\<close>

datatype path_component = RootDir | CurDir | ParentDir | Normal string

type_synonym path = "path_component list"

fun component_rank :: "path_component \<Rightarrow> nat \<times> string" where
  "component_rank RootDir = (0, [])"
| "component_rank CurDir = (1, [])"
| "component_rank ParentDir = (2, [])"
| "component_rank (Normal s) = (3, s)"

lemma component_rank_inject: "component_rank a = component_rank b \<longleftrightarrow> a = b"
  by (cases a; cases b; simp)

instantiation path_component :: linorder
begin

definition less_eq_path_component :: "path_component \<Rightarrow> path_component \<Rightarrow> bool" where
  "less_eq_path_component a b \<longleftrightarrow> component_rank a \<le> component_rank b"

definition less_path_component :: "path_component \<Rightarrow> path_component \<Rightarrow> bool" where
  "less_path_component a b \<longleftrightarrow> component_rank a < component_rank b"

instance
  by intro_classes
    (auto simp: less_eq_path_component_def less_path_component_def component_rank_inject less_le_not_le)

end

fun strip_prefix :: "path \<Rightarrow> path \<Rightarrow> path option" where
  "strip_prefix [] p = Some p"
| "strip_prefix (r # rs) (c # cs) = (if r = c then strip_prefix rs cs else None)"
| "strip_prefix (r # rs) [] = None"

lemma strip_prefix_Some_iff: "strip_prefix r p = Some q \<longleftrightarrow> p = r @ q"
  by (induction r p rule: strip_prefix.induct) auto

text \<open>\<open>Path::components\<close> on Unix.\<close>

definition component_of :: "string \<Rightarrow> path_component" where
  "component_of s = (if s = ''..'' then ParentDir else Normal s)"

definition path_components :: "string \<Rightarrow> path" where
  "path_components s =
     (if s = [] then []
      else if hd s = CHR ''/''
      then RootDir # map component_of (filter (\<lambda>w. w \<noteq> [] \<and> w \<noteq> ''.'') (split_on (CHR ''/'') s))
      else (if hd (split_on (CHR ''/'') s) = ''.'' then [CurDir] else [])
        @ map component_of (filter (\<lambda>w. w \<noteq> [] \<and> w \<noteq> ''.'') (split_on (CHR ''/'') s)))"

section \<open>BTreeSet\<close>

type_synonym 'a btree_set = "'a list"

fun bs_insert :: "'a::linorder \<Rightarrow> 'a btree_set \<Rightarrow> 'a btree_set" where
  "bs_insert x [] = [x]"
| "bs_insert x (y # ys) = (if x < y then x # y # ys else if x = y then y # ys else y # bs_insert x ys)"

definition bs_extend :: "'a::linorder btree_set \<Rightarrow> 'a list \<Rightarrow> 'a btree_set" where
  "bs_extend s xs = foldl (\<lambda>s x. bs_insert x s) s xs"

definition bs_collect :: "'a::linorder list \<Rightarrow> 'a btree_set" where
  "bs_collect xs = bs_extend [] xs"

lemma set_bs_insert [simp]: "set (bs_insert x s) = insert x (set s)"
  by (induction s) auto

lemma sorted_bs_insert [simp]: "sorted_wrt (<) s \<Longrightarrow> sorted_wrt (<) (bs_insert x s)"
  by (induction s) (auto intro: order.strict_trans)

lemma set_bs_extend [simp]: "set (bs_extend s xs) = set s \<union> set xs"
  unfolding bs_extend_def by (induction xs arbitrary: s) auto

lemma sorted_bs_extend [simp]: "sorted_wrt (<) s \<Longrightarrow> sorted_wrt (<) (bs_extend s xs)"
  unfolding bs_extend_def by (induction xs arbitrary: s) auto

lemma bs_extend_empty_iff [simp]: "bs_extend s xs = [] \<longleftrightarrow> s = [] \<and> xs = []"
  by (metis Un_empty set_bs_extend set_empty)

lemma set_bs_collect [simp]: "set (bs_collect xs) = set xs"
  by (simp add: bs_collect_def)

section \<open>Entries\<close>

definition bt_entry :: "'v \<Rightarrow> 'k::linorder \<Rightarrow> ('v \<Rightarrow> 'v) \<Rightarrow> ('k, 'v) btree_map \<Rightarrow> ('k, 'v) btree_map" where
  "bt_entry d k f m = bt_insert k (f (bt_get_or d m k)) m"

definition bt_remove :: "'k \<Rightarrow> ('k, 'v) btree_map \<Rightarrow> ('k, 'v) btree_map" where
  "bt_remove k m = filter (\<lambda>(j, _). j \<noteq> k) m"

lemma bt_get_entry [simp]:
  "bt_get (bt_entry d k f m) j = (if j = k then Some (f (bt_get_or d m k)) else bt_get m j)"
  by (simp add: bt_entry_def)

lemma bt_wf_entry [simp]: "bt_wf m \<Longrightarrow> bt_wf (bt_entry d k f m)"
  by (simp add: bt_entry_def)

lemma bt_get_remove [simp]: "bt_get (bt_remove k m) j = (if j = k then None else bt_get m j)"
  unfolding bt_get_def bt_remove_def by (induction m) auto

lemma bt_wf_remove [simp]: "bt_wf m \<Longrightarrow> bt_wf (bt_remove k m)"
  unfolding bt_wf_def bt_remove_def by (induction m) auto

lemma bt_wf_append: "bt_wf (xs @ ys) \<longleftrightarrow> bt_wf xs \<and> bt_wf ys \<and> (\<forall>a\<in>fst ` set xs. \<forall>b\<in>fst ` set ys. a < b)"
  by (auto simp: bt_wf_def sorted_wrt_append)

lemma bt_get_append: "bt_get (xs @ ys) k = (case bt_get xs k of None \<Rightarrow> bt_get ys k | Some v \<Rightarrow> Some v)"
  by (induction xs) (auto simp: bt_get_def)

lemma bt_get_here: "bt_wf (xs @ (k, v) # ys) \<Longrightarrow> bt_get (xs @ (k, v) # ys) k = Some v"
  by (induction xs) (auto simp: bt_get_def)

lemma bt_insert_here: "bt_wf (xs @ (k, v) # ys) \<Longrightarrow> bt_insert k w (xs @ (k, v) # ys) = xs @ (k, w) # ys"
proof (induction xs)
  case (Cons x xs)
  then show ?case by (cases x) auto
qed simp

end
