(* ===== verification/Retention.thy ===== *)
theory Retention
  imports Db_State Paths
begin

text \<open>
  Retention planning, \<open>crates/devrelay-core/src/retention.rs\<close>: which snapshots are kept and why,
  and which are pruned under quota or disk pressure. \<open>BTreeMap\<close> is the ordered map of
  Ordered\_Map, \<open>BTreeSet\<close> a sorted list without duplicates; the unchecked products and the
  sum of sizes wrap as in a release build.
\<close>

section \<open>Policy and inputs\<close>

datatype pruning_scope = DeviceCache | AnchorProject

record retention_policy =
  rp_hot_snapshot_count :: nat
  rp_hourly_thinning_hours :: u64
  rp_daily_thinning_days :: u64
  rp_handoff_protection_seconds :: u64
  rp_device_cache_quota_mib :: "u64 option"
  rp_anchor_project_quota_mib :: "u64 option"
  rp_free_disk_warning_threshold_mib :: u64
  rp_free_disk_hard_stop_threshold_mib :: u64

definition seconds_per_hour :: u64 where "seconds_per_hour = 60 * 60"
definition seconds_per_day :: u64 where "seconds_per_day = 24 * seconds_per_hour"

definition default_retention_policy :: retention_policy where
  "default_retention_policy = \<lparr>rp_hot_snapshot_count = 5, rp_hourly_thinning_hours = 24,
     rp_daily_thinning_days = 14, rp_handoff_protection_seconds = seconds_per_day,
     rp_device_cache_quota_mib = None, rp_anchor_project_quota_mib = None,
     rp_free_disk_warning_threshold_mib = 1024, rp_free_disk_hard_stop_threshold_mib = 256\<rparr>"

text \<open>\<open>from_sync_config\<close>: of \<open>SyncConfig\<close> only the cache quota is read.\<close>

definition policy_from_sync_config :: "u64 option option \<Rightarrow> retention_policy" where
  "policy_from_sync_config sync =
     (case sync of None \<Rightarrow> default_retention_policy
      | Some quota \<Rightarrow> default_retention_policy\<lparr>rp_device_cache_quota_mib := quota\<rparr>)"

definition mib_to_bytes :: "u64 \<Rightarrow> u64" where
  "mib_to_bytes v = sat_mul v (1024 * 1024)"

fun quota_bytes :: "retention_policy \<Rightarrow> pruning_scope \<Rightarrow> u64 option" where
  "quota_bytes p DeviceCache = map_option mib_to_bytes (rp_device_cache_quota_mib p)"
| "quota_bytes p AnchorProject = map_option mib_to_bytes (rp_anchor_project_quota_mib p)"

record snapshot_retention_entry =
  re_snapshot_id :: string
  re_parent_snapshot_id :: "string option"
  re_sequence_number :: int
  re_pinned :: bool
  re_created_at :: u64
  re_estimated_size :: u64

definition entry_from_stored :: "stored_snapshot \<Rightarrow> u64 \<Rightarrow> snapshot_retention_entry" where
  "entry_from_stored s bytes = \<lparr>re_snapshot_id = sn_snapshot_id s,
     re_parent_snapshot_id = sn_parent_snapshot_id s, re_sequence_number = sn_sequence_number s,
     re_pinned = sn_pinned s, re_created_at = sn_created_at s, re_estimated_size = bytes\<rparr>"

record handoff_snapshot_protection =
  hp_snapshot_id :: string
  hp_protect_until :: u64

definition handoff_protection :: "retention_policy \<Rightarrow> string \<Rightarrow> u64 \<Rightarrow> handoff_snapshot_protection" where
  "handoff_protection p snapshot_id protected_at =
     \<lparr>hp_snapshot_id = snapshot_id,
      hp_protect_until = sat_add protected_at (rp_handoff_protection_seconds p)\<rparr>"

section \<open>Reasons\<close>

datatype keep_reason =
    CanonicalLatest | Pinned | HandoffProtected | RetainedParent | HotSnapshot | HourlyThinning
  | DailyThinning

fun is_hard :: "keep_reason \<Rightarrow> bool" where
  "is_hard CanonicalLatest = True"
| "is_hard Pinned = True"
| "is_hard HandoffProtected = True"
| "is_hard RetainedParent = True"
| "is_hard _ = False"

text \<open>The derived order of the enum is the order of its constructors.\<close>

fun keep_rank :: "keep_reason \<Rightarrow> nat" where
  "keep_rank CanonicalLatest = 0"
| "keep_rank Pinned = 1"
| "keep_rank HandoffProtected = 2"
| "keep_rank RetainedParent = 3"
| "keep_rank HotSnapshot = 4"
| "keep_rank HourlyThinning = 5"
| "keep_rank DailyThinning = 6"

lemma keep_rank_inject: "keep_rank a = keep_rank b \<Longrightarrow> a = b"
  by (cases a; cases b) simp_all

instantiation keep_reason :: linorder
begin

definition less_eq_keep_reason :: "keep_reason \<Rightarrow> keep_reason \<Rightarrow> bool" where
  "a \<le> b \<longleftrightarrow> keep_rank a \<le> keep_rank b"

definition less_keep_reason :: "keep_reason \<Rightarrow> keep_reason \<Rightarrow> bool" where
  "a < b \<longleftrightarrow> keep_rank a < keep_rank b"

instance
  by standard (auto simp: less_eq_keep_reason_def less_keep_reason_def intro: keep_rank_inject)

end

datatype pruning_reason = OutsideRetention | QuotaPressure | FreeDiskPressure

datatype pruning_action = Keep "keep_reason list" | Delete pruning_reason

record pruning_decision =
  pd_snapshot_id :: string
  pd_estimated_size :: u64
  pd_action :: pruning_action

datatype plan_warning_code =
    QuotaExceeded | FreeDiskLow | FreeDiskHardStop | InsufficientReclaimableSnapshots

record pruning_plan =
  pp_scope :: pruning_scope
  pp_current_usage :: u64
  pp_free_disk :: u64
  pp_target_reclaim :: u64
  pp_planned_reclaim :: u64
  pp_decisions :: "pruning_decision list"
  pp_warnings :: "(plan_warning_code \<times> string) list"

fun is_delete :: "pruning_action \<Rightarrow> bool" where
  "is_delete (Delete _) = True"
| "is_delete (Keep _) = False"

definition delete_snapshot_ids :: "pruning_plan \<Rightarrow> string list" where
  "delete_snapshot_ids p = map pd_snapshot_id (filter (\<lambda>d. is_delete (pd_action d)) (pp_decisions p))"

definition protected_snapshot_ids :: "pruning_plan \<Rightarrow> string list" where
  "protected_snapshot_ids p = map pd_snapshot_id (filter (\<lambda>d. case pd_action d of
     Keep reasons \<Rightarrow> list_ex is_hard reasons | Delete _ \<Rightarrow> False) (pp_decisions p))"

record pruning_plan_input =
  pi_snapshots :: "snapshot_retention_entry list"
  pi_policy :: retention_policy
  pi_scope :: pruning_scope
  pi_canonical_latest :: "string option"
  pi_handoff_protections :: "handoff_snapshot_protection list"
  pi_current_usage :: u64
  pi_free_disk :: u64
  pi_now :: u64

type_synonym reason_map = "(string, keep_reason list) btree_map"

definition add_reason :: "string \<Rightarrow> keep_reason \<Rightarrow> reason_map \<Rightarrow> reason_map" where
  "add_reason i r rs = bt_insert i (bs_insert r (bt_get_or [] rs i)) rs"

text \<open>\<open>u64\<close> in descending order is the ascending order of the complement.\<close>

definition newest_first :: "snapshot_retention_entry list \<Rightarrow> snapshot_retention_entry list" where
  "newest_first = sort_key (\<lambda>s. (- re_sequence_number s, - int (unat (re_created_at s)), re_snapshot_id s))"

definition oldest_first :: "snapshot_retention_entry list \<Rightarrow> snapshot_retention_entry list" where
  "oldest_first = sort_key (\<lambda>s. (re_sequence_number s, int (unat (re_created_at s)), re_snapshot_id s))"

fun latest_per_bucket ::
    "snapshot_retention_entry list \<Rightarrow> u64 \<Rightarrow> u64 \<Rightarrow> (u64, snapshot_retention_entry) btree_map
      \<Rightarrow> (u64, snapshot_retention_entry) btree_map" where
  "latest_per_bucket [] oldest_kept bucket_seconds buckets = buckets"
| "latest_per_bucket (s # ss) oldest_kept bucket_seconds buckets =
     (if re_created_at s < oldest_kept then latest_per_bucket ss oldest_kept bucket_seconds buckets
      else let bucket = re_created_at s div bucket_seconds;
               replace = (case bt_get buckets bucket of
                  None \<Rightarrow> True
                | Some cur \<Rightarrow> re_sequence_number cur < re_sequence_number s
                    \<or> re_sequence_number s = re_sequence_number cur \<and> re_created_at cur < re_created_at s)
           in latest_per_bucket ss oldest_kept bucket_seconds
                (if replace then bt_insert bucket s buckets else buckets))"

text \<open>
  The worklist of \<open>protect_retained_parents\<close>: the frontier is a stack, its top the head of
  the list.
\<close>

definition parent_of :: "(string, string option) btree_map \<Rightarrow> string \<Rightarrow> string option" where
  "parent_of parents i = (case bt_get parents i of Some (Some p) \<Rightarrow> Some p | _ \<Rightarrow> None)"

lemma unvisited_shrinks:
  assumes "parent_of parents i = Some p" "i \<notin> set visited"
  shows "card (fst ` set parents - insert i (set visited)) < card (fst ` set parents - set visited)"
proof (rule psubset_card_mono)
  obtain x where "bt_get parents i = Some x" using assms(1) by (auto simp: parent_of_def split: option.splits)
  from bt_get_in [OF this] have "i \<in> fst ` set parents" by force
  then show "fst ` set parents - insert i (set visited) \<subset> fst ` set parents - set visited"
    using assms(2) by auto
qed simp

lemma unvisited_mono:
  "card (fst ` set parents - insert i (set visited)) \<le> card (fst ` set parents - set visited)"
  by (intro card_mono) auto

function protect_loop ::
    "(string, string option) btree_map \<Rightarrow> string list \<Rightarrow> string list \<Rightarrow> reason_map \<Rightarrow> reason_map" where
  "protect_loop parents [] visited rs = rs"
| "protect_loop parents (i # frontier) visited rs =
     (if i \<in> set visited then protect_loop parents frontier visited rs
      else case parent_of parents i of
        Some p \<Rightarrow> protect_loop parents (p # frontier) (i # visited) (add_reason p RetainedParent rs)
      | None \<Rightarrow> protect_loop parents frontier (i # visited) rs)"
  by pat_completeness auto

termination
proof (relation "measures [\<lambda>(parents, frontier, visited, rs). card (fst ` set parents - set visited),
    \<lambda>(parents, frontier, visited, rs). length frontier]", goal_cases)
  case (3 parents i frontier visited rs)
  then show ?case using unvisited_mono [of parents i visited] by auto
next
  case (4 parents i frontier visited rs p)
  then show ?case using unvisited_shrinks [of parents i p visited] by simp
qed auto

definition parent_map :: "snapshot_retention_entry list \<Rightarrow> (string, string option) btree_map" where
  "parent_map ss = foldl (\<lambda>m s. bt_insert (re_snapshot_id s) (re_parent_snapshot_id s) m) [] ss"

definition protect_retained_parents :: "snapshot_retention_entry list \<Rightarrow> reason_map \<Rightarrow> reason_map" where
  "protect_retained_parents ss rs =
     protect_loop (parent_map ss) (rev (map fst (filter (\<lambda>(i, r). r \<noteq> []) rs))) [] rs"

definition add_all :: "keep_reason \<Rightarrow> string list \<Rightarrow> reason_map \<Rightarrow> reason_map" where
  "add_all r ids rs = foldl (\<lambda>m i. add_reason i r m) rs ids"

definition retention_reasons ::
    "snapshot_retention_entry list \<Rightarrow> retention_policy \<Rightarrow> string option
      \<Rightarrow> handoff_snapshot_protection list \<Rightarrow> u64 \<Rightarrow> reason_map" where
  "retention_reasons ss policy latest protections now =
     (let rs1 = (case latest of None \<Rightarrow> [] | Some i \<Rightarrow> add_reason i CanonicalLatest []);
          rs2 = add_all Pinned (map re_snapshot_id (filter re_pinned ss)) rs1;
          rs3 = add_all HandoffProtected
                  (map hp_snapshot_id (filter (\<lambda>p. now \<le> hp_protect_until p) protections)) rs2;
          rs4 = add_all HotSnapshot
                  (map re_snapshot_id (take (rp_hot_snapshot_count policy) (newest_first ss))) rs3;
          hourly_floor = sat_sub now (rp_hourly_thinning_hours policy * seconds_per_hour);
          rs5 = add_all HourlyThinning
                  (map (re_snapshot_id \<circ> snd) (latest_per_bucket ss hourly_floor seconds_per_hour [])) rs4;
          daily_floor = sat_sub now (rp_daily_thinning_days policy * seconds_per_day);
          rs6 = add_all DailyThinning
                  (map (re_snapshot_id \<circ> snd) (latest_per_bucket ss daily_floor seconds_per_day [])) rs5
      in protect_retained_parents ss rs6)"

section \<open>The plan\<close>

type_synonym delete_map = "(string, pruning_reason) btree_map"

definition planned_reclaim_bytes :: "snapshot_retention_entry list \<Rightarrow> string list \<Rightarrow> u64" where
  "planned_reclaim_bytes ss ids =
     foldl (+) 0 (map re_estimated_size (filter (\<lambda>s. re_snapshot_id s \<in> set ids) ss))"

definition outside_retention :: "snapshot_retention_entry list \<Rightarrow> reason_map \<Rightarrow> delete_map" where
  "outside_retention ss rs =
     foldl (\<lambda>ds s. if bt_get_or [] rs (re_snapshot_id s) = []
              then bt_insert (re_snapshot_id s) OutsideRetention ds else ds) [] ss"

text \<open>
  The pressure loop over the snapshots, oldest first. It stops as soon as the target is met,
  skips what is already deleted and what has a hard reason.
\<close>

fun pressure_loop ::
    "u64 \<Rightarrow> pruning_reason \<Rightarrow> snapshot_retention_entry list \<Rightarrow> reason_map \<times> delete_map \<times> u64
      \<Rightarrow> reason_map \<times> delete_map \<times> u64" where
  "pressure_loop target why [] st = st"
| "pressure_loop target why (s # ss) (rs, ds, planned) =
     (if target \<le> planned then (rs, ds, planned)
      else if bt_get ds (re_snapshot_id s) \<noteq> None then pressure_loop target why ss (rs, ds, planned)
      else let sr = bt_get_or [] rs (re_snapshot_id s)
           in if list_ex is_hard sr
              then pressure_loop target why ss (bt_insert (re_snapshot_id s) sr rs, ds, planned)
              else pressure_loop target why ss
                     (bt_insert (re_snapshot_id s) [] rs, bt_insert (re_snapshot_id s) why ds,
                      sat_add planned (re_estimated_size s)))"

definition decide :: "reason_map \<Rightarrow> delete_map \<Rightarrow> snapshot_retention_entry \<Rightarrow> pruning_decision" where
  "decide rs ds s = \<lparr>pd_snapshot_id = re_snapshot_id s, pd_estimated_size = re_estimated_size s,
     pd_action = (case bt_get ds (re_snapshot_id s) of
        Some why \<Rightarrow> Delete why
      | None \<Rightarrow> Keep (sort (bt_get_or [] rs (re_snapshot_id s))))\<rparr>"

definition quota_overage :: "pruning_plan_input \<Rightarrow> u64" where
  "quota_overage i = (case quota_bytes (pi_policy i) (pi_scope i) of
       None \<Rightarrow> 0
     | Some quota \<Rightarrow> (case checked_sub (pi_current_usage i) quota of None \<Rightarrow> 0 | Some d \<Rightarrow> d))"

definition hard_stop_deficit :: "pruning_plan_input \<Rightarrow> u64" where
  "hard_stop_deficit i =
     sat_sub (mib_to_bytes (rp_free_disk_hard_stop_threshold_mib (pi_policy i))) (pi_free_disk i)"

definition plan_state :: "pruning_plan_input \<Rightarrow> reason_map \<times> delete_map \<times> u64" where
  "plan_state i =
     (let ss = pi_snapshots i;
          rs = retention_reasons ss (pi_policy i) (pi_canonical_latest i) (pi_handoff_protections i) (pi_now i);
          target = max (quota_overage i) (hard_stop_deficit i);
          ds = outside_retention ss rs;
          planned = planned_reclaim_bytes ss (bt_keys ds)
      in if planned < target
         then pressure_loop target
                (if hard_stop_deficit i \<le> quota_overage i \<and> 0 < quota_overage i
                 then QuotaPressure else FreeDiskPressure)
                (oldest_first ss) (rs, ds, planned)
         else (rs, ds, planned))"

definition plan_warnings :: "pruning_plan_input \<Rightarrow> u64 \<Rightarrow> u64 \<Rightarrow> (plan_warning_code \<times> string) list" where
  "plan_warnings i target planned =
     (if 0 < quota_overage i
      then [(QuotaExceeded, ''snapshot cache exceeds configured quota by '' @ dec_u64 (quota_overage i) @ '' bytes'')]
      else [])
     @ (if pi_free_disk i < mib_to_bytes (rp_free_disk_warning_threshold_mib (pi_policy i))
        then [(FreeDiskLow, ''free disk is below warning threshold'')] else [])
     @ (if 0 < hard_stop_deficit i
        then [(FreeDiskHardStop, ''free disk is below hard stop threshold'')] else [])
     @ (if planned < target
        then [(InsufficientReclaimableSnapshots, ''planner can reclaim '' @ dec_u64 planned
               @ '' bytes but target is '' @ dec_u64 target @ '' bytes'')] else [])"

definition plan_snapshot_pruning :: "pruning_plan_input \<Rightarrow> pruning_plan" where
  "plan_snapshot_pruning i =
     (let target = max (quota_overage i) (hard_stop_deficit i); (rs, ds, planned) = plan_state i
      in \<lparr>pp_scope = pi_scope i, pp_current_usage = pi_current_usage i, pp_free_disk = pi_free_disk i,
          pp_target_reclaim = target, pp_planned_reclaim = planned,
          pp_decisions = map (decide rs ds) (pi_snapshots i),
          pp_warnings = plan_warnings i target planned\<rparr>)"

section \<open>Lemmas on the reasons\<close>

definition reasons_of :: "reason_map \<Rightarrow> string \<Rightarrow> keep_reason set" where
  "reasons_of rs i = set (bt_get_or [] rs i)"

lemma reasons_of_empty [simp]: "bt_get_or [] rs i = [] \<longleftrightarrow> reasons_of rs i = {}"
  by (simp add: reasons_of_def)

lemma bt_get_or_insert [simp]: "bt_get_or d (bt_insert k v m) j = (if j = k then v else bt_get_or d m j)"
  by (simp add: bt_get_or_def)

lemma reasons_add [simp]:
  "reasons_of (add_reason i r rs) j = (if j = i then insert r (reasons_of rs j) else reasons_of rs j)"
  by (simp add: reasons_of_def add_reason_def)

lemma reasons_add_all [simp]:
  "reasons_of (add_all r ids rs) j = (if j \<in> set ids then insert r (reasons_of rs j) else reasons_of rs j)"
  unfolding add_all_def by (induction ids arbitrary: rs) auto

lemma protect_loop_mono: "reasons_of rs j \<subseteq> reasons_of (protect_loop ps fr v rs) j"
proof (induction ps fr v rs rule: protect_loop.induct)
  case (2 ps i fr v rs)
  show ?case
  proof (cases "i \<in> set v")
    case True with 2(1) show ?thesis by simp
  next
    case False
    show ?thesis
    proof (cases "parent_of ps i")
      case None with 2(2) [OF False] False show ?thesis by simp
    next
      case (Some p)
      have "reasons_of rs j \<subseteq> reasons_of (add_reason p RetainedParent rs) j" by auto
      also have "\<dots> \<subseteq> reasons_of (protect_loop ps (p # fr) (i # v) (add_reason p RetainedParent rs)) j"
        by (rule 2(3) [OF False Some])
      finally show ?thesis using False Some by simp
    qed
  qed
qed simp

text \<open>
  What is retained has a retained parent: visited nodes have had their parent marked, and
  every node with a reason is visited or waits in the frontier.
\<close>

definition frontier_ok :: "(string, string option) btree_map \<Rightarrow> string list \<Rightarrow> string list \<Rightarrow> reason_map \<Rightarrow> bool" where
  "frontier_ok ps fr v rs \<longleftrightarrow>
     (\<forall>i\<in>set v. \<forall>p. parent_of ps i = Some p \<longrightarrow> RetainedParent \<in> reasons_of rs p)
     \<and> (\<forall>i. reasons_of rs i \<noteq> {} \<longrightarrow> i \<in> set v \<union> set fr)"

lemma protect_loop_closed:
  assumes "frontier_ok ps fr v rs" "reasons_of (protect_loop ps fr v rs) i \<noteq> {}" "parent_of ps i = Some p"
  shows "RetainedParent \<in> reasons_of (protect_loop ps fr v rs) p"
  using assms
proof (induction ps fr v rs rule: protect_loop.induct)
  case (1 ps v rs)
  then show ?case by (auto simp: frontier_ok_def)
next
  case (2 ps j fr v rs)
  show ?case
  proof (cases "j \<in> set v")
    case True
    then have "frontier_ok ps fr v rs" using 2(4) by (auto simp: frontier_ok_def)
    with 2(1) [OF True] 2(5,6) True show ?thesis by simp
  next
    case False
    show ?thesis
    proof (cases "parent_of ps j")
      case None
      then have "frontier_ok ps fr (j # v) rs" using 2(4) by (auto simp: frontier_ok_def)
      with 2(2) [OF False None] 2(5,6) False None show ?thesis by simp
    next
      case (Some k)
      then have "frontier_ok ps (k # fr) (j # v) (add_reason k RetainedParent rs)"
        using 2(4) by (auto simp: frontier_ok_def)
      with 2(3) [OF False Some] 2(5,6) False Some show ?thesis by simp
    qed
  qed
qed

lemma frontier_init: "frontier_ok ps (rev (map fst (filter (\<lambda>(i, r). r \<noteq> []) rs))) [] rs"
proof -
  have "i \<in> fst ` {x \<in> set rs. case x of (i, r) \<Rightarrow> r \<noteq> []}" if ne: "reasons_of rs i \<noteq> {}" for i
  proof -
    obtain r where "bt_get rs i = Some r" "r \<noteq> []"
      using ne by (cases "bt_get rs i") (auto simp: reasons_of_def bt_get_or_def simp del: reasons_of_empty)
    then show ?thesis using bt_get_in [of rs i r] by force
  qed
  then show ?thesis by (auto simp: frontier_ok_def)
qed

lemma retained_closed:
  "reasons_of (protect_retained_parents ss rs) i \<noteq> {} \<Longrightarrow> parent_of (parent_map ss) i = Some p \<Longrightarrow>
     RetainedParent \<in> reasons_of (protect_retained_parents ss rs) p"
  unfolding protect_retained_parents_def by (rule protect_loop_closed [OF frontier_init])

lemma parent_map_get:
  assumes "distinct (map re_snapshot_id ss)" "s \<in> set ss"
  shows "bt_get (parent_map ss) (re_snapshot_id s) = Some (re_parent_snapshot_id s)"
proof -
  have "bt_get (foldl (\<lambda>m s. bt_insert (re_snapshot_id s) (re_parent_snapshot_id s) m) m ss) k =
    (case map_of (rev (map (\<lambda>s. (re_snapshot_id s, re_parent_snapshot_id s)) ss)) k of
       Some x \<Rightarrow> Some x | None \<Rightarrow> bt_get m k)" for m k
    by (induction ss arbitrary: m) (auto simp: map_add_def split: option.splits)
  moreover have "map_of (rev (map (\<lambda>s. (re_snapshot_id s, re_parent_snapshot_id s)) ss)) (re_snapshot_id s)
      = Some (re_parent_snapshot_id s)"
    using assms by (intro map_of_is_SomeI) (auto simp: rev_map [symmetric] comp_def)
  ultimately show ?thesis by (simp add: parent_map_def)
qed

lemma hard_reasons:
  assumes "i = the_latest \<and> latest = Some the_latest \<or> (\<exists>s\<in>set ss. re_snapshot_id s = i \<and> re_pinned s)
    \<or> (\<exists>p\<in>set protections. hp_snapshot_id p = i \<and> now \<le> hp_protect_until p)"
  shows "\<exists>r\<in>reasons_of (retention_reasons ss policy latest protections now) i. is_hard r"
proof -
  define rs1 where "rs1 = (case latest of None \<Rightarrow> [] | Some i \<Rightarrow> add_reason i CanonicalLatest [])"
  define rs6 where "rs6 = add_all DailyThinning (map (re_snapshot_id \<circ> snd) (latest_per_bucket ss
        (sat_sub now (rp_daily_thinning_days policy * seconds_per_day)) seconds_per_day []))
     (add_all HourlyThinning (map (re_snapshot_id \<circ> snd) (latest_per_bucket ss
        (sat_sub now (rp_hourly_thinning_hours policy * seconds_per_hour)) seconds_per_hour []))
     (add_all HotSnapshot (map re_snapshot_id (take (rp_hot_snapshot_count policy) (newest_first ss)))
     (add_all HandoffProtected (map hp_snapshot_id (filter (\<lambda>p. now \<le> hp_protect_until p) protections))
     (add_all Pinned (map re_snapshot_id (filter re_pinned ss)) rs1))))"
  have "\<exists>r\<in>reasons_of rs6 i. is_hard r"
    using assms unfolding rs6_def rs1_def
    by (elim disjE) (auto intro: bexI [of _ CanonicalLatest] bexI [of _ Pinned] bexI [of _ HandoffProtected])
  moreover have "retention_reasons ss policy latest protections now = protect_retained_parents ss rs6"
    by (simp add: retention_reasons_def Let_def rs6_def rs1_def)
  ultimately show ?thesis
    using protect_loop_mono unfolding protect_retained_parents_def by (metis subset_iff)
qed

section \<open>Lemmas on the plan\<close>

definition has_hard :: "reason_map \<Rightarrow> string \<Rightarrow> bool" where
  "has_hard rs i \<longleftrightarrow> (\<exists>r\<in>reasons_of rs i. is_hard r)"

lemma list_ex_hard [simp]: "list_ex is_hard (bt_get_or [] rs i) \<longleftrightarrow> has_hard rs i"
  by (simp add: list_ex_iff has_hard_def reasons_of_def)

lemma has_hard_insert [simp]:
  "has_hard (bt_insert k v rs) i \<longleftrightarrow> (if i = k then list_ex is_hard v else has_hard rs i)"
  by (simp add: has_hard_def reasons_of_def list_ex_iff)

lemma outside_retention_get:
  "bt_get (outside_retention ss rs) i \<noteq> None \<longleftrightarrow> i \<in> re_snapshot_id ` set ss \<and> reasons_of rs i = {}"
proof -
  have "bt_get (foldl (\<lambda>ds s. if bt_get_or [] rs (re_snapshot_id s) = []
              then bt_insert (re_snapshot_id s) OutsideRetention ds else ds) ds ss) i \<noteq> None
    \<longleftrightarrow> bt_get ds i \<noteq> None \<or> i \<in> re_snapshot_id ` set ss \<and> reasons_of rs i = {}" for ds
    by (induction ss arbitrary: ds) auto
  then show ?thesis by (simp add: outside_retention_def)
qed

definition pruned :: "delete_map \<Rightarrow> string \<Rightarrow> bool" where
  "pruned ds i \<longleftrightarrow> bt_get ds i \<noteq> None"

lemma pruned_insert [simp]: "pruned (bt_insert k w ds) i \<longleftrightarrow> i = k \<or> pruned ds i"
  by (simp add: pruned_def)

lemma pressure_loop_Cons:
  "pressure_loop t w (s # ss) (rs, ds, pl) =
     (if t \<le> pl then (rs, ds, pl)
      else if pruned ds (re_snapshot_id s) then pressure_loop t w ss (rs, ds, pl)
      else if has_hard rs (re_snapshot_id s)
      then pressure_loop t w ss (bt_insert (re_snapshot_id s) (bt_get_or [] rs (re_snapshot_id s)) rs, ds, pl)
      else pressure_loop t w ss (bt_insert (re_snapshot_id s) [] rs, bt_insert (re_snapshot_id s) w ds,
             sat_add pl (re_estimated_size s)))"
  by (simp add: pruned_def Let_def)

lemma pressure_loop_keeps:
  assumes "pressure_loop t w xs (rs, ds, pl) = (rs', ds', pl')"
  shows "has_hard rs' i = has_hard rs i" "pruned ds i \<Longrightarrow> pruned ds' i"
    "\<not> pruned ds i \<Longrightarrow> pruned ds' i \<Longrightarrow> \<not> has_hard rs i"
proof -
  have "has_hard rs' i = has_hard rs i \<and> (pruned ds i \<longrightarrow> pruned ds' i)
      \<and> (\<not> pruned ds i \<longrightarrow> pruned ds' i \<longrightarrow> \<not> has_hard rs i)"
    using assms
  proof (induction xs arbitrary: rs ds pl)
    case (Cons s ss)
    let ?k = "re_snapshot_id s"
    obtain rs1 ds1 pl1 where step: "has_hard rs1 i = has_hard rs i" "pruned ds i \<Longrightarrow> pruned ds1 i"
      "\<not> pruned ds i \<Longrightarrow> pruned ds1 i \<Longrightarrow> \<not> has_hard rs i"
      and rec: "pressure_loop t w ss (rs1, ds1, pl1) = (rs', ds', pl') \<or> (rs1, ds1, pl1) = (rs', ds', pl')"
    proof (cases "t \<le> pl \<or> pruned ds ?k")
      case True
      then show ?thesis using Cons.prems
        by (intro that [of rs ds pl]) (auto simp: pressure_loop_Cons simp del: pressure_loop.simps split: if_splits)
    next
      case f: False
      show ?thesis
      proof (cases "has_hard rs ?k")
        case True
        then show ?thesis using Cons.prems f
          by (intro that [of "bt_insert ?k (bt_get_or [] rs ?k) rs" ds pl])
            (auto simp: pressure_loop_Cons simp del: pressure_loop.simps)
      next
        case False
        then show ?thesis using Cons.prems f
          by (intro that [of "bt_insert ?k [] rs" "bt_insert ?k w ds" "sat_add pl (re_estimated_size s)"])
            (auto simp: pressure_loop_Cons simp del: pressure_loop.simps)
      qed
    qed
    from rec show ?case
    proof
      assume "pressure_loop t w ss (rs1, ds1, pl1) = (rs', ds', pl')"
      from Cons.IH [OF this] step show ?thesis by blast
    next
      assume "(rs1, ds1, pl1) = (rs', ds', pl')"
      with step show ?thesis by simp
    qed
  qed simp
  then show "has_hard rs' i = has_hard rs i" "pruned ds i \<Longrightarrow> pruned ds' i"
    "\<not> pruned ds i \<Longrightarrow> pruned ds' i \<Longrightarrow> \<not> has_hard rs i" by blast+
qed

lemma pressure_loop_exhausts:
  assumes "pressure_loop t w xs (rs, ds, pl) = (rs', ds', pl')" "pl' < t" "s \<in> set xs"
  shows "pruned ds' (re_snapshot_id s) \<or> has_hard rs' (re_snapshot_id s)"
  using assms
proof (induction xs arbitrary: rs ds pl)
  case (Cons x xs)
  obtain rs1 ds1 pl1 where rec: "pressure_loop t w xs (rs1, ds1, pl1) = (rs', ds', pl')"
    and x: "pruned ds1 (re_snapshot_id x) \<or> has_hard rs1 (re_snapshot_id x)"
    using Cons.prems(1,2)
    by (fastforce simp: pressure_loop_Cons simp del: pressure_loop.simps split: if_splits)
  show ?case
    using Cons.IH [OF rec Cons.prems(2)] Cons.prems(3) x pressure_loop_keeps(1,2) [OF rec] by auto
qed simp

text \<open>What the plan deletes, in terms of the reasons before the pressure loop.\<close>

definition plan_reasons :: "pruning_plan_input \<Rightarrow> reason_map" where
  "plan_reasons i = retention_reasons (pi_snapshots i) (pi_policy i) (pi_canonical_latest i)
     (pi_handoff_protections i) (pi_now i)"

lemma set_oldest_first [simp]: "set (oldest_first ss) = set ss"
  by (simp add: oldest_first_def)

lemma plan_state_spec:
  assumes "plan_state i = (rs, ds, pl)"
  shows "pruned ds k \<Longrightarrow> \<not> has_hard (plan_reasons i) k"
    "k \<in> re_snapshot_id ` set (pi_snapshots i) \<Longrightarrow> \<not> pruned ds k \<Longrightarrow> reasons_of (plan_reasons i) k \<noteq> {}"
    "has_hard rs k = has_hard (plan_reasons i) k"
    "pl < max (quota_overage i) (hard_stop_deficit i) \<Longrightarrow> s \<in> set (pi_snapshots i) \<Longrightarrow>
       pruned ds (re_snapshot_id s) \<or> has_hard rs (re_snapshot_id s)"
proof -
  define ds0 where "ds0 = outside_retention (pi_snapshots i) (plan_reasons i)"
  define pl0 where "pl0 = planned_reclaim_bytes (pi_snapshots i) (bt_keys ds0)"
  let ?t = "max (quota_overage i) (hard_stop_deficit i)"
  obtain w where st: "if pl0 < ?t
      then pressure_loop ?t w (oldest_first (pi_snapshots i)) (plan_reasons i, ds0, pl0) = (rs, ds, pl)
      else (rs, ds, pl) = (plan_reasons i, ds0, pl0)"
    using assms by (auto simp: plan_state_def Let_def plan_reasons_def [symmetric] ds0_def [symmetric]
        pl0_def [symmetric] split: if_splits)
  have d0: "pruned ds0 k \<longleftrightarrow> k \<in> re_snapshot_id ` set (pi_snapshots i) \<and> reasons_of (plan_reasons i) k = {}" for k
    unfolding pruned_def ds0_def by (rule outside_retention_get)
  have h0: "pruned ds0 k \<Longrightarrow> \<not> has_hard (plan_reasons i) k" by (simp add: d0 has_hard_def)
  show "pruned ds k \<Longrightarrow> \<not> has_hard (plan_reasons i) k"
    using st h0 pressure_loop_keeps(3) by (metis prod.inject)
  show "k \<in> re_snapshot_id ` set (pi_snapshots i) \<Longrightarrow> \<not> pruned ds k \<Longrightarrow> reasons_of (plan_reasons i) k \<noteq> {}"
    using st d0 pressure_loop_keeps(2) by (metis prod.inject)
  show "has_hard rs k = has_hard (plan_reasons i) k"
    using st pressure_loop_keeps(1) by (metis prod.inject)
  show "pl < ?t \<Longrightarrow> s \<in> set (pi_snapshots i) \<Longrightarrow>
       pruned ds (re_snapshot_id s) \<or> has_hard rs (re_snapshot_id s)"
    using st pressure_loop_exhausts by (metis prod.inject set_oldest_first)
qed

lemma decide_sel [simp]:
  "pd_snapshot_id (decide rs ds s) = re_snapshot_id s"
  "pd_estimated_size (decide rs ds s) = re_estimated_size s"
  "is_delete (pd_action (decide rs ds s)) \<longleftrightarrow> pruned ds (re_snapshot_id s)"
  "(case pd_action (decide rs ds s) of Keep reasons \<Rightarrow> list_ex is_hard reasons | Delete _ \<Rightarrow> False)
     \<longleftrightarrow> \<not> pruned ds (re_snapshot_id s) \<and> has_hard rs (re_snapshot_id s)"
  by (cases "bt_get ds (re_snapshot_id s)";
      simp add: decide_def pruned_def list_ex_iff has_hard_def reasons_of_def)+

lemma plan_sel:
  assumes "plan_state i = (rs, ds, pl)"
  shows "pp_decisions (plan_snapshot_pruning i) = map (decide rs ds) (pi_snapshots i)"
    "pp_planned_reclaim (plan_snapshot_pruning i) = pl"
    "pp_target_reclaim (plan_snapshot_pruning i) = max (quota_overage i) (hard_stop_deficit i)"
    "pp_warnings (plan_snapshot_pruning i) = plan_warnings i (max (quota_overage i) (hard_stop_deficit i)) pl"
  by (simp_all add: plan_snapshot_pruning_def Let_def assms)

lemma plan_decisions:
  assumes "plan_state i = (rs, ds, pl)"
  shows "k \<in> set (delete_snapshot_ids (plan_snapshot_pruning i))
      \<longleftrightarrow> k \<in> re_snapshot_id ` set (pi_snapshots i) \<and> pruned ds k"
    "k \<in> set (protected_snapshot_ids (plan_snapshot_pruning i))
      \<longleftrightarrow> k \<in> re_snapshot_id ` set (pi_snapshots i) \<and> \<not> pruned ds k \<and> has_hard rs k"
  unfolding delete_snapshot_ids_def protected_snapshot_ids_def plan_sel [OF assms]
  by (auto simp: image_iff)

section \<open>Sample data\<close>

definition ex_entry_of :: "string \<Rightarrow> string option \<Rightarrow> int \<Rightarrow> snapshot_retention_entry" where
  "ex_entry_of i p n = \<lparr>re_snapshot_id = i, re_parent_snapshot_id = p, re_sequence_number = n,
     re_pinned = False, re_created_at = 100, re_estimated_size = 10\<rparr>"

definition ex_plan_input :: pruning_plan_input where
  "ex_plan_input = \<lparr>pi_snapshots = [ex_entry_of ''a'' None 1, ex_entry_of ''b'' (Some ''a'') 2, ex_entry_of ''c'' None 3],
     pi_policy = default_retention_policy\<lparr>rp_hot_snapshot_count := 0, rp_hourly_thinning_hours := 0,
        rp_daily_thinning_days := 0\<rparr>, pi_scope = DeviceCache, pi_canonical_latest = Some ''c'',
     pi_handoff_protections = [], pi_current_usage = 30, pi_free_disk = 2 ^ 40, pi_now = 1000000\<rparr>"

lemma ex_plan: "delete_snapshot_ids (plan_snapshot_pruning ex_plan_input) = [''a'', ''b'']"
  by (simp add: delete_snapshot_ids_def plan_snapshot_pruning_def plan_state_def ex_plan_input_def
      ex_entry_of_def default_retention_policy_def retention_reasons_def add_all_def add_reason_def
      protect_retained_parents_def parent_map_def parent_of_def quota_overage_def hard_stop_deficit_def
      mib_to_bytes_def sat_mul_def sat_sub_def outside_retention_def bt_keys_def planned_reclaim_bytes_def
      decide_def bt_get_or_def bt_get_def seconds_per_hour_def seconds_per_day_def Let_def
      del: reasons_of_empty)

section \<open>Properties\<close>

text \<open>
  C15. Hard retention rules are never broken: a plan deletes neither the canonical latest
  snapshot, nor a pinned one, nor one under an unexpired handoff protection, whatever the quota
  and disk pressure, and no snapshot is both deleted and reported as protected.
\<close>

theorem retention_protects:
  assumes del: "k \<in> set (delete_snapshot_ids (plan_snapshot_pruning i))"
  shows "pi_canonical_latest i \<noteq> Some k
    \<and> (\<forall>s\<in>set (pi_snapshots i). re_snapshot_id s = k \<longrightarrow> \<not> re_pinned s)
    \<and> (\<forall>p\<in>set (pi_handoff_protections i). hp_snapshot_id p = k \<longrightarrow> hp_protect_until p < pi_now i)
    \<and> k \<notin> set (protected_snapshot_ids (plan_snapshot_pruning i))"
proof -
  obtain rs ds pl where st: "plan_state i = (rs, ds, pl)" by (cases "plan_state i")
  have "pruned ds k" using del plan_decisions(1) [OF st] by simp
  moreover from this have "\<not> has_hard (plan_reasons i) k" by (rule plan_state_spec(1) [OF st])
  ultimately show ?thesis
    using plan_decisions(2) [OF st]
      hard_reasons [of k k "pi_canonical_latest i" "pi_snapshots i" "pi_handoff_protections i" "pi_now i"
        "pi_policy i"]
    by (auto simp: has_hard_def plan_reasons_def not_le [symmetric])
qed

theorem retention_protects_witness:
  "''b'' \<in> set (delete_snapshot_ids (plan_snapshot_pruning ex_plan_input))
   \<and> ''b'' \<notin> set (protected_snapshot_ids (plan_snapshot_pruning ex_plan_input))"
  using retention_protects [of "''b''" ex_plan_input] by (simp add: ex_plan)

text \<open>
  A retained snapshot keeps its history: when a plan deletes a snapshot, it also deletes
  every listed snapshot whose parent it is, so no kept snapshot loses an ancestor.
\<close>

theorem retention_keeps_ancestors:
  assumes dis: "distinct (map re_snapshot_id (pi_snapshots i))"
    and s: "s \<in> set (pi_snapshots i)" and p: "re_parent_snapshot_id s = Some p"
    and del: "p \<in> set (delete_snapshot_ids (plan_snapshot_pruning i))"
  shows "re_snapshot_id s \<in> set (delete_snapshot_ids (plan_snapshot_pruning i))"
proof (rule ccontr)
  assume kept: "re_snapshot_id s \<notin> set (delete_snapshot_ids (plan_snapshot_pruning i))"
  obtain rs ds pl where st: "plan_state i = (rs, ds, pl)" by (cases "plan_state i")
  have "\<not> pruned ds (re_snapshot_id s)" using kept s plan_decisions(1) [OF st] by auto
  then have "reasons_of (plan_reasons i) (re_snapshot_id s) \<noteq> {}"
    using plan_state_spec(2) [OF st] s by auto
  moreover have "parent_of (parent_map (pi_snapshots i)) (re_snapshot_id s) = Some p"
    using parent_map_get [OF dis s] p by (simp add: parent_of_def)
  ultimately have "RetainedParent \<in> reasons_of (plan_reasons i) p"
    unfolding plan_reasons_def retention_reasons_def Let_def by (rule retained_closed)
  then have "has_hard (plan_reasons i) p" by (auto simp: has_hard_def intro: bexI [of _ RetainedParent])
  moreover have "pruned ds p" using del plan_decisions(1) [OF st] by simp
  ultimately show False using plan_state_spec(1) [OF st] by simp
qed

theorem retention_keeps_ancestors_witness:
  "re_snapshot_id (ex_entry_of ''b'' (Some ''a'') 2)
     \<in> set (delete_snapshot_ids (plan_snapshot_pruning ex_plan_input))"
  by (rule retention_keeps_ancestors [of _ _ "''a''"])
    (simp_all add: ex_plan, simp_all add: ex_plan_input_def ex_entry_of_def)

text \<open>
  The planner gives up only when nothing else may go: if it plans to reclaim less than its
  target, it says so in a warning, and every listed snapshot is either deleted or protected by
  a hard rule.
\<close>

theorem retention_exhausts:
  assumes low: "pp_planned_reclaim (plan_snapshot_pruning i) < pp_target_reclaim (plan_snapshot_pruning i)"
  shows "(\<exists>msg. (InsufficientReclaimableSnapshots, msg) \<in> set (pp_warnings (plan_snapshot_pruning i)))
    \<and> re_snapshot_id ` set (pi_snapshots i)
       = set (delete_snapshot_ids (plan_snapshot_pruning i)) \<union> set (protected_snapshot_ids (plan_snapshot_pruning i))"
proof -
  obtain rs ds pl where st: "plan_state i = (rs, ds, pl)" by (cases "plan_state i")
  have l: "pl < max (quota_overage i) (hard_stop_deficit i)" using low by (simp add: plan_sel [OF st])
  have "pruned ds (re_snapshot_id s) \<or> has_hard rs (re_snapshot_id s)" if "s \<in> set (pi_snapshots i)" for s
    using plan_state_spec(4) [OF st l that] .
  then have "re_snapshot_id ` set (pi_snapshots i)
       = set (delete_snapshot_ids (plan_snapshot_pruning i)) \<union> set (protected_snapshot_ids (plan_snapshot_pruning i))"
    using plan_decisions [OF st] by blast
  moreover have "\<exists>msg. (InsufficientReclaimableSnapshots, msg) \<in> set (pp_warnings (plan_snapshot_pruning i))"
    using l by (simp add: plan_sel [OF st] plan_warnings_def)
  ultimately show ?thesis by simp
qed

definition ex_full_input :: pruning_plan_input where
  "ex_full_input = ex_plan_input\<lparr>pi_free_disk := 0\<rparr>"

theorem retention_exhausts_witness:
  "\<exists>msg. (InsufficientReclaimableSnapshots, msg) \<in> set (pp_warnings (plan_snapshot_pruning ex_full_input))"
proof -
  have "pp_planned_reclaim (plan_snapshot_pruning ex_full_input)
      < pp_target_reclaim (plan_snapshot_pruning ex_full_input)"
    by (simp add: plan_snapshot_pruning_def plan_state_def ex_full_input_def ex_plan_input_def
      ex_entry_of_def default_retention_policy_def retention_reasons_def add_all_def add_reason_def
      protect_retained_parents_def parent_map_def parent_of_def quota_overage_def hard_stop_deficit_def
      mib_to_bytes_def sat_mul_def sat_sub_def sat_add_def outside_retention_def bt_keys_def planned_reclaim_bytes_def
      decide_def bt_get_or_def bt_get_def seconds_per_hour_def seconds_per_day_def Let_def
      oldest_first_def del: reasons_of_empty)
  then show ?thesis using retention_exhausts [of ex_full_input] by blast
qed

end
