(* ===== verification/Snapshot_Store.thy ===== *)
theory Snapshot_Store
  imports Publish_Safety Retention
begin

text \<open>
  The local snapshot store, \<open>crates/devrelay-core/src/snapshot_store.rs\<close>: storing a snapshot
  with its fault points, reading the history, and carrying out a pruning plan. The git commands
  that import objects and delete refs are parameters, each with the result it reports.
\<close>

section \<open>Storing\<close>

datatype store_fault = AfterSnapshotObjectImport | DuringMetadataTransaction | AfterSourceIndexRefDelete

fun store_fault_as_str :: "store_fault \<Rightarrow> string" where
  "store_fault_as_str AfterSnapshotObjectImport = ''after-snapshot-object-import''"
| "store_fault_as_str DuringMetadataTransaction = ''during-metadata-transaction''"
| "store_fault_as_str AfterSourceIndexRefDelete = ''after-source-index-ref-delete''"

definition inject_store_fault :: "store_fault option \<Rightarrow> store_fault \<Rightarrow> unit result" where
  "inject_store_fault configured fault =
     (if configured = Some fault
      then Inl (Config (''injected fault at '' @ store_fault_as_str fault)) else Inr ())"

text \<open>
  \<open>INSERT OR IGNORE INTO sessions\<close> with the columns' defaults: no name, which reads as
  \<open>Default\<close>, and the current time. The foreign key to the project holds, since the same
  transaction has just inserted it.
\<close>

definition insert_or_ignore_session :: "u64 \<Rightarrow> string \<Rightarrow> string \<Rightarrow> metadata_db \<Rightarrow> metadata_db" where
  "insert_or_ignore_session now session_id project_id db =
     (if session_id \<in> ss_session_id ` set (db_sessions db) then db
      else db\<lparr>db_sessions := db_sessions db @ [\<lparr>ss_session_id = session_id, ss_project_id = project_id,
             ss_name = ''Default'', ss_parent_session_id = None, ss_active_workspace_id = None,
             ss_state = SessFork, ss_archived_at = None, ss_created_at = now, ss_updated_at = now\<rparr>]\<rparr>)"

definition store_insert_snapshot ::
    "store_fault option \<Rightarrow> u64 \<Rightarrow> snapshot_metadata \<Rightarrow> bool \<Rightarrow> string option
      \<Rightarrow> metadata_db \<Rightarrow> metadata_db \<times> stored_snapshot result" where
  "store_insert_snapshot fault now m pinned label = run_tx (\<lambda>db.
     let db1 = upsert_project_name (sm_project_id m) (sm_project_name m) db in
     bind_r (inject_store_fault fault DuringMetadataTransaction) (\<lambda>_.
     let db2 = (case sm_session_id m of None \<Rightarrow> db1
                | Some s \<Rightarrow> insert_or_ignore_session now s (sm_project_id m) db1);
         snapshot = stored_snapshot_of m (sm_session_id m) (next_sequence (sm_project_id m) db2) pinned label
     in bind_r (insert_snapshot_row snapshot db2) (\<lambda>db3. Inr (db3, Inr snapshot))))"

text \<open>The store reads the creation time with \<open>as u64\<close>, so its reader keeps the row.\<close>

definition store_list_snapshots :: "string \<Rightarrow> metadata_db \<Rightarrow> stored_snapshot list" where
  "store_list_snapshots project db =
     sql_query (\<lambda>r. sn_project_id r = project) sn_sequence_number (db_snapshots db)"

definition store_get_snapshot :: "string \<Rightarrow> string \<Rightarrow> metadata_db \<Rightarrow> stored_snapshot result" where
  "store_get_snapshot project snapshot_id db =
     (case find (\<lambda>r. sn_project_id r = project \<and> sn_snapshot_id r = snapshot_id) (db_snapshots db) of
        None \<Rightarrow> Inl (Config (''unknown snapshot '' @ snapshot_id))
      | Some r \<Rightarrow> Inr r)"

definition store_latest_snapshot :: "string \<Rightarrow> metadata_db \<Rightarrow> stored_snapshot option" where
  "store_latest_snapshot project db =
     sql_first (\<lambda>r. sn_project_id r = project) (\<lambda>r. - sn_sequence_number r) (db_snapshots db)"

record git_effects =
  ge_import :: "snapshot_metadata \<Rightarrow> unit result"
  ge_delete_index_ref :: "snapshot_metadata \<Rightarrow> unit result"
  ge_delete_work_ref :: "snapshot_metadata \<Rightarrow> unit result"

definition remove_source_snapshot_refs ::
    "git_effects \<Rightarrow> store_fault option \<Rightarrow> snapshot_metadata \<Rightarrow> unit result" where
  "remove_source_snapshot_refs git fault m =
     bind_r (ge_delete_index_ref git m) (\<lambda>_.
     bind_r (inject_store_fault fault AfterSourceIndexRefDelete) (\<lambda>_.
     ge_delete_work_ref git m))"

definition store_snapshot ::
    "git_effects \<Rightarrow> string \<Rightarrow> store_fault option \<Rightarrow> u64 \<Rightarrow> snapshot_metadata \<Rightarrow> bool \<Rightarrow> string option
      \<Rightarrow> metadata_db \<Rightarrow> metadata_db \<times> stored_snapshot result" where
  "store_snapshot git project fault now m pinned label db =
     (if sm_project_id m \<noteq> project
      then (db, Inl (Config (''snapshot project_id '' @ sm_project_id m
              @ '' does not match store project_id '' @ project)))
      else case bind_r (validate_metadata m) (\<lambda>_. bind_r (ge_import git m)
                  (\<lambda>_. inject_store_fault fault AfterSnapshotObjectImport)) of
        Inl e \<Rightarrow> (db, Inl e)
      | Inr _ \<Rightarrow>
          let m' = (if sm_parent_snapshot_id m = None
                    then m\<lparr>sm_parent_snapshot_id := map_option sn_snapshot_id (store_latest_snapshot project db)\<rparr>
                    else m);
              (db', r) = store_insert_snapshot fault now m' pinned label db
          in (db', bind_r r (\<lambda>stored.
                bind_r (remove_source_snapshot_refs git fault (sn_metadata stored)) (\<lambda>_. Inr stored))))"

datatype checkpoint_result = CkCreated stored_snapshot | CkUnchanged string string

text \<open>
  \<open>checkpoint_if_changed\<close>, with the captured metadata as an argument: the capture itself runs git
  over the working tree.
\<close>

definition checkpoint_if_changed ::
    "git_effects \<Rightarrow> string \<Rightarrow> store_fault option \<Rightarrow> u64 \<Rightarrow> snapshot_metadata \<Rightarrow> bool \<Rightarrow> string option
      \<Rightarrow> metadata_db \<Rightarrow> metadata_db \<times> checkpoint_result result" where
  "checkpoint_if_changed git project fault now m pinned label db =
     (let create = (let (db', r) = store_snapshot git project fault now m pinned label db
                    in (db', bind_r r (\<lambda>s. Inr (CkCreated s))))
      in case store_latest_snapshot project db of
           Some latest \<Rightarrow>
             if sm_state_hash (sn_metadata latest) = sm_state_hash m
             then (db, bind_r (remove_source_snapshot_refs git None m)
                     (\<lambda>_. Inr (CkUnchanged (sn_snapshot_id latest) (sm_state_hash m))))
             else create
         | None \<Rightarrow> create)"

section \<open>Pruning\<close>

record snapshot_prune_result =
  pr_deleted_snapshot_ids :: "string list"
  pr_reclaimed_bytes :: u64

definition snapshot_has_children :: "string \<Rightarrow> string \<Rightarrow> metadata_db \<Rightarrow> bool" where
  "snapshot_has_children project snapshot_id db =
     list_ex (\<lambda>r. sn_project_id r = project \<and> sn_parent_snapshot_id r = Some snapshot_id) (db_snapshots db)"

text \<open>
  \<open>DELETE FROM snapshots WHERE ... AND pinned = 0\<close>; the foreign key of \<open>parent_snapshot_id\<close>
  refuses it while a remaining row refers to the deleted one.
\<close>

definition delete_snapshot_row :: "string \<Rightarrow> string \<Rightarrow> metadata_db \<Rightarrow> (metadata_db \<times> nat) result" where
  "delete_snapshot_row project snapshot_id db =
     (let P = (\<lambda>r. sn_project_id r = project \<and> sn_snapshot_id r = snapshot_id \<and> \<not> sn_pinned r);
          rest = filter (\<lambda>r. \<not> P r) (db_snapshots db);
          gone = filter P (db_snapshots db)
      in if list_ex (\<lambda>r. case sn_parent_snapshot_id r of None \<Rightarrow> False
                     | Some p \<Rightarrow> p \<in> sn_snapshot_id ` set gone) rest
         then Inl sqlite_foreign_key_violation
         else Inr (db\<lparr>db_snapshots := rest\<rparr>, length gone))"

definition prune_one ::
    "git_effects \<Rightarrow> string \<Rightarrow> string option \<Rightarrow> string \<Rightarrow> metadata_db \<Rightarrow> metadata_db result" where
  "prune_one git project latest snapshot_id db =
     bind_r (store_get_snapshot project snapshot_id db) (\<lambda>stored.
     if sn_pinned stored
     then Inl (Config (''refusing to prune pinned snapshot '' @ sn_snapshot_id stored))
     else if latest = Some (sn_snapshot_id stored)
     then Inl (Config (''refusing to prune latest snapshot '' @ sn_snapshot_id stored))
     else if snapshot_has_children project (sn_snapshot_id stored) db
     then Inl (Config (''refusing to prune snapshot '' @ sn_snapshot_id stored
            @ '' while child snapshots still reference it''))
     else bind_r (ge_delete_index_ref git (sn_metadata stored)) (\<lambda>_.
          bind_r (ge_delete_work_ref git (sn_metadata stored)) (\<lambda>_.
          bind_r (delete_snapshot_row project (sn_snapshot_id stored) db) (\<lambda>(db', n).
          if n = 0
          then Inl (Config (''snapshot '' @ sn_snapshot_id stored @ '' metadata was not pruned''))
          else Inr db'))))"

fun prune_loop ::
    "git_effects \<Rightarrow> string \<Rightarrow> string option \<Rightarrow> pruning_decision list \<Rightarrow> string list \<Rightarrow> u64
      \<Rightarrow> metadata_db \<Rightarrow> metadata_db \<times> snapshot_prune_result result" where
  "prune_loop git project latest [] deleted reclaimed db =
     (db, Inr \<lparr>pr_deleted_snapshot_ids = deleted, pr_reclaimed_bytes = reclaimed\<rparr>)"
| "prune_loop git project latest (d # ds) deleted reclaimed db =
     (if \<not> is_delete (pd_action d) then prune_loop git project latest ds deleted reclaimed db
      else case prune_one git project latest (pd_snapshot_id d) db of
        Inl e \<Rightarrow> (db, Inl e)
      | Inr db' \<Rightarrow> prune_loop git project latest ds (deleted @ [pd_snapshot_id d])
                    (sat_add reclaimed (pd_estimated_size d)) db')"

definition prune_snapshots ::
    "git_effects \<Rightarrow> string \<Rightarrow> pruning_plan \<Rightarrow> metadata_db \<Rightarrow> metadata_db \<times> snapshot_prune_result result" where
  "prune_snapshots git project plan db =
     prune_loop git project (map_option sn_snapshot_id (store_latest_snapshot project db))
       (pp_decisions plan) [] 0 db"

section \<open>Effects\<close>

lemma store_get_InrD:
  "store_get_snapshot project i db = Inr r \<Longrightarrow>
     r \<in> set (db_snapshots db) \<and> sn_project_id r = project \<and> sn_snapshot_id r = i"
  by (auto simp: store_get_snapshot_def find_Some_iff split: option.splits)

lemma prune_one_InrD:
  assumes "prune_one git project latest i db = Inr db'"
  shows "\<exists>r. r \<in> set (db_snapshots db) \<and> sn_project_id r = project \<and> sn_snapshot_id r = i
    \<and> \<not> sn_pinned r \<and> latest \<noteq> Some i
    \<and> (\<forall>q\<in>set (db_snapshots db). sn_project_id q = project \<longrightarrow> sn_parent_snapshot_id q \<noteq> Some i)
    \<and> db' = db\<lparr>db_snapshots := filter (\<lambda>r. \<not> (sn_project_id r = project \<and> sn_snapshot_id r = i \<and> \<not> sn_pinned r))
         (db_snapshots db)\<rparr>
    \<and> (\<forall>q\<in>set (db_snapshots db'). sn_parent_snapshot_id q \<noteq> Some i)"
proof -
  obtain r n where r: "store_get_snapshot project i db = Inr r" "\<not> sn_pinned r" "latest \<noteq> Some (sn_snapshot_id r)"
    "\<not> snapshot_has_children project (sn_snapshot_id r) db"
    and del: "delete_snapshot_row project (sn_snapshot_id r) db = Inr (db', n)"
    using assms by (auto simp: prune_one_def tx_simps)
  note rm = store_get_InrD [OF r(1)]
  let ?P = "\<lambda>r. sn_project_id r = project \<and> sn_snapshot_id r = i \<and> \<not> sn_pinned r"
  have db': "db' = db\<lparr>db_snapshots := filter (\<lambda>r. \<not> ?P r) (db_snapshots db)\<rparr>"
    and fk: "\<not> list_ex (\<lambda>q. case sn_parent_snapshot_id q of None \<Rightarrow> False
         | Some p \<Rightarrow> p \<in> sn_snapshot_id ` set (filter ?P (db_snapshots db))) (filter (\<lambda>r. \<not> ?P r) (db_snapshots db))"
    using del rm by (auto simp: delete_snapshot_row_def Let_def split: if_splits)
  have "i \<in> sn_snapshot_id ` set (filter ?P (db_snapshots db))" using rm r(2) by force
  then have "\<forall>q\<in>set (db_snapshots db'). sn_parent_snapshot_id q \<noteq> Some i"
    using fk by (auto simp: db' list_ex_iff split: option.splits)
  moreover have "\<forall>q\<in>set (db_snapshots db). sn_project_id q = project \<longrightarrow> sn_parent_snapshot_id q \<noteq> Some i"
    using r(4) rm by (auto simp: snapshot_has_children_def list_ex_iff)
  ultimately show ?thesis using rm r db' by blast
qed

lemma history_filter:
  assumes "history_from seen xs"
    and "\<And>q r. q \<in> set (seen @ xs) \<Longrightarrow> \<not> P q \<Longrightarrow> r \<in> set xs \<Longrightarrow> P r \<Longrightarrow>
      sn_parent_snapshot_id r \<noteq> Some (sn_snapshot_id q)"
  shows "history_from (filter P seen) (filter P xs)"
  using assms
proof (induction xs arbitrary: seen)
  case (Cons r xs)
  have e: "extends_history seen r" and h: "history_from (seen @ [r]) xs" using Cons.prems(1) by auto
  have rec: "history_from (filter P (seen @ [r])) (filter P xs)"
    by (rule Cons.IH [OF h]) (use Cons.prems(2) in auto)
  show ?case
  proof (cases "P r")
    case True
    have "extends_history (filter P seen) r"
      unfolding extends_history_def
    proof (intro conjI ballI)
      show "case sn_parent_snapshot_id r of None \<Rightarrow> True
          | Some p \<Rightarrow> p = sn_snapshot_id r \<or> p \<in> sn_snapshot_id ` set (filter P seen)"
      proof (cases "sn_parent_snapshot_id r")
        case (Some p)
        then consider "p = sn_snapshot_id r" | q where "q \<in> set seen" "sn_snapshot_id q = p"
          using e by (auto simp: extends_history_def)
        then show ?thesis
        proof cases
          case 2
          then have "P q" using Cons.prems(2) [of q r] Some True by auto
          with 2 Some show ?thesis by auto
        qed (use Some in simp)
      qed simp
    qed (use e in \<open>auto simp: extends_history_def\<close>)
    with rec True show ?thesis by simp
  next
    case False
    with rec show ?thesis by simp
  qed
qed simp

lemma prune_one_inv:
  assumes I: "snapshot_inv db" and run: "prune_one git project latest i db = Inr db'"
  shows "snapshot_inv db'"
proof -
  let ?P = "\<lambda>r. \<not> (sn_project_id r = project \<and> sn_snapshot_id r = i \<and> \<not> sn_pinned r)"
  from prune_one_InrD [OF run] have db': "db' = db\<lparr>db_snapshots := filter ?P (db_snapshots db)\<rparr>"
    and np: "\<forall>q\<in>set (db_snapshots db'). sn_parent_snapshot_id q \<noteq> Some i" by blast+
  have "history_from (filter ?P []) (filter ?P (db_snapshots db))"
    by (rule history_filter) (use I np in \<open>auto simp: snapshot_inv_def db'\<close>)
  then show ?thesis by (simp add: snapshot_inv_def db')
qed

text \<open>
  What any run of the prune loop keeps, whether it ends well or stops at an error: the other
  tables, pinned snapshots, the latest one and every snapshot with a kept child.
\<close>

definition prunes_to :: "string \<Rightarrow> string option \<Rightarrow> metadata_db \<Rightarrow> metadata_db \<Rightarrow> bool" where
  "prunes_to project latest db db' \<longleftrightarrow>
     db' = db\<lparr>db_snapshots := db_snapshots db'\<rparr>
     \<and> set (db_snapshots db') \<subseteq> set (db_snapshots db)
     \<and> (\<forall>r\<in>set (db_snapshots db). r \<notin> set (db_snapshots db') \<longrightarrow>
          sn_project_id r = project \<and> \<not> sn_pinned r \<and> latest \<noteq> Some (sn_snapshot_id r)
          \<and> (\<forall>q\<in>set (db_snapshots db'). sn_parent_snapshot_id q \<noteq> Some (sn_snapshot_id r)))"

lemma prunes_to_refl: "prunes_to project latest db db"
  by (simp add: prunes_to_def)

lemma prunes_to_trans:
  assumes ab: "prunes_to p l a b" and bc: "prunes_to p l b c"
  shows "prunes_to p l a c"
  unfolding prunes_to_def
proof (intro conjI ballI impI)
  have "c = b\<lparr>db_snapshots := db_snapshots c\<rparr>" using bc unfolding prunes_to_def by (elim conjE)
  also have "b = a\<lparr>db_snapshots := db_snapshots b\<rparr>" using ab unfolding prunes_to_def by (elim conjE)
  finally show "c = a\<lparr>db_snapshots := db_snapshots c\<rparr>" by simp
next
  show "set (db_snapshots c) \<subseteq> set (db_snapshots a)"
    using ab bc unfolding prunes_to_def by (elim conjE) (rule subset_trans)
next
  fix r assume r: "r \<in> set (db_snapshots a)" "r \<notin> set (db_snapshots c)"
  have sub: "set (db_snapshots c) \<subseteq> set (db_snapshots b)" using bc unfolding prunes_to_def by blast
  have "sn_project_id r = p \<and> \<not> sn_pinned r \<and> l \<noteq> Some (sn_snapshot_id r)
      \<and> (\<forall>q\<in>set (db_snapshots c). sn_parent_snapshot_id q \<noteq> Some (sn_snapshot_id r))"
  proof (cases "r \<in> set (db_snapshots b)")
    case True then show ?thesis using bc r(2) unfolding prunes_to_def by blast
  next
    case False then show ?thesis using ab r(1) sub unfolding prunes_to_def by blast
  qed
  then show "sn_project_id r = p" "\<not> sn_pinned r" "l \<noteq> Some (sn_snapshot_id r)"
    "\<And>q. q \<in> set (db_snapshots c) \<Longrightarrow> sn_parent_snapshot_id q \<noteq> Some (sn_snapshot_id r)"
    by blast+
qed

lemma prune_one_prunes_to:
  "prune_one git project latest i db = Inr db' \<Longrightarrow> prunes_to project latest db db'"
  using prune_one_InrD [of git project latest i db db'] by (auto simp: prunes_to_def)

lemma prune_loop_induct:
  assumes refl: "\<And>a. R a a" and trans: "\<And>a b c. R a b \<Longrightarrow> R b c \<Longrightarrow> R a c"
    and one: "\<And>i a b. i \<in> I \<Longrightarrow> prune_one git project latest i a = Inr b \<Longrightarrow> R a b"
    and planned: "set (map pd_snapshot_id (filter (is_delete \<circ> pd_action) ds)) \<subseteq> I"
    and run: "prune_loop git project latest ds del rc db = (db', r)"
  shows "R db db'"
  using planned run
proof (induction ds arbitrary: del rc db)
  case Nil then show ?case using refl by simp
next
  case (Cons d ds)
  show ?case
  proof (cases "is_delete (pd_action d)")
    case False with Cons show ?thesis by simp
  next
    case del: True
    show ?thesis
    proof (cases "prune_one git project latest (pd_snapshot_id d) db")
      case (Inl e) with Cons.prems del refl show ?thesis by simp
    next
      case (Inr b)
      have "R b db'" by (rule Cons.IH) (use Cons.prems del Inr in auto)
      with one [OF _ Inr] Cons.prems(1) del show ?thesis by (auto intro: trans)
    qed
  qed
qed

lemma prune_loop_prunes_to:
  "prune_loop git project latest ds del rc db = (db', r) \<Longrightarrow> prunes_to project latest db db'"
  by (rule prune_loop_induct [where R = "prunes_to project latest", OF _ _ _ order_refl])
    (blast intro: prunes_to_refl prunes_to_trans prune_one_prunes_to)+

lemma prune_loop_inv:
  "prune_loop git project latest ds del rc db = (db', r) \<Longrightarrow> snapshot_inv db \<longrightarrow> snapshot_inv db'"
  by (rule prune_loop_induct [where R = "\<lambda>a b. snapshot_inv a \<longrightarrow> snapshot_inv b", OF _ _ _ order_refl])
    (blast intro: prune_one_inv)+

lemma prune_snapshots_inv:
  "prune_snapshots git project plan db = (db', r) \<Longrightarrow> snapshot_inv db \<Longrightarrow> snapshot_inv db'"
  using prune_loop_inv unfolding prune_snapshots_def by blast

text \<open>A successful run deleted exactly the ids it reports, in plan order.\<close>

lemma prune_loop_reports:
  "prune_loop git project latest ds del rc db = (db', Inr res) \<Longrightarrow>
     pr_deleted_snapshot_ids res = del @ map pd_snapshot_id (filter (is_delete \<circ> pd_action) ds)
     \<and> (\<forall>i \<in> set (map pd_snapshot_id (filter (is_delete \<circ> pd_action) ds)).
           \<forall>q \<in> set (db_snapshots db'). sn_project_id q = project \<longrightarrow> sn_snapshot_id q \<noteq> i \<or> sn_pinned q)"
proof (induction ds arbitrary: del rc db)
  case (Cons d ds)
  show ?case
  proof (cases "is_delete (pd_action d)")
    case False with Cons show ?thesis by simp
  next
    case del: True
    with Cons.prems obtain b where one: "prune_one git project latest (pd_snapshot_id d) db = Inr b"
      and rest: "prune_loop git project latest ds (del @ [pd_snapshot_id d])
        (sat_add rc (pd_estimated_size d)) b = (db', Inr res)"
      by (auto split: sum.splits)
    from prune_loop_prunes_to [OF rest] have "set (db_snapshots db') \<subseteq> set (db_snapshots b)"
      by (simp add: prunes_to_def)
    moreover from prune_one_InrD [OF one]
    have "\<forall>q\<in>set (db_snapshots b). sn_project_id q = project \<longrightarrow> sn_snapshot_id q \<noteq> pd_snapshot_id d \<or> sn_pinned q"
      by auto
    ultimately show ?thesis using Cons.IH [OF rest] del by auto
  qed
qed auto

lemma prune_loop_planned:
  assumes "prune_loop git project latest ds del rc db = (db', r)"
  shows "\<forall>r\<in>set (db_snapshots db). r \<notin> set (db_snapshots db') \<longrightarrow>
    sn_snapshot_id r \<in> set (map pd_snapshot_id (filter (is_delete \<circ> pd_action) ds))"
  by (rule prune_loop_induct [where R = "\<lambda>a b. \<forall>r\<in>set (db_snapshots a). r \<notin> set (db_snapshots b) \<longrightarrow>
      sn_snapshot_id r \<in> set (map pd_snapshot_id (filter (is_delete \<circ> pd_action) ds))", OF _ _ _ order_refl assms])
    (auto dest!: prune_one_InrD)

lemma store_latest_SomeD:
  "store_latest_snapshot p db = Some r \<Longrightarrow> r \<in> set (db_snapshots db) \<and> sn_project_id r = p
     \<and> (\<forall>q\<in>set (db_snapshots db). sn_project_id q = p \<longrightarrow> sn_sequence_number q \<le> sn_sequence_number r)"
  unfolding store_latest_snapshot_def by (drule sql_first_SomeD) auto

lemma foldl_max_in: "foldl max (n :: int) ns \<in> set (n # ns)"
proof (induction ns arbitrary: n)
  case (Cons m ns)
  from Cons [of "max n m"] show ?case by (auto simp: max_def split: if_splits)
qed simp

lemma next_sequence_max:
  assumes q: "q \<in> set (db_snapshots db)" "sn_project_id q = p"
    and mx: "\<And>r. r \<in> set (db_snapshots db) \<Longrightarrow> sn_project_id r = p \<Longrightarrow> sn_sequence_number r \<le> sn_sequence_number q"
  shows "next_sequence p db = sn_sequence_number q + 1"
proof -
  let ?ns = "map sn_sequence_number (filter (\<lambda>r. sn_project_id r = p) (db_snapshots db))"
  have "sn_sequence_number q \<in> set ?ns" using q by auto
  then obtain n ns where c: "?ns = n # ns" by (cases ?ns) auto
  have "foldl max n ns \<in> set ?ns" unfolding c by (rule foldl_max_in)
  then have "foldl max n ns \<le> sn_sequence_number q" using mx by auto
  moreover have "next_sequence p db = foldl max n ns + 1" by (simp add: next_sequence_def c)
  ultimately show ?thesis using next_sequence_greater [OF q] by simp
qed

lemma prunes_to_next_sequence:
  assumes pr: "prunes_to project (map_option sn_snapshot_id (store_latest_snapshot project db)) db db'"
  shows "next_sequence p db' = next_sequence p db"
proof (cases "store_latest_snapshot p db")
  case None
  then have "\<forall>r\<in>set (db_snapshots db). sn_project_id r \<noteq> p"
    by (simp add: store_latest_snapshot_def sql_first_None_iff)
  moreover have "set (db_snapshots db') \<subseteq> set (db_snapshots db)" using pr by (simp add: prunes_to_def)
  ultimately have "filter (\<lambda>r. sn_project_id r = p) (db_snapshots db) = []"
    "filter (\<lambda>r. sn_project_id r = p) (db_snapshots db') = []" by (auto simp: filter_empty_conv)
  then show ?thesis by (simp add: next_sequence_def)
next
  case (Some l)
  note l = store_latest_SomeD [OF Some]
  have sub: "set (db_snapshots db') \<subseteq> set (db_snapshots db)" using pr by (simp add: prunes_to_def)
  have "l \<in> set (db_snapshots db')" using pr l Some unfolding prunes_to_def by auto
  then have "next_sequence p db' = sn_sequence_number l + 1"
    using l sub by (intro next_sequence_max) auto
  moreover have "next_sequence p db = sn_sequence_number l + 1" using l by (intro next_sequence_max) auto
  ultimately show ?thesis by simp
qed

section \<open>Properties\<close>

text \<open>
  C16. Carrying out any pruning plan, to its end or up to an error, is safe: only unpinned
  snapshots of the store's project named for deletion disappear, never its latest one, so the
  next sequence number of every project is the same afterwards; no kept snapshot refers to a
  deleted parent, the history stays well formed, and no other table changes.
\<close>

theorem prune_is_safe:
  assumes I: "snapshot_inv db" and run: "prune_snapshots git project plan db = (db', r)"
  shows "snapshot_inv db' \<and> db' = db\<lparr>db_snapshots := db_snapshots db'\<rparr>
    \<and> set (db_snapshots db') \<subseteq> set (db_snapshots db)
    \<and> (\<forall>s\<in>set (db_snapshots db) - set (db_snapshots db').
         sn_project_id s = project \<and> \<not> sn_pinned s \<and> sn_snapshot_id s \<in> set (delete_snapshot_ids plan)
         \<and> store_latest_snapshot project db \<noteq> Some s
         \<and> (\<forall>q\<in>set (db_snapshots db'). sn_parent_snapshot_id q \<noteq> Some (sn_snapshot_id s)))
    \<and> (\<forall>p. next_sequence p db' = next_sequence p db)"
proof -
  from run have loop: "prune_loop git project (map_option sn_snapshot_id (store_latest_snapshot project db))
      (pp_decisions plan) [] 0 db = (db', r)" by (simp add: prune_snapshots_def)
  note pr = prune_loop_prunes_to [OF loop]
  have "\<forall>s\<in>set (db_snapshots db) - set (db_snapshots db'). sn_snapshot_id s \<in> set (delete_snapshot_ids plan)"
    using prune_loop_planned [OF loop] by (auto simp: delete_snapshot_ids_def comp_def)
  moreover have "snapshot_inv db'" using prune_snapshots_inv [OF run I] .
  moreover have "\<forall>p. next_sequence p db' = next_sequence p db"
    using prunes_to_next_sequence [OF pr] by blast
  ultimately show ?thesis using pr by (auto simp: prunes_to_def)
qed

definition ex_row :: "string \<Rightarrow> string option \<Rightarrow> int \<Rightarrow> stored_snapshot" where
  "ex_row i p n = \<lparr>sn_snapshot_id = i, sn_project_id = ''p1'', sn_session_id = None,
     sn_parent_snapshot_id = p, sn_sequence_number = n, sn_pinned = False, sn_label = None,
     sn_metadata = ex_meta, sn_created_at = 100\<rparr>"

definition ex_store_db :: metadata_db where
  "ex_store_db = empty_db\<lparr>db_projects := [\<lparr>pj_project_id = ''p1'', pj_display_name = ''Demo''\<rparr>],
     db_snapshots := [ex_row ''a'' None 1, ex_row ''b'' (Some ''a'') 2, ex_row ''c'' None 3]\<rparr>"

definition ex_git :: git_effects where
  "ex_git = \<lparr>ge_import = (\<lambda>_. Inr ()), ge_delete_index_ref = (\<lambda>_. Inr ()), ge_delete_work_ref = (\<lambda>_. Inr ())\<rparr>"

definition ex_delete :: "string \<Rightarrow> pruning_decision" where
  "ex_delete i = \<lparr>pd_snapshot_id = i, pd_estimated_size = 10, pd_action = Delete OutsideRetention\<rparr>"

definition ex_prune_plan :: "string list \<Rightarrow> pruning_plan" where
  "ex_prune_plan is = (plan_snapshot_pruning ex_plan_input)\<lparr>pp_decisions := map ex_delete is\<rparr>"

lemma ex_store_inv: "snapshot_inv ex_store_db"
  by (simp add: snapshot_inv_def ex_store_db_def ex_row_def extends_history_def)

lemmas prune_eval = prune_snapshots_def store_latest_snapshot_def sql_first_def sql_query_def ex_store_db_def
  ex_row_def ex_git_def ex_prune_plan_def ex_delete_def prune_one_def store_get_snapshot_def
  snapshot_has_children_def delete_snapshot_row_def sat_add_def

theorem prune_is_safe_witness:
  "\<exists>db' res. prune_snapshots ex_git ''p1'' (ex_prune_plan [''b'', ''a'']) ex_store_db = (db', Inr res)
     \<and> db_snapshots db' = [ex_row ''c'' None 3] \<and> snapshot_inv db' \<and> next_sequence ''p1'' db' = 4"
proof -
  obtain db' res where run:
    "prune_snapshots ex_git ''p1'' (ex_prune_plan [''b'', ''a'']) ex_store_db = (db', Inr res)"
    and rows: "db_snapshots db' = [ex_row ''c'' None 3]"
    by (simp add: prune_eval)
  have "next_sequence ''p1'' ex_store_db = 4" by (simp add: next_sequence_def ex_store_db_def ex_row_def)
  with prune_is_safe [OF ex_store_inv run] rows run show ?thesis by auto
qed

text \<open>
  Pruning goes through the plan in the plan's order and refuses to delete a snapshot while
  a child of it is stored, even one that the same plan deletes later: when the first deletion
  of the plan is such a parent, the run ends with an error and nothing is deleted.
\<close>

theorem prune_parent_first_deletes_nothing:
  assumes plan: "delete_snapshot_ids plan = i # later"
    and child: "q \<in> set (db_snapshots db)" "sn_project_id q = project" "sn_parent_snapshot_id q = Some i"
  shows "\<exists>e. prune_snapshots git project plan db = (db, Inl e)"
proof -
  have one: "\<exists>e. prune_one git project l i db = Inl e" for l
    by (cases "prune_one git project l i db") (use child prune_one_InrD in blast)+
  have "\<exists>e. prune_loop git project l ds del rc db = (db, Inl e)"
    if "map pd_snapshot_id (filter (\<lambda>d. is_delete (pd_action d)) ds) = i # later" for l ds del rc
    using that
  proof (induction ds)
    case (Cons d ds)
    then show ?case using one [of l] by (cases "is_delete (pd_action d)") auto
  qed simp
  then show ?thesis using plan by (simp add: prune_snapshots_def delete_snapshot_ids_def)
qed

theorem prune_parent_first_deletes_nothing_witness:
  "\<exists>e. prune_snapshots ex_git ''p1'' (plan_snapshot_pruning ex_plan_input) ex_store_db = (ex_store_db, Inl e)"
  by (rule prune_parent_first_deletes_nothing [OF ex_plan, of "ex_row ''b'' (Some ''a'') 2"])
    (simp_all add: ex_store_db_def ex_row_def)

text \<open>
  Storing a snapshot.
\<close>

lemma insert_or_ignore_session_sel [simp]:
  "db_snapshots (insert_or_ignore_session now s p db) = db_snapshots db"
  "db_leases (insert_or_ignore_session now s p db) = db_leases db"
  by (simp_all add: insert_or_ignore_session_def)

lemma upsert_project_name_sel [simp]:
  "db_snapshots (upsert_project_name p n db) = db_snapshots db"
  "db_leases (upsert_project_name p n db) = db_leases db"
  by (simp_all add: upsert_project_name_def)

lemma next_sequence_cong: "db_snapshots a = db_snapshots b \<Longrightarrow> next_sequence p a = next_sequence p b"
  by (simp add: next_sequence_def)

lemma store_insert_InlD: "store_insert_snapshot f now m pin lab db = (db', Inl e) \<Longrightarrow> db' = db"
  unfolding store_insert_snapshot_def run_tx_Inl_iff by (auto simp: tx_simps Let_def)

lemma store_insert_InrD:
  assumes "store_insert_snapshot f now m pin lab db = (db', Inr s)"
  shows "f \<noteq> Some DuringMetadataTransaction
    \<and> s = stored_snapshot_of m (sm_session_id m) (next_sequence (sm_project_id m) db) pin lab
    \<and> db_snapshots db' = db_snapshots db @ [s] \<and> db_leases db' = db_leases db
    \<and> sn_snapshot_id s \<notin> sn_snapshot_id ` set (db_snapshots db)
    \<and> (\<forall>p. sn_parent_snapshot_id s = Some p \<longrightarrow>
          p = sn_snapshot_id s \<or> p \<in> sn_snapshot_id ` set (db_snapshots db))"
proof -
  let ?db1 = "upsert_project_name (sm_project_id m) (sm_project_name m) db"
  let ?db2 = "case sm_session_id m of None \<Rightarrow> ?db1
     | Some x \<Rightarrow> insert_or_ignore_session now x (sm_project_id m) ?db1"
  let ?s = "stored_snapshot_of m (sm_session_id m) (next_sequence (sm_project_id m) ?db2) pin lab"
  have f: "inject_store_fault f DuringMetadataTransaction = Inr ()" and ins: "insert_snapshot_row ?s ?db2 = Inr db'"
    and s: "s = ?s"
    using assms unfolding store_insert_snapshot_def run_tx_Inr_iff by (auto simp: tx_simps Let_def)
  have rows: "db_snapshots ?db2 = db_snapshots db" "db_leases ?db2 = db_leases db"
    by (simp_all split: option.split)
  from f have "f \<noteq> Some DuringMetadataTransaction" by (auto simp: inject_store_fault_def split: if_splits)
  with insert_snapshot_row_InrD [OF ins] rows s next_sequence_cong [OF rows(1)] show ?thesis by simp
qed

lemma snapshot_inv_store_insert:
  assumes I: "snapshot_inv db" and run: "store_insert_snapshot f now m pin lab db = (db', r)"
  shows "snapshot_inv db'"
proof (cases r)
  case (Inl e) with run I show ?thesis using store_insert_InlD by blast
next
  case (Inr s)
  note s = store_insert_InrD [OF run [unfolded Inr]]
  have "history_from [] (db_snapshots db @ [s])" by (rule snapshot_inv_insert [OF I]) (use s in auto)
  then show ?thesis using s by (simp add: snapshot_inv_def)
qed

lemma store_snapshot_atomic_aux:
  assumes I: "snapshot_inv db"
    and run: "store_snapshot git project fault now m pinned label db = (db', r)"
  shows "snapshot_inv db' \<and> db_leases db' = db_leases db
    \<and> (db' = db \<and> (\<exists>e. r = Inl e)
       \<or> (\<exists>s. fault \<noteq> Some AfterSnapshotObjectImport \<and> fault \<noteq> Some DuringMetadataTransaction
           \<and> ge_import git m = Inr () \<and> validate_metadata m = Inr ()
           \<and> db_snapshots db' = db_snapshots db @ [s] \<and> sn_project_id s = project
           \<and> sn_snapshot_id s = sm_snapshot_id m \<and> sn_pinned s = pinned
           \<and> sn_sequence_number s = next_sequence project db
           \<and> sn_parent_snapshot_id s = (case sm_parent_snapshot_id m of
                Some p \<Rightarrow> Some p | None \<Rightarrow> map_option sn_snapshot_id (store_latest_snapshot project db))
           \<and> r = bind_r (remove_source_snapshot_refs git fault (sn_metadata s)) (\<lambda>_. Inr s)))"
proof -
  let ?m = "if sm_parent_snapshot_id m = None
      then m\<lparr>sm_parent_snapshot_id := map_option sn_snapshot_id (store_latest_snapshot project db)\<rparr> else m"
  have m: "sm_project_id ?m = sm_project_id m" "sm_snapshot_id ?m = sm_snapshot_id m"
    "sm_session_id ?m = sm_session_id m"
    "sm_parent_snapshot_id ?m = (case sm_parent_snapshot_id m of
       Some p \<Rightarrow> Some p | None \<Rightarrow> map_option sn_snapshot_id (store_latest_snapshot project db))"
    by (simp_all split: option.split)
  let ?pre = "bind_r (validate_metadata m) (\<lambda>_. bind_r (ge_import git m)
      (\<lambda>_. inject_store_fault fault AfterSnapshotObjectImport))"
  consider (mismatch) "sm_project_id m \<noteq> project"
    | (early) e where "sm_project_id m = project" "?pre = Inl e"
    | (go) "sm_project_id m = project" "?pre = Inr ()"
    by (cases ?pre) auto
  then show ?thesis
  proof cases
    case mismatch with run I show ?thesis by (auto simp: store_snapshot_def)
  next
    case early with run I show ?thesis by (auto simp: store_snapshot_def)
  next
    case go
    obtain q where ins: "store_insert_snapshot fault now ?m pinned label db = (db', q)"
      and r: "r = bind_r q (\<lambda>s. bind_r (remove_source_snapshot_refs git fault (sn_metadata s)) (\<lambda>_. Inr s))"
      using run go by (auto simp: store_snapshot_def Let_def split: prod.splits)
    have pre: "fault \<noteq> Some AfterSnapshotObjectImport" "ge_import git m = Inr ()" "validate_metadata m = Inr ()"
      using go(2) by (auto simp: tx_simps inject_store_fault_def split: if_splits)
    show ?thesis
    proof (cases q)
      case (Inl e)
      with ins have "db' = db" using store_insert_InlD by blast
      with Inl r I show ?thesis by simp
    next
      case (Inr s)
      note s = store_insert_InrD [OF ins [unfolded Inr]]
      show ?thesis
        by (intro conjI disjI2 exI [of _ s] snapshot_inv_store_insert [OF I ins])
          (use s pre go r m Inr in \<open>simp_all add: stored_snapshot_of_def\<close>)
    qed
  qed
qed

text \<open>
  Storing a snapshot is atomic and names its parent: either the database is unchanged and
  the caller gets an error, as after a fault while importing or during the metadata
  transaction; or exactly one snapshot is appended, with the project's next sequence number and
  the given parent or else the project's latest snapshot. A caller that gets the snapshot back
  finds it stored; after the commit only a failing removal of the source refs can report an
  error. The history stays well formed.
\<close>

theorem store_snapshot_atomic:
  assumes I: "snapshot_inv db"
    and run: "store_snapshot git project fault now m pinned label db = (db', r)"
  shows "snapshot_inv db' \<and> db_leases db' = db_leases db
    \<and> (db' = db \<and> (\<exists>e. r = Inl e)
       \<or> (\<exists>s. fault \<noteq> Some AfterSnapshotObjectImport \<and> fault \<noteq> Some DuringMetadataTransaction
           \<and> ge_import git m = Inr () \<and> validate_metadata m = Inr ()
           \<and> db_snapshots db' = db_snapshots db @ [s] \<and> sn_project_id s = project
           \<and> sn_snapshot_id s = sm_snapshot_id m \<and> sn_pinned s = pinned
           \<and> sn_sequence_number s = next_sequence project db
           \<and> sn_parent_snapshot_id s = (case sm_parent_snapshot_id m of
                Some p \<Rightarrow> Some p | None \<Rightarrow> map_option sn_snapshot_id (store_latest_snapshot project db))
           \<and> r = bind_r (remove_source_snapshot_refs git fault (sn_metadata s)) (\<lambda>_. Inr s)))"
  by (rule store_snapshot_atomic_aux [OF assms])

lemma ex_store_rows:
  "db_snapshots ex_store_db = [ex_row ''a'' None 1, ex_row ''b'' (Some ''a'') 2, ex_row ''c'' None 3]"
  "db_projects ex_store_db = [\<lparr>pj_project_id = ''p1'', pj_display_name = ''Demo''\<rparr>]"
  "db_sessions ex_store_db = []"
  by (simp_all add: ex_store_db_def empty_db_def)

theorem store_snapshot_atomic_witness:
  "\<exists>db' s. store_snapshot ex_git ''p1'' None 200 ex_meta False None ex_store_db = (db', Inr s)
     \<and> db_snapshots db' = db_snapshots ex_store_db @ [s] \<and> sn_parent_snapshot_id s = Some ''c''
     \<and> sn_sequence_number s = 4 \<and> snapshot_inv db'"
proof -
  have latest: "store_latest_snapshot ''p1'' ex_store_db = Some (ex_row ''c'' None 3)"
    and seq: "next_sequence ''p1'' ex_store_db = 4"
    by (simp_all add: prune_eval next_sequence_def)
  obtain db' s where run: "store_snapshot ex_git ''p1'' None 200 ex_meta False None ex_store_db = (db', Inr s)"
    using latest
    by (simp add: store_snapshot_def ex_meta_valid inject_store_fault_def store_insert_snapshot_def
        insert_snapshot_row_def insert_row_def insert_or_ignore_session_def upsert_project_name_def
        remove_source_snapshot_refs_def run_tx_def ex_git_def Let_def
        ex_store_rows update_rows_def ex_row_def)
  from store_snapshot_atomic [OF ex_store_inv run] show ?thesis
    using run
    by (auto simp: latest seq ex_row_def remove_source_snapshot_refs_def inject_store_fault_def ex_git_def)
qed

lemma store_insert_metadata:
  "store_insert_snapshot f now m pin lab db = (db', Inr s) \<Longrightarrow> sn_metadata s = m"
  using store_insert_InrD [of f now m pin lab db db' s] by simp

lemma store_snapshot_InrD:
  assumes "store_snapshot git project fault now m pinned label db = (db', Inr s)"
  shows "sm_state_hash (sn_metadata s) = sm_state_hash m"
proof -
  let ?m = "if sm_parent_snapshot_id m = None
      then m\<lparr>sm_parent_snapshot_id := map_option sn_snapshot_id (store_latest_snapshot project db)\<rparr> else m"
  have "store_insert_snapshot fault now ?m pinned label db = (db', Inr s)"
    using assms by (auto simp: store_snapshot_def Let_def tx_simps split: prod.splits if_splits sum.splits)
  from store_insert_metadata [OF this] show ?thesis by simp
qed

lemma store_latest_unique:
  assumes I: "snapshot_inv db" and rows: "db_snapshots db = xs @ [s]" and p: "sn_project_id s = p"
  shows "store_latest_snapshot p db = Some s"
proof -
  from I rows have e: "extends_history xs s" by (simp add: snapshot_inv_def history_append)
  have "store_latest_snapshot p db \<noteq> None" using rows p by (simp add: store_latest_snapshot_def sql_first_None_iff)
  then obtain r where r: "store_latest_snapshot p db = Some r" by blast
  note l = store_latest_SomeD [OF r]
  have "sn_sequence_number s \<le> sn_sequence_number r" using l rows p by auto
  with e l rows p have "r = s" by (auto simp: extends_history_def)
  with r show ?thesis by simp
qed

text \<open>
  A checkpoint that created a snapshot is not repeated: checkpointing the same state again
  reports it unchanged, names the snapshot just created, and changes nothing, as long as the
  source refs of the second capture can be removed.
\<close>

theorem checkpoint_not_repeated:
  assumes I: "snapshot_inv db"
    and first: "checkpoint_if_changed git project fault now m pinned label db = (db', Inr (CkCreated s))"
    and same: "sm_state_hash m' = sm_state_hash m"
    and refs: "remove_source_snapshot_refs git None m' = Inr ()"
  shows "checkpoint_if_changed git project fault' now' m' pinned' label' db' =
    (db', Inr (CkUnchanged (sn_snapshot_id s) (sm_state_hash m)))"
proof -
  have st: "store_snapshot git project fault now m pinned label db = (db', Inr s)"
    using first
    by (auto simp: checkpoint_if_changed_def Let_def tx_simps split: option.splits if_splits prod.splits)
  have "snapshot_inv db'" "db_snapshots db' = db_snapshots db @ [s] \<and> sn_project_id s = project"
    using store_snapshot_atomic_aux [OF I st] by (auto simp: tx_simps eq_commute [of "Inr s"])
  then have "store_latest_snapshot project db' = Some s" by (auto intro: store_latest_unique)
  with store_snapshot_InrD [OF st] same refs show ?thesis
    by (simp add: checkpoint_if_changed_def)
qed

theorem checkpoint_not_repeated_witness:
  "\<exists>db' s. checkpoint_if_changed ex_git ''p1'' None 200 ex_meta False None (empty_db) = (db', Inr (CkCreated s))
     \<and> checkpoint_if_changed ex_git ''p1'' None 300 ex_meta False None db' =
       (db', Inr (CkUnchanged (sn_snapshot_id s) ''st''))"
proof -
  have latest: "store_latest_snapshot ''p1'' empty_db = None"
    by (simp add: store_latest_snapshot_def empty_db_def sql_first_def sql_query_def)
  obtain db' s where run:
    "checkpoint_if_changed ex_git ''p1'' None 200 ex_meta False None empty_db = (db', Inr (CkCreated s))"
    using latest
    by (simp add: checkpoint_if_changed_def store_snapshot_def ex_meta_valid inject_store_fault_def
        store_insert_snapshot_def insert_snapshot_row_def insert_row_def insert_or_ignore_session_def
        upsert_project_name_def remove_source_snapshot_refs_def run_tx_def ex_git_def Let_def
        empty_db_def update_rows_def)
  have "snapshot_inv empty_db" by (simp add: snapshot_inv_def empty_db_def)
  from checkpoint_not_repeated [OF this run refl] run show ?thesis
    by (auto simp: remove_source_snapshot_refs_def inject_store_fault_def ex_git_def ex_meta_def)
qed

end
