(* ===== verification/Identity_Db.thy ===== *)
theory Identity_Db
  imports Db_State
begin

text \<open>
  Devices, fabric roots, public identities, revocations and the audit log of \<open>storage.rs\<close>.
  Each operation is one statement or one transaction; the whole-row upserts keep the columns
  their \<open>ON CONFLICT\<close> clause does not set.
\<close>

section \<open>Devices and identities\<close>

definition device_from_row :: "device_identity \<Rightarrow> device_identity" where
  "device_from_row r = r\<lparr>dv_paired_at := map_option column_u64 (dv_paired_at r),
     dv_last_seen := column_u64 (dv_last_seen r)\<rparr>"

definition fabric_from_row :: "fabric_root_identity \<Rightarrow> fabric_root_identity" where
  "fabric_from_row r = r\<lparr>fr_created_at := column_u64 (fr_created_at r),
     fr_rotation_epoch := column_u64 (fr_rotation_epoch r)\<rparr>"

definition identity_from_row :: "device_public_identity \<Rightarrow> device_public_identity" where
  "identity_from_row r = r\<lparr>di_created_at := column_u64 (di_created_at r),
     di_last_seen := column_u64 (di_last_seen r)\<rparr>"

definition upsert_device_identity :: "device_identity \<Rightarrow> metadata_db \<Rightarrow> metadata_db \<times> unit result" where
  "upsert_device_identity d = run_tx (\<lambda>db.
     Inr (db\<lparr>db_devices := upsert_row dv_device_id (\<lambda>_. d) d (db_devices db)\<rparr>, Inr ()))"

definition list_devices :: "metadata_db \<Rightarrow> device_identity list" where
  "list_devices db = map device_from_row
     (sql_query (\<lambda>_. True) (\<lambda>r. (dv_display_name r, dv_device_id r)) (db_devices db))"

definition get_device :: "string \<Rightarrow> metadata_db \<Rightarrow> device_identity option" where
  "get_device device_id db = map_option device_from_row (sel_row dv_device_id device_id (db_devices db))"

definition upsert_fabric_root_identity ::
    "fabric_root_identity \<Rightarrow> metadata_db \<Rightarrow> metadata_db \<times> unit result" where
  "upsert_fabric_root_identity root = run_tx (\<lambda>db.
     Inr (db\<lparr>db_fabrics := upsert_row fr_fabric_id (\<lambda>q. root\<lparr>fr_fabric_id := fr_fabric_id q,
              fr_created_at := fr_created_at q\<rparr>) root (db_fabrics db)\<rparr>, Inr ()))"

definition get_fabric_root_identity :: "string \<Rightarrow> metadata_db \<Rightarrow> fabric_root_identity option" where
  "get_fabric_root_identity fabric_id db =
     map_option fabric_from_row (sel_row fr_fabric_id fabric_id (db_fabrics db))"

definition upsert_identity_row ::
    "(device_public_identity \<Rightarrow> device_public_identity) \<Rightarrow> device_public_identity
      \<Rightarrow> metadata_db \<Rightarrow> metadata_db result" where
  "upsert_identity_row merge d db =
     (if di_fabric_id d \<notin> fr_fabric_id ` set (db_fabrics db) then Inl sqlite_foreign_key_violation
      else Inr (db\<lparr>db_identities := upsert_row di_device_id merge d (db_identities db)\<rparr>))"

definition upsert_device_public_identity ::
    "device_public_identity \<Rightarrow> metadata_db \<Rightarrow> metadata_db \<times> unit result" where
  "upsert_device_public_identity d = run_tx (\<lambda>db.
     bind_r (upsert_identity_row (\<lambda>q. d\<lparr>di_device_id := di_device_id q, di_created_at := di_created_at q\<rparr>) d db)
       (\<lambda>db'. Inr (db', Inr ())))"

definition get_device_public_identity :: "string \<Rightarrow> metadata_db \<Rightarrow> device_public_identity option" where
  "get_device_public_identity device_id db =
     map_option identity_from_row (sel_row di_device_id device_id (db_identities db))"

section \<open>Revocation\<close>

definition revocation_audit :: "string \<Rightarrow> string \<Rightarrow> string \<Rightarrow> bool \<Rightarrow> audit_event_input" where
  "revocation_audit device_id revoked_by reason rotation =
     (audit_new DeviceRevoked AuditSucceeded (''revoked device '' @ device_id)
        (JObj [(''reason'', JStr reason), (''key_rotation_required'', JBool rotation)]))
     \<lparr>ai_actor_device_id := Some revoked_by, ai_target_device_id := Some device_id\<rparr>"

definition revoke_device_at ::
    "json_codec \<Rightarrow> string \<Rightarrow> string \<Rightarrow> string \<Rightarrow> bool \<Rightarrow> u64
      \<Rightarrow> metadata_db \<Rightarrow> metadata_db \<times> device_revocation_record result" where
  "revoke_device_at c device_id revoked_by reason rotation now = run_tx (\<lambda>db.
     bind_r (validate_non_empty ''device_id'' device_id) (\<lambda>_.
     bind_r (validate_non_empty ''revoked_by_device_id'' revoked_by) (\<lambda>_.
     bind_r (validate_non_empty ''reason'' reason) (\<lambda>_.
     let r = \<lparr>rv_device_id = device_id, rv_revoked_by_device_id = revoked_by, rv_reason = reason,
              rv_key_rotation_required = rotation, rv_revoked_at = now\<rparr>;
         db1 = db\<lparr>db_revocations := upsert_row rv_device_id (\<lambda>_. r) r (db_revocations db)\<rparr>
     in bind_r (insert_audit_event c (revocation_audit device_id revoked_by reason rotation) now db1)
          (\<lambda>(db2, _). Inr (db2, Inr r))))))"

definition get_device_revocation :: "string \<Rightarrow> metadata_db \<Rightarrow> device_revocation_record option" where
  "get_device_revocation device_id db =
     map_option revocation_from_row (sel_row rv_device_id device_id (db_revocations db))"

definition list_device_revocations :: "metadata_db \<Rightarrow> device_revocation_record list" where
  "list_device_revocations db = map revocation_from_row
     (sql_query (\<lambda>_. True) (\<lambda>r. (- sint (rv_revoked_at r), rv_device_id r)) (db_revocations db))"

section \<open>The audit log\<close>

fun audit_event_type_as_str :: "audit_event_type \<Rightarrow> string" where
  "audit_event_type_as_str DevicePaired = ''device.paired''"
| "audit_event_type_as_str DeviceRevoked = ''device.revoked''"
| "audit_event_type_as_str SnapshotPublished = ''snapshot.published''"
| "audit_event_type_as_str SnapshotApplied = ''snapshot.applied''"
| "audit_event_type_as_str LeaseTransferred = ''lease.transferred''"
| "audit_event_type_as_str EditorContextUpdated = ''editor.context.updated''"
| "audit_event_type_as_str EditorRestoreAcked = ''editor.restore.acked''"
| "audit_event_type_as_str CommandApproved = ''command.approved''"
| "audit_event_type_as_str SecurityBlocked = ''security.blocked''"
| "audit_event_type_as_str BackupPromoted = ''backup.promoted''"

definition parse_audit_event_type :: "string \<Rightarrow> audit_event_type" where
  "parse_audit_event_type s =
     (if s = ''device.revoked'' then DeviceRevoked
      else if s = ''snapshot.published'' then SnapshotPublished
      else if s = ''snapshot.applied'' then SnapshotApplied
      else if s = ''lease.transferred'' then LeaseTransferred
      else if s = ''editor.context.updated'' then EditorContextUpdated
      else if s = ''editor.restore.acked'' then EditorRestoreAcked
      else if s = ''command.approved'' then CommandApproved
      else if s = ''security.blocked'' then SecurityBlocked
      else if s = ''backup.promoted'' then BackupPromoted
      else DevicePaired)"

fun audit_outcome_as_str :: "audit_outcome \<Rightarrow> string" where
  "audit_outcome_as_str AuditSucceeded = ''succeeded''"
| "audit_outcome_as_str AuditFailed = ''failed''"
| "audit_outcome_as_str AuditBlocked = ''blocked''"

definition parse_audit_outcome :: "string \<Rightarrow> audit_outcome" where
  "parse_audit_outcome s =
     (if s = ''failed'' then AuditFailed else if s = ''blocked'' then AuditBlocked else AuditSucceeded)"

interpretation audit_type_enum: wire_enum audit_event_type_as_str parse_audit_event_type
  by unfold_locales (case_tac x; simp add: parse_audit_event_type_def)

interpretation audit_outcome_enum: wire_enum audit_outcome_as_str parse_audit_outcome
  by unfold_locales (case_tac x; simp add: parse_audit_outcome_def)

text \<open>
  \<open>record_audit_event_at\<close> is not a transaction: the row stays when its detail does not parse back.
\<close>

definition record_audit_event_at ::
    "json_codec \<Rightarrow> audit_event_input \<Rightarrow> u64 \<Rightarrow> metadata_db \<Rightarrow> metadata_db \<times> audit_event_record result" where
  "record_audit_event_at c i now db =
     (case validate_audit_input i of
        Inl e \<Rightarrow> (db, Inl e)
      | Inr _ \<Rightarrow>
          let detail_json = js_print c (ai_detail i);
              r = \<lparr>ae_audit_id = db_next_audit_id db, ae_event_type = ai_event_type i,
                   ae_project_id = ai_project_id i, ae_actor_device_id = ai_actor_device_id i,
                   ae_target_device_id = ai_target_device_id i, ae_session_id = ai_session_id i,
                   ae_snapshot_id = ai_snapshot_id i, ae_lease_id = ai_lease_id i,
                   ae_handoff_id = ai_handoff_id i, ae_outcome = ai_outcome i,
                   ae_summary = ai_summary i, ae_detail_json = detail_json, ae_created_at = now\<rparr>
          in (db\<lparr>db_audit := db_audit db @ [r], db_next_audit_id := Suc (db_next_audit_id db)\<rparr>,
              bind_r (from_str c detail_json) (\<lambda>d.
                Inr \<lparr>ar_schema_version = audit_schema_version, ar_row = r, ar_detail = d\<rparr>)))"

definition audit_from_row :: "json_codec \<Rightarrow> audit_event_row \<Rightarrow> audit_event_record result" where
  "audit_from_row c r =
     (case js_parse c (ae_detail_json r) of
        Inl e \<Rightarrow> Inl (Sqlite e)
      | Inr d \<Rightarrow> Inr \<lparr>ar_schema_version = audit_schema_version,
                      ar_row = r\<lparr>ae_created_at := column_u64 (ae_created_at r)\<rparr>, ar_detail = d\<rparr>)"

fun traverse :: "('a \<Rightarrow> 'e + 'b) \<Rightarrow> 'a list \<Rightarrow> 'e + 'b list" where
  "traverse f [] = Inr []"
| "traverse f (x # xs) = bind_r (f x) (\<lambda>y. bind_r (traverse f xs) (\<lambda>ys. Inr (y # ys)))"

definition clamp_limit :: "nat \<Rightarrow> nat" where
  "clamp_limit limit = max 1 (min limit 1000)"

definition audit_newest_first :: "audit_event_row \<Rightarrow> int \<times> int" where
  "audit_newest_first r = (- sint (ae_created_at r), - int (ae_audit_id r))"

definition list_audit_events ::
    "json_codec \<Rightarrow> string option \<Rightarrow> nat \<Rightarrow> metadata_db \<Rightarrow> audit_event_record list result" where
  "list_audit_events c project_id limit db =
     bind_r (traverse (audit_from_row c) (take (clamp_limit limit)
        (sql_query (\<lambda>r. case project_id of None \<Rightarrow> True | Some p \<Rightarrow> ae_project_id r = Some p)
           audit_newest_first (db_audit db))))
     (\<lambda>es. Inr (sort_key (\<lambda>e. (- uint (ae_created_at (ar_row e)), - int (ae_audit_id (ar_row e)))) es))"

section \<open>Effects\<close>

lemma upsert_identity_row_InrD:
  "upsert_identity_row merge d db = Inr db' \<Longrightarrow>
     db' = db\<lparr>db_identities := upsert_row di_device_id merge d (db_identities db)\<rparr>
     \<and> di_fabric_id d \<in> fr_fabric_id ` set (db_fabrics db)"
  by (auto simp: upsert_identity_row_def split: if_splits)

lemma revoke_InrD:
  assumes "revoke_device_at c d b reason rot now db = (db', Inr r)"
  shows "d \<noteq> [] \<and> b \<noteq> [] \<and> reason \<noteq> []
    \<and> r = \<lparr>rv_device_id = d, rv_revoked_by_device_id = b, rv_reason = reason,
          rv_key_rotation_required = rot, rv_revoked_at = now\<rparr>
    \<and> (\<exists>a. db' = db\<lparr>db_revocations := upsert_row rv_device_id (\<lambda>_. r) r (db_revocations db),
          db_audit := db_audit db @ [a], db_next_audit_id := Suc (db_next_audit_id db)\<rparr>
        \<and> ae_event_type a = DeviceRevoked \<and> ae_target_device_id a = Some d)"
proof -
  obtain a where ne: "d \<noteq> []" "b \<noteq> []" "reason \<noteq> []"
    and r: "r = \<lparr>rv_device_id = d, rv_revoked_by_device_id = b, rv_reason = reason,
          rv_key_rotation_required = rot, rv_revoked_at = now\<rparr>"
    and a: "insert_audit_event c (revocation_audit d b reason rot) now
        (db\<lparr>db_revocations := upsert_row rv_device_id (\<lambda>_. r) r (db_revocations db)\<rparr>) = Inr (db', a)"
    using assms unfolding revoke_device_at_def run_tx_Inr_iff validate_non_empty_def
    by (auto simp: tx_simps Let_def split: if_splits)
  show ?thesis using ne r insert_audit_InrD [OF a]
    by (auto simp: revocation_audit_def audit_new_def)
qed

lemma revoke_InlD: "revoke_device_at c d b reason rot now db = (db', Inl e) \<Longrightarrow> db' = db"
  unfolding revoke_device_at_def run_tx_Inl_iff by (auto simp: tx_simps Let_def)

lemma record_audit_effect:
  "record_audit_event_at c i now db = (db', r) \<Longrightarrow> db' = db \<or>
     (\<exists>a. db' = db\<lparr>db_audit := db_audit db @ [a], db_next_audit_id := Suc (db_next_audit_id db)\<rparr>)"
  by (auto simp: record_audit_event_at_def Let_def split: sum.splits)

lemma traverse_InrD: "traverse f xs = Inr ys \<Longrightarrow> length ys = length xs \<and> (\<forall>i<length xs. f (xs ! i) = Inr (ys ! i))"
proof (induction xs arbitrary: ys)
  case (Cons x xs)
  then obtain y zs where "f x = Inr y" "traverse f xs = Inr zs" "ys = y # zs" by (auto simp: tx_simps)
  with Cons.IH show ?case by (auto simp: nth_Cons split: nat.splits)
qed simp

end
