(* ===== verification/Pairing_Db.thy ===== *)
theory Pairing_Db
  imports Identity_Db
begin

text \<open>
  Device pairing: the transcript hash and short authentication string of \<open>pairing.rs\<close>, and the
  pairing session operations of \<open>storage.rs\<close>. The ephemeral key pair, the generated id, the clock,
  serde\_json and BLAKE3 are arguments.
\<close>

section \<open>Transcript and short authentication string\<close>

fun pairing_state_as_str :: "pairing_state \<Rightarrow> string" where
  "pairing_state_as_str PairPending = ''pending''"
| "pairing_state_as_str PairConfirmed = ''confirmed''"
| "pairing_state_as_str PairAborted = ''aborted''"
| "pairing_state_as_str PairExpired = ''expired''"

definition parse_pairing_state :: "string \<Rightarrow> pairing_state" where
  "parse_pairing_state s =
     (if s = ''confirmed'' then PairConfirmed else if s = ''aborted'' then PairAborted
      else if s = ''expired'' then PairExpired else PairPending)"

fun pairing_is_terminal :: "pairing_state \<Rightarrow> bool" where
  "pairing_is_terminal PairPending = False"
| "pairing_is_terminal _ = True"

interpretation pairing_enum: wire_enum pairing_state_as_str parse_pairing_state
  by unfold_locales (case_tac x; simp add: parse_pairing_state_def)

definition pairing_transcript ::
    "string \<Rightarrow> string \<Rightarrow> string \<Rightarrow> string \<Rightarrow> string \<Rightarrow> string option \<Rightarrow> json" where
  "pairing_transcript fabric local_id peer_id local_key peer_key anchor =
     JObj [(''schema'', JNum ''1''), (''fabric_id'', JStr fabric), (''local_device_id'', JStr local_id),
           (''peer_device_id'', JStr peer_id), (''local_ephemeral_public_key_hex'', JStr local_key),
           (''peer_ephemeral_public_key_hex'', JStr peer_key), (''anchor_address'', json_opt_str anchor)]"

definition compute_handshake_transcript_hash ::
    "json_codec \<Rightarrow> (string \<Rightarrow> string) \<Rightarrow> string \<Rightarrow> string \<Rightarrow> string \<Rightarrow> string \<Rightarrow> string \<Rightarrow> string option
      \<Rightarrow> string result" where
  "compute_handshake_transcript_hash c hash fabric local_id peer_id local_key peer_key anchor =
     bind_r (validate_key_hex ''local_ephemeral_public_key_hex'' local_key) (\<lambda>_.
     bind_r (validate_key_hex ''peer_ephemeral_public_key_hex'' peer_key) (\<lambda>_.
     Inr (hash (js_print c (pairing_transcript fabric local_id peer_id local_key peer_key anchor)))))"

definition hex_digit_value :: "char \<Rightarrow> nat" where
  "hex_digit_value ch =
     (if is_ascii_digit ch then of_char ch - 48
      else if CHR ''a'' \<le> ch then of_char ch - 87 else of_char ch - 55)"

definition hex_value :: "string \<Rightarrow> nat" where
  "hex_value s = foldl (\<lambda>n ch. 16 * n + hex_digit_value ch) 0 s"

definition pad_left :: "nat \<Rightarrow> string \<Rightarrow> string" where
  "pad_left n s = replicate (n - length s) (CHR ''0'') @ s"

text \<open>
  Eight hexadecimal digits fit a \<open>u32\<close>, so \<open>from_str_radix\<close> cannot fail after the check;
  \<open>{:06}\<close> pads the decimal value with zeros.
\<close>

definition derive_short_authentication_string :: "string \<Rightarrow> string result" where
  "derive_short_authentication_string h =
     (if length h < 8 \<or> \<not> list_all is_ascii_hexdigit h
      then Inl (Config ''transcript_hash_hex must be hex'')
      else Inr (pad_left 6 (dec_nat (hex_value (take 8 h) mod 1000000))))"

section \<open>Pairing sessions\<close>

record pairing_start_request =
  ps_fabric_id :: string
  ps_local_device_id :: string
  ps_peer_device_id :: string
  ps_peer_display_name :: string
  ps_peer_signing_public_key_hex :: string
  ps_peer_network_public_key_hex :: string
  ps_peer_ephemeral_public_key_hex :: string
  ps_anchor_address :: "string option"
  ps_ttl_seconds :: u64

definition pairing_from_row :: "pairing_session \<Rightarrow> pairing_session" where
  "pairing_from_row r = r\<lparr>pg_expires_at := column_u64 (pg_expires_at r),
     pg_confirmed_at := map_option column_u64 (pg_confirmed_at r),
     pg_aborted_at := map_option column_u64 (pg_aborted_at r),
     pg_created_at := column_u64 (pg_created_at r)\<rparr>"

definition get_pairing_session :: "string \<Rightarrow> metadata_db \<Rightarrow> pairing_session option" where
  "get_pairing_session pairing_id db =
     map_option pairing_from_row (sel_row pg_pairing_id pairing_id (db_pairings db))"

definition validate_pairing_start :: "pairing_start_request \<Rightarrow> unit result" where
  "validate_pairing_start q =
     bind_r (validate_non_empty ''fabric_id'' (ps_fabric_id q)) (\<lambda>_.
     bind_r (validate_non_empty ''local_device_id'' (ps_local_device_id q)) (\<lambda>_.
     bind_r (validate_non_empty ''peer_device_id'' (ps_peer_device_id q)) (\<lambda>_.
     bind_r (validate_non_empty ''peer_display_name'' (ps_peer_display_name q)) (\<lambda>_.
     bind_r (validate_key_hex ''peer_signing_public_key_hex'' (ps_peer_signing_public_key_hex q)) (\<lambda>_.
     bind_r (validate_key_hex ''peer_network_public_key_hex'' (ps_peer_network_public_key_hex q)) (\<lambda>_.
     validate_key_hex ''peer_ephemeral_public_key_hex'' (ps_peer_ephemeral_public_key_hex q)))))))"

definition new_pairing_session ::
    "pairing_start_request \<Rightarrow> string \<Rightarrow> string \<Rightarrow> string \<Rightarrow> string \<Rightarrow> u64 \<Rightarrow> pairing_session" where
  "new_pairing_session q new_id local_key transcript sas now =
     \<lparr>pg_pairing_id = new_id, pg_fabric_id = ps_fabric_id q,
      pg_local_device_id = ps_local_device_id q, pg_peer_device_id = ps_peer_device_id q,
      pg_peer_display_name = ps_peer_display_name q,
      pg_peer_signing_public_key_hex = ps_peer_signing_public_key_hex q,
      pg_peer_network_public_key_hex = ps_peer_network_public_key_hex q,
      pg_anchor_address = ps_anchor_address q, pg_local_ephemeral_public_key_hex = local_key,
      pg_peer_ephemeral_public_key_hex = ps_peer_ephemeral_public_key_hex q,
      pg_transcript_hash_hex = transcript, pg_short_authentication_string = sas,
      pg_state = PairPending, pg_certificate_json = None,
      pg_expires_at = sat_add now (max (ps_ttl_seconds q) 1), pg_confirmed_at = None,
      pg_aborted_at = None, pg_created_at = now\<rparr>"

definition insert_pairing_row :: "pairing_session \<Rightarrow> metadata_db \<Rightarrow> metadata_db result" where
  "insert_pairing_row r db =
     (case insert_row pg_pairing_id r (db_pairings db) of
        None \<Rightarrow> Inl sqlite_unique_violation
      | Some rows \<Rightarrow>
          if pg_fabric_id r \<notin> fr_fabric_id ` set (db_fabrics db) then Inl sqlite_foreign_key_violation
          else Inr (db\<lparr>db_pairings := rows\<rparr>))"

definition start_pairing_session ::
    "json_codec \<Rightarrow> (string \<Rightarrow> string) \<Rightarrow> string result \<Rightarrow> string \<Rightarrow> u64 \<Rightarrow> pairing_start_request
      \<Rightarrow> metadata_db \<Rightarrow> metadata_db \<times> pairing_session result" where
  "start_pairing_session c hash ephemeral new_id now q = run_tx (\<lambda>db.
     bind_r (validate_pairing_start q) (\<lambda>_.
     if ps_fabric_id q \<notin> fr_fabric_id ` set (db_fabrics db)
     then Inl (Config (''unknown fabric '' @ ps_fabric_id q))
     else bind_r ephemeral (\<lambda>local_key.
     bind_r (compute_handshake_transcript_hash c hash (ps_fabric_id q) (ps_local_device_id q)
               (ps_peer_device_id q) local_key (ps_peer_ephemeral_public_key_hex q)
               (ps_anchor_address q)) (\<lambda>transcript.
     bind_r (derive_short_authentication_string transcript) (\<lambda>sas.
     let s = new_pairing_session q new_id local_key transcript sas now
     in bind_r (insert_pairing_row s db) (\<lambda>db'. Inr (db', Inr s)))))))"

definition set_pairing ::
    "(pairing_session \<Rightarrow> bool) \<Rightarrow> (pairing_session \<Rightarrow> pairing_session) \<Rightarrow> metadata_db \<Rightarrow> metadata_db" where
  "set_pairing P f db = db\<lparr>db_pairings := update_rows P f (db_pairings db)\<rparr>"

definition paired_identity :: "pairing_session \<Rightarrow> u64 \<Rightarrow> device_public_identity" where
  "paired_identity s now = \<lparr>di_device_id = pg_peer_device_id s, di_display_name = pg_peer_display_name s,
     di_fabric_id = pg_fabric_id s, di_signing_public_key_hex = pg_peer_signing_public_key_hex s,
     di_network_public_key_hex = pg_peer_network_public_key_hex s, di_platform_key = ''unknown'',
     di_architecture = ''unknown'', di_created_at = pg_created_at s, di_last_seen = now\<rparr>"

definition merge_paired_identity ::
    "device_public_identity \<Rightarrow> device_public_identity \<Rightarrow> device_public_identity" where
  "merge_paired_identity d q = q\<lparr>di_fabric_id := di_fabric_id d, di_display_name := di_display_name d,
     di_signing_public_key_hex := di_signing_public_key_hex d,
     di_network_public_key_hex := di_network_public_key_hex d, di_last_seen := di_last_seen d\<rparr>"

definition paired_audit :: "pairing_session \<Rightarrow> u64 \<Rightarrow> audit_event_input" where
  "paired_audit s now =
     (audit_new DevicePaired AuditSucceeded (''paired device '' @ pg_peer_display_name s)
        (JObj [(''pairing_id'', JStr (pg_pairing_id s)), (''fabric_id'', JStr (pg_fabric_id s)),
               (''confirmed_at_unix_seconds'', json_u64 now)]))
     \<lparr>ai_actor_device_id := Some (pg_local_device_id s),
      ai_target_device_id := Some (pg_peer_device_id s)\<rparr>"

definition already_settled :: "pairing_session \<Rightarrow> dr_error" where
  "already_settled s = Config (''pairing session is already '' @ pairing_state_as_str (pg_state s))"

definition confirm_pairing_session ::
    "json_codec \<Rightarrow> string \<Rightarrow> string \<Rightarrow> string \<Rightarrow> u64
      \<Rightarrow> metadata_db \<Rightarrow> metadata_db \<times> pairing_session result" where
  "confirm_pairing_session c pairing_id observed certificate now = run_tx (\<lambda>db.
     bind_r (from_str c certificate) (\<lambda>_.
     case get_pairing_session pairing_id db of
       None \<Rightarrow> Inl (Config (''unknown pairing session '' @ pairing_id))
     | Some s \<Rightarrow>
       if pairing_is_terminal (pg_state s) then Inl (already_settled s)
       else if pg_expires_at s < now
       then Inr (set_pairing (\<lambda>r. pg_pairing_id r = pairing_id) (\<lambda>r. r\<lparr>pg_state := PairExpired\<rparr>) db,
                 Inl (Config ''pairing session expired''))
       else if observed \<noteq> pg_short_authentication_string s
       then Inl (Config ''pairing code mismatch'')
       else let db1 = set_pairing (\<lambda>r. pg_pairing_id r = pairing_id \<and> pg_state r = PairPending)
                  (\<lambda>r. r\<lparr>pg_state := PairConfirmed, pg_certificate_json := Some certificate,
                         pg_confirmed_at := Some now\<rparr>) db
            in bind_r (upsert_identity_row (merge_paired_identity (paired_identity s now))
                         (paired_identity s now) db1) (\<lambda>db2.
               bind_r (insert_audit_event c (paired_audit s now) now db2) (\<lambda>(db3, _).
               Inr (db3, case get_pairing_session pairing_id db3 of
                     None \<Rightarrow> Inl (Config ''pairing confirmation disappeared'')
                   | Some s' \<Rightarrow> Inr s')))))"

definition abort_pairing_session ::
    "string \<Rightarrow> u64 \<Rightarrow> metadata_db \<Rightarrow> metadata_db \<times> pairing_session result" where
  "abort_pairing_session pairing_id now = run_tx (\<lambda>db.
     case get_pairing_session pairing_id db of
       None \<Rightarrow> Inl (Config (''unknown pairing session '' @ pairing_id))
     | Some s \<Rightarrow>
       if pairing_is_terminal (pg_state s) then Inl (already_settled s)
       else let db' = set_pairing (\<lambda>r. pg_pairing_id r = pairing_id)
                  (\<lambda>r. r\<lparr>pg_state := PairAborted, pg_aborted_at := Some now\<rparr>) db
            in Inr (db', case get_pairing_session pairing_id db' of
                     None \<Rightarrow> Inl (Config ''pairing abort disappeared'')
                   | Some s' \<Rightarrow> Inr s'))"

text \<open>The expiry comparison of \<open>expire_pairing_sessions\<close> is made by SQLite, on signed columns.\<close>

definition expired_pairing_ids :: "u64 \<Rightarrow> metadata_db \<Rightarrow> string list" where
  "expired_pairing_ids now db = map pg_pairing_id
     (sql_query (\<lambda>r. pg_state r = PairPending \<and> sint (pg_expires_at r) < sint now)
        (\<lambda>r. (sint (pg_expires_at r), pg_pairing_id r)) (db_pairings db))"

definition expire_pairing_sessions ::
    "u64 \<Rightarrow> metadata_db \<Rightarrow> metadata_db \<times> pairing_session list result" where
  "expire_pairing_sessions now db =
     (let ids = expired_pairing_ids now db;
          db' = foldl (\<lambda>d i. set_pairing (\<lambda>r. pg_pairing_id r = i) (\<lambda>r. r\<lparr>pg_state := PairExpired\<rparr>) d) db ids
      in (db', traverse (\<lambda>i. case get_pairing_session i db' of
                 None \<Rightarrow> Inl (Config ''expired pairing disappeared'') | Some s \<Rightarrow> Inr s) ids))"

end
