(* ===== verification/Pairing_Safety.thy ===== *)
theory Pairing_Safety
  imports Pairing_Db Handoff_Theorems
begin

text \<open>
  What pairing guarantees: the short code is six digits of the transcript hash, a session is
  confirmed only in time and with that code, a settled session never changes again, and the
  session's identity fields are fixed when it starts.
\<close>

section \<open>Effects\<close>

lemma set_pairing_sel [simp]:
  "db_pairings (set_pairing P f db) = update_rows P f (db_pairings db)"
  "db_fabrics (set_pairing P f db) = db_fabrics db"
  "db_identities (set_pairing P f db) = db_identities db"
  "db_leases (set_pairing P f db) = db_leases db"
  "db_revocations (set_pairing P f db) = db_revocations db"
  by (simp_all add: set_pairing_def)

lemma get_pairing_SomeE:
  assumes "get_pairing_session i db = Some s"
  obtains r where "sel_row pg_pairing_id i (db_pairings db) = Some r" "s = pairing_from_row r"
    "pg_pairing_id r = i"
  using assms by (auto simp: get_pairing_session_def dest: sel_row_SomeD)

lemma pairing_from_row_sel [simp]:
  "pg_state (pairing_from_row r) = pg_state r" "pg_pairing_id (pairing_from_row r) = pg_pairing_id r"
  "pg_short_authentication_string (pairing_from_row r) = pg_short_authentication_string r"
  "pg_expires_at (pairing_from_row r) = column_u64 (pg_expires_at r)"
  "pg_peer_device_id (pairing_from_row r) = pg_peer_device_id r"
  "pg_fabric_id (pairing_from_row r) = pg_fabric_id r"
  "pg_certificate_json (pairing_from_row r) = pg_certificate_json r"
  "pg_peer_signing_public_key_hex (pairing_from_row r) = pg_peer_signing_public_key_hex r"
  "pg_peer_network_public_key_hex (pairing_from_row r) = pg_peer_network_public_key_hex r"
  by (simp_all add: pairing_from_row_def)

lemma start_InrD:
  assumes "start_pairing_session c hash eph new_id now q db = (db', Inr s)"
  shows "db' = db\<lparr>db_pairings := db_pairings db @ [s]\<rparr> \<and> pg_pairing_id s = new_id
    \<and> new_id \<notin> pg_pairing_id ` set (db_pairings db) \<and> pg_state s = PairPending
    \<and> pg_fabric_id s \<in> fr_fabric_id ` set (db_fabrics db)
    \<and> pg_expires_at s = sat_add now (max (ps_ttl_seconds q) 1)
    \<and> pg_peer_device_id s = ps_peer_device_id q
    \<and> derive_short_authentication_string (pg_transcript_hash_hex s) = Inr (pg_short_authentication_string s)
    \<and> pg_transcript_hash_hex s = hash (js_print c (pairing_transcript (ps_fabric_id q)
         (ps_local_device_id q) (ps_peer_device_id q) (pg_local_ephemeral_public_key_hex s)
         (ps_peer_ephemeral_public_key_hex q) (ps_anchor_address q)))
    \<and> pg_confirmed_at s = None \<and> pg_certificate_json s = None \<and> validate_pairing_start q = Inr ()"
  using assms unfolding start_pairing_session_def run_tx_Inr_iff
  by (auto simp: tx_simps Let_def insert_pairing_row_def new_pairing_session_def
      compute_handshake_transcript_hash_def dest!: insert_row_SomeD split: option.splits if_splits)

lemma start_InlD: "start_pairing_session c hash eph new_id now q db = (db', Inl e) \<Longrightarrow> db' = db"
  unfolding start_pairing_session_def run_tx_Inl_iff by (auto simp: tx_simps Let_def)

lemma abort_pairing_cases:
  assumes "abort_pairing_session i now db = (db', r)"
  shows "(db' = db \<and> (\<exists>e. r = Inl e))
    \<or> (\<exists>s. get_pairing_session i db = Some s \<and> pg_state s = PairPending
        \<and> db' = set_pairing (\<lambda>r. pg_pairing_id r = i) (\<lambda>r. r\<lparr>pg_state := PairAborted, pg_aborted_at := Some now\<rparr>) db)"
  using assms unfolding abort_pairing_session_def run_tx_def
  by (auto simp: Let_def split: option.splits if_splits elim: pairing_is_terminal.elims)

lemma confirm_cases:
  assumes run: "confirm_pairing_session c i observed cert now db = (db', r)"
  shows "(db' = db \<and> (\<exists>e. r = Inl e))
    \<or> (\<exists>s. get_pairing_session i db = Some s \<and> pg_state s = PairPending \<and> pg_expires_at s < now
        \<and> (\<exists>e. r = Inl e)
        \<and> db' = set_pairing (\<lambda>r. pg_pairing_id r = i) (\<lambda>r. r\<lparr>pg_state := PairExpired\<rparr>) db)
    \<or> (\<exists>s a. get_pairing_session i db = Some s \<and> pg_state s = PairPending \<and> now \<le> pg_expires_at s
        \<and> observed = pg_short_authentication_string s
        \<and> db' = (set_pairing (\<lambda>r. pg_pairing_id r = i \<and> pg_state r = PairPending)
              (\<lambda>r. r\<lparr>pg_state := PairConfirmed, pg_certificate_json := Some cert, pg_confirmed_at := Some now\<rparr>) db)
            \<lparr>db_identities := upsert_row di_device_id (merge_paired_identity (paired_identity s now))
               (paired_identity s now) (db_identities db),
             db_audit := db_audit db @ [a], db_next_audit_id := Suc (db_next_audit_id db)\<rparr>
        \<and> ae_event_type a = DevicePaired \<and> ae_target_device_id a = Some (pg_peer_device_id s)
        \<and> (\<exists>s'. get_pairing_session i db' = Some s' \<and> r = Inr s'))"
  using run unfolding confirm_pairing_session_def
proof (cases rule: run_tx_cases)
  case rollback then show ?thesis by simp
next
  case commit
  let ?expired = "set_pairing (\<lambda>r. pg_pairing_id r = i) (\<lambda>r. r\<lparr>pg_state := PairExpired\<rparr>) db"
  obtain s where s: "get_pairing_session i db = Some s" "\<not> pairing_is_terminal (pg_state s)"
    using commit by (auto simp: tx_simps)
  then have p: "pg_state s = PairPending" by (auto elim: pairing_is_terminal.elims)
  show ?thesis
  proof (cases "pg_expires_at s < now")
    case True
    then show ?thesis using commit s p by (auto simp: tx_simps)
  next
    case False
    let ?db1 = "set_pairing (\<lambda>r. pg_pairing_id r = i \<and> pg_state r = PairPending)
        (\<lambda>r. r\<lparr>pg_state := PairConfirmed, pg_certificate_json := Some cert, pg_confirmed_at := Some now\<rparr>) db"
    obtain db2 a where code: "observed = pg_short_authentication_string s"
      and up: "upsert_identity_row (merge_paired_identity (paired_identity s now)) (paired_identity s now) ?db1 = Inr db2"
      and au: "insert_audit_event c (paired_audit s now) now db2 = Inr (db', a)"
      and r: "r = (case get_pairing_session i db' of
                     None \<Rightarrow> Inl (Config ''pairing confirmation disappeared'')
                   | Some s' \<Rightarrow> Inr s')"
      using commit s False by (auto simp: tx_simps Let_def)
    note up' = upsert_identity_row_InrD [OF up] and au' = insert_audit_InrD [OF au]
    have db': "db' = ?db1\<lparr>db_identities := upsert_row di_device_id (merge_paired_identity (paired_identity s now))
               (paired_identity s now) (db_identities db),
             db_audit := db_audit db @ [ar_row a], db_next_audit_id := Suc (db_next_audit_id db)\<rparr>"
      using up' au' by (simp add: set_pairing_def)
    obtain r0 where "sel_row pg_pairing_id i (db_pairings db) = Some r0"
      using s(1) by (rule get_pairing_SomeE)
    then have ex: "\<exists>s'. get_pairing_session i db' = Some s' \<and> r = Inr s'"
      using r by (simp add: db' get_pairing_session_def sel_row_update)
    have ev: "ae_event_type (ar_row a) = DevicePaired" "ae_target_device_id (ar_row a) = Some (pg_peer_device_id s)"
      using au' by (simp_all add: paired_audit_def audit_new_def)
    from False have le: "now \<le> pg_expires_at s" by simp
    show ?thesis
      by (rule disjI2, rule disjI2, rule exI [of _ s], rule exI [of _ "ar_row a"])
        (intro conjI s(1) p le code db' ev ex)
  qed
qed

text \<open>
  Expiring sessions sets the state of pending sessions only.
\<close>

lemma expire_fold:
  "db_pairings (foldl (\<lambda>d i. set_pairing (\<lambda>r. pg_pairing_id r = i) (\<lambda>r. r\<lparr>pg_state := PairExpired\<rparr>) d) db ids)
   = update_rows (\<lambda>r. pg_pairing_id r \<in> set ids) (\<lambda>r. r\<lparr>pg_state := PairExpired\<rparr>) (db_pairings db)"
  by (induction ids arbitrary: db) (auto simp: update_rows_def)

lemma expire_fold_others:
  "foldl (\<lambda>d i. set_pairing (\<lambda>r. pg_pairing_id r = i) (\<lambda>r. r\<lparr>pg_state := PairExpired\<rparr>) d) db ids
   = db\<lparr>db_pairings := db_pairings (foldl (\<lambda>d i. set_pairing (\<lambda>r. pg_pairing_id r = i) (\<lambda>r. r\<lparr>pg_state := PairExpired\<rparr>) d) db ids)\<rparr>"
proof (induction ids arbitrary: db)
  case (Cons i ids)
  from Cons.IH [of "set_pairing (\<lambda>r. pg_pairing_id r = i) (\<lambda>r. r\<lparr>pg_state := PairExpired\<rparr>) db"]
  show ?case by (simp add: set_pairing_def)
qed simp

lemma expire_effect:
  assumes "expire_pairing_sessions now db = (db', r)"
  shows "db' = db\<lparr>db_pairings := update_rows (\<lambda>r. pg_pairing_id r \<in> set (expired_pairing_ids now db))
      (\<lambda>r. r\<lparr>pg_state := PairExpired\<rparr>) (db_pairings db)\<rparr>"
  using assms expire_fold expire_fold_others [of db "expired_pairing_ids now db"]
  by (auto simp: expire_pairing_sessions_def Let_def)

section \<open>Runs of pairing operations\<close>

inductive pairing_step :: "json_codec \<Rightarrow> (string \<Rightarrow> string) \<Rightarrow> metadata_db \<Rightarrow> metadata_db \<Rightarrow> bool" for c hash where
  ps_start: "start_pairing_session c hash eph new_id now q db = (db', r) \<Longrightarrow> pairing_step c hash db db'"
| ps_confirm: "confirm_pairing_session c i observed cert now db = (db', r) \<Longrightarrow> pairing_step c hash db db'"
| ps_abort: "abort_pairing_session i now db = (db', r) \<Longrightarrow> pairing_step c hash db db'"
| ps_expire: "expire_pairing_sessions now db = (db', rs) \<Longrightarrow> pairing_step c hash db db'"

definition settles_to :: "pairing_session \<Rightarrow> pairing_session \<Rightarrow> bool" where
  "settles_to r r' \<longleftrightarrow>
     r' = r\<lparr>pg_state := pg_state r', pg_certificate_json := pg_certificate_json r',
             pg_confirmed_at := pg_confirmed_at r', pg_aborted_at := pg_aborted_at r'\<rparr>
     \<and> (pairing_is_terminal (pg_state r) \<longrightarrow> r' = r)"

lemma settles_refl [simp]: "settles_to r r"
  by (simp add: settles_to_def)

lemma settles_trans:
  assumes "settles_to a b" "settles_to b d"
  shows "settles_to a d"
proof -
  have "d = b\<lparr>pg_state := pg_state d, pg_certificate_json := pg_certificate_json d,
             pg_confirmed_at := pg_confirmed_at d, pg_aborted_at := pg_aborted_at d\<rparr>"
    using assms(2) unfolding settles_to_def by blast
  moreover have "b = a\<lparr>pg_state := pg_state b, pg_certificate_json := pg_certificate_json b,
             pg_confirmed_at := pg_confirmed_at b, pg_aborted_at := pg_aborted_at b\<rparr>"
    using assms(1) unfolding settles_to_def by blast
  ultimately have "d = a\<lparr>pg_state := pg_state d, pg_certificate_json := pg_certificate_json d,
             pg_confirmed_at := pg_confirmed_at d, pg_aborted_at := pg_aborted_at d\<rparr>"
    by (cases a, cases b, cases d) simp
  moreover have "pairing_is_terminal (pg_state a) \<longrightarrow> d = a"
    using assms unfolding settles_to_def by blast
  ultimately show ?thesis unfolding settles_to_def by blast
qed

definition pairing_row_ok :: "metadata_db \<Rightarrow> pairing_session \<Rightarrow> bool" where
  "pairing_row_ok db r \<longleftrightarrow>
     derive_short_authentication_string (pg_transcript_hash_hex r) = Inr (pg_short_authentication_string r)
     \<and> (pg_state r = PairConfirmed \<longrightarrow>
          (\<exists>t. pg_confirmed_at r = Some t \<and> t \<le> column_u64 (pg_expires_at r))
          \<and> pg_certificate_json r \<noteq> None \<and> pg_peer_device_id r \<in> di_device_id ` set (db_identities db))
     \<and> (pg_state r \<noteq> PairConfirmed \<longrightarrow> pg_confirmed_at r = None \<and> pg_certificate_json r = None)"

definition pairing_inv :: "metadata_db \<Rightarrow> bool" where
  "pairing_inv db \<longleftrightarrow> pk_wf pg_pairing_id (db_pairings db) \<and> (\<forall>r\<in>set (db_pairings db). pairing_row_ok db r)"

lemma upsert_keys:
  assumes "\<And>q. pk (f q) = pk q"
  shows "pk ` set (upsert_row pk f r rows) = insert (pk r) (pk ` set rows)"
proof -
  have "set (map pk (update_rows (\<lambda>q. pk q = pk r) f rows)) = set (map pk rows)"
    using update_rows_keys [where pk = pk and f = f] assms by metis
  then show ?thesis by (auto simp: upsert_row_def sel_row_None_iff)
qed

text \<open>One update of pending rows keeps the invariant and settles each row at most once.\<close>

lemma pairing_update:
  assumes I: "pairing_inv db"
    and rows: "db_pairings db' = update_rows P f (db_pairings db)"
    and ids: "di_device_id ` set (db_identities db) \<subseteq> di_device_id ` set (db_identities db')"
    and pend: "\<And>r. r \<in> set (db_pairings db) \<Longrightarrow> P r \<Longrightarrow> pg_state r = PairPending"
    and step: "\<And>r. pg_pairing_id (f r) = pg_pairing_id r"
      "\<And>r. f r = r\<lparr>pg_state := pg_state (f r), pg_certificate_json := pg_certificate_json (f r),
             pg_confirmed_at := pg_confirmed_at (f r), pg_aborted_at := pg_aborted_at (f r)\<rparr>"
    and ok: "\<And>r. r \<in> set (db_pairings db) \<Longrightarrow> P r \<Longrightarrow> pairing_row_ok db r \<Longrightarrow> pairing_row_ok db' (f r)"
  shows "pairing_inv db' \<and> (\<forall>i r. sel_row pg_pairing_id i (db_pairings db) = Some r \<longrightarrow>
    (\<exists>r'. sel_row pg_pairing_id i (db_pairings db') = Some r' \<and> settles_to r r'))"
proof (intro conjI allI impI)
  have mono: "pairing_row_ok db r \<Longrightarrow> pairing_row_ok db' r" for r
    using ids by (auto simp: pairing_row_ok_def)
  show "pairing_inv db'"
    using I ok mono by (auto simp: pairing_inv_def rows step(1) pk_wf_update set_update_rows)
  fix i r assume r: "sel_row pg_pairing_id i (db_pairings db) = Some r"
  then have "r \<in> set (db_pairings db)" by (auto dest: sel_row_SomeD)
  then have "settles_to r (if P r then f r else r)"
    using pend [of r] step(2) [of r] by (auto simp: settles_to_def)
  with r show "\<exists>r'. sel_row pg_pairing_id i (db_pairings db') = Some r' \<and> settles_to r r'"
    by (simp add: rows sel_row_update step(1))
qed

lemma pairing_step_spec:
  assumes I: "pairing_inv db" and step: "pairing_step c hash db db'"
  shows "pairing_inv db' \<and> (\<forall>i r. sel_row pg_pairing_id i (db_pairings db) = Some r \<longrightarrow>
    (\<exists>r'. sel_row pg_pairing_id i (db_pairings db') = Some r' \<and> settles_to r r'))"
  using step
proof (cases rule: pairing_step.cases)
  case (ps_start eph new_id now q r)
  show ?thesis
  proof (cases r)
    case (Inl e)
    have "db' = db" by (rule start_InlD [OF ps_start [unfolded Inl]])
    with I show ?thesis by auto
  next
    case (Inr s)
    note s = start_InrD [OF ps_start [unfolded Inr]]
    have n: "derive_short_authentication_string (pg_transcript_hash_hex s) = Inr (pg_short_authentication_string s)"
      "pg_state s = PairPending" "pg_confirmed_at s = None" "pg_certificate_json s = None"
      using s by blast+
    have "pairing_row_ok db' s" by (simp add: pairing_row_ok_def n)
    moreover have "pairing_row_ok db' r" if "pairing_row_ok db r" for r
      using that s by (auto simp: pairing_row_ok_def)
    ultimately have "pairing_inv db'" using I s by (auto simp: pairing_inv_def)
    with s show ?thesis by (auto simp: sel_row_append split: option.splits)
  qed
next
  case (ps_confirm i observed cert now r)
  have uniq: "q = r0" if "q \<in> set (db_pairings db)" "pg_pairing_id q = i"
      "sel_row pg_pairing_id i (db_pairings db) = Some r0" for q r0
    using sel_row_mem [of pg_pairing_id "db_pairings db" q] I that by (simp add: pairing_inv_def)
  from confirm_cases [OF ps_confirm] show ?thesis
  proof (elim disjE exE conjE)
    fix s assume s: "get_pairing_session i db = Some s" "pg_state s = PairPending"
      and db': "db' = set_pairing (\<lambda>r. pg_pairing_id r = i) (\<lambda>r. r\<lparr>pg_state := PairExpired\<rparr>) db"
    obtain r0 where r0: "sel_row pg_pairing_id i (db_pairings db) = Some r0" "s = pairing_from_row r0"
      using s(1) by (rule get_pairing_SomeE)
    have pend: "pg_state q = PairPending" if "q \<in> set (db_pairings db)" "pg_pairing_id q = i" for q
      using uniq [OF that r0(1)] s(2) r0(2) by simp
    show ?thesis
      by (rule pairing_update [OF I, where P = "\<lambda>r. pg_pairing_id r = i" and f = "\<lambda>r. r\<lparr>pg_state := PairExpired\<rparr>"])
        (use db' pend in \<open>auto simp: pairing_row_ok_def\<close>)
  next
    fix s a assume s: "get_pairing_session i db = Some s" "pg_state s = PairPending" "now \<le> pg_expires_at s"
      and db': "db' = (set_pairing (\<lambda>r. pg_pairing_id r = i \<and> pg_state r = PairPending)
              (\<lambda>r. r\<lparr>pg_state := PairConfirmed, pg_certificate_json := Some cert, pg_confirmed_at := Some now\<rparr>) db)
            \<lparr>db_identities := upsert_row di_device_id (merge_paired_identity (paired_identity s now))
               (paired_identity s now) (db_identities db),
             db_audit := db_audit db @ [a], db_next_audit_id := Suc (db_next_audit_id db)\<rparr>"
    obtain r0 where r0: "sel_row pg_pairing_id i (db_pairings db) = Some r0" "s = pairing_from_row r0"
      using s(1) by (rule get_pairing_SomeE)
    have ids: "di_device_id ` set (db_identities db') = insert (pg_peer_device_id s) (di_device_id ` set (db_identities db))"
      by (simp add: db' upsert_keys merge_paired_identity_def) (simp add: paired_identity_def)
    show ?thesis
    proof (rule pairing_update [OF I, where P = "\<lambda>r. pg_pairing_id r = i \<and> pg_state r = PairPending"
            and f = "\<lambda>r. r\<lparr>pg_state := PairConfirmed, pg_certificate_json := Some cert, pg_confirmed_at := Some now\<rparr>"])
      show "db_pairings db' = update_rows (\<lambda>r. pg_pairing_id r = i \<and> pg_state r = PairPending)
          (\<lambda>r. r\<lparr>pg_state := PairConfirmed, pg_certificate_json := Some cert, pg_confirmed_at := Some now\<rparr>) (db_pairings db)"
        by (simp add: db')
      show "di_device_id ` set (db_identities db) \<subseteq> di_device_id ` set (db_identities db')"
        unfolding ids by blast
      fix q assume q: "q \<in> set (db_pairings db)" "pg_pairing_id q = i \<and> pg_state q = PairPending" "pairing_row_ok db q"
      then have "q = r0" using uniq r0(1) by blast
      then have "now \<le> column_u64 (pg_expires_at q)" "pg_peer_device_id q = pg_peer_device_id s"
        using s(3) r0(2) by simp_all
      then show "pairing_row_ok db' (q\<lparr>pg_state := PairConfirmed, pg_certificate_json := Some cert, pg_confirmed_at := Some now\<rparr>)"
        using q(3) unfolding pairing_row_ok_def ids by simp
    qed simp_all
  qed (use I in auto)
next
  case (ps_abort i now r)
  have uniq: "q = r0" if "q \<in> set (db_pairings db)" "pg_pairing_id q = i"
      "sel_row pg_pairing_id i (db_pairings db) = Some r0" for q r0
    using sel_row_mem [of pg_pairing_id "db_pairings db" q] I that by (simp add: pairing_inv_def)
  from abort_pairing_cases [OF ps_abort] show ?thesis
  proof (elim disjE exE conjE)
    fix s assume s: "get_pairing_session i db = Some s" "pg_state s = PairPending"
      and db': "db' = set_pairing (\<lambda>r. pg_pairing_id r = i) (\<lambda>r. r\<lparr>pg_state := PairAborted, pg_aborted_at := Some now\<rparr>) db"
    obtain r0 where r0: "sel_row pg_pairing_id i (db_pairings db) = Some r0" "s = pairing_from_row r0"
      using s(1) by (rule get_pairing_SomeE)
    have pend: "pg_state q = PairPending" if "q \<in> set (db_pairings db)" "pg_pairing_id q = i" for q
      using uniq [OF that r0(1)] s(2) r0(2) by simp
    show ?thesis
      by (rule pairing_update [OF I, where P = "\<lambda>r. pg_pairing_id r = i"
            and f = "\<lambda>r. r\<lparr>pg_state := PairAborted, pg_aborted_at := Some now\<rparr>"])
        (use db' pend in \<open>auto simp: pairing_row_ok_def\<close>)
  qed (use I in auto)
next
  case (ps_expire now rs)
  note eff = expire_effect [OF ps_expire]
  have pend: "pg_state r = PairPending" if "r \<in> set (db_pairings db)" "pg_pairing_id r \<in> set (expired_pairing_ids now db)" for r
    using that I pk_eq [of pg_pairing_id "db_pairings db" r]
    by (auto simp: expired_pairing_ids_def pairing_inv_def)
  show ?thesis
    by (rule pairing_update [OF I, where P = "\<lambda>r. pg_pairing_id r \<in> set (expired_pairing_ids now db)"
          and f = "\<lambda>r. r\<lparr>pg_state := PairExpired\<rparr>"])
      (use eff pend in \<open>auto simp: pairing_row_ok_def\<close>)
qed

interpretation pairing: safe_system "\<lambda>db. db_pairings db = []" "pairing_step c hash" pairing_inv for c hash
proof unfold_locales
  fix db :: metadata_db assume "db_pairings db = []"
  then show "pairing_inv db" by (simp add: pairing_inv_def pk_wf_def)
next
  fix a b assume "pairing_inv a" "pairing_step c hash a b"
  then show "pairing_inv b" using pairing_step_spec by blast
qed

lemma pairing_run_settles:
  assumes "(pairing_step c hash)\<^sup>*\<^sup>* db db'" "pairing_inv db" "sel_row pg_pairing_id i (db_pairings db) = Some r"
  shows "\<exists>r'. sel_row pg_pairing_id i (db_pairings db') = Some r' \<and> settles_to r r'"
  using assms(1)
proof (induction rule: rtranclp_induct)
  case base with assms(3) show ?case by auto
next
  case (step a b)
  have "pairing_inv a" using pairing.star_inv step.hyps(1) assms(2) by blast
  from pairing_step_spec [OF this step.hyps(2)] step.IH show ?case
    using settles_trans by blast
qed

lemma column_le_id: "t \<le> column_u64 w \<Longrightarrow> column_u64 t = t"
proof -
  assume t: "t \<le> column_u64 w"
  have "unat (column_u64 w) < 2 ^ 63"
    by (cases "unat w < 2 ^ 63") (simp_all add: column_u64_id column_u64_zero)
  with t have "unat t < 2 ^ 63" by (simp add: word_le_nat_alt)
  then show ?thesis by (rule column_u64_id)
qed

section \<open>Sample data\<close>

definition ex_key :: string where
  "ex_key = replicate 64 (CHR ''a'')"

definition ex_pair_request :: pairing_start_request where
  "ex_pair_request = \<lparr>ps_fabric_id = ''f1'', ps_local_device_id = ''a'', ps_peer_device_id = ''b'',
     ps_peer_display_name = ''Laptop'', ps_peer_signing_public_key_hex = ex_key,
     ps_peer_network_public_key_hex = ex_key, ps_peer_ephemeral_public_key_hex = ex_key,
     ps_anchor_address = None, ps_ttl_seconds = 60\<rparr>"

definition ex_fabric_db :: metadata_db where
  "ex_fabric_db = empty_db\<lparr>db_fabrics := [\<lparr>fr_fabric_id = ''f1'', fr_fabric_name = ''Home'',
     fr_root_public_key_hex = ex_key, fr_created_at = 50, fr_rotation_epoch = 0\<rparr>]\<rparr>"

definition ex_pairing :: pairing_session where
  "ex_pairing = new_pairing_session ex_pair_request ''pa_1'' ex_key ex_key ''311530'' 100"

definition ex_pairing_db :: metadata_db where
  "ex_pairing_db = ex_fabric_db\<lparr>db_pairings := [ex_pairing]\<rparr>"

lemma ex_key_hex: "validate_key_hex f ex_key = Inr ()"
  by (simp add: validate_key_hex_def ex_key_def list_all_iff is_ascii_hexdigit_def)

lemma ex_sas: "derive_short_authentication_string ex_key = Inr ''311530''"
proof -
  have "take 8 ex_key = ''aaaaaaaa''" by (simp add: ex_key_def eval_nat_numeral)
  then have "hex_value (take 8 ex_key) mod 1000000 = 311530"
    by (simp add: hex_value_def hex_digit_value_def is_ascii_digit_def)
  moreover have "dec_nat 311530 = ''311530''" by (simp add: dec_nat.simps char_of_def bit_iff_odd)
  moreover have "list_all is_ascii_hexdigit ex_key" "length ex_key = 64"
    by (simp_all add: ex_key_def list_all_iff is_ascii_hexdigit_def)
  ultimately show ?thesis by (simp add: derive_short_authentication_string_def pad_left_def)
qed

lemma ex_started: "start_pairing_session ex_codec (\<lambda>_. ex_key) (Inr ex_key) ''pa_1'' 100 ex_pair_request ex_fabric_db
    = (ex_pairing_db, Inr ex_pairing)"
  by (simp add: start_pairing_session_def validate_pairing_start_def validate_non_empty_def ex_key_hex
      compute_handshake_transcript_hash_def ex_sas run_tx_def Let_def insert_pairing_row_def insert_row_def
      ex_pairing_db_def ex_pairing_def, simp add: ex_pair_request_def ex_fabric_db_def ex_key_hex
      new_pairing_session_def empty_db_def ex_sas)

lemma ex_confirmed: "\<exists>db s. confirm_pairing_session ex_codec ''pa_1'' ''311530'' ''{}'' 120 ex_pairing_db = (db, Inr s)
    \<and> get_pairing_session ''pa_1'' db = Some s \<and> pg_state s = PairConfirmed"
  by (simp add: confirm_pairing_session_def ex_pairing_db_def ex_pairing_def new_pairing_session_def
      ex_pair_request_def ex_fabric_db_def ex_codec_def from_str_def get_pairing_session_def
      pairing_from_row_def sat_add_def column_u64_id max_def word_le_nat_alt run_tx_def Let_def set_pairing_def
      upsert_identity_row_def paired_identity_def insert_audit_event_def validate_audit_input_def
      paired_audit_def audit_new_def not_trims_to_empty is_ascii_space_def update_rows_def empty_db_def)

lemma ex_reached:
  assumes "confirm_pairing_session ex_codec i code cert now ex_pairing_db = (db, r)"
  shows "reach (\<lambda>db. db_pairings db = []) (pairing_step ex_codec (\<lambda>_. ex_key)) db"
proof -
  have "reach (\<lambda>db. db_pairings db = []) (pairing_step ex_codec (\<lambda>_. ex_key)) ex_fabric_db"
    by (rule reach_init) (simp add: ex_fabric_db_def empty_db_def)
  then have "reach (\<lambda>db. db_pairings db = []) (pairing_step ex_codec (\<lambda>_. ex_key)) ex_pairing_db"
    by (rule reach_step) (rule ps_start [OF ex_started])
  then show ?thesis by (rule reach_step) (rule ps_confirm [OF assms])
qed

section \<open>Properties\<close>

text \<open>
  The short authentication string is always exactly six decimal digits, and they are the
  decimal value of the first 32 bits of the transcript hash modulo one million.
\<close>

theorem sas_is_six_digits:
  assumes "derive_short_authentication_string h = Inr code"
  shows "length code = 6 \<and> list_all is_ascii_digit code
    \<and> dec_value code = hex_value (take 8 h) mod 1000000"
proof -
  let ?n = "hex_value (take 8 h) mod 1000000"
  have code: "code = replicate (6 - length (dec_nat ?n)) (CHR ''0'') @ dec_nat ?n"
    using assms by (auto simp: derive_short_authentication_string_def pad_left_def split: if_splits)
  have "length (dec_nat ?n) \<le> 6" by (rule dec_nat_length) simp_all
  moreover have "dec_value code = ?n"
    unfolding code dec_value_zeros by (rule dec_nat_value)
  moreover have "is_ascii_digit (CHR ''0'')" by (simp add: is_ascii_digit_def)
  ultimately show ?thesis using dec_nat_digits [of ?n] by (auto simp: code list_all_iff)
qed

theorem sas_is_six_digits_witness:
  "derive_short_authentication_string ex_key = Inr ''311530'' \<and> list_all is_ascii_digit ''311530''
     \<and> dec_value ''311530'' = hex_value (take 8 ex_key) mod 1000000"
  using sas_is_six_digits [OF ex_sas] ex_sas by blast

text \<open>
  C17. Only the code confirms a pairing. A confirmation either fails and leaves the database as
  it was, or it fails on an overdue session and marks it expired; or the session was pending and
  in time, the observed code was its short code, and the session is now confirmed with the
  certificate, the peer's identity carries the session's keys, and an audit event is written.
  Leases and revocations are untouched in every case.
\<close>

theorem confirm_requires_code:
  assumes run: "confirm_pairing_session c i observed cert now db = (db', r)"
  shows "db_leases db' = db_leases db \<and> db_revocations db' = db_revocations db
    \<and> (case r of
        Inl e \<Rightarrow> db' = db
          \<or> (\<exists>s s'. get_pairing_session i db = Some s \<and> pg_expires_at s < now
               \<and> get_pairing_session i db' = Some s' \<and> pg_state s' = PairExpired
               \<and> db_identities db' = db_identities db)
      | Inr s' \<Rightarrow> \<exists>s d. get_pairing_session i db = Some s \<and> pg_state s = PairPending
          \<and> now \<le> pg_expires_at s \<and> observed = pg_short_authentication_string s
          \<and> get_pairing_session i db' = Some s' \<and> pg_state s' = PairConfirmed
          \<and> pg_certificate_json s' = Some cert
          \<and> get_device_public_identity (pg_peer_device_id s) db' = Some d
          \<and> di_signing_public_key_hex d = pg_peer_signing_public_key_hex s
          \<and> di_network_public_key_hex d = pg_peer_network_public_key_hex s
          \<and> di_fabric_id d = pg_fabric_id s
          \<and> length (db_audit db') = Suc (length (db_audit db)))"
  using confirm_cases [OF run]
proof (elim disjE exE conjE)
  fix s e assume s: "get_pairing_session i db = Some s" "pg_expires_at s < now" "r = Inl e"
    and db': "db' = set_pairing (\<lambda>r. pg_pairing_id r = i) (\<lambda>r. r\<lparr>pg_state := PairExpired\<rparr>) db"
  obtain r0 where r0: "sel_row pg_pairing_id i (db_pairings db) = Some r0" "pg_pairing_id r0 = i"
    using s(1) by (rule get_pairing_SomeE)
  have "get_pairing_session i db' = Some (pairing_from_row (r0\<lparr>pg_state := PairExpired\<rparr>))"
    using r0 by (simp add: get_pairing_session_def db' sel_row_update)
  with s show ?thesis by (auto simp: db')
next
  fix s a s' assume s: "get_pairing_session i db = Some s" "pg_state s = PairPending" "now \<le> pg_expires_at s"
      "observed = pg_short_authentication_string s" and r: "r = Inr s'" and get: "get_pairing_session i db' = Some s'"
    and db': "db' = (set_pairing (\<lambda>r. pg_pairing_id r = i \<and> pg_state r = PairPending)
              (\<lambda>r. r\<lparr>pg_state := PairConfirmed, pg_certificate_json := Some cert, pg_confirmed_at := Some now\<rparr>) db)
            \<lparr>db_identities := upsert_row di_device_id (merge_paired_identity (paired_identity s now))
               (paired_identity s now) (db_identities db),
             db_audit := db_audit db @ [a], db_next_audit_id := Suc (db_next_audit_id db)\<rparr>"
  obtain r0 where r0: "sel_row pg_pairing_id i (db_pairings db) = Some r0" "pg_pairing_id r0 = i" "s = pairing_from_row r0"
    using s(1) by (rule get_pairing_SomeE)
  have "s' = pairing_from_row (r0\<lparr>pg_state := PairConfirmed, pg_certificate_json := Some cert, pg_confirmed_at := Some now\<rparr>)"
    using get r0 s by (simp add: get_pairing_session_def db' sel_row_update)
  then have s': "pg_state s' = PairConfirmed" "pg_certificate_json s' = Some cert" by simp_all
  let ?d = "case sel_row di_device_id (pg_peer_device_id s) (db_identities db) of
      None \<Rightarrow> paired_identity s now | Some q \<Rightarrow> merge_paired_identity (paired_identity s now) q"
  have "sel_row di_device_id (pg_peer_device_id s) (db_identities db') = Some ?d"
    by (simp add: db' sel_row_upsert merge_paired_identity_def) (simp add: paired_identity_def)
  then have "get_device_public_identity (pg_peer_device_id s) db' = Some (identity_from_row ?d)"
    by (simp add: get_device_public_identity_def)
  moreover have "di_signing_public_key_hex (identity_from_row ?d) = pg_peer_signing_public_key_hex s"
    "di_network_public_key_hex (identity_from_row ?d) = pg_peer_network_public_key_hex s"
    "di_fabric_id (identity_from_row ?d) = pg_fabric_id s"
    by (auto simp: identity_from_row_def merge_paired_identity_def paired_identity_def split: option.split)
  ultimately show ?thesis using s s' r get by (auto simp: db')
qed auto

theorem confirm_requires_code_witness:
  "\<exists>db s d. confirm_pairing_session ex_codec ''pa_1'' ''311530'' ''{}'' 120 ex_pairing_db = (db, Inr s)
     \<and> get_device_public_identity ''b'' db = Some d \<and> di_signing_public_key_hex d = ex_key"
proof -
  obtain db s where run: "confirm_pairing_session ex_codec ''pa_1'' ''311530'' ''{}'' 120 ex_pairing_db = (db, Inr s)"
    using ex_confirmed by blast
  have "get_pairing_session ''pa_1'' ex_pairing_db = Some (pairing_from_row ex_pairing)"
    by (simp add: get_pairing_session_def ex_pairing_db_def ex_pairing_def new_pairing_session_def)
  with confirm_requires_code [OF run] run show ?thesis
    by (auto simp: ex_pairing_def new_pairing_session_def ex_pair_request_def)
qed

text \<open>
  A settled pairing is final: in any run of pairing operations, whatever they are and
  however they end, a session that is confirmed, aborted or expired reads back exactly the same
  ever after, and a pending one keeps every field that was bound when it was started.
\<close>

theorem settled_pairing_is_final:
  assumes run: "(pairing_step c hash)\<^sup>*\<^sup>* db db'" and inv: "pairing_inv db"
    and s: "get_pairing_session i db = Some s"
  shows "\<exists>s'. get_pairing_session i db' = Some s' \<and> (pairing_is_terminal (pg_state s) \<longrightarrow> s' = s)
    \<and> pg_peer_device_id s' = pg_peer_device_id s \<and> pg_transcript_hash_hex s' = pg_transcript_hash_hex s
    \<and> pg_short_authentication_string s' = pg_short_authentication_string s
    \<and> pg_peer_signing_public_key_hex s' = pg_peer_signing_public_key_hex s
    \<and> pg_expires_at s' = pg_expires_at s"
proof -
  obtain r where r: "sel_row pg_pairing_id i (db_pairings db) = Some r" "s = pairing_from_row r"
    using s by (rule get_pairing_SomeE)
  from pairing_run_settles [OF run inv r(1)] obtain r' where
    r': "sel_row pg_pairing_id i (db_pairings db') = Some r'" and set: "settles_to r r'" by blast
  have eq: "r' = r\<lparr>pg_state := pg_state r', pg_certificate_json := pg_certificate_json r',
             pg_confirmed_at := pg_confirmed_at r', pg_aborted_at := pg_aborted_at r'\<rparr>"
    using set unfolding settles_to_def by blast
  have "pg_peer_device_id r' = pg_peer_device_id r" "pg_transcript_hash_hex r' = pg_transcript_hash_hex r"
    "pg_short_authentication_string r' = pg_short_authentication_string r"
    "pg_peer_signing_public_key_hex r' = pg_peer_signing_public_key_hex r" "pg_expires_at r' = pg_expires_at r"
    by (subst eq, simp)+
  moreover have "pairing_is_terminal (pg_state r) \<longrightarrow> r' = r" using set by (simp add: settles_to_def)
  ultimately show ?thesis using r' r(2)
    by (auto simp: get_pairing_session_def pairing_from_row_def)
qed

theorem settled_pairing_is_final_witness:
  "\<exists>db s db'. get_pairing_session ''pa_1'' db = Some s \<and> pg_state s = PairConfirmed
     \<and> db' = fst (abort_pairing_session ''pa_1'' 130 db) \<and> get_pairing_session ''pa_1'' db' = Some s"
proof -
  obtain db s where run: "confirm_pairing_session ex_codec ''pa_1'' ''311530'' ''{}'' 120 ex_pairing_db = (db, Inr s)"
    and s: "get_pairing_session ''pa_1'' db = Some s" "pg_state s = PairConfirmed"
    using ex_confirmed by blast
  have inv: "pairing_inv db" by (rule pairing.reach_inv [OF ex_reached [OF run]])
  have "(pairing_step ex_codec (\<lambda>_. ex_key))\<^sup>*\<^sup>* db (fst (abort_pairing_session ''pa_1'' 130 db))"
    by (intro r_into_rtranclp ps_abort [OF surjective_pairing])
  from settled_pairing_is_final [OF this inv s(1)] s show ?thesis by auto
qed

text \<open>
  C18. In every database reached from one without pairings, each session's short code is derived
  from its transcript, and a confirmed session was confirmed no later than its expiry, holds a
  certificate, and its peer has a recorded public identity.
\<close>

theorem confirmed_pairing_is_genuine:
  assumes reach: "reach (\<lambda>db. db_pairings db = []) (pairing_step c hash) db"
    and s: "get_pairing_session i db = Some s"
  shows "derive_short_authentication_string (pg_transcript_hash_hex s) = Inr (pg_short_authentication_string s)
    \<and> (pg_state s = PairConfirmed \<longrightarrow> (\<exists>t. pg_confirmed_at s = Some t \<and> t \<le> pg_expires_at s)
        \<and> pg_certificate_json s \<noteq> None \<and> get_device_public_identity (pg_peer_device_id s) db \<noteq> None)"
proof -
  obtain r where r: "sel_row pg_pairing_id i (db_pairings db) = Some r" "s = pairing_from_row r"
    using s by (rule get_pairing_SomeE)
  then have "pairing_row_ok db r"
    using pairing.reach_inv [OF reach] by (auto simp: pairing_inv_def dest: sel_row_SomeD)
  moreover have "get_device_public_identity d db \<noteq> None" if "d \<in> di_device_id ` set (db_identities db)" for d
    using that by (simp add: get_device_public_identity_def sel_row_None_iff del: not_None_eq)
  ultimately show ?thesis using r(2)
    by (auto simp: pairing_row_ok_def pairing_from_row_def column_le_id simp del: not_None_eq)
qed

theorem confirmed_pairing_is_genuine_witness:
  "\<exists>db s t. get_pairing_session ''pa_1'' db = Some s \<and> pg_confirmed_at s = Some t \<and> t \<le> pg_expires_at s"
proof -
  obtain db s where run: "confirm_pairing_session ex_codec ''pa_1'' ''311530'' ''{}'' 120 ex_pairing_db = (db, Inr s)"
    and s: "get_pairing_session ''pa_1'' db = Some s" "pg_state s = PairConfirmed"
    using ex_confirmed by blast
  from confirmed_pairing_is_genuine [OF ex_reached [OF run] s(1)] s show ?thesis by auto
qed

end
