(* ===== verification/Trust_Db.thy ===== *)
theory Trust_Db
  imports Handoff_Theorems
begin

text \<open>
  Command trust decisions of \<open>storage.rs\<close>: a decision is recorded for a project, device, scope
  and command hash; evaluation looks at the latest decision for the exact hash, and an
  \<open>allow-once\<close> approval is consumed by the authorization that uses it.
\<close>

section \<open>Decisions\<close>

fun trust_decision_as_str :: "trust_decision \<Rightarrow> string" where
  "trust_decision_as_str AllowOnce = ''allow-once''"
| "trust_decision_as_str TrustThisVersion = ''trust-this-version''"
| "trust_decision_as_str RejectCommand = ''reject''"

definition parse_trust_decision :: "string \<Rightarrow> trust_decision option" where
  "parse_trust_decision s =
     (if s = ''allow-once'' then Some AllowOnce
      else if s = ''trust-this-version'' then Some TrustThisVersion
      else if s = ''reject'' then Some RejectCommand else None)"

fun trust_is_approval :: "trust_decision \<Rightarrow> bool" where
  "trust_is_approval RejectCommand = False"
| "trust_is_approval _ = True"

datatype trust_status = ApprovedOnce | Trusted | Rejected | Changed | Unapproved

fun status_approved :: "trust_status \<Rightarrow> bool" where
  "status_approved ApprovedOnce = True"
| "status_approved Trusted = True"
| "status_approved _ = False"

record trust_evaluation =
  te_status :: trust_status
  te_approval :: "command_trust_record option"
  te_previous_hash :: "string option"

definition trust_from_row :: "command_trust_record \<Rightarrow> command_trust_record" where
  "trust_from_row r = r\<lparr>ct_consumed_at := map_option column_u64 (ct_consumed_at r),
     ct_created_at := column_u64 (ct_created_at r)\<rparr>"

definition validate_command_trust_input :: "string \<Rightarrow> string \<Rightarrow> string \<Rightarrow> string \<Rightarrow> unit result" where
  "validate_command_trust_input project device scope hash =
     bind_r (validate_non_empty ''project_id'' project) (\<lambda>_.
     bind_r (validate_non_empty ''device_id'' device) (\<lambda>_.
     bind_r (validate_non_empty ''command_scope'' scope) (\<lambda>_.
     if trims_to_empty scope then Inl (Config ''command_scope must not be blank'')
     else if length hash \<noteq> 64 \<or> \<not> list_all is_lower_hexdigit hash
     then Inl (Config ''command_hash must be a 64-character lowercase hex digest'')
     else Inr ())))"

definition trust_audit :: "string \<Rightarrow> string \<Rightarrow> string \<Rightarrow> string \<Rightarrow> trust_decision \<Rightarrow> audit_event_input" where
  "trust_audit project device scope hash d =
     ((if trust_is_approval d
       then audit_new CommandApproved AuditSucceeded (''approved command hash for '' @ scope)
              (JObj [(''command_scope'', JStr scope), (''command_hash'', JStr hash),
                     (''decision'', JStr (trust_decision_as_str d))])
       else audit_new SecurityBlocked AuditBlocked (''rejected command hash for '' @ scope)
              (JObj [(''command_scope'', JStr scope), (''command_hash'', JStr hash),
                     (''decision'', JStr (trust_decision_as_str d))])))
     \<lparr>ai_project_id := Some project, ai_actor_device_id := Some device\<rparr>"

definition record_command_trust_decision_at ::
    "json_codec \<Rightarrow> string \<Rightarrow> string \<Rightarrow> string \<Rightarrow> string \<Rightarrow> trust_decision \<Rightarrow> u64
      \<Rightarrow> metadata_db \<Rightarrow> metadata_db \<times> command_trust_record result" where
  "record_command_trust_decision_at c project device scope hash d now = run_tx (\<lambda>db.
     bind_r (validate_command_trust_input project device scope hash) (\<lambda>_.
     if project \<notin> pj_project_id ` set (db_projects db) then Inl sqlite_foreign_key_violation
     else let r = \<lparr>ct_approval_id = db_next_approval_id db, ct_project_id = project,
                  ct_device_id = device, ct_command_scope = scope, ct_command_hash = hash,
                  ct_decision = d, ct_consumed_at = None, ct_created_at = now\<rparr>;
              db1 = db\<lparr>db_trust := db_trust db @ [r],
                       db_next_approval_id := Suc (db_next_approval_id db)\<rparr>
          in bind_r (insert_audit_event c (trust_audit project device scope hash d) now db1)
               (\<lambda>(db2, _). Inr (db2, Inr r))))"

section \<open>Evaluation and authorization\<close>

definition trust_matches :: "string \<Rightarrow> string \<Rightarrow> string \<Rightarrow> string option \<Rightarrow> command_trust_record \<Rightarrow> bool" where
  "trust_matches project device scope hash r \<longleftrightarrow>
     ct_project_id r = project \<and> ct_device_id r = device \<and> ct_command_scope r = scope
     \<and> (case hash of None \<Rightarrow> True | Some h \<Rightarrow> ct_command_hash r = h)"

definition latest_command_trust_record ::
    "string \<Rightarrow> string \<Rightarrow> string \<Rightarrow> string option \<Rightarrow> metadata_db \<Rightarrow> command_trust_record option" where
  "latest_command_trust_record project device scope hash db =
     map_option trust_from_row (sql_first (trust_matches project device scope hash)
       (\<lambda>r. (- sint (ct_created_at r), - int (ct_approval_id r))) (db_trust db))"

definition record_status :: "command_trust_record \<Rightarrow> trust_status option" where
  "record_status r =
     (case ct_decision r of
        AllowOnce \<Rightarrow> (if ct_consumed_at r = None then Some ApprovedOnce else None)
      | TrustThisVersion \<Rightarrow> Some Trusted
      | RejectCommand \<Rightarrow> Some Rejected)"

definition evaluate_command_trust ::
    "string \<Rightarrow> string \<Rightarrow> string \<Rightarrow> string \<Rightarrow> metadata_db \<Rightarrow> trust_evaluation result" where
  "evaluate_command_trust project device scope hash db =
     bind_r (validate_command_trust_input project device scope hash) (\<lambda>_.
     let exact = latest_command_trust_record project device scope (Some hash) db
     in case Option.bind exact record_status of
          Some st \<Rightarrow> Inr \<lparr>te_status = st, te_approval = exact, te_previous_hash = None\<rparr>
        | None \<Rightarrow>
            (case latest_command_trust_record project device scope None db of
               Some p \<Rightarrow>
                 if ct_command_hash p \<noteq> hash
                 then Inr \<lparr>te_status = Changed, te_approval = Some p,
                           te_previous_hash = Some (ct_command_hash p)\<rparr>
                 else Inr \<lparr>te_status = Unapproved, te_approval = None, te_previous_hash = None\<rparr>
             | None \<Rightarrow> Inr \<lparr>te_status = Unapproved, te_approval = None, te_previous_hash = None\<rparr>))"

definition authorize_command_trust_at ::
    "string \<Rightarrow> string \<Rightarrow> string \<Rightarrow> string \<Rightarrow> u64 \<Rightarrow> metadata_db \<Rightarrow> metadata_db \<times> trust_evaluation result" where
  "authorize_command_trust_at project device scope hash now db =
     (case evaluate_command_trust project device scope hash db of
        Inl e \<Rightarrow> (db, Inl e)
      | Inr ev \<Rightarrow>
          if te_status ev \<noteq> ApprovedOnce then (db, Inr ev)
          else (case te_approval ev of
              None \<Rightarrow> (db, Inr ev)
            | Some r \<Rightarrow>
                let P = (\<lambda>q. ct_approval_id q = ct_approval_id r \<and> ct_consumed_at q = None)
                in if count_rows P (db_trust db) = 0
                   then (db, evaluate_command_trust project device scope hash db)
                   else (db\<lparr>db_trust := update_rows P (\<lambda>q. q\<lparr>ct_consumed_at := Some now\<rparr>) (db_trust db)\<rparr>,
                         Inr (ev\<lparr>te_approval := Some (r\<lparr>ct_consumed_at := Some now\<rparr>)\<rparr>))))"

section \<open>Effects\<close>

definition trust_inv :: "metadata_db \<Rightarrow> bool" where
  "trust_inv db \<longleftrightarrow> pk_wf ct_approval_id (db_trust db)
     \<and> (\<forall>r\<in>set (db_trust db). ct_approval_id r < db_next_approval_id db
          \<and> (ct_consumed_at r \<noteq> None \<longrightarrow> ct_decision r = AllowOnce))"

lemma trust_from_row_sel [simp]:
  "ct_approval_id (trust_from_row r) = ct_approval_id r" "ct_decision (trust_from_row r) = ct_decision r"
  "ct_project_id (trust_from_row r) = ct_project_id r" "ct_device_id (trust_from_row r) = ct_device_id r"
  "ct_command_scope (trust_from_row r) = ct_command_scope r"
  "ct_command_hash (trust_from_row r) = ct_command_hash r"
  "ct_consumed_at (trust_from_row r) = map_option column_u64 (ct_consumed_at r)"
  by (simp_all add: trust_from_row_def)

lemma record_status_row [simp]: "record_status (trust_from_row r) = record_status r"
  by (simp add: record_status_def split: trust_decision.split)

lemma record_trust_InrD:
  assumes "record_command_trust_decision_at c p d s h dec now db = (db', Inr r)"
  shows "validate_command_trust_input p d s h = Inr ()
    \<and> r = \<lparr>ct_approval_id = db_next_approval_id db, ct_project_id = p, ct_device_id = d,
           ct_command_scope = s, ct_command_hash = h, ct_decision = dec, ct_consumed_at = None,
           ct_created_at = now\<rparr>
    \<and> (\<exists>a. db' = db\<lparr>db_trust := db_trust db @ [r], db_next_approval_id := Suc (db_next_approval_id db),
          db_audit := db_audit db @ [a], db_next_audit_id := Suc (db_next_audit_id db)\<rparr>
        \<and> ae_outcome a = (if trust_is_approval dec then AuditSucceeded else AuditBlocked))"
proof -
  obtain a where v: "validate_command_trust_input p d s h = Inr ()"
    and r: "r = \<lparr>ct_approval_id = db_next_approval_id db, ct_project_id = p, ct_device_id = d,
           ct_command_scope = s, ct_command_hash = h, ct_decision = dec, ct_consumed_at = None,
           ct_created_at = now\<rparr>"
    and a: "insert_audit_event c (trust_audit p d s h dec) now (db\<lparr>db_trust := db_trust db @ [r],
        db_next_approval_id := Suc (db_next_approval_id db)\<rparr>) = Inr (db', a)"
    using assms unfolding record_command_trust_decision_at_def run_tx_Inr_iff
    by (auto simp: tx_simps Let_def)
  show ?thesis
    by (rule conjI [OF v conjI [OF r]])
      (use insert_audit_InrD [OF a] in \<open>auto simp: trust_audit_def audit_new_def\<close>)
qed

lemma record_trust_InlD:
  "record_command_trust_decision_at c p d s h dec now db = (db', Inl e) \<Longrightarrow> db' = db"
  unfolding record_command_trust_decision_at_def run_tx_Inl_iff by (auto simp: tx_simps Let_def)

lemma latest_trust_SomeD:
  "latest_command_trust_record p d s h db = Some r \<Longrightarrow>
     \<exists>q. q \<in> set (db_trust db) \<and> trust_matches p d s h q \<and> r = trust_from_row q
       \<and> sql_first (trust_matches p d s h) (\<lambda>r. (- sint (ct_created_at r), - int (ct_approval_id r))) (db_trust db) = Some q"
  by (auto simp: latest_command_trust_record_def dest: sql_first_SomeD)

lemma evaluate_approvedD:
  assumes "evaluate_command_trust p d s h db = Inr ev" "status_approved (te_status ev)"
  shows "\<exists>r. latest_command_trust_record p d s (Some h) db = Some r \<and> record_status r = Some (te_status ev)
    \<and> te_approval ev = Some r"
  using assms
  by (auto simp: evaluate_command_trust_def tx_simps Let_def split: option.splits if_splits
      Option.bind_splits)

lemma sql_first_unique:
  assumes "q \<in> set rows" "P q" "\<And>r. r \<in> set rows \<Longrightarrow> P r \<Longrightarrow> r \<noteq> q \<Longrightarrow> key q < key r"
  shows "sql_first P key rows = Some q"
proof (cases "sql_first P key rows")
  case None with assms(1,2) show ?thesis by (simp add: sql_first_None_iff)
next
  case (Some r)
  note r = sql_first_SomeD [OF Some]
  then have "key r \<le> key q" using assms(1,2) by blast
  then have "r = q" using assms(3) [of r] r by (metis leD)
  with Some show ?thesis by simp
qed

lemma authorize_cases:
  assumes I: "trust_inv db" and run: "authorize_command_trust_at p d s h now db = (db', Inr ev)"
  shows "(te_status ev \<noteq> ApprovedOnce \<and> db' = db \<and> evaluate_command_trust p d s h db = Inr ev)
    \<or> (te_status ev = ApprovedOnce \<and> (\<exists>q. sql_first (trust_matches p d s (Some h))
            (\<lambda>r. (- sint (ct_created_at r), - int (ct_approval_id r))) (db_trust db) = Some q
        \<and> q \<in> set (db_trust db) \<and> trust_matches p d s (Some h) q \<and> ct_decision q = AllowOnce \<and> ct_consumed_at q = None
        \<and> db' = db\<lparr>db_trust := update_rows (\<lambda>r. r = q) (\<lambda>r. r\<lparr>ct_consumed_at := Some now\<rparr>) (db_trust db)\<rparr>))"
proof -
  obtain ev0 where ev0: "evaluate_command_trust p d s h db = Inr ev0"
    using run by (auto simp: authorize_command_trust_at_def split: sum.splits)
  show ?thesis
  proof (cases "te_status ev0 = ApprovedOnce")
    case False
    with run ev0 show ?thesis by (auto simp: authorize_command_trust_at_def)
  next
    case True
    then obtain r where r: "latest_command_trust_record p d s (Some h) db = Some r"
        "record_status r = Some ApprovedOnce" "te_approval ev0 = Some r"
      using evaluate_approvedD [OF ev0] by auto
    obtain q where q: "q \<in> set (db_trust db)" "trust_matches p d s (Some h) q" "r = trust_from_row q"
        "sql_first (trust_matches p d s (Some h)) (\<lambda>r. (- sint (ct_created_at r), - int (ct_approval_id r))) (db_trust db) = Some q"
      using latest_trust_SomeD [OF r(1)] by blast
    have dec: "ct_decision q = AllowOnce" "ct_consumed_at q = None"
      using r(2) q(3) by (auto simp: record_status_def split: trust_decision.splits if_splits)
    let ?P = "\<lambda>x. ct_approval_id x = ct_approval_id r \<and> ct_consumed_at x = None"
    have P: "?P x \<longleftrightarrow> x = q" if "x \<in> set (db_trust db)" for x
      using that q(1,3) dec(2) pk_eq [of ct_approval_id "db_trust db" x q] I by (auto simp: trust_inv_def)
    have "count_rows ?P (db_trust db) \<noteq> 0" using q(1) P by (auto simp: count_rows_0_iff)
    moreover have "update_rows ?P (\<lambda>r. r\<lparr>ct_consumed_at := Some now\<rparr>) (db_trust db)
        = update_rows (\<lambda>r. r = q) (\<lambda>r. r\<lparr>ct_consumed_at := Some now\<rparr>) (db_trust db)"
      using P by (auto simp: update_rows_def)
    ultimately have "te_status ev = ApprovedOnce
        \<and> db' = db\<lparr>db_trust := update_rows (\<lambda>r. r = q) (\<lambda>r. r\<lparr>ct_consumed_at := Some now\<rparr>) (db_trust db)\<rparr>"
      using run ev0 True r(3) by (auto simp: authorize_command_trust_at_def Let_def)
    with q dec show ?thesis by blast
  qed
qed

text \<open>The key orders decisions totally, because approval ids are distinct.\<close>

definition trust_key :: "command_trust_record \<Rightarrow> int \<times> int" where
  "trust_key r = (- sint (ct_created_at r), - int (ct_approval_id r))"

lemma latest_trust_key:
  "latest_command_trust_record p d s h db =
     map_option trust_from_row (sql_first (trust_matches p d s h) trust_key (db_trust db))"
  by (simp add: latest_command_trust_record_def trust_key_def [abs_def])

lemma consume_keeps_latest:
  assumes I: "trust_inv db" and q: "sql_first (trust_matches p d s h) trust_key (db_trust db) = Some q"
  shows "sql_first (trust_matches p d s h) trust_key
      (update_rows (\<lambda>r. r = q) (\<lambda>r. r\<lparr>ct_consumed_at := Some now\<rparr>) (db_trust db))
    = Some (q\<lparr>ct_consumed_at := Some now\<rparr>)"
proof (rule sql_first_unique)
  note q' = sql_first_SomeD [OF q]
  show "q\<lparr>ct_consumed_at := Some now\<rparr> \<in> set (update_rows (\<lambda>r. r = q) (\<lambda>r. r\<lparr>ct_consumed_at := Some now\<rparr>) (db_trust db))"
    using q' by (force simp: set_update_rows)
  show "trust_matches p d s h (q\<lparr>ct_consumed_at := Some now\<rparr>)"
    using q' by (cases h) (simp_all add: trust_matches_def)
  fix r assume r: "r \<in> set (update_rows (\<lambda>r. r = q) (\<lambda>r. r\<lparr>ct_consumed_at := Some now\<rparr>) (db_trust db))"
    "trust_matches p d s h r" "r \<noteq> q\<lparr>ct_consumed_at := Some now\<rparr>"
  then have "r \<in> set (db_trust db)" "r \<noteq> q" by (auto simp: set_update_rows split: if_splits)
  moreover from this have "trust_key q \<le> trust_key r" using q' r(2) by blast
  moreover have "ct_approval_id r \<noteq> ct_approval_id q"
    using calculation(1,2) q' I pk_eq [of ct_approval_id "db_trust db" r q] by (auto simp: trust_inv_def)
  ultimately show "trust_key (q\<lparr>ct_consumed_at := Some now\<rparr>) < trust_key r"
    by (auto simp: trust_key_def less_le)
qed

lemma trust_inv_record:
  assumes I: "trust_inv db" and run: "record_command_trust_decision_at c p d s h dec now db = (db', r)"
  shows "trust_inv db'"
proof (cases r)
  case (Inl e)
  then have "db' = db" using run record_trust_InlD by blast
  with I show ?thesis by simp
next
  case (Inr x)
  have "db_next_approval_id db \<notin> ct_approval_id ` set (db_trust db)"
    using I by (auto simp: trust_inv_def)
  with record_trust_InrD [OF run [unfolded Inr]] I show ?thesis
    by (auto simp: trust_inv_def less_Suc_eq)
qed

lemma trust_inv_authorize:
  assumes I: "trust_inv db" and run: "authorize_command_trust_at p d s h now db = (db', r)"
  shows "trust_inv db'"
proof (cases r)
  case (Inl e)
  have "db' = db"
    using run Inl by (auto simp: authorize_command_trust_at_def Let_def split: sum.splits if_splits option.splits)
  with I show ?thesis by simp
next
  case (Inr ev)
  from authorize_cases [OF I run [unfolded Inr]] I show ?thesis
    by (auto simp: trust_inv_def pk_wf_update set_update_rows)
qed

text \<open>
  Runs of trust operations, counting the authorizations an \<open>allow-once\<close> approval granted.
\<close>

definition granted_once :: "trust_evaluation result \<Rightarrow> nat" where
  "granted_once r = (case r of Inl _ \<Rightarrow> 0 | Inr ev \<Rightarrow> if te_status ev = ApprovedOnce then 1 else 0)"

inductive trust_run :: "json_codec \<Rightarrow> metadata_db \<Rightarrow> nat \<Rightarrow> bool" for c where
  tr_init: "db_trust db = [] \<Longrightarrow> trust_run c db 0"
| tr_record: "trust_run c db n \<Longrightarrow> record_command_trust_decision_at c p d s h dec now db = (db', r)
    \<Longrightarrow> trust_run c db' n"
| tr_authorize: "trust_run c db n \<Longrightarrow> authorize_command_trust_at p d s h now db = (db', r)
    \<Longrightarrow> trust_run c db' (n + granted_once r)"

lemma count_consume:
  assumes "pk_wf ct_approval_id rows" "q \<in> set rows" "ct_consumed_at q = None"
  shows "count_rows (\<lambda>r. ct_consumed_at r \<noteq> None)
      (update_rows (\<lambda>r. r = q) (\<lambda>r. r\<lparr>ct_consumed_at := Some now\<rparr>) rows)
    = Suc (count_rows (\<lambda>r. ct_consumed_at r \<noteq> None) rows)"
  using assms
proof (induction rows)
  case (Cons r rows)
  show ?case
  proof (cases "r = q")
    case True
    then have "q \<notin> set rows" using Cons.prems(1) by (auto simp: pk_wf_def)
    then have "update_rows (\<lambda>r. r = q) (\<lambda>r. r\<lparr>ct_consumed_at := Some now\<rparr>) rows = rows"
      by (auto intro: update_rows_none)
    with True Cons.prems(3) show ?thesis by (simp add: count_rows_def update_rows_def)
  next
    case False
    with Cons show ?thesis by (auto simp: count_rows_def update_rows_def pk_wf_def)
  qed
qed simp

lemma trust_run_inv:
  "trust_run c db n \<Longrightarrow> trust_inv db \<and> n = count_rows (\<lambda>r. ct_consumed_at r \<noteq> None) (db_trust db)"
proof (induction rule: trust_run.induct)
  case (tr_init db)
  then show ?case by (simp add: trust_inv_def pk_wf_def count_rows_def)
next
  case (tr_record db n p d s h dec now db' r)
  have "count_rows (\<lambda>r. ct_consumed_at r \<noteq> None) (db_trust db') = count_rows (\<lambda>r. ct_consumed_at r \<noteq> None) (db_trust db)"
  proof (cases r)
    case (Inl e)
    then have "db' = db" using tr_record.hyps(2) record_trust_InlD by blast
    then show ?thesis by simp
  next
    case (Inr x)
    from record_trust_InrD [OF tr_record.hyps(2) [unfolded Inr]] show ?thesis
      by (auto simp: count_rows_def)
  qed
  with tr_record trust_inv_record show ?case by metis
next
  case (tr_authorize db n p d s h now db' r)
  have "count_rows (\<lambda>r. ct_consumed_at r \<noteq> None) (db_trust db')
      = count_rows (\<lambda>r. ct_consumed_at r \<noteq> None) (db_trust db) + granted_once r"
  proof (cases r)
    case (Inl e)
    have "db' = db" using tr_authorize.hyps(2) Inl
      by (auto simp: authorize_command_trust_at_def Let_def split: sum.splits if_splits option.splits)
    with Inl show ?thesis by (simp add: granted_once_def)
  next
    case (Inr ev)
    from tr_authorize.IH have I: "trust_inv db" by simp
    from authorize_cases [OF I tr_authorize.hyps(2) [unfolded Inr]] show ?thesis
      using count_consume I by (auto simp: granted_once_def Inr trust_inv_def)
  qed
  with tr_authorize trust_inv_authorize show ?case by metis
qed

section \<open>Sample data\<close>

definition ex_command_hash :: string where
  "ex_command_hash = replicate 64 (CHR ''a'')"

definition ex_trust_row :: "trust_decision \<Rightarrow> command_trust_record" where
  "ex_trust_row dec = \<lparr>ct_approval_id = 1, ct_project_id = ''p1'', ct_device_id = ''a'',
     ct_command_scope = ''build'', ct_command_hash = ex_command_hash, ct_decision = dec,
     ct_consumed_at = None, ct_created_at = 100\<rparr>"

lemma ex_trust_input: "validate_command_trust_input ''p1'' ''a'' ''build'' ex_command_hash = Inr ()"
  by (simp add: validate_command_trust_input_def validate_non_empty_def not_trims_to_empty is_ascii_space_def
      ex_command_hash_def list_all_iff is_lower_hexdigit_def)

lemma ex_recorded: "\<exists>db. record_command_trust_decision_at ex_codec ''p1'' ''a'' ''build'' ex_command_hash dec 100 ex_base
    = (db, Inr (ex_trust_row dec)) \<and> db_trust db = [ex_trust_row dec]"
  by (simp add: record_command_trust_decision_at_def ex_trust_input run_tx_def Let_def ex_defs
      insert_audit_event_def validate_audit_input_def trust_audit_def audit_new_def not_trims_to_empty
      is_ascii_space_def from_str_def ex_trust_row_def)

lemma ex_latest: "db_trust db = [ex_trust_row dec] \<Longrightarrow> h = None \<or> h = Some ex_command_hash \<Longrightarrow>
    latest_command_trust_record ''p1'' ''a'' ''build'' h db = Some (ex_trust_row dec)"
  by (auto simp: latest_trust_key sql_first_def sql_query_def trust_matches_def ex_trust_row_def
      trust_from_row_def column_u64_id)

lemma ex_authorized: "db_trust db = [ex_trust_row AllowOnce] \<Longrightarrow>
    \<exists>db' ev. authorize_command_trust_at ''p1'' ''a'' ''build'' ex_command_hash 120 db = (db', Inr ev)
      \<and> te_status ev = ApprovedOnce \<and> db_trust db' = [(ex_trust_row AllowOnce)\<lparr>ct_consumed_at := Some 120\<rparr>]"
  by (simp add: authorize_command_trust_at_def evaluate_command_trust_def ex_trust_input ex_latest
      record_status_def Let_def, simp add: ex_trust_row_def count_rows_def update_rows_def)

lemma evaluate_answers:
  "validate_command_trust_input p d s h = Inr () \<Longrightarrow> \<exists>ev. evaluate_command_trust p d s h db = Inr ev"
  by (simp add: evaluate_command_trust_def Let_def split: option.split)

lemma ex_trust_inv: "trust_inv (ex_base\<lparr>db_trust := [ex_trust_row dec], db_next_approval_id := 2\<rparr>)"
  by (simp add: trust_inv_def pk_wf_def ex_trust_row_def)

section \<open>Properties\<close>

text \<open>
  C19. Approval is exact: a command is approved only by a recorded decision of approval for
  exactly this project, device, scope and command hash, and no later decision for them rejects
  it; when the latest decision of the scope was for another hash, the answer is \<open>Changed\<close> or a
  decision for the exact hash.
\<close>

theorem approval_is_exact:
  assumes "evaluate_command_trust p d s h db = Inr ev" "status_approved (te_status ev)"
  shows "\<exists>q\<in>set (db_trust db). trust_matches p d s (Some h) q \<and> trust_is_approval (ct_decision q)
    \<and> te_approval ev = Some (trust_from_row q)
    \<and> (te_status ev = ApprovedOnce \<longleftrightarrow> ct_decision q = AllowOnce)
    \<and> (ct_decision q = AllowOnce \<longrightarrow> ct_consumed_at q = None)
    \<and> (\<forall>x\<in>set (db_trust db). trust_matches p d s (Some h) x \<and> ct_decision x = RejectCommand \<longrightarrow>
         sint (ct_created_at x) \<le> sint (ct_created_at q))"
proof -
  obtain r where r: "latest_command_trust_record p d s (Some h) db = Some r" "record_status r = Some (te_status ev)"
      "te_approval ev = Some r"
    using evaluate_approvedD [OF assms] by blast
  obtain q where q: "sql_first (trust_matches p d s (Some h)) trust_key (db_trust db) = Some q" "r = trust_from_row q"
    using r(1) by (auto simp: latest_trust_key)
  note q' = sql_first_SomeD [OF q(1)]
  show ?thesis
  proof (rule bexI [of _ q])
    show "q \<in> set (db_trust db)" using q' by blast
    have "\<forall>x\<in>set (db_trust db). trust_matches p d s (Some h) x \<and> ct_decision x = RejectCommand \<longrightarrow>
         sint (ct_created_at x) \<le> sint (ct_created_at q)"
      using q' by (auto simp: trust_key_def)
    then show "trust_matches p d s (Some h) q \<and> trust_is_approval (ct_decision q)
        \<and> te_approval ev = Some (trust_from_row q)
        \<and> (te_status ev = ApprovedOnce \<longleftrightarrow> ct_decision q = AllowOnce)
        \<and> (ct_decision q = AllowOnce \<longrightarrow> ct_consumed_at q = None)
        \<and> (\<forall>x\<in>set (db_trust db). trust_matches p d s (Some h) x \<and> ct_decision x = RejectCommand \<longrightarrow>
             sint (ct_created_at x) \<le> sint (ct_created_at q))"
      using q' r q(2) assms(2)
      by (cases "ct_decision q") (auto simp: record_status_def split: if_splits)
  qed
qed

theorem approval_is_exact_witness:
  "\<exists>ev. evaluate_command_trust ''p1'' ''a'' ''build'' ex_command_hash (ex_base\<lparr>db_trust := [ex_trust_row TrustThisVersion]\<rparr>) = Inr ev
     \<and> te_status ev = Trusted \<and> te_approval ev = Some (trust_from_row (ex_trust_row TrustThisVersion))"
proof -
  obtain ev where ev: "evaluate_command_trust ''p1'' ''a'' ''build'' ex_command_hash
      (ex_base\<lparr>db_trust := [ex_trust_row TrustThisVersion]\<rparr>) = Inr ev" "te_status ev = Trusted"
    by (simp add: evaluate_command_trust_def ex_trust_input ex_latest record_status_def Let_def ex_trust_row_def)
  from approval_is_exact [OF ev(1)] ev show ?thesis by auto
qed

text \<open>
  C20. An \<open>allow-once\<close> approval is used once: the authorization that it grants consumes it, and
  from then on the same command is not approved again by any evaluation until a new decision is
  recorded.
\<close>

theorem allow_once_is_consumed:
  assumes I: "trust_inv db" and run: "authorize_command_trust_at p d s h now db = (db', Inr ev)"
    and once: "te_status ev = ApprovedOnce"
    and again: "evaluate_command_trust p d s h db' = Inr ev'"
  shows "\<not> status_approved (te_status ev') \<and> te_status ev' \<noteq> Rejected"
proof -
  obtain q where q: "sql_first (trust_matches p d s (Some h)) trust_key (db_trust db) = Some q" "ct_decision q = AllowOnce"
    and db': "db_trust db' = update_rows (\<lambda>r. r = q) (\<lambda>r. r\<lparr>ct_consumed_at := Some now\<rparr>) (db_trust db)"
    using authorize_cases [OF I run] once by (auto simp: trust_key_def [abs_def])
  have "latest_command_trust_record p d s (Some h) db' = Some (trust_from_row (q\<lparr>ct_consumed_at := Some now\<rparr>))"
    by (simp add: latest_trust_key db' consume_keeps_latest [OF I q(1)])
  then show ?thesis using again q(2)
    by (auto simp: evaluate_command_trust_def tx_simps Let_def record_status_def split: option.splits if_splits)
qed

theorem allow_once_is_consumed_witness:
  "\<exists>db' ev ev'. authorize_command_trust_at ''p1'' ''a'' ''build'' ex_command_hash 120
       (ex_base\<lparr>db_trust := [ex_trust_row AllowOnce], db_next_approval_id := 2\<rparr>) = (db', Inr ev)
     \<and> te_status ev = ApprovedOnce
     \<and> evaluate_command_trust ''p1'' ''a'' ''build'' ex_command_hash db' = Inr ev'
     \<and> \<not> status_approved (te_status ev')"
proof -
  obtain db' ev where run: "authorize_command_trust_at ''p1'' ''a'' ''build'' ex_command_hash 120
       (ex_base\<lparr>db_trust := [ex_trust_row AllowOnce], db_next_approval_id := 2\<rparr>) = (db', Inr ev)"
    and st: "te_status ev = ApprovedOnce"
    using ex_authorized [of "ex_base\<lparr>db_trust := [ex_trust_row AllowOnce], db_next_approval_id := 2\<rparr>"] by auto
  obtain ev' where again: "evaluate_command_trust ''p1'' ''a'' ''build'' ex_command_hash db' = Inr ev'"
    using evaluate_answers [OF ex_trust_input] by blast
  from allow_once_is_consumed [OF ex_trust_inv run st again] run st again show ?thesis by blast
qed

text \<open>
  Over any run of decisions and authorizations from an empty trust table, the number of
  authorizations granted by \<open>allow-once\<close> approvals is at most the number of \<open>allow-once\<close>
  decisions recorded.
\<close>

theorem allow_once_budget:
  assumes "trust_run c db n"
  shows "n \<le> count_rows (\<lambda>r. ct_decision r = AllowOnce) (db_trust db)"
proof -
  have "n = length (filter (\<lambda>r. ct_consumed_at r \<noteq> None) (db_trust db))" and I: "trust_inv db"
    using trust_run_inv [OF assms] by (simp_all add: count_rows_def)
  moreover have "filter (\<lambda>r. ct_consumed_at r \<noteq> None) (db_trust db)
      = filter (\<lambda>r. ct_consumed_at r \<noteq> None) (filter (\<lambda>r. ct_decision r = AllowOnce) (db_trust db))"
    unfolding filter_filter by (rule filter_cong) (use I in \<open>auto simp: trust_inv_def\<close>)
  ultimately show ?thesis by (simp add: count_rows_def del: filter_filter)
qed

theorem allow_once_budget_witness:
  "\<exists>db. trust_run ex_codec db 1 \<and> 1 \<le> count_rows (\<lambda>r. ct_decision r = AllowOnce) (db_trust db)"
proof -
  obtain db where rec: "record_command_trust_decision_at ex_codec ''p1'' ''a'' ''build'' ex_command_hash AllowOnce 100 ex_base
      = (db, Inr (ex_trust_row AllowOnce))" and rows: "db_trust db = [ex_trust_row AllowOnce]"
    using ex_recorded by blast
  obtain db' ev where auth: "authorize_command_trust_at ''p1'' ''a'' ''build'' ex_command_hash 120 db = (db', Inr ev)"
    and st: "te_status ev = ApprovedOnce"
    using ex_authorized [OF rows] by blast
  have "trust_run ex_codec ex_base 0" by (rule tr_init) (simp add: ex_defs)
  from tr_authorize [OF tr_record [OF this rec] auth] have "trust_run ex_codec db' 1"
    by (simp add: granted_once_def st)
  with allow_once_budget show ?thesis by blast
qed

text \<open>
  The newest decision rules: right after a decision dated no earlier than every decision for
  the same command, evaluation answers exactly that decision.
\<close>

theorem newest_decision_rules:
  assumes I: "trust_inv db"
    and run: "record_command_trust_decision_at c p d s h dec now db = (db', Inr r)"
    and newest: "\<forall>x\<in>set (db_trust db). trust_matches p d s (Some h) x \<longrightarrow> sint (ct_created_at x) \<le> sint now"
  shows "\<exists>ev. evaluate_command_trust p d s h db' = Inr ev \<and> te_approval ev = Some (trust_from_row r)
    \<and> te_status ev = (case dec of AllowOnce \<Rightarrow> ApprovedOnce | TrustThisVersion \<Rightarrow> Trusted | RejectCommand \<Rightarrow> Rejected)"
proof -
  note rd = record_trust_InrD [OF run]
  then have v: "validate_command_trust_input p d s h = Inr ()" and rows: "db_trust db' = db_trust db @ [r]"
    and r: "ct_approval_id r = db_next_approval_id db" "ct_created_at r = now" "ct_decision r = dec"
      "ct_consumed_at r = None" "trust_matches p d s (Some h) r"
    by (auto simp: trust_matches_def)
  have "sql_first (trust_matches p d s (Some h)) trust_key (db_trust db') = Some r"
  proof (rule sql_first_unique)
    fix x assume x: "x \<in> set (db_trust db')" "trust_matches p d s (Some h) x" "x \<noteq> r"
    then have "x \<in> set (db_trust db)" by (simp add: rows)
    then show "trust_key r < trust_key x"
      using newest x(2) I r by (fastforce simp: trust_key_def trust_inv_def)
  qed (simp_all add: rows r)
  then have "latest_command_trust_record p d s (Some h) db' = Some (trust_from_row r)"
    by (simp add: latest_trust_key)
  then show ?thesis using v r(3,4)
    by (cases dec) (auto simp: evaluate_command_trust_def record_status_def Let_def)
qed

theorem newest_decision_rules_witness:
  "\<exists>db ev. record_command_trust_decision_at ex_codec ''p1'' ''a'' ''build'' ex_command_hash RejectCommand 100 ex_base
       = (db, Inr (ex_trust_row RejectCommand))
     \<and> evaluate_command_trust ''p1'' ''a'' ''build'' ex_command_hash db = Inr ev \<and> te_status ev = Rejected"
proof -
  obtain db where rec: "record_command_trust_decision_at ex_codec ''p1'' ''a'' ''build'' ex_command_hash RejectCommand 100 ex_base
      = (db, Inr (ex_trust_row RejectCommand))" using ex_recorded by blast
  have "trust_inv ex_base" by (simp add: trust_inv_def pk_wf_def ex_defs)
  from newest_decision_rules [OF this rec] rec show ?thesis by (auto simp: ex_defs)
qed

end
