(* ===== verification/Metadata_System.thy ===== *)
theory Metadata_System
  imports Snapshot_Store Pairing_Safety Trust_Db
begin

text \<open>
  The metadata database as one transition system: every operation of the components in any
  order. Each operation's frame says which tables it leaves alone; from the frames follow the
  combined invariant, the growth of the logs, and how a lease may change in one step.
\<close>

section \<open>Frames of the operations\<close>

lemma run_tx_frame:
  assumes "run_tx body s = (s', r)" "R s s" "\<And>t x. body s = Inr (t, x) \<Longrightarrow> R s t"
  shows "R s s'"
  using assms(1) by (rule run_tx_cases) (use assms(2,3) in auto)

definition session_frame :: "metadata_db \<Rightarrow> metadata_db \<Rightarrow> bool" where
  "session_frame a b \<longleftrightarrow> b = a\<lparr>db_sessions := db_sessions b, db_projects := db_projects b\<rparr>"

lemma insert_session_frame: "insert_session i now p n par w st a = (b, r) \<Longrightarrow> session_frame a b"
  unfolding insert_session_def
  by (erule run_tx_frame) (auto simp: session_frame_def tx_simps dest!: insert_session_row_InrD)

lemma ensure_default_frame: "ensure_default_session i now p n w a = (b, r) \<Longrightarrow> session_frame a b"
  by (auto simp: ensure_default_session_def Let_def session_frame_def upsert_project_name_def
      dest!: insert_session_frame split: option.splits)

lemma fork_session_frame: "fork_session i now s n a = (b, r) \<Longrightarrow> session_frame a b"
  using insert_session_frame by (auto simp: fork_session_def session_frame_def split: option.splits)

lemma archive_session_frame: "archive_session now s a = (b, r) \<Longrightarrow> session_frame a b"
  unfolding archive_session_def
  by (erule run_tx_frame) (auto simp: session_frame_def Let_def split: if_splits)

definition store_frame :: "metadata_db \<Rightarrow> metadata_db \<Rightarrow> bool" where
  "store_frame a b \<longleftrightarrow> b = a\<lparr>db_sessions := db_sessions b, db_projects := db_projects b,
     db_snapshots := db_snapshots b\<rparr>"

lemma store_insert_frame: "store_insert_snapshot f now m pin lab a = (b, r) \<Longrightarrow> store_frame a b"
  unfolding store_insert_snapshot_def
  by (erule run_tx_frame)
    (auto simp: store_frame_def tx_simps Let_def upsert_project_name_def insert_or_ignore_session_def
      dest!: insert_snapshot_row_InrD split: option.splits)

lemma store_snapshot_frame: "store_snapshot git project fault now m pinned label a = (b, r) \<Longrightarrow> store_frame a b"
  using store_insert_frame
  by (auto simp: store_snapshot_def Let_def store_frame_def split: if_splits sum.splits prod.splits)

lemma prune_frame: "prune_snapshots git project plan a = (b, r) \<Longrightarrow> b = a\<lparr>db_snapshots := db_snapshots b\<rparr>"
  using prune_loop_prunes_to unfolding prune_snapshots_def prunes_to_def by blast

definition pairing_frame :: "metadata_db \<Rightarrow> metadata_db \<Rightarrow> bool" where
  "pairing_frame a b \<longleftrightarrow> b = a\<lparr>db_pairings := db_pairings b, db_identities := db_identities b,
     db_audit := db_audit b, db_next_audit_id := db_next_audit_id b\<rparr>
     \<and> (\<exists>es. db_audit b = db_audit a @ es)"

lemma pairing_frame_rows: "pairing_frame a (a\<lparr>db_pairings := p\<rparr>)"
  by (simp add: pairing_frame_def)

lemma pairing_frame_refl: "pairing_frame a a"
  by (simp add: pairing_frame_def)

lemma pairing_frame_set: "pairing_frame a (set_pairing P f a)"
  unfolding set_pairing_def by (rule pairing_frame_rows)

lemma pairing_step_frame:
  assumes "pairing_step c hash a b"
  shows "pairing_frame a b"
  using assms
proof (cases rule: pairing_step.cases)
  case (ps_start eph new_id now q r)
  then show ?thesis
    using start_InrD [of c hash eph new_id now q a b] start_InlD [of c hash eph new_id now q a b]
      pairing_frame_rows [of a] pairing_frame_refl by (cases r) auto
next
  case (ps_confirm i observed cert now r)
  from confirm_cases [OF this] show ?thesis
  proof (elim disjE exE conjE)
    fix s au assume "b = (set_pairing (\<lambda>r. pg_pairing_id r = i \<and> pg_state r = PairPending)
              (\<lambda>r. r\<lparr>pg_state := PairConfirmed, pg_certificate_json := Some cert, pg_confirmed_at := Some now\<rparr>) a)
            \<lparr>db_identities := upsert_row di_device_id (merge_paired_identity (paired_identity s now))
               (paired_identity s now) (db_identities a),
             db_audit := db_audit a @ [au], db_next_audit_id := Suc (db_next_audit_id a)\<rparr>"
    then show ?thesis by (simp add: pairing_frame_def set_pairing_def)
  qed (use pairing_frame_set pairing_frame_refl in auto)
next
  case (ps_abort i now r)
  from abort_pairing_cases [OF this] show ?thesis
    using pairing_frame_set pairing_frame_refl by auto
next
  case (ps_expire now rs)
  from expire_effect [OF this] show ?thesis by (simp add: pairing_frame_rows)
qed

section \<open>How leases and logs may change\<close>

text \<open>
  One step either keeps a lease's holder and epoch, or it is a commit of the handoff the lease
  was pending for: the target, not revoked, becomes the holder and the epoch grows by one.
\<close>

definition lease_change :: "metadata_db \<Rightarrow> lease_record \<Rightarrow> lease_record \<Rightarrow> bool" where
  "lease_change a l l' \<longleftrightarrow> lr_project_id l' = lr_project_id l \<and> lr_session_id l' = lr_session_id l
     \<and> (lr_epoch l' = lr_epoch l \<and> lr_holder_device_id l' = lr_holder_device_id l
        \<or> lr_epoch l' = sat_add (column_u64 (lr_epoch l)) 1
          \<and> (\<exists>t. lr_holder_device_id l' = Some t \<and> \<not> device_revoked a t)
          \<and> lr_state l = HandoffPending \<and> lr_state l' = Active)"

definition lease_table_step :: "metadata_db \<Rightarrow> metadata_db \<Rightarrow> bool" where
  "lease_table_step a b \<longleftrightarrow> db_leases b = db_leases a
     \<or> (\<exists>l. db_leases b = db_leases a @ [l] \<and> lr_lease_id l \<notin> lr_lease_id ` set (db_leases a))
     \<or> (\<exists>k P f. db_leases b = update_rows P f (db_leases a) \<and> (\<forall>l. P l \<longrightarrow> lr_lease_id l = k)
         \<and> (\<forall>l. lr_lease_id (f l) = lr_lease_id l)
         \<and> (\<forall>l\<in>set (db_leases a). P l \<longrightarrow> lease_change a l (f l)))"

lemma lease_table_stepI:
  assumes "db_leases b = update_rows P f (db_leases a)" "\<And>l. P l \<Longrightarrow> lr_lease_id l = k"
    "\<And>l. lr_lease_id (f l) = lr_lease_id l"
    "\<And>l. l \<in> set (db_leases a) \<Longrightarrow> P l \<Longrightarrow> lease_change a l (f l)"
  shows "lease_table_step a b"
  unfolding lease_table_step_def by (rule disjI2, rule disjI2, intro exI conjI) (use assms in auto)

lemma lease_table_same: "db_leases b = db_leases a \<Longrightarrow> lease_table_step a b"
  by (simp add: lease_table_step_def)

lemma lease_table_new:
  "db_leases b = db_leases a @ [l] \<Longrightarrow> lr_lease_id l \<notin> lr_lease_id ` set (db_leases a) \<Longrightarrow> lease_table_step a b"
  by (auto simp: lease_table_step_def)

lemma lease_change_kept:
  "lr_project_id l' = lr_project_id l \<Longrightarrow> lr_session_id l' = lr_session_id l \<Longrightarrow> lr_epoch l' = lr_epoch l \<Longrightarrow>
   lr_holder_device_id l' = lr_holder_device_id l \<Longrightarrow> lease_change a l l'"
  by (simp add: lease_change_def)

definition logs_grow :: "metadata_db \<Rightarrow> metadata_db \<Rightarrow> bool" where
  "logs_grow a b \<longleftrightarrow> (\<exists>es. db_audit b = db_audit a @ es) \<and> (\<exists>js. db_journal b = db_journal a @ js)
     \<and> rv_device_id ` set (db_revocations a) \<subseteq> rv_device_id ` set (db_revocations b)"

lemma logs_same: "db_audit b = db_audit a \<Longrightarrow> db_journal b = db_journal a \<Longrightarrow>
    db_revocations b = db_revocations a \<Longrightarrow> logs_grow a b"
  by (simp add: logs_grow_def)

lemma logs_trans: "logs_grow a b \<Longrightarrow> logs_grow b c \<Longrightarrow> logs_grow a c"
  unfolding logs_grow_def by (elim conjE exE) auto

text \<open>What a handoff step may touch.\<close>

definition handoff_frame :: "metadata_db \<Rightarrow> metadata_db \<Rightarrow> bool" where
  "handoff_frame a b \<longleftrightarrow> lease_table_step a b \<and> logs_grow a b
     \<and> db_snapshots b = db_snapshots a \<and> db_pairings b = db_pairings a
     \<and> db_identities b = db_identities a \<and> db_trust b = db_trust a
     \<and> db_next_approval_id b = db_next_approval_id a"

lemma handoff_frame_refl: "handoff_frame a a"
  by (simp add: handoff_frame_def lease_table_same logs_same)

lemma begin_frame': "begin_handoff i now lid s t g ttl a = (b, r) \<Longrightarrow> handoff_frame a b"
proof (cases r)
  case (Inr h)
  assume "begin_handoff i now lid s t g ttl a = (b, r)"
  from begin_handoff_InrD [OF this [unfolded Inr]] show ?thesis
    by (auto simp: handoff_frame_def logs_grow_def lease_change_kept
        intro!: lease_table_stepI)
qed (use begin_handoff_Inl handoff_frame_refl in metis)

lemma abort_rows_frame: "handoff_frame a ((abort_rows i k now a)\<lparr>db_journal := db_journal a @ js, db_next_journal_id := n\<rparr>)"
  by (auto simp: handoff_frame_def logs_grow_def abort_rows_def lease_change_kept
      intro!: lease_table_stepI [where k = k])

lemma abort_frame: "abort_handoff_at c i now why a = (b, r) \<Longrightarrow> handoff_frame a b"
proof (cases r)
  case (Inr h)
  assume "abort_handoff_at c i now why a = (b, r)"
  from abort_InrD [OF this [unfolded Inr]] show ?thesis
    using handoff_frame_refl abort_rows_frame by auto
qed (use abort_Inl handoff_frame_refl in metis)

lemma commit_frame:
  assumes I: "handoff_inv a" and run: "commit_handoff_inner c i obs now pf a = (b, r)"
  shows "handoff_frame a b"
proof (cases r)
  case (Inl e)
  have "abort_rows i k now a = (abort_rows i k now a)\<lparr>db_journal := db_journal a @ [],
      db_next_journal_id := db_next_journal_id a\<rparr>" for k
    by (simp add: abort_rows_def)
  then show ?thesis
    using commit_InlD [OF run [unfolded Inl]] handoff_frame_refl abort_rows_frame by metis
next
  case (Inr h)
  from commit_InrD [OF run [unfolded Inr]] obtain q j au where
    rev: "\<not> device_revoked a (ho_target_device_id q)"
    and b: "b = commit_rows i (handoff_from_row q) now a
       \<lparr>db_journal := db_journal a @ [j], db_next_journal_id := Suc (db_next_journal_id a),
        db_audit := db_audit a @ [au], db_next_audit_id := Suc (db_next_audit_id a)\<rparr>"
    by blast
  have "lr_state l = HandoffPending" if "l \<in> set (db_leases a)" "lr_handoff_id l = Some i" for l
    using links_leaseD [of "db_handoffs a" "db_leases a" l i] that I by (auto simp: handoff_inv_def)
  then show ?thesis using rev
    by (auto simp: handoff_frame_def logs_grow_def b commit_rows_def lease_change_def
        intro!: lease_table_stepI)
qed

lemma handoff_step_frame:
  assumes I: "handoff_inv a" and step: "handoff_step c a b"
  shows "handoff_frame a b"
  using step
proof (cases rule: handoff_step.cases)
  case (hs_begin i now lid s t g ttl r) then show ?thesis by (rule begin_frame')
next
  case (hs_apply now i d r)
  then show ?thesis
    using record_apply_Inl [of c now i d a b] record_apply_InrD [of c now i d a b] handoff_frame_refl
    by (cases r) (auto simp: handoff_frame_def logs_grow_def intro: lease_table_same)
next
  case (hs_verified now i r)
  then show ?thesis unfolding mark_handoff_target_verified_def
    using update_state_Inl [of now i _ _ _ a b] update_state_InrD [of now i _ _ _ a b] handoff_frame_refl
    by (cases r) (fastforce simp: handoff_frame_def logs_grow_def intro: lease_table_same)+
next
  case (hs_ready now i r)
  then show ?thesis unfolding mark_handoff_source_ready_def
    using update_state_Inl [of now i _ _ _ a b] update_state_InrD [of now i _ _ _ a b] handoff_frame_refl
    by (cases r) (fastforce simp: handoff_frame_def logs_grow_def intro: lease_table_same)+
next
  case (hs_commit i obs now pf r) then show ?thesis by (rule commit_frame [OF I])
next
  case (hs_abort i now why r) then show ?thesis by (rule abort_frame)
next
  case (hs_recover i obs now r)
  then show ?thesis using commit_frame [OF I] abort_frame handoff_frame_refl
    by (auto simp: recover_handoff_def commit_handoff_def split: option.splits if_splits prod.splits)
next
  case (hs_lease l r)
  from upsert_new_lease [OF hs_lease(1,2)] show ?thesis
    by (auto simp: handoff_frame_def logs_grow_def handoff_frame_refl intro: lease_table_same lease_table_new)
qed

section \<open>The transition system\<close>

inductive db_step :: "json_codec \<Rightarrow> (string \<Rightarrow> string) \<Rightarrow> metadata_db \<Rightarrow> metadata_db \<Rightarrow> bool" for c hash where
  db_handoff: "handoff_step c a b \<Longrightarrow> db_step c hash a b"
| db_publish: "publish_snapshot_canonical c q a = (b, r) \<Longrightarrow> db_step c hash a b"
| db_fork: "publish_inactive_snapshot_as_fork c new_id now fq a = (b, r2) \<Longrightarrow> db_step c hash a b"
| db_store: "store_snapshot git project fault now m pinned label a = (b, r3) \<Longrightarrow> db_step c hash a b"
| db_prune: "prune_snapshots git project plan a = (b, r4) \<Longrightarrow> db_step c hash a b"
| db_default_session: "ensure_default_session new_id now p n w a = (b, r5) \<Longrightarrow> db_step c hash a b"
| db_new_session: "insert_session new_id now p n par w st a = (b, r5) \<Longrightarrow> db_step c hash a b"
| db_fork_session: "fork_session new_id now s n a = (b, r5) \<Longrightarrow> db_step c hash a b"
| db_archive_session: "archive_session now s a = (b, r5) \<Longrightarrow> db_step c hash a b"
| db_revoke: "revoke_device_at c d by_d reason rot now a = (b, r6) \<Longrightarrow> db_step c hash a b"
| db_audit_event: "record_audit_event_at c i now a = (b, r7) \<Longrightarrow> db_step c hash a b"
| db_device: "upsert_device_identity dev a = (b, r8) \<Longrightarrow> db_step c hash a b"
| db_fabric: "upsert_fabric_root_identity root a = (b, r8) \<Longrightarrow> db_step c hash a b"
| db_identity: "upsert_device_public_identity ident a = (b, r8) \<Longrightarrow> db_step c hash a b"
| db_pairing: "pairing_step c hash a b \<Longrightarrow> db_step c hash a b"
| db_decide: "record_command_trust_decision_at c p d s h dec now a = (b, r9) \<Longrightarrow> db_step c hash a b"
| db_authorize: "authorize_command_trust_at p d s h now a = (b, r10) \<Longrightarrow> db_step c hash a b"
| db_inject: "b = a\<lparr>db_fault := f\<rparr> \<Longrightarrow> db_step c hash a b"

definition db_inv :: "metadata_db \<Rightarrow> bool" where
  "db_inv a \<longleftrightarrow> handoff_inv a \<and> snapshot_inv a \<and> pairing_inv a \<and> trust_inv a"

text \<open>Each invariant reads only its own tables.\<close>

lemma handoff_inv_cong: "db_handoffs b = db_handoffs a \<Longrightarrow> db_leases b = db_leases a \<Longrightarrow>
    db_journal b = db_journal a \<Longrightarrow> handoff_inv b = handoff_inv a"
  by (simp add: handoff_inv_def)

lemma snapshot_inv_cong: "db_snapshots b = db_snapshots a \<Longrightarrow> snapshot_inv b = snapshot_inv a"
  by (simp add: snapshot_inv_def)

lemma trust_inv_cong: "db_trust b = db_trust a \<Longrightarrow> db_next_approval_id b = db_next_approval_id a \<Longrightarrow>
    trust_inv b = trust_inv a"
  by (simp add: trust_inv_def)

lemma pairing_inv_mono: "db_pairings b = db_pairings a \<Longrightarrow>
    di_device_id ` set (db_identities a) \<subseteq> di_device_id ` set (db_identities b) \<Longrightarrow> pairing_inv a \<Longrightarrow> pairing_inv b"
  by (auto simp: pairing_inv_def pairing_row_ok_def)

lemmas inv_congs = handoff_inv_cong snapshot_inv_cong trust_inv_cong pairing_inv_mono

definition step_ok :: "metadata_db \<Rightarrow> metadata_db \<Rightarrow> bool" where
  "step_ok a b \<longleftrightarrow> db_inv b \<and> lease_table_step a b \<and> logs_grow a b"

lemma step_ok_refl: "db_inv a \<Longrightarrow> step_ok a a"
  by (simp add: step_ok_def lease_table_same logs_same)

text \<open>Operations that touch neither leases, handoffs, journal, pairings nor trust decisions.\<close>

lemma step_ok_other:
  assumes "db_inv a" "db_leases b = db_leases a" "db_handoffs b = db_handoffs a" "db_journal b = db_journal a"
    "snapshot_inv b" "db_pairings b = db_pairings a"
    "di_device_id ` set (db_identities a) \<subseteq> di_device_id ` set (db_identities b)"
    "db_trust b = db_trust a" "db_next_approval_id b = db_next_approval_id a"
    "\<exists>es. db_audit b = db_audit a @ es"
    "rv_device_id ` set (db_revocations a) \<subseteq> rv_device_id ` set (db_revocations b)"
  shows "step_ok a b"
  using assms pairing_inv_mono [of b a]
  by (simp add: step_ok_def db_inv_def lease_table_same logs_grow_def handoff_inv_cong [of b a]
      trust_inv_cong [of b a])

lemma step_ok_publish:
  assumes I: "db_inv a" and run: "publish_snapshot_canonical c q a = (b, r)"
  shows "step_ok a b"
proof -
  have S: "snapshot_inv b" using I run snapshot_inv_publish by (auto simp: db_inv_def)
  show ?thesis
    using publish_cases [OF run]
  proof (elim disjE exE conjE)
    fix l and sn :: stored_snapshot and au
    let ?P = "\<lambda>x. stale_reason q l = None \<and> lr_lease_id x = cq_lease_id q"
    let ?f = "\<lambda>x. x\<lparr>lr_latest_snapshot_id := Some (sn_snapshot_id sn)\<rparr>"
    assume b0: "b = a\<lparr>db_snapshots := db_snapshots a @ [sn],
            db_leases := (if stale_reason q l = None
               then update_rows (\<lambda>r. lr_lease_id r = cq_lease_id q)
                 (\<lambda>r. r\<lparr>lr_latest_snapshot_id := Some (sn_snapshot_id sn)\<rparr>) (db_leases a)
               else db_leases a),
            db_audit := db_audit a @ [au], db_next_audit_id := Suc (db_next_audit_id a)\<rparr>"
    have leases: "db_leases b = update_rows ?P ?f (db_leases a)"
      by (cases "stale_reason q l") (simp_all add: b0 update_rows_def)
    have "links (db_handoffs a) (update_rows ?P ?f (db_leases a))"
      by (rule links_leases) (use I in \<open>auto simp: db_inv_def handoff_inv_def\<close>)
    then have "handoff_inv b" using I leases by (simp add: handoff_inv_def db_inv_def b0)
    moreover have "lease_table_step a b"
      by (rule lease_table_stepI [where P = ?P and f = ?f]) (simp_all add: leases lease_change_kept)
    moreover have "pairing_inv b" "trust_inv b"
      using I pairing_inv_mono [of b a] trust_inv_cong [of b a] by (simp_all add: b0 db_inv_def)
    ultimately show ?thesis using S by (simp add: step_ok_def db_inv_def logs_grow_def b0)
  qed (use step_ok_refl [OF I] in simp)
qed

lemma step_ok_fork:
  assumes I: "db_inv a" and run: "publish_inactive_snapshot_as_fork c f now q a = (b, r)"
  shows "step_ok a b"
proof (cases r)
  case (Inl e)
  have "b = a" by (rule fork_InlD [OF run [unfolded Inl]])
  with step_ok_refl [OF I] show ?thesis by simp
next
  case (Inr res)
  have S: "snapshot_inv b" using I run snapshot_inv_fork by (auto simp: db_inv_def)
  let ?P = "\<lambda>r. lr_lease_id r = fq_lease_id q \<and> lr_state r = Inactive"
  from fork_InrD [OF run [unfolded Inr]] obtain session sn au where
    b: "b = a\<lparr>db_sessions := db_sessions a @ [session], db_snapshots := db_snapshots a @ [sn],
        db_leases := update_rows ?P (\<lambda>r. r\<lparr>lr_state := Forked\<rparr>) (db_leases a),
        db_audit := db_audit a @ [au], db_next_audit_id := Suc (db_next_audit_id a)\<rparr>"
    by blast
  have "links (db_handoffs a) (update_rows ?P (\<lambda>r. r\<lparr>lr_state := Forked\<rparr>) (db_leases a))"
    by (rule links_leases) (use I in \<open>auto simp: db_inv_def handoff_inv_def\<close>)
  then have "handoff_inv b" using I by (simp add: handoff_inv_def db_inv_def b)
  moreover have "lease_table_step a b"
    by (rule lease_table_stepI [where P = ?P and f = "\<lambda>r. r\<lparr>lr_state := Forked\<rparr>"])
      (simp_all add: b lease_change_kept)
  moreover have "pairing_inv b" "trust_inv b"
    using I pairing_inv_mono [of b a] trust_inv_cong [of b a] by (simp_all add: b db_inv_def)
  ultimately show ?thesis using S by (simp add: step_ok_def db_inv_def logs_grow_def b)
qed

lemma session_frame_sel:
  assumes "session_frame a b"
  shows "db_leases b = db_leases a" "db_handoffs b = db_handoffs a" "db_journal b = db_journal a"
    "db_snapshots b = db_snapshots a" "db_pairings b = db_pairings a" "db_identities b = db_identities a"
    "db_trust b = db_trust a" "db_next_approval_id b = db_next_approval_id a" "db_audit b = db_audit a"
    "db_revocations b = db_revocations a"
  by (subst assms [unfolded session_frame_def], simp)+

lemma store_frame_sel:
  assumes "store_frame a b"
  shows "db_leases b = db_leases a" "db_handoffs b = db_handoffs a" "db_journal b = db_journal a"
    "db_pairings b = db_pairings a" "db_identities b = db_identities a"
    "db_trust b = db_trust a" "db_next_approval_id b = db_next_approval_id a" "db_audit b = db_audit a"
    "db_revocations b = db_revocations a"
  by (subst assms [unfolded store_frame_def], simp)+

lemma pairing_frame_sel:
  assumes "pairing_frame a b"
  shows "db_leases b = db_leases a" "db_handoffs b = db_handoffs a" "db_journal b = db_journal a"
    "db_snapshots b = db_snapshots a" "db_trust b = db_trust a"
    "db_next_approval_id b = db_next_approval_id a" "db_revocations b = db_revocations a"
  by (subst conjunct1 [OF assms [unfolded pairing_frame_def]], simp)+

lemma step_ok_session:
  assumes "db_inv a" "session_frame a b"
  shows "step_ok a b"
  by (rule step_ok_other)
    (use assms session_frame_sel [OF assms(2)] snapshot_inv_cong [of b a] in \<open>simp_all add: db_inv_def\<close>)

lemma step_ok_store:
  assumes "db_inv a" "store_frame a b" "snapshot_inv b"
  shows "step_ok a b"
  by (rule step_ok_other)
    (use assms store_frame_sel [OF assms(2)] in \<open>simp_all add: db_inv_def\<close>)

lemma step_ok_prune:
  assumes "db_inv a" "b = a\<lparr>db_snapshots := db_snapshots b\<rparr>" "snapshot_inv b"
  shows "step_ok a b"
  by (rule step_ok_other) (use assms(1,3) in \<open>simp_all add: db_inv_def\<close>, (subst assms(2), simp)+)

lemma step_ok_pairing:
  assumes I: "db_inv a" and run: "pairing_step c hash a b"
  shows "step_ok a b"
proof -
  have f: "pairing_frame a b" by (rule pairing_step_frame [OF run])
  note e = pairing_frame_sel [OF f]
  have "pairing_inv b" using pairing_step_spec [OF _ run] I by (simp add: db_inv_def)
  then show ?thesis
    using I f e snapshot_inv_cong [OF e(4)] handoff_inv_cong [OF e(2,1,3)] trust_inv_cong [OF e(5,6)]
    by (simp add: step_ok_def db_inv_def lease_table_same logs_grow_def pairing_frame_def)
qed

lemma step_ok_handoff:
  assumes I: "db_inv a" and run: "handoff_step c a b"
  shows "step_ok a b"
proof -
  have H: "handoff_inv b" using handoff_step_inv run I by (auto simp: db_inv_def)
  have f: "handoff_frame a b" using handoff_step_frame run I by (auto simp: db_inv_def)
  then show ?thesis
    using I H snapshot_inv_cong [of b a] trust_inv_cong [of b a] pairing_inv_mono [of b a]
    by (simp add: step_ok_def db_inv_def handoff_frame_def)
qed

lemma step_ok_revoke:
  assumes I: "db_inv a" and run: "revoke_device_at c d by_d reason rot now a = (b, r)"
  shows "step_ok a b"
proof (cases r)
  case (Inl e)
  have "b = a" by (rule revoke_InlD [OF run [unfolded Inl]])
  with step_ok_refl [OF I] show ?thesis by simp
next
  case (Inr x)
  from revoke_InrD [OF run [unfolded Inr]] obtain au where
    b: "b = a\<lparr>db_revocations := upsert_row rv_device_id (\<lambda>_. x) x (db_revocations a),
          db_audit := db_audit a @ [au], db_next_audit_id := Suc (db_next_audit_id a)\<rparr>" by blast
  have "rv_device_id ` set (db_revocations a) \<subseteq> rv_device_id ` set (upsert_row rv_device_id (\<lambda>_. x) x (db_revocations a))"
    by (auto simp: upsert_row_def set_update_rows image_iff)
  then show ?thesis
    by (intro step_ok_other [OF I]) (use I snapshot_inv_cong [of b a] in \<open>simp_all add: b db_inv_def\<close>)
qed

lemma step_ok_trust:
  assumes I: "db_inv a" and T: "trust_inv b"
    and eq: "b = a\<lparr>db_trust := t, db_next_approval_id := n, db_audit := db_audit a @ es, db_next_audit_id := m\<rparr>"
  shows "step_ok a b"
  using I T snapshot_inv_cong [of b a] handoff_inv_cong [of b a] pairing_inv_mono [of b a]
  by (simp add: step_ok_def db_inv_def lease_table_same logs_grow_def eq)

lemma step_ok_decide:
  assumes I: "db_inv a" and run: "record_command_trust_decision_at c p d s h dec now a = (b, r)"
  shows "step_ok a b"
proof (cases r)
  case (Inl e)
  have "b = a" by (rule record_trust_InlD [OF run [unfolded Inl]])
  with step_ok_refl [OF I] show ?thesis by simp
next
  case (Inr x)
  have "trust_inv b" using trust_inv_record [OF _ run] I by (simp add: db_inv_def)
  moreover from record_trust_InrD [OF run [unfolded Inr]] obtain au where
    "b = a\<lparr>db_trust := db_trust a @ [x], db_next_approval_id := Suc (db_next_approval_id a),
          db_audit := db_audit a @ [au], db_next_audit_id := Suc (db_next_audit_id a)\<rparr>" by blast
  ultimately show ?thesis by (rule step_ok_trust [OF I])
qed

lemma step_ok_authorize:
  assumes I: "db_inv a" and run: "authorize_command_trust_at p d s h now a = (b, r)"
  shows "step_ok a b"
proof -
  have T: "trust_inv b" using trust_inv_authorize [OF _ run] I by (simp add: db_inv_def)
  have "b = a\<lparr>db_trust := db_trust b\<rparr>"
    using run by (auto simp: authorize_command_trust_at_def Let_def split: sum.splits if_splits option.splits)
  also have "\<dots> = a\<lparr>db_trust := db_trust b, db_next_approval_id := db_next_approval_id a,
      db_audit := db_audit a @ [], db_next_audit_id := db_next_audit_id a\<rparr>" by simp
  finally have "b = a\<lparr>db_trust := db_trust b, db_next_approval_id := db_next_approval_id a,
      db_audit := db_audit a @ [], db_next_audit_id := db_next_audit_id a\<rparr>" .
  with T show ?thesis by (rule step_ok_trust [OF I])
qed

lemma upsert_identity_keys:
  assumes "upsert_device_public_identity d a = (b, r)"
  shows "b = a\<lparr>db_identities := db_identities b\<rparr>
    \<and> di_device_id ` set (db_identities a) \<subseteq> di_device_id ` set (db_identities b)"
  using assms unfolding upsert_device_public_identity_def
proof (rule run_tx_frame)
  fix t x
  assume "bind_r (upsert_identity_row (\<lambda>q. d\<lparr>di_device_id := di_device_id q, di_created_at := di_created_at q\<rparr>) d a)
      (\<lambda>db'. Inr (db', Inr ())) = Inr (t, x)"
  then have "t = a\<lparr>db_identities := upsert_row di_device_id
      (\<lambda>q. d\<lparr>di_device_id := di_device_id q, di_created_at := di_created_at q\<rparr>) d (db_identities a)\<rparr>"
    by (auto simp: tx_simps dest!: upsert_identity_row_InrD)
  then show "t = a\<lparr>db_identities := db_identities t\<rparr>
    \<and> di_device_id ` set (db_identities a) \<subseteq> di_device_id ` set (db_identities t)"
    by (simp add: upsert_keys subset_insertI)
qed simp

lemma step_ok_identity:
  assumes I: "db_inv a" and run: "upsert_device_public_identity d a = (b, r)"
  shows "step_ok a b"
proof -
  note k = upsert_identity_keys [OF run]
  have e: "b = a\<lparr>db_identities := db_identities b\<rparr>" using k ..
  have S: "db_snapshots b = db_snapshots a" by (subst e, simp)
  have A: "\<exists>es. db_audit b = db_audit a @ es" by (rule exI [of _ "[]"], subst e, simp)
  show ?thesis
    by (rule step_ok_other [OF I])
      (use conjunct2 [OF k] A I snapshot_inv_cong [OF S] in \<open>simp_all add: db_inv_def\<close>, (subst e, simp)+)
qed

lemma db_step_ok:
  assumes I: "db_inv a" and step: "db_step c hash a b"
  shows "step_ok a b"
  using step
proof (cases rule: db_step.cases)
  case db_handoff then show ?thesis by (rule step_ok_handoff [OF I])
next
  case db_publish then show ?thesis by (rule step_ok_publish [OF I])
next
  case db_fork then show ?thesis by (rule step_ok_fork [OF I])
next
  case (db_store git project fault now m pinned label r)
  have "snapshot_inv b" using store_snapshot_atomic_aux [OF _ db_store] I by (simp add: db_inv_def)
  then show ?thesis by (rule step_ok_store [OF I store_snapshot_frame [OF db_store]])
next
  case (db_prune git project plan r)
  have "snapshot_inv b" using prune_snapshots_inv [OF db_prune] I by (simp add: db_inv_def)
  then show ?thesis by (rule step_ok_prune [OF I prune_frame [OF db_prune]])
next
  case db_default_session then show ?thesis by (rule step_ok_session [OF I ensure_default_frame])
next
  case db_new_session then show ?thesis by (rule step_ok_session [OF I insert_session_frame])
next
  case db_fork_session then show ?thesis by (rule step_ok_session [OF I fork_session_frame])
next
  case db_archive_session then show ?thesis by (rule step_ok_session [OF I archive_session_frame])
next
  case db_revoke then show ?thesis by (rule step_ok_revoke [OF I])
next
  case (db_audit_event i now r)
  have S: "db_snapshots b = db_snapshots a" using record_audit_effect [OF db_audit_event] by auto
  show ?thesis
    by (rule step_ok_other [OF I])
      (use record_audit_effect [OF db_audit_event] I snapshot_inv_cong [OF S] in \<open>auto simp: db_inv_def\<close>)
next
  case (db_device dev r)
  then show ?thesis
    by (intro step_ok_other [OF I])
      (use I snapshot_inv_cong [of b a] in \<open>auto simp: upsert_device_identity_def run_tx_def db_inv_def\<close>)
next
  case (db_fabric root r)
  then show ?thesis
    by (intro step_ok_other [OF I])
      (use I snapshot_inv_cong [of b a] in \<open>auto simp: upsert_fabric_root_identity_def run_tx_def db_inv_def\<close>)
next
  case db_identity then show ?thesis by (rule step_ok_identity [OF I])
next
  case db_pairing then show ?thesis by (rule step_ok_pairing [OF I])
next
  case db_decide then show ?thesis by (rule step_ok_decide [OF I])
next
  case db_authorize then show ?thesis by (rule step_ok_authorize [OF I])
next
  case (db_inject f)
  then show ?thesis
    by (intro step_ok_other [OF I]) (use I snapshot_inv_cong [of b a] in \<open>auto simp: db_inv_def\<close>)
qed

lemma empty_db_inv: "db_inv empty_db"
  by (simp add: db_inv_def empty_db_def handoff_inv_def links_def journal_wf_def snapshot_inv_def pairing_inv_def
      trust_inv_def pk_wf_def)

interpretation metadata: safe_system "\<lambda>db. db = empty_db" "db_step c hash" db_inv for c hash
proof unfold_locales
  fix db assume "db = empty_db" then show "db_inv db" by (simp add: empty_db_inv)
next
  fix a b assume "db_inv a" "db_step c hash a b"
  then show "db_inv b" using db_step_ok by (auto simp: step_ok_def)
qed

section \<open>Leases over runs\<close>

text \<open>The epoch a commit writes, as later readers see it.\<close>

definition next_epoch :: "u64 \<Rightarrow> u64" where
  "next_epoch e = column_u64 (sat_add e 1)"

lemma next_epoch_Suc: "unat e + 1 < 2 ^ 63 \<Longrightarrow> unat (next_epoch e) = unat e + 1"
proof -
  assume b: "unat e + 1 < 2 ^ 63"
  then have "unat (sat_add e 1) = unat e + 1" by (simp add: u64_simps)
  with b show ?thesis by (simp add: next_epoch_def column_u64_id)
qed

definition lease_moves :: "metadata_db \<Rightarrow> lease_record \<Rightarrow> lease_record \<Rightarrow> bool" where
  "lease_moves a l l' \<longleftrightarrow> lr_project_id l' = lr_project_id l \<and> lr_session_id l' = lr_session_id l
     \<and> (lr_epoch l' = lr_epoch l \<and> lr_holder_device_id l' = lr_holder_device_id l
        \<or> lr_epoch l' = next_epoch (lr_epoch l)
          \<and> (\<exists>t. lr_holder_device_id l' = Some t \<and> \<not> device_revoked a t)
          \<and> lr_state l = HandoffPending \<and> lr_state l' = Active)"

lemma lease_moves_refl: "lease_moves a l l"
  by (simp add: lease_moves_def)

lemma lease_change_moves: "lease_change a l l' \<Longrightarrow> lease_moves a (lease_from_row l) (lease_from_row l')"
  by (auto simp: lease_change_def lease_moves_def next_epoch_def)

text \<open>One step changes at most one lease, and never removes one.\<close>

lemma lease_table_get:
  assumes "lease_table_step a b"
  obtains (same) "\<And>j. get_lease j b = get_lease j a"
  | (new) k l where "get_lease k a = None" "get_lease k b = Some l" "\<And>j. j \<noteq> k \<Longrightarrow> get_lease j b = get_lease j a"
  | (moved) k l l' where "get_lease k a = Some l" "get_lease k b = Some l'" "lease_moves a l l'"
      "\<And>j. j \<noteq> k \<Longrightarrow> get_lease j b = get_lease j a"
  using assms unfolding lease_table_step_def
proof (elim disjE exE conjE)
  assume "db_leases b = db_leases a"
  then show thesis by (intro same) (simp add: get_lease_def)
next
  fix l assume l: "db_leases b = db_leases a @ [l]" "lr_lease_id l \<notin> lr_lease_id ` set (db_leases a)"
  then have n: "sel_row lr_lease_id (lr_lease_id l) (db_leases a) = None" by (simp add: sel_row_None_iff)
  show thesis
    by (rule new [of "lr_lease_id l" "lease_from_row l"])
      (use l n in \<open>auto simp: get_lease_def sel_row_append split: option.splits\<close>)
next
  fix k P f
  assume u: "db_leases b = update_rows P f (db_leases a)" "\<forall>l. P l \<longrightarrow> lr_lease_id l = k"
    "\<forall>l. lr_lease_id (f l) = lr_lease_id l" "\<forall>l\<in>set (db_leases a). P l \<longrightarrow> lease_change a l (f l)"
  have get: "get_lease j b = map_option (\<lambda>l. lease_from_row (if P l then f l else l)) (sel_row lr_lease_id j (db_leases a))" for j
    using u by (simp add: get_lease_def sel_row_update option.map_comp comp_def)
  have other: "get_lease j b = get_lease j a" if "j \<noteq> k" for j
    unfolding get using that u(2)
    by (cases "sel_row lr_lease_id j (db_leases a)") (auto simp: get_lease_def dest: sel_row_SomeD)
  show thesis
  proof (cases "sel_row lr_lease_id k (db_leases a)")
    case None
    then have "get_lease k b = get_lease k a" unfolding get by (simp add: get_lease_def)
    with other show thesis by (metis same)
  next
    case (Some l)
    have "lease_moves a (lease_from_row l) (lease_from_row (if P l then f l else l))"
      using u(4) sel_row_SomeD [OF Some] by (simp add: lease_change_moves lease_moves_refl)
    with Some other show thesis
      by (intro moved [of k "lease_from_row l" "lease_from_row (if P l then f l else l)"])
        (simp_all add: get, simp add: get_lease_def)
  qed
qed

lemma lease_step:
  assumes "lease_table_step a b" "get_lease k a = Some l"
  shows "\<exists>l'. get_lease k b = Some l' \<and> lease_moves a l l'"
  using assms(1)
proof (cases rule: lease_table_get)
  case same with assms(2) show ?thesis by (simp add: lease_moves_refl)
next
  case (new j m) with assms(2) show ?thesis by (cases "k = j") (simp_all add: lease_moves_refl)
next
  case (moved j m m') with assms(2) show ?thesis by (cases "k = j") (simp_all add: lease_moves_refl)
qed

lemma epoch_run:
  assumes I: "db_inv a" and run: "(db_step c hash ^^ n) a b" and l: "get_lease k a = Some l"
    and bound: "unat (lr_epoch l) + n < 2 ^ 63"
  shows "db_inv b \<and> (\<exists>l'. get_lease k b = Some l' \<and> unat (lr_epoch l) \<le> unat (lr_epoch l')
    \<and> unat (lr_epoch l') \<le> unat (lr_epoch l) + n
    \<and> (lr_epoch l' = lr_epoch l \<longrightarrow> lr_holder_device_id l' = lr_holder_device_id l))"
  using run bound
proof (induction n arbitrary: b)
  case 0
  with I l show ?case by auto
next
  case (Suc n)
  then obtain d where d: "(db_step c hash ^^ n) a d" and last: "db_step c hash d b"
    by (auto elim: relpowp_Suc_E)
  obtain m where Id: "db_inv d" and m: "get_lease k d = Some m" "unat (lr_epoch l) \<le> unat (lr_epoch m)"
      "unat (lr_epoch m) \<le> unat (lr_epoch l) + n"
      "lr_epoch m = lr_epoch l \<longrightarrow> lr_holder_device_id m = lr_holder_device_id l"
    using Suc.IH [OF d] Suc.prems(2) by auto
  have ok: "step_ok d b" by (rule db_step_ok [OF Id last])
  then obtain l' where l': "get_lease k b = Some l'" and mv: "lease_moves d m l'"
    using lease_step [OF _ m(1)] by (auto simp: step_ok_def)
  have nx: "unat (next_epoch (lr_epoch m)) = unat (lr_epoch m) + 1"
    using m(3) Suc.prems(2) by (intro next_epoch_Suc) linarith
  have "db_inv b" using ok by (simp add: step_ok_def)
  moreover have "unat (lr_epoch l) \<le> unat (lr_epoch l')" "unat (lr_epoch l') \<le> unat (lr_epoch l) + Suc n"
    using mv m nx by (auto simp: lease_moves_def)
  moreover have "lr_holder_device_id l' = lr_holder_device_id l" if "lr_epoch l' = lr_epoch l"
    using that mv m nx by (auto simp: lease_moves_def)
  ultimately show ?case using l' by blast
qed

section \<open>The abstract lease machine\<close>

text \<open>
  What the lease table promises: every lease has one writer and a term. A lease is granted once,
  and then only handed over, to the next term.
\<close>

type_synonym writers = "string \<Rightarrow> (string option \<times> u64) option"

inductive writer_step :: "writers \<Rightarrow> writers \<Rightarrow> bool" where
  ws_stay: "writer_step m m"
| ws_grant: "m k = None \<Longrightarrow> writer_step m (m(k \<mapsto> (h, e)))"
| ws_transfer: "m k = Some (h, e) \<Longrightarrow> writer_step m (m(k \<mapsto> (Some t, next_epoch e)))"

definition writers_of :: "metadata_db \<Rightarrow> writers" where
  "writers_of db k = map_option (\<lambda>l. (lr_holder_device_id l, lr_epoch l)) (get_lease k db)"

lemma writers_step:
  assumes "lease_table_step a b"
  shows "writer_step (writers_of a) (writers_of b)"
  using assms
proof (cases rule: lease_table_get)
  case same
  then have "writers_of b = writers_of a" by (simp add: writers_of_def fun_eq_iff)
  then show ?thesis by (simp add: ws_stay)
next
  case (new k l)
  then have "writers_of b = (writers_of a)(k \<mapsto> (lr_holder_device_id l, lr_epoch l))"
    by (auto simp: writers_of_def fun_eq_iff)
  moreover have "writers_of a k = None" using new by (simp add: writers_of_def)
  ultimately show ?thesis using ws_grant by metis
next
  case (moved k l l')
  then have b: "writers_of b = (writers_of a)(k \<mapsto> (lr_holder_device_id l', lr_epoch l'))"
    and k: "writers_of a k = Some (lr_holder_device_id l, lr_epoch l)"
    by (auto simp: writers_of_def fun_eq_iff)
  from moved(3) show ?thesis
    unfolding lease_moves_def
  proof (elim conjE disjE exE)
    assume "lr_epoch l' = lr_epoch l" "lr_holder_device_id l' = lr_holder_device_id l"
    then have "writers_of b = writers_of a" using b k by (simp add: fun_upd_idem)
    then show ?thesis by (simp add: ws_stay)
  next
    fix t assume "lr_epoch l' = next_epoch (lr_epoch l)" "lr_holder_device_id l' = Some t"
    then show ?thesis using ws_transfer [of "writers_of a" k _ _ t] b k by simp
  qed
qed

section \<open>Logs and revocations over runs\<close>

lemma logs_run:
  assumes "(db_step c hash)\<^sup>*\<^sup>* a b" "db_inv a"
  shows "db_inv b \<and> logs_grow a b"
  using assms(1)
proof (induction rule: rtranclp_induct)
  case base with assms(2) show ?case by (simp add: logs_same)
next
  case (step x y)
  then show ?case using db_step_ok [of x c hash y] logs_trans by (auto simp: step_ok_def)
qed

lemma revoked_run:
  assumes run: "(db_step c hash)\<^sup>*\<^sup>* a b" and I: "db_inv a" and rev: "device_revoked a d"
    and l: "get_lease k a = Some l" "lr_holder_device_id l \<noteq> Some d"
  shows "\<exists>l'. get_lease k b = Some l' \<and> lr_holder_device_id l' \<noteq> Some d"
  using run
proof (induction rule: rtranclp_induct)
  case base with l show ?case by blast
next
  case (step x y)
  then obtain m where m: "get_lease k x = Some m" "lr_holder_device_id m \<noteq> Some d" by blast
  have x: "db_inv x" "logs_grow a x" using logs_run [OF step.hyps(1) I] by simp_all
  then have "device_revoked x d" using rev by (auto simp: logs_grow_def device_revoked_def)
  moreover obtain l' where "get_lease k y = Some l'" "lease_moves x m l'"
    using lease_step [OF _ m(1)] db_step_ok [OF x(1) step.hyps(2)] by (auto simp: step_ok_def)
  ultimately show ?case using m(2) by (auto simp: lease_moves_def)
qed

lemma history_nth:
  assumes "history_from seen xs" "j < length xs"
  shows "extends_history (seen @ take j xs) (xs ! j)"
  using assms
proof (induction xs arbitrary: seen j)
  case (Cons x xs)
  then show ?case using Cons.IH [of "seen @ [x]" "j - 1"] by (cases j) auto
qed simp

section \<open>Sample runs\<close>

definition ex_d1 :: metadata_db where
  "ex_d1 = empty_db\<lparr>db_projects := [\<lparr>pj_project_id = ''p1'', pj_display_name = ''Demo''\<rparr>],
     db_sessions := [ex_session]\<rparr>"

definition ex_d2 :: metadata_db where
  "ex_d2 = ex_d1\<lparr>db_leases := [ex_lease Active None]\<rparr>"

lemma ex_run_d1: "ensure_default_session ''s1'' 90 ''p1'' ''Demo'' None empty_db = (ex_d1, Inr ex_session)"
  by (simp add: ensure_default_session_def upsert_project_name_def Let_def sql_first_def sql_query_def
      insert_session_def insert_session_row_def insert_row_def run_tx_def get_session_def session_from_row_def
      column_u64_id update_rows_def ex_d1_def ex_session_def empty_db_def)

lemma ex_run_d2: "upsert_lease (ex_lease Active None) ex_d1 = (ex_d2, Inr ())"
  by (simp add: upsert_lease_def run_tx_def upsert_row_def ex_d1_def ex_d2_def ex_lease_def empty_db_def)

lemma ex_reach_d2: "reach (\<lambda>db. db = empty_db) (db_step c hash) ex_d2"
proof -
  have "reach (\<lambda>db. db = empty_db) (db_step c hash) empty_db" by (rule reach_init) simp
  then have "reach (\<lambda>db. db = empty_db) (db_step c hash) ex_d1"
    by (rule reach_step) (rule db_default_session [OF ex_run_d1])
  then show ?thesis
    by (rule reach_step)
      (rule db_handoff, rule hs_lease [OF ex_run_d2], simp_all add: get_lease_def ex_d1_def empty_db_def ex_lease_def)
qed

lemma ex_begin: "\<exists>db h. begin_handoff ''h1'' 100 ''l1'' ''a'' ''b'' ''g1'' 60 ex_d2 = (db, Inr h)
    \<and> (\<exists>r. db_handoffs db = [r] \<and> ho_lease_id r = ''l1'' \<and> ho_state r = TargetPrepare)"
proof -
  have d2: "db_leases ex_d2 = [ex_lease Active None]" "db_handoffs ex_d2 = []" "db_revocations ex_d2 = []"
    by (simp_all add: ex_d2_def ex_d1_def empty_db_def)
  have "\<exists>db. begin_handoff ''h1'' 100 ''l1'' ''a'' ''b'' ''g1'' 60 ex_d2
      = (db, Inr (new_handoff ''h1'' 100 (lease_from_row (ex_lease Active None)) ''a'' ''b'' ''g1'' 60))"
    by (rule begin_ok)
      (simp_all add: d2 device_revoked_def project_fk_def, simp_all add: ex_lease_def ex_d2_def ex_d1_def)
  then obtain db where run: "begin_handoff ''h1'' 100 ''l1'' ''a'' ''b'' ''g1'' 60 ex_d2
      = (db, Inr (new_handoff ''h1'' 100 (lease_from_row (ex_lease Active None)) ''a'' ''b'' ''g1'' 60))"
    by blast
  from begin_handoff_InrD [OF run] show ?thesis using run d2(2)
    by (auto simp: ex_lease_def)
qed

lemma ex_ready_db_inv: "db_inv ex_ready"
  using ex_ready_inv
  by (simp add: db_inv_def snapshot_inv_def pairing_inv_def trust_inv_def pk_wf_def ex_defs)

lemma ex_commit: "\<exists>db h. commit_handoff_inner ex_codec ''h1'' ''g1'' 130 None ex_ready = (db, Inr h)
    \<and> get_lease ''l1'' db = Some ((ex_lease Active None)\<lparr>lr_epoch := 5, lr_holder_device_id := Some ''b''\<rparr>)"
  by (simp add: commit_handoff_inner_def ex_eval lease_from_row_def)

lemma ex_commit_step:
  assumes "commit_handoff_inner ex_codec ''h1'' ''g1'' 130 None ex_ready = (db, r)"
  shows "(db_step ex_codec (\<lambda>_. ex_key) ^^ 1) ex_ready db"
  using db_handoff [OF hs_commit [OF assms]] by (auto simp: OO_def)

lemma ex_ready_lease: "get_lease ''l1'' ex_ready = Some (ex_lease HandoffPending (Some ''h1''))"
  by (simp add: ex_eval lease_from_row_def)

definition ex_revoked :: metadata_db where
  "ex_revoked = ex_ready\<lparr>db_revocations := [\<lparr>rv_device_id = ''b'', rv_revoked_by_device_id = ''a'',
     rv_reason = ''lost'', rv_key_rotation_required = False, rv_revoked_at = 120\<rparr>]\<rparr>"

end
