(* ===== verification/Identity_Certificates.thy ===== *)
theory Identity_Certificates
  imports Identity_Db
begin

text \<open>
  Key material and device certificates: the hexadecimal codec and the certificate issuer of
  \<open>identity.rs\<close>, and the certificate check of \<open>transport_security.rs\<close>. BLAKE3, Ed25519, X25519 and
  serde\_json are parameters; \<open>key_pair_ok\<close> states what the code relies on of Ed25519.
\<close>

type_synonym u8 = "8 word"
type_synonym bytes = "u8 list"

unbundle bit_operations_syntax

section \<open>The hexadecimal codec\<close>

definition hex_digits :: string where
  "hex_digits = ''0123456789abcdef''"

definition hex_digit_char :: "u8 \<Rightarrow> char" where
  "hex_digit_char d = hex_digits ! unat d"

fun hex_encode :: "bytes \<Rightarrow> string" where
  "hex_encode [] = []"
| "hex_encode (b # bs) =
     hex_digit_char (drop_bit 4 b) # hex_digit_char (b AND 0x0F) # hex_encode bs"

definition hex_digit :: "char \<Rightarrow> u8 option" where
  "hex_digit c =
     (if CHR ''0'' \<le> c \<and> c \<le> CHR ''9'' then Some (of_char c - of_char CHR ''0'')
      else if CHR ''a'' \<le> c \<and> c \<le> CHR ''f'' then Some (of_char c - of_char CHR ''a'' + 10)
      else if CHR ''A'' \<le> c \<and> c \<le> CHR ''F'' then Some (of_char c - of_char CHR ''A'' + 10)
      else None)"

fun decode_hex_chunks :: "string \<Rightarrow> string \<Rightarrow> bytes result" where
  "decode_hex_chunks field (h # l # rest) =
     (case hex_digit h of
        None \<Rightarrow> Inl (Config (field @ '' contains non-hex characters''))
      | Some high \<Rightarrow> (case hex_digit l of
          None \<Rightarrow> Inl (Config (field @ '' contains non-hex characters''))
        | Some low \<Rightarrow> bind_r (decode_hex_chunks field rest)
            (\<lambda>bs. Inr ((push_bit 4 high OR low) # bs))))"
| "decode_hex_chunks field _ = Inr []"

definition decode_hex_array :: "nat \<Rightarrow> string \<Rightarrow> string \<Rightarrow> bytes result" where
  "decode_hex_array n field value =
     (if length value \<noteq> n * 2
      then Inl (Config (field @ '' must be '' @ dec_nat (n * 2) @ '' hex characters''))
      else decode_hex_chunks field value)"

definition KEY_BYTES :: nat where
  "KEY_BYTES = 32"

definition decode_key_hex :: "string \<Rightarrow> string \<Rightarrow> bytes result" where
  "decode_key_hex field value =
     (if length value \<noteq> KEY_BYTES * 2
      then Inl (Config (field @ '' must be '' @ dec_nat (KEY_BYTES * 2) @ '' hex characters''))
      else decode_hex_chunks field value)"

text \<open>
  A codec prints the values of a domain and reads them back, and reads nothing outside it.
\<close>

locale codec =
  fixes enc :: "'a \<Rightarrow> string" and dec :: "string \<Rightarrow> 'e + 'a" and valid :: "'a \<Rightarrow> bool"
  assumes dec_enc: "valid x \<Longrightarrow> dec (enc x) = Inr x"
    and dec_valid: "dec s = Inr x \<Longrightarrow> valid x"
begin

lemma enc_inject: "valid x \<Longrightarrow> valid y \<Longrightarrow> enc x = enc y \<longleftrightarrow> x = y"
  by (metis dec_enc sum.inject(2))

lemma dec_enc_dec: "dec s = Inr x \<Longrightarrow> dec (enc x) = Inr x"
  by (simp add: dec_valid dec_enc)

end

lemma byte_less_16: "unat (drop_bit 4 (b :: u8)) < 16" "unat (b AND 15 :: u8) < 16"
proof -
  have "unat b < 2 ^ 8" using unsigned_less [of b] by simp
  moreover have "unat (drop_bit 4 b) = unat b div 2 ^ 4"
    by (metis drop_bit_eq_div unat_drop_bit_eq)
  ultimately show "unat (drop_bit 4 b) < 16" by simp
  have "b AND 15 = take_bit 4 b" by (simp add: take_bit_eq_mask mask_numeral)
  then have "unat (b AND 15) = unat b mod 2 ^ 4"
    by (metis take_bit_eq_mod unsigned_take_bit_eq)
  then show "unat (b AND 15) < 16" by simp
qed

lemma hex_digit_char: "unat d < 16 \<Longrightarrow> hex_digit (hex_digit_char d) = Some d"
proof -
  assume d: "unat d < 16"
  have "d = of_nat (unat d)" by simp
  moreover have "unat d \<in> set [0..<16]" using d by simp
  ultimately have "\<exists>n\<in>set [0..<16]. d = of_nat n" by blast
  then show ?thesis
    by (simp add: upt_rec numeral_eq_Suc)
      (elim disjE; simp add: hex_digit_char_def hex_digits_def hex_digit_def less_eq_char_def)
qed

lemma nibbles_join: "push_bit 4 (drop_bit 4 (b :: u8)) OR (b AND 15) = b"
proof -
  have m: "b AND 15 = take_bit 4 b" by (simp add: take_bit_eq_mask mask_numeral)
  show ?thesis unfolding m by (rule bit_eqI) (auto simp: bit_simps)
qed

lemma length_hex_encode [simp]: "length (hex_encode bs) = 2 * length bs"
  by (induction bs) simp_all

lemma decode_hex_chunks_encode [simp]: "decode_hex_chunks field (hex_encode bs) = Inr bs"
  by (induction bs) (simp_all add: hex_digit_char byte_less_16 nibbles_join)


lemma decode_hex_chunks_length:
  "decode_hex_chunks field s = Inr bs \<Longrightarrow> length bs = length s div 2"
  by (induction field s arbitrary: bs rule: decode_hex_chunks.induct)
    (auto simp: tx_simps split: option.splits)

lemma decode_hex_array_encode: "length bs = n \<Longrightarrow> decode_hex_array n field (hex_encode bs) = Inr bs"
  by (simp add: decode_hex_array_def)

lemma decode_key_hex_encode: "length bs = KEY_BYTES \<Longrightarrow> decode_key_hex field (hex_encode bs) = Inr bs"
  by (simp add: decode_key_hex_def)

lemma decode_hex_array_length: "decode_hex_array n field s = Inr bs \<Longrightarrow> length bs = n"
  by (auto simp: decode_hex_array_def dest: decode_hex_chunks_length split: if_splits)

lemma decode_key_hex_length: "decode_key_hex field s = Inr bs \<Longrightarrow> length bs = KEY_BYTES"
  by (auto simp: decode_key_hex_def dest: decode_hex_chunks_length split: if_splits)

interpretation hex_array: codec hex_encode "decode_hex_array n field" "\<lambda>bs. length bs = n"
  for n field
  by unfold_locales (auto simp: decode_hex_array_encode dest: decode_hex_array_length)

interpretation hex_key: codec hex_encode "decode_key_hex field" "\<lambda>bs. length bs = KEY_BYTES"
  for field
  by unfold_locales (auto simp: decode_key_hex_encode dest: decode_key_hex_length)

section \<open>Parameters\<close>

text \<open>
  Ed25519 and X25519 of the dalek crates, and the hexadecimal BLAKE3 digest. A key is its 32
  bytes: \<open>cr_public\<close> is \<open>SigningKey::from_bytes(..).verifying_key().to_bytes()\<close>, \<open>cr_key\<close> is
  \<open>VerifyingKey::from_bytes\<close>, and \<open>cr_verify\<close> gives the error text of a rejected signature.
\<close>

record crypto =
  cr_public :: "bytes \<Rightarrow> bytes"
  cr_network_public :: "bytes \<Rightarrow> bytes"
  cr_sign :: "bytes \<Rightarrow> string \<Rightarrow> bytes"
  cr_key :: "bytes \<Rightarrow> string + unit"
  cr_verify :: "bytes \<Rightarrow> string \<Rightarrow> bytes \<Rightarrow> string + unit"
  cr_blake3 :: "string \<Rightarrow> string"

definition key_pair_ok :: "crypto \<Rightarrow> bytes \<Rightarrow> bool" where
  "key_pair_ok cr sk \<longleftrightarrow> length (cr_public cr sk) = 32 \<and> cr_key cr (cr_public cr sk) = Inr ()
     \<and> (\<forall>m. length (cr_sign cr sk m) = 64 \<and> cr_verify cr (cr_public cr sk) m (cr_sign cr sk m) = Inr ())"

section \<open>Secrets and identities\<close>

record fabric_secrets =
  fs_fabric_id :: string
  fs_root_secret_key :: bytes
  fs_device_signing_secret_key :: bytes
  fs_network_secret_key :: bytes
  fs_created_at :: u64
  fs_rotation_epoch :: u64

record fabric_secret_file =
  ff_schema_version :: u32
  ff_fabric_id :: string
  ff_root_secret_key_hex :: string
  ff_device_signing_secret_key_hex :: string
  ff_network_secret_key_hex :: string
  ff_created_at :: u64
  ff_rotation_epoch :: u64

definition FABRIC_SECRET_SCHEMA_VERSION :: u32 where
  "FABRIC_SECRET_SCHEMA_VERSION = 1"

definition secret_file :: "fabric_secrets \<Rightarrow> fabric_secret_file" where
  "secret_file s =
     \<lparr>ff_schema_version = FABRIC_SECRET_SCHEMA_VERSION, ff_fabric_id = fs_fabric_id s,
      ff_root_secret_key_hex = hex_encode (fs_root_secret_key s),
      ff_device_signing_secret_key_hex = hex_encode (fs_device_signing_secret_key s),
      ff_network_secret_key_hex = hex_encode (fs_network_secret_key s),
      ff_created_at = fs_created_at s, ff_rotation_epoch = fs_rotation_epoch s\<rparr>"

definition load_secrets :: "fabric_secret_file \<Rightarrow> fabric_secrets result" where
  "load_secrets f =
     (if ff_schema_version f \<noteq> FABRIC_SECRET_SCHEMA_VERSION
      then Inl (Config (''unsupported fabric secret schema '' @ dec_u64 (ff_schema_version f)
             @ '', expected '' @ dec_u64 FABRIC_SECRET_SCHEMA_VERSION))
      else bind_r (decode_key_hex ''root_secret_key_hex'' (ff_root_secret_key_hex f)) (\<lambda>root.
           bind_r (decode_key_hex ''device_signing_secret_key_hex''
                     (ff_device_signing_secret_key_hex f)) (\<lambda>dev.
           bind_r (decode_key_hex ''network_secret_key_hex'' (ff_network_secret_key_hex f)) (\<lambda>net.
           Inr \<lparr>fs_fabric_id = ff_fabric_id f, fs_root_secret_key = root,
                fs_device_signing_secret_key = dev, fs_network_secret_key = net,
                fs_created_at = ff_created_at f, fs_rotation_epoch = ff_rotation_epoch f\<rparr>))))"

definition hash_24 :: "crypto \<Rightarrow> string \<Rightarrow> string" where
  "hash_24 cr s = take 24 (cr_blake3 cr s)"

definition bytes_str :: "bytes \<Rightarrow> string" where
  "bytes_str bs = map (\<lambda>b. char_of (unat b)) bs"

definition fabric_id_for_root_public_key :: "crypto \<Rightarrow> bytes \<Rightarrow> string" where
  "fabric_id_for_root_public_key cr pk = ''f_'' @ hash_24 cr (bytes_str pk)"

definition fabric_id_for_root_public_key_hex :: "crypto \<Rightarrow> string \<Rightarrow> string result" where
  "fabric_id_for_root_public_key_hex cr hex =
     bind_r (decode_key_hex ''root_public_key_hex'' hex) (\<lambda>pk.
     Inr (fabric_id_for_root_public_key cr pk))"

definition create_secrets :: "crypto \<Rightarrow> bytes \<Rightarrow> bytes \<Rightarrow> bytes \<Rightarrow> u64 \<Rightarrow> fabric_secrets" where
  "create_secrets cr root dev net now =
     \<lparr>fs_fabric_id = fabric_id_for_root_public_key cr (cr_public cr root),
      fs_root_secret_key = root, fs_device_signing_secret_key = dev,
      fs_network_secret_key = net, fs_created_at = now, fs_rotation_epoch = 0\<rparr>"

text \<open>The local configuration's fields that reach the device identity.\<close>

record local_device_config =
  lc_fabric_name :: string
  lc_device_id :: string
  lc_device_name :: string
  lc_platform_key :: string
  lc_architecture :: string
  lc_last_seen :: u64

definition public_bundle :: "crypto \<Rightarrow> local_device_config \<Rightarrow> fabric_secrets
    \<Rightarrow> (fabric_root_identity \<times> device_public_identity) result" where
  "public_bundle cr config s =
     (let root_public = cr_public cr (fs_root_secret_key s) in
      if fabric_id_for_root_public_key cr root_public \<noteq> fs_fabric_id s
      then Inl (Config ''fabric secret root key does not match stored fabric_id'')
      else Inr
        (\<lparr>fr_fabric_id = fs_fabric_id s, fr_fabric_name = lc_fabric_name config,
          fr_root_public_key_hex = hex_encode root_public, fr_created_at = fs_created_at s,
          fr_rotation_epoch = fs_rotation_epoch s\<rparr>,
         \<lparr>di_device_id = lc_device_id config, di_display_name = lc_device_name config,
          di_fabric_id = fs_fabric_id s,
          di_signing_public_key_hex = hex_encode (cr_public cr (fs_device_signing_secret_key s)),
          di_network_public_key_hex = hex_encode (cr_network_public cr (fs_network_secret_key s)),
          di_platform_key = lc_platform_key config, di_architecture = lc_architecture config,
          di_created_at = fs_created_at s, di_last_seen = lc_last_seen config\<rparr>))"

definition sign_with_root :: "crypto \<Rightarrow> fabric_secrets \<Rightarrow> string \<Rightarrow> string \<times> string" where
  "sign_with_root cr s payload =
     (hex_encode (cr_public cr (fs_root_secret_key s)),
      hex_encode (cr_sign cr (fs_root_secret_key s) payload))"

section \<open>Device certificates\<close>

record device_certificate =
  dc_certificate_id :: string
  dc_fabric_id :: string
  dc_device_id :: string
  dc_signing_public_key_hex :: string
  dc_network_public_key_hex :: string
  dc_issuer_root_public_key_hex :: string
  dc_issued_at :: u64
  dc_expires_at :: u64
  dc_signature_hex :: string

record validated_device_certificate =
  vc_certificate_id :: string
  vc_fabric_id :: string
  vc_device_id :: string
  vc_signing_public_key_hex :: string
  vc_network_public_key_hex :: string
  vc_expires_at :: u64

definition signed_certificate_payload :: "json_codec \<Rightarrow> device_certificate \<Rightarrow> string" where
  "signed_certificate_payload c crt = js_print c (JObj
     [(''schema'', JNum ''1''), (''fabric_id'', JStr (dc_fabric_id crt)),
      (''device_id'', JStr (dc_device_id crt)),
      (''signing_public_key_hex'', JStr (dc_signing_public_key_hex crt)),
      (''network_public_key_hex'', JStr (dc_network_public_key_hex crt)),
      (''issuer_root_public_key_hex'', JStr (dc_issuer_root_public_key_hex crt)),
      (''issued_at_unix_seconds'', json_u64 (dc_issued_at crt)),
      (''expires_at_unix_seconds'', json_u64 (dc_expires_at crt))])"

definition issue_device_certificate ::
    "json_codec \<Rightarrow> crypto \<Rightarrow> fabric_secrets \<Rightarrow> device_public_identity \<Rightarrow> u64 \<Rightarrow> u64
      \<Rightarrow> device_certificate result" where
  "issue_device_certificate c cr s d issued ttl =
     (if di_fabric_id d \<noteq> fs_fabric_id s
      then Inl (Config ''cannot issue certificate for a different fabric'')
      else
        let issuer = hex_encode (cr_public cr (fs_root_secret_key s));
            expires = sat_add issued (max ttl 1);
            payload = js_print c (JObj
              [(''schema'', JNum ''1''), (''fabric_id'', JStr (di_fabric_id d)),
               (''device_id'', JStr (di_device_id d)),
               (''signing_public_key_hex'', JStr (di_signing_public_key_hex d)),
               (''network_public_key_hex'', JStr (di_network_public_key_hex d)),
               (''issuer_root_public_key_hex'', JStr issuer),
               (''issued_at_unix_seconds'', json_u64 issued),
               (''expires_at_unix_seconds'', json_u64 expires)]);
            signature = cr_sign cr (fs_root_secret_key s) payload
        in Inr \<lparr>dc_certificate_id = ''cert_'' @ hash_24 cr payload, dc_fabric_id = di_fabric_id d,
                dc_device_id = di_device_id d,
                dc_signing_public_key_hex = di_signing_public_key_hex d,
                dc_network_public_key_hex = di_network_public_key_hex d,
                dc_issuer_root_public_key_hex = issuer, dc_issued_at = issued,
                dc_expires_at = expires, dc_signature_hex = hex_encode signature\<rparr>)"

definition validate_device_certificate ::
    "json_codec \<Rightarrow> crypto \<Rightarrow> device_certificate \<Rightarrow> fabric_root_identity
      \<Rightarrow> device_revocation_record list \<Rightarrow> u64 \<Rightarrow> validated_device_certificate result" where
  "validate_device_certificate c cr crt root revocations now =
     (if dc_fabric_id crt \<noteq> fr_fabric_id root
      then Inl (Config (''device certificate fabric '' @ dc_fabric_id crt
             @ '' does not match pinned fabric '' @ fr_fabric_id root))
      else if dc_issuer_root_public_key_hex crt \<noteq> fr_root_public_key_hex root
      then Inl (Config ''device certificate issuer does not match pinned fabric root'')
      else if now < dc_issued_at crt
      then Inl (Config (''device certificate '' @ dc_certificate_id crt @ '' is not valid until ''
             @ dec_u64 (dc_issued_at crt)))
      else if dc_expires_at crt \<le> now
      then Inl (Config (''device certificate '' @ dc_certificate_id crt @ '' expired at ''
             @ dec_u64 (dc_expires_at crt)))
      else if list_ex (\<lambda>r. rv_device_id r = dc_device_id crt) revocations
      then Inl (Config (''device certificate '' @ dc_certificate_id crt @ '' rejected: device ''
             @ dc_device_id crt @ '' is revoked''))
      else
        bind_r (decode_hex_array 32 ''signing_public_key_hex'' (dc_signing_public_key_hex crt)) (\<lambda>_.
        bind_r (decode_hex_array 32 ''network_public_key_hex'' (dc_network_public_key_hex crt)) (\<lambda>_.
        bind_r (decode_hex_array 32 ''root_public_key_hex'' (fr_root_public_key_hex root)) (\<lambda>root_key.
        bind_r (decode_hex_array 64 ''signature_hex'' (dc_signature_hex crt)) (\<lambda>signature.
        let payload = signed_certificate_payload c crt in
        if dc_certificate_id crt \<noteq> ''cert_'' @ hash_24 cr payload
        then Inl (Config (''device certificate id '' @ dc_certificate_id crt
               @ '' does not match signed payload''))
        else case cr_key cr root_key of
          Inl err \<Rightarrow> Inl (Config (''invalid fabric root key: '' @ err))
        | Inr _ \<Rightarrow> (case cr_verify cr root_key payload signature of
            Inl err \<Rightarrow> Inl (Config (''device certificate '' @ dc_certificate_id crt
                         @ '' signature is invalid: '' @ err))
          | Inr _ \<Rightarrow> Inr \<lparr>vc_certificate_id = dc_certificate_id crt, vc_fabric_id = dc_fabric_id crt,
                       vc_device_id = dc_device_id crt,
                       vc_signing_public_key_hex = dc_signing_public_key_hex crt,
                       vc_network_public_key_hex = dc_network_public_key_hex crt,
                       vc_expires_at = dc_expires_at crt\<rparr>))))))"

section \<open>Properties\<close>

lemma list_ex_image: "list_ex (\<lambda>r. f r = k) xs \<longleftrightarrow> k \<in> f ` set xs"
  by (induction xs) auto

lemma case_sum_Inr_iff:
  "(case x of Inl e \<Rightarrow> Inl (f e) | Inr u \<Rightarrow> g u) = Inr z \<longleftrightarrow> (\<exists>u. x = Inr u \<and> g u = Inr z)"
  by (cases x) auto

lemma char_range_cases:
  assumes "CHR ''0'' \<le> c \<and> c \<le> CHR ''9'' \<or> CHR ''a'' \<le> c \<and> c \<le> CHR ''f'' \<or> CHR ''A'' \<le> c \<and> c \<le> CHR ''F''"
  shows "c \<in> set ''0123456789abcdefABCDEF''"
proof -
  let ?n = "of_char c :: nat"
  have "48 \<le> ?n \<and> ?n \<le> 57 \<or> 97 \<le> ?n \<and> ?n \<le> 102 \<or> 65 \<le> ?n \<and> ?n \<le> 70"
    using assms by (simp add: less_eq_char_def)
  then have "?n \<in> set ([48..<58] @ [97..<103] @ [65..<71])"
    unfolding set_append set_upt by (simp only: Un_iff atLeastLessThan_iff) linarith
  then have "char_of ?n \<in> char_of ` set ([48..<58] @ [97..<103] @ [65..<71])" by (rule imageI)
  also have "char_of ` set ([48..<58] @ [97..<103] @ [65..<71]) = set ''0123456789abcdefABCDEF''"
    by (simp add: upt_rec char_of_def bit_iff_odd insert_commute)
  finally show ?thesis by simp
qed

lemma hex_digit_SomeD:
  assumes "hex_digit h = Some d"
  shows "hex_digit_char d = to_ascii_lower_char h \<and> unat d < 16"
proof -
  have "h \<in> set ''0123456789abcdefABCDEF''"
    using assms by (intro char_range_cases) (auto simp: hex_digit_def split: if_splits)
  with assms show ?thesis
    by (simp, elim disjE)
      (simp_all add: hex_digit_def less_eq_char_def hex_digit_char_def hex_digits_def
        to_ascii_lower_char_def is_ascii_upper_def char_of_def bit_iff_odd)
qed

lemma nibbles_split:
  assumes "unat h < 16" "unat l < 16"
  shows "drop_bit 4 (push_bit 4 (h :: u8) OR l) = h" "(push_bit 4 h OR l) AND 15 = l"
proof -
  have t: "h = take_bit 4 h" "l = take_bit 4 l"
    using assms
    by (simp_all add: word_unat_eq_iff unsigned_take_bit_eq take_bit_nat_eq_self)
  have h: "bit h n \<Longrightarrow> n < 4" and l: "bit l n \<Longrightarrow> n < 4" for n
    by (subst (asm) t, simp add: bit_simps)+
  show "drop_bit 4 (push_bit 4 h OR l) = h"
    by (rule bit_eqI) (auto simp: bit_simps dest: h l)
  have m: "x AND 15 = take_bit 4 x" for x :: u8 by (simp add: take_bit_eq_mask mask_numeral)
  show "(push_bit 4 h OR l) AND 15 = l"
    unfolding m by (rule bit_eqI) (auto simp: bit_simps dest: h l)
qed

lemma encode_decode_hex: "decode_hex_chunks field s = Inr bs \<Longrightarrow> even (length s) \<Longrightarrow>
    hex_encode bs = to_ascii_lowercase s"
proof (induction field s arbitrary: bs rule: decode_hex_chunks.induct)
  case (1 field h l rest)
  then obtain high low bs' where d: "hex_digit h = Some high" "hex_digit l = Some low"
    and bs: "bs = (push_bit 4 high OR low) # bs'" and r: "decode_hex_chunks field rest = Inr bs'"
    by (auto simp: tx_simps split: option.splits)
  have "hex_encode bs' = to_ascii_lowercase rest" using 1 d r by simp
  then show ?case
    using d [THEN hex_digit_SomeD]
    by (simp add: bs nibbles_split to_ascii_lowercase_def del: drop_bit_or)
qed (simp_all add: to_ascii_lowercase_def)

text \<open>
  Hexadecimal key material round-trips: decoding the encoding of bytes gives them back, and
  whatever the decoder accepts is, up to the case of its letters, the encoding of what it
  returned; so two accepted strings of the same bytes differ in letter case only.
\<close>

theorem hex_roundtrip:
  "decode_hex_array (length bs) field (hex_encode bs) = Inr bs
   \<and> (decode_hex_array n field s = Inr cs \<longrightarrow> length cs = n \<and> hex_encode cs = to_ascii_lowercase s)"
  by (auto simp: decode_hex_array_encode decode_hex_array_length)
    (auto simp: decode_hex_array_def split: if_splits intro: encode_decode_hex)

theorem hex_roundtrip_witness:
  "length [0xA9 :: u8] = 1 \<and> hex_encode [0xA9] = to_ascii_lowercase ''A9''"
proof -
  have "decode_hex_array 1 ''k'' ''A9'' = Inr [0xA9]"
    by (simp add: decode_hex_array_def hex_digit_def less_eq_char_def)
  then show ?thesis using hex_roundtrip [of "[]" "''k''" 1 "''A9''" "[0xA9]"] by simp
qed

text \<open>
  A fresh fabric identity works end to end: secrets created from three 32-byte keys survive
  the secret file, the public bundle derived from them is consistent, and a certificate the
  fabric issues to its own device is accepted by the certificate check against the bundle's root
  from the moment of issue until it expires, unless the device is revoked. The time to live is at
  least one second and the expiry saturates at the largest u64.
\<close>

theorem issued_certificate_accepted:
  assumes "s = create_secrets cr rk dk nk created"
    and "length rk = 32" "length dk = 32" "length nk = 32"
    and "key_pair_ok cr rk" "key_pair_ok cr dk" "length (cr_network_public cr nk) = 32"
    and "issued \<le> now" "now < sat_add issued (max ttl 1)"
    and "lc_device_id config \<notin> rv_device_id ` set revocations"
  shows "load_secrets (secret_file s) = Inr s
    \<and> (\<exists>root device crt. public_bundle cr config s = Inr (root, device)
        \<and> issue_device_certificate c cr s device issued ttl = Inr crt
        \<and> validate_device_certificate c cr crt root revocations now =
            Inr \<lparr>vc_certificate_id = dc_certificate_id crt, vc_fabric_id = fr_fabric_id root,
                 vc_device_id = lc_device_id config,
                 vc_signing_public_key_hex = hex_encode (cr_public cr dk),
                 vc_network_public_key_hex = hex_encode (cr_network_public cr nk),
                 vc_expires_at = sat_add issued (max ttl 1)\<rparr>)"
proof
  show "load_secrets (secret_file s) = Inr s"
    using assms(2-4)
    by (simp add: load_secrets_def secret_file_def create_secrets_def decode_key_hex_encode
        KEY_BYTES_def assms(1))
  show "\<exists>root device crt. public_bundle cr config s = Inr (root, device)
        \<and> issue_device_certificate c cr s device issued ttl = Inr crt
        \<and> validate_device_certificate c cr crt root revocations now =
            Inr \<lparr>vc_certificate_id = dc_certificate_id crt, vc_fabric_id = fr_fabric_id root,
                 vc_device_id = lc_device_id config,
                 vc_signing_public_key_hex = hex_encode (cr_public cr dk),
                 vc_network_public_key_hex = hex_encode (cr_network_public cr nk),
                 vc_expires_at = sat_add issued (max ttl 1)\<rparr>"
    using assms(5-) by (simp add: assms(1) public_bundle_def create_secrets_def
        issue_device_certificate_def validate_device_certificate_def signed_certificate_payload_def
        Let_def key_pair_ok_def decode_hex_array_encode list_ex_image not_less not_le)
qed

text \<open>
  A concrete signature scheme in which the laws of \<open>key_pair_ok\<close> hold: the public key is the
  secret key and every signature of the right length is accepted.
\<close>

definition ex_crypto :: crypto where
  "ex_crypto = \<lparr>cr_public = (\<lambda>sk. sk), cr_network_public = (\<lambda>sk. sk),
     cr_sign = (\<lambda>sk m. replicate 64 0), cr_key = (\<lambda>_. Inr ()),
     cr_verify = (\<lambda>_ _ s. if length s = 64 then Inr () else Inl ''bad''), cr_blake3 = (\<lambda>s. s)\<rparr>"

definition ex_local_config :: local_device_config where
  "ex_local_config = \<lparr>lc_fabric_name = ''home'', lc_device_id = ''d_1'', lc_device_name = ''laptop'',
     lc_platform_key = ''linux'', lc_architecture = ''x86_64'', lc_last_seen = 7\<rparr>"

lemma ex_crypto_ok: "length k = 32 \<Longrightarrow> key_pair_ok ex_crypto k"
  by (simp add: key_pair_ok_def ex_crypto_def)

theorem issued_certificate_accepted_witness:
  "\<exists>root device crt.
     public_bundle ex_crypto ex_local_config
       (create_secrets ex_crypto (replicate 32 1) (replicate 32 2) (replicate 32 3) 5) = Inr (root, device)
     \<and> issue_device_certificate \<lparr>js_print = (\<lambda>_. []), js_parse = (\<lambda>_. Inl [])\<rparr> ex_crypto
         (create_secrets ex_crypto (replicate 32 1) (replicate 32 2) (replicate 32 3) 5) device 10 3600 = Inr crt
     \<and> (\<exists>v. validate_device_certificate \<lparr>js_print = (\<lambda>_. []), js_parse = (\<lambda>_. Inl [])\<rparr> ex_crypto
           crt root [] 20 = Inr v)"
proof -
  have "(20 :: u64) < sat_add 10 (max 3600 1)" by (simp add: sat_add_def max_def word_le_nat_alt)
  then show ?thesis
    using issued_certificate_accepted [OF refl, of "replicate 32 1" "replicate 32 2" "replicate 32 3"
        ex_crypto 10 20 3600 ex_local_config "[]" 5 "\<lparr>js_print = (\<lambda>_. []), js_parse = (\<lambda>_. Inl [])\<rparr>"]
    by (simp add: ex_crypto_ok) (auto simp: ex_crypto_def)
qed

text \<open>
  The certificate check accepts exactly the certificates of the pinned fabric and root that
  are inside their validity window, whose device is not revoked, whose keys, root key and
  signature are well-formed hexadecimal of the right length, whose id is the digest of the
  signed payload, and whose signature verifies under the pinned root over exactly the fields the
  check returns. In particular a certificate that was never signed by the root, or any field of
  which was changed afterwards without a matching signature, is refused.
\<close>

theorem certificate_accepted_iff:
  "(\<exists>v. validate_device_certificate c cr crt root revocations now = Inr v) \<longleftrightarrow>
     dc_fabric_id crt = fr_fabric_id root
     \<and> dc_issuer_root_public_key_hex crt = fr_root_public_key_hex root
     \<and> dc_issued_at crt \<le> now \<and> now < dc_expires_at crt
     \<and> dc_device_id crt \<notin> rv_device_id ` set revocations
     \<and> dc_certificate_id crt = ''cert_'' @ hash_24 cr (signed_certificate_payload c crt)
     \<and> (\<exists>sk nk rk sig. decode_hex_array 32 ''signing_public_key_hex'' (dc_signing_public_key_hex crt) = Inr sk
          \<and> decode_hex_array 32 ''network_public_key_hex'' (dc_network_public_key_hex crt) = Inr nk
          \<and> decode_hex_array 32 ''root_public_key_hex'' (fr_root_public_key_hex root) = Inr rk
          \<and> decode_hex_array 64 ''signature_hex'' (dc_signature_hex crt) = Inr sig
          \<and> cr_key cr rk = Inr ()
          \<and> cr_verify cr rk (signed_certificate_payload c crt) sig = Inr ())"
  by (auto simp: validate_device_certificate_def tx_simps case_sum_Inr_iff Let_def list_ex_image
      not_less not_le)

end
