(* ===== verification/Transport_Security.thy ===== *)
theory Transport_Security
  imports Ordered_Map Error_Model
begin

text \<open>
  The control-plane request checks of \<open>transport_security.rs\<close>: the transport policy, the version
  negotiation, the replay cache and the envelope check that every remote request passes.
\<close>

section \<open>Policy\<close>

definition CONTROL_PROTOCOL_VERSION :: u32 where
  "CONTROL_PROTOCOL_VERSION = 1"

record transport_policy =
  tp_protocol_version :: u32
  tp_max_clock_skew_seconds :: u64
  tp_replay_window_seconds :: u64
  tp_connection_timeout_millis :: u64
  tp_request_timeout_millis :: u64

definition default_transport_policy :: transport_policy where
  "default_transport_policy =
     \<lparr>tp_protocol_version = CONTROL_PROTOCOL_VERSION, tp_max_clock_skew_seconds = 300,
      tp_replay_window_seconds = 300, tp_connection_timeout_millis = 10000,
      tp_request_timeout_millis = 30000\<rparr>"

definition validate_policy :: "transport_policy \<Rightarrow> unit result" where
  "validate_policy p =
     (if tp_protocol_version p = 0 then Inl (Config ''control protocol version must be non-zero'')
      else if tp_max_clock_skew_seconds p = 0 then Inl (Config ''max clock skew must be non-zero'')
      else if tp_replay_window_seconds p = 0 then Inl (Config ''replay window must be non-zero'')
      else if tp_connection_timeout_millis p = 0
      then Inl (Config ''connection timeout must be non-zero'')
      else if tp_request_timeout_millis p = 0
      then Inl (Config ''request timeout must be non-zero'')
      else Inr ())"

text \<open>The \<open>{:?}\<close> rendering of a list of versions.\<close>

fun join_comma :: "string list \<Rightarrow> string" where
  "join_comma [] = []"
| "join_comma [s] = s"
| "join_comma (s # t # ss) = s @ '', '' @ join_comma (t # ss)"

definition negotiate_control_protocol_version :: "u32 list \<Rightarrow> transport_policy \<Rightarrow> u32 result" where
  "negotiate_control_protocol_version versions p =
     bind_r (validate_policy p) (\<lambda>_.
     if tp_protocol_version p \<in> set versions then Inr (tp_protocol_version p)
     else Inl (Config (''control protocol version mismatch: server requires ''
            @ dec_u64 (tp_protocol_version p) @ '', client offered [''
            @ join_comma (map dec_u64 versions) @ '']'')))"

section \<open>The replay cache\<close>

type_synonym replay_cache = "(string, u64) btree_map"

definition prune_replay :: "u64 \<Rightarrow> u64 \<Rightarrow> replay_cache \<Rightarrow> replay_cache" where
  "prune_replay now window seen =
     bt_retain (\<lambda>_ seen_at. now < seen_at \<or> sat_sub now seen_at \<le> window) seen"

definition remember :: "string \<Rightarrow> u64 \<Rightarrow> u64 \<Rightarrow> replay_cache \<Rightarrow> replay_cache \<times> unit result" where
  "remember nonce now window seen =
     (let seen1 = prune_replay now window seen in
      if bt_get seen1 nonce \<noteq> None
      then (seen1, Inl (Config (''control request replay nonce '' @ nonce @ '' was already used'')))
      else (bt_insert nonce now seen1, Inr ()))"

section \<open>The envelope check\<close>

record request_envelope =
  re_protocol_version :: u32
  re_sent_at :: u64
  re_replay_nonce :: string

definition validate_replay_nonce :: "string \<Rightarrow> unit result" where
  "validate_replay_nonce nonce =
     (if length nonce < 16 \<or> 128 < length nonce
      then Inl (Config ''control request replay nonce must be between 16 and 128 characters'')
      else if \<not> list_all (\<lambda>b. is_ascii_alphanumeric b \<or> b = CHR ''-'' \<or> b = CHR ''_'') nonce
      then Inl (Config ''control request replay nonce must be base64url-safe'')
      else Inr ())"

definition check_envelope :: "transport_policy \<Rightarrow> request_envelope \<Rightarrow> u64 \<Rightarrow> unit result" where
  "check_envelope p e now =
     bind_r (validate_policy p) (\<lambda>_.
     if re_protocol_version e \<noteq> tp_protocol_version p
     then Inl (Config (''control request protocol version '' @ dec_u64 (re_protocol_version e)
            @ '' does not match expected '' @ dec_u64 (tp_protocol_version p)))
     else bind_r (validate_replay_nonce (re_replay_nonce e)) (\<lambda>_.
     let clock_delta = abs_diff now (re_sent_at e) in
     if tp_max_clock_skew_seconds p < clock_delta
     then Inl (Config (''control request timestamp skew '' @ dec_u64 clock_delta @ ''s exceeds max ''
            @ dec_u64 (tp_max_clock_skew_seconds p) @ ''s''))
     else Inr ()))"

definition validate_control_request_envelope ::
    "transport_policy \<Rightarrow> request_envelope \<Rightarrow> u64 \<Rightarrow> replay_cache \<Rightarrow> replay_cache \<times> unit result" where
  "validate_control_request_envelope p e now seen =
     (case check_envelope p e now of
        Inl err \<Rightarrow> (seen, Inl err)
      | Inr _ \<Rightarrow> remember (re_replay_nonce e) now (tp_replay_window_seconds p) seen)"

section \<open>Facts about the cache\<close>

lemma bt_wf_prune [simp]: "bt_wf seen \<Longrightarrow> bt_wf (prune_replay now w seen)"
  by (simp add: prune_replay_def)

lemma get_prune: "bt_wf seen \<Longrightarrow> bt_get (prune_replay now w seen) n =
    (case bt_get seen n of None \<Rightarrow> None
     | Some t \<Rightarrow> if unat now \<le> unat t + unat w then Some t else None)"
  by (auto simp: prune_replay_def bt_get_retain word_less_nat_alt word_le_nat_alt unat_sat_sub
      split: option.splits)

lemma remember_wf: "bt_wf seen \<Longrightarrow> bt_wf (fst (remember n now w seen))"
  by (simp add: remember_def Let_def)

lemma validate_wf: "bt_wf seen \<Longrightarrow> bt_wf (fst (validate_control_request_envelope p e now seen))"
  by (simp add: validate_control_request_envelope_def remember_wf split: sum.split)

lemma validate_InrD:
  assumes "validate_control_request_envelope p e now seen = (seen', Inr ())" "bt_wf seen"
  shows "bt_get seen' (re_replay_nonce e) = Some now"
    and "unat (abs_diff now (re_sent_at e)) \<le> unat (tp_max_clock_skew_seconds p)"
  using assms
  by (auto simp: validate_control_request_envelope_def check_envelope_def remember_def Let_def
      tx_simps not_less word_le_nat_alt split: sum.splits if_splits)

text \<open>A nonce seen at \<open>t\<close> stays in the cache, with that time, until the window is over.\<close>

lemma validate_keeps:
  assumes "bt_wf seen" "bt_get seen n = Some t"
    and "unat now \<le> unat t + unat (tp_replay_window_seconds p)"
  shows "bt_get (fst (validate_control_request_envelope p e now seen)) n = Some t"
  using assms
  by (auto simp: validate_control_request_envelope_def remember_def Let_def get_prune split: sum.splits)

lemma validate_refuses:
  assumes "bt_wf seen" "bt_get seen (re_replay_nonce e) = Some t"
    and "unat now \<le> unat t + unat (tp_replay_window_seconds p)"
  shows "snd (validate_control_request_envelope p e now seen) \<noteq> Inr ()"
  using assms
  by (auto simp: validate_control_request_envelope_def remember_def Let_def get_prune split: sum.splits)

text \<open>
  A server run: requests are checked in order against one policy, each at the server's clock.
\<close>

fun serve :: "transport_policy \<Rightarrow> (request_envelope \<times> u64) list \<Rightarrow> replay_cache
    \<Rightarrow> replay_cache \<times> unit result list" where
  "serve p [] seen = (seen, [])"
| "serve p (q # reqs) seen =
     (let v = validate_control_request_envelope p (fst q) (snd q) seen; s = serve p reqs (fst v)
      in (fst s, snd v # snd s))"

lemma serve_wf: "bt_wf seen \<Longrightarrow> bt_wf (fst (serve p reqs seen))"
  by (induction reqs arbitrary: seen) (auto simp: Let_def validate_wf)

lemma serve_keeps:
  assumes "bt_wf seen" "bt_get seen n = Some t"
    and "\<forall>q\<in>set reqs. unat (snd q) \<le> unat t + unat (tp_replay_window_seconds p)"
  shows "bt_get (fst (serve p reqs seen)) n = Some t"
  using assms
  by (induction reqs arbitrary: seen) (auto simp: Let_def validate_wf validate_keeps)

lemma serve_append: "serve p (xs @ ys) seen =
    (fst (serve p ys (fst (serve p xs seen))), snd (serve p xs seen) @ snd (serve p ys (fst (serve p xs seen))))"
  by (induction xs arbitrary: seen) (auto simp: Let_def)

lemma serve_length [simp]: "length (snd (serve p reqs seen)) = length reqs"
  by (induction reqs arbitrary: seen) (auto simp: Let_def)

lemma serve_nth: "i < length reqs \<Longrightarrow> snd (serve p reqs seen) ! i =
    snd (validate_control_request_envelope p (fst (reqs ! i)) (snd (reqs ! i)) (fst (serve p (take i reqs) seen)))"
proof (induction reqs arbitrary: seen i)
  case (Cons q reqs)
  then show ?case by (cases i) (simp_all add: Let_def)
qed simp

lemma serve_take:
  assumes "j \<le> i"
  shows "fst (serve p (take i reqs) seen) =
    fst (serve p (drop j (take i reqs)) (fst (serve p (take j reqs) seen)))"
proof -
  have "take i reqs = take j reqs @ drop j (take i reqs)"
    using assms by (metis append_take_drop_id min.absorb1 take_take)
  then show ?thesis by (metis fst_conv serve_append)
qed

lemma accepted_nonce_stays_refused:
  assumes "bt_wf seen" "i < j" "j < length reqs"
    and "snd (serve p reqs seen) ! i = Inr ()"
    and "re_replay_nonce (fst (reqs ! j)) = re_replay_nonce (fst (reqs ! i))"
    and "\<forall>k. i < k \<and> k \<le> j \<longrightarrow>
      unat (snd (reqs ! k)) \<le> unat (snd (reqs ! i)) + unat (tp_replay_window_seconds p)"
  shows "snd (serve p reqs seen) ! j \<noteq> Inr ()"
proof -
  let ?t = "snd (reqs ! i)" and ?n = "re_replay_nonce (fst (reqs ! i))"
  let ?at = "\<lambda>m. fst (serve p (take m reqs) seen)"
  have w: "bt_wf (?at m)" for m by (rule serve_wf [OF assms(1)])
  have i: "i < length reqs" using assms by simp
  have "?at (Suc i) = fst (validate_control_request_envelope p (fst (reqs ! i)) ?t (?at i))"
    using i by (simp add: take_Suc_conv_app_nth serve_append Let_def)
  then have "validate_control_request_envelope p (fst (reqs ! i)) ?t (?at i) = (?at (Suc i), Inr ())"
    using assms(4) i by (simp add: serve_nth prod_eq_iff)
  then have "bt_get (?at (Suc i)) ?n = Some ?t" using validate_InrD(1) w by blast
  moreover have "\<forall>q\<in>set (drop (Suc i) (take j reqs)).
      unat (snd q) \<le> unat ?t + unat (tp_replay_window_seconds p)"
  proof
    fix q assume "q \<in> set (drop (Suc i) (take j reqs))"
    then obtain k where "k < j - Suc i" and q: "q = reqs ! (Suc i + k)"
      using assms(3) by (auto simp: in_set_conv_nth)
    then have "i < Suc i + k \<and> Suc i + k \<le> j" by linarith
    then show "unat (snd q) \<le> unat ?t + unat (tp_replay_window_seconds p)"
      using assms(6) q by blast
  qed
  ultimately have "bt_get (?at j) ?n = Some ?t"
    using assms(2) w by (subst serve_take [of "Suc i"]) (auto intro: serve_keeps)
  then show ?thesis
    using assms(2,3,5,6) w by (simp add: serve_nth validate_refuses)
qed

lemma accepted_is_fresh:
  assumes "bt_wf seen" "i < length reqs" "snd (serve p reqs seen) ! i = Inr ()"
  shows "unat (abs_diff (snd (reqs ! i)) (re_sent_at (fst (reqs ! i)))) \<le> unat (tp_max_clock_skew_seconds p)"
proof -
  let ?s = "fst (serve p (take i reqs) seen)"
  obtain s' where "validate_control_request_envelope p (fst (reqs ! i)) (snd (reqs ! i)) ?s = (s', Inr ())"
    using assms by (metis prod.collapse serve_nth)
  then show ?thesis using validate_InrD(2) serve_wf [OF assms(1)] by blast
qed

section \<open>Properties\<close>

text \<open>
  C21. Replay protection of the request cache: once a request with some nonce has been accepted
  at a time t, no later request of the run with the same nonce is accepted, whatever else it
  says, as long as the server's clock has not read more than t plus the replay window. Clocks
  may run backwards.
\<close>

theorem replayed_nonce_refused:
  assumes "i < j" "j < length reqs"
    and "snd (serve p reqs []) ! i = Inr ()"
    and "re_replay_nonce (fst (reqs ! j)) = re_replay_nonce (fst (reqs ! i))"
    and "\<forall>k. i < k \<and> k \<le> j \<longrightarrow>
      unat (snd (reqs ! k)) \<le> unat (snd (reqs ! i)) + unat (tp_replay_window_seconds p)"
  shows "snd (serve p reqs []) ! j \<noteq> Inr ()"
  using assms by (intro accepted_nonce_stays_refused) auto

definition ex_nonce :: string where
  "ex_nonce = ''0123456789abcdef''"

definition ex_envelope :: "u64 \<Rightarrow> request_envelope" where
  "ex_envelope t = \<lparr>re_protocol_version = 1, re_sent_at = t, re_replay_nonce = ex_nonce\<rparr>"

lemma ex_nonce_ok: "validate_replay_nonce ex_nonce = Inr ()"
  by (simp add: validate_replay_nonce_def ex_nonce_def is_ascii_alphanumeric_def is_ascii_digit_def
      is_ascii_lower_def is_ascii_upper_def less_eq_char_def)

lemma ex_check: "unat (abs_diff now t) \<le> 300 \<Longrightarrow>
    check_envelope default_transport_policy (ex_envelope t) now = Inr ()"
  by (simp add: check_envelope_def validate_policy_def default_transport_policy_def ex_envelope_def
      CONTROL_PROTOCOL_VERSION_def ex_nonce_ok word_less_nat_alt)

lemma ex_first: "unat (abs_diff now t) \<le> 300 \<Longrightarrow>
    validate_control_request_envelope default_transport_policy (ex_envelope t) now [] =
      ([(ex_nonce, now)], Inr ())"
  by (simp add: validate_control_request_envelope_def ex_check remember_def prune_replay_def
      bt_retain_def) (simp add: ex_envelope_def)

definition ex_requests :: "(request_envelope \<times> u64) list" where
  "ex_requests = [(ex_envelope 1000, 1000), (ex_envelope 1001, 1300)]"

theorem replayed_nonce_refused_witness:
  "snd (serve default_transport_policy ex_requests []) ! 1 \<noteq> Inr ()"
proof (rule replayed_nonce_refused [where i = 0])
  show "\<forall>k. 0 < k \<and> k \<le> 1 \<longrightarrow> unat (snd (ex_requests ! k)) \<le> unat (snd (ex_requests ! 0))
        + unat (tp_replay_window_seconds default_transport_policy)"
    by (auto simp: default_transport_policy_def ex_requests_def le_Suc_eq)
  show "snd (serve default_transport_policy ex_requests []) ! 0 = Inr ()"
    by (simp add: ex_requests_def Let_def ex_first u64_simps)
qed (simp_all add: ex_requests_def ex_envelope_def)

text \<open>
  When the replay window is at least twice the permitted clock skew, one and the same
  request is accepted at most once, for ever, by a server whose clock does not run backwards:
  by the time its nonce leaves the cache its time stamp is too old.
\<close>

theorem request_accepted_once:
  assumes "2 * unat (tp_max_clock_skew_seconds p) \<le> unat (tp_replay_window_seconds p)"
    and "sorted (map (\<lambda>q. unat (snd q)) reqs)"
    and "i < j" "j < length reqs" "fst (reqs ! i) = fst (reqs ! j)"
    and "snd (serve p reqs []) ! i = Inr ()"
  shows "snd (serve p reqs []) ! j \<noteq> Inr ()"
proof
  assume j: "snd (serve p reqs []) ! j = Inr ()"
  have le: "unat (snd (reqs ! k)) \<le> unat (snd (reqs ! j))" if "k \<le> j" for k
    using sorted_nth_mono [OF assms(2), of k j] that assms(4) by simp
  have "unat (abs_diff (snd (reqs ! i)) (re_sent_at (fst (reqs ! i)))) \<le> unat (tp_max_clock_skew_seconds p)"
    "unat (abs_diff (snd (reqs ! j)) (re_sent_at (fst (reqs ! j)))) \<le> unat (tp_max_clock_skew_seconds p)"
    using assms(3,4) by (auto intro!: accepted_is_fresh [of "[]"] assms(6) j)
  then have "unat (snd (reqs ! j)) \<le> unat (snd (reqs ! i)) + unat (tp_replay_window_seconds p)"
    using assms(1,5) by (simp add: u64_simps)
  then have "\<forall>k. i < k \<and> k \<le> j \<longrightarrow>
      unat (snd (reqs ! k)) \<le> unat (snd (reqs ! i)) + unat (tp_replay_window_seconds p)"
    using le order_trans by blast
  then show False
    using accepted_nonce_stays_refused [of "[]"] assms j by auto
qed

definition ex_wide_policy :: transport_policy where
  "ex_wide_policy = default_transport_policy\<lparr>tp_replay_window_seconds := 600\<rparr>"

theorem request_accepted_once_witness:
  "snd (serve ex_wide_policy [(ex_envelope 1300, 1000), (ex_envelope 1300, 1550)] []) ! 1 \<noteq> Inr ()"
proof (rule request_accepted_once [where i = 0])
  show "snd (serve ex_wide_policy [(ex_envelope 1300, 1000), (ex_envelope 1300, 1550)] []) ! 0 = Inr ()"
    by (simp add: Let_def ex_wide_policy_def default_transport_policy_def check_envelope_def
        validate_control_request_envelope_def validate_policy_def ex_envelope_def ex_nonce_ok
        CONTROL_PROTOCOL_VERSION_def remember_def prune_replay_def bt_retain_def abs_diff_def
        word_less_nat_alt)
qed (simp_all add: ex_wide_policy_def default_transport_policy_def)

text \<open>
  The default policy does not meet that condition: its window equals the skew. A request dated
  300 s ahead of the server is accepted when it arrives and accepted again 301 s later.
\<close>

lemma default_policy_accepts_replay:
  assumes "unat t < 2 ^ 63"
  shows "snd (serve default_transport_policy
           [(ex_envelope (t + 300), t), (ex_envelope (t + 300), t + 301)] []) = [Inr (), Inr ()]"
proof -
  have u: "unat (t + 300) = unat t + 300" "unat (t + 301) = unat t + 301"
    using assms by (simp_all add: unat_word_ariths)
  have "prune_replay (t + 301) 300 [(ex_nonce, t)] = []"
    using assms u by (simp add: prune_replay_def bt_retain_def word_less_nat_alt word_le_nat_alt unat_sat_sub)
  moreover have "check_envelope default_transport_policy (ex_envelope (t + 300)) (t + 301) = Inr ()"
    using u by (intro ex_check) (simp add: u64_simps)
  moreover have "validate_control_request_envelope default_transport_policy (ex_envelope (t + 300)) t [] =
      ([(ex_nonce, t)], Inr ())"
    using u by (intro ex_first) (simp add: u64_simps)
  ultimately show ?thesis
    by (simp add: Let_def validate_control_request_envelope_def remember_def)
      (simp add: default_transport_policy_def)
qed

end
