(* ===== verification/Debounce.thy ===== *)
theory Debounce
  imports Paths
begin

text \<open>
  The adaptive debouncer of \<open>debounce.rs\<close>: per workspace it collects changed paths and decides,
  against a monotone clock, when a checkpoint and when a publish should be attempted. A
  \<open>Duration\<close> is its number of nanoseconds; the code only compares and subtracts durations.
\<close>

section \<open>State\<close>

type_synonym duration = nat

record debounce_policy =
  bp_first_event_quiet :: duration
  bp_min_checkpoint_interval :: duration
  bp_max_dirty_interval :: duration
  bp_publish_quiet :: duration
  bp_max_publish_interval :: duration

definition from_secs :: "nat \<Rightarrow> duration" where
  "from_secs s = s * 1000000000"

definition default_debounce_policy :: debounce_policy where
  "default_debounce_policy = \<lparr>bp_first_event_quiet = from_secs 2,
     bp_min_checkpoint_interval = from_secs 30, bp_max_dirty_interval = from_secs (5 * 60),
     bp_publish_quiet = from_secs 10, bp_max_publish_interval = from_secs (2 * 60)\<rparr>"

datatype flush_reason =
    QuietWindow | MaxDirtyInterval | PublishQuietWindow | MaxPublishInterval
  | ExplicitCheckpoint | FlushHandoff | SleepOrLock

record coalesced_change =
  cc_workspace_id :: string
  cc_source_generation :: u64
  cc_paths :: "path list"

record debounced_checkpoint =
  dk_workspace_id :: string
  dk_source_generation :: u64
  dk_reason :: flush_reason
  dk_paths :: "path list"

record debounced_publish =
  dp_workspace_id :: string
  dp_source_generation :: u64
  dp_reason :: flush_reason

record debounce_drain =
  dd_checkpoints :: "debounced_checkpoint list"
  dd_publishes :: "debounced_publish list"

record workspace_debounce =
  wd_pending_paths :: "path btree_set"
  wd_source_generation :: u64
  wd_first_dirty_at :: "duration option"
  wd_last_dirty_event_at :: "duration option"
  wd_last_checkpoint_at :: "duration option"
  wd_publish_generation :: "u64 option"
  wd_first_unpublished_at :: "duration option"
  wd_last_unpublished_at :: "duration option"
  wd_last_publish_at :: "duration option"

definition empty_debounce :: workspace_debounce where
  "empty_debounce = \<lparr>wd_pending_paths = [], wd_source_generation = 0, wd_first_dirty_at = None,
     wd_last_dirty_event_at = None, wd_last_checkpoint_at = None, wd_publish_generation = None,
     wd_first_unpublished_at = None, wd_last_unpublished_at = None, wd_last_publish_at = None\<rparr>"

record debouncer =
  ad_policy :: debounce_policy
  ad_workspaces :: "(string, workspace_debounce) btree_map"

definition new_debouncer :: "debounce_policy \<Rightarrow> debouncer" where
  "new_debouncer p = \<lparr>ad_policy = p, ad_workspaces = []\<rparr>"

definition elapsed :: "duration \<Rightarrow> duration \<Rightarrow> duration" where
  "elapsed now past = (if past \<le> now then now - past else 0)"

section \<open>Operations\<close>

definition note_change :: "coalesced_change \<Rightarrow> duration \<Rightarrow> workspace_debounce \<Rightarrow> workspace_debounce" where
  "note_change ch now st = st
     \<lparr>wd_first_dirty_at := (case wd_first_dirty_at st of None \<Rightarrow> Some now | Some t \<Rightarrow> Some t),
      wd_last_dirty_event_at := Some now,
      wd_source_generation := max (wd_source_generation st) (cc_source_generation ch),
      wd_pending_paths := bs_extend (wd_pending_paths st) (cc_paths ch)\<rparr>"

definition observe_change :: "coalesced_change \<Rightarrow> duration \<Rightarrow> debouncer \<Rightarrow> debouncer" where
  "observe_change ch now d =
     (if cc_paths ch = [] then d
      else d\<lparr>ad_workspaces := bt_entry empty_debounce (cc_workspace_id ch) (note_change ch now) (ad_workspaces d)\<rparr>)"

definition note_completed :: "u64 \<Rightarrow> duration \<Rightarrow> workspace_debounce \<Rightarrow> workspace_debounce" where
  "note_completed generation now st = st
     \<lparr>wd_first_unpublished_at := (case wd_first_unpublished_at st of None \<Rightarrow> Some now | Some t \<Rightarrow> Some t),
      wd_last_unpublished_at := Some now,
      wd_publish_generation :=
        Some (max (case wd_publish_generation st of None \<Rightarrow> 0 | Some g \<Rightarrow> g) generation)\<rparr>"

definition record_checkpoint_completed :: "string \<Rightarrow> u64 \<Rightarrow> duration \<Rightarrow> debouncer \<Rightarrow> debouncer" where
  "record_checkpoint_completed w generation now d =
     d\<lparr>ad_workspaces := bt_entry empty_debounce w (note_completed generation now) (ad_workspaces d)\<rparr>"

definition take_checkpoint ::
    "string \<Rightarrow> duration \<Rightarrow> flush_reason \<Rightarrow> debouncer \<Rightarrow> debouncer \<times> debounced_checkpoint option" where
  "take_checkpoint w now reason d =
     (case bt_get (ad_workspaces d) w of
        None \<Rightarrow> (d, None)
      | Some st \<Rightarrow>
          if wd_pending_paths st = [] then (d, None)
          else
            (d\<lparr>ad_workspaces := bt_insert w
                (st\<lparr>wd_pending_paths := [], wd_first_dirty_at := None, wd_last_dirty_event_at := None,
                    wd_last_checkpoint_at := Some now\<rparr>) (ad_workspaces d)\<rparr>,
             Some \<lparr>dk_workspace_id = w, dk_source_generation = wd_source_generation st,
                   dk_reason = reason, dk_paths = wd_pending_paths st\<rparr>))"

definition take_publish ::
    "string \<Rightarrow> duration \<Rightarrow> flush_reason \<Rightarrow> debouncer \<Rightarrow> debouncer \<times> debounced_publish option" where
  "take_publish w now reason d =
     (case bt_get (ad_workspaces d) w of
        None \<Rightarrow> (d, None)
      | Some st \<Rightarrow>
          (case wd_publish_generation st of
             None \<Rightarrow> (d, None)
           | Some generation \<Rightarrow>
               (d\<lparr>ad_workspaces := bt_insert w
                   (st\<lparr>wd_publish_generation := None, wd_first_unpublished_at := None,
                       wd_last_unpublished_at := None, wd_last_publish_at := Some now\<rparr>) (ad_workspaces d)\<rparr>,
                Some \<lparr>dp_workspace_id = w, dp_source_generation = generation, dp_reason = reason\<rparr>)))"

definition option_or :: "'a option \<Rightarrow> 'a \<Rightarrow> 'a" where
  "option_or v d = (case v of None \<Rightarrow> d | Some x \<Rightarrow> x)"

definition take_due_checkpoint ::
    "string \<Rightarrow> duration \<Rightarrow> debouncer \<Rightarrow> debouncer \<times> debounced_checkpoint option" where
  "take_due_checkpoint w now d =
     (case bt_get (ad_workspaces d) w of
        None \<Rightarrow> (d, None)
      | Some st \<Rightarrow>
          if wd_pending_paths st = [] then (d, None)
          else (case wd_first_dirty_at st of
            None \<Rightarrow> (d, None)
          | Some first_dirty \<Rightarrow>
              let last_event = option_or (wd_last_dirty_event_at st) first_dirty;
                  since_first = elapsed now first_dirty;
                  since_last = elapsed now last_event;
                  interval_ok = (case wd_last_checkpoint_at st of
                      None \<Rightarrow> True
                    | Some t \<Rightarrow> bp_min_checkpoint_interval (ad_policy d) \<le> elapsed now t)
              in if bp_max_dirty_interval (ad_policy d) \<le> since_first
                 then take_checkpoint w now MaxDirtyInterval d
                 else if bp_first_event_quiet (ad_policy d) \<le> since_last \<and> interval_ok
                 then take_checkpoint w now QuietWindow d
                 else (d, None)))"

definition take_due_publish ::
    "string \<Rightarrow> duration \<Rightarrow> debouncer \<Rightarrow> debouncer \<times> debounced_publish option" where
  "take_due_publish w now d =
     (case bt_get (ad_workspaces d) w of
        None \<Rightarrow> (d, None)
      | Some st \<Rightarrow>
          if wd_publish_generation st = None then (d, None)
          else (case wd_first_unpublished_at st of
            None \<Rightarrow> (d, None)
          | Some first_unpublished \<Rightarrow>
              let last_unpublished = option_or (wd_last_unpublished_at st) first_unpublished
              in if bp_max_publish_interval (ad_policy d) \<le> elapsed now first_unpublished
                 then take_publish w now MaxPublishInterval d
                 else if bp_publish_quiet (ad_policy d) \<le> elapsed now last_unpublished
                 then take_publish w now PublishQuietWindow d
                 else (d, None)))"

definition push_opt :: "'a list \<Rightarrow> 'a option \<Rightarrow> 'a list" where
  "push_opt xs v = (case v of None \<Rightarrow> xs | Some x \<Rightarrow> xs @ [x])"

text \<open>
  The loops of \<open>drain_due\<close> and \<open>flush_all\<close> over a copy of the keys; they differ in the two calls.
\<close>

fun drain_loop ::
    "(string \<Rightarrow> debouncer \<Rightarrow> debouncer \<times> debounced_checkpoint option)
      \<Rightarrow> (string \<Rightarrow> debouncer \<Rightarrow> debouncer \<times> debounced_publish option)
      \<Rightarrow> string list \<Rightarrow> debouncer \<Rightarrow> debounce_drain \<Rightarrow> debouncer \<times> debounce_drain" where
  "drain_loop tc tp [] d out = (d, out)"
| "drain_loop tc tp (w # ws) d out =
     (case tc w d of (d1, c) \<Rightarrow> case tp w d1 of (d2, p) \<Rightarrow>
        drain_loop tc tp ws d2
          \<lparr>dd_checkpoints = push_opt (dd_checkpoints out) c, dd_publishes = push_opt (dd_publishes out) p\<rparr>)"

definition empty_drain :: debounce_drain where
  "empty_drain = \<lparr>dd_checkpoints = [], dd_publishes = []\<rparr>"

definition drain_due :: "duration \<Rightarrow> debouncer \<Rightarrow> debouncer \<times> debounce_drain" where
  "drain_due now d =
     drain_loop (\<lambda>w. take_due_checkpoint w now) (\<lambda>w. take_due_publish w now)
       (bt_keys (ad_workspaces d)) d empty_drain"

definition flush_all :: "duration \<Rightarrow> flush_reason \<Rightarrow> debouncer \<Rightarrow> debouncer \<times> debounce_drain" where
  "flush_all now reason d =
     drain_loop (\<lambda>w. take_checkpoint w now reason) (\<lambda>w. take_publish w now reason)
       (bt_keys (ad_workspaces d)) d empty_drain"

definition flush_for_sleep_or_lock :: "duration \<Rightarrow> debouncer \<Rightarrow> debouncer \<times> debounce_drain" where
  "flush_for_sleep_or_lock now d = flush_all now SleepOrLock d"

section \<open>Draining workspace by workspace\<close>

text \<open>
  The reference: what a drain does to one workspace, without looking anything up by key.
\<close>

definition checkpoint_reason :: "debounce_policy \<Rightarrow> duration \<Rightarrow> workspace_debounce \<Rightarrow> flush_reason option" where
  "checkpoint_reason p now st =
     (if wd_pending_paths st = [] then None
      else case wd_first_dirty_at st of
        None \<Rightarrow> None
      | Some t \<Rightarrow>
          if bp_max_dirty_interval p \<le> now - t then Some MaxDirtyInterval
          else if bp_first_event_quiet p \<le> now - option_or (wd_last_dirty_event_at st) t
            \<and> (\<forall>l\<in>set_option (wd_last_checkpoint_at st). bp_min_checkpoint_interval p \<le> now - l)
          then Some QuietWindow else None)"

definition publish_reason :: "debounce_policy \<Rightarrow> duration \<Rightarrow> workspace_debounce \<Rightarrow> flush_reason option" where
  "publish_reason p now st =
     (if wd_publish_generation st = None then None
      else case wd_first_unpublished_at st of
        None \<Rightarrow> None
      | Some t \<Rightarrow>
          if bp_max_publish_interval p \<le> now - t then Some MaxPublishInterval
          else if bp_publish_quiet p \<le> now - option_or (wd_last_unpublished_at st) t
          then Some PublishQuietWindow else None)"

definition checkpointed :: "flush_reason option \<Rightarrow> duration \<Rightarrow> workspace_debounce \<Rightarrow> workspace_debounce" where
  "checkpointed r now st = (if r = None then st else
     st\<lparr>wd_pending_paths := [], wd_first_dirty_at := None, wd_last_dirty_event_at := None,
        wd_last_checkpoint_at := Some now\<rparr>)"

definition published :: "flush_reason option \<Rightarrow> duration \<Rightarrow> workspace_debounce \<Rightarrow> workspace_debounce" where
  "published r now st = (if r = None then st else
     st\<lparr>wd_publish_generation := None, wd_first_unpublished_at := None,
        wd_last_unpublished_at := None, wd_last_publish_at := Some now\<rparr>)"

definition checkpoint_of :: "string \<Rightarrow> workspace_debounce \<Rightarrow> flush_reason \<Rightarrow> debounced_checkpoint" where
  "checkpoint_of w st r = \<lparr>dk_workspace_id = w, dk_source_generation = wd_source_generation st,
     dk_reason = r, dk_paths = wd_pending_paths st\<rparr>"

definition publish_of :: "string \<Rightarrow> workspace_debounce \<Rightarrow> flush_reason \<Rightarrow> debounced_publish" where
  "publish_of w st r = \<lparr>dp_workspace_id = w, dp_source_generation = the (wd_publish_generation st),
     dp_reason = r\<rparr>"

lemma checkpointed_sel [simp]:
  "wd_publish_generation (checkpointed r now st) = wd_publish_generation st"
  "wd_first_unpublished_at (checkpointed r now st) = wd_first_unpublished_at st"
  "wd_last_unpublished_at (checkpointed r now st) = wd_last_unpublished_at st"
  by (simp_all add: checkpointed_def)

lemma published_sel [simp]:
  "wd_pending_paths (published r now st) = wd_pending_paths st"
  "wd_first_dirty_at (published r now st) = wd_first_dirty_at st"
  "wd_last_dirty_event_at (published r now st) = wd_last_dirty_event_at st"
  by (simp_all add: published_def)

text \<open>
  The contract of the two calls of a drain loop: each acts on the entry of its workspace only,
  as a function of that entry.
\<close>

locale drain_calls =
  fixes policy :: debounce_policy and now :: duration
    and cr :: "workspace_debounce \<Rightarrow> flush_reason option" and pr :: "workspace_debounce \<Rightarrow> flush_reason option"
    and tc :: "string \<Rightarrow> debouncer \<Rightarrow> debouncer \<times> debounced_checkpoint option"
    and tp :: "string \<Rightarrow> debouncer \<Rightarrow> debouncer \<times> debounced_publish option"
  assumes tc_spec: "ad_policy d = policy \<Longrightarrow> bt_wf (ad_workspaces d) \<Longrightarrow> bt_get (ad_workspaces d) w = Some st \<Longrightarrow>
      tc w d = (d\<lparr>ad_workspaces := bt_insert w (checkpointed (cr st) now st) (ad_workspaces d)\<rparr>,
                map_option (checkpoint_of w st) (cr st))"
    and tp_spec: "ad_policy d = policy \<Longrightarrow> bt_wf (ad_workspaces d) \<Longrightarrow> bt_get (ad_workspaces d) w = Some st \<Longrightarrow>
      tp w d = (d\<lparr>ad_workspaces := bt_insert w (published (pr st) now st) (ad_workspaces d)\<rparr>,
                map_option (publish_of w st) (pr st))"
    and pr_checkpointed: "pr (checkpointed r now st) = pr st"
begin

lemma loop_spec:
  assumes "ad_policy d = policy" "bt_wf (xs @ ys)"
  shows "drain_loop tc tp (map fst ys) (d\<lparr>ad_workspaces := xs @ ys\<rparr>) out =
    (d\<lparr>ad_workspaces := xs @ map (\<lambda>(w, st). (w, published (pr st) now (checkpointed (cr st) now st))) ys\<rparr>,
     \<lparr>dd_checkpoints = dd_checkpoints out
        @ List.map_filter (\<lambda>(w, st). map_option (checkpoint_of w st) (cr st)) ys,
      dd_publishes = dd_publishes out
        @ List.map_filter (\<lambda>(w, st). map_option (publish_of w st) (pr st)) ys\<rparr>)"
  using assms(2)
proof (induction ys arbitrary: xs out)
  case Nil
  then show ?case by (simp add: List.map_filter_simps)
next
  case (Cons y ys)
  obtain w st where y: "y = (w, st)" by (cases y)
  let ?c = "checkpointed (cr st) now st" and ?p = "published (pr st) now (checkpointed (cr st) now st)"
  have wf: "bt_wf (xs @ (w, v) # ys)" for v using Cons.prems by (simp add: y bt_wf_append)
  have tc: "tc w (d\<lparr>ad_workspaces := xs @ (w, st) # ys\<rparr>) =
      (d\<lparr>ad_workspaces := xs @ (w, ?c) # ys\<rparr>, map_option (checkpoint_of w st) (cr st))"
    using assms(1) wf by (subst tc_spec [where st = st]) (simp_all add: bt_get_here bt_insert_here)
  have po: "publish_of w ?c = publish_of w st" by (rule ext) (simp add: publish_of_def checkpointed_def)
  have tp: "tp w (d\<lparr>ad_workspaces := xs @ (w, ?c) # ys\<rparr>) =
      (d\<lparr>ad_workspaces := xs @ (w, ?p) # ys\<rparr>, map_option (publish_of w st) (pr st))"
    using assms(1) wf
    by (subst tp_spec [where st = ?c]) (simp_all add: bt_get_here bt_insert_here pr_checkpointed po)
  have "bt_wf ((xs @ [(w, ?p)]) @ ys)" using wf by simp
  from Cons.IH [OF this] show ?case
    by (simp add: y tc tp List.map_filter_simps push_opt_def split: option.split)
qed

end

lemma bt_insert_same: "bt_wf m \<Longrightarrow> bt_get m k = Some v \<Longrightarrow> bt_insert k v m = m"
proof (induction m)
  case (Cons x m)
  obtain a b where x: "x = (a, b)" by (cases x)
  have "a < k" if "k \<noteq> a"
    using Cons.prems that by (auto simp: x bt_get_def dest!: map_of_SomeD)
  then show ?case using Cons by (auto simp: x bt_get_def)
qed simp

lemma elapsed_eq [simp]: "elapsed now t = now - t"
  by (simp add: elapsed_def)

lemma take_checkpoint_spec:
  assumes "bt_wf (ad_workspaces d)" "bt_get (ad_workspaces d) w = Some st"
  shows "take_checkpoint w now r d =
    (let r' = if wd_pending_paths st = [] then None else Some r in
     (d\<lparr>ad_workspaces := bt_insert w (checkpointed r' now st) (ad_workspaces d)\<rparr>,
      map_option (checkpoint_of w st) r'))"
  using assms by (simp add: take_checkpoint_def checkpointed_def checkpoint_of_def bt_insert_same)

lemma take_publish_spec:
  assumes "bt_wf (ad_workspaces d)" "bt_get (ad_workspaces d) w = Some st"
  shows "take_publish w now r d =
    (let r' = if wd_publish_generation st = None then None else Some r in
     (d\<lparr>ad_workspaces := bt_insert w (published r' now st) (ad_workspaces d)\<rparr>,
      map_option (publish_of w st) r'))"
  using assms
  by (auto simp: take_publish_def published_def publish_of_def bt_insert_same split: option.split)

interpretation due: drain_calls p now "checkpoint_reason p now" "publish_reason p now"
  "\<lambda>w. take_due_checkpoint w now" "\<lambda>w. take_due_publish w now" for p now
proof
  fix d :: debouncer and w st
  assume d: "ad_policy d = p" "bt_wf (ad_workspaces d)" "bt_get (ad_workspaces d) w = Some st"
  show "take_due_checkpoint w now d =
      (d\<lparr>ad_workspaces := bt_insert w (checkpointed (checkpoint_reason p now st) now st) (ad_workspaces d)\<rparr>,
       map_option (checkpoint_of w st) (checkpoint_reason p now st))"
    by (cases "wd_first_dirty_at st"; cases "wd_last_checkpoint_at st")
      (simp_all add: take_due_checkpoint_def checkpoint_reason_def d(1,3) Let_def
        take_checkpoint_spec [OF d(2,3)] bt_insert_same [OF d(2,3)] checkpointed_def)
  show "take_due_publish w now d =
      (d\<lparr>ad_workspaces := bt_insert w (published (publish_reason p now st) now st) (ad_workspaces d)\<rparr>,
       map_option (publish_of w st) (publish_reason p now st))"
    by (cases "wd_first_unpublished_at st")
      (simp_all add: take_due_publish_def publish_reason_def d(1,3) Let_def
        take_publish_spec [OF d(2,3)] bt_insert_same [OF d(2,3)] published_def)
next
  fix r st
  show "publish_reason p now (checkpointed r now st) = publish_reason p now st"
    by (cases "wd_first_unpublished_at st") (simp_all add: publish_reason_def)
qed

interpretation flush: drain_calls p now
  "\<lambda>st. if wd_pending_paths st = [] then None else Some r"
  "\<lambda>st. if wd_publish_generation st = None then None else Some r"
  "\<lambda>w. take_checkpoint w now r" "\<lambda>w. take_publish w now r" for p now r
  by unfold_locales (simp_all add: take_checkpoint_spec take_publish_spec Let_def)

section \<open>Runs\<close>

definition drained :: "debounce_policy \<Rightarrow> duration \<Rightarrow> workspace_debounce \<Rightarrow> workspace_debounce" where
  "drained p now st = published (publish_reason p now st) now (checkpointed (checkpoint_reason p now st) now st)"

lemma drain_due_aux:
  assumes "bt_wf (ad_workspaces d)"
  shows "drain_due now d =
    (d\<lparr>ad_workspaces := map (\<lambda>(w, st). (w, drained (ad_policy d) now st)) (ad_workspaces d)\<rparr>,
     \<lparr>dd_checkpoints = List.map_filter
        (\<lambda>(w, st). map_option (checkpoint_of w st) (checkpoint_reason (ad_policy d) now st)) (ad_workspaces d),
      dd_publishes = List.map_filter
        (\<lambda>(w, st). map_option (publish_of w st) (publish_reason (ad_policy d) now st)) (ad_workspaces d)\<rparr>)"
  using due.loop_spec [of d "ad_policy d" "[]" "ad_workspaces d" now empty_drain] assms
  by (simp add: drain_due_def bt_keys_def empty_drain_def drained_def)

definition flushed :: "duration \<Rightarrow> flush_reason \<Rightarrow> workspace_debounce \<Rightarrow> workspace_debounce" where
  "flushed now r st = published (if wd_publish_generation st = None then None else Some r) now
     (checkpointed (if wd_pending_paths st = [] then None else Some r) now st)"

lemma flush_all_aux:
  assumes "bt_wf (ad_workspaces d)"
  shows "flush_all now r d =
    (d\<lparr>ad_workspaces := map (\<lambda>(w, st). (w, flushed now r st)) (ad_workspaces d)\<rparr>,
     \<lparr>dd_checkpoints = List.map_filter (\<lambda>(w, st). map_option (checkpoint_of w st)
        (if wd_pending_paths st = [] then None else Some r)) (ad_workspaces d),
      dd_publishes = List.map_filter (\<lambda>(w, st). map_option (publish_of w st)
        (if wd_publish_generation st = None then None else Some r)) (ad_workspaces d)\<rparr>)"
  using flush.loop_spec [of d "ad_policy d" "[]" "ad_workspaces d" now r empty_drain] assms
  by (simp add: flush_all_def bt_keys_def empty_drain_def flushed_def)

datatype debounce_event =
    Observed coalesced_change duration
  | Completed string u64 duration
  | Drained duration
  | Flushed duration flush_reason

fun event_time :: "debounce_event \<Rightarrow> duration" where
  "event_time (Observed _ t) = t"
| "event_time (Completed _ _ t) = t"
| "event_time (Drained t) = t"
| "event_time (Flushed t _) = t"

fun debounce_event_step :: "debounce_event \<Rightarrow> debouncer \<Rightarrow> debouncer \<times> debounce_drain" where
  "debounce_event_step (Observed ch t) d = (observe_change ch t d, empty_drain)"
| "debounce_event_step (Completed w g t) d = (record_checkpoint_completed w g t d, empty_drain)"
| "debounce_event_step (Drained t) d = drain_due t d"
| "debounce_event_step (Flushed t r) d = flush_all t r d"

fun debounce_run :: "debounce_event list \<Rightarrow> debouncer \<Rightarrow> debouncer \<times> debounced_checkpoint list" where
  "debounce_run [] d = (d, [])"
| "debounce_run (e # es) d =
     (let s = debounce_event_step e d; r = debounce_run es (fst s)
      in (fst r, dd_checkpoints (snd s) @ snd r))"

definition observed_paths :: "string \<Rightarrow> debounce_event list \<Rightarrow> path set" where
  "observed_paths w es = (\<Union>e\<in>set es. case e of
     Observed ch _ \<Rightarrow> if cc_workspace_id ch = w then set (cc_paths ch) else {} | _ \<Rightarrow> {})"

definition delivered_paths :: "string \<Rightarrow> debounced_checkpoint list \<Rightarrow> path set" where
  "delivered_paths w cs = (\<Union>c\<in>set cs. if dk_workspace_id c = w then set (dk_paths c) else {})"

definition pending_of :: "string \<Rightarrow> debouncer \<Rightarrow> path set" where
  "pending_of w d = (case bt_get (ad_workspaces d) w of None \<Rightarrow> {} | Some st \<Rightarrow> set (wd_pending_paths st))"

lemma bt_wf_map [simp]: "bt_wf (map (\<lambda>(k, v). (k, f v)) m) \<longleftrightarrow> bt_wf m"
  by (simp add: bt_wf_def comp_def case_prod_unfold)

lemma bt_get_map [simp]: "bt_get (map (\<lambda>(k, v). (k, f v)) m) k = map_option f (bt_get m k)"
  unfolding bt_get_def by (induction m) auto

text \<open>
  A well-formed workspace has a first and a last dirty time exactly while paths are pending, and
  its unpublished times exactly while a generation waits for publication.
\<close>

definition workspace_wf :: "workspace_debounce \<Rightarrow> bool" where
  "workspace_wf st \<longleftrightarrow> sorted_wrt (<) (wd_pending_paths st)
     \<and> (wd_first_dirty_at st = None) = (wd_pending_paths st = [])
     \<and> (wd_last_dirty_event_at st = None) = (wd_pending_paths st = [])
     \<and> (wd_first_unpublished_at st = None) = (wd_publish_generation st = None)
     \<and> (wd_last_unpublished_at st = None) = (wd_publish_generation st = None)"

definition debouncer_wf :: "debouncer \<Rightarrow> bool" where
  "debouncer_wf d \<longleftrightarrow> bt_wf (ad_workspaces d)
     \<and> (\<forall>w st. bt_get (ad_workspaces d) w = Some st \<longrightarrow> workspace_wf st)"

lemma checkpointed_wf: "workspace_wf st \<Longrightarrow> workspace_wf (checkpointed r now st)"
  by (simp add: workspace_wf_def checkpointed_def)

lemma published_wf: "workspace_wf st \<Longrightarrow> workspace_wf (published r now st)"
  by (simp add: workspace_wf_def published_def)

lemma empty_debounce_wf: "workspace_wf empty_debounce"
  by (simp add: workspace_wf_def empty_debounce_def)

lemma note_change_wf: "workspace_wf st \<Longrightarrow> cc_paths ch \<noteq> [] \<Longrightarrow> workspace_wf (note_change ch now st)"
  by (auto simp: workspace_wf_def note_change_def split: option.split)

lemma note_completed_wf: "workspace_wf st \<Longrightarrow> workspace_wf (note_completed g now st)"
  by (auto simp: workspace_wf_def note_completed_def split: option.split)

lemma bt_get_or_wf: "debouncer_wf d \<Longrightarrow> workspace_wf (bt_get_or empty_debounce (ad_workspaces d) w)"
  by (auto simp: bt_get_or_def debouncer_wf_def empty_debounce_wf split: option.split)

lemma debounce_step_wf: "debouncer_wf d \<Longrightarrow> debouncer_wf (fst (debounce_event_step e d))"
proof (cases e)
  case (Observed ch t)
  moreover assume "debouncer_wf d"
  ultimately show ?thesis
    using bt_get_or_wf [of d] by (auto simp: observe_change_def debouncer_wf_def note_change_wf)
next
  case (Completed w g t)
  moreover assume "debouncer_wf d"
  ultimately show ?thesis using bt_get_or_wf [of d]
    by (auto simp: record_checkpoint_completed_def debouncer_wf_def note_completed_wf)
next
  case (Drained t)
  moreover assume "debouncer_wf d"
  ultimately show ?thesis
    by (auto simp: drain_due_aux debouncer_wf_def drained_def intro!: checkpointed_wf published_wf)
next
  case (Flushed t r)
  moreover assume "debouncer_wf d"
  ultimately show ?thesis
    by (auto simp: flush_all_aux debouncer_wf_def flushed_def intro!: checkpointed_wf published_wf)
qed

lemma debounce_run_wf: "debouncer_wf d \<Longrightarrow> debouncer_wf (fst (debounce_run es d))"
  by (induction es arbitrary: d) (auto simp: Let_def debounce_step_wf)

lemma new_debouncer_wf: "debouncer_wf (new_debouncer p)"
  by (simp add: debouncer_wf_def new_debouncer_def)

lemma debounce_step_policy: "debouncer_wf d \<Longrightarrow> ad_policy (fst (debounce_event_step e d)) = ad_policy d"
  by (cases e) (auto simp: observe_change_def record_checkpoint_completed_def drain_due_aux flush_all_aux
      debouncer_wf_def)

lemma debounce_run_policy: "debouncer_wf d \<Longrightarrow> ad_policy (fst (debounce_run es d)) = ad_policy d"
  by (induction es arbitrary: d) (auto simp: Let_def debounce_step_wf debounce_step_policy)

lemma debounce_run_append: "debounce_run (xs @ ys) d =
    (fst (debounce_run ys (fst (debounce_run xs d))),
     snd (debounce_run xs d) @ snd (debounce_run ys (fst (debounce_run xs d))))"
  by (induction xs arbitrary: d) (auto simp: Let_def)

lemma delivered_append [simp]: "delivered_paths w (xs @ ys) = delivered_paths w xs \<union> delivered_paths w ys"
  by (auto simp: delivered_paths_def)

lemma delivered_Nil [simp]: "delivered_paths w [] = {}"
  by (simp add: delivered_paths_def)

lemma delivered_map_filter:
  "bt_wf m \<Longrightarrow> delivered_paths w (List.map_filter (\<lambda>(v, st). map_option (checkpoint_of v st) (r st)) m) =
    (case bt_get m w of None \<Rightarrow> {} | Some st \<Rightarrow> if r st = None then {} else set (wd_pending_paths st))"
proof (induction m)
  case (Cons x m)
  obtain v st where x: "x = (v, st)" by (cases x)
  have no: "bt_get m v = None" if "v = w" using Cons.prems that
    by (auto simp: x bt_get_def map_of_eq_None_iff)
  have get: "bt_get ((k, u) # m) j = (if j = k then Some u else bt_get m j)" for k u j
    by (simp add: bt_get_def)
  show ?case
    using Cons no
    by (cases "r st"; cases "v = w")
      (simp_all add: x get List.map_filter_simps delivered_paths_def checkpoint_of_def)
qed (simp add: List.map_filter_simps)

lemma pending_bt_get_or: "set (wd_pending_paths (bt_get_or empty_debounce (ad_workspaces d) w)) = pending_of w d"
  by (auto simp: bt_get_or_def pending_of_def empty_debounce_def split: option.split)

lemma step_accounts:
  assumes "debouncer_wf d"
  shows "observed_paths w [e] \<union> pending_of w d =
    delivered_paths w (dd_checkpoints (snd (debounce_event_step e d)))
      \<union> pending_of w (fst (debounce_event_step e d))"
proof (cases e)
  case (Observed ch t)
  then show ?thesis
    using pending_bt_get_or [of d "cc_workspace_id ch"]
    by (auto simp: observe_change_def observed_paths_def note_change_def empty_drain_def pending_of_def)
next
  case (Completed v g t)
  then show ?thesis
    using pending_bt_get_or [of d v]
    by (auto simp: record_checkpoint_completed_def observed_paths_def note_completed_def empty_drain_def
        pending_of_def)
next
  case (Drained t)
  have "bt_wf (ad_workspaces d)" using assms by (simp add: debouncer_wf_def)
  then show ?thesis
    by (auto simp: Drained drain_due_aux delivered_map_filter observed_paths_def pending_of_def
        drained_def checkpointed_def split: option.splits if_splits)
next
  case (Flushed t r)
  have "bt_wf (ad_workspaces d)" using assms by (simp add: debouncer_wf_def)
  then show ?thesis
    by (auto simp: Flushed flush_all_aux delivered_map_filter observed_paths_def pending_of_def
        flushed_def checkpointed_def split: option.splits if_splits)
qed

lemma observed_Cons: "observed_paths w (e # es) = observed_paths w [e] \<union> observed_paths w es"
  by (auto simp: observed_paths_def)

lemma run_accounts: "debouncer_wf d \<Longrightarrow> observed_paths w es \<union> pending_of w d =
    delivered_paths w (snd (debounce_run es d)) \<union> pending_of w (fst (debounce_run es d))"
proof (induction es arbitrary: d)
  case (Cons e es)
  show ?case
    using step_accounts [OF Cons.prems, of w e] Cons.IH [OF debounce_step_wf [OF Cons.prems, of e]]
    by (simp add: Let_def observed_Cons [of w e es]) blast
qed (simp add: observed_paths_def)

text \<open>
  A change that waits has a first dirty time no later than its own observation.
\<close>

definition waits_since :: "string \<Rightarrow> path \<Rightarrow> duration \<Rightarrow> debouncer \<Rightarrow> bool" where
  "waits_since w x t d \<longleftrightarrow> (case bt_get (ad_workspaces d) w of None \<Rightarrow> False
     | Some st \<Rightarrow> x \<in> set (wd_pending_paths st) \<and> (\<exists>f\<in>set_option (wd_first_dirty_at st). f \<le> t))"

lemma waits_step:
  assumes "debouncer_wf d" "waits_since w x t d"
  shows "x \<in> delivered_paths w (dd_checkpoints (snd (debounce_event_step e d)))
    \<or> waits_since w x t (fst (debounce_event_step e d))"
proof (cases e)
  case (Observed ch u)
  with assms(2) show ?thesis
    by (auto simp: waits_since_def observe_change_def note_change_def bt_get_or_def split: option.splits)
next
  case (Completed v g u)
  with assms(2) show ?thesis
    by (auto simp: waits_since_def record_checkpoint_completed_def note_completed_def bt_get_or_def split: option.splits)
next
  case (Drained u)
  have "bt_wf (ad_workspaces d)" using assms by (simp add: debouncer_wf_def)
  then show ?thesis using assms(2)
    by (auto simp: Drained drain_due_aux delivered_map_filter waits_since_def drained_def checkpointed_def
        split: option.splits)
next
  case (Flushed u r)
  have "bt_wf (ad_workspaces d)" using assms by (simp add: debouncer_wf_def)
  then show ?thesis using assms(2)
    by (auto simp: Flushed flush_all_aux delivered_map_filter waits_since_def split: option.splits)
qed

lemma waits_run:
  "debouncer_wf d \<Longrightarrow> waits_since w x t d \<Longrightarrow>
    x \<in> delivered_paths w (snd (debounce_run es d)) \<or> waits_since w x t (fst (debounce_run es d))"
proof (induction es arbitrary: d)
  case (Cons e es)
  then show ?case
    using waits_step [OF Cons.prems, of e] debounce_step_wf [OF Cons.prems(1), of e]
    by (auto simp: Let_def)
qed simp

lemma waits_drained:
  assumes "debouncer_wf d" "waits_since w x t d" "t + bp_max_dirty_interval (ad_policy d) \<le> now"
  shows "x \<in> delivered_paths w (dd_checkpoints (snd (drain_due now d)))"
proof -
  obtain st f where st: "bt_get (ad_workspaces d) w = Some st" "x \<in> set (wd_pending_paths st)"
    "wd_first_dirty_at st = Some f" "f \<le> t" using assms(2) by (auto simp: waits_since_def split: option.splits)
  then have "checkpoint_reason (ad_policy d) now st = Some MaxDirtyInterval"
    using assms(3) by (auto simp: checkpoint_reason_def)
  then show ?thesis
    using assms(1) st by (simp add: drain_due_aux delivered_map_filter debouncer_wf_def)
qed

text \<open>Dirty times lie in the past of a clock that does not run backwards.\<close>

definition dirty_before :: "duration \<Rightarrow> debouncer \<Rightarrow> bool" where
  "dirty_before t d \<longleftrightarrow> (\<forall>w st f. bt_get (ad_workspaces d) w = Some st
     \<longrightarrow> wd_first_dirty_at st = Some f \<longrightarrow> f \<le> t)"

lemma dirty_before_step:
  assumes "debouncer_wf d" "dirty_before t d" "t \<le> event_time e"
  shows "dirty_before (event_time e) (fst (debounce_event_step e d))"
proof (cases e)
  case (Observed ch u)
  with assms(2,3) show ?thesis
    by (fastforce simp: dirty_before_def observe_change_def note_change_def bt_get_or_def empty_debounce_def
        split: if_splits option.splits)
next
  case (Completed v g u)
  with assms(2,3) show ?thesis
    by (fastforce simp: dirty_before_def record_checkpoint_completed_def note_completed_def bt_get_or_def
        empty_debounce_def split: if_splits option.splits)
next
  case (Drained u)
  have "bt_wf (ad_workspaces d)" using assms by (simp add: debouncer_wf_def)
  with assms(2,3) show ?thesis
    by (fastforce simp: Drained drain_due_aux dirty_before_def drained_def checkpointed_def split: if_splits)
next
  case (Flushed u r)
  have "bt_wf (ad_workspaces d)" using assms by (simp add: debouncer_wf_def)
  with assms(2,3) show ?thesis
    by (fastforce simp: Flushed flush_all_aux dirty_before_def flushed_def checkpointed_def split: if_splits)
qed

lemma dirty_before_run:
  "debouncer_wf d \<Longrightarrow> dirty_before t d \<Longrightarrow> \<forall>e\<in>set es. t \<le> event_time e \<Longrightarrow>
    sorted (map event_time es) \<Longrightarrow> \<forall>e\<in>set es. event_time e \<le> u \<Longrightarrow> t \<le> u \<Longrightarrow>
    dirty_before u (fst (debounce_run es d))"
proof (induction es arbitrary: d t)
  case Nil
  then show ?case by (fastforce simp: dirty_before_def)
next
  case (Cons e es)
  have "dirty_before (event_time e) (fst (debounce_event_step e d))"
    using Cons.prems by (intro dirty_before_step) auto
  then show ?case
    using Cons.prems by (auto simp: Let_def intro!: Cons.IH debounce_step_wf)
qed

lemma dirty_before_new: "dirty_before t (new_debouncer p)"
  by (simp add: dirty_before_def new_debouncer_def)

lemma waits_observed:
  assumes "dirty_before t d" "x \<in> set (cc_paths ch)"
  shows "waits_since (cc_workspace_id ch) x t (observe_change ch t d)"
  using assms
  by (auto simp: waits_since_def observe_change_def note_change_def bt_get_or_def dirty_before_def
      empty_debounce_def split: option.split)

section \<open>Properties\<close>

text \<open>
  C27. A drain is one pass over the workspaces: the loop over the keys with its lookups and
  updates produces exactly the checkpoints and publishes that the per-workspace rules
  (\<open>checkpoint_reason\<close>, \<open>publish_reason\<close>) give, in key order, and leaves each workspace as its own
  rule does, independently of the others. A checkpoint is due after the maximal dirty interval,
  or when the workspace was quiet long enough and the minimal interval since its last checkpoint
  is over.
\<close>

theorem drain_is_pointwise:
  assumes "bt_wf (ad_workspaces d)"
  shows "drain_due now d =
    (d\<lparr>ad_workspaces := map (\<lambda>(w, st). (w, published (publish_reason (ad_policy d) now st) now
         (checkpointed (checkpoint_reason (ad_policy d) now st) now st))) (ad_workspaces d)\<rparr>,
     \<lparr>dd_checkpoints = List.map_filter
        (\<lambda>(w, st). map_option (checkpoint_of w st) (checkpoint_reason (ad_policy d) now st)) (ad_workspaces d),
      dd_publishes = List.map_filter
        (\<lambda>(w, st). map_option (publish_of w st) (publish_reason (ad_policy d) now st)) (ad_workspaces d)\<rparr>)"
  using drain_due_aux [OF assms, of now] by (simp only: drained_def)

definition ex_change :: "string \<Rightarrow> coalesced_change" where
  "ex_change w = \<lparr>cc_workspace_id = w, cc_source_generation = 4, cc_paths = [[Normal ''a'']]\<rparr>"

definition ex_debouncer :: debouncer where
  "ex_debouncer = observe_change (ex_change ''w'') 0 (new_debouncer default_debounce_policy)"

lemma ex_debouncer_wf: "bt_wf (ad_workspaces ex_debouncer)"
  by (simp add: ex_debouncer_def observe_change_def new_debouncer_def ex_change_def)

theorem drain_is_pointwise_witness:
  "dd_checkpoints (snd (drain_due (from_secs 3) ex_debouncer)) =
     [\<lparr>dk_workspace_id = ''w'', dk_source_generation = 4, dk_reason = QuietWindow,
       dk_paths = [[Normal ''a'']]\<rparr>]"
  unfolding drain_is_pointwise [OF ex_debouncer_wf]
  by (simp add: ex_debouncer_def observe_change_def new_debouncer_def ex_change_def bt_entry_def
      bt_get_or_def note_change_def empty_debounce_def bs_extend_def checkpoint_reason_def option_or_def
      default_debounce_policy_def from_secs_def checkpoint_of_def)

text \<open>
  C30. No change is lost and none is made up: after any run of observations, completed
  checkpoints, drains and flushes from an empty debouncer, the paths observed for a workspace are
  exactly the paths delivered in its checkpoints together with those still pending, and a flush
  leaves nothing pending.
\<close>

theorem no_change_lost:
  "observed_paths w es =
     delivered_paths w (snd (debounce_run es (new_debouncer p)))
       \<union> pending_of w (fst (debounce_run es (new_debouncer p)))
   \<and> observed_paths w es =
     delivered_paths w (snd (debounce_run (es @ [Flushed now r]) (new_debouncer p)))"
proof -
  let ?d = "fst (debounce_run es (new_debouncer p))"
  have wf: "debouncer_wf ?d" by (intro debounce_run_wf new_debouncer_wf)
  have "pending_of w (new_debouncer p) = {}" by (simp add: pending_of_def new_debouncer_def)
  then have a: "observed_paths w es =
      delivered_paths w (snd (debounce_run es (new_debouncer p))) \<union> pending_of w ?d"
    using run_accounts [OF new_debouncer_wf, of w es p] by simp
  have "pending_of w ?d = delivered_paths w (dd_checkpoints (snd (flush_all now r ?d)))"
    using wf by (auto simp: flush_all_aux debouncer_wf_def delivered_map_filter pending_of_def
        split: option.split)
  with a show ?thesis by (simp add: debounce_run_append Let_def)
qed

text \<open>
  Protection is not postponed for ever: on a clock that does not run backwards, whatever
  events come in between, a change observed at time t has been delivered in a checkpoint of its
  workspace by the first drain at least the maximal dirty interval after t.
\<close>

theorem delivered_within_deadline:
  assumes "sorted (map event_time (pre @ Observed ch t # post))"
    and "t + bp_max_dirty_interval p \<le> now"
    and "x \<in> set (cc_paths ch)"
  shows "x \<in> delivered_paths (cc_workspace_id ch)
    (snd (debounce_run (Observed ch t # post @ [Drained now]) (fst (debounce_run pre (new_debouncer p)))))"
proof -
  let ?w = "cc_workspace_id ch"
  let ?d = "fst (debounce_run pre (new_debouncer p))"
  let ?d1 = "observe_change ch t ?d"
  let ?d2 = "fst (debounce_run post ?d1)"
  have wf: "debouncer_wf ?d" by (intro debounce_run_wf new_debouncer_wf)
  then have wf1: "debouncer_wf ?d1" using debounce_step_wf [of ?d "Observed ch t"] by simp
  then have wf2: "debouncer_wf ?d2" by (rule debounce_run_wf)
  have pol: "ad_policy ?d2 = p"
    using debounce_run_policy [OF wf1] debounce_run_policy [OF new_debouncer_wf, of pre p]
    by (simp add: observe_change_def new_debouncer_def)
  have "dirty_before t ?d"
    using assms(1) dirty_before_run [OF new_debouncer_wf dirty_before_new [of 0], of pre t p]
    by (auto simp: sorted_append)
  then have "waits_since ?w x t ?d1" using assms(3) by (rule waits_observed)
  then have "x \<in> delivered_paths ?w (snd (debounce_run post ?d1)) \<or> waits_since ?w x t ?d2"
    using wf1 by (intro waits_run)
  then show ?thesis
    using waits_drained [OF wf2, of ?w x t now] assms(2) pol
    by (auto simp: Let_def empty_drain_def debounce_run_append)
qed

theorem delivered_within_deadline_witness:
  "[Normal ''a''] \<in> delivered_paths ''w''
     (snd (debounce_run (Observed (ex_change ''w'') 5 # [Observed (ex_change ''v'') 6] @ [Drained (from_secs 301)])
       (fst (debounce_run [Drained 1] (new_debouncer default_debounce_policy)))))"
  using delivered_within_deadline [of "[Drained 1]" "ex_change ''w''" 5 "[Observed (ex_change ''v'') 6]"
      default_debounce_policy "from_secs 301" "[Normal ''a'']"]
  by (simp add: ex_change_def default_debounce_policy_def from_secs_def)

end
