(* ===== verification/Watch_State.thy ===== *)
theory Watch_State
  imports Debounce Error_Model
begin

text \<open>
  The watcher state of \<open>watcher.rs\<close>: registered workspaces, their source generations and the
  paths changed since the last drain; file-system events are attributed to the innermost
  registered root. Its drained changes are the debouncer's input.
\<close>

section \<open>State\<close>

datatype fs_event_kind = Create | Modify | Remove | Rename | OtherEvent

record fs_raw_event =
  fe_kind :: fs_event_kind
  fe_paths :: "path list"

definition new_raw_event :: "fs_event_kind \<Rightarrow> path list \<Rightarrow> fs_raw_event" where
  "new_raw_event k ps = \<lparr>fe_kind = k, fe_paths = bs_collect ps\<rparr>"

record workspace_watch =
  ww_workspace_id :: string
  ww_root :: path

record change_hint =
  ch_workspace_id :: string
  ch_source_generation :: u64
  ch_kind :: fs_event_kind
  ch_paths :: "path list"

record fs_watch_state =
  fw_workspaces :: "(string, workspace_watch) btree_map"
  fw_source_generations :: "(string, u64) btree_map"
  fw_pending_paths :: "(string, path btree_set) btree_map"

definition empty_watch_state :: fs_watch_state where
  "empty_watch_state = \<lparr>fw_workspaces = [], fw_source_generations = [], fw_pending_paths = []\<rparr>"

definition validate_watch :: "workspace_watch \<Rightarrow> unit result" where
  "validate_watch w =
     (if trims_to_empty (ww_workspace_id w) then Inl (Watcher ''workspace watch id must not be empty'')
      else if ww_root w = [] then Inl (Watcher ''workspace watch root must not be empty'')
      else Inr ())"

section \<open>Operations\<close>

definition or_insert :: "'v \<Rightarrow> 'k::linorder \<Rightarrow> ('k, 'v) btree_map \<Rightarrow> ('k, 'v) btree_map" where
  "or_insert v k m = bt_entry v k (\<lambda>x. x) m"

definition register_workspace :: "workspace_watch \<Rightarrow> fs_watch_state \<Rightarrow> fs_watch_state \<times> unit result" where
  "register_workspace w s =
     (case validate_watch w of
        Inl e \<Rightarrow> (s, Inl e)
      | Inr _ \<Rightarrow>
          (s\<lparr>fw_source_generations := or_insert 0 (ww_workspace_id w) (fw_source_generations s),
             fw_pending_paths := or_insert [] (ww_workspace_id w) (fw_pending_paths s),
             fw_workspaces := bt_insert (ww_workspace_id w) w (fw_workspaces s)\<rparr>, Inr ()))"

definition unregister_workspace :: "string \<Rightarrow> fs_watch_state \<Rightarrow> fs_watch_state \<times> workspace_watch option" where
  "unregister_workspace w s =
     (s\<lparr>fw_source_generations := bt_remove w (fw_source_generations s),
        fw_pending_paths := bt_remove w (fw_pending_paths s),
        fw_workspaces := bt_remove w (fw_workspaces s)\<rparr>, bt_get (fw_workspaces s) w)"

definition relative_path :: "path \<Rightarrow> path" where
  "relative_path p = (if p = [] then [CurDir] else p)"

text \<open>The candidates in key order; \<open>max_by_key\<close> returns the last of the deepest ones.\<close>

definition watch_candidates :: "fs_watch_state \<Rightarrow> path \<Rightarrow> (string \<times> nat \<times> path) list" where
  "watch_candidates s p = List.map_filter
     (\<lambda>(_, w). map_option (\<lambda>q. (ww_workspace_id w, length (ww_root w), relative_path q))
        (strip_prefix (ww_root w) p)) (fw_workspaces s)"

fun max_by_depth :: "(string \<times> nat \<times> path) option \<Rightarrow> (string \<times> nat \<times> path) list
    \<Rightarrow> (string \<times> nat \<times> path) option" where
  "max_by_depth best [] = best"
| "max_by_depth None (c # cs) = max_by_depth (Some c) cs"
| "max_by_depth (Some b) (c # cs) =
     max_by_depth (Some (if fst (snd b) \<le> fst (snd c) then c else b)) cs"

definition match_workspace :: "fs_watch_state \<Rightarrow> path \<Rightarrow> (string \<times> path) option" where
  "match_workspace s p = map_option (\<lambda>(w, _, q). (w, q)) (max_by_depth None (watch_candidates s p))"

definition group_by_workspace :: "fs_watch_state \<Rightarrow> path list \<Rightarrow> (string, path btree_set) btree_map" where
  "group_by_workspace s ps = foldl (\<lambda>m p. case match_workspace s p of
       None \<Rightarrow> m
     | Some (w, q) \<Rightarrow> bt_entry [] w (bs_insert q) m) [] ps"

fun note_hints :: "fs_event_kind \<Rightarrow> (string \<times> path btree_set) list \<Rightarrow> fs_watch_state
    \<Rightarrow> fs_watch_state \<times> change_hint list" where
  "note_hints k [] s = (s, [])"
| "note_hints k ((w, ps) # rest) s =
     (let generation = sat_add (bt_get_or 0 (fw_source_generations s) w) 1;
          s1 = s\<lparr>fw_source_generations := bt_insert w generation (fw_source_generations s),
                 fw_pending_paths := bt_entry [] w (\<lambda>q. bs_extend q ps) (fw_pending_paths s)\<rparr>;
          (s2, hints) = note_hints k rest s1
      in (s2, \<lparr>ch_workspace_id = w, ch_source_generation = generation, ch_kind = k, ch_paths = ps\<rparr> # hints))"

definition observe_raw_event :: "fs_raw_event \<Rightarrow> fs_watch_state \<Rightarrow> fs_watch_state \<times> change_hint list" where
  "observe_raw_event e s = note_hints (fe_kind e) (group_by_workspace s (fe_paths e)) s"

definition source_generation :: "fs_watch_state \<Rightarrow> string \<Rightarrow> u64 option" where
  "source_generation s w = bt_get (fw_source_generations s) w"

fun drain_ids :: "string list \<Rightarrow> fs_watch_state \<Rightarrow> coalesced_change list \<Rightarrow> fs_watch_state \<times> coalesced_change list" where
  "drain_ids [] s out = (s, out)"
| "drain_ids (w # ws) s out =
     (case bt_get (fw_pending_paths s) w of
        None \<Rightarrow> drain_ids ws s out
      | Some ps \<Rightarrow>
          if ps = [] then drain_ids ws s out
          else drain_ids ws (s\<lparr>fw_pending_paths := bt_insert w [] (fw_pending_paths s)\<rparr>)
            (out @ [\<lparr>cc_workspace_id = w, cc_source_generation = option_or (source_generation s w) 0,
                     cc_paths = ps\<rparr>]))"

definition drain_coalesced :: "fs_watch_state \<Rightarrow> fs_watch_state \<times> coalesced_change list" where
  "drain_coalesced s = drain_ids (bt_keys (fw_pending_paths s)) s []"

text \<open>The polling watcher's comparison of two scans.\<close>

record file_fingerprint =
  ff_is_dir :: bool
  ff_is_file :: bool
  ff_len :: u64
  ff_modified :: "nat option"

definition changed_paths ::
    "(path, file_fingerprint) btree_map \<Rightarrow> (path, file_fingerprint) btree_map \<Rightarrow> path list" where
  "changed_paths previous current =
     bs_extend (bs_collect (filter (\<lambda>p. bt_get current p = None) (bt_keys previous)))
       (map fst (filter (\<lambda>(p, f). bt_get previous p \<noteq> Some f) current))"

section \<open>Attribution\<close>

lemma max_by_depth_result:
  "max_by_depth b cs = Some r \<Longrightarrow> r \<in> set cs \<union> set_option b \<and> (\<forall>c\<in>set cs \<union> set_option b. fst (snd c) \<le> fst (snd r))"
proof (induction b cs rule: max_by_depth.induct)
  case (3 b c cs)
  then show ?case by (cases "fst (snd b) \<le> fst (snd c)") fastforce+
qed auto

lemma max_by_depth_None: "max_by_depth b cs = None \<longleftrightarrow> b = None \<and> cs = []"
  by (induction b cs rule: max_by_depth.induct) auto

definition watch_wf :: "fs_watch_state \<Rightarrow> bool" where
  "watch_wf s \<longleftrightarrow> bt_wf (fw_workspaces s) \<and> bt_wf (fw_source_generations s) \<and> bt_wf (fw_pending_paths s)
     \<and> (\<forall>k w. bt_get (fw_workspaces s) k = Some w \<longrightarrow> ww_workspace_id w = k \<and> validate_watch w = Inr ())
     \<and> (\<forall>k. (bt_get (fw_source_generations s) k = None) = (bt_get (fw_workspaces s) k = None))
     \<and> (\<forall>k. (bt_get (fw_pending_paths s) k = None) = (bt_get (fw_workspaces s) k = None))
     \<and> (\<forall>k ps. bt_get (fw_pending_paths s) k = Some ps \<longrightarrow> sorted_wrt (<) ps)"

lemma in_map_filter: "y \<in> set (List.map_filter f xs) \<longleftrightarrow> (\<exists>x\<in>set xs. f x = Some y)"
  by (induction xs) (auto simp: List.map_filter_simps split: option.splits)

lemma in_candidates:
  assumes "watch_wf s"
  shows "(k, n, q) \<in> set (watch_candidates s p) \<longleftrightarrow>
    (\<exists>w r. bt_get (fw_workspaces s) k = Some w \<and> p = ww_root w @ r \<and> n = length (ww_root w) \<and> q = relative_path r)"
proof -
  have m: "(j, w) \<in> set (fw_workspaces s) \<longleftrightarrow> bt_get (fw_workspaces s) j = Some w" for j w
    using assms btree.in_entries_iff [of "fw_workspaces s" j w] by (simp add: watch_wf_def)
  have i: "bt_get (fw_workspaces s) j = Some w \<Longrightarrow> ww_workspace_id w = j" for j w
    using assms by (simp add: watch_wf_def)
  show ?thesis (is "?l \<longleftrightarrow> ?r")
  proof
    assume ?l then show ?r
      by (auto simp: watch_candidates_def in_map_filter strip_prefix_Some_iff m i)
  next
    assume ?r
    then obtain w r where "bt_get (fw_workspaces s) k = Some w" "p = ww_root w @ r"
      "n = length (ww_root w)" "q = relative_path r" by blast
    then show ?l using i [of k w]
      by (auto simp: watch_candidates_def in_map_filter strip_prefix_Some_iff m intro!: bexI [of _ "(k, w)"])
  qed
qed

text \<open>The path lies below the root of the workspace and below no deeper registered root.\<close>

definition innermost :: "fs_watch_state \<Rightarrow> path \<Rightarrow> string \<Rightarrow> path \<Rightarrow> bool" where
  "innermost s p k q \<longleftrightarrow> (\<exists>w r. bt_get (fw_workspaces s) k = Some w \<and> p = ww_root w @ r \<and> q = relative_path r
    \<and> (\<forall>k' w' r'. bt_get (fw_workspaces s) k' = Some w' \<longrightarrow> p = ww_root w' @ r' \<longrightarrow>
          length (ww_root w') \<le> length (ww_root w)))"

definition below_some_root :: "fs_watch_state \<Rightarrow> path \<Rightarrow> bool" where
  "below_some_root s p \<longleftrightarrow> (\<exists>k w r. bt_get (fw_workspaces s) k = Some w \<and> p = ww_root w @ r)"

lemma match_workspace_SomeD:
  assumes "watch_wf s" "match_workspace s p = Some (k, q)"
  shows "innermost s p k q"
proof -
  obtain n where m: "max_by_depth None (watch_candidates s p) = Some (k, n, q)"
    using assms(2) by (auto simp: match_workspace_def)
  from max_by_depth_result [OF m] have "(k, n, q) \<in> set (watch_candidates s p)"
    and "\<forall>c\<in>set (watch_candidates s p). fst (snd c) \<le> n" by auto
  moreover obtain w r where "bt_get (fw_workspaces s) k = Some w" "p = ww_root w @ r"
    "n = length (ww_root w)" "q = relative_path r"
    using calculation(1) in_candidates [OF assms(1)] by blast
  moreover have "length (ww_root w') \<le> n"
    if "bt_get (fw_workspaces s) k' = Some w'" "p = ww_root w' @ r'" for k' w' r'
  proof -
    have "(k', length (ww_root w'), relative_path r') \<in> set (watch_candidates s p)"
      using that in_candidates [OF assms(1)] by blast
    then show ?thesis using calculation(2) by (metis fst_conv snd_conv)
  qed
  ultimately show ?thesis unfolding innermost_def by blast
qed

lemma match_workspace_None_iff:
  assumes "watch_wf s"
  shows "match_workspace s p = None \<longleftrightarrow> \<not> below_some_root s p"
proof -
  have "match_workspace s p = None \<longleftrightarrow> watch_candidates s p = []"
    by (simp add: match_workspace_def max_by_depth_None)
  also have "\<dots> \<longleftrightarrow> (\<forall>k n q. (k, n, q) \<notin> set (watch_candidates s p))"
    by (cases "watch_candidates s p") auto
  also have "\<dots> \<longleftrightarrow> (\<forall>k w r. bt_get (fw_workspaces s) k = Some w \<longrightarrow> p \<noteq> ww_root w @ r)"
    unfolding in_candidates [OF assms] by blast
  finally show ?thesis by (simp add: below_some_root_def)
qed

section \<open>What the operations do\<close>

definition pending_at :: "fs_watch_state \<Rightarrow> string \<Rightarrow> path set" where
  "pending_at s w = (case bt_get (fw_pending_paths s) w of None \<Rightarrow> {} | Some ps \<Rightarrow> set ps)"

definition attributed :: "fs_watch_state \<Rightarrow> string \<Rightarrow> path list \<Rightarrow> path set" where
  "attributed s w ps = {q. \<exists>p\<in>set ps. match_workspace s p = Some (w, q)}"

lemma attributed_simps [simp]:
  "attributed s w [] = {}"
  "attributed s w (p # ps) =
     (case match_workspace s p of Some (v, q) \<Rightarrow> if v = w then insert q (attributed s w ps) else attributed s w ps
      | None \<Rightarrow> attributed s w ps)"
  by (auto simp: attributed_def split: option.splits)

definition group_step :: "fs_watch_state \<Rightarrow> (string, path btree_set) btree_map \<Rightarrow> path
    \<Rightarrow> (string, path btree_set) btree_map" where
  "group_step s m p = (case match_workspace s p of None \<Rightarrow> m | Some (w, q) \<Rightarrow> bt_entry [] w (bs_insert q) m)"

text \<open>What the first loop of \<open>observe_raw_event\<close> builds.\<close>

definition group_ok :: "fs_watch_state \<Rightarrow> (string, path btree_set) btree_map \<Rightarrow> bool" where
  "group_ok s m \<longleftrightarrow> bt_wf m \<and> (\<forall>k ps. bt_get m k = Some ps \<longrightarrow>
     sorted_wrt (<) ps \<and> ps \<noteq> [] \<and> bt_get (fw_workspaces s) k \<noteq> None)"

lemma group_step_ok:
  assumes "group_ok s m" "watch_wf s"
  shows "group_ok s (group_step s m p)"
proof (cases "match_workspace s p")
  case (Some r)
  obtain v q where r: "r = (v, q)" by (cases r)
  have "bt_get (fw_workspaces s) v \<noteq> None"
    using match_workspace_SomeD [OF assms(2) Some [unfolded r]] by (auto simp: innermost_def)
  moreover have "bs_insert q qs \<noteq> []" for qs by (cases qs) auto
  ultimately show ?thesis using assms(1) Some r
    by (auto simp: group_ok_def group_step_def bt_get_or_def split: option.splits)
qed (use assms in \<open>simp add: group_step_def\<close>)

lemma group_fold:
  "group_ok s m \<Longrightarrow> watch_wf s \<Longrightarrow> group_ok s (foldl (group_step s) m ps)
    \<and> set (bt_get_or [] (foldl (group_step s) m ps) w) = set (bt_get_or [] m w) \<union> attributed s w ps"
proof (induction ps arbitrary: m)
  case (Cons p ps)
  have "set (bt_get_or [] (group_step s m p) w) = set (bt_get_or [] m w) \<union> attributed s w [p]"
    by (auto simp: group_step_def bt_get_or_def split: option.split)
  then show ?case
    using Cons.IH [OF group_step_ok [OF Cons.prems, of p] Cons.prems(2)]
    by (auto split: option.splits)
qed simp

lemma group_by_fold: "group_by_workspace s ps = foldl (group_step s) [] ps"
  unfolding group_by_workspace_def by (rule arg_cong [where f = "\<lambda>f. foldl f [] ps"])
    (simp add: group_step_def fun_eq_iff)

lemma group_spec:
  assumes "watch_wf s"
  shows "group_ok s (group_by_workspace s ps)"
    and "set (bt_get_or [] (group_by_workspace s ps) w) = attributed s w ps"
  using group_fold [of s "[]" ps w] assms by (simp_all add: group_by_fold group_ok_def bt_get_or_def)

definition note_entry :: "string \<Rightarrow> path btree_set \<Rightarrow> fs_watch_state \<Rightarrow> fs_watch_state" where
  "note_entry v ps s =
     s\<lparr>fw_source_generations := bt_insert v (sat_add (bt_get_or 0 (fw_source_generations s) v) 1)
         (fw_source_generations s),
       fw_pending_paths := bt_entry [] v (\<lambda>q. bs_extend q ps) (fw_pending_paths s)\<rparr>"

lemma note_hints_Cons: "fst (note_hints k ((v, ps) # g) s) = fst (note_hints k g (note_entry v ps s))"
  unfolding note_hints.simps Let_def note_entry_def by (simp split: prod.split)

lemma note_entry_spec:
  assumes "watch_wf s" "bt_get (fw_workspaces s) v \<noteq> None"
  shows "watch_wf (note_entry v ps s)" "fw_workspaces (note_entry v ps s) = fw_workspaces s"
    "pending_at (note_entry v ps s) w = pending_at s w \<union> (if w = v then set ps else {})"
    "source_generation (note_entry v ps s) w =
      map_option (\<lambda>n. if w = v then sat_add n 1 else n) (source_generation s w)"
proof -
  show "watch_wf (note_entry v ps s)"
    using assms by (auto simp: watch_wf_def note_entry_def bt_get_or_def split: option.splits)
  show "fw_workspaces (note_entry v ps s) = fw_workspaces s" by (simp add: note_entry_def)
  show "pending_at (note_entry v ps s) w = pending_at s w \<union> (if w = v then set ps else {})"
    by (auto simp: pending_at_def note_entry_def bt_get_or_def split: option.splits)
  have "bt_get (fw_source_generations s) v \<noteq> None" using assms by (simp add: watch_wf_def)
  then show "source_generation (note_entry v ps s) w =
      map_option (\<lambda>n. if w = v then sat_add n 1 else n) (source_generation s w)"
    by (auto simp: source_generation_def note_entry_def bt_get_or_def option.map_ident)
qed

lemma note_hints_spec:
  "watch_wf s \<Longrightarrow> group_ok s g \<Longrightarrow>
    watch_wf (fst (note_hints k g s)) \<and> fw_workspaces (fst (note_hints k g s)) = fw_workspaces s
    \<and> pending_at (fst (note_hints k g s)) w = pending_at s w \<union> set (bt_get_or [] g w)
    \<and> source_generation (fst (note_hints k g s)) w =
      map_option (\<lambda>n. if bt_get g w = None then n else sat_add n 1) (source_generation s w)"
proof (induction g arbitrary: s)
  case Nil
  then show ?case by (simp add: bt_get_or_def option.map_ident)
next
  case (Cons x g)
  obtain v ps where x: "x = (v, ps)" by (cases x)
  have get: "bt_get (x # g) j = (if j = v then Some ps else bt_get g j)" for j
    by (simp add: x bt_get_def)
  have g: "bt_wf g" "bt_get g v = None"
    using Cons.prems(2) by (auto simp: x group_ok_def bt_get_def map_of_eq_None_iff)
  have v: "bt_get (fw_workspaces s) v \<noteq> None"
    using Cons.prems(2) get [of v] by (simp add: group_ok_def)
  note e = note_entry_spec [OF Cons.prems(1) v, of ps]
  have "group_ok (note_entry v ps s) g"
    using Cons.prems(2) g by (auto simp: group_ok_def get e(2) split: if_splits)
      (metis option.distinct(1))+
  note ih = Cons.IH [OF e(1) this]
  have c: "fst (note_hints k (x # g) s) = fst (note_hints k g (note_entry v ps s))"
    unfolding x by (rule note_hints_Cons)
  show ?case
    using ih e(2) e(3,4) [of w] g(2)
    by (cases "w = v"; cases "source_generation s w") (auto simp: c bt_get_or_def get)
qed

lemma observe_raw_event_spec:
  assumes "watch_wf s"
  shows "watch_wf (fst (observe_raw_event e s))"
    and "fw_workspaces (fst (observe_raw_event e s)) = fw_workspaces s"
    and "pending_at (fst (observe_raw_event e s)) w = pending_at s w \<union> attributed s w (fe_paths e)"
    and "source_generation (fst (observe_raw_event e s)) w =
      map_option (\<lambda>n. if attributed s w (fe_paths e) = {} then n else sat_add n 1) (source_generation s w)"
proof -
  note g = group_spec [OF assms, of "fe_paths e"]
  have e: "(bt_get (group_by_workspace s (fe_paths e)) w = None) = (attributed s w (fe_paths e) = {})"
    using g(1) unfolding group_ok_def g(2) [symmetric]
    by (cases "bt_get (group_by_workspace s (fe_paths e)) w") (auto simp: bt_get_or_def)
  show "watch_wf (fst (observe_raw_event e s))"
    "fw_workspaces (fst (observe_raw_event e s)) = fw_workspaces s"
    "pending_at (fst (observe_raw_event e s)) w = pending_at s w \<union> attributed s w (fe_paths e)"
    "source_generation (fst (observe_raw_event e s)) w =
      map_option (\<lambda>n. if attributed s w (fe_paths e) = {} then n else sat_add n 1) (source_generation s w)"
    using note_hints_spec [OF assms g(1), of "fe_kind e" w] g(2)
    by (simp_all add: observe_raw_event_def e)
qed

text \<open>A drain, as one pass over the pending sets.\<close>

lemma drain_ids_spec:
  assumes "bt_wf (xs @ ys)"
  shows "drain_ids (map fst ys) (s\<lparr>fw_pending_paths := xs @ ys\<rparr>) out =
    (s\<lparr>fw_pending_paths := xs @ map (\<lambda>(w, ps). (w, [])) ys\<rparr>,
     out @ map (\<lambda>(w, ps). \<lparr>cc_workspace_id = w,
         cc_source_generation = option_or (source_generation s w) 0, cc_paths = ps\<rparr>)
       (filter (\<lambda>(w, ps). ps \<noteq> []) ys))"
  using assms
proof (induction ys arbitrary: xs out)
  case (Cons y ys)
  obtain w ps where y: "y = (w, ps)" by (cases y)
  have wf: "bt_wf (xs @ (w, v) # ys)" for v using Cons.prems by (simp add: y bt_wf_append)
  then have "bt_wf ((xs @ [(w, v)]) @ ys)" for v by simp
  note ih = Cons.IH [OF this]
  have sg: "source_generation (s\<lparr>fw_pending_paths := m\<rparr>) = source_generation s" for m
    by (rule ext) (simp add: source_generation_def)
  show ?case
    using ih [of ps out] ih [of "[]"] wf
    by (cases "ps = []") (simp_all add: y bt_get_here bt_insert_here sg)
qed simp

lemma drain_coalesced_aux:
  assumes "watch_wf s"
  shows "drain_coalesced s = (s\<lparr>fw_pending_paths := map (\<lambda>(w, ps). (w, [])) (fw_pending_paths s)\<rparr>,
    map (\<lambda>(w, ps). \<lparr>cc_workspace_id = w,
         cc_source_generation = option_or (source_generation s w) 0, cc_paths = ps\<rparr>)
       (filter (\<lambda>(w, ps). ps \<noteq> []) (fw_pending_paths s)))"
  using drain_ids_spec [of "[]" "fw_pending_paths s" s "[]"] assms
  by (simp add: drain_coalesced_def bt_keys_def watch_wf_def)

lemma drain_coalesced_wf: "watch_wf s \<Longrightarrow> watch_wf (fst (drain_coalesced s))"
  by (simp add: drain_coalesced_aux) (auto simp: watch_wf_def bt_get_map [of "\<lambda>_. []", simplified])

lemma register_wf: "watch_wf s \<Longrightarrow> watch_wf (fst (register_workspace w s))"
  by (auto simp: register_workspace_def watch_wf_def or_insert_def bt_get_or_def split: sum.split option.splits)

lemma unregister_wf: "watch_wf s \<Longrightarrow> watch_wf (fst (unregister_workspace w s))"
  by (auto simp: unregister_workspace_def watch_wf_def)

datatype watch_op =
    Register workspace_watch | Unregister string | FsEvent fs_raw_event | DrainChanges

fun watch_op_step :: "watch_op \<Rightarrow> fs_watch_state \<Rightarrow> fs_watch_state" where
  "watch_op_step (Register w) s = fst (register_workspace w s)"
| "watch_op_step (Unregister w) s = fst (unregister_workspace w s)"
| "watch_op_step (FsEvent e) s = fst (observe_raw_event e s)"
| "watch_op_step DrainChanges s = fst (drain_coalesced s)"

definition watch_run :: "watch_op list \<Rightarrow> fs_watch_state \<Rightarrow> fs_watch_state" where
  "watch_run ops s = foldl (\<lambda>s op. watch_op_step op s) s ops"

lemma watch_op_step_wf: "watch_wf s \<Longrightarrow> watch_wf (watch_op_step op s)"
  by (cases op) (simp_all add: register_wf unregister_wf observe_raw_event_spec drain_coalesced_wf)

lemma watch_run_wf: "watch_wf s \<Longrightarrow> watch_wf (watch_run ops s)"
  unfolding watch_run_def by (induction ops arbitrary: s) (simp_all add: watch_op_step_wf)

lemma empty_watch_wf: "watch_wf empty_watch_state"
  by (simp add: watch_wf_def empty_watch_state_def)

section \<open>Properties\<close>

lemma pending_changes:
  assumes "watch_wf s"
  shows "(\<Union>c\<in>set (snd (drain_coalesced s)). if cc_workspace_id c = w then set (cc_paths c) else {}) = pending_at s w"
    and "c \<in> set (snd (drain_coalesced s)) \<Longrightarrow>
      bt_get (fw_workspaces s) (cc_workspace_id c) \<noteq> None \<and> cc_paths c \<noteq> [] \<and> sorted_wrt (<) (cc_paths c)
      \<and> source_generation s (cc_workspace_id c) = Some (cc_source_generation c)"
    and "pending_at (fst (drain_coalesced s)) w = {}"
proof -
  have m: "(k, ps) \<in> set (fw_pending_paths s) \<longleftrightarrow> bt_get (fw_pending_paths s) k = Some ps" for k ps
    using assms btree.in_entries_iff [of "fw_pending_paths s" k ps] by (simp add: watch_wf_def)
  show "(\<Union>c\<in>set (snd (drain_coalesced s)). if cc_workspace_id c = w then set (cc_paths c) else {}) = pending_at s w"
  proof (rule set_eqI)
    fix x
    have "x \<in> (\<Union>c\<in>set (snd (drain_coalesced s)). if cc_workspace_id c = w then set (cc_paths c) else {})
        \<longleftrightarrow> (\<exists>k ps. bt_get (fw_pending_paths s) k = Some ps \<and> ps \<noteq> [] \<and> k = w \<and> x \<in> set ps)"
      unfolding drain_coalesced_aux [OF assms] m [symmetric] by (force split: if_splits)
    then show "x \<in> (\<Union>c\<in>set (snd (drain_coalesced s)). if cc_workspace_id c = w then set (cc_paths c) else {})
        \<longleftrightarrow> x \<in> pending_at s w"
      by (auto simp: pending_at_def split: option.split)
  qed
  show "pending_at (fst (drain_coalesced s)) w = {}"
    using assms bt_get_map [of "\<lambda>_. []" "fw_pending_paths s" w]
    by (simp add: drain_coalesced_aux pending_at_def split: option.split)
  assume "c \<in> set (snd (drain_coalesced s))"
  then obtain k ps where c: "c = \<lparr>cc_workspace_id = k,
      cc_source_generation = option_or (source_generation s k) 0, cc_paths = ps\<rparr>"
    "bt_get (fw_pending_paths s) k = Some ps" "ps \<noteq> []"
    using assms by (auto simp: drain_coalesced_aux m)
  have w: "bt_get (fw_workspaces s) k \<noteq> None" "sorted_wrt (<) ps"
    using assms c(2) unfolding watch_wf_def by (metis option.distinct(1))+
  moreover have "source_generation s k \<noteq> None"
    using assms w(1) by (simp add: watch_wf_def source_generation_def)
  ultimately have "bt_get (fw_workspaces s) k \<noteq> None" "source_generation s k \<noteq> None" "sorted_wrt (<) ps"
    by blast+
  then show "bt_get (fw_workspaces s) (cc_workspace_id c) \<noteq> None \<and> cc_paths c \<noteq> [] \<and> sorted_wrt (<) (cc_paths c)
      \<and> source_generation s (cc_workspace_id c) = Some (cc_source_generation c)"
    using c(1,3) by (auto simp: option_or_def)
qed

text \<open>
  C31. Every state the watcher operations reach is well formed: registrations, generations and
  pending sets have the same keys and a registration validates, so the fallbacks of the code
  (\<open>or_insert(0)\<close>, \<open>unwrap_or_default\<close>) never invent a workspace. In such a state an observed
  event marks as pending, for each workspace, exactly the paths below its root and below no
  deeper registered root, and the next drain returns, for each workspace, exactly the paths
  pending before and those, as sorted nonempty lists of registered workspaces with their current
  generation, and leaves nothing pending.
\<close>

theorem watcher_delivers_attributed:
  assumes "s = watch_run ops empty_watch_state"
    and "s1 = fst (observe_raw_event e s)" and "drain_coalesced s1 = (s2, changes)"
  shows "watch_wf s \<and> watch_wf s1 \<and> watch_wf s2
    \<and> (\<forall>w. (\<Union>c\<in>set changes. if cc_workspace_id c = w then set (cc_paths c) else {}) =
          pending_at s w \<union> attributed s w (fe_paths e) \<and> pending_at s2 w = {})
    \<and> (\<forall>p. (match_workspace s p = None) = (\<not> below_some_root s p))
    \<and> (\<forall>p w q. match_workspace s p = Some (w, q) \<longrightarrow> innermost s p w q)
    \<and> (\<forall>c\<in>set changes. bt_get (fw_workspaces s) (cc_workspace_id c) \<noteq> None \<and> cc_paths c \<noteq> []
          \<and> sorted_wrt (<) (cc_paths c)
          \<and> source_generation s1 (cc_workspace_id c) = Some (cc_source_generation c))"
proof -
  have wf: "watch_wf s" unfolding assms(1) by (intro watch_run_wf empty_watch_wf)
  note o = observe_raw_event_spec [OF wf, of e, folded assms(2)]
  note d = pending_changes [OF o(1), unfolded assms(3), simplified]
  have "watch_wf s2" using drain_coalesced_wf [OF o(1)] assms(3) by simp
  moreover have "\<forall>w. (\<Union>c\<in>set changes. if cc_workspace_id c = w then set (cc_paths c) else {}) =
      pending_at s w \<union> attributed s w (fe_paths e) \<and> pending_at s2 w = {}"
    using d(1,3) o(3) by simp
  moreover have "\<forall>c\<in>set changes. bt_get (fw_workspaces s) (cc_workspace_id c) \<noteq> None \<and> cc_paths c \<noteq> []
      \<and> sorted_wrt (<) (cc_paths c)
      \<and> source_generation s1 (cc_workspace_id c) = Some (cc_source_generation c)"
    using d(2) unfolding o(2) by simp
  ultimately show ?thesis
    using wf o(1) match_workspace_SomeD [OF wf] match_workspace_None_iff [OF wf] by simp
qed

definition ex_watch_ops :: "watch_op list" where
  "ex_watch_ops = [Register \<lparr>ww_workspace_id = ''w'', ww_root = [RootDir, Normal ''p'']\<rparr>]"

theorem watcher_delivers_attributed_witness:
  "\<exists>s s1 s2 changes. s = watch_run ex_watch_ops empty_watch_state
     \<and> s1 = fst (observe_raw_event (new_raw_event Modify [[RootDir, Normal ''p'', Normal ''f'']]) s)
     \<and> drain_coalesced s1 = (s2, changes) \<and> watch_wf s2 \<and> (\<forall>w. pending_at s2 w = {})"
  using watcher_delivers_attributed [OF refl refl surjective_pairing, of ex_watch_ops
      "new_raw_event Modify [[RootDir, Normal ''p'', Normal ''f'']]"]
  by (metis surjective_pairing)

end
