(* ===== verification/Rust_Text.thy ===== *)
theory Rust_Text
  imports Prelude
begin

text \<open>
  \<open>str::trim\<close> and the character boundaries of UTF-8 text, as the loops of the code use them.
  Strings are byte lists, so a boundary is a position that no continuation byte follows.
\<close>

section \<open>Trimming\<close>

lemma whitespace_len_le: "whitespace_len s \<le> length s"
  by (cases s rule: whitespace_len.cases) (auto split: list.splits)

function trim_start :: "string \<Rightarrow> string" where
  "trim_start s = (if whitespace_len s = 0 then s else trim_start (drop (whitespace_len s) s))"
  by pat_completeness auto

termination
proof (relation "measure length")
  fix s assume "whitespace_len s \<noteq> 0"
  then show "(drop (whitespace_len s) s, s) \<in> measure length"
    using whitespace_len_le [of s] by simp
qed simp

declare trim_start.simps [simp del]

definition trailing_space :: "string \<Rightarrow> nat" where
  "trailing_space s = (case filter (\<lambda>n. n \<le> length s \<and> whitespace_len (drop (length s - n) s) = n) [1, 2, 3] of
     [] \<Rightarrow> 0 | n # _ \<Rightarrow> n)"

lemma trailing_space_le: "trailing_space s \<le> length s"
  unfolding trailing_space_def by (auto split: list.splits dest!: Cons_eq_filterD)

function trim_end :: "string \<Rightarrow> string" where
  "trim_end s = (if trailing_space s = 0 then s else trim_end (take (length s - trailing_space s) s))"
  by pat_completeness auto

termination
proof (relation "measure length")
  fix s :: string assume "trailing_space s \<noteq> 0"
  then show "(take (length s - trailing_space s) s, s) \<in> measure length"
    using trailing_space_le [of s] by simp
qed simp

declare trim_end.simps [simp del]

definition trim_str :: "string \<Rightarrow> string" where
  "trim_str s = trim_end (trim_start s)"

section \<open>Character boundaries\<close>

text \<open>A byte of the form \<open>10xxxxxx\<close> continues a character.\<close>

definition is_continuation :: "char \<Rightarrow> bool" where
  "is_continuation c \<longleftrightarrow> CHR 0x80 \<le> c \<and> c \<le> CHR 0xBF"

definition is_char_boundary :: "string \<Rightarrow> nat \<Rightarrow> bool" where
  "is_char_boundary s n \<longleftrightarrow> n = 0 \<or> n = length s \<or> n < length s \<and> \<not> is_continuation (s ! n)"

section \<open>Lines\<close>

text \<open>\<open>lines()\<close>: split at line feeds, a carriage return before one belongs to the line end.\<close>

definition strip_cr :: "string \<Rightarrow> string" where
  "strip_cr l = (if l \<noteq> [] \<and> last l = CHR 0x0D then butlast l else l)"

definition str_lines :: "string \<Rightarrow> string list" where
  "str_lines s = (let ls = split_on (CHR 0x0A) s
     in map strip_cr (butlast ls) @ (if last ls = [] then [] else [last ls]))"

lemma split_line: "d \<notin> set l \<Longrightarrow> split_on d (l @ d # s) = l # split_on d s"
  by (induction l) auto

section \<open>Searching and replacing\<close>

fun str_find :: "string \<Rightarrow> string \<Rightarrow> nat option" where
  "str_find p [] = (if p = [] then Some 0 else None)"
| "str_find p (c # cs) = (if starts_with p (c # cs) then Some 0 else map_option Suc (str_find p cs))"

lemma starts_with_append [simp]: "starts_with p (p @ s)"
  by (simp add: starts_with_def)

lemma starts_with_iff: "starts_with p s \<longleftrightarrow> (\<exists>r. s = p @ r)"
proof
  assume "starts_with p s"
  then have "s = p @ drop (length p) s" unfolding starts_with_def by (metis append_take_drop_id)
  then show "\<exists>r. s = p @ r" ..
qed auto

lemma str_find_SomeD:
  "str_find p s = Some i \<Longrightarrow> starts_with p (drop i s) \<and> i + length p \<le> length s
     \<and> (\<forall>j<i. \<not> starts_with p (drop j s))"
proof (induction s arbitrary: i)
  case (Cons c cs)
  show ?case
  proof (cases "starts_with p (c # cs)")
    case True
    then have "length p \<le> length (c # cs)" by (metis starts_with_def length_take min.cobounded1)
    with True Cons.prems show ?thesis by simp
  next
    case False
    then obtain k where "str_find p cs = Some k" "i = Suc k" using Cons.prems by auto
    with Cons.IH False show ?thesis by (auto simp: less_Suc_eq_0_disj)
  qed
qed (auto simp: starts_with_def split: if_splits)

lemma str_find_NoneD: "str_find p s = None \<Longrightarrow> \<not> starts_with p (drop i s)"
proof (induction s arbitrary: i)
  case (Cons c cs)
  then show ?case by (cases i) (auto split: if_splits)
qed (auto simp: starts_with_def split: if_splits)

lemma str_find_None: "\<not> set p \<subseteq> set s \<Longrightarrow> str_find p s = None"
proof (cases "str_find p s")
  case (Some i)
  from str_find_SomeD [OF this] obtain r where "drop i s = p @ r" by (auto simp: starts_with_iff)
  then have "set p \<subseteq> set s" by (metis Un_upper1 set_append set_drop_subset subset_trans)
  then show "\<not> set p \<subseteq> set s \<Longrightarrow> str_find p s = None" by blast
qed simp

text \<open>\<open>str::replace\<close>: non-overlapping occurrences from the left.\<close>

function str_replace :: "string \<Rightarrow> string \<Rightarrow> string \<Rightarrow> string" where
  "str_replace p rep s =
     (if p = [] then s
      else case str_find p s of
        None \<Rightarrow> s
      | Some i \<Rightarrow> take i s @ rep @ str_replace p rep (drop (i + length p) s))"
  by pat_completeness auto

termination
proof (relation "measure (\<lambda>(p, rep, s). length s)")
  fix p rep s :: string and i assume "p \<noteq> []" "str_find p s = Some i"
  then show "((p, rep, drop (i + length p) s), p, rep, s) \<in> measure (\<lambda>(p, rep, s). length s)"
    using str_find_SomeD [of p s i] by (cases p) auto
qed simp

declare str_replace.simps [simp del]

end
