(* ===== verification/Path_Policy.thy ===== *)
theory Path_Policy
  imports Complex_Main Paths Rust_Text Error_Model Snapshot_Schema
begin

text \<open>
  Classification of untracked paths (\<open>policy.rs\<close>): which files a snapshot may carry, and the
  confinement of symbolic links to the workspace. Glob matching (globset) is a parameter; the
  file system is a function from a repository path to what the code observes there. The entropy
  of a token is computed over the reals, without the rounding of \<open>f64\<close>.
\<close>

section \<open>Configuration and observed files\<close>

datatype untracked_policy = UntrackedNone | UntrackedSafe | UntrackedAllNonignored | UntrackedExplicit

record secret_scanner =
  sc_filename_patterns :: "string list"
  sc_content_markers :: "string list"
  sc_token_prefixes :: "string list"

datatype secret_mode = SecretFile | SecretEnvironment

record secret_config =
  sf_target :: string
  sf_required :: bool
  sf_mode :: secret_mode
  sf_environment_variable :: "string option"

text \<open>The fields of a manifest the classification reads.\<close>

record policy_manifest =
  pm_untracked :: untracked_policy
  pm_large_file_threshold_mib :: u64
  pm_exclude :: "string list"
  pm_include :: "string list"
  pm_scanner :: secret_scanner
  pm_secrets :: "(string, secret_config) btree_map"

text \<open>
  What \<open>symlink_metadata\<close>, \<open>read_link\<close> and the first read of a file give; \<open>None\<close> is an error.
  The text is the lossily decoded first 64 KiB.
\<close>

record file_view =
  fv_is_symlink :: bool
  fv_is_reparse_point :: bool
  fv_is_file :: bool
  fv_len :: u64
  fv_link_target :: "string option"
  fv_text :: "string option"

type_synonym workspace_files = "string \<Rightarrow> file_view option"

record globs =
  gl_invalid :: "string \<Rightarrow> string option"
  gl_match :: "string list \<Rightarrow> string \<Rightarrow> bool"

definition is_traversal_boundary :: "file_view \<Rightarrow> bool" where
  "is_traversal_boundary v \<longleftrightarrow> fv_is_symlink v \<or> fv_is_reparse_point v"

section \<open>Names\<close>

definition normalize_repo_path :: "string \<Rightarrow> string" where
  "normalize_repo_path p = map (\<lambda>c. if c = CHR 0x5C then CHR ''/'' else c) p"

definition ends_with :: "string \<Rightarrow> string \<Rightarrow> bool" where
  "ends_with suf s \<longleftrightarrow> starts_with (rev suf) (rev s)"

definition basename :: "string \<Rightarrow> string" where
  "basename s = last (split_on (CHR ''/'') s)"

definition secret_names :: "string list" where
  "secret_names = [''.npmrc'', ''.pypirc'', ''.netrc'', ''auth.json'', ''credentials'',
     ''credentials.json'', ''secret.json'', ''secrets.json'', ''service-account.json'']"

definition secret_suffixes :: "string list" where
  "secret_suffixes = [''.secret'', ''.secrets'', ''.credentials'', ''.p12'', ''.pfx'', ''.jks'',
     ''.keystore'', ''.kdbx'', ''.age'', ''.gpg'']"

definition secret_infixes :: "string list" where
  "secret_infixes = [''firebase-adminsdk'', ''service_account'', ''service-account'',
     ''client-secret'', ''client_secret'']"

definition key_names :: "string list" where
  "key_names = [''id_rsa'', ''id_ed25519'', ''id_ecdsa'', ''id_dsa'', ''id_xmss'',
     ''id_ed25519_sk'', ''id_ecdsa_sk'']"

definition secret_path_reason :: "string \<Rightarrow> string option" where
  "secret_path_reason p =
     (let normalized = to_ascii_lowercase (normalize_repo_path p); b = basename normalized in
      if b = ''.env'' \<or> starts_with ''.env.'' b \<or> b \<in> set secret_names
        \<or> list_ex (\<lambda>x. ends_with x b) secret_suffixes \<or> list_ex (\<lambda>x. str_contains x b) secret_infixes
      then Some ''secret-filename''
      else if normalized = ''.ssh'' \<or> starts_with ''.ssh/'' normalized \<or> str_contains ''/.ssh/'' normalized
      then Some ''ssh-credential-path''
      else if ends_with ''.pem'' b \<or> ends_with ''.key'' b \<or> b \<in> set key_names
      then Some ''private-key-filename''
      else None)"

section \<open>Content\<close>

definition is_token_char :: "char \<Rightarrow> bool" where
  "is_token_char c \<longleftrightarrow> is_ascii_alphanumeric c \<or> c \<in> set ''_-./+=''"

fun token_pieces :: "string \<Rightarrow> string list" where
  "token_pieces [] = [[]]"
| "token_pieces (c # cs) =
     (if is_token_char c then (case token_pieces cs of [] \<Rightarrow> [[c]] | w # ws \<Rightarrow> (c # w) # ws)
      else [] # token_pieces cs)"

definition token_candidates :: "string \<Rightarrow> string list" where
  "token_candidates l = filter (\<lambda>w. w \<noteq> []) (token_pieces l)"

definition is_quote_char :: "char \<Rightarrow> bool" where
  "is_quote_char c \<longleftrightarrow> c \<in> {CHR 0x22, CHR 0x27, CHR 0x60, CHR '','', CHR '';'', CHR '')'', CHR '']'', CHR 0x7D}"

definition trim_token_value :: "string \<Rightarrow> string" where
  "trim_token_value s = rev (dropWhile is_quote_char (rev (dropWhile is_quote_char s)))"

definition split_once :: "char \<Rightarrow> string \<Rightarrow> (string \<times> string) option" where
  "split_once d s = (if d \<in> set s
     then Some (takeWhile (\<lambda>c. c \<noteq> d) s, tl (dropWhile (\<lambda>c. c \<noteq> d) s)) else None)"

definition has_secret_context :: "string \<Rightarrow> bool" where
  "has_secret_context l = (let lower = to_ascii_lowercase l in
     list_ex (\<lambda>n. str_contains n lower)
       [''api_key'', ''apikey'', ''access_key'', ''access-token'', ''access_token'', ''auth_token'',
        ''client_secret'', ''client-secret'', ''password'', ''private_key'', ''private-key'',
        ''secret'', ''token''])"

definition assignment_value :: "string \<Rightarrow> string option" where
  "assignment_value l =
     (if \<not> has_secret_context l then None
      else map_option (\<lambda>(_, v). trim_str v)
        (case split_once (CHR ''='') l of Some p \<Rightarrow> Some p | None \<Rightarrow> split_once (CHR '':'') l))"

definition token_entropy :: "string \<Rightarrow> real" where
  "token_entropy s =
     (\<Sum>c\<leftarrow>remdups s. let p = real (count_list s c) / real (length s) in - p * log 2 p)"

definition looks_like_known_token :: "string \<Rightarrow> bool" where
  "looks_like_known_token t0 = (let t = trim_token_value t0 in
     if length t = 20 \<and> (starts_with ''AKIA'' t \<or> starts_with ''ASIA'' t)
        \<and> list_all (\<lambda>c. is_ascii_upper c \<or> is_ascii_digit c) t then True
     else if starts_with ''github_pat_'' t \<and> 40 \<le> length t then True
     else if list_ex (\<lambda>p. starts_with p t) [''ghp_'', ''gho_'', ''ghu_'', ''ghs_'', ''ghr_'']
        \<and> 30 \<le> length t then True
     else if list_ex (\<lambda>p. starts_with p t) [''xoxb-'', ''xoxa-'', ''xoxp-'', ''xoxr-'', ''xoxs-'']
        \<and> 20 \<le> length t then True
     else if starts_with ''sk-'' t \<and> 32 \<le> length t then 4 \<le> token_entropy t
     else False)"

definition has_private_key_header :: "string \<Rightarrow> bool" where
  "has_private_key_header h \<longleftrightarrow> list_ex (\<lambda>n. str_contains n h)
     [''BEGIN PRIVATE KEY'', ''BEGIN RSA PRIVATE KEY'', ''BEGIN OPENSSH PRIVATE KEY'',
      ''BEGIN EC PRIVATE KEY'', ''BEGIN DSA PRIVATE KEY'', ''BEGIN ENCRYPTED PRIVATE KEY'',
      ''BEGIN PGP PRIVATE KEY BLOCK'']"

definition has_user_secret_marker :: "string \<Rightarrow> secret_scanner \<Rightarrow> bool" where
  "has_user_secret_marker h sc \<longleftrightarrow> list_ex (\<lambda>m. m \<noteq> [] \<and> str_contains m h) (sc_content_markers sc)"

definition has_user_token_prefix :: "string \<Rightarrow> secret_scanner \<Rightarrow> bool" where
  "has_user_token_prefix h sc \<longleftrightarrow> list_ex (\<lambda>l. list_ex (\<lambda>t0. let t = trim_token_value t0 in
       list_ex (\<lambda>p. p \<noteq> [] \<and> starts_with p t \<and> length p + 8 \<le> length t) (sc_token_prefixes sc))
     (token_candidates l)) (str_lines h)"

definition has_token_pattern :: "string \<Rightarrow> bool" where
  "has_token_pattern h \<longleftrightarrow> list_ex (\<lambda>l. list_ex looks_like_known_token (token_candidates l)
     \<or> (case assignment_value l of None \<Rightarrow> False | Some v \<Rightarrow> looks_like_known_token (trim_token_value v)))
     (str_lines h)"

definition is_secret_token_charset :: "string \<Rightarrow> bool" where
  "is_secret_token_charset v = list_all is_token_char v"

definition has_high_entropy_secret :: "string \<Rightarrow> bool" where
  "has_high_entropy_secret h \<longleftrightarrow> list_ex (\<lambda>l. has_secret_context l
     \<and> list_ex (\<lambda>t0. let t = trim_token_value t0 in
         32 \<le> length t \<and> is_secret_token_charset t \<and> 42 / 10 \<le> token_entropy t) (token_candidates l))
     (str_lines h)"

definition secret_content_reason :: "workspace_files \<Rightarrow> string \<Rightarrow> secret_scanner \<Rightarrow> string option" where
  "secret_content_reason fs p sc =
     (case fs p of
        None \<Rightarrow> None
      | Some v \<Rightarrow>
          if is_traversal_boundary v then None
          else (case fv_text v of
            None \<Rightarrow> None
          | Some h \<Rightarrow>
              if has_private_key_header h then Some ''private-key-content''
              else if has_user_secret_marker h sc \<or> has_user_token_prefix h sc
              then Some ''user-secret-scanner''
              else if has_token_pattern h then Some ''token-pattern-content''
              else if has_high_entropy_secret h then Some ''high-entropy-content''
              else None))"

section \<open>Links\<close>

fun normalize_components :: "path \<Rightarrow> string list \<Rightarrow> string list option" where
  "normalize_components [] acc = Some acc"
| "normalize_components (CurDir # cs) acc = normalize_components cs acc"
| "normalize_components (Normal s # cs) acc = normalize_components cs (acc @ [s])"
| "normalize_components (ParentDir # cs) acc =
     (if acc = [] then None else normalize_components cs (butlast acc))"
| "normalize_components (RootDir # cs) acc = None"

definition normalize_workspace_relative_path :: "path \<Rightarrow> string list option" where
  "normalize_workspace_relative_path p = normalize_components p []"

definition symlink_target_escapes_workspace :: "workspace_files \<Rightarrow> string \<Rightarrow> bool" where
  "symlink_target_escapes_workspace fs p =
     (case fs p of
        None \<Rightarrow> False
      | Some v \<Rightarrow>
          if \<not> fv_is_symlink v then False
          else (case fv_link_target v of
            None \<Rightarrow> True
          | Some t \<Rightarrow>
              if path_components t \<noteq> [] \<and> hd (path_components t) = RootDir then True
              else normalize_workspace_relative_path (butlast (path_components p) @ path_components t) = None))"

definition path_is_unsupported_windows_reparse_point :: "workspace_files \<Rightarrow> string \<Rightarrow> bool" where
  "path_is_unsupported_windows_reparse_point fs p =
     (case fs p of None \<Rightarrow> False | Some v \<Rightarrow> fv_is_reparse_point v \<and> \<not> fv_is_symlink v)"

definition exceeds_threshold :: "workspace_files \<Rightarrow> string \<Rightarrow> u64 \<Rightarrow> bool" where
  "exceeds_threshold fs p threshold =
     (if threshold = 0 then False
      else (case fs p of None \<Rightarrow> False
        | Some v \<Rightarrow> if is_traversal_boundary v then False else fv_is_file v \<and> threshold < fv_len v))"

section \<open>Classification\<close>

definition included :: "string \<Rightarrow> string \<Rightarrow> classified_path" where
  "included p reason = \<lparr>cp_path = p, cp_decision = Include, cp_reason = reason\<rparr>"

definition excluded :: "string \<Rightarrow> string \<Rightarrow> classified_path" where
  "excluded p reason = \<lparr>cp_path = p, cp_decision = Exclude, cp_reason = reason\<rparr>"

definition classify_one ::
    "globs \<Rightarrow> workspace_files \<Rightarrow> policy_manifest \<Rightarrow> string list \<Rightarrow> u64 \<Rightarrow> string \<Rightarrow> classified_path" where
  "classify_one g fs m exclude threshold p =
     (case secret_path_reason p of
        Some reason \<Rightarrow> excluded p reason
      | None \<Rightarrow>
        if gl_match g (sc_filename_patterns (pm_scanner m)) p then excluded p ''user-secret-scanner''
        else if path_is_unsupported_windows_reparse_point fs p then excluded p ''windows-reparse-point''
        else if symlink_target_escapes_workspace fs p
        then excluded p ''symlink-target-outside-workspace''
        else (case secret_content_reason fs p (pm_scanner m) of
          Some reason \<Rightarrow> excluded p reason
        | None \<Rightarrow>
          if gl_match g exclude p then excluded p ''manifest-or-generated-exclude''
          else if exceeds_threshold fs p threshold then excluded p ''large-file-threshold''
          else (case pm_untracked m of
              UntrackedNone \<Rightarrow> excluded p ''manifest-untracked-none''
            | UntrackedExplicit \<Rightarrow>
                if gl_match g (pm_include m) p then included p ''manifest-include''
                else excluded p ''manifest-untracked-explicit''
            | _ \<Rightarrow> included p ''safe-untracked'')))"

definition default_exclude_patterns :: "string list" where
  "default_exclude_patterns = [''node_modules/**'', ''.venv/**'', ''target/**'', ''dist/**'',
     ''.next/**'', ''*.sqlite-wal'', ''*.pid'', ''*.sock'', ''*.lock'']"

definition normalize_secret_target :: "string \<Rightarrow> string option" where
  "normalize_secret_target t =
     (if trims_to_empty t \<or> list_ex (\<lambda>c. c = ParentDir \<or> c = RootDir) (path_components t)
      then None else Some t)"

definition secret_hard_exclude_patterns :: "policy_manifest \<Rightarrow> string list" where
  "secret_hard_exclude_patterns m = List.map_filter
     (\<lambda>(_, s). if sf_mode s = SecretFile then map_option normalize_repo_path (normalize_secret_target (sf_target s))
        else None) (pm_secrets m)"

fun build_globset :: "globs \<Rightarrow> string list \<Rightarrow> string list result" where
  "build_globset g [] = Inr []"
| "build_globset g (p # ps) = (case gl_invalid g p of
     Some e \<Rightarrow> Inl (Glob e) | None \<Rightarrow> bind_r (build_globset g ps) (\<lambda>qs. Inr (p # qs)))"

definition classify_untracked_paths ::
    "globs \<Rightarrow> workspace_files \<Rightarrow> policy_manifest \<Rightarrow> string list \<Rightarrow> classified_path list result" where
  "classify_untracked_paths g fs m paths =
     bind_r (build_globset g (pm_exclude m @ default_exclude_patterns @ secret_hard_exclude_patterns m)) (\<lambda>exclude.
     bind_r (build_globset g (pm_include m)) (\<lambda>_.
     bind_r (build_globset g (sc_filename_patterns (pm_scanner m))) (\<lambda>_.
     Inr (map (\<lambda>p. classify_one g fs m exclude (pm_large_file_threshold_mib m * 1024 * 1024)
            (normalize_repo_path p)) paths))))"

section \<open>Facts about names\<close>

lemma str_contains_iff: "str_contains n s \<longleftrightarrow> (\<exists>a b. s = a @ n @ b)"
proof (induction s)
  case (Cons c cs)
  show ?case (is "_ \<longleftrightarrow> ?r")
  proof
    assume "str_contains n (c # cs)"
    then consider "starts_with n (c # cs)" | "str_contains n cs" by auto
    then show ?r
    proof cases
      case 1 then show ?thesis by (metis append_Nil starts_with_iff)
    next
      case 2 then show ?thesis using Cons.IH by (metis append_Cons)
    qed
  next
    assume ?r
    then obtain a b where ab: "c # cs = a @ n @ b" by blast
    show "str_contains n (c # cs)"
    proof (cases a)
      case Nil
      then have "starts_with n (c # cs)" using ab by (auto simp: starts_with_iff)
      then show ?thesis by simp
    next
      case (Cons x xs)
      then show ?thesis using ab Cons.IH by auto
    qed
  qed
qed simp

fun join_on :: "char \<Rightarrow> string list \<Rightarrow> string" where
  "join_on d [] = []"
| "join_on d [w] = w"
| "join_on d (w # v # ws) = w @ d # join_on d (v # ws)"

lemma split_on_Nil [simp]: "split_on d s \<noteq> []"
  by (induction s) (auto split: list.split)

lemma join_split: "join_on d (split_on d s) = s"
proof (induction s)
  case (Cons c cs)
  then show ?case by (cases "split_on d cs") (auto, metis join_on.simps append_Cons neq_Nil_conv)
qed simp

lemma join_on_append: "ws \<noteq> [] \<Longrightarrow> vs \<noteq> [] \<Longrightarrow> join_on d (ws @ vs) = join_on d ws @ d # join_on d vs"
proof (induction ws)
  case (Cons w ws)
  then show ?case by (cases ws; cases vs) auto
qed simp

lemma inner_component:
  assumes "x \<in> set (butlast (split_on d s))"
  shows "starts_with (x @ [d]) s \<or> str_contains (d # x @ [d]) s"
proof -
  obtain pre post where b: "butlast (split_on d s) = pre @ x # post" using assms by (meson split_list)
  have "split_on d s = (pre @ x # post) @ [last (split_on d s)]"
    unfolding b [symmetric] by simp
  then have s: "s = join_on d (pre @ x # post @ [last (split_on d s)])" by (metis append.assoc append_Cons join_split)
  have x: "join_on d (x # post @ [last (split_on d s)]) = x @ d # join_on d (post @ [last (split_on d s)])"
    by (cases post) auto
  show ?thesis
  proof (cases "pre = []")
    case True
    then have "s = (x @ [d]) @ join_on d (post @ [last (split_on d s)])" using s x by simp
    then show ?thesis unfolding starts_with_iff by blast
  next
    case False
    then have "s = join_on d pre @ (d # x @ [d]) @ join_on d (post @ [last (split_on d s)])"
      using s x by (simp add: join_on_append)
    then show ?thesis unfolding str_contains_iff by blast
  qed
qed

lemma normalize_repo_path_idem [simp]: "normalize_repo_path (normalize_repo_path p) = normalize_repo_path p"
  by (simp add: normalize_repo_path_def)

section \<open>Facts about links\<close>

fun is_normal :: "path_component \<Rightarrow> bool" where
  "is_normal (Normal _) = True"
| "is_normal _ = False"

text \<open>
  The reference for confinement: no prefix of the path has gone up more often than down.
\<close>

definition confined :: "path \<Rightarrow> bool" where
  "confined p \<longleftrightarrow> RootDir \<notin> set p
     \<and> (\<forall>k. length (filter (\<lambda>c. c = ParentDir) (take k p)) \<le> length (filter is_normal (take k p)))"

lemma normalize_components_iff:
  "(normalize_components p acc \<noteq> None) \<longleftrightarrow> RootDir \<notin> set p \<and>
     (\<forall>k. length (filter (\<lambda>c. c = ParentDir) (take k p)) \<le> length acc + length (filter is_normal (take k p)))"
proof (induction p arbitrary: acc)
  case (Cons c cs)
  have all: "(\<forall>k. P k) \<longleftrightarrow> P 0 \<and> (\<forall>k. P (Suc k))" for P :: "nat \<Rightarrow> bool"
    by (metis not0_implies_Suc)
  show ?case
  proof (cases c)
    case RootDir
    then show ?thesis by simp
  next
    case CurDir
    then show ?thesis by (subst all) (simp add: Cons.IH [simplified])
  next
    case (Normal s)
    then show ?thesis by (subst all) (simp add: Cons.IH [simplified])
  next
    case ParentDir
    show ?thesis
    proof (cases "acc = []")
      case True
      then show ?thesis using ParentDir by (subst all) (auto intro: exI [of _ 0])
    next
      case False
      then obtain m where "length acc = Suc m" by (cases acc) auto
      then show ?thesis using ParentDir False by (subst all) (simp add: Cons.IH [simplified])
    qed
  qed
qed simp

lemma normalize_components_result:
  "normalize_components p acc = Some q \<Longrightarrow>
     length q + length (filter (\<lambda>c. c = ParentDir) p) = length acc + length (filter is_normal p)
     \<and> set q \<subseteq> set acc \<union> {s. Normal s \<in> set p}"
proof (induction p acc rule: normalize_components.induct)
  case (4 cs acc)
  then have "acc \<noteq> []" "normalize_components cs (butlast acc) = Some q" by (auto split: if_splits)
  with 4 show ?case by (auto dest: in_set_butlastD)
qed auto

lemma normalize_confined: "normalize_workspace_relative_path p = None \<longleftrightarrow> \<not> confined p"
  using normalize_components_iff [of p "[]"]
  by (auto simp: normalize_workspace_relative_path_def confined_def)

section \<open>Properties\<close>

lemma classify_included:
  assumes "cp_decision (classify_one g fs m ex th p) = Include"
  shows "cp_path (classify_one g fs m ex th p) = p" "secret_path_reason p = None"
    "\<not> gl_match g (sc_filename_patterns (pm_scanner m)) p" "\<not> symlink_target_escapes_workspace fs p"
    "secret_content_reason fs p (pm_scanner m) = None" "\<not> gl_match g ex p" "\<not> exceeds_threshold fs p th"
    "pm_untracked m \<noteq> UntrackedNone" "pm_untracked m = UntrackedExplicit \<Longrightarrow> gl_match g (pm_include m) p"
  using assms
  by (auto simp: classify_one_def included_def excluded_def split: option.splits if_splits untracked_policy.splits)

lemma build_globset_Inr: "build_globset g ps = Inr qs \<Longrightarrow> qs = ps"
  by (induction ps arbitrary: qs) (auto simp: tx_simps split: option.splits)

definition policy_excludes :: "policy_manifest \<Rightarrow> string list" where
  "policy_excludes m = pm_exclude m @ default_exclude_patterns @ secret_hard_exclude_patterns m"

lemma classify_Inr:
  "classify_untracked_paths g fs m paths = Inr out \<Longrightarrow> out = map (\<lambda>p. classify_one g fs m (policy_excludes m)
     (pm_large_file_threshold_mib m * 1024 * 1024) (normalize_repo_path p)) paths"
  by (auto simp: classify_untracked_paths_def tx_simps policy_excludes_def dest!: build_globset_Inr)

text \<open>What makes the final component of a path a secret's name, in lower case.\<close>

definition secret_basename :: "string \<Rightarrow> bool" where
  "secret_basename b \<longleftrightarrow> b = ''.env'' \<or> b \<in> set secret_names \<union> set key_names \<or> (\<exists>r. b = ''.env.'' @ r)
     \<or> (\<exists>r x. b = r @ x \<and> x \<in> set (''.pem'' # ''.key'' # secret_suffixes))
     \<or> (\<exists>r x t. b = r @ x @ t \<and> x \<in> set secret_infixes)"

lemma ends_with_iff: "ends_with x s \<longleftrightarrow> (\<exists>r. s = r @ x)"
proof
  assume "ends_with x s"
  then obtain r where "rev s = rev x @ r" by (auto simp: ends_with_def starts_with_iff)
  then have "s = rev r @ x" by (metis rev_append rev_rev_ident)
  then show "\<exists>r. s = r @ x" ..
qed (auto simp: ends_with_def starts_with_iff)

lemma no_secret_basename:
  assumes "secret_path_reason p = None"
  shows "\<not> secret_basename (basename (to_ascii_lowercase (normalize_repo_path p)))"
proof -
  define b where "b = basename (to_ascii_lowercase (normalize_repo_path p))"
  have n: "b \<noteq> ''.env''" "\<not> starts_with ''.env.'' b" "b \<notin> set secret_names"
    "\<not> list_ex (\<lambda>x. ends_with x b) secret_suffixes" "\<not> list_ex (\<lambda>x. str_contains x b) secret_infixes"
    "\<not> ends_with ''.pem'' b" "\<not> ends_with ''.key'' b" "b \<notin> set key_names"
    using assms by (simp_all add: secret_path_reason_def Let_def b_def split: if_splits)
  have "\<nexists>r x. b = r @ x \<and> x \<in> set (''.pem'' # ''.key'' # secret_suffixes)"
    using n(4,6,7) unfolding ends_with_iff list_ex_iff by auto
  moreover have "\<nexists>r x t. b = r @ x @ t \<and> x \<in> set secret_infixes"
    using n(5) unfolding str_contains_iff list_ex_iff by blast
  moreover have "\<nexists>r. b = ''.env.'' @ r" using n(2) unfolding starts_with_iff .
  ultimately show ?thesis
    using n(1,3,8) unfolding secret_basename_def b_def [symmetric] by blast
qed

lemma no_ssh_directory:
  assumes "secret_path_reason p = None"
  shows "''.ssh'' \<notin> set (butlast (split_on (CHR ''/'') (to_ascii_lowercase (normalize_repo_path p))))"
proof
  assume "''.ssh'' \<in> set (butlast (split_on (CHR ''/'') (to_ascii_lowercase (normalize_repo_path p))))"
  from inner_component [OF this] show False
    using assms by (auto simp: secret_path_reason_def Let_def split: if_splits)
qed

text \<open>
  C32. No snapshot carries a secret by its name, its content or a link, whatever the manifest
  says. If a classification succeeds, it decides each path exactly once and in order, under its
  normalized spelling; and a path it includes has no \<open>.ssh\<close> directory and no secret or private
  key file name, in any letter case; is matched neither by the user's secret patterns nor by the
  exclusion patterns, among which are the defaults and the targets of the manifest's secret
  files; if it is a link, its target is relative and never leaves the workspace on the way; the
  text read from it holds no private key header, no marker or token of the manifest's scanner,
  no known token and no high-entropy secret; as a file it does not exceed the threshold; and the
  manifest's policy admits it.
\<close>

theorem included_paths_hold_no_secrets:
  assumes "classify_untracked_paths g fs m paths = Inr out"
  shows "map cp_path out = map normalize_repo_path paths
    \<and> (\<forall>c\<in>set out. cp_decision c = Include \<longrightarrow>
        ''.ssh'' \<notin> set (butlast (split_on (CHR ''/'') (to_ascii_lowercase (cp_path c))))
        \<and> \<not> secret_basename (basename (to_ascii_lowercase (cp_path c)))
        \<and> \<not> gl_match g (sc_filename_patterns (pm_scanner m)) (cp_path c)
        \<and> \<not> gl_match g (pm_exclude m @ default_exclude_patterns @ secret_hard_exclude_patterns m) (cp_path c)
        \<and> (\<forall>v. fs (cp_path c) = Some v \<and> fv_is_symlink v \<longrightarrow>
              (\<exists>t. fv_link_target v = Some t
                 \<and> confined (butlast (path_components (cp_path c)) @ path_components t)
                 \<and> (\<forall>cs. path_components t \<noteq> RootDir # cs)))
        \<and> (\<forall>v h. fs (cp_path c) = Some v \<and> \<not> is_traversal_boundary v \<and> fv_text v = Some h \<longrightarrow>
              \<not> has_private_key_header h \<and> \<not> has_user_secret_marker h (pm_scanner m)
              \<and> \<not> has_user_token_prefix h (pm_scanner m) \<and> \<not> has_token_pattern h
              \<and> \<not> has_high_entropy_secret h)
        \<and> (\<forall>v. fs (cp_path c) = Some v \<and> \<not> is_traversal_boundary v \<and> fv_is_file v
              \<and> pm_large_file_threshold_mib m * 1024 * 1024 \<noteq> 0 \<longrightarrow>
              fv_len v \<le> pm_large_file_threshold_mib m * 1024 * 1024)
        \<and> pm_untracked m \<noteq> UntrackedNone
        \<and> (pm_untracked m = UntrackedExplicit \<longrightarrow> gl_match g (pm_include m) (cp_path c)))"
proof -
  let ?th = "pm_large_file_threshold_mib m * 1024 * 1024"
  let ?c = "\<lambda>p. classify_one g fs m (policy_excludes m) ?th (normalize_repo_path p)"
  have out: "out = map ?c paths" using classify_Inr [OF assms] .
  have path: "cp_path (classify_one g fs m ex th q) = q" for ex th q
    by (simp add: classify_one_def included_def excluded_def split: option.splits untracked_policy.splits)
  have link: "\<exists>t. fv_link_target v = Some t \<and> confined (butlast (path_components p) @ path_components t)
      \<and> (\<forall>cs. path_components t \<noteq> RootDir # cs)"
    if "\<not> symlink_target_escapes_workspace fs p" "fs p = Some v" "fv_is_symlink v" for p v
    using that by (auto simp: symlink_target_escapes_workspace_def normalize_confined split: option.splits if_splits)
  have content: "\<not> has_private_key_header h \<and> \<not> has_user_secret_marker h (pm_scanner m)
      \<and> \<not> has_user_token_prefix h (pm_scanner m) \<and> \<not> has_token_pattern h \<and> \<not> has_high_entropy_secret h"
    if "secret_content_reason fs p (pm_scanner m) = None" "fs p = Some v" "\<not> is_traversal_boundary v"
      "fv_text v = Some h" for p v h
    using that by (auto simp: secret_content_reason_def split: if_splits)
  have len: "fv_len v \<le> ?th"
    if "\<not> exceeds_threshold fs p ?th" "fs p = Some v" "\<not> is_traversal_boundary v" "fv_is_file v" "?th \<noteq> 0" for p v
    using that by (simp add: exceeds_threshold_def not_less)
  show ?thesis
  proof (intro conjI ballI impI)
    show "map cp_path out = map normalize_repo_path paths"
      unfolding out by (simp only: map_map comp_def path)
  next
    fix c assume c: "c \<in> set out" "cp_decision c = Include"
    then obtain p where p: "c = ?c p" by (auto simp: out)
    note i = classify_included [OF c(2) [unfolded p], folded p]
    have cp: "cp_path c = normalize_repo_path p" by (simp add: p path)
    note j = i(2-9) [folded cp]
    show "''.ssh'' \<notin> set (butlast (split_on (CHR ''/'') (to_ascii_lowercase (cp_path c))))"
      using no_ssh_directory [OF j(1)] by (simp add: cp)
    show "\<not> secret_basename (basename (to_ascii_lowercase (cp_path c)))"
      using no_secret_basename [OF j(1)] by (simp add: cp)
    show "\<not> gl_match g (sc_filename_patterns (pm_scanner m)) (cp_path c)"
      "\<not> gl_match g (pm_exclude m @ default_exclude_patterns @ secret_hard_exclude_patterns m) (cp_path c)"
      using j(2,5) by (simp_all add: policy_excludes_def)
    show "\<forall>v. fs (cp_path c) = Some v \<and> fv_is_symlink v \<longrightarrow> (\<exists>t. fv_link_target v = Some t
        \<and> confined (butlast (path_components (cp_path c)) @ path_components t)
        \<and> (\<forall>cs. path_components t \<noteq> RootDir # cs))"
      using link [OF j(3)] by blast
    show "\<forall>v h. fs (cp_path c) = Some v \<and> \<not> is_traversal_boundary v \<and> fv_text v = Some h \<longrightarrow>
        \<not> has_private_key_header h \<and> \<not> has_user_secret_marker h (pm_scanner m)
        \<and> \<not> has_user_token_prefix h (pm_scanner m) \<and> \<not> has_token_pattern h \<and> \<not> has_high_entropy_secret h"
      using content [OF j(4)] by blast
    show "\<forall>v. fs (cp_path c) = Some v \<and> \<not> is_traversal_boundary v \<and> fv_is_file v \<and> ?th \<noteq> 0 \<longrightarrow> fv_len v \<le> ?th"
      using len [OF j(6)] by blast
    show "pm_untracked m \<noteq> UntrackedNone"
      "pm_untracked m = UntrackedExplicit \<Longrightarrow> gl_match g (pm_include m) (cp_path c)"
      using j(7,8) by blast+
  qed
qed

definition ex_globs :: globs where
  "ex_globs = \<lparr>gl_invalid = (\<lambda>_. None), gl_match = (\<lambda>ps p. p \<in> set ps)\<rparr>"

definition ex_policy :: policy_manifest where
  "ex_policy = \<lparr>pm_untracked = UntrackedSafe, pm_large_file_threshold_mib = 32, pm_exclude = [''b''],
     pm_include = [], pm_scanner = \<lparr>sc_filename_patterns = [], sc_content_markers = [], sc_token_prefixes = []\<rparr>,
     pm_secrets = []\<rparr>"

lemma ex_globset: "build_globset ex_globs ps = Inr ps"
  by (induction ps) (simp_all add: ex_globs_def)

lemma ex_classified: "classify_untracked_paths ex_globs (\<lambda>_. None) ex_policy [''notes'', ''.env''] =
    Inr [included ''notes'' ''safe-untracked'', excluded ''.env'' ''secret-filename'']"
proof -
  have a: "secret_path_reason ''notes'' = None"
    by (simp add: secret_path_reason_def Let_def normalize_repo_path_def to_ascii_lowercase_def
        to_ascii_lower_char_def is_ascii_upper_def less_eq_char_def basename_def secret_names_def
        secret_suffixes_def secret_infixes_def key_names_def ends_with_def starts_with_def)
  have b: "secret_path_reason ''.env'' = Some ''secret-filename''"
    by (simp add: secret_path_reason_def Let_def normalize_repo_path_def to_ascii_lowercase_def
        to_ascii_lower_char_def is_ascii_upper_def less_eq_char_def basename_def)
  have n: "normalize_repo_path ''notes'' = ''notes''" "normalize_repo_path ''.env'' = ''.env''"
    by (simp_all add: normalize_repo_path_def)
  show ?thesis
    by (simp add: classify_untracked_paths_def ex_globset n)
      (simp add: classify_one_def a b ex_policy_def ex_globs_def path_is_unsupported_windows_reparse_point_def
        symlink_target_escapes_workspace_def secret_content_reason_def exceeds_threshold_def
        default_exclude_patterns_def secret_hard_exclude_patterns_def List.map_filter_simps)
qed

theorem included_paths_hold_no_secrets_witness:
  "map cp_path [included ''notes'' ''safe-untracked'', excluded ''.env'' ''secret-filename''] = [''notes'', ''.env'']
   \<and> \<not> secret_basename (basename (to_ascii_lowercase ''notes''))"
  using included_paths_hold_no_secrets [OF ex_classified]
  by (simp add: included_def excluded_def normalize_repo_path_def)

text \<open>
  Lexical normalization of a relative path succeeds exactly for the paths that contain no
  root component and of which no prefix has more parent steps than names, that is, which never
  climb above the workspace at any point; the result holds only names of the path, and its
  length is the number of names minus the number of parent steps.
\<close>

theorem normalization_is_confinement:
  "case normalize_workspace_relative_path p of
     None \<Rightarrow> RootDir \<in> set p
       \<or> (\<exists>k. length (filter is_normal (take k p)) < length (filter (\<lambda>c. c = ParentDir) (take k p)))
   | Some q \<Rightarrow> RootDir \<notin> set p
       \<and> (\<forall>k. length (filter (\<lambda>c. c = ParentDir) (take k p)) \<le> length (filter is_normal (take k p)))
       \<and> length q = length (filter is_normal p) - length (filter (\<lambda>c. c = ParentDir) p)
       \<and> set q \<subseteq> {s. Normal s \<in> set p}"
proof (cases "normalize_workspace_relative_path p")
  case None
  then show ?thesis using normalize_confined [of p] by (auto simp: confined_def not_le)
next
  case (Some q)
  then have "confined p" using normalize_confined [of p] by auto
  then show ?thesis
    using Some normalize_components_result [of p "[]" q]
    by (auto simp: confined_def normalize_workspace_relative_path_def)
qed

end
