(* ===== verification/Manifest_Trust.thy ===== *)
theory Manifest_Trust
  imports Path_Policy
begin

text \<open>
  The project manifest (\<open>manifest.rs\<close>): its validation and the execution-trust hash over the
  fields that can run commands. TOML parsing and BLAKE3 are parameters; the \<open>sync\<close> and \<open>handoff\<close>
  sections, which neither the validation nor the hash reads, are left out of the record.
\<close>

section \<open>The manifest\<close>

datatype environment_kind = EnvNix | EnvDevcontainer | EnvNative | EnvScript | EnvManual

record environment_profile =
  ep_kind :: environment_kind
  ep_targets :: "string list"
  ep_command :: "string list"
  ep_fingerprint_files :: "string list"
  ep_healthcheck :: "string list option"
  ep_working_directory :: "string option"
  ep_timeout_seconds :: "u64 option"

datatype task_cache_mode = CacheOff | CacheRead | CacheWrite | CacheReadWrite

datatype task_sandbox = SandboxHost | SandboxSandbox | SandboxContainer | SandboxVm

record task_config =
  tc_profile :: string
  tc_command :: "string list"
  tc_platforms :: "string list"
  tc_cpu :: "u64 option"
  tc_memory_mib :: "u64 option"
  tc_disk_mib :: "u64 option"
  tc_interactive :: bool
  tc_cache :: "task_cache_mode option"
  tc_outputs :: "string list"
  tc_timeout_seconds :: "u64 option"
  tc_features :: "string list"
  tc_sandbox :: "task_sandbox option"

record manifest = policy_manifest +
  mf_schema :: u32
  mf_project_id :: string
  mf_name :: string
  mf_environment :: "(string, environment_profile) btree_map option"
  mf_tasks :: "(string, task_config) btree_map"

section \<open>Validation\<close>

text \<open>The \<open>{:?}\<close> rendering of a string; bytes above ASCII are kept.\<close>

definition debug_char :: "char \<Rightarrow> string" where
  "debug_char c =
     (if c = CHR 0x22 then [CHR 0x5C, CHR 0x22] else if c = CHR 0x5C then [CHR 0x5C, CHR 0x5C]
      else if c = CHR 0x0A then [CHR 0x5C, CHR ''n''] else if c = CHR 0x0D then [CHR 0x5C, CHR ''r'']
      else if c = CHR 0x09 then [CHR 0x5C, CHR ''t''] else if c = CHR 0x00 then [CHR 0x5C, CHR ''0'']
      else [c])"

definition debug_str :: "string \<Rightarrow> string" where
  "debug_str s = [CHR 0x22] @ concat (map debug_char s) @ [CHR 0x22]"

fun check_all :: "('a \<Rightarrow> unit result) \<Rightarrow> 'a list \<Rightarrow> unit result" where
  "check_all f [] = Inr ()"
| "check_all f (x # xs) = bind_r (f x) (\<lambda>_. check_all f xs)"

fun check_unique :: "string \<Rightarrow> string list \<Rightarrow> string set \<Rightarrow> unit result" where
  "check_unique field [] seen = Inr ()"
| "check_unique field (v # vs) seen =
     (if v \<in> seen then Inl (Manifest (field @ '' contains duplicate value '' @ debug_str v))
      else check_unique field vs (insert v seen))"

definition validate_unique :: "string \<Rightarrow> string list \<Rightarrow> unit result" where
  "validate_unique field vs = check_unique field vs {}"

definition validate_command :: "string \<Rightarrow> string list \<Rightarrow> unit result" where
  "validate_command field vs =
     (if vs = [] \<or> list_ex (\<lambda>v. v = []) vs
      then Inl (Manifest (field @ '' must contain at least one non-empty argument'')) else Inr ())"

definition validate_non_empty_string_array :: "string \<Rightarrow> string list \<Rightarrow> unit result" where
  "validate_non_empty_string_array field vs =
     (if vs = [] \<or> list_ex (\<lambda>v. v = []) vs
      then Inl (Manifest (field @ '' must contain at least one non-empty value''))
      else validate_unique field vs)"

definition validate_optional_string_array :: "string \<Rightarrow> string list \<Rightarrow> unit result" where
  "validate_optional_string_array field vs =
     (if list_ex (\<lambda>v. v = []) vs then Inl (Manifest (field @ '' must not contain empty values''))
      else validate_unique field vs)"

definition validate_task_resource_hints :: "string \<Rightarrow> task_config \<Rightarrow> unit result" where
  "validate_task_resource_hints name t =
     (if (case tc_cpu t of None \<Rightarrow> False | Some cpu \<Rightarrow> \<not> (1 \<le> cpu \<and> cpu \<le> 1024))
      then Inl (Manifest (''tasks.'' @ name @ ''.cpu must be between 1 and 1024''))
      else if (case tc_memory_mib t of None \<Rightarrow> False | Some mib \<Rightarrow> mib < 64)
      then Inl (Manifest (''tasks.'' @ name @ ''.memory_mib must be at least 64''))
      else Inr ())"

definition validate_profile :: "string \<times> environment_profile \<Rightarrow> unit result" where
  "validate_profile np = (case np of (name, p) \<Rightarrow>
     let pre = ''environment.profiles.'' @ name in
     bind_r (validate_non_empty_string_array (pre @ ''.targets'') (ep_targets p)) (\<lambda>_.
     bind_r (validate_command (pre @ ''.command'') (ep_command p)) (\<lambda>_.
     bind_r (validate_unique (pre @ ''.fingerprint_files'') (ep_fingerprint_files p)) (\<lambda>_.
     case ep_healthcheck p of
       None \<Rightarrow> Inr ()
     | Some h \<Rightarrow> validate_command (pre @ ''.healthcheck'') h))))"

definition validate_secret :: "string \<times> secret_config \<Rightarrow> unit result" where
  "validate_secret ns = (case ns of (name, s) \<Rightarrow>
     if sf_target s = [] then Inl (Manifest (''secrets.'' @ name @ ''.target must not be empty''))
     else Inr ())"

definition validate_task :: "(string, environment_profile) btree_map option \<Rightarrow> string \<times> task_config \<Rightarrow> unit result" where
  "validate_task env nt = (case nt of (name, t) \<Rightarrow>
     let pre = ''tasks.'' @ name in
     if tc_profile t = [] then Inl (Manifest (pre @ ''.profile must not be empty''))
     else (case env of
       None \<Rightarrow> Inl (Manifest (pre @ ''.profile requires an environment profile''))
     | Some profiles \<Rightarrow>
         if bt_get profiles (tc_profile t) = None
         then Inl (Manifest (pre @ ''.profile references unknown environment profile '' @ debug_str (tc_profile t)))
         else
           bind_r (validate_command (pre @ ''.command'') (tc_command t)) (\<lambda>_.
           bind_r (validate_optional_string_array (pre @ ''.platforms'') (tc_platforms t)) (\<lambda>_.
           bind_r (validate_optional_string_array (pre @ ''.outputs'') (tc_outputs t)) (\<lambda>_.
           bind_r (validate_optional_string_array (pre @ ''.features'') (tc_features t)) (\<lambda>_.
           validate_task_resource_hints name t))))))"

definition validate_manifest :: "manifest \<Rightarrow> unit result" where
  "validate_manifest m =
     (if mf_schema m \<noteq> 1
      then Inl (Manifest (''unsupported schema '' @ dec_u64 (mf_schema m) @ '', expected 1''))
      else if length (mf_project_id m) < 8
      then Inl (Manifest ''project_id must be at least 8 characters'')
      else if mf_name m = [] \<or> 128 < length (mf_name m)
      then Inl (Manifest ''name must be between 1 and 128 characters'')
      else if pm_large_file_threshold_mib m = 0 \<or> 102400 < pm_large_file_threshold_mib m
      then Inl (Manifest ''large_file_threshold_mib must be between 1 and 102400'')
      else
        bind_r (validate_unique ''workspace.exclude.patterns'' (pm_exclude m)) (\<lambda>_.
        bind_r (validate_unique ''workspace.include.patterns'' (pm_include m)) (\<lambda>_.
        bind_r (validate_optional_string_array ''workspace.secret_scanner.filename_patterns''
          (sc_filename_patterns (pm_scanner m))) (\<lambda>_.
        bind_r (validate_optional_string_array ''workspace.secret_scanner.content_markers''
          (sc_content_markers (pm_scanner m))) (\<lambda>_.
        bind_r (validate_optional_string_array ''workspace.secret_scanner.token_prefixes''
          (sc_token_prefixes (pm_scanner m))) (\<lambda>_.
        bind_r (case mf_environment m of None \<Rightarrow> Inr () | Some ps \<Rightarrow> check_all validate_profile ps) (\<lambda>_.
        bind_r (check_all validate_secret (pm_secrets m)) (\<lambda>_.
        check_all (validate_task (mf_environment m)) (mf_tasks m)))))))))"

section \<open>The execution-trust hash\<close>

text \<open>
  The hasher is fed a byte string; \<open>update_hash_field\<close> appends a zero byte to each field.
\<close>

definition hash_field :: "string \<Rightarrow> string" where
  "hash_field v = v @ [CHR 0x00]"

definition hash_command :: "string \<Rightarrow> string list \<Rightarrow> string" where
  "hash_command field vs = hash_field field @ concat (map hash_field vs)"

definition profile_hash_input :: "string \<times> environment_profile \<Rightarrow> string" where
  "profile_hash_input np = (case np of (name, p) \<Rightarrow>
     hash_field ''environment.profile'' @ hash_field name @ hash_command ''command'' (ep_command p)
     @ (case ep_healthcheck p of None \<Rightarrow> [] | Some h \<Rightarrow> hash_command ''healthcheck'' h))"

definition task_hash_input :: "string \<times> task_config \<Rightarrow> string" where
  "task_hash_input nt = (case nt of (name, t) \<Rightarrow>
     hash_field ''task'' @ hash_field name @ hash_field (tc_profile t) @ hash_command ''command'' (tc_command t))"

definition execution_trust_input :: "manifest \<Rightarrow> string" where
  "execution_trust_input m =
     hash_field ''devrelay.execution-trust.v1''
     @ (case mf_environment m of None \<Rightarrow> [] | Some ps \<Rightarrow> concat (map profile_hash_input ps))
     @ concat (map task_hash_input (mf_tasks m))"

definition execution_trust_hash :: "(string \<Rightarrow> string) \<Rightarrow> manifest \<Rightarrow> string" where
  "execution_trust_hash blake3 m = blake3 (execution_trust_input m)"

definition le_bytes_u64 :: "u64 \<Rightarrow> string" where
  "le_bytes_u64 w = map (\<lambda>i. char_of (unat w div 256 ^ i mod 256)) [0..<8]"

definition resolve_fingerprint_file :: "string \<Rightarrow> string result" where
  "resolve_fingerprint_file relative =
     (if list_ex (\<lambda>c. c = ParentDir \<or> c = RootDir) (path_components relative)
      then Inl (Manifest (''fingerprint file path must stay inside the manifest root: '' @ debug_str relative))
      else Inr relative)"

definition fingerprint_file_input ::
    "(string \<Rightarrow> string + string) \<Rightarrow> string \<Rightarrow> string \<Rightarrow> string result" where
  "fingerprint_file_input read profile relative =
     bind_r (resolve_fingerprint_file relative) (\<lambda>path.
     case read path of
       Inl err \<Rightarrow> Inl (Manifest (''failed to read environment.profiles.'' @ profile
                   @ ''.fingerprint_files entry '' @ debug_str relative @ '': '' @ err))
     | Inr bs \<Rightarrow> Inr (hash_field ''environment.profile.fingerprint_file'' @ hash_field profile
                   @ hash_field relative @ le_bytes_u64 (of_nat (length bs)) @ [CHR 0x00] @ bs @ [CHR 0x00]))"

fun concat_results :: "('a \<Rightarrow> string result) \<Rightarrow> 'a list \<Rightarrow> string result" where
  "concat_results f [] = Inr []"
| "concat_results f (x # xs) = bind_r (f x) (\<lambda>s. bind_r (concat_results f xs) (\<lambda>t. Inr (s @ t)))"

definition fingerprint_files_input :: "(string \<Rightarrow> string + string) \<Rightarrow> manifest \<Rightarrow> string result" where
  "fingerprint_files_input read m =
     (case mf_environment m of
        None \<Rightarrow> Inr []
      | Some ps \<Rightarrow> concat_results (\<lambda>(name, p).
          concat_results (fingerprint_file_input read name) (sort (ep_fingerprint_files p))) ps)"

definition execution_trust_hash_with_files ::
    "(string \<Rightarrow> string) \<Rightarrow> (string \<Rightarrow> string + string) \<Rightarrow> manifest \<Rightarrow> string result" where
  "execution_trust_hash_with_files blake3 read m =
     bind_r (fingerprint_files_input read m) (\<lambda>files. Inr (blake3 (execution_trust_input m @ files)))"

section \<open>What the hash determines\<close>

definition profiles_of :: "manifest \<Rightarrow> (string \<times> environment_profile) list" where
  "profiles_of m = (case mf_environment m of None \<Rightarrow> [] | Some ps \<Rightarrow> ps)"

text \<open>The fields of a manifest that can run commands.\<close>

definition profile_content :: "string \<times> environment_profile \<Rightarrow> string \<times> string list \<times> string list option" where
  "profile_content np = (fst np, ep_command (snd np), ep_healthcheck (snd np))"

definition task_content :: "string \<times> task_config \<Rightarrow> string \<times> string \<times> string list" where
  "task_content nt = (fst nt, tc_profile (snd nt), tc_command (snd nt))"

definition executable_content ::
    "manifest \<Rightarrow> (string \<times> string list \<times> string list option) list \<times> (string \<times> string \<times> string list) list" where
  "executable_content m = (map profile_content (profiles_of m), map task_content (mf_tasks m))"

fun profile_fields :: "string \<times> string list \<times> string list option \<Rightarrow> string list" where
  "profile_fields (n, c, h) = ''environment.profile'' # n # ''command'' # c
     @ (case h of None \<Rightarrow> [] | Some a \<Rightarrow> ''healthcheck'' # a)"

fun task_fields :: "string \<times> string \<times> string list \<Rightarrow> string list" where
  "task_fields (n, p, c) = ''task'' # n # p # ''command'' # c"

definition content_fields ::
    "(string \<times> string list \<times> string list option) list \<times> (string \<times> string \<times> string list) list \<Rightarrow> string list" where
  "content_fields x = ''devrelay.execution-trust.v1'' # concat (map profile_fields (fst x)) @ concat (map task_fields (snd x))"

lemma concat_map_concat: "concat (map (\<lambda>x. concat (map f (g x))) xs) = concat (map f (concat (map g xs)))"
  by (induction xs) auto

lemma trust_input_fields: "execution_trust_input m = concat (map hash_field (content_fields (executable_content m)))"
proof -
  have p: "profile_hash_input = (\<lambda>np. concat (map hash_field (profile_fields (profile_content np))))"
    by (auto simp: profile_hash_input_def hash_command_def profile_content_def fun_eq_iff split: option.split)
  have t: "task_hash_input = (\<lambda>nt. concat (map hash_field (task_fields (task_content nt))))"
    by (auto simp: task_hash_input_def hash_command_def task_content_def fun_eq_iff)
  have e: "(case mf_environment m of None \<Rightarrow> [] | Some ps \<Rightarrow> concat (map f ps)) = concat (map f (profiles_of m))" for f
    by (simp add: profiles_of_def split: option.split)
  show ?thesis
    unfolding execution_trust_input_def e unfolding p t
    by (simp add: content_fields_def executable_content_def comp_def concat_map_concat)
qed

text \<open>Fields without zero bytes can be read back from the byte string.\<close>

lemma hash_fields_inject:
  "\<forall>x\<in>set xs \<union> set ys. CHR 0x00 \<notin> set x \<Longrightarrow>
    concat (map hash_field xs) = concat (map hash_field ys) \<longleftrightarrow> xs = ys"
proof (induction xs arbitrary: ys)
  case Nil
  then show ?case by (cases ys) (auto simp: hash_field_def)
next
  case (Cons x xs)
  show ?case
  proof (cases ys)
    case Nil
    then show ?thesis by (simp add: hash_field_def)
  next
    case (Cons y ys')
    have split: "u @ c # r = v @ c # t \<longleftrightarrow> u = v \<and> r = t" if "c \<notin> set u" "c \<notin> set v"
      for u v r t :: string and c
      using that
    proof (induction u arbitrary: v)
      case Nil
      then show ?case by (cases v) auto
    next
      case (Cons a u)
      then show ?case by (cases v) auto
    qed
    show ?thesis
      using Cons.prems Cons.IH [of ys'] by (simp add: \<open>ys = y # ys'\<close> hash_field_def split)
  qed
qed

text \<open>
  An argument is plain when it is none of the words that start a section of the field list.
\<close>

definition section_words :: "string set" where
  "section_words = {''environment.profile'', ''healthcheck'', ''task''}"

definition sections :: "string list \<Rightarrow> bool" where
  "sections r \<longleftrightarrow> r = [] \<or> hd r \<in> section_words"

lemma plain_args_inject:
  "set a \<inter> section_words = {} \<Longrightarrow> set b \<inter> section_words = {} \<Longrightarrow> sections r \<Longrightarrow> sections t \<Longrightarrow>
    a @ r = b @ t \<longleftrightarrow> a = b \<and> r = t"
proof (induction a arbitrary: b)
  case Nil
  then show ?case by (cases b) (auto simp: sections_def)
next
  case (Cons x a)
  then show ?case by (cases b) (auto simp: sections_def)
qed

definition plain_content ::
    "(string \<times> string list \<times> string list option) list \<times> (string \<times> string \<times> string list) list \<Rightarrow> bool" where
  "plain_content x \<longleftrightarrow>
     (\<forall>(n, c, h)\<in>set (fst x). set c \<inter> section_words = {}
        \<and> (case h of None \<Rightarrow> True | Some a \<Rightarrow> set a \<inter> section_words = {}))
     \<and> (\<forall>(n, p, c)\<in>set (snd x). set c \<inter> section_words = {})"

lemma sections_tasks: "sections (concat (map task_fields ts))"
  by (cases ts) (auto simp: sections_def section_words_def)

lemma sections_profiles: "sections r \<Longrightarrow> sections (concat (map profile_fields ps) @ r)"
  by (cases ps) (auto simp: sections_def section_words_def)

lemma tasks_inject:
  "plain_content ([], ts) \<Longrightarrow> plain_content ([], us) \<Longrightarrow>
    concat (map task_fields ts) = concat (map task_fields us) \<Longrightarrow> ts = us"
proof (induction ts arbitrary: us)
  case Nil
  then show ?case by (cases us) auto
next
  case (Cons t ts)
  obtain u us' where us: "us = u # us'" using Cons.prems(3) by (cases us; cases t) auto
  have "t = u \<and> concat (map task_fields ts) = concat (map task_fields us')"
    using Cons.prems by (cases t; cases u) (auto simp: us plain_content_def plain_args_inject sections_tasks)
  then show ?case using Cons by (auto simp: us plain_content_def)
qed

lemma content_fields_inject:
  assumes "plain_content (ps, ts)" "plain_content (qs, us)"
    and "concat (map profile_fields ps) @ concat (map task_fields ts)
       = concat (map profile_fields qs) @ concat (map task_fields us)"
  shows "ps = qs \<and> ts = us"
  using assms
proof (induction ps arbitrary: qs)
  case Nil
  have "qs = []"
    using Nil.prems(3) by (cases qs; cases ts) auto
  with Nil show ?case by (auto intro!: tasks_inject simp: plain_content_def)
next
  case (Cons p ps)
  obtain q qs' where qs: "qs = q # qs'"
    using Cons.prems(3) by (cases qs; cases p; cases us) auto
  obtain n c h where p: "p = (n, c, h)" by (cases p)
  obtain n' c' h' where q: "q = (n', c', h')" by (cases q)
  let ?r = "concat (map profile_fields ps) @ concat (map task_fields ts)"
  let ?t = "concat (map profile_fields qs') @ concat (map task_fields us)"
  let ?h = "\<lambda>h. case h of None \<Rightarrow> [] | Some a \<Rightarrow> ''healthcheck'' # a"
  have rt: "sections ?r" "sections ?t" by (intro sections_profiles sections_tasks)+
  have hh: "sections (?h h @ ?r)" "sections (?h h' @ ?t)"
    using rt by (auto simp: sections_def section_words_def split: option.split)
  have n: "n = n'" and "c @ (?h h @ ?r) = c' @ (?h h' @ ?t)"
    using Cons.prems(3) by (auto simp: qs p q)
  then have c: "c = c'" and hr: "?h h @ ?r = ?h h' @ ?t"
    using Cons.prems(1,2) hh by (auto simp: qs p q plain_content_def plain_args_inject)
  have nr: "?r \<noteq> ''healthcheck'' # x" for x by (cases ps; cases ts) auto
  have nt: "?t \<noteq> ''healthcheck'' # x" for x by (cases qs'; cases us) auto
  have "h = h' \<and> ?r = ?t"
  proof (cases h)
    case None
    then show ?thesis using hr nr by (cases h') auto
  next
    case (Some a)
    obtain a' where h': "h' = Some a'" using hr nt [symmetric] Some by (cases h') auto
    show ?thesis
      using hr Some h' Cons.prems(1,2) rt by (auto simp: qs p q plain_content_def plain_args_inject)
  qed
  then show ?case
    using Cons.IH [of qs'] Cons.prems(1,2) n c by (auto simp: qs p q plain_content_def)
qed

section \<open>Properties\<close>

definition zero_free :: "manifest \<Rightarrow> bool" where
  "zero_free m \<longleftrightarrow> (\<forall>f\<in>set (content_fields (executable_content m)). CHR 0x00 \<notin> set f)"

text \<open>
  C33. For manifests whose executable fields hold no zero byte and whose arguments are none of
  the words \<open>environment.profile\<close>, \<open>healthcheck\<close> and \<open>task\<close>, the execution-trust hash is equal
  exactly when the executable content is: the names, commands and health checks of the profiles
  and the names, profiles and commands of the tasks, all in order. So every command edit changes
  the hash and no other edit does, provided BLAKE3 does not collide on the two inputs.
\<close>

theorem trust_hash_determines_commands:
  assumes "plain_content (executable_content m1)" "plain_content (executable_content m2)"
    and "zero_free m1" "zero_free m2"
    and "inj_on blake3 {execution_trust_input m1, execution_trust_input m2}"
  shows "execution_trust_hash blake3 m1 = execution_trust_hash blake3 m2
    \<longleftrightarrow> executable_content m1 = executable_content m2"
proof -
  have "execution_trust_hash blake3 m1 = execution_trust_hash blake3 m2
      \<longleftrightarrow> execution_trust_input m1 = execution_trust_input m2"
    using inj_on_eq_iff [OF assms(5), of "execution_trust_input m1" "execution_trust_input m2"]
    by (simp only: execution_trust_hash_def insert_iff simp_thms)
  also have "\<dots> \<longleftrightarrow> content_fields (executable_content m1) = content_fields (executable_content m2)"
  proof -
    have "\<forall>x\<in>set (content_fields (executable_content m1)) \<union> set (content_fields (executable_content m2)).
        CHR 0x00 \<notin> set x"
      using assms(3,4) by (simp only: zero_free_def ball_Un simp_thms)
    from hash_fields_inject [OF this] show ?thesis by (simp only: trust_input_fields)
  qed
  also have "\<dots> \<longleftrightarrow> executable_content m1 = executable_content m2"
    using content_fields_inject [of "fst (executable_content m1)" "snd (executable_content m1)"
        "fst (executable_content m2)" "snd (executable_content m2)"] assms(1,2)
    by (auto simp: content_fields_def prod_eq_iff)
  finally show ?thesis .
qed

definition ex_manifest :: "string list \<Rightarrow> string list option \<Rightarrow> manifest" where
  "ex_manifest command healthcheck = \<lparr>pm_untracked = UntrackedSafe, pm_large_file_threshold_mib = 32,
     pm_exclude = [], pm_include = [],
     pm_scanner = \<lparr>sc_filename_patterns = [], sc_content_markers = [], sc_token_prefixes = []\<rparr>,
     pm_secrets = [], mf_schema = 1, mf_project_id = ''12345678'', mf_name = ''demo'',
     mf_environment = Some [(''dev'', \<lparr>ep_kind = EnvNative, ep_targets = [''linux''], ep_command = command,
        ep_fingerprint_files = [], ep_healthcheck = healthcheck, ep_working_directory = None,
        ep_timeout_seconds = None\<rparr>)], mf_tasks = []\<rparr>"

lemma ex_manifest_content: "executable_content (ex_manifest c h) = ([(''dev'', c, h)], [])"
  by (simp add: executable_content_def ex_manifest_def profiles_of_def profile_content_def)

lemma ex_manifest_valid: "list_all (\<lambda>a. a \<noteq> []) c \<Longrightarrow> c \<noteq> [] \<Longrightarrow>
    (case h of None \<Rightarrow> True | Some a \<Rightarrow> a \<noteq> [] \<and> list_all (\<lambda>x. x \<noteq> []) a) \<Longrightarrow>
    validate_manifest (ex_manifest c h) = Inr ()"
  by (auto simp: validate_manifest_def ex_manifest_def validate_unique_def validate_profile_def Let_def
      validate_optional_string_array_def validate_non_empty_string_array_def validate_command_def
      list_all_iff list_ex_iff word_less_nat_alt split: option.split)

theorem trust_hash_determines_commands_witness:
  "execution_trust_hash (\<lambda>s. s) (ex_manifest [''make''] None)
    \<noteq> execution_trust_hash (\<lambda>s. s) (ex_manifest [''make'', ''all''] None)"
proof -
  have "executable_content (ex_manifest [''make''] None) \<noteq> executable_content (ex_manifest [''make'', ''all''] None)"
    by (simp add: ex_manifest_content)
  moreover have "plain_content (executable_content (ex_manifest c None))"
    "zero_free (ex_manifest c None)" if "c = [''make''] \<or> c = [''make'', ''all'']" for c
    using that by (auto simp: ex_manifest_content plain_content_def section_words_def zero_free_def content_fields_def)
  ultimately show ?thesis
    using trust_hash_determines_commands [of "ex_manifest [''make''] None" "ex_manifest [''make'', ''all''] None" "\<lambda>s. s"]
    by (simp add: inj_on_def)
qed

text \<open>
  Without that restriction the hash does not determine the commands: there are two valid
  manifests that run different commands and have the same execution-trust hash under every hash
  function, with and without fingerprint files. In one a profile has the health check \<open>rm -rf
  build\<close>, in the other the same words are arguments of its command. An approval recorded for one
  is an approval of the other.
\<close>

theorem trust_hash_collision:
  "\<exists>m1 m2. validate_manifest m1 = Inr () \<and> validate_manifest m2 = Inr ()
     \<and> executable_content m1 \<noteq> executable_content m2
     \<and> (\<forall>blake3. execution_trust_hash blake3 m1 = execution_trust_hash blake3 m2)
     \<and> (\<forall>blake3 read. execution_trust_hash_with_files blake3 read m1
          = execution_trust_hash_with_files blake3 read m2)"
proof -
  let ?m1 = "ex_manifest [''sh''] (Some [''rm'', ''-rf'', ''build''])"
  let ?m2 = "ex_manifest [''sh'', ''healthcheck'', ''rm'', ''-rf'', ''build''] None"
  have "execution_trust_input ?m1 = execution_trust_input ?m2"
    by (simp add: trust_input_fields ex_manifest_content content_fields_def)
  moreover have "fingerprint_files_input read ?m1 = fingerprint_files_input read ?m2" for read
    by (simp add: fingerprint_files_input_def ex_manifest_def)
  moreover have "validate_manifest ?m1 = Inr ()" "validate_manifest ?m2 = Inr ()"
    by (simp_all add: ex_manifest_valid)
  moreover have "executable_content ?m1 \<noteq> executable_content ?m2"
    by (simp add: ex_manifest_content)
  ultimately show ?thesis
    by (intro exI [of _ ?m1] exI [of _ ?m2])
      (simp add: execution_trust_hash_def execution_trust_hash_with_files_def)
qed

end
