(* ===== verification/Task_Model.thy ===== *)
theory Task_Model
  imports Manifest_Trust
begin

text \<open>
  Task definitions resolved from a manifest (\<open>task_model.rs\<close>): the lookup of a task and its
  profile, the canonical order of its lists, and the command definition hash that labels task
  snapshots and keys cached results.
\<close>

record task_definition =
  td_project_id :: string
  td_task_name :: string
  td_profile_name :: string
  td_profile_kind :: environment_kind
  td_command :: "string list"
  td_platforms :: "string list"
  td_cpu :: "u64 option"
  td_memory_mib :: "u64 option"
  td_disk_mib :: "u64 option"
  td_interactive :: bool
  td_cache :: "task_cache_mode option"
  td_outputs :: "string list"
  td_features :: "string list"
  td_sandbox :: "task_sandbox option"
  td_command_definition_hash :: string

fun environment_kind_debug :: "environment_kind \<Rightarrow> string" where
  "environment_kind_debug EnvNix = ''Nix''"
| "environment_kind_debug EnvDevcontainer = ''Devcontainer''"
| "environment_kind_debug EnvNative = ''Native''"
| "environment_kind_debug EnvScript = ''Script''"
| "environment_kind_debug EnvManual = ''Manual''"

fun task_cache_mode_debug :: "task_cache_mode \<Rightarrow> string" where
  "task_cache_mode_debug CacheOff = ''Off''"
| "task_cache_mode_debug CacheRead = ''Read''"
| "task_cache_mode_debug CacheWrite = ''Write''"
| "task_cache_mode_debug CacheReadWrite = ''ReadWrite''"

fun task_sandbox_debug :: "task_sandbox \<Rightarrow> string" where
  "task_sandbox_debug SandboxHost = ''Host''"
| "task_sandbox_debug SandboxSandbox = ''Sandbox''"
| "task_sandbox_debug SandboxContainer = ''Container''"
| "task_sandbox_debug SandboxVm = ''Vm''"

definition hash_sorted_values :: "string \<Rightarrow> string list \<Rightarrow> string" where
  "hash_sorted_values field vs = hash_field field @ concat (map hash_field (sort vs))"

definition hash_optional :: "('a \<Rightarrow> string) \<Rightarrow> string \<Rightarrow> 'a option \<Rightarrow> string" where
  "hash_optional show_value field v = hash_field field
     @ (case v of None \<Rightarrow> hash_field ''none'' | Some x \<Rightarrow> hash_field (show_value x))"

definition task_command_definition_input :: "string \<Rightarrow> string \<Rightarrow> task_config \<Rightarrow> environment_profile \<Rightarrow> string" where
  "task_command_definition_input project name t p =
     hash_field ''devrelay.task-command.v1'' @ hash_field project @ hash_field name
     @ hash_field (tc_profile t)
     @ hash_command ''task.command'' (tc_command t)
     @ hash_sorted_values ''task.platforms'' (tc_platforms t)
     @ hash_optional dec_u64 ''task.cpu'' (tc_cpu t)
     @ hash_optional dec_u64 ''task.memory_mib'' (tc_memory_mib t)
     @ hash_optional dec_u64 ''task.disk_mib'' (tc_disk_mib t)
     @ hash_field ''task.interactive'' @ hash_field (if tc_interactive t then ''true'' else ''false'')
     @ hash_optional task_cache_mode_debug ''task.cache'' (tc_cache t)
     @ hash_sorted_values ''task.outputs'' (tc_outputs t)
     @ hash_sorted_values ''task.features'' (tc_features t)
     @ hash_optional task_sandbox_debug ''task.sandbox'' (tc_sandbox t)
     @ hash_field ''profile.kind'' @ hash_field (environment_kind_debug (ep_kind p))
     @ hash_sorted_values ''profile.targets'' (ep_targets p)
     @ hash_command ''profile.command'' (ep_command p)
     @ hash_sorted_values ''profile.fingerprint_files'' (ep_fingerprint_files p)
     @ (case ep_healthcheck p of
          None \<Rightarrow> hash_field ''profile.healthcheck.none''
        | Some h \<Rightarrow> hash_command ''profile.healthcheck'' h)
     @ hash_optional (\<lambda>s. s) ''profile.working_directory'' (ep_working_directory p)
     @ hash_optional dec_u64 ''profile.timeout_seconds'' (ep_timeout_seconds p)"

definition profile_for_task :: "manifest \<Rightarrow> string \<Rightarrow> task_config \<Rightarrow> environment_profile result" where
  "profile_for_task m name t =
     (case (case mf_environment m of None \<Rightarrow> None | Some ps \<Rightarrow> bt_get ps (tc_profile t)) of
        None \<Rightarrow> Inl (Config (''task '' @ debug_str name @ '' references unknown environment profile ''
                  @ debug_str (tc_profile t)))
      | Some p \<Rightarrow> Inr p)"

definition find_task :: "manifest \<Rightarrow> string \<Rightarrow> task_config result" where
  "find_task m name = (case bt_get (mf_tasks m) name of
     None \<Rightarrow> Inl (Config (''unknown task definition '' @ debug_str name)) | Some t \<Rightarrow> Inr t)"

definition task_command_definition_hash ::
    "(string \<Rightarrow> string) \<Rightarrow> manifest \<Rightarrow> string \<Rightarrow> string result" where
  "task_command_definition_hash blake3 m name =
     bind_r (find_task m name) (\<lambda>t. bind_r (profile_for_task m name t) (\<lambda>p.
     Inr (blake3 (task_command_definition_input (mf_project_id m) name t p))))"

definition task_definition_of :: "(string \<Rightarrow> string) \<Rightarrow> manifest \<Rightarrow> string \<Rightarrow> task_definition result" where
  "task_definition_of blake3 m name =
     bind_r (find_task m name) (\<lambda>t. bind_r (profile_for_task m name t) (\<lambda>p.
     Inr \<lparr>td_project_id = mf_project_id m, td_task_name = name, td_profile_name = tc_profile t,
          td_profile_kind = ep_kind p, td_command = tc_command t, td_platforms = sort (tc_platforms t),
          td_cpu = tc_cpu t, td_memory_mib = tc_memory_mib t, td_disk_mib = tc_disk_mib t,
          td_interactive = tc_interactive t, td_cache = tc_cache t, td_outputs = sort (tc_outputs t),
          td_features = sort (tc_features t), td_sandbox = tc_sandbox t,
          td_command_definition_hash =
            blake3 (task_command_definition_input (mf_project_id m) name t p)\<rparr>))"

fun named_results :: "('a \<Rightarrow> 'b result) \<Rightarrow> 'a list \<Rightarrow> ('a \<times> 'b) list result" where
  "named_results f [] = Inr []"
| "named_results f (x # xs) = bind_r (f x) (\<lambda>y. bind_r (named_results f xs) (\<lambda>ys. Inr ((x, y) # ys)))"

definition task_definitions_from_manifest ::
    "(string \<Rightarrow> string) \<Rightarrow> manifest \<Rightarrow> (string, task_definition) btree_map result" where
  "task_definitions_from_manifest blake3 m = named_results (task_definition_of blake3 m) (bt_keys (mf_tasks m))"

definition task_execution_snapshot_label :: "task_definition \<Rightarrow> string" where
  "task_execution_snapshot_label d =
     ''task:'' @ td_task_name d @ '':'' @ take 12 (td_command_definition_hash d)"

section \<open>Every task of a valid manifest resolves\<close>

lemma check_all_Inr: "check_all f xs = Inr () \<longleftrightarrow> (\<forall>x\<in>set xs. f x = Inr ())"
  by (induction xs) (auto simp: tx_simps)

lemma named_results_total:
  "\<forall>x\<in>set xs. \<exists>y. f x = Inr y \<Longrightarrow> \<exists>ys. named_results f xs = Inr ys \<and> map fst ys = xs
     \<and> (\<forall>(x, y)\<in>set ys. f x = Inr y)"
proof (induction xs)
  case (Cons x xs)
  then obtain y ys where "f x = Inr y" "named_results f xs = Inr ys" "map fst ys = xs"
    "\<forall>(x, y)\<in>set ys. f x = Inr y" by auto
  then show ?case by auto
qed simp

lemma valid_task_resolves:
  assumes "validate_manifest m = Inr ()" "bt_get (mf_tasks m) name = Some t"
  shows "\<exists>p. profile_for_task m name t = Inr p"
proof -
  have "(name, t) \<in> set (mf_tasks m)" using assms(2) by (simp add: bt_get_in)
  moreover have "check_all (validate_task (mf_environment m)) (mf_tasks m) = Inr ()"
    using assms(1) unfolding validate_manifest_def by (simp only: tx_simps) blast
  ultimately have v: "validate_task (mf_environment m) (name, t) = Inr ()"
    by (simp only: check_all_Inr)
  show ?thesis
  proof (cases "mf_environment m")
    case None
    then show ?thesis using v by (simp add: validate_task_def Let_def split: if_splits)
  next
    case (Some ps)
    then have "bt_get ps (tc_profile t) \<noteq> None"
      using v by (simp add: validate_task_def Let_def split: if_splits)
    then show ?thesis using Some by (auto simp: profile_for_task_def)
  qed
qed

lemma valid_tasks_total:
  assumes "validate_manifest m = Inr ()"
  shows "\<exists>ds. task_definitions_from_manifest blake3 m = Inr ds \<and> map fst ds = map fst (mf_tasks m)"
proof -
  have "\<exists>d. task_definition_of blake3 m name = Inr d" if "name \<in> set (bt_keys (mf_tasks m))" for name
  proof -
    have "bt_get (mf_tasks m) name \<noteq> None"
      using that unfolding bt_keys_def bt_get_def map_of_eq_None_iff by simp
    then obtain t where t: "bt_get (mf_tasks m) name = Some t" by blast
    then show ?thesis
      using valid_task_resolves [OF assms t] by (auto simp: task_definition_of_def find_task_def)
  qed
  then show ?thesis
    using named_results_total [of "bt_keys (mf_tasks m)" "task_definition_of blake3 m"]
    by (auto simp: task_definitions_from_manifest_def bt_keys_def)
qed

text \<open>
  The lists are hashed without their lengths: moving a word from the platforms to the end of the
  command can leave the hash input unchanged.
\<close>

lemma task_hash_collision:
  "task_command_definition_input pr name (t\<lparr>tc_command := c, tc_platforms := [''task.platforms'']\<rparr>) p
   = task_command_definition_input pr name (t\<lparr>tc_command := c @ [''task.platforms''], tc_platforms := []\<rparr>) p"
  by (simp add: task_command_definition_input_def hash_command_def hash_sorted_values_def)

end
