(* ===== verification/Hydration.thy ===== *)
theory Hydration
  imports Error_Model
begin

text \<open>
  The environment hydration state machine (\<open>hydration.rs\<close>). The clock is an argument; saving and
  loading the record as JSON is file access.
\<close>

section \<open>The machine\<close>

datatype hydration_state = HyCold | HyMetadataReady | HyCacheReady | HyShellReady | HyAppReady | HyFailed

datatype hydration_transition =
    MetadataPrepared | CachePrepared | ShellPrepared | AppPrepared | TransFailed | TransRetry

fun hydration_state_debug :: "hydration_state \<Rightarrow> string" where
  "hydration_state_debug HyCold = ''Cold''"
| "hydration_state_debug HyMetadataReady = ''MetadataReady''"
| "hydration_state_debug HyCacheReady = ''CacheReady''"
| "hydration_state_debug HyShellReady = ''ShellReady''"
| "hydration_state_debug HyAppReady = ''AppReady''"
| "hydration_state_debug HyFailed = ''Failed''"

fun hydration_transition_debug :: "hydration_transition \<Rightarrow> string" where
  "hydration_transition_debug MetadataPrepared = ''MetadataPrepared''"
| "hydration_transition_debug CachePrepared = ''CachePrepared''"
| "hydration_transition_debug ShellPrepared = ''ShellPrepared''"
| "hydration_transition_debug AppPrepared = ''AppPrepared''"
| "hydration_transition_debug TransFailed = ''Failed''"
| "hydration_transition_debug TransRetry = ''Retry''"

record hydration_record =
  hy_project_id :: string
  hy_workspace_id :: "string option"
  hy_state :: hydration_state
  hy_attempt :: u32
  hy_failure :: "string option"
  hy_started_at :: "u64 option"
  hy_ready_at :: "u64 option"
  hy_updated_at :: u64

definition new_hydration :: "string \<Rightarrow> string option \<Rightarrow> u64 \<Rightarrow> hydration_record" where
  "new_hydration project workspace now =
     \<lparr>hy_project_id = project, hy_workspace_id = workspace, hy_state = HyCold, hy_attempt = 1,
      hy_failure = None, hy_started_at = Some now, hy_ready_at = None, hy_updated_at = now\<rparr>"

record hydration_progress =
  hp_project_id :: string
  hp_workspace_id :: "string option"
  hp_previous_state :: "hydration_state option"
  hp_state :: hydration_state
  hp_transition :: hydration_transition
  hp_attempt :: u32
  hp_failure :: "string option"
  hp_updated_at :: u64

fun hydration_next :: "hydration_state \<Rightarrow> hydration_transition \<Rightarrow> hydration_state option" where
  "hydration_next HyCold MetadataPrepared = Some HyMetadataReady"
| "hydration_next HyMetadataReady CachePrepared = Some HyCacheReady"
| "hydration_next HyCacheReady ShellPrepared = Some HyShellReady"
| "hydration_next HyShellReady AppPrepared = Some HyAppReady"
| "hydration_next HyFailed TransRetry = Some HyCold"
| "hydration_next _ TransFailed = Some HyFailed"
| "hydration_next _ _ = None"

definition note_transition :: "hydration_transition \<Rightarrow> u64 \<Rightarrow> string option \<Rightarrow> hydration_record \<Rightarrow> hydration_record" where
  "note_transition t now failure r =
     (if t = TransRetry
      then r\<lparr>hy_attempt := sat_add (hy_attempt r) 1, hy_failure := None, hy_started_at := Some now,
             hy_ready_at := None\<rparr>
      else if t = TransFailed
      then (let r1 = r\<lparr>hy_failure := failure\<rparr>
            in if hy_started_at r1 = None then r1\<lparr>hy_started_at := Some now\<rparr> else r1)
      else r\<lparr>hy_failure := None\<rparr>)"

definition apply_hydration :: "hydration_transition \<Rightarrow> u64 \<Rightarrow> string option \<Rightarrow> hydration_record
    \<Rightarrow> hydration_record \<times> hydration_progress result" where
  "apply_hydration t now failure r =
     (case hydration_next (hy_state r) t of
        None \<Rightarrow> (r, Inl (Config (''illegal hydration transition '' @ hydration_state_debug (hy_state r)
                  @ '' -> '' @ hydration_transition_debug t)))
      | Some next \<Rightarrow>
          let r1 = note_transition t now failure r;
              r2 = (if (t = ShellPrepared \<or> t = AppPrepared) \<and> hy_ready_at r1 = None
                    then r1\<lparr>hy_ready_at := Some now\<rparr> else r1);
              r3 = r2\<lparr>hy_state := next, hy_updated_at := now\<rparr>
          in (r3, Inr \<lparr>hp_project_id = hy_project_id r3, hp_workspace_id = hy_workspace_id r3,
                       hp_previous_state = Some (hy_state r), hp_state = hy_state r3, hp_transition = t,
                       hp_attempt = hy_attempt r3, hp_failure = hy_failure r3, hp_updated_at = now\<rparr>))"

section \<open>Runs\<close>

text \<open>A run applies legal transitions, each with its time and failure text.\<close>

inductive hydration_run :: "hydration_record \<Rightarrow> (hydration_transition \<times> u64 \<times> string option) list
    \<Rightarrow> hydration_record \<Rightarrow> bool" for r where
  hr_start: "hydration_run r [] r"
| hr_step: "hydration_run r ts a \<Longrightarrow> apply_hydration t now failure a = (b, Inr p) \<Longrightarrow>
     hydration_run r (ts @ [(t, now, failure)]) b"

fun hydrate :: "hydration_record \<Rightarrow> (hydration_transition \<times> u64 \<times> string option) list \<Rightarrow> hydration_record option" where
  "hydrate r [] = Some r"
| "hydrate r ((t, now, failure) # ts) = (case apply_hydration t now failure r of
     (b, Inl _) \<Rightarrow> None | (b, Inr _) \<Rightarrow> hydrate b ts)"

lemma hydrate_run: "hydration_run r pre a \<Longrightarrow> hydrate a ts = Some b \<Longrightarrow> hydration_run r (pre @ ts) b"
proof (induction ts arbitrary: pre a)
  case (Cons x ts)
  obtain t now f where x: "x = (t, now, f)" by (cases x)
  obtain d res where d: "apply_hydration t now f a = (d, res)" by (cases "apply_hydration t now f a")
  with Cons.prems(2) x obtain pr where "res = Inr pr" "hydrate d ts = Some b" by (cases res) auto
  with Cons.IH [OF hr_step [OF Cons.prems(1)]] d x show ?case by fastforce
qed simp

lemma hydration_next_Some:
  "hydration_next s t = Some n \<longleftrightarrow>
     (t = TransFailed \<and> n = HyFailed) \<or> (s = HyFailed \<and> t = TransRetry \<and> n = HyCold)
     \<or> (s, t, n) \<in> {(HyCold, MetadataPrepared, HyMetadataReady), (HyMetadataReady, CachePrepared, HyCacheReady),
                    (HyCacheReady, ShellPrepared, HyShellReady), (HyShellReady, AppPrepared, HyAppReady)}"
  by (cases s; cases t) auto

lemma apply_hydration_InrD:
  assumes "apply_hydration t now failure a = (b, Inr p)"
  shows "hydration_next (hy_state a) t = Some (hy_state b)"
    "hy_attempt b = (if t = TransRetry then sat_add (hy_attempt a) 1 else hy_attempt a)"
    "hy_failure b = (if t = TransFailed then failure else None)"
    "hy_ready_at b = (if t = TransRetry then None
       else if (t = ShellPrepared \<or> t = AppPrepared) \<and> hy_ready_at a = None then Some now else hy_ready_at a)"
    "hy_started_at b = (if t = TransRetry \<or> t = TransFailed \<and> hy_started_at a = None then Some now else hy_started_at a)"
proof -
  obtain n where n: "hydration_next (hy_state a) t = Some n"
    and b: "b = fst (apply_hydration t now failure a)"
    using assms by (cases "hydration_next (hy_state a) t") (simp_all add: apply_hydration_def)
  show "hydration_next (hy_state a) t = Some (hy_state b)"
    using n unfolding b by (simp add: apply_hydration_def Let_def)
  show "hy_attempt b = (if t = TransRetry then sat_add (hy_attempt a) 1 else hy_attempt a)"
    "hy_failure b = (if t = TransFailed then failure else None)"
    "hy_ready_at b = (if t = TransRetry then None
       else if (t = ShellPrepared \<or> t = AppPrepared) \<and> hy_ready_at a = None then Some now else hy_ready_at a)"
    "hy_started_at b = (if t = TransRetry \<or> t = TransFailed \<and> hy_started_at a = None then Some now else hy_started_at a)"
    using n unfolding b by (auto simp: apply_hydration_def note_transition_def Let_def)
qed

text \<open>The stages a run has completed since it last was cold.\<close>

fun stages :: "hydration_state \<Rightarrow> hydration_transition list" where
  "stages HyMetadataReady = [MetadataPrepared]"
| "stages HyCacheReady = [MetadataPrepared, CachePrepared]"
| "stages HyShellReady = [MetadataPrepared, CachePrepared, ShellPrepared]"
| "stages HyAppReady = [MetadataPrepared, CachePrepared, ShellPrepared, AppPrepared]"
| "stages _ = []"

definition retries :: "(hydration_transition \<times> u64 \<times> string option) list \<Rightarrow> nat" where
  "retries ts = length (filter (\<lambda>(t, _). t = TransRetry) ts)"

lemma run_stages:
  "hydration_run (new_hydration p w t0) ts b \<Longrightarrow> \<exists>pre. map fst ts = pre @ stages (hy_state b)"
proof (induction rule: hydration_run.induct)
  case hr_start then show ?case by (simp add: new_hydration_def)
next
  case (hr_step ts a t now failure b pr)
  then obtain pre where pre: "map fst ts = pre @ stages (hy_state a)" by blast
  have "stages (hy_state b) = stages (hy_state a) @ [t] \<or> stages (hy_state b) = []"
    using apply_hydration_InrD(1) [OF hr_step(2)] by (auto simp: hydration_next_Some)
  with pre show ?case by auto
qed

lemma run_record:
  "hydration_run (new_hydration p w t0) ts b \<Longrightarrow>
     unat (hy_attempt b) = min (Suc (retries ts)) (2 ^ 32 - 1)
     \<and> hy_started_at b \<noteq> None
     \<and> (hy_state b \<in> {HyShellReady, HyAppReady} \<longrightarrow> hy_ready_at b \<noteq> None)
     \<and> (hy_state b \<in> {HyCold, HyMetadataReady, HyCacheReady} \<longrightarrow> hy_ready_at b = None)
     \<and> (hy_state b \<noteq> HyFailed \<longrightarrow> hy_failure b = None)"
proof (induction rule: hydration_run.induct)
  case hr_start then show ?case by (simp add: new_hydration_def retries_def)
next
  case (hr_step ts a t now failure b pr)
  note e = apply_hydration_InrD [OF hr_step(2)]
  have r: "retries (ts @ [(t, now, failure)]) = retries ts + (if t = TransRetry then 1 else 0)"
    by (simp add: retries_def)
  have att: "unat (hy_attempt b) = min (Suc (retries (ts @ [(t, now, failure)]))) (2 ^ 32 - 1)"
    unfolding e(2) r using hr_step.IH by (simp add: u64_simps min_def)
  from e(1) consider "t = TransFailed" "hy_state b = HyFailed"
    | "t = TransRetry" "hy_state b = HyCold"
    | "(hy_state a, t, hy_state b) \<in> {(HyCold, MetadataPrepared, HyMetadataReady),
        (HyMetadataReady, CachePrepared, HyCacheReady), (HyCacheReady, ShellPrepared, HyShellReady),
        (HyShellReady, AppPrepared, HyAppReady)}"
    unfolding hydration_next_Some by blast
  then show ?case
  proof cases
    case 1 with att hr_step.IH show ?thesis by (simp add: e(3,4,5))
  next
    case 2 with att show ?thesis by (simp add: e(3,4,5))
  next
    case 3 with att hr_step.IH show ?thesis by (elim insertE emptyE) (simp_all add: e(3,4,5))
  qed
qed

text \<open>
  An environment is reported ready only after its stages: a run that ends in the ready state
  ends with the metadata, cache, shell and application stages in this order with nothing between
  them; a failure is reported only in the failed state, the time of readiness only once the shell
  is ready, and the attempt number counts the retries (up to the largest 32-bit number).
\<close>

theorem ready_after_all_stages:
  assumes "hydration_run (new_hydration p w t0) ts b"
  shows "(case hy_state b of
      HyAppReady \<Rightarrow> (\<exists>pre. map fst ts = pre @ [MetadataPrepared, CachePrepared, ShellPrepared, AppPrepared])
    | HyShellReady \<Rightarrow> (\<exists>pre. map fst ts = pre @ [MetadataPrepared, CachePrepared, ShellPrepared])
    | _ \<Rightarrow> True)
    \<and> unat (hy_attempt b) = min (Suc (retries ts)) (2 ^ 32 - 1)
    \<and> (hy_state b \<in> {HyShellReady, HyAppReady} \<longrightarrow> hy_ready_at b \<noteq> None)
    \<and> (hy_state b \<in> {HyCold, HyMetadataReady, HyCacheReady} \<longrightarrow> hy_ready_at b = None)
    \<and> (hy_state b \<noteq> HyFailed \<longrightarrow> hy_failure b = None)"
  using run_stages [OF assms] run_record [OF assms] by (cases "hy_state b") simp_all

theorem ready_after_all_stages_witness:
  "\<exists>b ts. hydration_run (new_hydration ''p'' None 5) ts b \<and> hy_state b = HyShellReady \<and> hy_ready_at b = Some 9
     \<and> unat (hy_attempt b) = 2"
proof -
  let ?ts = "[(MetadataPrepared, 6, None), (TransFailed, 7, Some ''disk''), (TransRetry, 8, None),
    (MetadataPrepared, 8, None), (CachePrepared, 8, None), (ShellPrepared, 9 :: u64, None :: string option)]"
  let ?b = "\<lparr>hy_project_id = ''p'', hy_workspace_id = None, hy_state = HyShellReady, hy_attempt = 2,
      hy_failure = None, hy_started_at = Some 8, hy_ready_at = Some 9, hy_updated_at = 9\<rparr>"
  have "hydrate (new_hydration ''p'' None 5) ?ts = Some ?b"
    by (simp add: new_hydration_def apply_hydration_def note_transition_def Let_def sat_add_def)
  from hydrate_run [OF hr_start this] have run: "hydration_run (new_hydration ''p'' None 5) ?ts ?b" by simp
  from ready_after_all_stages [OF run] run show ?thesis by (intro exI [of _ ?b]) auto
qed

end
