(* ===== verification/Events.thy ===== *)
theory Events
  imports Hydration Db_State
begin

text \<open>
  The event stream (\<open>events.rs\<close>) and the agent's in-memory event log (\<open>AgentEventLog\<close> of
  \<open>devrelay-agent/src/main.rs\<close>): sequence numbers, replay cursors, the gap detector of a client,
  typed payloads, publishing and subscribing. A subscriber's channel is the list of the events
  sent to it; the clock and the JSON form of a payload are outside the model.
\<close>

section \<open>Sequences\<close>

definition event_sequence_new :: "u64 \<Rightarrow> u64 option" where
  "event_sequence_new v = (if v = 0 then None else Some v)"

definition event_sequence_next :: "u64 \<Rightarrow> u64 option" where
  "event_sequence_next s = (case checked_add s 1 of None \<Rightarrow> None | Some v \<Rightarrow> event_sequence_new v)"

definition sequencer_new :: u64 where
  "sequencer_new = 1"

definition sequencer_starting_after :: "u64 \<Rightarrow> u64 option" where
  "sequencer_starting_after s = event_sequence_next s"

definition sequencer_next :: "u64 \<Rightarrow> u64 \<times> u64 option" where
  "sequencer_next current = (case checked_add current 1 of
     None \<Rightarrow> (current, None) | Some n \<Rightarrow> (n, event_sequence_new current))"

type_synonym replay_cursor = "u64 option"

definition cursor_accepts :: "replay_cursor \<Rightarrow> u64 \<Rightarrow> bool" where
  "cursor_accepts c s = (case c of None \<Rightarrow> True | Some after \<Rightarrow> after < s)"

record sequence_gap =
  gap_expected_after :: u64
  gap_actual_next :: u64

definition observe_sequence :: "u64 \<Rightarrow> replay_cursor \<Rightarrow> replay_cursor \<times> (sequence_gap + unit)" where
  "observe_sequence s c =
     (case c of
        None \<Rightarrow> (Some s, Inr ())
      | Some expected_after \<Rightarrow>
          (let expected_next = (case event_sequence_next expected_after of None \<Rightarrow> expected_after | Some n \<Rightarrow> n)
           in if s \<noteq> expected_next
              then (c, Inl \<lparr>gap_expected_after = expected_after, gap_actual_next = s\<rparr>)
              else (Some s, Inr ())))"

section \<open>Events\<close>

datatype event_type =
    WorkspaceStateChangedT | SnapshotLocalCreatedT | SnapshotApplyStartedT | SnapshotApplyVerifiedT
  | HandoffStateChangedT | ProtectionStatusChangedT | SessionDivergedT | SecurityBlockedT
  | QuotaWarningT | EnvironmentProgressT

fun event_type_name :: "event_type \<Rightarrow> string" where
  "event_type_name WorkspaceStateChangedT = ''workspace.state.changed''"
| "event_type_name SnapshotLocalCreatedT = ''snapshot.local.created''"
| "event_type_name SnapshotApplyStartedT = ''snapshot.apply.started''"
| "event_type_name SnapshotApplyVerifiedT = ''snapshot.apply.verified''"
| "event_type_name HandoffStateChangedT = ''handoff.state.changed''"
| "event_type_name ProtectionStatusChangedT = ''protection.status.changed''"
| "event_type_name SessionDivergedT = ''session.diverged''"
| "event_type_name SecurityBlockedT = ''security.blocked''"
| "event_type_name QuotaWarningT = ''quota.warning''"
| "event_type_name EnvironmentProgressT = ''environment.progress''"

datatype workspace_state = WsActive | WsInactive | WsStale

record workspace_state_changed_event =
  wsc_project_id :: string
  wsc_workspace_id :: string
  wsc_previous_state :: "workspace_state option"
  wsc_state :: workspace_state
  wsc_device_id :: "string option"
  wsc_last_seen_head :: "string option"
  wsc_last_checkpoint_id :: "string option"

record snapshot_created_event =
  sce_project_id :: string
  sce_snapshot_id :: string
  sce_sequence_number :: int
  sce_session_id :: "string option"
  sce_parent_snapshot_id :: "string option"
  sce_label :: "string option"
  sce_pinned :: bool
  sce_state_hash :: string
  sce_created_at :: u64

definition snapshot_created_from :: "stored_snapshot \<Rightarrow> snapshot_created_event" where
  "snapshot_created_from s =
     \<lparr>sce_project_id = sn_project_id s, sce_snapshot_id = sn_snapshot_id s,
      sce_sequence_number = sn_sequence_number s, sce_session_id = sn_session_id s,
      sce_parent_snapshot_id = sn_parent_snapshot_id s, sce_label = sn_label s, sce_pinned = sn_pinned s,
      sce_state_hash = sm_state_hash (sn_metadata s), sce_created_at = sn_created_at s\<rparr>"

record apply_started_event =
  ase_project_id :: string
  ase_snapshot_id :: string
  ase_target_workspace_id :: "string option"
  ase_dry_run :: bool

record verification_details =
  vd_head_oid :: string
  vd_index_tree_oid :: string
  vd_work_tree_oid :: string
  vd_state_hash :: string
  vd_included_untracked :: "string list"
  vd_excluded_paths :: "string list"

record apply_verified_event =
  ave_project_id :: string
  ave_snapshot_id :: string
  ave_target_workspace_id :: "string option"
  ave_verification :: verification_details

record handoff_changed_event =
  hce_project_id :: string
  hce_handoff_id :: string
  hce_lease_id :: string
  hce_previous_state :: "handoff_state option"
  hce_state :: handoff_state
  hce_source_device_id :: string
  hce_target_device_id :: string
  hce_expires_at :: u64

definition handoff_changed_from :: "handoff_record \<Rightarrow> handoff_state option \<Rightarrow> handoff_changed_event" where
  "handoff_changed_from h previous =
     \<lparr>hce_project_id = ho_project_id h, hce_handoff_id = ho_handoff_id h, hce_lease_id = ho_lease_id h,
      hce_previous_state = previous, hce_state = ho_state h, hce_source_device_id = ho_source_device_id h,
      hce_target_device_id = ho_target_device_id h, hce_expires_at = ho_expires_at h\<rparr>"

definition environment_progress_from :: "hydration_progress \<Rightarrow> hydration_progress" where
  "environment_progress_from p =
     \<lparr>hp_project_id = hp_project_id p, hp_workspace_id = hp_workspace_id p,
      hp_previous_state = hp_previous_state p, hp_state = hp_state p, hp_transition = hp_transition p,
      hp_attempt = hp_attempt p, hp_failure = hp_failure p, hp_updated_at = hp_updated_at p\<rparr>"

datatype protection_status = ProtDirty | ProtProtected | ProtUnchanged | ProtFailed

record protection_event =
  pe_project_id :: string
  pe_workspace_id :: string
  pe_device_id :: "string option"
  pe_status :: protection_status
  pe_source_generation :: u64
  pe_snapshot_id :: "string option"
  pe_state_hash :: "string option"
  pe_repeated_failures :: u32
  pe_user_visible :: bool
  pe_detail :: "string option"

record session_diverged_event =
  sde_project_id :: string
  sde_original_session_id :: string
  sde_fork_session_id :: string
  sde_snapshot_id :: string
  sde_canonical_latest_snapshot_id :: "string option"
  sde_reason :: string

record security_blocked_event =
  sbe_code :: string
  sbe_title :: string
  sbe_detail :: string
  sbe_action :: "string option"
  sbe_project_id :: "string option"
  sbe_workspace_id :: "string option"
  sbe_safe_actions :: "string list"

record quota_warning_event =
  qwe_quota :: string
  qwe_scope :: string
  qwe_used :: u64
  qwe_limit :: "u64 option"
  qwe_unit :: string
  qwe_project_id :: "string option"
  qwe_workspace_id :: "string option"
  qwe_detail :: "string option"

datatype event_payload =
    WorkspaceStateChanged workspace_state_changed_event
  | SnapshotLocalCreated snapshot_created_event
  | SnapshotApplyStarted apply_started_event
  | SnapshotApplyVerified apply_verified_event
  | HandoffStateChanged handoff_changed_event
  | EnvironmentProgress hydration_progress
  | ProtectionStatusChanged protection_event
  | SessionDiverged session_diverged_event
  | SecurityBlockedE security_blocked_event
  | QuotaWarning quota_warning_event

fun payload_event_type :: "event_payload \<Rightarrow> event_type" where
  "payload_event_type (WorkspaceStateChanged _) = WorkspaceStateChangedT"
| "payload_event_type (SnapshotLocalCreated _) = SnapshotLocalCreatedT"
| "payload_event_type (SnapshotApplyStarted _) = SnapshotApplyStartedT"
| "payload_event_type (SnapshotApplyVerified _) = SnapshotApplyVerifiedT"
| "payload_event_type (HandoffStateChanged _) = HandoffStateChangedT"
| "payload_event_type (EnvironmentProgress _) = EnvironmentProgressT"
| "payload_event_type (ProtectionStatusChanged _) = ProtectionStatusChangedT"
| "payload_event_type (SessionDiverged _) = SessionDivergedT"
| "payload_event_type (SecurityBlockedE _) = SecurityBlockedT"
| "payload_event_type (QuotaWarning _) = QuotaWarningT"

record event_envelope =
  ev_schema_version :: u32
  ev_sequence :: u64
  ev_occurred_at_millis :: u64
  ev_event_type :: event_type
  ev_payload :: event_payload

definition typed_envelope :: "u64 \<Rightarrow> u64 \<Rightarrow> event_payload \<Rightarrow> event_envelope" where
  "typed_envelope sequence now_millis p =
     \<lparr>ev_schema_version = 1, ev_sequence = sequence, ev_occurred_at_millis = now_millis,
      ev_event_type = payload_event_type p, ev_payload = p\<rparr>"

section \<open>The agent's log\<close>

record subscriber =
  sb_id :: nat
  sb_alive :: bool
  sb_sent :: "event_envelope list"

record event_log =
  el_next_sequence :: u64
  el_events :: "event_envelope list"
  el_subscribers :: "subscriber list"
  el_next_subscriber :: nat

definition empty_event_log :: event_log where
  "empty_event_log = \<lparr>el_next_sequence = 1, el_events = [], el_subscribers = [], el_next_subscriber = 0\<rparr>"

definition publish_event :: "u64 \<Rightarrow> event_payload \<Rightarrow> event_log \<Rightarrow> event_log \<times> (string + event_envelope)" where
  "publish_event now_millis p l =
     (case event_sequence_new (el_next_sequence l) of
        None \<Rightarrow> (l, Inl ''event sequence exhausted'')
      | Some sequence \<Rightarrow>
          (case checked_add (el_next_sequence l) 1 of
             None \<Rightarrow> (l, Inl ''event sequence exhausted'')
           | Some next \<Rightarrow>
               let event = typed_envelope sequence now_millis p in
               (l\<lparr>el_next_sequence := next, el_events := el_events l @ [event],
                  el_subscribers := map (\<lambda>s. s\<lparr>sb_sent := sb_sent s @ [event]\<rparr>)
                    (filter sb_alive (el_subscribers l))\<rparr>, Inr event)))"

definition current_sequence :: "event_log \<Rightarrow> u64 option" where
  "current_sequence l = (if el_next_sequence l = 1 then None
     else event_sequence_new (el_next_sequence l - 1))"

definition subscribe_events :: "replay_cursor \<Rightarrow> event_log \<Rightarrow> event_log \<times> event_envelope list \<times> u64 option" where
  "subscribe_events c l =
     (l\<lparr>el_subscribers := el_subscribers l @ [\<lparr>sb_id = el_next_subscriber l, sb_alive = True, sb_sent = []\<rparr>],
        el_next_subscriber := Suc (el_next_subscriber l)\<rparr>,
      filter (\<lambda>e. cursor_accepts c (ev_sequence e)) (el_events l), current_sequence l)"

definition hang_up :: "nat \<Rightarrow> event_log \<Rightarrow> event_log" where
  "hang_up i l = l\<lparr>el_subscribers :=
     map (\<lambda>s. if sb_id s = i then s\<lparr>sb_alive := False\<rparr> else s) (el_subscribers l)\<rparr>"

section \<open>The gap detector\<close>

fun observe_all :: "u64 list \<Rightarrow> replay_cursor \<Rightarrow> replay_cursor \<times> (sequence_gap + unit)" where
  "observe_all [] c = (c, Inr ())"
| "observe_all (s # ss) c = (case observe_sequence s c of
     (c1, Inl gap) \<Rightarrow> (c1, Inl gap) | (c1, Inr _) \<Rightarrow> observe_all ss c1)"

lemma unat_max_64: "unat (- 1 :: u64) = 2 ^ 64 - 1"
  by (simp add: unsigned_minus_1_eq_mask mask_eq_exp_minus_1)

lemma event_sequence_next_unat:
  "event_sequence_next s = (if unat s = 2 ^ 64 - 1 then None else Some (of_nat (Suc (unat s))))"
proof (cases "unat s = 2 ^ 64 - 1")
  case True then show ?thesis by (simp add: event_sequence_next_def checked_add_def)
next
  case False
  have "unat s < 2 ^ 64" using unsigned_less [of s] by simp
  with False have b: "unat s + unat (1 :: u64) < 2 ^ 64" by simp
  have "unat (s + 1) = Suc (unat s)" using b by (simp add: unat_word_ariths)
  then have ne: "s + 1 \<noteq> 0" by (metis nat.distinct(1) unat_0)
  have b': "unat s + unat (1 :: u64) < 2 ^ LENGTH(64)" using b by simp
  have eq: "(of_nat (Suc (unat s)) :: u64) = s + 1" by (simp add: add.commute)
  show ?thesis unfolding event_sequence_next_def checked_add_def event_sequence_new_def eq
    using b' False ne by (simp only: if_True if_False option.case)
qed

lemma observe_iff:
  "snd (observe_sequence s (Some k)) = Inr () \<longleftrightarrow> unat s = min (Suc (unat k)) (2 ^ 64 - 1)"
proof (cases "unat k = 2 ^ 64 - 1")
  case True then show ?thesis
    by (auto simp: observe_sequence_def event_sequence_next_unat word_unat_eq_iff)
next
  case False
  have "unat k < 2 ^ 64" using unsigned_less [of k] by simp
  with False have "unat (of_nat (Suc (unat k)) :: u64) = Suc (unat k)" "Suc (unat k) \<le> 2 ^ 64 - 1"
    by (simp_all add: unat_of_nat take_bit_nat_eq_self del: of_nat_Suc)
  with False show ?thesis
    by (auto simp: observe_sequence_def event_sequence_next_unat word_unat_eq_iff simp del: of_nat_Suc)
qed

lemma observe_cursor: "snd (observe_sequence s c) = Inr () \<Longrightarrow> fst (observe_sequence s c) = Some s"
  by (auto simp: observe_sequence_def Let_def split: option.splits if_splits)

lemma observe_gap: "snd (observe_sequence s (Some k)) = Inl g \<Longrightarrow>
    observe_sequence s (Some k) = (Some k, Inl \<lparr>gap_expected_after = k, gap_actual_next = s\<rparr>)"
  by (auto simp: observe_sequence_def Let_def split: option.splits if_splits)

lemma observe_all_Cons: "observe_all (s # ss) c =
    (if snd (observe_sequence s c) = Inr () then observe_all ss (Some s) else observe_sequence s c)"
  using observe_cursor [of s c]
  by (cases "observe_sequence s c"; cases "snd (observe_sequence s c)") auto

declare observe_all.simps(2) [simp del]

lemma observe_all_iff:
  "snd (observe_all ss (Some k)) = Inr () \<longleftrightarrow>
     (\<forall>i<length ss. unat (ss ! i) = min (Suc (unat k + i)) (2 ^ 64 - 1))"
proof (induction ss arbitrary: k)
  case (Cons s ss)
  have "(\<forall>i<length (s # ss). unat ((s # ss) ! i) = min (Suc (unat k + i)) (2 ^ 64 - 1))
    \<longleftrightarrow> unat s = min (Suc (unat k)) (2 ^ 64 - 1)
      \<and> (\<forall>i<length ss. unat (ss ! i) = min (Suc (unat k + Suc i)) (2 ^ 64 - 1))"
    by (auto simp: nth_Cons less_Suc_eq_0_disj split: nat.split)
  also have "\<dots> \<longleftrightarrow> unat s = min (Suc (unat k)) (2 ^ 64 - 1)
      \<and> (\<forall>i<length ss. unat (ss ! i) = min (Suc (unat s + i)) (2 ^ 64 - 1))"
    by (intro conj_cong refl) (auto simp: min_def)
  finally show ?case unfolding observe_all_Cons using Cons.IH [of s] observe_iff [of s k] by auto
qed simp

lemma observe_all_last: "snd (observe_all ss (Some k)) = Inr () \<Longrightarrow> fst (observe_all ss (Some k)) = Some (last (k # ss))"
  by (induction ss arbitrary: k) (auto simp: observe_all_Cons split: if_splits)

lemma observe_all_gap:
  "snd (observe_all ss (Some k)) = Inl g \<Longrightarrow>
     \<exists>i<length ss. snd (observe_all (take i ss) (Some k)) = Inr ()
       \<and> observe_all ss (Some k) = observe_sequence (ss ! i) (Some (last (k # take i ss)))"
proof (induction ss arbitrary: k)
  case (Cons s ss)
  show ?case
  proof (cases "snd (observe_sequence s (Some k)) = Inr ()")
    case True
    with Cons.prems have "snd (observe_all ss (Some s)) = Inl g" by (simp add: observe_all_Cons)
    from Cons.IH [OF this] obtain i where "i < length ss" "snd (observe_all (take i ss) (Some s)) = Inr ()"
      "observe_all ss (Some s) = observe_sequence (ss ! i) (Some (last (s # take i ss)))" by blast
    with True show ?thesis by (intro exI [of _ "Suc i"]) (auto simp: observe_all_Cons)
  next
    case False
    then show ?thesis by (intro exI [of _ 0]) (simp add: observe_all_Cons)
  qed
qed simp

text \<open>
  A client that follows the stream notices exactly the gaps: the detector accepts a list of
  sequence numbers after a cursor if and only if each is the successor of the one before it (the
  largest number repeats), and the first one that is not is reported with the cursor it should
  have followed, which stays in place.
\<close>

theorem gap_detector_exact:
  "(case observe_all ss (Some k) of
      (c, Inr _) \<Rightarrow> (\<forall>i<length ss. unat (ss ! i) = min (Suc (unat k + i)) (2 ^ 64 - 1))
        \<and> c = Some (last (k # ss))
    | (c, Inl g) \<Rightarrow> \<exists>i. i < length ss \<and> (\<forall>j<i. unat (ss ! j) = min (Suc (unat k + j)) (2 ^ 64 - 1))
        \<and> unat (ss ! i) \<noteq> min (Suc (unat k + i)) (2 ^ 64 - 1)
        \<and> gap_actual_next g = ss ! i \<and> gap_expected_after g = last (k # take i ss)
        \<and> c = Some (last (k # take i ss)))"
proof (cases "snd (observe_all ss (Some k))")
  case (Inr u)
  then show ?thesis
    using observe_all_iff [of ss k] observe_all_last [of ss k]
    by (cases "observe_all ss (Some k)") (simp del: last.simps)
next
  case (Inl g)
  then obtain i where i: "i < length ss" "snd (observe_all (take i ss) (Some k)) = Inr ()"
    and o: "observe_all ss (Some k) = observe_sequence (ss ! i) (Some (last (k # take i ss)))"
    using observe_all_gap by blast
  define k' where "k' = last (k # take i ss)"
  have pre: "\<forall>j<i. unat (ss ! j) = min (Suc (unat k + j)) (2 ^ 64 - 1)"
    using i observe_all_iff [of "take i ss" k] by simp
  have k': "min (Suc (unat k')) (2 ^ 64 - 1) = min (Suc (unat k + i)) (2 ^ 64 - 1)"
  proof (cases i)
    case (Suc n)
    then have "k' = ss ! n" using i(1) by (simp add: k'_def take_Suc_conv_app_nth)
    then show ?thesis using pre Suc by (auto simp: min_def)
  qed (simp add: k'_def)
  have "snd (observe_sequence (ss ! i) (Some k')) = Inl g" using Inl o by (simp add: k'_def)
  then have "observe_all ss (Some k) = (Some k', Inl \<lparr>gap_expected_after = k', gap_actual_next = ss ! i\<rparr>)"
    and "unat (ss ! i) \<noteq> min (Suc (unat k')) (2 ^ 64 - 1)"
    using observe_gap observe_iff [of "ss ! i" k'] o by (simp_all add: k'_def)
  then show ?thesis using i(1) pre unfolding k' by (auto simp: k'_def intro!: exI [of _ i])
qed

theorem gap_detector_exact_witness:
  "\<exists>g i. observe_all [5, 6, 8] (Some 4) = (Some 6, Inl g) \<and> i < 3 \<and> gap_actual_next g = [5, 6, 8] ! i
     \<and> gap_expected_after g = last (4 # take i [5, 6, 8])"
proof -
  have E: "observe_all [5, 6, 8] (Some 4) = (Some 6, Inl \<lparr>gap_expected_after = 6, gap_actual_next = 8\<rparr>)"
    by (simp add: observe_all.simps observe_sequence_def event_sequence_next_def event_sequence_new_def checked_add_def Let_def)
  from gap_detector_exact [of "[5, 6, 8]" 4, unfolded E] obtain i where
    i: "i < length [5, 6, 8 :: u64]" "8 = [5, 6, 8 :: u64] ! i" "6 = last (4 # take i [5, 6, 8 :: u64])"
    by (simp only: prod.case sum.case sequence_gap.simps) blast
  then have "i < 3 \<and> gap_actual_next \<lparr>gap_expected_after = 6, gap_actual_next = 8\<rparr> = [5, 6, 8] ! i
      \<and> gap_expected_after \<lparr>gap_expected_after = 6, gap_actual_next = 8\<rparr> = last (4 # take i [5, 6, 8])"
    by (simp only: sequence_gap.simps) simp
  with E show ?thesis by blast
qed

section \<open>Subscriptions\<close>

inductive log_step :: "event_log \<Rightarrow> event_log \<Rightarrow> bool" where
  ls_publish: "publish_event now p l = (l', r) \<Longrightarrow> log_step l l'"
| ls_subscribe: "subscribe_events c l = (l', r) \<Longrightarrow> log_step l l'"
| ls_hang_up: "log_step l (hang_up i l)"

text \<open>The steps in which the subscriber \<open>i\<close> keeps its end of the channel.\<close>

inductive listening_step :: "nat \<Rightarrow> event_log \<Rightarrow> event_log \<Rightarrow> bool" for i where
  li_publish: "publish_event now p l = (l', r) \<Longrightarrow> listening_step i l l'"
| li_subscribe: "subscribe_events c l = (l', r) \<Longrightarrow> listening_step i l l'"
| li_hang_up: "j \<noteq> i \<Longrightarrow> listening_step i l (hang_up j l)"

lemma listening_log_step: "listening_step i l l' \<Longrightarrow> log_step l l'"
  by (auto elim: listening_step.cases intro: log_step.intros)

text \<open>The log holds the events 1, 2, .. below the next sequence number; subscribers have distinct ids.\<close>

definition log_wf :: "event_log \<Rightarrow> bool" where
  "log_wf l \<longleftrightarrow> 1 \<le> unat (el_next_sequence l)
     \<and> map (unat \<circ> ev_sequence) (el_events l) = [1..<unat (el_next_sequence l)]
     \<and> (\<forall>s\<in>set (el_subscribers l). sb_id s < el_next_subscriber l)"

text \<open>
  Subscriber \<open>i\<close> is registered once and alive, and what it was given are the events after \<open>k\<close>.
\<close>

definition subscribed :: "nat \<Rightarrow> event_log \<Rightarrow> subscriber list" where
  "subscribed i l = filter (\<lambda>s. sb_id s = i) (el_subscribers l)"

definition events_after :: "nat \<Rightarrow> event_log \<Rightarrow> event_envelope list" where
  "events_after k l = filter (\<lambda>e. k < unat (ev_sequence e)) (el_events l)"

definition follows :: "nat \<Rightarrow> nat \<Rightarrow> event_envelope list \<Rightarrow> event_log \<Rightarrow> bool" where
  "follows i k replay l \<longleftrightarrow> log_wf l \<and> i < el_next_subscriber l \<and> k < unat (el_next_sequence l)
     \<and> (\<exists>s. subscribed i l = [s] \<and> sb_alive s \<and> replay @ sb_sent s = events_after k l)"

lemma publish_InrD:
  assumes "publish_event now p l = (l', Inr e)"
  shows "e = typed_envelope (el_next_sequence l) now p"
    "unat (el_next_sequence l') = Suc (unat (el_next_sequence l))"
    "el_events l' = el_events l @ [e]"
    "el_subscribers l' = map (\<lambda>s. s\<lparr>sb_sent := sb_sent s @ [e]\<rparr>) (filter sb_alive (el_subscribers l))"
    "el_next_subscriber l' = el_next_subscriber l"
proof -
  have b: "unat (el_next_sequence l) + 1 < 2 ^ 64" and l': "l' = fst (publish_event now p l)"
    using assms by (auto simp: publish_event_def checked_add_def event_sequence_new_def split: option.splits if_splits)
  have "unat (el_next_sequence l + 1) = Suc (unat (el_next_sequence l))"
    using b by (simp add: unat_word_ariths)
  with assms show "e = typed_envelope (el_next_sequence l) now p"
    "unat (el_next_sequence l') = Suc (unat (el_next_sequence l))"
    "el_events l' = el_events l @ [e]"
    "el_subscribers l' = map (\<lambda>s. s\<lparr>sb_sent := sb_sent s @ [e]\<rparr>) (filter sb_alive (el_subscribers l))"
    "el_next_subscriber l' = el_next_subscriber l"
    by (auto simp: publish_event_def checked_add_def event_sequence_new_def Let_def split: option.splits if_splits)
qed

lemma publish_InlD: "publish_event now p l = (l', Inl e) \<Longrightarrow> l' = l"
  by (auto simp: publish_event_def Let_def split: option.splits)

lemma log_step_wf:
  assumes "log_step l l'" "log_wf l" shows "log_wf l'"
  using assms
proof cases
  case (ls_publish now p r)
  show ?thesis
  proof (cases r)
    case (Inl e) with publish_InlD ls_publish assms(2) show ?thesis by blast
  next
    case (Inr e)
    note f = publish_InrD [OF ls_publish [unfolded Inr]]
    have "ev_sequence e = el_next_sequence l" by (simp add: f(1) typed_envelope_def)
    with assms(2) show ?thesis unfolding log_wf_def by (auto simp: f(2-5))
  qed
qed (auto simp: log_wf_def subscribe_events_def hang_up_def less_Suc_eq)

lemma follows_step:
  assumes "listening_step i l l'" "follows i k replay l" shows "follows i k replay l'"
proof -
  have wf: "log_wf l'" using log_step_wf [OF listening_log_step [OF assms(1)]] assms(2) by (simp add: follows_def)
  obtain s where s: "subscribed i l = [s]" "sb_alive s" "replay @ sb_sent s = events_after k l"
    and k: "i < el_next_subscriber l" "k < unat (el_next_sequence l)"
    using assms(2) by (auto simp: follows_def)
  from assms(1) show ?thesis
  proof cases
    case (li_publish now p r)
    show ?thesis
    proof (cases r)
      case (Inl e) with publish_InlD li_publish assms(2) show ?thesis by blast
    next
      case (Inr e)
      note f = publish_InrD [OF li_publish [unfolded Inr]]
      have "subscribed i l' = map (\<lambda>s. s\<lparr>sb_sent := sb_sent s @ [e]\<rparr>) (filter sb_alive (subscribed i l))"
        by (simp add: subscribed_def f(4) filter_map comp_def conj_commute)
      moreover have "ev_sequence e = el_next_sequence l" by (simp add: f(1) typed_envelope_def)
      then have "events_after k l' = events_after k l @ [e]" using k(2) by (simp add: events_after_def f(3))
      ultimately show ?thesis using s k wf by (simp add: follows_def f(2,5) flip: append_assoc)
    qed
  next
    case (li_subscribe c r)
    then show ?thesis using s k wf by (auto simp: follows_def subscribe_events_def subscribed_def events_after_def)
  next
    case (li_hang_up j)
    have "subscribed i l' = map (\<lambda>s. if sb_id s = j then s\<lparr>sb_alive := False\<rparr> else s) (subscribed i l)"
      by (simp add: subscribed_def li_hang_up(1) hang_up_def filter_map comp_def if_distrib [where f = sb_id] cong: if_cong)
    moreover have "sb_id s = i" using s(1) by (auto simp: subscribed_def filter_eq_Cons_iff)
    ultimately show ?thesis using s k wf li_hang_up by (simp add: follows_def events_after_def hang_up_def)
  qed
qed

interpretation agent_log: safe_system "\<lambda>l. l = empty_event_log" log_step log_wf
  by unfold_locales (auto simp: log_step_wf, simp add: log_wf_def empty_event_log_def)

interpretation agent_stream: safe_system "follows i k replay" "listening_step i" "follows i k replay" for i k replay
  by unfold_locales (auto intro: follows_step)

lemma upt_filter: "filter (\<lambda>n. k < n) [Suc 0..<m] = [Suc k..<m]"
  by (induction m) auto

lemma subscribe_follows:
  assumes "log_wf l" "subscribe_events c l = (l1, replay, cur)"
    and "case c of None \<Rightarrow> True | Some k \<Rightarrow> k < el_next_sequence l"
  shows "follows (el_next_subscriber l) (case c of None \<Rightarrow> 0 | Some k \<Rightarrow> unat k) replay l1"
proof -
  let ?k = "case c of None \<Rightarrow> 0 | Some k \<Rightarrow> unat k"
  have ev: "map (unat \<circ> ev_sequence) (el_events l) = [Suc 0..<unat (el_next_sequence l)]"
    using assms(1) by (simp add: log_wf_def)
  have acc: "cursor_accepts c (ev_sequence e) = (?k < unat (ev_sequence e))" if "e \<in> set (el_events l)" for e
  proof -
    have "unat (ev_sequence e) \<in> set (map (unat \<circ> ev_sequence) (el_events l))" using that by simp
    then have "0 < unat (ev_sequence e)" unfolding ev by simp
    then show ?thesis by (auto simp: cursor_accepts_def word_less_nat_alt split: option.split)
  qed
  have "replay = filter (\<lambda>e. cursor_accepts c (ev_sequence e)) (el_events l)"
    using assms(2) by (auto simp: subscribe_events_def)
  also have "\<dots> = filter (\<lambda>e. ?k < unat (ev_sequence e)) (el_events l)"
    by (rule filter_cong [OF refl acc])
  finally have "replay = events_after ?k l1" using assms(2) by (auto simp: events_after_def subscribe_events_def)
  moreover have "log_wf l1" by (rule log_step_wf [OF ls_subscribe [OF assms(2)] assms(1)])
  moreover have "?k < unat (el_next_sequence l)"
    using assms(1,3) by (auto simp: log_wf_def word_less_nat_alt split: option.splits)
  moreover have "subscribed (el_next_subscriber l) l = []"
    using assms(1) by (auto simp: log_wf_def subscribed_def filter_empty_conv)
  ultimately show ?thesis using assms(2) by (auto simp: follows_def subscribe_events_def subscribed_def)
qed

lemma events_after_numbers:
  "log_wf l \<Longrightarrow> map (unat \<circ> ev_sequence) (events_after k l) = [Suc k..<unat (el_next_sequence l)]"
proof -
  assume "log_wf l"
  then have "map (unat \<circ> ev_sequence) (el_events l) = [Suc 0..<unat (el_next_sequence l)]" by (simp add: log_wf_def)
  then have "filter (\<lambda>n. k < n) (map (unat \<circ> ev_sequence) (el_events l)) = [Suc k..<unat (el_next_sequence l)]"
    by (simp only: upt_filter)
  then show ?thesis by (simp add: events_after_def filter_map comp_def)
qed

lemma nth_consecutive:
  assumes "map unat ss = [a..<m]" "i < length ss"
  shows "unat (ss ! i) = a + i" "a + i < m"
proof -
  have l: "length ss = m - a" using arg_cong [OF assms(1), of length] by simp
  with assms(2) show "a + i < m" by simp
  have "unat (ss ! i) = map unat ss ! i" using assms(2) by simp
  also have "\<dots> = a + i" unfolding assms(1) using l assms(2) by (simp add: nth_upt)
  finally show "unat (ss ! i) = a + i" .
qed

lemma observe_consecutive:
  assumes "map unat ss = [Suc (case c of None \<Rightarrow> 0 | Some k \<Rightarrow> unat k)..<m]" "m < 2 ^ 64"
  shows "snd (observe_all ss c) = Inr ()"
proof (cases c)
  case (Some k)
  note n = nth_consecutive [OF assms(1) [unfolded Some option.case]]
  have "unat (ss ! i) = min (Suc (unat k + i)) (2 ^ 64 - 1)" if "i < length ss" for i
    using n [OF that] assms(2) by linarith
  then show ?thesis by (simp add: Some observe_all_iff)
next
  case None
  note n = nth_consecutive [OF assms(1) [unfolded None option.case]]
  show ?thesis
  proof (cases ss)
    case (Cons s rest)
    have "unat (rest ! i) = min (Suc (unat s + i)) (2 ^ 64 - 1)" if "i < length rest" for i
    proof -
      have "unat (rest ! i) = Suc 0 + Suc i" "Suc 0 + Suc i < m" "unat s = Suc 0"
        using n [of "Suc i"] n [of 0] that Cons by simp_all
      then show ?thesis using assms(2) by linarith
    qed
    then have "snd (observe_all rest (Some s)) = Inr ()" by (simp add: observe_all_iff)
    then show ?thesis by (simp add: Cons None observe_all_Cons observe_sequence_def)
  qed simp
qed

text \<open>
  C36. Subscribing loses nothing and repeats nothing. Take a subscription with a cursor the log
  already reached, and whatever was published and whoever else subscribed or hung up since, the
  subscriber itself having kept its end: it is registered exactly once and alive, and the replayed
  events followed by those sent on its channel are the log's own events after the cursor, all of
  them and in order, with consecutive numbers up to the newest; the client's gap detector accepts
  the whole stream.
\<close>

theorem subscriber_stream_gapless:
  assumes "reach (\<lambda>l. l = empty_event_log) log_step l" "subscribe_events c l = (l1, replay, cur)"
    and "case c of None \<Rightarrow> True | Some k \<Rightarrow> k < el_next_sequence l"
    and "(listening_step (el_next_subscriber l))\<^sup>*\<^sup>* l1 l2"
  shows "\<exists>s. filter (\<lambda>s. sb_id s = el_next_subscriber l) (el_subscribers l2) = [s] \<and> sb_alive s
    \<and> replay @ sb_sent s = filter (\<lambda>e. (case c of None \<Rightarrow> 0 | Some k \<Rightarrow> unat k) < unat (ev_sequence e)) (el_events l2)
    \<and> map (unat \<circ> ev_sequence) (replay @ sb_sent s)
        = [Suc (case c of None \<Rightarrow> 0 | Some k \<Rightarrow> unat k)..<unat (el_next_sequence l2)]
    \<and> snd (observe_all (map ev_sequence (replay @ sb_sent s)) c) = Inr ()"
proof -
  let ?k = "case c of None \<Rightarrow> 0 | Some k \<Rightarrow> unat k"
  have f: "follows (el_next_subscriber l) ?k replay l2"
    by (rule agent_stream.star_inv [OF assms(4) subscribe_follows [OF agent_log.reach_inv [OF assms(1)] assms(2,3)]])
  then obtain s where s: "subscribed (el_next_subscriber l) l2 = [s]" "sb_alive s" "replay @ sb_sent s = events_after ?k l2"
    and wf: "log_wf l2" by (auto simp: follows_def)
  have n: "map (unat \<circ> ev_sequence) (replay @ sb_sent s) = [Suc ?k..<unat (el_next_sequence l2)]"
    unfolding s(3) by (rule events_after_numbers [OF wf])
  have "snd (observe_all (map ev_sequence (replay @ sb_sent s)) c) = Inr ()"
    by (rule observe_consecutive [where m = "unat (el_next_sequence l2)"])
      (use n unsigned_less [of "el_next_sequence l2"] in \<open>simp_all add: map_map comp_def\<close>)
  with s n show ?thesis unfolding subscribed_def events_after_def by blast
qed

definition ex_payload :: "string \<Rightarrow> event_payload" where
  "ex_payload p = SnapshotApplyStarted \<lparr>ase_project_id = p, ase_snapshot_id = ''s'', ase_target_workspace_id = None,
     ase_dry_run = False\<rparr>"

theorem subscriber_stream_gapless_witness:
  "\<exists>(l2 :: event_log) s replay. filter (\<lambda>s. sb_id s = 0) (el_subscribers l2) = [s] \<and> sb_alive s
     \<and> replay = [typed_envelope 2 8 (ex_payload ''b'')] \<and> sb_sent s = [typed_envelope 3 9 (ex_payload ''c'')]
     \<and> el_events l2 = typed_envelope 1 7 (ex_payload ''a'') # replay @ sb_sent s"
proof -
  obtain l r where l: "publish_event 7 (ex_payload ''a'') empty_event_log = (l, r)" by fastforce
  obtain l' r' where l': "publish_event 8 (ex_payload ''b'') l = (l', r')" by fastforce
  obtain l1 replay cur where l1: "subscribe_events (Some 1) l' = (l1, replay, cur)" by (metis prod_cases3)
  obtain l2 r2 where l2: "publish_event 9 (ex_payload ''c'') l1 = (l2, r2)" by fastforce
  have "reach (\<lambda>l. l = empty_event_log) log_step l"
    by (rule reach_step [OF reach_init]) (rule refl, rule ls_publish [OF l])
  then have reach: "reach (\<lambda>l. l = empty_event_log) log_step l'"
    by (rule reach_step) (rule ls_publish [OF l'])
  let ?e = "\<lambda>n t p. typed_envelope n t (ex_payload p)"
  have v: "el_next_sequence l' = 3" "el_next_subscriber l' = 0" "replay = [?e 2 8 ''b'']"
    "el_events l2 = [?e 1 7 ''a'', ?e 2 8 ''b'', ?e 3 9 ''c'']"
    using l l' l1 l2
    by (auto simp: publish_event_def subscribe_events_def empty_event_log_def event_sequence_new_def
        checked_add_def Let_def typed_envelope_def cursor_accepts_def)
  have step: "(listening_step (el_next_subscriber l'))\<^sup>*\<^sup>* l1 l2"
    by (rule r_into_rtranclp) (rule li_publish [OF l2])
  have "case Some 1 of None \<Rightarrow> True | Some k \<Rightarrow> k < el_next_sequence l'" by (simp add: v)
  from subscriber_stream_gapless [OF reach l1 this step] obtain s where
    s: "filter (\<lambda>s. sb_id s = 0) (el_subscribers l2) = [s]" "sb_alive s"
      "replay @ sb_sent s = filter (\<lambda>e. unat (1 :: u64) < unat (ev_sequence e)) (el_events l2)"
    unfolding v(2) option.case by blast
  have "replay @ sb_sent s = [?e 2 8 ''b'', ?e 3 9 ''c'']"
    unfolding s(3) v(4) by (simp add: typed_envelope_def)
  then have "sb_sent s = [?e 3 9 ''c'']" by (simp add: v(3))
  with s v show ?thesis by (intro exI [of _ l2] exI [of _ s] exI [of _ replay]) simp
qed

end
