(* ===== verification/Local_Config.thy ===== *)
theory Local_Config
  imports Events Paths
begin

text \<open>
  The machine-local configuration of \<open>config.rs\<close>: resource profiles and the limits they resolve
  to, the project registry with its look-ups, validation, and the migration that gives a legacy
  project its workspace. BLAKE3, the TOML codec, the clock and the platform probes are parameters.
\<close>

section \<open>Resource policy\<close>

datatype resource_profile = Adaptive | Instant | Eco | CustomProfile | Balanced | Performance

datatype power_source = PowerAc | PowerBattery | PowerUnknown

datatype foreground_load = ForegroundIdle | ForegroundBusy | ForegroundUnknown

record resource_context =
  rc_parallelism :: u64
  rc_power_source :: power_source
  rc_low_power_mode :: bool
  rc_foreground_load :: foreground_load

definition resource_context_for_parallelism :: "u64 \<Rightarrow> resource_context" where
  "resource_context_for_parallelism n =
     \<lparr>rc_parallelism = max n 1, rc_power_source = PowerUnknown, rc_low_power_mode = False,
      rc_foreground_load = ForegroundUnknown\<rparr>"

fun canonical_profile :: "resource_profile \<Rightarrow> resource_profile" where
  "canonical_profile Balanced = Adaptive"
| "canonical_profile Performance = Instant"
| "canonical_profile p = p"

record resource_limits =
  rl_cpu_slot_limit :: u64
  rl_hashing_concurrency_limit :: u64
  rl_network_bandwidth :: "u64 option"

record resource_policy =
  rp_profile :: resource_profile
  rp_limits :: resource_limits

definition validate_limits :: "resource_limits \<Rightarrow> unit result" where
  "validate_limits l =
     (if rl_cpu_slot_limit l = 0
      then Inl (Config ''resource policy cpu_slot_limit must be greater than zero'')
      else if rl_hashing_concurrency_limit l = 0
      then Inl (Config ''resource policy hashing_concurrency_limit must be greater than zero'')
      else if rl_network_bandwidth l = Some 0
      then Inl (Config ''resource policy network_bandwidth_kib_per_second must be greater than zero'')
      else Inr ())"

definition cap_cpu_and_hash :: "u64 \<Rightarrow> u64 \<Rightarrow> resource_limits \<Rightarrow> resource_limits" where
  "cap_cpu_and_hash cpu hash l =
     l\<lparr>rl_cpu_slot_limit := max (min (rl_cpu_slot_limit l) (max cpu 1)) 1,
       rl_hashing_concurrency_limit := max (min (rl_hashing_concurrency_limit l) (max hash 1)) 1\<rparr>"

definition cap_network_bandwidth :: "u64 \<Rightarrow> resource_limits \<Rightarrow> resource_limits" where
  "cap_network_bandwidth cap l =
     l\<lparr>rl_network_bandwidth := Some (case rl_network_bandwidth l of None \<Rightarrow> cap | Some b \<Rightarrow> min b cap)\<rparr>"

text \<open>The \<open>unreachable!\<close> arm of the code is the \<open>undefined\<close> of the two profiles \<open>canonical\<close> removes.\<close>

definition policy_for_profile_with_parallelism :: "resource_profile \<Rightarrow> u64 \<Rightarrow> resource_policy" where
  "policy_for_profile_with_parallelism profile n =
     (let p = max n 1; slots = max (p div 2) 1
      in case canonical_profile profile of
        Adaptive \<Rightarrow> \<lparr>rp_profile = Adaptive, rp_limits =
          \<lparr>rl_cpu_slot_limit = slots, rl_hashing_concurrency_limit = slots, rl_network_bandwidth = None\<rparr>\<rparr>
      | Instant \<Rightarrow> \<lparr>rp_profile = Instant, rp_limits =
          \<lparr>rl_cpu_slot_limit = p, rl_hashing_concurrency_limit = p, rl_network_bandwidth = None\<rparr>\<rparr>
      | Eco \<Rightarrow> \<lparr>rp_profile = Eco, rp_limits =
          \<lparr>rl_cpu_slot_limit = 1, rl_hashing_concurrency_limit = 1, rl_network_bandwidth = Some 1024\<rparr>\<rparr>
      | CustomProfile \<Rightarrow> \<lparr>rp_profile = CustomProfile, rp_limits =
          \<lparr>rl_cpu_slot_limit = slots, rl_hashing_concurrency_limit = slots, rl_network_bandwidth = None\<rparr>\<rparr>
      | _ \<Rightarrow> undefined)"

definition policy_custom :: "resource_limits \<Rightarrow> resource_policy result" where
  "policy_custom l = bind_r (validate_limits l) (\<lambda>_. Inr \<lparr>rp_profile = CustomProfile, rp_limits = l\<rparr>)"

definition adapted_for_context :: "resource_context \<Rightarrow> resource_policy \<Rightarrow> resource_policy" where
  "adapted_for_context cx pol =
     (let l0 = rp_limits pol;
          l1 = (if rc_power_source cx = PowerBattery
                then cap_network_bandwidth 2048
                       (cap_cpu_and_hash (max (rc_parallelism cx div 4) 1) (max (rc_parallelism cx div 4) 1) l0)
                else l0);
          l2 = (if rc_foreground_load cx = ForegroundBusy
                then cap_network_bandwidth 4096
                       (cap_cpu_and_hash (max (rl_cpu_slot_limit l1 div 2) 1)
                         (max (rl_hashing_concurrency_limit l1 div 2) 1) l1)
                else l1);
          l3 = (if rc_low_power_mode cx
                then cap_network_bandwidth 1024 (cap_cpu_and_hash 1 1 l2)
                else l2)
      in pol\<lparr>rp_limits := l3\<rparr>)"

definition policy_for_profile_with_context :: "resource_profile \<Rightarrow> resource_context \<Rightarrow> resource_policy" where
  "policy_for_profile_with_context profile cx =
     adapted_for_context cx (policy_for_profile_with_parallelism profile (rc_parallelism cx))"

section \<open>Project registry\<close>

record workspace_entry =
  we_workspace_id :: string
  we_project_id :: string
  we_device_id :: string
  we_local_path :: string
  we_platform_profile :: string
  we_state :: workspace_state
  we_last_seen_head :: "string option"
  we_last_checkpoint_id :: "string option"

record project_entry =
  pr_project_id :: string
  pr_display_name :: string
  pr_local_path :: string
  pr_workspaces :: "(string, workspace_entry) btree_map"
  pr_manifest_path :: "string option"
  pr_remote_url_fingerprint :: "string option"
  pr_root_commit_fingerprint :: "string option"

type_synonym project_registry = "(string, project_entry) btree_map"

text \<open>
  Two paths are equal when their components are: repeated separators and inner \<open>.\<close> components do
  not count. A path is kept as its text, since that is what is displayed and hashed.
\<close>

definition path_eq :: "string \<Rightarrow> string \<Rightarrow> bool" where
  "path_eq a b \<longleftrightarrow> path_components a = path_components b"

fun find_map :: "('a \<Rightarrow> 'b option) \<Rightarrow> 'a list \<Rightarrow> 'b option" where
  "find_map f [] = None"
| "find_map f (x # xs) = (case f x of None \<Rightarrow> find_map f xs | Some y \<Rightarrow> Some y)"

definition bt_values :: "('k, 'v) btree_map \<Rightarrow> 'v list" where
  "bt_values m = map snd m"

definition workspace_by_path :: "project_registry \<Rightarrow> string \<Rightarrow> (project_entry \<times> workspace_entry) option" where
  "workspace_by_path reg local_path =
     find_map (\<lambda>p. map_option (Pair p)
       (find (\<lambda>w. path_eq (we_local_path w) local_path) (bt_values (pr_workspaces p)))) (bt_values reg)"

definition workspace_by_project_device_path ::
    "project_registry \<Rightarrow> string \<Rightarrow> string \<Rightarrow> string \<Rightarrow> workspace_entry option" where
  "workspace_by_project_device_path reg project device local_path =
     (case bt_get reg project of
        None \<Rightarrow> None
      | Some p \<Rightarrow> find (\<lambda>w. we_device_id w = device \<and> path_eq (we_local_path w) local_path)
                    (bt_values (pr_workspaces p)))"

definition workspace_by_id :: "project_registry \<Rightarrow> string \<Rightarrow> (project_entry \<times> workspace_entry) option" where
  "workspace_by_id reg workspace_id =
     find_map (\<lambda>p. map_option (Pair p) (bt_get (pr_workspaces p) workspace_id)) (bt_values reg)"

definition workspace_id_for :: "(string \<Rightarrow> string) \<Rightarrow> string \<Rightarrow> string \<Rightarrow> string \<Rightarrow> string" where
  "workspace_id_for blake3_hex project device local_path =
     ''w_'' @ take 16 (blake3_hex (project @ [CHR 0x00] @ device @ [CHR 0x00] @ local_path))"

section \<open>The configuration\<close>

datatype anchor_mode = AnchorLocalOnly | AnchorUserSelected

datatype agent_role = RoleLocalOnly | RoleAnchor

fun role_from_anchor_mode :: "anchor_mode \<Rightarrow> agent_role" where
  "role_from_anchor_mode AnchorLocalOnly = RoleLocalOnly"
| "role_from_anchor_mode AnchorUserSelected = RoleAnchor"

definition LOCAL_CONFIG_VERSION :: u32 where
  "LOCAL_CONFIG_VERSION = 1"

record local_config =
  cfg_version :: u32
  cfg_fabric_name :: string
  cfg_device_id :: string
  cfg_device_name :: string
  cfg_platform_key :: string
  cfg_architecture :: string
  cfg_capabilities_json :: string
  cfg_paired_at :: "u64 option"
  cfg_last_seen :: u64
  cfg_editor_command :: string
  cfg_resource_profile :: resource_profile
  cfg_resource_limits :: "resource_limits option"
  cfg_anchor_mode :: anchor_mode
  cfg_mdns_enabled :: bool
  cfg_manual_discovery_address :: "string option"
  cfg_registry :: project_registry

definition validate_capabilities_json :: "json_codec \<Rightarrow> string \<Rightarrow> unit result" where
  "validate_capabilities_json c value =
     (case js_parse c value of
        Inl err \<Rightarrow> Inl (Config (''capabilities_json must be valid JSON: '' @ err))
      | Inr v \<Rightarrow> (case v of JObj _ \<Rightarrow> Inr ()
          | _ \<Rightarrow> Inl (Config ''capabilities_json must encode a JSON object'')))"

definition validate_workspace_entry :: "project_entry \<Rightarrow> string \<times> workspace_entry \<Rightarrow> unit result" where
  "validate_workspace_entry p = (\<lambda>(key, w).
     bind_r (validate_non_empty ''project_registry.projects.workspaces key'' key) (\<lambda>_.
     bind_r (validate_non_empty ''project_registry.projects.workspaces.workspace_id'' (we_workspace_id w)) (\<lambda>_.
     if \<not> starts_with ''w_'' (we_workspace_id w)
     then Inl (Config (''workspace_id '' @ we_workspace_id w @ '' must start with w_''))
     else if key \<noteq> we_workspace_id w
     then Inl (Config (''workspace registry key '' @ key @ '' must match workspace_id '' @ we_workspace_id w))
     else if we_project_id w \<noteq> pr_project_id p
     then Inl (Config (''workspace '' @ we_workspace_id w @ '' project_id '' @ we_project_id w
            @ '' must match project_id '' @ pr_project_id p))
     else bind_r (validate_non_empty ''project_registry.projects.workspaces.device_id'' (we_device_id w)) (\<lambda>_.
          bind_r (validate_non_empty ''project_registry.projects.workspaces.platform_profile''
                    (we_platform_profile w)) (\<lambda>_.
          if we_local_path w = []
          then Inl (Config ''project_registry.projects.workspaces.local_path must not be empty'')
          else Inr ())))))"

fun for_each_r :: "('a \<Rightarrow> unit result) \<Rightarrow> 'a list \<Rightarrow> unit result" where
  "for_each_r f [] = Inr ()"
| "for_each_r f (x # xs) = bind_r (f x) (\<lambda>_. for_each_r f xs)"

definition validate_project_entry :: "string \<times> project_entry \<Rightarrow> unit result" where
  "validate_project_entry = (\<lambda>(key, p).
     bind_r (validate_non_empty ''project_registry.projects key'' key) (\<lambda>_.
     bind_r (validate_non_empty ''project_registry.projects.project_id'' (pr_project_id p)) (\<lambda>_.
     bind_r (validate_non_empty ''project_registry.projects.display_name'' (pr_display_name p)) (\<lambda>_.
     if key \<noteq> pr_project_id p
     then Inl (Config (''project registry key '' @ key @ '' must match project_id '' @ pr_project_id p))
     else if pr_local_path p = []
     then Inl (Config ''project_registry.projects.local_path must not be empty'')
     else for_each_r (validate_workspace_entry p) (pr_workspaces p)))))"

definition validate_config :: "json_codec \<Rightarrow> local_config \<Rightarrow> unit result" where
  "validate_config c cfg =
     (if cfg_version cfg \<noteq> LOCAL_CONFIG_VERSION
      then Inl (Config (''unsupported config version '' @ dec_u64 (cfg_version cfg) @ '', expected ''
             @ dec_u64 LOCAL_CONFIG_VERSION))
      else
        bind_r (validate_non_empty ''fabric_name'' (cfg_fabric_name cfg)) (\<lambda>_.
        bind_r (validate_non_empty ''device_id'' (cfg_device_id cfg)) (\<lambda>_.
        bind_r (validate_non_empty ''device_name'' (cfg_device_name cfg)) (\<lambda>_.
        bind_r (validate_non_empty ''platform_key'' (cfg_platform_key cfg)) (\<lambda>_.
        bind_r (validate_non_empty ''architecture'' (cfg_architecture cfg)) (\<lambda>_.
        bind_r (validate_capabilities_json c (cfg_capabilities_json cfg)) (\<lambda>_.
        bind_r (validate_non_empty ''editor.command'' (cfg_editor_command cfg)) (\<lambda>_.
        bind_r (case cfg_resource_limits cfg of None \<Rightarrow> Inr () | Some l \<Rightarrow> validate_limits l) (\<lambda>_.
        bind_r (case cfg_manual_discovery_address cfg of
                  None \<Rightarrow> Inr ()
                | Some a \<Rightarrow> if trims_to_empty a
                    then Inl (Config ''manual_discovery_address must not be empty'') else Inr ()) (\<lambda>_.
        for_each_r validate_project_entry (cfg_registry cfg)))))))))))"

definition config_device_identity :: "local_config \<Rightarrow> device_identity" where
  "config_device_identity cfg =
     \<lparr>dv_device_id = cfg_device_id cfg, dv_display_name = cfg_device_name cfg,
      dv_platform_key = cfg_platform_key cfg, dv_architecture = cfg_architecture cfg,
      dv_capabilities_json = cfg_capabilities_json cfg, dv_paired_at = cfg_paired_at cfg,
      dv_last_seen = cfg_last_seen cfg\<rparr>"

definition resource_policy_for_context :: "local_config \<Rightarrow> resource_context \<Rightarrow> resource_policy" where
  "resource_policy_for_context cfg cx =
     adapted_for_context cx
       (if canonical_profile (cfg_resource_profile cfg) = CustomProfile
        then (case cfg_resource_limits cfg of
            None \<Rightarrow> policy_for_profile_with_parallelism CustomProfile (rc_parallelism cx)
          | Some l \<Rightarrow> (case policy_custom l of
              Inl _ \<Rightarrow> policy_for_profile_with_parallelism CustomProfile (rc_parallelism cx)
            | Inr p \<Rightarrow> p))
        else policy_for_profile_with_parallelism (cfg_resource_profile cfg) (rc_parallelism cx))"

text \<open>The migration of a project written before workspaces had entries of their own.\<close>

definition legacy_workspace :: "(string \<Rightarrow> string) \<Rightarrow> string \<Rightarrow> project_entry \<Rightarrow> workspace_entry" where
  "legacy_workspace blake3_hex device p =
     \<lparr>we_workspace_id = workspace_id_for blake3_hex (pr_project_id p) device (pr_local_path p),
      we_project_id = pr_project_id p, we_device_id = device, we_local_path = pr_local_path p,
      we_platform_profile = ''unknown'', we_state = WsActive, we_last_seen_head = None,
      we_last_checkpoint_id = None\<rparr>"

definition backfill_legacy_workspaces :: "(string \<Rightarrow> string) \<Rightarrow> local_config \<Rightarrow> local_config" where
  "backfill_legacy_workspaces blake3_hex cfg =
     cfg\<lparr>cfg_registry := map (\<lambda>(k, p).
       (k, if pr_workspaces p = [] \<and> pr_local_path p \<noteq> []
           then let w = legacy_workspace blake3_hex (cfg_device_id cfg) p
                in p\<lparr>pr_workspaces := bt_insert (we_workspace_id w) w (pr_workspaces p)\<rparr>
           else p)) (cfg_registry cfg)\<rparr>"

definition migrate_local_config ::
    "(string \<Rightarrow> string + int option) \<Rightarrow> string \<Rightarrow> string result" where
  "migrate_local_config toml_version raw =
     (case toml_version raw of
        Inl err \<Rightarrow> Inl (Toml err)
      | Inr None \<Rightarrow> Inl (Config ''config version is required'')
      | Inr (Some v) \<Rightarrow>
          if v = uint LOCAL_CONFIG_VERSION then Inr raw
          else Inl (Config (''no migration path for config version ''
                 @ (if v < 0 then ''-'' @ dec_nat (nat (- v)) else dec_nat (nat v)))))"

definition parse_config :: "(string \<Rightarrow> string) \<Rightarrow> json_codec \<Rightarrow> (string \<Rightarrow> string + int option)
    \<Rightarrow> (string \<Rightarrow> string + local_config) \<Rightarrow> string \<Rightarrow> local_config result" where
  "parse_config blake3_hex c toml_version toml_config raw =
     bind_r (migrate_local_config toml_version raw) (\<lambda>migrated.
       case toml_config migrated of
         Inl err \<Rightarrow> Inl (Toml err)
       | Inr cfg \<Rightarrow>
           let cfg' = backfill_legacy_workspaces blake3_hex cfg
           in bind_r (validate_config c cfg') (\<lambda>_. Inr cfg'))"

definition save_config :: "json_codec \<Rightarrow> (local_config \<Rightarrow> unit result) \<Rightarrow> local_config \<Rightarrow> unit result" where
  "save_config c write cfg = bind_r (validate_config c cfg) (\<lambda>_. write cfg)"

section \<open>Diagnostics\<close>

datatype policy_adjustment = AdjustBattery | AdjustLowPower | AdjustForegroundBusy

record policy_report =
  pol_configured :: resource_profile
  pol_effective :: resource_profile
  pol_custom_configured :: bool
  pol_limits :: resource_limits
  pol_adjustments :: "policy_adjustment list"
  pol_custom_limits_missing :: bool

definition run_resource_policy_doctor :: "local_config \<Rightarrow> resource_context \<Rightarrow> policy_report" where
  "run_resource_policy_doctor cfg cx =
     (let policy = resource_policy_for_context cfg cx
      in \<lparr>pol_configured = cfg_resource_profile cfg, pol_effective = rp_profile policy,
          pol_custom_configured = (cfg_resource_limits cfg \<noteq> None), pol_limits = rp_limits policy,
          pol_adjustments =
            (if rc_power_source cx = PowerBattery then [AdjustBattery] else [])
            @ (if rc_low_power_mode cx then [AdjustLowPower] else [])
            @ (if rc_foreground_load cx = ForegroundBusy then [AdjustForegroundBusy] else []),
          pol_custom_limits_missing =
            (canonical_profile (cfg_resource_profile cfg) = CustomProfile \<and> cfg_resource_limits cfg = None)\<rparr>)"

record redacted_project =
  red_project_id :: string
  red_display_name :: string
  red_local_path :: string
  red_workspace_count :: nat

record redacted_config =
  red_version :: u32
  red_fabric_name :: string
  red_device_id :: string
  red_device_name :: string
  red_platform_key :: string
  red_architecture :: string
  red_capabilities_json :: string
  red_paired_at :: "u64 option"
  red_last_seen :: u64
  red_editor_command :: string
  red_resource_profile :: resource_profile
  red_anchor_mode :: anchor_mode
  red_mdns_enabled :: bool
  red_manual_discovery_configured :: bool
  red_project_count :: nat
  red_projects :: "(string, redacted_project) btree_map"

definition redacted_for_diagnostics :: "local_config \<Rightarrow> redacted_config" where
  "redacted_for_diagnostics cfg =
     \<lparr>red_version = cfg_version cfg, red_fabric_name = cfg_fabric_name cfg,
      red_device_id = cfg_device_id cfg, red_device_name = cfg_device_name cfg,
      red_platform_key = cfg_platform_key cfg, red_architecture = cfg_architecture cfg,
      red_capabilities_json = cfg_capabilities_json cfg, red_paired_at = cfg_paired_at cfg,
      red_last_seen = cfg_last_seen cfg, red_editor_command = cfg_editor_command cfg,
      red_resource_profile = cfg_resource_profile cfg, red_anchor_mode = cfg_anchor_mode cfg,
      red_mdns_enabled = cfg_mdns_enabled cfg,
      red_manual_discovery_configured = (cfg_manual_discovery_address cfg \<noteq> None),
      red_project_count = length (cfg_registry cfg),
      red_projects = map (\<lambda>(k, p).
        (k, \<lparr>red_project_id = pr_project_id p, red_display_name = pr_display_name p,
             red_local_path = ''<redacted>'', red_workspace_count = length (pr_workspaces p)\<rparr>)) (cfg_registry cfg)\<rparr>"

section \<open>The limits are sound\<close>

definition limits_ok :: "resource_limits \<Rightarrow> bool" where
  "limits_ok l \<longleftrightarrow> 1 \<le> rl_cpu_slot_limit l \<and> 1 \<le> rl_hashing_concurrency_limit l
     \<and> (\<forall>b. rl_network_bandwidth l = Some b \<longrightarrow> 1 \<le> b)"

definition limits_le :: "resource_limits \<Rightarrow> resource_limits \<Rightarrow> bool" where
  "limits_le l k \<longleftrightarrow> rl_cpu_slot_limit l \<le> rl_cpu_slot_limit k
     \<and> rl_hashing_concurrency_limit l \<le> rl_hashing_concurrency_limit k
     \<and> (\<forall>b. rl_network_bandwidth k = Some b \<longrightarrow> (\<exists>a. rl_network_bandwidth l = Some a \<and> a \<le> b))"

lemma u64_pos_iff: "1 \<le> (x :: u64) \<longleftrightarrow> x \<noteq> 0"
  by (metis linorder_not_le not_less_zero word_neq_0_conv word_le_less_eq word_less_1)

lemma validate_limits_iff: "validate_limits l = Inr () \<longleftrightarrow> limits_ok l"
  by (auto simp: validate_limits_def limits_ok_def u64_pos_iff)

lemma limits_le_refl: "limits_le l l"
  by (simp add: limits_le_def)

lemma limits_le_trans: "limits_le a b \<Longrightarrow> limits_le b c \<Longrightarrow> limits_le a c"
  unfolding limits_le_def by (meson order_trans)

lemma cap_cpu_ok: "limits_ok l \<Longrightarrow> limits_ok (cap_cpu_and_hash a b l)"
  by (simp add: limits_ok_def cap_cpu_and_hash_def)

lemma cap_cpu_le: "limits_ok l \<Longrightarrow> limits_le (cap_cpu_and_hash a b l) l"
  by (simp add: limits_le_def limits_ok_def cap_cpu_and_hash_def min_le_iff_disj)

lemma cap_net_ok: "1 \<le> c \<Longrightarrow> limits_ok l \<Longrightarrow> limits_ok (cap_network_bandwidth c l)"
  by (auto simp: limits_ok_def cap_network_bandwidth_def split: option.splits)

lemma cap_net_le: "limits_le (cap_network_bandwidth c l) l"
  by (auto simp: limits_le_def cap_network_bandwidth_def)

text \<open>A combined cap, as each of the three adaptations applies it.\<close>

lemma cap_both:
  assumes "limits_ok l" "1 \<le> c"
  shows "limits_ok (cap_network_bandwidth c (cap_cpu_and_hash a b l))"
    "limits_le (cap_network_bandwidth c (cap_cpu_and_hash a b l)) l"
    "rl_cpu_slot_limit (cap_network_bandwidth c (cap_cpu_and_hash a b l)) \<le> max a 1"
    "rl_hashing_concurrency_limit (cap_network_bandwidth c (cap_cpu_and_hash a b l)) \<le> max b 1"
    "\<exists>w. rl_network_bandwidth (cap_network_bandwidth c (cap_cpu_and_hash a b l)) = Some w \<and> w \<le> c"
  using assms cap_net_ok [OF assms(2) cap_cpu_ok [OF assms(1), of a b]]
    limits_le_trans [OF cap_net_le [of c "cap_cpu_and_hash a b l"] cap_cpu_le [OF assms(1), of a b]]
  by (auto simp: cap_network_bandwidth_def cap_cpu_and_hash_def min_le_iff_disj split: option.splits)

lemma base_policy_ok: "limits_ok (rp_limits (policy_for_profile_with_parallelism p n))"
  by (cases p) (simp_all add: policy_for_profile_with_parallelism_def limits_ok_def Let_def)

lemma adapted_limits:
  assumes "limits_ok (rp_limits pol)"
  shows "limits_ok (rp_limits (adapted_for_context cx pol))
    \<and> limits_le (rp_limits (adapted_for_context cx pol)) (rp_limits pol)
    \<and> (rc_power_source cx = PowerBattery \<longrightarrow>
         rl_cpu_slot_limit (rp_limits (adapted_for_context cx pol)) \<le> max (rc_parallelism cx div 4) 1
         \<and> (\<exists>w. rl_network_bandwidth (rp_limits (adapted_for_context cx pol)) = Some w \<and> w \<le> 2048))
    \<and> (rc_low_power_mode cx \<longrightarrow>
         rl_cpu_slot_limit (rp_limits (adapted_for_context cx pol)) = 1
         \<and> rl_hashing_concurrency_limit (rp_limits (adapted_for_context cx pol)) = 1
         \<and> (\<exists>w. rl_network_bandwidth (rp_limits (adapted_for_context cx pol)) = Some w \<and> w \<le> 1024))"
proof -
  define b where "b = max (rc_parallelism cx div 4) 1"
  define l1 where "l1 = (if rc_power_source cx = PowerBattery
      then cap_network_bandwidth 2048 (cap_cpu_and_hash b b (rp_limits pol)) else rp_limits pol)"
  define l2 where "l2 = (if rc_foreground_load cx = ForegroundBusy
      then cap_network_bandwidth 4096 (cap_cpu_and_hash (max (rl_cpu_slot_limit l1 div 2) 1)
             (max (rl_hashing_concurrency_limit l1 div 2) 1) l1) else l1)"
  define l3 where "l3 = (if rc_low_power_mode cx
      then cap_network_bandwidth 1024 (cap_cpu_and_hash 1 1 l2) else l2)"
  have r: "rp_limits (adapted_for_context cx pol) = l3"
    unfolding adapted_for_context_def Let_def l3_def l2_def l1_def b_def by simp
  have 1: "limits_ok l1" "limits_le l1 (rp_limits pol)"
    using assms cap_both [of "rp_limits pol" 2048 b b] by (simp_all add: l1_def limits_le_refl)
  have 2: "limits_ok l2" "limits_le l2 l1"
    using 1 cap_both [of l1 4096] by (simp_all add: l2_def limits_le_refl)
  have 3: "limits_ok l3" "limits_le l3 l2"
    using 2 cap_both [of l2 1024 1 1] by (simp_all add: l3_def limits_le_refl)
  have le: "limits_le l3 l1" by (rule limits_le_trans [OF 3(2) 2(2)])
  have bat: "rl_cpu_slot_limit l1 \<le> b" "\<exists>w. rl_network_bandwidth l1 = Some w \<and> w \<le> 2048"
    if "rc_power_source cx = PowerBattery"
    using that assms cap_both(3) [of "rp_limits pol" 2048 b b] cap_both(5) [of "rp_limits pol" 2048 b b]
    by (simp_all add: l1_def b_def)
  have low: "rl_cpu_slot_limit l3 \<le> 1" "rl_hashing_concurrency_limit l3 \<le> 1"
      "\<exists>w. rl_network_bandwidth l3 = Some w \<and> w \<le> 1024" if "rc_low_power_mode cx"
    using that 2 cap_both(3-5) [of l2 1024 1 1] by (simp_all add: l3_def)
  have "rc_power_source cx = PowerBattery \<longrightarrow> rl_cpu_slot_limit l3 \<le> b
      \<and> (\<exists>w. rl_network_bandwidth l3 = Some w \<and> w \<le> 2048)"
    using bat le unfolding limits_le_def by (meson order_trans)
  moreover have "rc_low_power_mode cx \<longrightarrow> rl_cpu_slot_limit l3 = 1 \<and> rl_hashing_concurrency_limit l3 = 1
      \<and> (\<exists>w. rl_network_bandwidth l3 = Some w \<and> w \<le> 1024)"
    using low 3(1) unfolding limits_ok_def by (meson order_antisym)
  ultimately show ?thesis using 3(1) limits_le_trans [OF le 1(2)] by (simp add: r b_def)
qed

text \<open>
  Every configuration resolves, in every context, to limits a worker pool can run with: at
  least one CPU slot and one hashing slot, and no zero bandwidth cap, whatever the persisted
  custom limits say. On battery the CPU slots stay within a quarter of the cores and the bandwidth
  within 2048 KiB/s; in low-power mode there is exactly one slot of each and at most 1024 KiB/s.
\<close>

theorem resource_policy_bounds:
  "let l = rp_limits (resource_policy_for_context cfg cx) in
    validate_limits l = Inr ()
    \<and> (rc_power_source cx = PowerBattery \<longrightarrow> rl_cpu_slot_limit l \<le> max (rc_parallelism cx div 4) 1
         \<and> (\<exists>w. rl_network_bandwidth l = Some w \<and> w \<le> 2048))
    \<and> (rc_low_power_mode cx \<longrightarrow> rl_cpu_slot_limit l = 1 \<and> rl_hashing_concurrency_limit l = 1
         \<and> (\<exists>w. rl_network_bandwidth l = Some w \<and> w \<le> 1024))"
proof -
  obtain pol where pol: "resource_policy_for_context cfg cx = adapted_for_context cx pol"
      and ok: "limits_ok (rp_limits pol)"
  proof (cases "canonical_profile (cfg_resource_profile cfg) = CustomProfile")
    case True
    then show thesis
    proof (cases "cfg_resource_limits cfg")
      case None with True show thesis
        using base_policy_ok by (intro that [OF _ base_policy_ok]) (simp add: resource_policy_for_context_def)
    next
      case (Some k)
      show thesis
      proof (cases "validate_limits k")
        case (Inl e) with True Some show thesis
          by (intro that [OF _ base_policy_ok]) (simp add: resource_policy_for_context_def policy_custom_def)
      next
        case (Inr u) with True Some show thesis
          using validate_limits_iff [of k]
          by (intro that [of "\<lparr>rp_profile = CustomProfile, rp_limits = k\<rparr>"])
            (simp_all add: resource_policy_for_context_def policy_custom_def)
      qed
    qed
  next
    case False then show thesis
      by (intro that [OF _ base_policy_ok]) (simp add: resource_policy_for_context_def)
  qed
  show ?thesis using adapted_limits [OF ok, of cx] unfolding Let_def pol validate_limits_iff by blast
qed

definition ex_config :: local_config where
  "ex_config = \<lparr>cfg_version = 1, cfg_fabric_name = ''Personal Fabric'', cfg_device_id = ''a'',
     cfg_device_name = ''this-device'', cfg_platform_key = ''linux'', cfg_architecture = ''x86_64'',
     cfg_capabilities_json = ''{}'', cfg_paired_at = None, cfg_last_seen = 0,
     cfg_editor_command = ''system'', cfg_resource_profile = CustomProfile,
     cfg_resource_limits = Some \<lparr>rl_cpu_slot_limit = 0, rl_hashing_concurrency_limit = 8,
        rl_network_bandwidth = None\<rparr>,
     cfg_anchor_mode = AnchorLocalOnly, cfg_mdns_enabled = True, cfg_manual_discovery_address = None,
     cfg_registry = []\<rparr>"

theorem resource_policy_bounds_witness:
  "rl_cpu_slot_limit (rp_limits (resource_policy_for_context ex_config
     \<lparr>rc_parallelism = 16, rc_power_source = PowerBattery, rc_low_power_mode = False,
      rc_foreground_load = ForegroundIdle\<rparr>)) \<le> 4
   \<and> rl_cpu_slot_limit (rp_limits (resource_policy_for_context ex_config
     \<lparr>rc_parallelism = 16, rc_power_source = PowerAc, rc_low_power_mode = True,
      rc_foreground_load = ForegroundIdle\<rparr>)) = 1"
  using resource_policy_bounds [of ex_config "\<lparr>rc_parallelism = 16, rc_power_source = PowerBattery,
      rc_low_power_mode = False, rc_foreground_load = ForegroundIdle\<rparr>"]
    resource_policy_bounds [of ex_config "\<lparr>rc_parallelism = 16, rc_power_source = PowerAc,
      rc_low_power_mode = True, rc_foreground_load = ForegroundIdle\<rparr>"]
  by (simp add: Let_def)

end
