(* ===== verification/Remote_Rpc.thy ===== *)
theory Remote_Rpc
  imports Local_Config Metadata_System Transport_Security Identity_Certificates
begin

text \<open>
  JSON-RPC envelopes (\<open>rpc.rs\<close>), the client-facing error information (\<open>error.rs\<close>) and the remote
  control operations with their authorization checks and the pre-dispatch policy
  (\<open>remote_rpc.rs\<close>). Results are typed values; turning them into JSON is serde's part.
\<close>

section \<open>Envelopes\<close>

datatype rpc_id = RpcString string | RpcNumber u64

record rpc_request =
  rpq_jsonrpc :: string
  rpq_id :: "rpc_id option"
  rpq_method :: string
  rpq_params :: json

record rpc_error =
  rpe_code :: int
  rpe_message :: string
  rpe_data :: "json option"

record 'r rpc_response =
  rps_id :: "rpc_id option"
  rps_result :: "'r option"
  rps_error :: "rpc_error option"

definition RPC_PARSE_ERROR :: int where "RPC_PARSE_ERROR = - 32700"
definition RPC_INVALID_REQUEST :: int where "RPC_INVALID_REQUEST = - 32600"
definition RPC_METHOD_NOT_FOUND :: int where "RPC_METHOD_NOT_FOUND = - 32601"
definition RPC_INVALID_PARAMS :: int where "RPC_INVALID_PARAMS = - 32602"
definition RPC_INTERNAL_ERROR :: int where "RPC_INTERNAL_ERROR = - 32603"
definition RPC_VERSION_MISMATCH :: int where "RPC_VERSION_MISMATCH = - 32001"

definition RPC_PROTOCOL_VERSION :: u32 where "RPC_PROTOCOL_VERSION = 1"

definition rpc_with_detail :: "int \<Rightarrow> string \<Rightarrow> string \<Rightarrow> rpc_error" where
  "rpc_with_detail code message detail =
     \<lparr>rpe_code = code, rpe_message = message, rpe_data = Some (JObj [(''detail'', JStr detail)])\<rparr>"

definition rpc_parse_error :: "string \<Rightarrow> rpc_error" where
  "rpc_parse_error = rpc_with_detail RPC_PARSE_ERROR ''Parse error''"

definition rpc_invalid_request :: "string \<Rightarrow> rpc_error" where
  "rpc_invalid_request = rpc_with_detail RPC_INVALID_REQUEST ''Invalid request''"

definition rpc_method_not_found :: "string \<Rightarrow> rpc_error" where
  "rpc_method_not_found m =
     rpc_with_detail RPC_METHOD_NOT_FOUND ''Method not found'' (''unknown RPC method '' @ m)"

definition rpc_invalid_params :: "string \<Rightarrow> rpc_error" where
  "rpc_invalid_params = rpc_with_detail RPC_INVALID_PARAMS ''Invalid params''"

definition rpc_internal :: "string \<Rightarrow> rpc_error" where
  "rpc_internal = rpc_with_detail RPC_INTERNAL_ERROR ''Internal error''"

definition rpc_version_mismatch :: "u32 \<Rightarrow> rpc_error" where
  "rpc_version_mismatch v =
     \<lparr>rpe_code = RPC_VERSION_MISMATCH, rpe_message = ''Protocol version mismatch'',
      rpe_data = Some (JObj [(''client_protocol_version'', JNum (dec_u64 v)),
        (''server_protocol_version'', JNum (dec_u64 RPC_PROTOCOL_VERSION))])\<rparr>"

definition rpc_success :: "rpc_id \<Rightarrow> 'r \<Rightarrow> 'r rpc_response" where
  "rpc_success i r = \<lparr>rps_id = Some i, rps_result = Some r, rps_error = None\<rparr>"

definition rpc_failure :: "rpc_id option \<Rightarrow> rpc_error \<Rightarrow> 'r rpc_response" where
  "rpc_failure i e = \<lparr>rps_id = i, rps_result = None, rps_error = Some e\<rparr>"

definition validate_rpc_request :: "rpc_request \<Rightarrow> rpc_error + unit" where
  "validate_rpc_request q =
     (if rpq_jsonrpc q \<noteq> ''2.0'' then Inl (rpc_invalid_request ''jsonrpc must be 2.0'')
      else if rpq_id q = None
      then Inl (rpc_invalid_request ''request id is required; notifications are not supported'')
      else if trims_to_empty (rpq_method q) then Inl (rpc_invalid_request ''method must not be empty'')
      else Inr ())"

definition parse_rpc_request :: "(string \<Rightarrow> string + rpc_request) \<Rightarrow> string \<Rightarrow> rpc_error + rpc_request" where
  "parse_rpc_request from_slice bs =
     (case from_slice bs of
        Inl err \<Rightarrow> Inl (rpc_parse_error err)
      | Inr q \<Rightarrow> bind_r (validate_rpc_request q) (\<lambda>_. Inr q))"

definition required_id :: "rpc_request \<Rightarrow> rpc_error + rpc_id" where
  "required_id q = (case rpq_id q of None \<Rightarrow> Inl (rpc_invalid_request ''request id is required'') | Some i \<Rightarrow> Inr i)"

section \<open>Error information\<close>

fun error_title :: "dr_error \<Rightarrow> string" where
  "error_title (Io _) = ''Storage I/O error''"
| "error_title (Toml _) = ''Invalid manifest''"
| "error_title (TomlSerialize _) = ''Invalid manifest''"
| "error_title (Manifest _) = ''Invalid manifest''"
| "error_title (Json _) = ''Invalid snapshot metadata''"
| "error_title (SnapshotMetadata _) = ''Invalid snapshot metadata''"
| "error_title (Sqlite _) = ''Metadata store error''"
| "error_title (Glob _) = ''Invalid manifest glob''"
| "error_title (Config _) = ''Invalid local configuration''"
| "error_title (Ipc _) = ''Local IPC error''"
| "error_title (Watcher _) = ''Filesystem watcher error''"
| "error_title (Recover _) = ''Recovery snapshot not found''"
| "error_title (GitCommand _ _ _) = ''Git command failed''"
| "error_title (NotGitRepository _) = ''Not a Git repository''"
| "error_title (TargetDirty _) = ''Target workspace is dirty''"
| "error_title (MissingSourceObject _) = ''Missing source snapshot object''"
| "error_title (UnsupportedRepositoryState _) = ''Unsupported Git state''"
| "error_title (Verification _) = ''Snapshot verification failed''"

fun error_safe_action :: "dr_error \<Rightarrow> string" where
  "error_safe_action (Io _) = ''Check that the path exists and that DevRelay can read or write it.''"
| "error_safe_action (Toml _) = ''Check devrelay.toml syntax and required manifest fields.''"
| "error_safe_action (TomlSerialize _) = ''Check devrelay.toml syntax and required manifest fields.''"
| "error_safe_action (Manifest _) = ''Check devrelay.toml syntax and required manifest fields.''"
| "error_safe_action (Json _) = ''Export the snapshot again or choose a different snapshot ID.''"
| "error_safe_action (SnapshotMetadata _) = ''Export the snapshot again or choose a different snapshot ID.''"
| "error_safe_action (Sqlite _) = ''Check DEVRELAY_HOME permissions and retry the command.''"
| "error_safe_action (Glob _) = ''Fix the manifest include or exclude pattern and retry.''"
| "error_safe_action (Config _) =
     ''Run the command with the intended --config path and inspect the config file.''"
| "error_safe_action (Ipc _) = ''Check that the local DevRelay agent is running for the current user.''"
| "error_safe_action (Watcher _) = ''Check that the workspace path exists and is readable by DevRelay.''"
| "error_safe_action (Recover _) = ''Run devrelay recover list and verify the project or snapshot ID.''"
| "error_safe_action (GitCommand _ _ _) = ''Check the repository path and Git output, then retry.''"
| "error_safe_action (NotGitRepository _) = ''Choose a path inside an initialized Git repository.''"
| "error_safe_action (TargetDirty _) =
     ''Commit, stash, or clean the target, or use --dirty-policy snapshot-and-fork.''"
| "error_safe_action (MissingSourceObject _) =
     ''Use the snapshot store path or export the snapshot refs before applying.''"
| "error_safe_action (UnsupportedRepositoryState _) = ''Finish the in-progress Git operation and retry.''"
| "error_safe_action (Verification _) =
     ''Do not continue with the recovered workspace until the mismatch is resolved.''"

definition remote_rpc_error_from_devrelay :: "dr_error \<Rightarrow> rpc_error" where
  "remote_rpc_error_from_devrelay e =
     \<lparr>rpe_code = RPC_INVALID_REQUEST, rpe_message = error_title e,
      rpe_data = Some (JObj [(''code'', JStr (error_code e)), (''detail'', JStr (error_to_string e)),
        (''safe_actions'', JArr [JStr (error_safe_action e)])])\<rparr>"

section \<open>Remote reads\<close>

definition remote_rpc_methods :: "string list" where
  "remote_rpc_methods =
     [''rpc.negotiate'', ''devices.list'', ''projects.list'', ''workspaces.list'',
      ''sessions.snapshots.list'', ''handoffs.list'', ''handoff.begin'', ''handoff.abort'',
      ''handoff.target.verify'', ''handoff.source.ready'', ''handoff.commit'', ''handoff.recover'',
      ''recovery.list'', ''recovery.open'']"

definition is_remote_rpc_method_allowed :: "string \<Rightarrow> bool" where
  "is_remote_rpc_method_allowed m \<longleftrightarrow> m \<in> set remote_rpc_methods"

record negotiation_result =
  ng_protocol_version :: u32
  ng_server_name :: string
  ng_methods :: "string list"

definition remote_rpc_negotiate :: "u32 \<Rightarrow> rpc_error + negotiation_result" where
  "remote_rpc_negotiate client =
     (if client \<noteq> RPC_PROTOCOL_VERSION then Inl (rpc_version_mismatch client)
      else Inr \<lparr>ng_protocol_version = RPC_PROTOCOL_VERSION, ng_server_name = ''devrelay-remote'',
                ng_methods = remote_rpc_methods\<rparr>)"

record project_summary =
  psm_project_id :: string
  psm_display_name :: string
  psm_workspace_count :: nat
  psm_remote_url_fingerprint :: "string option"
  psm_root_commit_fingerprint :: "string option"

definition remote_projects_list :: "project_registry \<Rightarrow> project_summary list" where
  "remote_projects_list reg = map (\<lambda>(_, p).
     \<lparr>psm_project_id = pr_project_id p, psm_display_name = pr_display_name p,
      psm_workspace_count = length (pr_workspaces p),
      psm_remote_url_fingerprint = pr_remote_url_fingerprint p,
      psm_root_commit_fingerprint = pr_root_commit_fingerprint p\<rparr>) reg"

record workspace_summary =
  wsm_workspace_id :: string
  wsm_project_id :: string
  wsm_device_id :: string
  wsm_platform_profile :: string
  wsm_state :: workspace_state
  wsm_last_seen_head :: "string option"
  wsm_last_checkpoint_id :: "string option"
  wsm_local_path_redacted :: bool

definition remote_workspace_summary_from :: "workspace_entry \<Rightarrow> workspace_summary" where
  "remote_workspace_summary_from w =
     \<lparr>wsm_workspace_id = we_workspace_id w, wsm_project_id = we_project_id w, wsm_device_id = we_device_id w,
      wsm_platform_profile = we_platform_profile w, wsm_state = we_state w,
      wsm_last_seen_head = we_last_seen_head w, wsm_last_checkpoint_id = we_last_checkpoint_id w,
      wsm_local_path_redacted = True\<rparr>"

definition remote_workspaces_list :: "project_registry \<Rightarrow> string \<Rightarrow> workspace_summary list result" where
  "remote_workspaces_list reg project =
     (case bt_get reg project of
        None \<Rightarrow> Inl (Config (''unknown project '' @ project))
      | Some p \<Rightarrow> Inr (map (\<lambda>(_, w). remote_workspace_summary_from w) (pr_workspaces p)))"

record snapshot_summary =
  ssm_snapshot_id :: string
  ssm_project_id :: string
  ssm_session_id :: "string option"
  ssm_parent_snapshot_id :: "string option"
  ssm_sequence_number :: int
  ssm_pinned :: bool
  ssm_label :: "string option"
  ssm_created_at :: u64

definition remote_snapshot_summary_from :: "stored_snapshot \<Rightarrow> snapshot_summary" where
  "remote_snapshot_summary_from s =
     \<lparr>ssm_snapshot_id = sn_snapshot_id s, ssm_project_id = sn_project_id s, ssm_session_id = sn_session_id s,
      ssm_parent_snapshot_id = sn_parent_snapshot_id s, ssm_sequence_number = sn_sequence_number s,
      ssm_pinned = sn_pinned s, ssm_label = sn_label s, ssm_created_at = sn_created_at s\<rparr>"

text \<open>The stable descending sort by sequence number, creation time and id.\<close>

definition remote_snapshot_summaries_newest_first :: "stored_snapshot list \<Rightarrow> u64 option \<Rightarrow> snapshot_summary list" where
  "remote_snapshot_summaries_newest_first ss limit =
     map remote_snapshot_summary_from
       (take (unat (min (case limit of None \<Rightarrow> 100 | Some n \<Rightarrow> n) 500))
         (rev (sort_key (\<lambda>s. (sn_sequence_number s, unat (sn_created_at s), sn_snapshot_id s)) (rev ss))))"

definition remote_sessions_snapshots_list ::
    "metadata_db \<Rightarrow> string \<Rightarrow> string option \<Rightarrow> u64 option \<Rightarrow> snapshot_summary list" where
  "remote_sessions_snapshots_list db project session limit =
     remote_snapshot_summaries_newest_first
       (filter (\<lambda>s. case session of None \<Rightarrow> True | Some i \<Rightarrow> sn_session_id s = Some i)
         (list_stored_snapshots (Some project) db)) limit"

definition remote_recovery_list :: "metadata_db \<Rightarrow> string \<Rightarrow> u64 option \<Rightarrow> snapshot_summary list" where
  "remote_recovery_list db project limit =
     remote_snapshot_summaries_newest_first (list_stored_snapshots (Some project) db) limit"

record handoff_status =
  hs_record :: handoff_record
  hs_journal :: "handoff_journal_record list"

definition remote_handoffs_list :: "metadata_db \<Rightarrow> string option \<Rightarrow> bool \<Rightarrow> handoff_status list" where
  "remote_handoffs_list db project include_journal = map (\<lambda>h.
     \<lparr>hs_record = h, hs_journal = (if include_journal then list_handoff_journal (ho_handoff_id h) db else [])\<rparr>)
     (list_handoffs project db)"

section \<open>Remote handoff operations\<close>

record handoff_begin_params =
  hb_project :: string
  hb_lease_id :: string
  hb_target_device_id :: string
  hb_source_generation :: string
  hb_ttl_seconds :: "u64 option"

record handoff_id_params =
  hi_project :: string
  hi_handoff_id :: string

record handoff_commit_params = handoff_id_params +
  hi_observed_source_generation :: string

record handoff_mutation_result =
  hm_handoff :: handoff_record
  hm_journal :: "handoff_journal_record list"

record handoff_recover_result =
  hv_outcome :: recovery_outcome
  hv_handoff :: handoff_record
  hv_journal :: "handoff_journal_record list"

definition handoff_mutation_result :: "metadata_db \<times> handoff_record result
    \<Rightarrow> metadata_db \<times> handoff_mutation_result result" where
  "handoff_mutation_result m = (case m of (db, r) \<Rightarrow>
     (db, bind_r r (\<lambda>h. Inr \<lparr>hm_handoff = h, hm_journal = list_handoff_journal (ho_handoff_id h) db\<rparr>)))"

definition require_project :: "string \<Rightarrow> string \<Rightarrow> string \<Rightarrow> unit result" where
  "require_project actual expected operation =
     (if actual \<noteq> expected
      then Inl (Config (operation @ '' project mismatch: expected '' @ expected @ '', got '' @ actual))
      else Inr ())"

definition require_actor :: "string option \<Rightarrow> string \<Rightarrow> string \<Rightarrow> unit result" where
  "require_actor expected actor operation =
     (if expected \<noteq> Some actor
      then Inl (Config (operation @ '' actor mismatch: expected ''
             @ (case expected of None \<Rightarrow> ''<none>'' | Some e \<Rightarrow> e) @ '', got '' @ actor))
      else Inr ())"

definition require_source_or_target_actor :: "handoff_record \<Rightarrow> string \<Rightarrow> string \<Rightarrow> unit result" where
  "require_source_or_target_actor h actor operation =
     (if actor \<noteq> ho_source_device_id h \<and> actor \<noteq> ho_target_device_id h
      then Inl (Config (operation @ '' actor mismatch: expected source '' @ ho_source_device_id h
             @ '' or target '' @ ho_target_device_id h @ '', got '' @ actor))
      else Inr ())"

definition require_handoff_project :: "metadata_db \<Rightarrow> string \<Rightarrow> string \<Rightarrow> handoff_record result" where
  "require_handoff_project db project handoff_id =
     (case get_handoff handoff_id db of
        None \<Rightarrow> Inl (unknown_handoff handoff_id)
      | Some h \<Rightarrow> bind_r (require_project (ho_project_id h) project ''remote handoff'') (\<lambda>_. Inr h))"

text \<open>A check guards an operation: a failed check leaves the database alone.\<close>

definition guarded :: "'a result \<Rightarrow> ('a \<Rightarrow> metadata_db \<Rightarrow> metadata_db \<times> 'b result)
    \<Rightarrow> metadata_db \<Rightarrow> metadata_db \<times> 'b result" where
  "guarded check op db = (case check of Inl e \<Rightarrow> (db, Inl e) | Inr x \<Rightarrow> op x db)"

definition remote_handoff_begin ::
    "string \<Rightarrow> u64 \<Rightarrow> string \<Rightarrow> handoff_begin_params \<Rightarrow> metadata_db \<Rightarrow> metadata_db \<times> handoff_mutation_result result" where
  "remote_handoff_begin new_id now actor p db =
     guarded (case get_lease (hb_lease_id p) db of
         None \<Rightarrow> Inl (Config (''unknown lease '' @ hb_lease_id p))
       | Some lease \<Rightarrow>
           bind_r (require_project (lr_project_id lease) (hb_project p) ''handoff.begin'') (\<lambda>_.
           require_actor (lr_holder_device_id lease) actor ''handoff.begin source''))
       (\<lambda>_ db. handoff_mutation_result
          (begin_handoff new_id now (hb_lease_id p) actor (hb_target_device_id p) (hb_source_generation p)
            (case hb_ttl_seconds p of None \<Rightarrow> 600 | Some t \<Rightarrow> t) db)) db"

definition remote_handoff_target_verify ::
    "u64 \<Rightarrow> string \<Rightarrow> handoff_id_params \<Rightarrow> metadata_db \<Rightarrow> metadata_db \<times> handoff_mutation_result result" where
  "remote_handoff_target_verify now actor p db =
     guarded (bind_r (require_handoff_project db (hi_project p) (hi_handoff_id p)) (\<lambda>h.
         require_actor (Some (ho_target_device_id h)) actor ''handoff.target.verify target''))
       (\<lambda>_ db. handoff_mutation_result (mark_handoff_target_verified now (hi_handoff_id p) db)) db"

definition remote_handoff_source_ready ::
    "u64 \<Rightarrow> string \<Rightarrow> handoff_id_params \<Rightarrow> metadata_db \<Rightarrow> metadata_db \<times> handoff_mutation_result result" where
  "remote_handoff_source_ready now actor p db =
     guarded (bind_r (require_handoff_project db (hi_project p) (hi_handoff_id p)) (\<lambda>h.
         require_actor (Some (ho_source_device_id h)) actor ''handoff.source.ready source''))
       (\<lambda>_ db. handoff_mutation_result (mark_handoff_source_ready now (hi_handoff_id p) db)) db"

definition remote_handoff_commit ::
    "json_codec \<Rightarrow> u64 \<Rightarrow> string \<Rightarrow> handoff_commit_params \<Rightarrow> metadata_db \<Rightarrow> metadata_db \<times> handoff_mutation_result result" where
  "remote_handoff_commit c now actor p db =
     guarded (bind_r (require_handoff_project db (hi_project p) (hi_handoff_id p)) (\<lambda>h.
         require_actor (Some (ho_source_device_id h)) actor ''handoff.commit source''))
       (\<lambda>_ db. handoff_mutation_result
          (commit_handoff c (hi_handoff_id p) (hi_observed_source_generation p) now db)) db"

definition remote_handoff_abort ::
    "json_codec \<Rightarrow> u64 \<Rightarrow> string \<Rightarrow> handoff_id_params \<Rightarrow> metadata_db \<Rightarrow> metadata_db \<times> handoff_mutation_result result" where
  "remote_handoff_abort c now actor p db =
     guarded (bind_r (require_handoff_project db (hi_project p) (hi_handoff_id p)) (\<lambda>h.
         require_source_or_target_actor h actor ''handoff.abort''))
       (\<lambda>_ db. handoff_mutation_result (abort_handoff c now (hi_handoff_id p) db)) db"

definition remote_handoff_recover ::
    "json_codec \<Rightarrow> u64 \<Rightarrow> string \<Rightarrow> handoff_commit_params \<Rightarrow> metadata_db \<Rightarrow> metadata_db \<times> handoff_recover_result result" where
  "remote_handoff_recover c now actor p db =
     guarded (bind_r (require_handoff_project db (hi_project p) (hi_handoff_id p)) (\<lambda>h.
         require_source_or_target_actor h actor ''handoff.recover''))
       (\<lambda>_ db. let (db', r) = recover_handoff c (hi_handoff_id p) (hi_observed_source_generation p) now db
         in (db', bind_r r (\<lambda>outcome.
              bind_r (require_handoff_project db' (hi_project p) (hi_handoff_id p)) (\<lambda>h.
              Inr \<lparr>hv_outcome = outcome, hv_handoff = h, hv_journal = list_handoff_journal (hi_handoff_id p) db'\<rparr>)))) db"

section \<open>The pre-dispatch policy\<close>

record remote_context =
  rx_peer :: validated_device_certificate
  rx_request :: rpc_request

definition require_authenticated_control_channel ::
    "validated_device_certificate option \<Rightarrow> validated_device_certificate result" where
  "require_authenticated_control_channel peer = (case peer of
     None \<Rightarrow> Inl (Config ''control API request rejected: authenticated mTLS peer is required'')
   | Some d \<Rightarrow> Inr d)"

definition preflight_remote_rpc_request ::
    "(string \<Rightarrow> string + rpc_request) \<Rightarrow> validated_device_certificate option \<Rightarrow> request_envelope \<Rightarrow> string
      \<Rightarrow> transport_policy \<Rightarrow> u64 \<Rightarrow> replay_cache \<Rightarrow> replay_cache \<times> ('r rpc_response + remote_context)" where
  "preflight_remote_rpc_request from_slice peer control bs policy now seen =
     (case require_authenticated_control_channel peer of
        Inl err \<Rightarrow> (seen, Inl (rpc_failure None (remote_rpc_error_from_devrelay err)))
      | Inr device \<Rightarrow>
     (case validate_control_request_envelope policy control now seen of
        (seen', Inl err) \<Rightarrow> (seen', Inl (rpc_failure None (remote_rpc_error_from_devrelay err)))
      | (seen', Inr _) \<Rightarrow>
     (case parse_rpc_request from_slice bs of
        Inl err \<Rightarrow> (seen', Inl (rpc_failure None err))
      | Inr q \<Rightarrow>
     (case required_id q of
        Inl err \<Rightarrow> (seen', Inl (rpc_failure (rpq_id q) err))
      | Inr i \<Rightarrow>
          if \<not> is_remote_rpc_method_allowed (rpq_method q)
          then (seen', Inl (rpc_failure (Some i) (rpc_method_not_found (rpq_method q))))
          else (seen', Inr \<lparr>rx_peer = device, rx_request = q\<rparr>)))))"

end
