(* ===== verification/Agent_State.thy ===== *)
theory Agent_State
  imports Remote_Rpc Rust_Text Snapshot_Store
begin

text \<open>
  The state of the agent process (\<open>AgentState\<close> of \<open>devrelay-agent/src/main.rs\<close>) and what its
  request handlers share. The agent keeps a control database (devices, revocations, audit), one
  database per project, the local configuration, the event log, the replay cache of the remote
  server and the edit counters of the editors. Decoding of parameters, Git, the file system and
  the platform probes are the fields of \<open>agent_env\<close>; the clock readings and the generated id of a
  request are \<open>request_clock\<close>. Locks are never poisoned and a database can always be opened.
\<close>

section \<open>State\<close>

record agent =
  ag_control :: metadata_db
  ag_projects :: "string \<Rightarrow> metadata_db"
  ag_config :: local_config
  ag_events :: event_log
  ag_generations :: "(string, u64) btree_map"
  ag_replay :: replay_cache
  ag_root :: fabric_root_identity
  ag_policy :: transport_policy

abbreviation ag_registry :: "agent \<Rightarrow> project_registry" where
  "ag_registry a \<equiv> cfg_registry (ag_config a)"

abbreviation ag_device_id :: "agent \<Rightarrow> string" where
  "ag_device_id a \<equiv> cfg_device_id (ag_config a)"

abbreviation set_registry :: "project_registry \<Rightarrow> agent \<Rightarrow> agent" where
  "set_registry reg a \<equiv> a\<lparr>ag_config := (ag_config a)\<lparr>cfg_registry := reg\<rparr>\<rparr>"

definition set_project :: "string \<Rightarrow> metadata_db \<Rightarrow> agent \<Rightarrow> agent" where
  "set_project p db a = a\<lparr>ag_projects := (ag_projects a)(p := db)\<rparr>"

lemma set_project_sel [simp]:
  "ag_projects (set_project p db a) q = (if q = p then db else ag_projects a q)"
  "ag_control (set_project p db a) = ag_control a"
  "ag_config (set_project p db a) = ag_config a"
  "ag_events (set_project p db a) = ag_events a"
  "ag_generations (set_project p db a) = ag_generations a"
  by (simp_all add: set_project_def)

record request_clock =
  rn_now :: u64
  rn_op_now :: u64
  rn_millis :: u64
  rn_new_id :: string

section \<open>Replies\<close>

record recovered_snapshot =
  rcs_snapshot_id :: string
  rcs_project_id :: string
  rcs_session_id :: "string option"
  rcs_pinned :: bool
  rcs_label :: "string option"

definition remote_recovered_snapshot_from :: "stored_snapshot \<Rightarrow> recovered_snapshot" where
  "remote_recovered_snapshot_from s =
     \<lparr>rcs_snapshot_id = sn_snapshot_id s, rcs_project_id = sn_project_id s,
      rcs_session_id = sn_session_id s, rcs_pinned = sn_pinned s, rcs_label = sn_label s\<rparr>"

record ('s, 'w) recovery_open_result =
  ror_recovered :: 's
  ror_path :: string
  ror_name :: "string option"
  ror_registered :: "'w option"
  ror_verification :: verification_details

record apply_snapshot_result =
  asr_snapshot :: stored_snapshot
  asr_plan :: "json option"
  asr_verification :: "verification_details option"

record editor_context_update_result =
  ecu_accepted :: bool
  ecu_audit_id :: nat
  ecu_capsule_bytes :: nat
  ecu_recorded_at :: u64

record editor_context_snapshot =
  ecs_project :: "string option"
  ecs_audit_id :: nat
  ecs_capsule :: json
  ecs_captured_at :: u64

record editor_event_result =
  eer_project :: "string option"
  eer_source_generation :: u64
  eer_aborted_handoffs :: "handoff_record list"

record editor_restore_ack_result =
  era_accepted :: bool
  era_audit_id :: nat

record settings_result =
  st_fabric_name :: string
  st_device_id :: string
  st_device_name :: string
  st_platform_key :: string
  st_architecture :: string
  st_resource_profile :: resource_profile
  st_anchor_mode :: anchor_mode
  st_mdns_enabled :: bool
  st_editor_command :: string
  st_project_count :: nat

datatype agent_result =
    NegotiationReply negotiation_result
  | DevicesReply "device_identity list"
  | ProjectSummariesReply "project_summary list"
  | WorkspacesReply "workspace_summary list"
  | SnapshotSummariesReply "snapshot_summary list"
  | LeasesReply "lease_record list"
  | HandoffsReply "handoff_status list"
  | MutationReply handoff_mutation_result
  | RecoverReply handoff_recover_result
  | RemoteOpenedReply "(recovered_snapshot, workspace_summary) recovery_open_result"
  | LocalOpenedReply "(stored_snapshot, workspace_entry) recovery_open_result"
  | SnapshotsReply "stored_snapshot list"
  | SnapshotReply stored_snapshot
  | AppliedReply apply_snapshot_result
  | ProjectsReply "project_entry list"
  | ProjectReply project_entry
  | ActivityReply "audit_event_record list"
  | ContextUpdateReply editor_context_update_result
  | ContextReply "editor_context_snapshot option"
  | EditorEventReply editor_event_result
  | RestoreAckReply editor_restore_ack_result
  | SettingsReply settings_result

type_synonym reply = "agent_result rpc_response"

section \<open>Parameters of the requests\<close>

record recovery_open_params =
  rop_snapshot_id :: string
  rop_project :: "string option"
  rop_path :: string
  rop_register :: bool
  rop_name :: "string option"

record apply_snapshot_params =
  asp_project :: string
  asp_snapshot_id :: string
  asp_repo :: string
  asp_dry_run :: bool

record editor_context_update_params =
  cup_project :: "string option"
  cup_workspace_path :: "string option"
  cup_capsule :: json

datatype editor_event_kind = TextDocumentChanged | TextDocumentSaved | ActiveEditorChanged

record editor_event_params =
  eep_project :: "string option"
  eep_workspace_path :: "string option"
  eep_event_kind :: editor_event_kind
  eep_meaningful_edit :: bool

record editor_restore_ack_params =
  rap_project :: "string option"
  rap_restored_context_audit_id :: "int option"
  rap_succeeded :: bool
  rap_partial :: bool
  rap_detail :: json

record settings_update_params =
  sup_resource_profile :: "resource_profile option"
  sup_mdns_enabled :: "bool option"
  sup_editor_command :: "string option"

record projects_add_params =
  pap_path :: string
  pap_manifest :: "string option"

text \<open>What the handlers use of the outside.\<close>

record agent_env =
  en_json :: json_codec
  en_blake3_hex :: "string \<Rightarrow> string"
  en_path_exists :: "string \<Rightarrow> bool"
  en_canonicalize :: "string \<Rightarrow> string option"
  en_resolve_root :: "string \<Rightarrow> string + string"
  en_head :: "string \<Rightarrow> string option"
  en_remote_fingerprint :: "string \<Rightarrow> string option"
  en_root_commit :: "string \<Rightarrow> string option"
  en_file_name :: "string \<Rightarrow> string option"
  en_platform :: string
  en_load_manifest :: "string \<Rightarrow> string + (string \<times> string)"
  en_prepare_workspace :: "string \<Rightarrow> string \<Rightarrow> string + unit"
  en_plan_apply :: "string \<Rightarrow> snapshot_metadata \<Rightarrow> json result"
  en_apply :: "string \<Rightarrow> snapshot_metadata \<Rightarrow> verification_details result"
  en_open_anchor :: "string \<Rightarrow> unit result"
  en_write_config :: "local_config \<Rightarrow> unit result"
  en_db_exists :: "string \<Rightarrow> bool"

section \<open>Databases and projects\<close>

definition open_registered_project_db :: "agent \<Rightarrow> string \<Rightarrow> string + metadata_db" where
  "open_registered_project_db a project =
     (if bt_get (ag_registry a) project = None then Inl (''unknown project '' @ project)
      else Inr (ag_projects a project))"

definition ensure_known_target_device :: "agent \<Rightarrow> string \<Rightarrow> string + unit" where
  "ensure_known_target_device a target =
     (if get_device target (ag_control a) = None then Inl (''unknown target device '' @ target)
      else case ensure_device_not_revoked (ag_control a) target ''begin handoff'' of
        Inl err \<Rightarrow> Inl (error_to_string err) | Inr _ \<Rightarrow> Inr ())"

definition registered_project_ids_for_query :: "agent \<Rightarrow> string option \<Rightarrow> string + string list" where
  "registered_project_ids_for_query a project =
     (case project of
        Some p \<Rightarrow> if bt_get (ag_registry a) p = None then Inl (''unknown project '' @ p) else Inr [p]
      | None \<Rightarrow> Inr (bt_keys (ag_registry a)))"

definition project_ids_for_query :: "agent \<Rightarrow> string option \<Rightarrow> string list" where
  "project_ids_for_query a project =
     (case project of Some p \<Rightarrow> [p] | None \<Rightarrow> bt_keys (ag_registry a))"

definition find_project :: "project_registry \<Rightarrow> string \<Rightarrow> project_entry option" where
  "find_project reg id_or_name =
     (case bt_get reg id_or_name of
        Some p \<Rightarrow> Some p
      | None \<Rightarrow> find (\<lambda>p. pr_display_name p = id_or_name) (bt_values reg))"

section \<open>Events and audits\<close>

definition publish_handoff_state_changed ::
    "u64 \<Rightarrow> handoff_record \<Rightarrow> handoff_state option \<Rightarrow> agent \<Rightarrow> agent \<times> (string + unit)" where
  "publish_handoff_state_changed millis h previous a =
     (if previous = Some (ho_state h) then (a, Inr ())
      else case publish_event millis (HandoffStateChanged (handoff_changed_from h previous)) (ag_events a) of
        (l, Inl err) \<Rightarrow> (a\<lparr>ag_events := l\<rparr>, Inl err)
      | (l, Inr _) \<Rightarrow> (a\<lparr>ag_events := l\<rparr>, Inr ()))"

definition publish_workspace_state_changed ::
    "u64 \<Rightarrow> workspace_entry \<Rightarrow> workspace_state option \<Rightarrow> agent \<Rightarrow> agent \<times> (string + unit)" where
  "publish_workspace_state_changed millis w previous a =
     (case publish_event millis (WorkspaceStateChanged
         \<lparr>wsc_project_id = we_project_id w, wsc_workspace_id = we_workspace_id w,
          wsc_previous_state = previous, wsc_state = we_state w, wsc_device_id = Some (we_device_id w),
          wsc_last_seen_head = we_last_seen_head w, wsc_last_checkpoint_id = we_last_checkpoint_id w\<rparr>)
         (ag_events a) of
        (l, Inl err) \<Rightarrow> (a\<lparr>ag_events := l\<rparr>, Inl err)
      | (l, Inr _) \<Rightarrow> (a\<lparr>ag_events := l\<rparr>, Inr ()))"

definition json_int :: "int \<Rightarrow> json" where
  "json_int n = JNum (if n < 0 then ''-'' @ dec_nat (nat (- n)) else dec_nat (nat n))"

definition is_verification_error :: "dr_error \<Rightarrow> bool" where
  "is_verification_error e = (case e of Verification _ \<Rightarrow> True | _ \<Rightarrow> False)"

definition snapshot_apply_failure_summary :: "dr_error \<Rightarrow> string" where
  "snapshot_apply_failure_summary e =
     (if is_verification_error e then ''snapshot apply verification failed'' else ''snapshot apply failed'')"

definition snapshot_apply_audit ::
    "string \<Rightarrow> stored_snapshot \<Rightarrow> string \<Rightarrow> string option \<Rightarrow> string \<Rightarrow> verification_details \<Rightarrow> audit_event_input" where
  "snapshot_apply_audit device s target_path workspace operation v =
     (audit_new SnapshotApplied AuditSucceeded ''snapshot applied to workspace''
        (JObj [(''operation'', JStr operation), (''target_path'', JStr target_path),
          (''target_workspace_id'', json_opt_str workspace),
          (''verified_state_hash'', JStr (vd_state_hash v)),
          (''included_untracked_count'', JNum (dec_nat (length (vd_included_untracked v)))),
          (''excluded_path_count'', JNum (dec_nat (length (vd_excluded_paths v))))]))
     \<lparr>ai_project_id := Some (sn_project_id s), ai_actor_device_id := Some device,
      ai_session_id := sn_session_id s, ai_snapshot_id := Some (sn_snapshot_id s)\<rparr>"

definition snapshot_apply_failure_audit ::
    "string \<Rightarrow> stored_snapshot \<Rightarrow> string \<Rightarrow> string option \<Rightarrow> string \<Rightarrow> dr_error \<Rightarrow> audit_event_input" where
  "snapshot_apply_failure_audit device s target_path workspace operation e =
     (audit_new SnapshotApplied AuditFailed (snapshot_apply_failure_summary e)
        (JObj [(''operation'', JStr operation), (''target_path'', JStr target_path),
          (''target_workspace_id'', json_opt_str workspace), (''error_code'', JStr (error_code e)),
          (''error'', JStr (error_to_string e)),
          (''verification_failure'', JBool (is_verification_error e))]))
     \<lparr>ai_project_id := Some (sn_project_id s), ai_actor_device_id := Some device,
      ai_session_id := sn_session_id s, ai_snapshot_id := Some (sn_snapshot_id s)\<rparr>"

text \<open>Both audits go to the database of the snapshot's project.\<close>

definition record_project_audit ::
    "agent_env \<Rightarrow> request_clock \<Rightarrow> string \<Rightarrow> audit_event_input \<Rightarrow> agent \<Rightarrow> agent \<times> audit_event_record result" where
  "record_project_audit env ck project i a =
     (case record_audit_event_at (en_json env) i (rn_op_now ck) (ag_projects a project) of
        (db, r) \<Rightarrow> (set_project project db a, r))"

definition record_control_audit ::
    "agent_env \<Rightarrow> request_clock \<Rightarrow> audit_event_input \<Rightarrow> agent \<Rightarrow> agent \<times> audit_event_record result" where
  "record_control_audit env ck i a =
     (case record_audit_event_at (en_json env) i (rn_op_now ck) (ag_control a) of
        (db, r) \<Rightarrow> (a\<lparr>ag_control := db\<rparr>, r))"

section \<open>Handoff operations\<close>

text \<open>
  What the handlers that change a handoff share: open the project's database, run the operation,
  publish the state change, answer. The local and the remote server report errors differently.
\<close>

definition mutate_project ::
    "request_clock \<Rightarrow> rpc_id \<Rightarrow> (string \<Rightarrow> rpc_error) \<Rightarrow> string \<Rightarrow> (metadata_db \<Rightarrow> handoff_state option)
      \<Rightarrow> (metadata_db \<Rightarrow> metadata_db \<times> (rpc_error + 'm)) \<Rightarrow> ('m \<Rightarrow> handoff_record) \<Rightarrow> ('m \<Rightarrow> agent_result)
      \<Rightarrow> agent \<Rightarrow> agent \<times> reply" where
  "mutate_project ck i unknown project previous op handoff_of wrap a =
     (case open_registered_project_db a project of
        Inl err \<Rightarrow> (a, rpc_failure (Some i) (unknown err))
      | Inr db \<Rightarrow>
     (case op db of
        (db', Inl err) \<Rightarrow> (set_project project db' a, rpc_failure (Some i) err)
      | (db', Inr m) \<Rightarrow>
          (case publish_handoff_state_changed (rn_millis ck) (handoff_of m) (previous db) (set_project project db' a) of
             (a2, Inl err) \<Rightarrow> (a2, rpc_failure (Some i) (rpc_internal err))
           | (a2, Inr _) \<Rightarrow> (a2, rpc_success i (wrap m)))))"

definition failing_with :: "(dr_error \<Rightarrow> rpc_error) \<Rightarrow> metadata_db \<times> 'm result \<Rightarrow> metadata_db \<times> (rpc_error + 'm)" where
  "failing_with f m = (fst m, case snd m of Inl e \<Rightarrow> Inl (f e) | Inr x \<Rightarrow> Inr x)"

definition previous_state :: "string \<Rightarrow> metadata_db \<Rightarrow> handoff_state option" where
  "previous_state handoff_id db = map_option ho_state (get_handoff handoff_id db)"

section \<open>Registration of workspaces\<close>

definition ensure_workspace_not_registered :: "project_registry \<Rightarrow> string \<Rightarrow> string + unit" where
  "ensure_workspace_not_registered reg local_path =
     (case workspace_by_path reg local_path of
        Some (p, w) \<Rightarrow> Inl (local_path @ '' is already registered as workspace '' @ we_workspace_id w
             @ '' for '' @ pr_project_id p)
      | None \<Rightarrow>
     (case find (\<lambda>p. pr_workspaces p = [] \<and> path_eq (pr_local_path p) local_path) (bt_values reg) of
        Some p \<Rightarrow> Inl (local_path @ '' is already registered as '' @ pr_project_id p)
      | None \<Rightarrow> Inr ()))"

definition new_workspace_entry :: "agent_env \<Rightarrow> string \<Rightarrow> string \<Rightarrow> string \<Rightarrow> workspace_entry" where
  "new_workspace_entry env project device root =
     \<lparr>we_workspace_id = workspace_id_for (en_blake3_hex env) project device root,
      we_project_id = project, we_device_id = device, we_local_path = root,
      we_platform_profile = en_platform env, we_state = WsActive, we_last_seen_head = en_head env root,
      we_last_checkpoint_id = None\<rparr>"

definition insert_workspace :: "workspace_entry \<Rightarrow> project_entry \<Rightarrow> project_entry" where
  "insert_workspace w p = p\<lparr>pr_workspaces := bt_insert (we_workspace_id w) w (pr_workspaces p)\<rparr>"

definition register_recovery_workspace ::
    "agent_env \<Rightarrow> string \<Rightarrow> string \<Rightarrow> string \<Rightarrow> project_registry \<Rightarrow> project_registry \<times> (string + workspace_entry)" where
  "register_recovery_workspace env device project path reg =
     (case en_resolve_root env path of
        Inl err \<Rightarrow> (reg, Inl err)
      | Inr root \<Rightarrow>
     (case ensure_workspace_not_registered reg root of
        Inl err \<Rightarrow> (reg, Inl err)
      | Inr _ \<Rightarrow>
          (let w = new_workspace_entry env project device root
           in case bt_get reg project of
             None \<Rightarrow> (reg, Inl (''unknown project '' @ project))
           | Some p \<Rightarrow> (bt_insert project (insert_workspace w p) reg, Inr w))))"

definition generated_project_id :: "agent_env \<Rightarrow> string \<Rightarrow> string" where
  "generated_project_id env root = ''p_'' @ take 16 (en_blake3_hex env root)"

definition join_path :: "string \<Rightarrow> string \<Rightarrow> string" where
  "join_path base name = (if base = [] \<or> last base = CHR ''/'' then base @ name else base @ ''/'' @ name)"

definition build_project_registry_entry ::
    "agent_env \<Rightarrow> string \<Rightarrow> string \<Rightarrow> string option \<Rightarrow> string + project_entry" where
  "build_project_registry_entry env device path manifest =
     bind_r (en_resolve_root env path) (\<lambda>root.
     let manifest_path = (case manifest of
           Some m \<Rightarrow> Some m
         | None \<Rightarrow> if en_path_exists env (join_path root ''devrelay.toml'')
             then Some (join_path root ''devrelay.toml'') else None)
     in bind_r (case manifest_path of
            None \<Rightarrow> Inr None
          | Some m \<Rightarrow> (case en_load_manifest env m of
              Inl _ \<Rightarrow> Inl ''failed to load project manifest'' | Inr pn \<Rightarrow> Inr (Some pn))) (\<lambda>loaded.
        let project_id = (case loaded of Some (i, _) \<Rightarrow> i | None \<Rightarrow> generated_project_id env root);
            display_name = (case loaded of
                Some (_, n) \<Rightarrow> n
              | None \<Rightarrow> (case en_file_name env root of Some n \<Rightarrow> n | None \<Rightarrow> project_id));
            w = new_workspace_entry env project_id device root
        in Inr \<lparr>pr_project_id = project_id, pr_display_name = display_name, pr_local_path = root,
                pr_workspaces = [(we_workspace_id w, w)], pr_manifest_path = manifest_path,
                pr_remote_url_fingerprint = en_remote_fingerprint env root,
                pr_root_commit_fingerprint = en_root_commit env root\<rparr>))"

definition or_option :: "'a option \<Rightarrow> 'a option \<Rightarrow> 'a option" where
  "or_option a b = (case a of None \<Rightarrow> b | Some x \<Rightarrow> Some x)"

definition merge_project_registry_entry :: "project_entry \<Rightarrow> project_registry \<Rightarrow> project_registry" where
  "merge_project_registry_entry entry reg =
     (case bt_get reg (pr_project_id entry) of
        None \<Rightarrow> bt_insert (pr_project_id entry) entry reg
      | Some old \<Rightarrow> bt_insert (pr_project_id entry)
          (old\<lparr>pr_workspaces := fold (\<lambda>(k, w). bt_insert k w) (pr_workspaces entry) (pr_workspaces old),
               pr_manifest_path := or_option (pr_manifest_path old) (pr_manifest_path entry),
               pr_remote_url_fingerprint := or_option (pr_remote_url_fingerprint old) (pr_remote_url_fingerprint entry),
               pr_root_commit_fingerprint := or_option (pr_root_commit_fingerprint old)
                 (pr_root_commit_fingerprint entry)\<rparr>) reg)"

section \<open>Recovery\<close>

text \<open>
  Opening the snapshot store of a project and reading a snapshot from it: with a project, in that
  project only; without one, in the first registered project that has it.
\<close>

definition find_recovery_snapshot ::
    "agent \<Rightarrow> string option \<Rightarrow> string \<Rightarrow> string + (project_entry \<times> stored_snapshot)" where
  "find_recovery_snapshot a project snapshot_id =
     (case project of
        Some p \<Rightarrow>
          (case find_project (ag_registry a) p of
             None \<Rightarrow> Inl (''unknown project '' @ p)
           | Some e \<Rightarrow> (case store_get_snapshot (pr_project_id e) snapshot_id (ag_projects a (pr_project_id e)) of
               Inl err \<Rightarrow> Inl (error_to_string err) | Inr s \<Rightarrow> Inr (e, s)))
      | None \<Rightarrow>
          (case find_map (\<lambda>e. case store_get_snapshot (pr_project_id e) snapshot_id
                      (ag_projects a (pr_project_id e)) of Inl _ \<Rightarrow> None | Inr s \<Rightarrow> Some (e, s))
                  (bt_values (ag_registry a)) of
             Some r \<Rightarrow> Inr r
           | None \<Rightarrow> Inl (''unknown snapshot '' @ snapshot_id)))"

definition recovery_source_path :: "agent_env \<Rightarrow> project_entry \<Rightarrow> string + string" where
  "recovery_source_path env p =
     (case find (\<lambda>w. en_path_exists env (we_local_path w) \<and> we_state w = WsActive) (bt_values (pr_workspaces p)) of
        Some w \<Rightarrow> Inr (we_local_path w)
      | None \<Rightarrow>
          if en_path_exists env (pr_local_path p) then Inr (pr_local_path p)
          else Inl (''no existing source workspace for project '' @ pr_project_id p))"

definition recover_list_snapshots :: "agent \<Rightarrow> string option \<Rightarrow> string + stored_snapshot list" where
  "recover_list_snapshots a project =
     (case project of
        Some p \<Rightarrow> (case find_project (ag_registry a) p of
            None \<Rightarrow> Inl (''unknown project '' @ p)
          | Some e \<Rightarrow> Inr (store_list_snapshots (pr_project_id e) (ag_projects a (pr_project_id e))))
      | None \<Rightarrow> Inr (sort_key (\<lambda>s. (sn_project_id s, sn_sequence_number s))
          (concat (map (\<lambda>e. store_list_snapshots (pr_project_id e) (ag_projects a (pr_project_id e)))
            (bt_values (ag_registry a))))))"

text \<open>
  \<open>recover.open\<close> of the local server and \<open>recovery.open\<close> of the remote one are the same steps:
  find the snapshot, prepare the target workspace, apply, audit, and register the workspace if
  asked. They differ in the name the audit gives the operation, in how errors are reported and in
  what the reply shows.
\<close>

definition open_recovery ::
    "agent_env \<Rightarrow> request_clock \<Rightarrow> (string \<Rightarrow> rpc_error) \<Rightarrow> (dr_error \<Rightarrow> rpc_error) \<Rightarrow> string
      \<Rightarrow> (stored_snapshot \<Rightarrow> workspace_entry option \<Rightarrow> verification_details \<Rightarrow> agent_result)
      \<Rightarrow> recovery_open_params \<Rightarrow> agent \<Rightarrow> agent \<times> (rpc_error + agent_result)" where
  "open_recovery env ck refused failed operation wrap p a =
     (case find_recovery_snapshot a (rop_project p) (rop_snapshot_id p) of
        Inl err \<Rightarrow> (a, Inl (refused err))
      | Inr (entry, snapshot) \<Rightarrow>
     (case recovery_source_path env entry of
        Inl err \<Rightarrow> (a, Inl (rpc_internal err))
      | Inr source \<Rightarrow>
     (case en_prepare_workspace env (rop_path p) source of
        Inl err \<Rightarrow> (a, Inl (refused err))
      | Inr _ \<Rightarrow>
     (case en_apply env (rop_path p) (sn_metadata snapshot) of
        Inl e \<Rightarrow>
          (case record_project_audit env ck (sn_project_id snapshot)
                  (snapshot_apply_failure_audit (ag_device_id a) snapshot (rop_path p) None operation e) a of
             (a1, Inl e2) \<Rightarrow> (a1, Inl (rpc_internal (error_to_string e
                 @ ''; additionally failed to record apply failure audit: '' @ error_to_string e2)))
           | (a1, Inr _) \<Rightarrow> (a1, Inl (failed e)))
      | Inr v \<Rightarrow>
          (case record_project_audit env ck (sn_project_id snapshot)
                  (snapshot_apply_audit (ag_device_id a) snapshot (rop_path p) None operation v) a of
             (a1, Inl e2) \<Rightarrow> (a1, Inl (rpc_internal (error_to_string e2)))
           | (a1, Inr _) \<Rightarrow>
               if \<not> rop_register p then (a1, Inr (wrap snapshot None v))
               else
                 (case register_recovery_workspace env (ag_device_id a1) (pr_project_id entry) (rop_path p)
                         (ag_registry a1) of
                    (reg, Inl err) \<Rightarrow> (set_registry reg a1, Inl (rpc_internal err))
                  | (reg, Inr w) \<Rightarrow>
                      (let a2 = set_registry reg a1
                       in case save_config (en_json env) (en_write_config env) (ag_config a2) of
                         Inl e3 \<Rightarrow> (a2, Inl (rpc_internal (error_to_string e3)))
                       | Inr _ \<Rightarrow>
                           (case publish_workspace_state_changed (rn_millis ck) w None a2 of
                              (a3, Inl err) \<Rightarrow> (a3, Inl (rpc_internal err))
                            | (a3, Inr _) \<Rightarrow> (a3, Inr (wrap snapshot (Some w) v))))))))))"

end
