(* ===== verification/Agent_Remote.thy ===== *)
theory Agent_Remote
  imports Agent_State
begin

text \<open>
  The agent's remote control server: authentication of a frame (\<open>remote_transport.rs\<close>), dispatch
  of the request and its handlers, and the security audit of a rejected one (\<open>devrelay-agent\<close>'s
  \<open>main.rs\<close>), with the command of \<open>devrelay-cli\<close> that revokes a device. Decoding of frames and
  parameters and the TLS certificate parser are parameters.
\<close>

section \<open>Frames\<close>

record remote_frame =
  rf_control :: request_envelope
  rf_device_certificate :: device_certificate
  rf_rpc :: string

record remote_params = agent_env +
  rd_crypto :: crypto
  rd_frame :: "string \<Rightarrow> string + remote_frame"
  rd_request :: "string \<Rightarrow> string + rpc_request"
  rd_spki :: "string \<Rightarrow> bytes result"
  rd_negotiate :: "json \<Rightarrow> string + u32"
  rd_workspaces :: "json \<Rightarrow> string + string"
  rd_snapshots :: "json \<Rightarrow> string + (string \<times> string option \<times> u64 option)"
  rd_handoffs :: "json \<Rightarrow> string + (string option \<times> bool)"
  rd_begin :: "json \<Rightarrow> string + handoff_begin_params"
  rd_id :: "json \<Rightarrow> string + handoff_id_params"
  rd_commit :: "json \<Rightarrow> string + handoff_commit_params"
  rd_recovery :: "json \<Rightarrow> string + (string \<times> u64 option)"
  rd_open :: "json \<Rightarrow> string + recovery_open_params"

abbreviation rp_env :: "remote_params \<Rightarrow> agent_env" where
  "rp_env rp \<equiv> agent_env.truncate rp"

section \<open>Authentication\<close>

definition authenticate_remote_control_frame ::
    "remote_params \<Rightarrow> string \<Rightarrow> string \<Rightarrow> fabric_root_identity \<Rightarrow> device_revocation_record list
      \<Rightarrow> transport_policy \<Rightarrow> u64 \<Rightarrow> replay_cache \<Rightarrow> replay_cache \<times> (reply + remote_context)" where
  "authenticate_remote_control_frame rp bs leaf root revocations policy now seen =
     (case rd_frame rp bs of
        Inl err \<Rightarrow> (seen, Inl (rpc_failure None (rpc_invalid_request (''malformed remote control frame: '' @ err))))
      | Inr f \<Rightarrow>
     (case validate_device_certificate (en_json rp) (rd_crypto rp) (rf_device_certificate f) root revocations now of
        Inl err \<Rightarrow> (seen, Inl (rpc_failure None (remote_rpc_error_from_devrelay err)))
      | Inr validated \<Rightarrow>
     (case rd_spki rp leaf of
        Inl err \<Rightarrow> (seen, Inl (rpc_failure None (remote_rpc_error_from_devrelay err)))
      | Inr tls_key \<Rightarrow>
          if hex_encode tls_key \<noteq> vc_signing_public_key_hex validated
          then (seen, Inl (rpc_failure None (rpc_invalid_request
                 ''device certificate does not match the authenticated TLS channel key'')))
          else preflight_remote_rpc_request (rd_request rp) (Some validated) (rf_control f) (rf_rpc f)
                 policy now seen)))"

section \<open>Handlers\<close>

definition handle_remote_handoff_begin ::
    "remote_params \<Rightarrow> request_clock \<Rightarrow> string \<Rightarrow> rpc_id \<Rightarrow> json \<Rightarrow> agent \<Rightarrow> agent \<times> reply" where
  "handle_remote_handoff_begin rp ck actor i params a =
     (case rd_begin rp params of
        Inl err \<Rightarrow> (a, rpc_failure (Some i) (rpc_invalid_params err))
      | Inr p \<Rightarrow>
     (case ensure_known_target_device a (hb_target_device_id p) of
        Inl err \<Rightarrow> (a, rpc_failure (Some i) (rpc_invalid_request err))
      | Inr _ \<Rightarrow> mutate_project ck i rpc_invalid_request (hb_project p) (\<lambda>_. None)
          (\<lambda>db. failing_with remote_rpc_error_from_devrelay
             (remote_handoff_begin (rn_new_id ck) (rn_op_now ck) actor p db)) hm_handoff MutationReply a))"

definition handle_remote_handoff_id_mutation ::
    "remote_params \<Rightarrow> request_clock \<Rightarrow> rpc_id \<Rightarrow> json
      \<Rightarrow> (handoff_id_params \<Rightarrow> metadata_db \<Rightarrow> metadata_db \<times> handoff_mutation_result result)
      \<Rightarrow> agent \<Rightarrow> agent \<times> reply" where
  "handle_remote_handoff_id_mutation rp ck i params mutate a =
     (case rd_id rp params of
        Inl err \<Rightarrow> (a, rpc_failure (Some i) (rpc_invalid_params err))
      | Inr p \<Rightarrow> mutate_project ck i rpc_invalid_request (hi_project p) (previous_state (hi_handoff_id p))
          (\<lambda>db. failing_with remote_rpc_error_from_devrelay (mutate p db)) hm_handoff MutationReply a)"

definition handle_remote_handoff_commit ::
    "remote_params \<Rightarrow> request_clock \<Rightarrow> string \<Rightarrow> rpc_id \<Rightarrow> json \<Rightarrow> agent \<Rightarrow> agent \<times> reply" where
  "handle_remote_handoff_commit rp ck actor i params a =
     (case rd_commit rp params of
        Inl err \<Rightarrow> (a, rpc_failure (Some i) (rpc_invalid_params err))
      | Inr p \<Rightarrow> mutate_project ck i rpc_invalid_request (hi_project p) (previous_state (hi_handoff_id p))
          (\<lambda>db. failing_with remote_rpc_error_from_devrelay
             (remote_handoff_commit (en_json rp) (rn_op_now ck) actor p db)) hm_handoff MutationReply a)"

definition handle_remote_handoff_recover ::
    "remote_params \<Rightarrow> request_clock \<Rightarrow> string \<Rightarrow> rpc_id \<Rightarrow> json \<Rightarrow> agent \<Rightarrow> agent \<times> reply" where
  "handle_remote_handoff_recover rp ck actor i params a =
     (case rd_commit rp params of
        Inl err \<Rightarrow> (a, rpc_failure (Some i) (rpc_invalid_params err))
      | Inr p \<Rightarrow> mutate_project ck i rpc_invalid_request (hi_project p) (previous_state (hi_handoff_id p))
          (\<lambda>db. failing_with remote_rpc_error_from_devrelay
             (remote_handoff_recover (en_json rp) (rn_op_now ck) actor p db)) hv_handoff RecoverReply a)"

definition handle_remote_negotiate :: "remote_params \<Rightarrow> rpc_id \<Rightarrow> json \<Rightarrow> reply" where
  "handle_remote_negotiate rp i params =
     (case rd_negotiate rp params of
        Inl err \<Rightarrow> rpc_failure (Some i) (rpc_invalid_params err)
      | Inr v \<Rightarrow> (case remote_rpc_negotiate v of
          Inl err \<Rightarrow> rpc_failure (Some i) err | Inr r \<Rightarrow> rpc_success i (NegotiationReply r)))"

definition handle_remote_workspaces_list :: "remote_params \<Rightarrow> rpc_id \<Rightarrow> json \<Rightarrow> agent \<Rightarrow> reply" where
  "handle_remote_workspaces_list rp i params a =
     (case rd_workspaces rp params of
        Inl err \<Rightarrow> rpc_failure (Some i) (rpc_invalid_params err)
      | Inr p \<Rightarrow> (case remote_workspaces_list (ag_registry a) p of
          Inl err \<Rightarrow> rpc_failure (Some i) (remote_rpc_error_from_devrelay err)
        | Inr ws \<Rightarrow> rpc_success i (WorkspacesReply ws)))"

definition handle_remote_sessions_snapshots_list :: "remote_params \<Rightarrow> rpc_id \<Rightarrow> json \<Rightarrow> agent \<Rightarrow> reply" where
  "handle_remote_sessions_snapshots_list rp i params a =
     (case rd_snapshots rp params of
        Inl err \<Rightarrow> rpc_failure (Some i) (rpc_invalid_params err)
      | Inr (project, session, limit) \<Rightarrow> (case open_registered_project_db a project of
          Inl err \<Rightarrow> rpc_failure (Some i) (rpc_invalid_request err)
        | Inr db \<Rightarrow> rpc_success i (SnapshotSummariesReply (remote_sessions_snapshots_list db project session limit))))"

definition handle_remote_recovery_list :: "remote_params \<Rightarrow> rpc_id \<Rightarrow> json \<Rightarrow> agent \<Rightarrow> reply" where
  "handle_remote_recovery_list rp i params a =
     (case rd_recovery rp params of
        Inl err \<Rightarrow> rpc_failure (Some i) (rpc_invalid_params err)
      | Inr (project, limit) \<Rightarrow> (case open_registered_project_db a project of
          Inl err \<Rightarrow> rpc_failure (Some i) (rpc_invalid_request err)
        | Inr db \<Rightarrow> rpc_success i (SnapshotSummariesReply (remote_recovery_list db project limit))))"

definition handle_remote_handoffs_list :: "remote_params \<Rightarrow> rpc_id \<Rightarrow> json \<Rightarrow> agent \<Rightarrow> reply" where
  "handle_remote_handoffs_list rp i params a =
     (case rd_handoffs rp params of
        Inl err \<Rightarrow> rpc_failure (Some i) (rpc_invalid_params err)
      | Inr (project, include_journal) \<Rightarrow> (case registered_project_ids_for_query a project of
          Inl err \<Rightarrow> rpc_failure (Some i) (rpc_invalid_request err)
        | Inr ids \<Rightarrow> rpc_success i (HandoffsReply
            (concat (map (\<lambda>p. remote_handoffs_list (ag_projects a p) (Some p) include_journal) ids)))))"

definition handle_remote_recovery_open ::
    "remote_params \<Rightarrow> request_clock \<Rightarrow> rpc_id \<Rightarrow> json \<Rightarrow> agent \<Rightarrow> agent \<times> reply" where
  "handle_remote_recovery_open rp ck i params a =
     (case rd_open rp params of
        Inl err \<Rightarrow> (a, rpc_failure (Some i) (rpc_invalid_params err))
      | Inr p \<Rightarrow>
     (case open_recovery (rp_env rp) ck rpc_invalid_request remote_rpc_error_from_devrelay ''recovery.open''
             (\<lambda>s w v. RemoteOpenedReply
                \<lparr>ror_recovered = remote_recovered_snapshot_from s, ror_path = rop_path p, ror_name = rop_name p,
                 ror_registered = map_option remote_workspace_summary_from w, ror_verification = v\<rparr>) p a of
        (a', Inl err) \<Rightarrow> (a', rpc_failure (Some i) err)
      | (a', Inr r) \<Rightarrow> (a', rpc_success i r)))"

section \<open>Dispatch\<close>

definition dispatch_remote_request ::
    "remote_params \<Rightarrow> request_clock \<Rightarrow> remote_context \<Rightarrow> agent \<Rightarrow> agent \<times> reply" where
  "dispatch_remote_request rp ck cx a =
     (case required_id (rx_request cx) of
        Inl err \<Rightarrow> (a, rpc_failure None err)
      | Inr i \<Rightarrow>
          let m = rpq_method (rx_request cx); params = rpq_params (rx_request cx);
              actor = vc_device_id (rx_peer cx)
          in if m = ''rpc.negotiate'' then (a, handle_remote_negotiate rp i params)
             else if m = ''devices.list'' then (a, rpc_success i (DevicesReply (list_devices (ag_control a))))
             else if m = ''projects.list'' then (a, rpc_success i (ProjectSummariesReply (remote_projects_list (ag_registry a))))
             else if m = ''workspaces.list'' then (a, handle_remote_workspaces_list rp i params a)
             else if m = ''sessions.snapshots.list'' then (a, handle_remote_sessions_snapshots_list rp i params a)
             else if m = ''handoffs.list'' then (a, handle_remote_handoffs_list rp i params a)
             else if m = ''handoff.begin'' then handle_remote_handoff_begin rp ck actor i params a
             else if m = ''handoff.target.verify''
             then handle_remote_handoff_id_mutation rp ck i params (remote_handoff_target_verify (rn_op_now ck) actor) a
             else if m = ''handoff.source.ready''
             then handle_remote_handoff_id_mutation rp ck i params (remote_handoff_source_ready (rn_op_now ck) actor) a
             else if m = ''handoff.abort''
             then handle_remote_handoff_id_mutation rp ck i params
                    (remote_handoff_abort (en_json rp) (rn_op_now ck) actor) a
             else if m = ''handoff.commit'' then handle_remote_handoff_commit rp ck actor i params a
             else if m = ''handoff.recover'' then handle_remote_handoff_recover rp ck actor i params a
             else if m = ''recovery.list'' then (a, handle_remote_recovery_list rp i params a)
             else if m = ''recovery.open'' then handle_remote_recovery_open rp ck i params a
             else (a, rpc_failure (Some i) (rpc_method_not_found m)))"

definition security_block_audit :: "reply \<Rightarrow> audit_event_input" where
  "security_block_audit r =
     audit_new SecurityBlocked AuditBlocked ''remote control request rejected before dispatch''
       (JObj [(''boundary'', JStr ''remote-control-rpc''),
         (''error'', case rps_error r of
            None \<Rightarrow> JNull
          | Some e \<Rightarrow> JObj [(''code'', json_int (rpe_code e)), (''message'', JStr (rpe_message e)),
              (''data'', case rpe_data e of None \<Rightarrow> JNull | Some d \<Rightarrow> d)])])"

definition record_remote_security_block :: "remote_params \<Rightarrow> request_clock \<Rightarrow> reply \<Rightarrow> agent \<Rightarrow> agent" where
  "record_remote_security_block rp ck r a =
     a\<lparr>ag_control := fst (record_audit_event_at (en_json rp) (security_block_audit r) (rn_op_now ck) (ag_control a))\<rparr>"

definition process_remote_frame ::
    "remote_params \<Rightarrow> request_clock \<Rightarrow> string \<Rightarrow> string \<Rightarrow> agent \<Rightarrow> agent \<times> reply" where
  "process_remote_frame rp ck frame leaf a =
     (case authenticate_remote_control_frame rp frame leaf (ag_root a)
             (list_device_revocations (ag_control a)) (ag_policy a) (rn_now ck) (ag_replay a) of
        (seen, Inr cx) \<Rightarrow> dispatch_remote_request rp ck cx (a\<lparr>ag_replay := seen\<rparr>)
      | (seen, Inl response) \<Rightarrow>
          (record_remote_security_block rp ck response (a\<lparr>ag_replay := seen\<rparr>), response))"

text \<open>\<open>devrelay devices revoke\<close> of the command line, which writes the control database.\<close>

definition device_revoke_command :: "json_codec \<Rightarrow> string \<Rightarrow> string \<Rightarrow> bool \<Rightarrow> u64 \<Rightarrow> agent
    \<Rightarrow> agent \<times> device_revocation_record result" where
  "device_revoke_command c device_id reason rotation now a =
     (case revoke_device_at c device_id (ag_device_id a) reason rotation now (ag_control a) of
        (db, r) \<Rightarrow> (a\<lparr>ag_control := db\<rparr>, r))"

end
