(* ===== verification/Agent_Local.thy ===== *)
theory Agent_Local
  imports Agent_State
begin

text \<open>
  The handlers of the agent's local server (\<open>devrelay-agent/src/main.rs\<close>), each from its decoded
  parameters: leases and handoffs, snapshots, recovery, projects, editor events and context,
  settings and the activity list.
\<close>

section \<open>Leases and handoffs\<close>

definition handle_leases_list :: "rpc_id \<Rightarrow> string option \<Rightarrow> agent \<Rightarrow> reply" where
  "handle_leases_list i project a =
     (case registered_project_ids_for_query a project of
        Inl err \<Rightarrow> rpc_failure (Some i) (rpc_internal err)
      | Inr ids \<Rightarrow> rpc_success i (LeasesReply
          (concat (map (\<lambda>p. list_leases (Some p) (ag_projects a p)) ids))))"

definition handle_handoffs_list :: "rpc_id \<Rightarrow> string option \<Rightarrow> bool \<Rightarrow> agent \<Rightarrow> reply" where
  "handle_handoffs_list i project include_journal a =
     (case registered_project_ids_for_query a project of
        Inl err \<Rightarrow> rpc_failure (Some i) (rpc_internal err)
      | Inr ids \<Rightarrow> rpc_success i (HandoffsReply (concat (map (\<lambda>p.
          map (\<lambda>h. \<lparr>hs_record = h,
                    hs_journal = (if include_journal then list_handoff_journal (ho_handoff_id h) (ag_projects a p)
                                  else [])\<rparr>)
            (list_handoffs (Some p) (ag_projects a p))) ids))))"

definition DEFAULT_HANDOFF_TTL_SECONDS :: u64 where "DEFAULT_HANDOFF_TTL_SECONDS = 10 * 60"
definition MAX_HANDOFF_TTL_SECONDS :: u64 where "MAX_HANDOFF_TTL_SECONDS = 24 * 60 * 60"

definition local_handoff_ttl :: "u64 option \<Rightarrow> u64" where
  "local_handoff_ttl ttl =
     min (max (case ttl of None \<Rightarrow> DEFAULT_HANDOFF_TTL_SECONDS | Some t \<Rightarrow> t) 1) MAX_HANDOFF_TTL_SECONDS"

definition internal_error :: "dr_error \<Rightarrow> rpc_error" where
  "internal_error e = rpc_internal (error_to_string e)"

definition handle_handoff_begin :: "request_clock \<Rightarrow> rpc_id \<Rightarrow> handoff_begin_params \<Rightarrow> agent \<Rightarrow> agent \<times> reply" where
  "handle_handoff_begin ck i p a =
     (case ensure_known_target_device a (hb_target_device_id p) of
        Inl err \<Rightarrow> (a, rpc_failure (Some i) (rpc_internal err))
      | Inr _ \<Rightarrow> mutate_project ck i rpc_internal (hb_project p) (\<lambda>_. None)
          (\<lambda>db. failing_with internal_error (handoff_mutation_result
             (begin_handoff (rn_new_id ck) (rn_op_now ck) (hb_lease_id p) (ag_device_id a)
                (hb_target_device_id p) (hb_source_generation p) (local_handoff_ttl (hb_ttl_seconds p)) db)))
          hm_handoff MutationReply a)"

definition handle_handoff_id_mutation ::
    "request_clock \<Rightarrow> rpc_id \<Rightarrow> handoff_id_params
      \<Rightarrow> (string \<Rightarrow> metadata_db \<Rightarrow> metadata_db \<times> handoff_record result) \<Rightarrow> agent \<Rightarrow> agent \<times> reply" where
  "handle_handoff_id_mutation ck i p mutate a =
     mutate_project ck i rpc_internal (hi_project p) (previous_state (hi_handoff_id p))
       (\<lambda>db. failing_with internal_error (handoff_mutation_result (mutate (hi_handoff_id p) db)))
       hm_handoff MutationReply a"

definition handle_handoff_target_verify :: "request_clock \<Rightarrow> rpc_id \<Rightarrow> handoff_id_params \<Rightarrow> agent \<Rightarrow> agent \<times> reply" where
  "handle_handoff_target_verify ck i p =
     handle_handoff_id_mutation ck i p (mark_handoff_target_verified (rn_op_now ck))"

definition handle_handoff_source_ready :: "request_clock \<Rightarrow> rpc_id \<Rightarrow> handoff_id_params \<Rightarrow> agent \<Rightarrow> agent \<times> reply" where
  "handle_handoff_source_ready ck i p =
     handle_handoff_id_mutation ck i p (mark_handoff_source_ready (rn_op_now ck))"

definition handle_handoff_abort :: "json_codec \<Rightarrow> request_clock \<Rightarrow> rpc_id \<Rightarrow> handoff_id_params \<Rightarrow> agent \<Rightarrow> agent \<times> reply" where
  "handle_handoff_abort c ck i p =
     handle_handoff_id_mutation ck i p (abort_handoff c (rn_op_now ck))"

definition handle_handoff_commit ::
    "json_codec \<Rightarrow> request_clock \<Rightarrow> rpc_id \<Rightarrow> handoff_commit_params \<Rightarrow> agent \<Rightarrow> agent \<times> reply" where
  "handle_handoff_commit c ck i p a =
     mutate_project ck i rpc_internal (hi_project p) (previous_state (hi_handoff_id p))
       (\<lambda>db. failing_with internal_error (handoff_mutation_result
          (commit_handoff c (hi_handoff_id p) (hi_observed_source_generation p) (rn_op_now ck) db)))
       hm_handoff MutationReply a"

definition handle_handoff_recover ::
    "json_codec \<Rightarrow> request_clock \<Rightarrow> rpc_id \<Rightarrow> handoff_commit_params \<Rightarrow> agent \<Rightarrow> agent \<times> reply" where
  "handle_handoff_recover c ck i p a =
     mutate_project ck i rpc_internal (hi_project p) (previous_state (hi_handoff_id p))
       (\<lambda>db. case recover_handoff c (hi_handoff_id p) (hi_observed_source_generation p) (rn_op_now ck) db of
          (db', Inl e) \<Rightarrow> (db', Inl (internal_error e))
        | (db', Inr outcome) \<Rightarrow>
            (case get_handoff (hi_handoff_id p) db' of
               None \<Rightarrow> (db', Inl (rpc_internal (''handoff '' @ hi_handoff_id p @ '' disappeared'')))
             | Some h \<Rightarrow> (db', Inr \<lparr>hv_outcome = outcome, hv_handoff = h,
                  hv_journal = list_handoff_journal (hi_handoff_id p) db'\<rparr>)))
       hv_handoff RecoverReply a"

section \<open>Snapshots and recovery\<close>

definition handle_snapshots_list :: "rpc_id \<Rightarrow> string \<Rightarrow> agent \<Rightarrow> reply" where
  "handle_snapshots_list i project a =
     rpc_success i (SnapshotsReply (store_list_snapshots project (ag_projects a project)))"

definition registered_workspace_id :: "agent \<Rightarrow> string \<Rightarrow> string \<Rightarrow> string option" where
  "registered_workspace_id a project path =
     (case bt_get (ag_registry a) project of
        None \<Rightarrow> None
      | Some p \<Rightarrow> map_option we_workspace_id
          (find (\<lambda>w. path_eq (we_local_path w) path) (bt_values (pr_workspaces p))))"

definition handle_apply_snapshot ::
    "agent_env \<Rightarrow> request_clock \<Rightarrow> rpc_id \<Rightarrow> apply_snapshot_params \<Rightarrow> agent \<Rightarrow> agent \<times> reply" where
  "handle_apply_snapshot env ck i p a =
     (case store_get_snapshot (asp_project p) (asp_snapshot_id p) (ag_projects a (asp_project p)) of
        Inl err \<Rightarrow> (a, rpc_failure (Some i) (internal_error err))
      | Inr s \<Rightarrow>
     (let workspace = registered_workspace_id a (asp_project p) (asp_repo p)
      in case publish_event (rn_millis ck) (SnapshotApplyStarted
              \<lparr>ase_project_id = asp_project p, ase_snapshot_id = sn_snapshot_id s,
               ase_target_workspace_id = workspace, ase_dry_run = asp_dry_run p\<rparr>) (ag_events a) of
        (l, Inl err) \<Rightarrow> (a\<lparr>ag_events := l\<rparr>, rpc_failure (Some i) (rpc_internal err))
      | (l, Inr _) \<Rightarrow>
     (let a1 = a\<lparr>ag_events := l\<rparr>
      in if asp_dry_run p
         then (case en_plan_apply env (asp_repo p) (sn_metadata s) of
             Inl err \<Rightarrow> (a1, rpc_failure (Some i) (internal_error err))
           | Inr plan \<Rightarrow> (a1, rpc_success i (AppliedReply
               \<lparr>asr_snapshot = s, asr_plan = Some plan, asr_verification = None\<rparr>)))
         else (case en_apply env (asp_repo p) (sn_metadata s) of
             Inl e \<Rightarrow>
               (case record_project_audit env ck (sn_project_id s)
                       (snapshot_apply_failure_audit (ag_device_id a1) s (asp_repo p) workspace ''apply.snapshot'' e) a1 of
                  (a2, Inl e2) \<Rightarrow> (a2, rpc_failure (Some i) (rpc_internal (error_to_string e
                      @ ''; additionally failed to record apply failure audit: '' @ error_to_string e2)))
                | (a2, Inr _) \<Rightarrow> (a2, rpc_failure (Some i) (internal_error e)))
           | Inr v \<Rightarrow>
               (case record_project_audit env ck (sn_project_id s)
                       (snapshot_apply_audit (ag_device_id a1) s (asp_repo p) workspace ''apply.snapshot'' v) a1 of
                  (a2, Inl e2) \<Rightarrow> (a2, rpc_failure (Some i) (internal_error e2))
                | (a2, Inr _) \<Rightarrow>
                    (case publish_event (rn_millis ck) (SnapshotApplyVerified
                            \<lparr>ave_project_id = asp_project p, ave_snapshot_id = sn_snapshot_id s,
                             ave_target_workspace_id = workspace, ave_verification = v\<rparr>) (ag_events a2) of
                       (l2, Inl err) \<Rightarrow> (a2\<lparr>ag_events := l2\<rparr>, rpc_failure (Some i) (rpc_internal err))
                     | (l2, Inr _) \<Rightarrow> (a2\<lparr>ag_events := l2\<rparr>, rpc_success i (AppliedReply
                         \<lparr>asr_snapshot = s, asr_plan = None, asr_verification = Some v\<rparr>))))))))"

definition handle_recover_list :: "rpc_id \<Rightarrow> string option \<Rightarrow> agent \<Rightarrow> reply" where
  "handle_recover_list i project a =
     (case recover_list_snapshots a project of
        Inl err \<Rightarrow> rpc_failure (Some i) (rpc_internal err)
      | Inr ss \<Rightarrow> rpc_success i (SnapshotsReply ss))"

definition handle_recover_show :: "rpc_id \<Rightarrow> string option \<Rightarrow> string \<Rightarrow> agent \<Rightarrow> reply" where
  "handle_recover_show i project snapshot_id a =
     (case find_recovery_snapshot a project snapshot_id of
        Inl err \<Rightarrow> rpc_failure (Some i) (rpc_internal err)
      | Inr (_, s) \<Rightarrow> rpc_success i (SnapshotReply s))"

definition handle_recover_open ::
    "agent_env \<Rightarrow> request_clock \<Rightarrow> rpc_id \<Rightarrow> recovery_open_params \<Rightarrow> agent \<Rightarrow> agent \<times> reply" where
  "handle_recover_open env ck i p a =
     (case open_recovery env ck rpc_internal internal_error ''recover.open''
             (\<lambda>s w v. LocalOpenedReply \<lparr>ror_recovered = s, ror_path = rop_path p, ror_name = rop_name p,
                ror_registered = w, ror_verification = v\<rparr>) p a of
        (a', Inl err) \<Rightarrow> (a', rpc_failure (Some i) err)
      | (a', Inr r) \<Rightarrow> (a', rpc_success i r))"

section \<open>Projects\<close>

fun publish_workspaces :: "u64 \<Rightarrow> workspace_entry list \<Rightarrow> agent \<Rightarrow> agent \<times> (string + unit)" where
  "publish_workspaces millis [] a = (a, Inr ())"
| "publish_workspaces millis (w # ws) a =
     (case publish_workspace_state_changed millis w None a of
        (a1, Inl err) \<Rightarrow> (a1, Inl err) | (a1, Inr _) \<Rightarrow> publish_workspaces millis ws a1)"

definition handle_projects_add ::
    "agent_env \<Rightarrow> request_clock \<Rightarrow> rpc_id \<Rightarrow> projects_add_params \<Rightarrow> agent \<Rightarrow> agent \<times> reply" where
  "handle_projects_add env ck i p a =
     (case build_project_registry_entry env (ag_device_id a) (pap_path p) (pap_manifest p) of
        Inl err \<Rightarrow> (a, rpc_failure (Some i) (rpc_internal err))
      | Inr entry \<Rightarrow>
     (case ensure_workspace_not_registered (ag_registry a) (pr_local_path entry) of
        Inl err \<Rightarrow> (a, rpc_failure (Some i) (rpc_internal err))
      | Inr _ \<Rightarrow>
     (case (if role_from_anchor_mode (cfg_anchor_mode (ag_config a)) = RoleAnchor
            then en_open_anchor env (pr_project_id entry) else Inr ()) of
        Inl err \<Rightarrow> (a, rpc_failure (Some i) (internal_error err))
      | Inr _ \<Rightarrow>
     (let a1 = set_registry (merge_project_registry_entry entry (ag_registry a)) a
      in case save_config (en_json env) (en_write_config env) (ag_config a1) of
        Inl err \<Rightarrow> (a1, rpc_failure (Some i) (internal_error err))
      | Inr _ \<Rightarrow>
     (case ensure_default_session (rn_new_id ck) (rn_op_now ck) (pr_project_id entry) (pr_display_name entry) None
             (ag_projects a1 (pr_project_id entry)) of
        (db, Inl err) \<Rightarrow> (set_project (pr_project_id entry) db a1, rpc_failure (Some i) (internal_error err))
      | (db, Inr _) \<Rightarrow>
     (case publish_workspaces (rn_millis ck) (bt_values (pr_workspaces entry)) (set_project (pr_project_id entry) db a1) of
        (a2, Inl err) \<Rightarrow> (a2, rpc_failure (Some i) (rpc_internal err))
      | (a2, Inr _) \<Rightarrow> (a2, rpc_success i (ProjectReply entry))))))))"

definition handle_projects_list :: "rpc_id \<Rightarrow> agent \<Rightarrow> reply" where
  "handle_projects_list i a = rpc_success i (ProjectsReply (bt_values (ag_registry a)))"

definition handle_projects_show :: "rpc_id \<Rightarrow> string \<Rightarrow> agent \<Rightarrow> reply" where
  "handle_projects_show i id_or_name a =
     (case find_project (ag_registry a) id_or_name of
        None \<Rightarrow> rpc_failure (Some i) (rpc_internal (''unknown project '' @ id_or_name))
      | Some p \<Rightarrow> rpc_success i (ProjectReply p))"

definition handle_projects_remove :: "agent_env \<Rightarrow> rpc_id \<Rightarrow> string \<Rightarrow> agent \<Rightarrow> agent \<times> reply" where
  "handle_projects_remove env i id_or_name a =
     (case find_project (ag_registry a) id_or_name of
        None \<Rightarrow> (a, rpc_failure (Some i) (rpc_internal (''unknown project '' @ id_or_name)))
      | Some found \<Rightarrow>
     (case bt_get (ag_registry a) (pr_project_id found) of
        None \<Rightarrow> (a, rpc_failure (Some i) (rpc_internal (''project disappeared '' @ pr_project_id found)))
      | Some p \<Rightarrow>
     (let a1 = set_registry (bt_remove (pr_project_id found) (ag_registry a)) a
      in case save_config (en_json env) (en_write_config env) (ag_config a1) of
        Inl err \<Rightarrow> (a1, rpc_failure (Some i) (internal_error err))
      | Inr _ \<Rightarrow> (a1, rpc_success i (ProjectReply p)))))"

section \<open>Editor events\<close>

definition resolve_editor_event_project :: "agent_env \<Rightarrow> agent \<Rightarrow> editor_event_params \<Rightarrow> string + string option" where
  "resolve_editor_event_project env a p =
     (case eep_project p of
        Some raw \<Rightarrow>
          (let project = trim_str raw
           in if project = [] then Inl ''project must not be empty''
              else if bt_get (ag_registry a) project = None then Inl (''unknown project '' @ project)
              else Inr (Some project))
      | None \<Rightarrow>
     (case eep_workspace_path p of
        None \<Rightarrow> Inr None
      | Some path \<Rightarrow>
     (case workspace_by_path (ag_registry a) path of
        Some (e, _) \<Rightarrow> Inr (Some (pr_project_id e))
      | None \<Rightarrow>
     (case en_canonicalize env path of
        None \<Rightarrow> Inr None
      | Some canonical \<Rightarrow>
          Inr (map_option (\<lambda>(e, _). pr_project_id e) (workspace_by_path (ag_registry a) canonical))))))"

definition editor_source_generation_key :: "string option \<Rightarrow> string option \<Rightarrow> string" where
  "editor_source_generation_key project path =
     (case project of
        Some p \<Rightarrow> ''project:'' @ p
      | None \<Rightarrow> (case path of Some w \<Rightarrow> ''workspace:'' @ w | None \<Rightarrow> ''workspace:unknown''))"

fun abort_each ::
    "agent_env \<Rightarrow> request_clock \<Rightarrow> string \<Rightarrow> handoff_record list \<Rightarrow> handoff_record list \<Rightarrow> agent
      \<Rightarrow> agent \<times> (string + handoff_record list)" where
  "abort_each env ck project [] aborted a = (a, Inr aborted)"
| "abort_each env ck project (h # hs) aborted a =
     (case abort_handoff_with_reason (en_json env) (rn_op_now ck) (ho_handoff_id h)
             ''source generation changed by editor event'' (ag_projects a project) of
        (db, Inl e) \<Rightarrow> (set_project project db a, Inl (error_to_string e))
      | (db, Inr h') \<Rightarrow>
          (case publish_handoff_state_changed (rn_millis ck) h' (Some (ho_state h)) (set_project project db a) of
             (a1, Inl err) \<Rightarrow> (a1, Inl err)
           | (a1, Inr _) \<Rightarrow> abort_each env ck project hs (aborted @ [h']) a1))"

definition abort_source_handoffs_after_editor_edit ::
    "agent_env \<Rightarrow> request_clock \<Rightarrow> string option \<Rightarrow> agent \<Rightarrow> agent \<times> (string + handoff_record list)" where
  "abort_source_handoffs_after_editor_edit env ck project a =
     (case project of
        None \<Rightarrow> (a, Inr [])
      | Some p \<Rightarrow>
     (case open_registered_project_db a p of
        Inl err \<Rightarrow> (a, Inl err)
      | Inr db \<Rightarrow> abort_each env ck p
          (filter (\<lambda>h. \<not> handoff_is_terminal (ho_state h) \<and> ho_source_device_id h = ag_device_id a)
            (list_handoffs (Some p) db)) [] a))"

definition handle_editor_event_record ::
    "agent_env \<Rightarrow> request_clock \<Rightarrow> rpc_id \<Rightarrow> editor_event_params \<Rightarrow> agent \<Rightarrow> agent \<times> reply" where
  "handle_editor_event_record env ck i p a =
     (case resolve_editor_event_project env a p of
        Inl err \<Rightarrow> (a, rpc_failure (Some i) (rpc_internal err))
      | Inr project \<Rightarrow>
     (let key = editor_source_generation_key project (eep_workspace_path p);
          edit = (eep_event_kind p = TextDocumentChanged \<and> eep_meaningful_edit p);
          old = bt_get_or 0 (ag_generations a) key;
          new = (if edit then sat_add old 1 else old);
          a1 = a\<lparr>ag_generations := bt_insert key new (ag_generations a)\<rparr>
      in case (if edit then abort_source_handoffs_after_editor_edit env ck project a1 else (a1, Inr [])) of
           (a2, Inl err) \<Rightarrow> (a2, rpc_failure (Some i) (rpc_internal err))
         | (a2, Inr aborted) \<Rightarrow> (a2, rpc_success i (EditorEventReply
              \<lparr>eer_project = project, eer_source_generation = new, eer_aborted_handoffs = aborted\<rparr>))))"

section \<open>Editor context\<close>

definition MAX_EDITOR_CONTEXT_CAPSULE_BYTES :: nat where
  "MAX_EDITOR_CONTEXT_CAPSULE_BYTES = 128 * 1024"

definition is_json_object :: "json \<Rightarrow> bool" where
  "is_json_object v = (case v of JObj _ \<Rightarrow> True | _ \<Rightarrow> False)"

text \<open>An optional project parameter, trimmed; an empty one is refused.\<close>

definition trimmed_project :: "string option \<Rightarrow> rpc_error + string option" where
  "trimmed_project project =
     (case project of
        None \<Rightarrow> Inr None
      | Some p \<Rightarrow> if trim_str p = [] then Inl (rpc_invalid_params ''project must not be empty'')
          else Inr (Some (trim_str p)))"

definition record_scoped_audit ::
    "agent_env \<Rightarrow> request_clock \<Rightarrow> string option \<Rightarrow> audit_event_input \<Rightarrow> agent \<Rightarrow> agent \<times> audit_event_record result" where
  "record_scoped_audit env ck project i =
     (case project of None \<Rightarrow> record_control_audit env ck i | Some p \<Rightarrow> record_project_audit env ck p i)"

definition handle_editor_context_update ::
    "agent_env \<Rightarrow> request_clock \<Rightarrow> rpc_id \<Rightarrow> editor_context_update_params \<Rightarrow> agent \<Rightarrow> agent \<times> reply" where
  "handle_editor_context_update env ck i p a =
     (if \<not> is_json_object (cup_capsule p)
      then (a, rpc_failure (Some i) (rpc_invalid_params ''capsule must be a JSON object''))
      else
        let bytes = length (js_print (en_json env) (cup_capsule p))
        in if MAX_EDITOR_CONTEXT_CAPSULE_BYTES < bytes
           then (a, rpc_failure (Some i) (rpc_invalid_params (''editor context capsule exceeds ''
                  @ dec_nat MAX_EDITOR_CONTEXT_CAPSULE_BYTES @ '' bytes'')))
           else (case trimmed_project (cup_project p) of
             Inl err \<Rightarrow> (a, rpc_failure (Some i) err)
           | Inr project \<Rightarrow>
               (case record_scoped_audit env ck project
                      ((audit_new EditorContextUpdated AuditSucceeded ''editor context updated''
                          (JObj [(''workspace_path'', json_opt_str (cup_workspace_path p)),
                             (''capsule'', cup_capsule p), (''capsule_bytes'', JNum (dec_nat bytes))]))
                       \<lparr>ai_project_id := project, ai_actor_device_id := Some (ag_device_id a)\<rparr>) a of
                  (a1, Inl e) \<Rightarrow> (a1, rpc_failure (Some i) (internal_error e))
                | (a1, Inr r) \<Rightarrow> (a1, rpc_success i (ContextUpdateReply
                    \<lparr>ecu_accepted = True, ecu_audit_id = ae_audit_id (ar_row r), ecu_capsule_bytes = bytes,
                     ecu_recorded_at = ae_created_at (ar_row r)\<rparr>)))))"

definition json_get :: "string \<Rightarrow> json \<Rightarrow> json option" where
  "json_get k v = (case v of JObj kvs \<Rightarrow> map_of kvs k | _ \<Rightarrow> None)"

definition editor_context_from_audit :: "audit_event_record \<Rightarrow> editor_context_snapshot option" where
  "editor_context_from_audit r =
     (if ae_event_type (ar_row r) \<noteq> EditorContextUpdated then None
      else case json_get ''capsule'' (ar_detail r) of
        None \<Rightarrow> None
      | Some capsule \<Rightarrow> Some \<lparr>ecs_project = ae_project_id (ar_row r), ecs_audit_id = ae_audit_id (ar_row r),
          ecs_capsule = capsule, ecs_captured_at = ae_created_at (ar_row r)\<rparr>)"

text \<open>The audit events of several databases, in the order the databases are read.\<close>

fun gather_audits :: "(string \<Rightarrow> audit_event_record list result) \<Rightarrow> string list \<Rightarrow> audit_event_record list result" where
  "gather_audits list_of [] = Inr []"
| "gather_audits list_of (p # ps) = bind_r (list_of p) (\<lambda>es. bind_r (gather_audits list_of ps) (\<lambda>rest. Inr (es @ rest)))"

definition handle_editor_context_latest :: "agent_env \<Rightarrow> rpc_id \<Rightarrow> string option \<Rightarrow> agent \<Rightarrow> reply" where
  "handle_editor_context_latest env i project a =
     (case registered_project_ids_for_query a project of
        Inl err \<Rightarrow> rpc_failure (Some i) (rpc_internal err)
      | Inr ids \<Rightarrow>
     (case bind_r (if project = None then list_audit_events (en_json env) None 100 (ag_control a) else Inr []) (\<lambda>es.
           bind_r (gather_audits (\<lambda>p. list_audit_events (en_json env) (Some p) 100 (ag_projects a p))
                     (filter (en_db_exists env) ids)) (\<lambda>rest. Inr (es @ rest))) of
        Inl e \<Rightarrow> rpc_failure (Some i) (internal_error e)
      | Inr events \<Rightarrow>
          (let contexts = rev (sort_key (\<lambda>c. (unat (ecs_captured_at c), ecs_audit_id c))
                 (rev (List.map_filter editor_context_from_audit events)))
           in rpc_success i (ContextReply (case contexts of [] \<Rightarrow> None | c # _ \<Rightarrow> Some c)))))"

definition handle_editor_restore_ack ::
    "agent_env \<Rightarrow> request_clock \<Rightarrow> rpc_id \<Rightarrow> editor_restore_ack_params \<Rightarrow> agent \<Rightarrow> agent \<times> reply" where
  "handle_editor_restore_ack env ck i p a =
     (case trimmed_project (rap_project p) of
        Inl err \<Rightarrow> (a, rpc_failure (Some i) err)
      | Inr project \<Rightarrow>
     (case (case project of None \<Rightarrow> Inr [] | Some q \<Rightarrow> registered_project_ids_for_query a (Some q)) of
        Inl err \<Rightarrow> (a, rpc_failure (Some i) (rpc_internal err))
      | Inr _ \<Rightarrow>
     (case record_scoped_audit env ck project
             ((audit_new EditorRestoreAcked (if rap_succeeded p then AuditSucceeded else AuditFailed)
                 (if rap_partial p then ''editor context partially restored''
                  else if rap_succeeded p then ''editor context restored''
                  else ''editor context restore failed'')
                 (JObj [(''restored_context_audit_id'',
                     case rap_restored_context_audit_id p of None \<Rightarrow> JNull | Some n \<Rightarrow> json_int n),
                    (''partial'', JBool (rap_partial p)), (''detail'', rap_detail p)]))
              \<lparr>ai_project_id := project, ai_actor_device_id := Some (ag_device_id a)\<rparr>) a of
        (a1, Inl e) \<Rightarrow> (a1, rpc_failure (Some i) (internal_error e))
      | (a1, Inr r) \<Rightarrow> (a1, rpc_success i (RestoreAckReply
          \<lparr>era_accepted = True, era_audit_id = ae_audit_id (ar_row r)\<rparr>)))))"

section \<open>Settings, devices and activity\<close>

definition settings_from_config :: "local_config \<Rightarrow> settings_result" where
  "settings_from_config cfg =
     \<lparr>st_fabric_name = cfg_fabric_name cfg, st_device_id = cfg_device_id cfg,
      st_device_name = cfg_device_name cfg, st_platform_key = cfg_platform_key cfg,
      st_architecture = cfg_architecture cfg, st_resource_profile = cfg_resource_profile cfg,
      st_anchor_mode = cfg_anchor_mode cfg, st_mdns_enabled = cfg_mdns_enabled cfg,
      st_editor_command = cfg_editor_command cfg, st_project_count = length (cfg_registry cfg)\<rparr>"

definition handle_settings_get :: "rpc_id \<Rightarrow> agent \<Rightarrow> reply" where
  "handle_settings_get i a = rpc_success i (SettingsReply (settings_from_config (ag_config a)))"

text \<open>The configuration is changed in place, one field after the other, before the checks that follow.\<close>

definition handle_settings_update ::
    "agent_env \<Rightarrow> rpc_id \<Rightarrow> settings_update_params \<Rightarrow> agent \<Rightarrow> agent \<times> reply" where
  "handle_settings_update env i p a =
     (let cfg1 = (case sup_resource_profile p of
            None \<Rightarrow> ag_config a | Some r \<Rightarrow> (ag_config a)\<lparr>cfg_resource_profile := r\<rparr>);
          cfg2 = (case sup_mdns_enabled p of None \<Rightarrow> cfg1 | Some m \<Rightarrow> cfg1\<lparr>cfg_mdns_enabled := m\<rparr>)
      in case (case sup_editor_command p of
             None \<Rightarrow> Inr cfg2
           | Some cmd \<Rightarrow> if trims_to_empty cmd
               then Inl (rpc_invalid_params ''editor_command must not be empty'')
               else Inr (cfg2\<lparr>cfg_editor_command := cmd\<rparr>)) of
           Inl err \<Rightarrow> (a\<lparr>ag_config := cfg2\<rparr>, rpc_failure (Some i) err)
         | Inr cfg3 \<Rightarrow>
             (case save_config (en_json env) (en_write_config env) cfg3 of
                Inl e \<Rightarrow> (a\<lparr>ag_config := cfg3\<rparr>, rpc_failure (Some i) (internal_error e))
              | Inr _ \<Rightarrow> (a\<lparr>ag_config := cfg3\<rparr>, rpc_success i (SettingsReply (settings_from_config cfg3)))))"

definition handle_devices_list :: "rpc_id \<Rightarrow> agent \<Rightarrow> reply" where
  "handle_devices_list i a = rpc_success i (DevicesReply (list_devices (ag_control a)))"

definition handle_activity_list :: "agent_env \<Rightarrow> rpc_id \<Rightarrow> string option \<Rightarrow> nat option \<Rightarrow> agent \<Rightarrow> reply" where
  "handle_activity_list env i project limit a =
     (let n = clamp_limit (case limit of None \<Rightarrow> 100 | Some l \<Rightarrow> l)
      in case bind_r (list_audit_events (en_json env) project n (ag_control a)) (\<lambda>es.
              bind_r (gather_audits (\<lambda>p. list_audit_events (en_json env) (Some p) n (ag_projects a p))
                        (filter (en_db_exists env) (project_ids_for_query a project))) (\<lambda>rest. Inr (es @ rest))) of
           Inl e \<Rightarrow> rpc_failure (Some i) (internal_error e)
         | Inr events \<Rightarrow> rpc_success i (ActivityReply
             (take n (rev (sort_key (\<lambda>e. (unat (ae_created_at (ar_row e)), ae_audit_id (ar_row e))) (rev events))))))"

end
