(* ===== verification/Agent_Safety.thy ===== *)
theory Agent_Safety
  imports Agent_Remote Agent_Local
begin

text \<open>
  The agent as a whole: its handlers move its databases only by operations of the metadata
  database, so every invariant of those carries over; a remote frame moves a lease only with the
  authority the protocol asks for; an edit in the editor ends the handoffs it invalidates; the
  registry never lists a directory twice.
\<close>

section \<open>Databases of the agent\<close>

text \<open>One agent state follows another by runs of database operations.\<close>

definition agent_moves :: "json_codec \<Rightarrow> (string \<Rightarrow> string) \<Rightarrow> agent \<Rightarrow> agent \<Rightarrow> bool" where
  "agent_moves c hash a b \<longleftrightarrow> (db_step c hash)\<^sup>*\<^sup>* (ag_control a) (ag_control b)
     \<and> (\<forall>p. (db_step c hash)\<^sup>*\<^sup>* (ag_projects a p) (ag_projects b p))"

named_theorems moves

lemma moves_refl [simp, moves]: "agent_moves c hash a a"
  by (simp add: agent_moves_def)

lemma moves_trans [trans]: "agent_moves c hash a b \<Longrightarrow> agent_moves c hash b d \<Longrightarrow> agent_moves c hash a d"
  by (auto simp: agent_moves_def intro: rtranclp_trans)

lemma moves_same: "ag_control b = ag_control a \<Longrightarrow> ag_projects b = ag_projects a \<Longrightarrow> agent_moves c hash a b"
  by (simp add: agent_moves_def)

lemma moves_project:
  "(db_step c hash)\<^sup>*\<^sup>* (ag_projects a p) db \<Longrightarrow> agent_moves c hash a (set_project p db a)"
  by (simp add: agent_moves_def)

lemma moves_control: "(db_step c hash)\<^sup>*\<^sup>* (ag_control a) db \<Longrightarrow> agent_moves c hash a (a\<lparr>ag_control := db\<rparr>)"
  by (simp add: agent_moves_def)

text \<open>The operations the handlers call, as runs.\<close>

lemma run_handoff: "handoff_step c a b \<Longrightarrow> (db_step c hash)\<^sup>*\<^sup>* a b"
  using db_handoff by (metis r_into_rtranclp)

lemma run_audit: "record_audit_event_at c i now a = (b, r) \<Longrightarrow> (db_step c hash)\<^sup>*\<^sup>* a b"
  using db_audit_event by (metis r_into_rtranclp)

lemma run_default_session: "ensure_default_session i now p n w a = (b, r) \<Longrightarrow> (db_step c hash)\<^sup>*\<^sup>* a b"
  using db_default_session by (metis r_into_rtranclp)

lemma run_revoke: "revoke_device_at c d by_d reason rot now a = (b, r) \<Longrightarrow> (db_step c hash)\<^sup>*\<^sup>* a b"
  using db_revoke by (metis r_into_rtranclp)

section \<open>What the shared parts touch\<close>

lemma publish_handoff_frame:
  "publish_handoff_state_changed ms h prev a = (b, r) \<Longrightarrow> b = a\<lparr>ag_events := ag_events b\<rparr>"
  by (auto simp: publish_handoff_state_changed_def split: prod.splits sum.splits if_splits)

lemma publish_workspace_frame:
  "publish_workspace_state_changed ms w prev a = (b, r) \<Longrightarrow> b = a\<lparr>ag_events := ag_events b\<rparr>"
  by (auto simp: publish_workspace_state_changed_def split: prod.splits sum.splits)

lemma publish_workspaces_frame: "publish_workspaces ms ws a = (b, r) \<Longrightarrow> b = a\<lparr>ag_events := ag_events b\<rparr>"
proof (induction ws arbitrary: a)
  case (Cons w ws)
  then show ?case
    by (auto split: prod.splits sum.splits dest!: publish_workspace_frame)
      (metis agent.select_convs(4) agent.surjective agent.update_convs(4))+
qed simp

lemma mutate_shape:
  assumes "mutate_project ck i u project prev op of_h wrap a = (b, r)"
  shows "b = a \<or> (bt_get (ag_registry a) project \<noteq> None
    \<and> (\<exists>ev. b = (set_project project (fst (op (ag_projects a project))) a)\<lparr>ag_events := ev\<rparr>))"
proof (cases "bt_get (ag_registry a) project")
  case None
  with assms show ?thesis by (simp add: mutate_project_def open_registered_project_db_def)
next
  case (Some e)
  obtain db m where op: "op (ag_projects a project) = (db, m)" by (cases "op (ag_projects a project)")
  let ?a1 = "set_project project db a"
  have same: "?a1\<lparr>ag_events := ag_events ?a1\<rparr> = ?a1" by simp
  show ?thesis
  proof (cases m)
    case (Inl err)
    then have "b = ?a1" using assms Some op by (simp add: mutate_project_def open_registered_project_db_def)
    with same op Some show ?thesis by (metis fst_conv option.distinct(1))
  next
    case (Inr x)
    obtain a2 q where pub: "publish_handoff_state_changed (rn_millis ck) (of_h x) (prev (ag_projects a project)) ?a1 = (a2, q)"
      by fastforce
    then have "b = a2" using assms Some op Inr
      by (cases q) (simp_all add: mutate_project_def open_registered_project_db_def)
    with publish_handoff_frame [OF pub] op Some show ?thesis by (metis fst_conv option.distinct(1))
  qed
qed

lemma moves_mutate:
  assumes run: "mutate_project ck i u project prev op of_h wrap a = (b, r)"
    and op: "(db_step c hash)\<^sup>*\<^sup>* (ag_projects a project) (fst (op (ag_projects a project)))"
  shows "agent_moves c hash a b"
  using mutate_shape [OF run]
proof (elim disjE exE conjE)
  fix ev assume "b = (set_project project (fst (op (ag_projects a project))) a)\<lparr>ag_events := ev\<rparr>"
  with op show ?thesis by (simp add: agent_moves_def)
qed simp

lemma fst_failing_with [simp]: "fst (failing_with f m) = fst m"
  by (simp add: failing_with_def)

lemma fst_mutation_result [simp]: "fst (handoff_mutation_result m) = fst m"
  by (simp add: handoff_mutation_result_def split: prod.splits)

lemma fst_guarded: "fst (guarded check op db) = (case check of Inl e \<Rightarrow> db | Inr x \<Rightarrow> fst (op x db))"
  by (simp add: guarded_def split: sum.splits)

text \<open>Every remote handoff operation is a run of handoff steps.\<close>

lemmas remote_op_defs = remote_handoff_begin_def remote_handoff_target_verify_def
  remote_handoff_source_ready_def remote_handoff_commit_def remote_handoff_abort_def remote_handoff_recover_def

lemma run_begin: "(db_step c hash)\<^sup>*\<^sup>* db (fst (begin_handoff i now lid s t g ttl db))"
  by (cases "begin_handoff i now lid s t g ttl db") (auto intro: run_handoff hs_begin)

lemma run_verified: "(db_step c hash)\<^sup>*\<^sup>* db (fst (mark_handoff_target_verified now i db))"
  by (cases "mark_handoff_target_verified now i db") (auto intro: run_handoff hs_verified)

lemma run_ready: "(db_step c hash)\<^sup>*\<^sup>* db (fst (mark_handoff_source_ready now i db))"
  by (cases "mark_handoff_source_ready now i db") (auto intro: run_handoff hs_ready)

lemma run_commit: "(db_step c hash)\<^sup>*\<^sup>* db (fst (commit_handoff c i obs now db))"
  unfolding commit_handoff_def
  by (cases "commit_handoff_inner c i obs now None db") (auto intro: run_handoff hs_commit)

lemma run_abort: "(db_step c hash)\<^sup>*\<^sup>* db (fst (abort_handoff_with_reason c now i why db))"
  unfolding abort_handoff_with_reason_def
  by (cases "abort_handoff_at c i now why db") (auto intro: run_handoff hs_abort)

lemma run_manual_abort: "(db_step c hash)\<^sup>*\<^sup>* db (fst (abort_handoff c now i db))"
  unfolding abort_handoff_def
  by (cases "abort_handoff_at c i now ''manual abort'' db") (auto intro: run_handoff hs_abort)

lemma run_recover: "(db_step c hash)\<^sup>*\<^sup>* db (fst (recover_handoff c i obs now db))"
  by (cases "recover_handoff c i obs now db") (auto intro: run_handoff hs_recover)

lemmas runs = run_begin run_verified run_ready run_commit run_abort run_manual_abort run_recover

lemma run_remote:
  "(db_step c hash)\<^sup>*\<^sup>* db (fst (remote_handoff_begin i now actor bp db))"
  "(db_step c hash)\<^sup>*\<^sup>* db (fst (remote_handoff_target_verify now actor p db))"
  "(db_step c hash)\<^sup>*\<^sup>* db (fst (remote_handoff_source_ready now actor p db))"
  "(db_step c hash)\<^sup>*\<^sup>* db (fst (remote_handoff_commit c now actor cp db))"
  "(db_step c hash)\<^sup>*\<^sup>* db (fst (remote_handoff_abort c now actor p db))"
  "(db_step c hash)\<^sup>*\<^sup>* db (fst (remote_handoff_recover c now actor cp db))"
  using runs
  by (simp_all add: remote_op_defs fst_guarded split_def Let_def split: sum.splits)

lemma moves_record_project: "record_project_audit env ck p i a = (b, r) \<Longrightarrow> agent_moves (en_json env) hash a b"
  unfolding record_project_audit_def
  by (auto split: prod.splits intro!: moves_project intro: run_audit)

lemma moves_record_control: "record_control_audit env ck i a = (b, r) \<Longrightarrow> agent_moves (en_json env) hash a b"
  unfolding record_control_audit_def
  by (auto split: prod.splits intro!: moves_control intro: run_audit)

lemma moves_record_scoped: "record_scoped_audit env ck p i a = (b, r) \<Longrightarrow> agent_moves (en_json env) hash a b"
  unfolding record_scoped_audit_def
  by (auto split: option.splits intro: moves_record_project moves_record_control)

lemma moves_publish_workspace: "publish_workspace_state_changed ms w prev a = (b, r) \<Longrightarrow> agent_moves c hash a b"
  by (drule publish_workspace_frame) (erule ssubst, simp add: agent_moves_def)

lemma moves_publish_workspaces: "publish_workspaces ms ws a = (b, r) \<Longrightarrow> agent_moves c hash a b"
  by (drule publish_workspaces_frame) (erule ssubst, simp add: agent_moves_def)

lemma moves_publish_handoff: "publish_handoff_state_changed ms h prev a = (b, r) \<Longrightarrow> agent_moves c hash a b"
  by (drule publish_handoff_frame) (erule ssubst, simp add: agent_moves_def)

text \<open>Updates of the other parts of the state are no moves of a database.\<close>

lemma moves_other [simp]:
  "agent_moves c hash a (b\<lparr>ag_events := e\<rparr>) = agent_moves c hash a b"
  "agent_moves c hash a (b\<lparr>ag_config := f\<rparr>) = agent_moves c hash a b"
  "agent_moves c hash a (b\<lparr>ag_generations := g\<rparr>) = agent_moves c hash a b"
  "agent_moves c hash a (b\<lparr>ag_replay := s\<rparr>) = agent_moves c hash a b"
  "agent_moves c hash (a\<lparr>ag_events := e\<rparr>) b = agent_moves c hash a b"
  "agent_moves c hash (a\<lparr>ag_config := f\<rparr>) b = agent_moves c hash a b"
  "agent_moves c hash (a\<lparr>ag_generations := g\<rparr>) b = agent_moves c hash a b"
  "agent_moves c hash (a\<lparr>ag_replay := s\<rparr>) b = agent_moves c hash a b"
  by (simp_all add: agent_moves_def)

lemma moves_open_recovery:
  "open_recovery env ck refused failed operation wrap p a = (b, r) \<Longrightarrow> agent_moves (en_json env) hash a b"
  unfolding open_recovery_def
  by (auto simp: Let_def split: sum.splits prod.splits if_splits
      dest!: moves_record_project moves_publish_workspace [where c = "en_json env"]
      intro: moves_trans)

lemma moves_apply_snapshot:
  "handle_apply_snapshot env ck i p a = (b, r) \<Longrightarrow> agent_moves (en_json env) hash a b"
  unfolding handle_apply_snapshot_def
  by (auto simp: Let_def split: sum.splits prod.splits if_splits dest!: moves_record_project intro: moves_trans)

lemma moves_projects_add: "handle_projects_add env ck i p a = (b, r) \<Longrightarrow> agent_moves (en_json env) hash a b"
proof -
  have step: "agent_moves (en_json env) hash a (set_project q db (set_registry reg a))"
    if "ensure_default_session n now pid nm None (ag_projects a q) = (db, x)" for q db reg n now pid nm x
    using run_default_session [OF that] by (simp add: agent_moves_def)
  assume "handle_projects_add env ck i p a = (b, r)"
  then show ?thesis
    unfolding handle_projects_add_def
    by (auto simp: Let_def step split: sum.splits prod.splits if_splits
        dest!: moves_publish_workspaces [where c = "en_json env" and hash = hash]
        intro: moves_trans [OF step])
qed

lemma moves_abort_each: "abort_each env ck project hs ab a = (b, r) \<Longrightarrow> agent_moves (en_json env) hash a b"
proof (induction hs arbitrary: ab a)
  case (Cons h hs)
  obtain db x where op: "abort_handoff_with_reason (en_json env) (rn_op_now ck) (ho_handoff_id h)
      ''source generation changed by editor event'' (ag_projects a project) = (db, x)"
    by fastforce
  have run: "agent_moves (en_json env) hash a (set_project project db a)"
    using run_abort [of "en_json env" hash "ag_projects a project" "rn_op_now ck" "ho_handoff_id h"
        "''source generation changed by editor event''"] op
    by (intro moves_project) simp
  from Cons.prems op run show ?case
    by (auto split: sum.splits prod.splits dest!: moves_publish_handoff [where c = "en_json env" and hash = hash]
        Cons.IH intro: moves_trans)
qed simp

lemma moves_editor_event: "handle_editor_event_record env ck i p a = (b, r) \<Longrightarrow> agent_moves (en_json env) hash a b"
  unfolding handle_editor_event_record_def abort_source_handoffs_after_editor_edit_def
  by (auto simp: Let_def split: sum.splits prod.splits if_splits option.splits
      dest!: moves_abort_each [where hash = hash])

lemma moves_context_update: "handle_editor_context_update env ck i p a = (b, r) \<Longrightarrow> agent_moves (en_json env) hash a b"
  unfolding handle_editor_context_update_def
  by (auto simp: Let_def split: sum.splits prod.splits if_splits dest!: moves_record_scoped [where hash = hash])

lemma moves_restore_ack: "handle_editor_restore_ack env ck i p a = (b, r) \<Longrightarrow> agent_moves (en_json env) hash a b"
  unfolding handle_editor_restore_ack_def
  by (auto simp: Let_def split: sum.splits prod.splits if_splits dest!: moves_record_scoped [where hash = hash])

lemma moves_settings: "handle_settings_update env i p a = (b, r) \<Longrightarrow> agent_moves c hash a b"
  unfolding handle_settings_update_def by (auto simp: Let_def split: sum.splits)

lemma moves_projects_remove: "handle_projects_remove env i p a = (b, r) \<Longrightarrow> agent_moves c hash a b"
  unfolding handle_projects_remove_def by (auto simp: Let_def split: sum.splits option.splits)

lemma en_json_truncate [simp]: "en_json (rp_env rp) = en_json rp"
  by (simp add: agent_env.truncate_def)

text \<open>
  What one remote request may do to the databases: nothing, one of the six handoff operations on
  one registered project on behalf of the authenticated device, or the steps of \<open>recovery.open\<close>.
\<close>

definition remote_op :: "json_codec \<Rightarrow> string \<Rightarrow> string \<Rightarrow> metadata_db \<Rightarrow> metadata_db \<Rightarrow> bool" where
  "remote_op c m actor x y \<longleftrightarrow>
     (m = ''handoff.begin'' \<and> (\<exists>i now p. y = fst (remote_handoff_begin i now actor p x)))
   \<or> (m = ''handoff.target.verify'' \<and> (\<exists>now p. y = fst (remote_handoff_target_verify now actor p x)))
   \<or> (m = ''handoff.source.ready'' \<and> (\<exists>now p. y = fst (remote_handoff_source_ready now actor p x)))
   \<or> (m = ''handoff.commit'' \<and> (\<exists>now p. y = fst (remote_handoff_commit c now actor p x)))
   \<or> (m = ''handoff.abort'' \<and> (\<exists>now p. y = fst (remote_handoff_abort c now actor p x)))
   \<or> (m = ''handoff.recover'' \<and> (\<exists>now p. y = fst (remote_handoff_recover c now actor p x)))"

lemma remote_ops [simp]:
  "remote_op c ''handoff.begin'' actor x (fst (remote_handoff_begin i now actor bp x))"
  "remote_op c ''handoff.target.verify'' actor x (fst (remote_handoff_target_verify now actor p x))"
  "remote_op c ''handoff.source.ready'' actor x (fst (remote_handoff_source_ready now actor p x))"
  "remote_op c ''handoff.commit'' actor x (fst (remote_handoff_commit c now actor cp x))"
  "remote_op c ''handoff.abort'' actor x (fst (remote_handoff_abort c now actor p x))"
  "remote_op c ''handoff.recover'' actor x (fst (remote_handoff_recover c now actor cp x))"
  by (simp_all add: remote_op_def) blast+

definition remote_change :: "remote_params \<Rightarrow> string \<Rightarrow> string \<Rightarrow> agent \<Rightarrow> agent \<Rightarrow> bool" where
  "remote_change rp m actor a b \<longleftrightarrow> b = a
     \<or> (\<exists>p db ev. bt_get (ag_registry a) p \<noteq> None \<and> remote_op (en_json rp) m actor (ag_projects a p) db
          \<and> b = (set_project p db a)\<lparr>ag_events := ev\<rparr>)
     \<or> (\<exists>ck f g n w p r. open_recovery (rp_env rp) ck f g n w p a = (b, r))"

lemma remote_change_same: "remote_change rp m d x x"
  by (simp add: remote_change_def)

lemma change_mutate:
  assumes run: "mutate_project ck i u project prev op of_h wrap a = (b, r)"
    and op: "\<And>x. remote_op (en_json rp) m actor x (fst (op x))"
  shows "remote_change rp m actor a b"
  using mutate_shape [OF run] op [of "ag_projects a project"] unfolding remote_change_def by blast

lemma change_begin: "handle_remote_handoff_begin rp ck actor i ps a = (b, r)
    \<Longrightarrow> remote_change rp ''handoff.begin'' actor a b"
  unfolding handle_remote_handoff_begin_def
  by (auto simp: remote_change_same split: sum.splits elim!: change_mutate)

lemma change_id:
  assumes "handle_remote_handoff_id_mutation rp ck i ps mutate a = (b, r)"
    and "\<And>p x. remote_op (en_json rp) m actor x (fst (mutate p x))"
  shows "remote_change rp m actor a b"
  using assms unfolding handle_remote_handoff_id_mutation_def
  by (auto simp: remote_change_same split: sum.splits elim!: change_mutate)

lemma change_commit: "handle_remote_handoff_commit rp ck actor i ps a = (b, r)
    \<Longrightarrow> remote_change rp ''handoff.commit'' actor a b"
  unfolding handle_remote_handoff_commit_def
  by (auto simp: remote_change_same split: sum.splits elim!: change_mutate)

lemma change_recover: "handle_remote_handoff_recover rp ck actor i ps a = (b, r)
    \<Longrightarrow> remote_change rp ''handoff.recover'' actor a b"
  unfolding handle_remote_handoff_recover_def
  by (auto simp: remote_change_same split: sum.splits elim!: change_mutate)

lemma change_open: "handle_remote_recovery_open rp ck i ps a = (b, r) \<Longrightarrow> remote_change rp m actor a b"
  unfolding handle_remote_recovery_open_def
  by (auto simp: remote_change_def split: sum.splits prod.splits)

lemma change_dispatch:
  assumes "dispatch_remote_request rp ck cx a = (b, r)"
  shows "remote_change rp (rpq_method (rx_request cx)) (vc_device_id (rx_peer cx)) a b"
proof (cases "required_id (rx_request cx)")
  case (Inl err) with assms show ?thesis by (simp add: dispatch_remote_request_def remote_change_def)
next
  case (Inr i)
  show ?thesis
    using assms Inr unfolding dispatch_remote_request_def Let_def
    by (auto simp: remote_change_same split: if_splits dest: change_begin change_commit change_recover
        change_open [where actor = "vc_device_id (rx_peer cx)"]
        elim!: change_id [where actor = "vc_device_id (rx_peer cx)"])
qed

lemma remote_op_run: "remote_op c m actor x y \<Longrightarrow> (db_step c hash)\<^sup>*\<^sup>* x y"
  unfolding remote_op_def by (elim disjE conjE exE) (simp_all add: run_remote)

lemma moves_remote: "remote_change rp m actor a b \<Longrightarrow> agent_moves (en_json rp) hash a b"
  unfolding remote_change_def
  by (elim disjE exE conjE)
    (auto intro: moves_project remote_op_run dest: moves_open_recovery [where hash = hash])

section \<open>Who moves a lease\<close>

lemma writers_update:
  assumes "db_leases b = update_rows P f (db_leases a)"
    and f: "\<And>l. lr_lease_id (f l) = lr_lease_id l" "\<And>l. lr_epoch (f l) = lr_epoch l"
      "\<And>l. lr_holder_device_id (f l) = lr_holder_device_id l"
  shows "writers_of b = writers_of a"
proof
  fix k
  have "sel_row lr_lease_id k (db_leases b) =
      map_option (\<lambda>l. if P l then f l else l) (sel_row lr_lease_id k (db_leases a))"
    unfolding assms(1) by (rule sel_row_update) (rule f(1))
  then show "writers_of b k = writers_of a k"
    using f(2,3) by (cases "sel_row lr_lease_id k (db_leases a)")
      (auto simp: writers_of_def get_lease_def lease_from_row_def)
qed

lemma writers_same: "db_leases b = db_leases a \<Longrightarrow> writers_of b = writers_of a"
  by (simp add: writers_of_def fun_eq_iff get_lease_def)

text \<open>Handing a lease over: the handoff that allows it, and what the lease table then says.\<close>

definition handed_over :: "metadata_db \<Rightarrow> metadata_db \<Rightarrow> handoff_record \<Rightarrow> bool" where
  "handed_over x y h \<longleftrightarrow> get_handoff (ho_handoff_id h) x = Some h \<and> ho_state h = SourceReady
     \<and> \<not> device_revoked x (ho_target_device_id h)
     \<and> writers_of x (ho_lease_id h) = Some (Some (ho_source_device_id h), ho_expected_epoch h)
     \<and> writers_of y = (writers_of x)(ho_lease_id h \<mapsto>
         (Some (ho_target_device_id h), next_epoch (ho_expected_epoch h)))"

lemma get_handoff_id: "get_handoff i db = Some h \<Longrightarrow> ho_handoff_id h = i"
  by (auto simp: get_handoff_def handoff_from_row_def handoff_record.defs dest: sel_row_SomeD)

lemma begin_writers: "begin_handoff i now lid s t g ttl x = (y, r) \<Longrightarrow> writers_of y = writers_of x"
proof (cases r)
  case (Inr h)
  assume "begin_handoff i now lid s t g ttl x = (y, r)"
  from begin_handoff_InrD [OF this [unfolded Inr]] show ?thesis
    by (elim exE conjE) (rule writers_update, simp, simp_all)
qed (use begin_handoff_Inl in metis)

lemma update_state_writers: "update_handoff_state now i ex nx ph x = (y, r) \<Longrightarrow> writers_of y = writers_of x"
proof (cases r)
  case (Inr h)
  assume "update_handoff_state now i ex nx ph x = (y, r)"
  from update_state_InrD [OF this [unfolded Inr]] show ?thesis
    by (elim exE conjE) (rule writers_same, simp)
qed (use update_state_Inl in metis)

lemma abort_rows_writers: "db_leases y = db_leases (abort_rows i k now x) \<Longrightarrow> writers_of y = writers_of x"
  by (rule writers_update [where P = "\<lambda>r. lr_lease_id r = k \<and> lr_handoff_id r = Some i"
        and f = "\<lambda>r. r\<lparr>lr_state := Active, lr_handoff_id := None\<rparr>"]) (simp_all add: abort_rows_def)

lemma abort_writers: "abort_handoff_at c i now why x = (y, r) \<Longrightarrow> writers_of y = writers_of x"
proof (cases r)
  case (Inr h)
  assume "abort_handoff_at c i now why x = (y, r)"
  from abort_InrD [OF this [unfolded Inr]] show ?thesis
    by (elim exE conjE disjE) (simp, rule abort_rows_writers, simp)
qed (use abort_Inl in metis)

lemma commit_writers:
  assumes I: "handoff_inv x" and run: "commit_handoff_inner c i obs now pf x = (y, r)"
  shows "writers_of y = writers_of x \<or> (\<exists>h. ho_handoff_id h = i \<and> handed_over x y h)"
proof (cases r)
  case (Inl e)
  from commit_InlD [OF run [unfolded Inl]] show ?thesis
    by (elim exE conjE disjE) (simp, rule disjI1, rule abort_rows_writers, simp)
next
  case (Inr h)
  obtain h0 l where h: "get_handoff i x = Some h0" "ho_state h0 = SourceReady"
      "\<not> device_revoked x (ho_target_device_id h0)"
    and l: "get_lease (ho_lease_id h0) x = Some l" "lr_holder_device_id l = Some (ho_source_device_id h0)"
      "lr_epoch l = ho_expected_epoch h0"
      "get_lease (ho_lease_id h0) y = Some (l\<lparr>lr_state := Active, lr_epoch := column_u64 (sat_add (lr_epoch l) 1),
                 lr_holder_device_id := Some (ho_target_device_id h0), lr_handoff_id := None\<rparr>)"
    and rest: "\<forall>k. k \<noteq> ho_lease_id h0 \<longrightarrow> get_lease k y = get_lease k x"
    using commit_transfers_lease_aux [OF I run [unfolded Inr]] by blast
  have "writers_of y = (writers_of x)(ho_lease_id h0 \<mapsto>
         (Some (ho_target_device_id h0), next_epoch (ho_expected_epoch h0)))"
    using l rest by (auto simp: writers_of_def fun_eq_iff next_epoch_def)
  moreover have "writers_of x (ho_lease_id h0) = Some (Some (ho_source_device_id h0), ho_expected_epoch h0)"
    using l by (simp add: writers_of_def)
  ultimately have "handed_over x y h0" using h get_handoff_id [OF h(1)] by (simp add: handed_over_def)
  with get_handoff_id [OF h(1)] show ?thesis by blast
qed

lemma recover_writers:
  assumes I: "handoff_inv x" and run: "recover_handoff c i obs now x = (y, r)"
  shows "writers_of y = writers_of x \<or> (\<exists>h. ho_handoff_id h = i \<and> handed_over x y h)"
  using run commit_writers [OF I] abort_writers
  by (auto simp: recover_handoff_def commit_handoff_def split: option.splits if_splits prod.splits)

text \<open>Who may ask for it: committing is the source's, recovering a crashed commit either end's.\<close>

definition may_hand_over :: "string \<Rightarrow> string \<Rightarrow> handoff_record \<Rightarrow> bool" where
  "may_hand_over m actor h \<longleftrightarrow> m = ''handoff.commit'' \<and> actor = ho_source_device_id h
     \<or> m = ''handoff.recover'' \<and> actor \<in> {ho_source_device_id h, ho_target_device_id h}"

text \<open>What the two requests pass on, and for whom.\<close>

definition role_of :: "string \<Rightarrow> handoff_record \<Rightarrow> string set" where
  "role_of m h = (if m = ''handoff.commit'' then {ho_source_device_id h}
     else {ho_source_device_id h, ho_target_device_id h})"

lemma commit_request:
  "fst (remote_handoff_commit c now actor p x) = x
    \<or> (\<exists>h. require_handoff_project x (hi_project p) (hi_handoff_id p) = Inr h \<and> actor \<in> role_of ''handoff.commit'' h
         \<and> fst (remote_handoff_commit c now actor p x) =
             fst (commit_handoff c (hi_handoff_id p) (hi_observed_source_generation p) now x))"
proof (cases "require_handoff_project x (hi_project p) (hi_handoff_id p)")
  case (Inr h)
  then show ?thesis
    by (cases "actor = ho_source_device_id h")
      (simp_all add: remote_handoff_commit_def fst_guarded require_actor_def role_of_def)
qed (simp add: remote_handoff_commit_def fst_guarded)

lemma recover_request:
  "fst (remote_handoff_recover c now actor p x) = x
    \<or> (\<exists>h. require_handoff_project x (hi_project p) (hi_handoff_id p) = Inr h \<and> actor \<in> role_of ''handoff.recover'' h
         \<and> fst (remote_handoff_recover c now actor p x) =
             fst (recover_handoff c (hi_handoff_id p) (hi_observed_source_generation p) now x))"
proof (cases "require_handoff_project x (hi_project p) (hi_handoff_id p)")
  case (Inr h)
  then show ?thesis
    by (cases "actor \<in> {ho_source_device_id h, ho_target_device_id h}")
      (auto simp: remote_handoff_recover_def fst_guarded require_source_or_target_actor_def role_of_def split_def Let_def)
qed (simp add: remote_handoff_recover_def fst_guarded)

lemma requested_handoff:
  "require_handoff_project x p i = Inr h \<Longrightarrow> handed_over x y h' \<Longrightarrow> ho_handoff_id h' = i \<Longrightarrow> h' = h"
  by (auto simp: handed_over_def require_handoff_project_def tx_simps split: option.splits)

lemma remote_op_writers:
  assumes I: "handoff_inv x" and op: "remote_op c m actor x y"
  shows "writers_of y = writers_of x \<or> (\<exists>h. handed_over x y h \<and> may_hand_over m actor h)"
proof -
  have C: "writers_of (fst (commit_handoff c i obs now x)) = writers_of x
      \<or> (\<exists>h. ho_handoff_id h = i \<and> handed_over x (fst (commit_handoff c i obs now x)) h)" for i obs now
    unfolding commit_handoff_def using commit_writers [OF I] by (metis prod.collapse)
  have R: "writers_of (fst (recover_handoff c i obs now x)) = writers_of x
      \<or> (\<exists>h. ho_handoff_id h = i \<and> handed_over x (fst (recover_handoff c i obs now x)) h)" for i obs now
    using recover_writers [OF I] by (metis prod.collapse)
  have B: "writers_of (fst (begin_handoff i now lid s t g ttl x)) = writers_of x" for i now lid s t g ttl
    using begin_writers by (metis prod.collapse)
  have U: "writers_of (fst (update_handoff_state now i ex nx ph x)) = writers_of x" for now i ex nx ph
    using update_state_writers by (metis prod.collapse)
  have A: "writers_of (fst (abort_handoff c now i x)) = writers_of x" for now i
    unfolding abort_handoff_def using abort_writers by (metis prod.collapse)
  from op show ?thesis unfolding remote_op_def
  proof (elim disjE conjE exE)
    fix now p assume m: "m = ''handoff.commit''" and y: "y = fst (remote_handoff_commit c now actor p x)"
    from commit_request [of c now actor p x] show ?thesis
    proof (elim disjE exE conjE)
      fix h assume h: "require_handoff_project x (hi_project p) (hi_handoff_id p) = Inr h" "actor \<in> role_of ''handoff.commit'' h"
        and run: "fst (remote_handoff_commit c now actor p x) =
             fst (commit_handoff c (hi_handoff_id p) (hi_observed_source_generation p) now x)"
      have "may_hand_over m actor h" using h(2) by (simp add: may_hand_over_def role_of_def m)
      then show ?thesis
        using C [of "hi_handoff_id p" "hi_observed_source_generation p" now] requested_handoff [OF h(1)]
        unfolding y run by metis
    qed (simp add: y)
  next
    fix now p assume m: "m = ''handoff.recover''" and y: "y = fst (remote_handoff_recover c now actor p x)"
    from recover_request [of c now actor p x] show ?thesis
    proof (elim disjE exE conjE)
      fix h assume h: "require_handoff_project x (hi_project p) (hi_handoff_id p) = Inr h" "actor \<in> role_of ''handoff.recover'' h"
        and run: "fst (remote_handoff_recover c now actor p x) =
             fst (recover_handoff c (hi_handoff_id p) (hi_observed_source_generation p) now x)"
      have "may_hand_over m actor h" using h(2) by (simp add: may_hand_over_def role_of_def m)
      then show ?thesis
        using R [of "hi_handoff_id p" "hi_observed_source_generation p" now] requested_handoff [OF h(1)]
        unfolding y run by metis
    qed (simp add: y)
  qed (simp_all add: remote_op_defs fst_guarded B U A mark_handoff_target_verified_def
      mark_handoff_source_ready_def split: sum.splits)
qed

section \<open>A remote frame\<close>

lemma audit_leases: "record_audit_event_at c i now x = (y, r) \<Longrightarrow> db_leases y = db_leases x"
  by (auto simp: record_audit_event_at_def Let_def split: sum.splits)

text \<open>The lease tables of the projects, which the audit and registration steps leave alone.\<close>

definition same_writers :: "agent \<Rightarrow> agent \<Rightarrow> bool" where
  "same_writers a b \<longleftrightarrow> (\<forall>p. writers_of (ag_projects b p) = writers_of (ag_projects a p))"

lemma same_writers_refl [simp]: "same_writers a a"
  by (simp add: same_writers_def)

lemma same_writers_trans: "same_writers a b \<Longrightarrow> same_writers b d \<Longrightarrow> same_writers a d"
  by (simp add: same_writers_def)

lemma same_writers_other [simp]:
  "same_writers a (b\<lparr>ag_events := e\<rparr>) = same_writers a b"
  "same_writers a (b\<lparr>ag_config := f\<rparr>) = same_writers a b"
  "same_writers (a\<lparr>ag_config := f\<rparr>) b = same_writers a b"
  by (simp_all add: same_writers_def)

lemma record_project_writers: "record_project_audit env ck p i a = (b, r) \<Longrightarrow> same_writers a b"
  by (auto simp: record_project_audit_def same_writers_def dest!: audit_leases writers_same split: prod.splits)

lemma publish_workspace_writers: "publish_workspace_state_changed ms w prev a = (b, r) \<Longrightarrow> same_writers a b"
  by (drule publish_workspace_frame) (erule ssubst, simp)

lemma open_recovery_writers:
  "open_recovery env ck refused failed operation wrap p a = (b, r) \<Longrightarrow> same_writers a b"
  unfolding open_recovery_def
  by (auto simp: Let_def split: sum.splits prod.splits if_splits
      dest!: record_project_writers publish_workspace_writers intro: same_writers_trans)

lemma remote_change_writers:
  assumes I: "handoff_inv (ag_projects a p)" and ch: "remote_change rp m actor a b"
    and moved: "writers_of (ag_projects b p) \<noteq> writers_of (ag_projects a p)"
  shows "bt_get (ag_registry a) p \<noteq> None \<and> (\<exists>h. handed_over (ag_projects a p) (ag_projects b p) h
    \<and> may_hand_over m actor h)"
  using ch unfolding remote_change_def
proof (elim disjE exE conjE)
  fix q db ev
  assume q: "bt_get (ag_registry a) q \<noteq> None" "remote_op (en_json rp) m actor (ag_projects a q) db"
    and b: "b = (set_project q db a)\<lparr>ag_events := ev\<rparr>"
  have "q = p" using moved b by (cases "p = q") simp_all
  then show ?thesis using q b moved remote_op_writers [OF I, of "en_json rp" m actor db] by auto
next
  fix ck f g n w ps r
  assume "open_recovery (rp_env rp) ck f g n w ps a = (b, r)"
  then show ?thesis using open_recovery_writers moved by (fastforce simp: same_writers_def)
qed (use moved in simp)

lemma authenticated_frame:
  assumes "authenticate_remote_control_frame rp bs leaf root revs policy now seen = (seen', Inr cx)"
  shows "\<exists>f d key. rd_frame rp bs = Inr f
    \<and> validate_device_certificate (en_json rp) (rd_crypto rp) (rf_device_certificate f) root revs now = Inr d
    \<and> rd_spki rp leaf = Inr key \<and> hex_encode key = vc_signing_public_key_hex d
    \<and> snd (validate_control_request_envelope policy (rf_control f) now seen) = Inr ()
    \<and> parse_rpc_request (rd_request rp) (rf_rpc f) = Inr (rx_request cx)
    \<and> is_remote_rpc_method_allowed (rpq_method (rx_request cx)) \<and> rx_peer cx = d"
  using assms unfolding authenticate_remote_control_frame_def preflight_remote_rpc_request_def
    require_authenticated_control_channel_def
  by (auto split: sum.splits prod.splits if_splits)

lemma validated_peer:
  assumes "validate_device_certificate c cr crt root revs now = Inr d"
  shows "vc_device_id d = dc_device_id crt \<and> vc_device_id d \<notin> rv_device_id ` set revs"
  using assms by (auto simp: validate_device_certificate_def tx_simps case_sum_Inr_iff Let_def list_ex_image
      split: if_splits)

lemma list_revocations_set: "rv_device_id ` set (list_device_revocations db) = rv_device_id ` set (db_revocations db)"
  by (simp add: list_device_revocations_def sql_query_def image_image revocation_from_row_def)

lemma rejected_frame:
  assumes "authenticate_remote_control_frame rp bs leaf (ag_root a) (list_device_revocations (ag_control a))
      (ag_policy a) (rn_now ck) (ag_replay a) = (seen, Inl response)"
  shows "process_remote_frame rp ck bs leaf a =
    (record_remote_security_block rp ck response (a\<lparr>ag_replay := seen\<rparr>), response)"
  using assms by (simp add: process_remote_frame_def)

text \<open>
  Sample agent: one registered project whose database holds the source-ready handoff of the
  handoff samples, and a remote peer with a certificate of the fabric.
\<close>

definition ex_env :: agent_env where
  "ex_env = \<lparr>en_json = ex_codec, en_blake3_hex = \<lambda>s. s, en_path_exists = \<lambda>_. True,
     en_canonicalize = Some, en_resolve_root = Inr, en_head = \<lambda>_. None, en_remote_fingerprint = \<lambda>_. None,
     en_root_commit = \<lambda>_. None, en_file_name = Some, en_platform = ''linux'', en_load_manifest = \<lambda>_. Inl ''none'',
     en_prepare_workspace = \<lambda>_ _. Inr (), en_plan_apply = \<lambda>_ _. Inr JNull,
     en_apply = \<lambda>_ _. Inl (Verification ''x''), en_open_anchor = \<lambda>_. Inr (), en_write_config = \<lambda>_. Inr (),
     en_db_exists = \<lambda>_. True\<rparr>"

definition ex_root :: fabric_root_identity where
  "ex_root = \<lparr>fr_fabric_id = ''f1'', fr_fabric_name = ''home'', fr_root_public_key_hex = hex_encode (replicate 32 1),
     fr_created_at = 1, fr_rotation_epoch = 0\<rparr>"

definition ex_certificate :: device_certificate where
  "ex_certificate = \<lparr>dc_certificate_id = ''cert_'' @ hash_24 ex_crypto ''{}'', dc_fabric_id = ''f1'', dc_device_id = ''a'',
     dc_signing_public_key_hex = hex_encode (replicate 32 2), dc_network_public_key_hex = hex_encode (replicate 32 3),
     dc_issuer_root_public_key_hex = hex_encode (replicate 32 1), dc_issued_at = 100, dc_expires_at = 200,
     dc_signature_hex = hex_encode (replicate 64 0)\<rparr>"

definition ex_remote :: "string \<Rightarrow> remote_params" where
  "ex_remote method = agent_env.extend ex_env
     \<lparr>rd_crypto = ex_crypto,
      rd_frame = \<lambda>bs. Inr \<lparr>rf_control = ex_envelope 130, rf_device_certificate = ex_certificate, rf_rpc = bs\<rparr>,
      rd_request = \<lambda>_. Inr \<lparr>rpq_jsonrpc = ''2.0'', rpq_id = Some (RpcNumber 1), rpq_method = method, rpq_params = JNull\<rparr>,
      rd_spki = \<lambda>_. Inr (replicate 32 2), rd_negotiate = \<lambda>_. Inr 1, rd_workspaces = \<lambda>_. Inr ''p1'',
      rd_snapshots = \<lambda>_. Inr (''p1'', None, None), rd_handoffs = \<lambda>_. Inr (None, False),
      rd_begin = \<lambda>_. Inr \<lparr>hb_project = ''p1'', hb_lease_id = ''l1'', hb_target_device_id = ''b'',
         hb_source_generation = ''g1'', hb_ttl_seconds = None\<rparr>,
      rd_id = \<lambda>_. Inr \<lparr>hi_project = ''p1'', hi_handoff_id = ''h1''\<rparr>,
      rd_commit = \<lambda>_. Inr \<lparr>hi_project = ''p1'', hi_handoff_id = ''h1'', hi_observed_source_generation = ''g1''\<rparr>,
      rd_recovery = \<lambda>_. Inr (''p1'', None),
      rd_open = \<lambda>_. Inl ''none''\<rparr>"

definition ex_clock :: request_clock where
  "ex_clock = \<lparr>rn_now = 130, rn_op_now = 130, rn_millis = 130000, rn_new_id = ''n1''\<rparr>"

definition ex_project :: project_entry where
  "ex_project = \<lparr>pr_project_id = ''p1'', pr_display_name = ''Demo'', pr_local_path = ''/src'', pr_workspaces = [],
     pr_manifest_path = None, pr_remote_url_fingerprint = None, pr_root_commit_fingerprint = None\<rparr>"

definition ex_agent :: "metadata_db \<Rightarrow> agent" where
  "ex_agent db = \<lparr>ag_control = empty_db, ag_projects = \<lambda>_. db,
     ag_config = ex_config\<lparr>cfg_registry := [(''p1'', ex_project)]\<rparr>, ag_events = empty_event_log,
     ag_generations = [], ag_replay = [], ag_root = ex_root, ag_policy = default_transport_policy\<rparr>"

lemma ex_agent_sel [simp]:
  "ag_control (ex_agent db) = empty_db" "ag_projects (ex_agent db) p = db"
  "ag_registry (ex_agent db) = [(''p1'', ex_project)]" "ag_device_id (ex_agent db) = ''a''"
  "ag_events (ex_agent db) = empty_event_log" "ag_replay (ex_agent db) = []" "ag_root (ex_agent db) = ex_root"
  "ag_policy (ex_agent db) = default_transport_policy" "ag_generations (ex_agent db) = []"
  by (simp_all add: ex_agent_def ex_config_def)

lemma ex_certificate_valid:
  "validate_device_certificate ex_codec ex_crypto ex_certificate ex_root [] 130 =
     Inr \<lparr>vc_certificate_id = dc_certificate_id ex_certificate, vc_fabric_id = ''f1'', vc_device_id = ''a'',
          vc_signing_public_key_hex = hex_encode (replicate 32 2),
          vc_network_public_key_hex = hex_encode (replicate 32 3), vc_expires_at = 200\<rparr>"
  by (simp add: validate_device_certificate_def ex_certificate_def ex_root_def decode_hex_array_encode
      signed_certificate_payload_def ex_codec_def Let_def) (simp add: ex_crypto_def)

lemma ex_remote_sel [simp]:
  "en_json (ex_remote m) = ex_codec" "rd_crypto (ex_remote m) = ex_crypto"
  "rd_frame (ex_remote m) bs = Inr \<lparr>rf_control = ex_envelope 130, rf_device_certificate = ex_certificate, rf_rpc = bs\<rparr>"
  "rd_request (ex_remote m) bs = Inr \<lparr>rpq_jsonrpc = ''2.0'', rpq_id = Some (RpcNumber 1), rpq_method = m, rpq_params = JNull\<rparr>"
  "rd_spki (ex_remote m) leaf = Inr (replicate 32 2)"
  "rd_commit (ex_remote m) j = Inr \<lparr>hi_project = ''p1'', hi_handoff_id = ''h1'', hi_observed_source_generation = ''g1''\<rparr>"
  by (simp_all add: ex_remote_def ex_env_def agent_env.defs)

lemma ex_authenticated:
  assumes "is_remote_rpc_method_allowed m" "\<not> trims_to_empty m"
  shows "authenticate_remote_control_frame (ex_remote m) bs leaf ex_root [] default_transport_policy 130 [] =
    ([(ex_nonce, 130)], Inr \<lparr>rx_peer = \<lparr>vc_certificate_id = dc_certificate_id ex_certificate, vc_fabric_id = ''f1'',
          vc_device_id = ''a'', vc_signing_public_key_hex = hex_encode (replicate 32 2),
          vc_network_public_key_hex = hex_encode (replicate 32 3), vc_expires_at = 200\<rparr>,
       rx_request = \<lparr>rpq_jsonrpc = ''2.0'', rpq_id = Some (RpcNumber 1), rpq_method = m, rpq_params = JNull\<rparr>\<rparr>)"
  using assms
  by (simp add: authenticate_remote_control_frame_def ex_certificate_valid preflight_remote_rpc_request_def
      require_authenticated_control_channel_def ex_first u64_simps parse_rpc_request_def validate_rpc_request_def
      required_id_def)

lemma ex_commit_frame:
  "\<exists>b r. process_remote_frame (ex_remote ''handoff.commit'') ex_clock bs leaf (ex_agent ex_ready) = (b, r)
     \<and> writers_of (ag_projects b ''p1'') ''l1'' = Some (Some ''b'', 5)"
proof -
  obtain db h where db: "commit_handoff_inner ex_codec ''h1'' ''g1'' 130 None ex_ready = (db, Inr h)"
      and l: "get_lease ''l1'' db = Some ((ex_lease Active None)\<lparr>lr_epoch := 5, lr_holder_device_id := Some ''b''\<rparr>)"
    using ex_commit by blast
  have "get_handoff ''h1'' ex_ready = Some (handoff_from_row (ex_handoff SourceReady))"
    by (simp add: ex_ready_def get_handoff_def) (simp add: ex_handoff_def)
  then have op: "remote_handoff_commit ex_codec 130 ''a''
      \<lparr>hi_project = ''p1'', hi_handoff_id = ''h1'', hi_observed_source_generation = ''g1''\<rparr> ex_ready =
      handoff_mutation_result (db, Inr h)"
    by (simp add: remote_handoff_commit_def require_handoff_project_def require_project_def require_actor_def
        guarded_def commit_handoff_def db) (simp add: ex_handoff_def)
  let ?a = "ex_agent ex_ready\<lparr>ag_replay := [(ex_nonce, 130)]\<rparr>"
  obtain b r where run: "process_remote_frame (ex_remote ''handoff.commit'') ex_clock bs leaf (ex_agent ex_ready) = (b, r)"
    by fastforce
  have "list_device_revocations empty_db = []"
    by (simp add: list_device_revocations_def sql_query_def empty_db_def)
  moreover have "is_remote_rpc_method_allowed ''handoff.commit''"
    by (simp add: is_remote_rpc_method_allowed_def remote_rpc_methods_def)
  moreover have "\<not> trims_to_empty ''handoff.commit''"
    by (simp add: not_trims_to_empty is_ascii_space_def)
  ultimately have "handle_remote_handoff_commit (ex_remote ''handoff.commit'') ex_clock ''a'' (RpcNumber 1) JNull ?a = (b, r)"
    using run ex_authenticated [of "''handoff.commit''" bs leaf]
    by (simp add: process_remote_frame_def dispatch_remote_request_def required_id_def ex_clock_def)
  then have m: "mutate_project ex_clock (RpcNumber 1) rpc_invalid_request ''p1'' (previous_state ''h1'')
       (\<lambda>x. failing_with remote_rpc_error_from_devrelay (remote_handoff_commit ex_codec 130 ''a''
          \<lparr>hi_project = ''p1'', hi_handoff_id = ''h1'', hi_observed_source_generation = ''g1''\<rparr> x))
       hm_handoff MutationReply ?a = (b, r)"
    by (simp add: handle_remote_handoff_commit_def ex_clock_def)
  have "\<exists>ev. b = (set_project ''p1'' db ?a)\<lparr>ag_events := ev\<rparr>"
    using m by (auto simp: mutate_project_def open_registered_project_db_def bt_get_def op failing_with_def
        handoff_mutation_result_def split: prod.splits sum.splits dest!: publish_handoff_frame)
  then have "ag_projects b ''p1'' = db" by auto
  with run l show ?thesis by (simp add: writers_of_def)
qed

lemma ex_remote_method:
  "parse_rpc_request (rd_request (ex_remote m)) bs = Inr q \<Longrightarrow> rpq_method q = m"
  by (auto simp: parse_rpc_request_def case_sum_Inr_iff tx_simps split: sum.splits)

text \<open>
  C2. Only the right device moves a lease over the network. If processing a remote frame changes
  the holder or the epoch of a lease of a project, then the project is registered, the frame
  carried a certificate that the pinned root and the control database's revocations accept, of a
  device that is not revoked and whose key is the one of the TLS channel, the request was fresh
  and not replayed, and it asked either for \<open>handoff.commit\<close> of a source-ready handoff of that lease,
  the device being the handoff's source, or for \<open>handoff.recover\<close> of one, the device being its source
  or its target; no other method moves a lease. The source held the lease at the expected epoch, and
  afterwards the target, which is not revoked in the project, holds it at the next epoch while every
  other lease is as before.
\<close>

theorem remote_lease_change_authorized:
  assumes "handoff_inv (ag_projects a p)" and "process_remote_frame rp ck bs leaf a = (b, r)"
    and "writers_of (ag_projects b p) \<noteq> writers_of (ag_projects a p)"
  shows "bt_get (ag_registry a) p \<noteq> None \<and> (\<exists>f d key q h. rd_frame rp bs = Inr f
    \<and> validate_device_certificate (en_json rp) (rd_crypto rp) (rf_device_certificate f) (ag_root a)
         (list_device_revocations (ag_control a)) (rn_now ck) = Inr d
    \<and> \<not> device_revoked (ag_control a) (vc_device_id d)
    \<and> rd_spki rp leaf = Inr key \<and> hex_encode key = vc_signing_public_key_hex d
    \<and> snd (validate_control_request_envelope (ag_policy a) (rf_control f) (rn_now ck) (ag_replay a)) = Inr ()
    \<and> parse_rpc_request (rd_request rp) (rf_rpc f) = Inr q
    \<and> (rpq_method q = ''handoff.commit'' \<and> vc_device_id d = ho_source_device_id h
       \<or> rpq_method q = ''handoff.recover'' \<and> vc_device_id d \<in> {ho_source_device_id h, ho_target_device_id h})
    \<and> handed_over (ag_projects a p) (ag_projects b p) h)"
proof -
  obtain seen q where auth: "authenticate_remote_control_frame rp bs leaf (ag_root a)
      (list_device_revocations (ag_control a)) (ag_policy a) (rn_now ck) (ag_replay a) = (seen, q)"
    by fastforce
  obtain cx where q: "q = Inr cx"
  proof (cases q)
    case (Inl resp)
    then have "ag_projects b = ag_projects a"
      using assms(2) rejected_frame [OF auth [unfolded Inl]] by (auto simp: record_remote_security_block_def)
    with assms(3) show thesis by simp
  qed (rule that)
  obtain f d key where fr: "rd_frame rp bs = Inr f"
      "validate_device_certificate (en_json rp) (rd_crypto rp) (rf_device_certificate f) (ag_root a)
         (list_device_revocations (ag_control a)) (rn_now ck) = Inr d"
      "rd_spki rp leaf = Inr key" "hex_encode key = vc_signing_public_key_hex d"
      "snd (validate_control_request_envelope (ag_policy a) (rf_control f) (rn_now ck) (ag_replay a)) = Inr ()"
      "parse_rpc_request (rd_request rp) (rf_rpc f) = Inr (rx_request cx)" "rx_peer cx = d"
    using authenticated_frame [OF auth [unfolded q]] by blast
  have "dispatch_remote_request rp ck cx (a\<lparr>ag_replay := seen\<rparr>) = (b, r)"
    using assms(2) auth q by (simp add: process_remote_frame_def)
  then have "remote_change rp (rpq_method (rx_request cx)) (vc_device_id d) (a\<lparr>ag_replay := seen\<rparr>) b"
    using change_dispatch fr(7) by metis
  then have "bt_get (ag_registry a) p \<noteq> None \<and> (\<exists>h. handed_over (ag_projects a p) (ag_projects b p) h
    \<and> may_hand_over (rpq_method (rx_request cx)) (vc_device_id d) h)"
    using remote_change_writers [of "a\<lparr>ag_replay := seen\<rparr>" p rp] assms(1,3) by simp
  moreover have "\<not> device_revoked (ag_control a) (vc_device_id d)"
    using validated_peer [OF fr(2)] list_revocations_set [of "ag_control a"]
    by (auto simp: device_revoked_def)
  ultimately show ?thesis using fr unfolding may_hand_over_def by blast
qed

theorem remote_lease_change_authorized_witness:
  "\<exists>b r f d h. process_remote_frame (ex_remote ''handoff.commit'') ex_clock ''frame'' ''leaf'' (ex_agent ex_ready) = (b, r)
     \<and> rd_frame (ex_remote ''handoff.commit'') ''frame'' = Inr f
     \<and> validate_device_certificate ex_codec ex_crypto (rf_device_certificate f) ex_root
         (list_device_revocations empty_db) 130 = Inr d
     \<and> vc_device_id d = ho_source_device_id h
     \<and> handed_over ex_ready (ag_projects b ''p1'') h"
proof -
  obtain b r where run: "process_remote_frame (ex_remote ''handoff.commit'') ex_clock ''frame'' ''leaf'' (ex_agent ex_ready) = (b, r)"
    and w: "writers_of (ag_projects b ''p1'') ''l1'' = Some (Some ''b'', 5)"
    using ex_commit_frame by blast
  have "writers_of ex_ready ''l1'' = Some (Some ''a'', 4)"
    using ex_ready_lease by (simp add: writers_of_def ex_lease_def)
  then have "writers_of (ag_projects b ''p1'') \<noteq> writers_of (ag_projects (ex_agent ex_ready) ''p1'')"
    using w by auto
  from remote_lease_change_authorized [OF _ run this] ex_ready_inv run show ?thesis
    by (auto simp: ex_clock_def dest!: ex_remote_method)
qed

end
