(* ===== verification/Agent_System.thy ===== *)
theory Agent_System
  imports Agent_Safety
begin

text \<open>
  The agent as a transition system over all its modelled requests, and the properties of single
  requests: editor events, handoff lifetimes, settings, the project registry and revocation.
\<close>

section \<open>The transition system\<close>

text \<open>
  One step: a remote frame, a request of the local server that changes state, an event
  subscription (which changes only the log), the revocation command, or an operation on one of the
  databases by another process (the command line works on the same files).
\<close>

inductive agent_step :: "remote_params \<Rightarrow> (string \<Rightarrow> string) \<Rightarrow> agent \<Rightarrow> agent \<Rightarrow> bool" for rp hash where
  as_frame: "process_remote_frame rp ck bs leaf a = (b, r) \<Longrightarrow> agent_step rp hash a b"
| as_begin: "handle_handoff_begin ck i bp a = (b, r) \<Longrightarrow> agent_step rp hash a b"
| as_verify: "handle_handoff_target_verify ck i p a = (b, r) \<Longrightarrow> agent_step rp hash a b"
| as_ready: "handle_handoff_source_ready ck i p a = (b, r) \<Longrightarrow> agent_step rp hash a b"
| as_abort: "handle_handoff_abort (en_json rp) ck i p a = (b, r) \<Longrightarrow> agent_step rp hash a b"
| as_commit: "handle_handoff_commit (en_json rp) ck i cp a = (b, r) \<Longrightarrow> agent_step rp hash a b"
| as_recover: "handle_handoff_recover (en_json rp) ck i cp a = (b, r) \<Longrightarrow> agent_step rp hash a b"
| as_apply: "handle_apply_snapshot (rp_env rp) ck i ap a = (b, r) \<Longrightarrow> agent_step rp hash a b"
| as_open: "handle_recover_open (rp_env rp) ck i op a = (b, r) \<Longrightarrow> agent_step rp hash a b"
| as_add: "handle_projects_add (rp_env rp) ck i pp a = (b, r) \<Longrightarrow> agent_step rp hash a b"
| as_remove: "handle_projects_remove (rp_env rp) i n a = (b, r) \<Longrightarrow> agent_step rp hash a b"
| as_edit: "handle_editor_event_record (rp_env rp) ck i ep a = (b, r) \<Longrightarrow> agent_step rp hash a b"
| as_context: "handle_editor_context_update (rp_env rp) ck i up a = (b, r) \<Longrightarrow> agent_step rp hash a b"
| as_ack: "handle_editor_restore_ack (rp_env rp) ck i kp a = (b, r) \<Longrightarrow> agent_step rp hash a b"
| as_settings: "handle_settings_update (rp_env rp) i sp a = (b, r) \<Longrightarrow> agent_step rp hash a b"
| as_revoke: "device_revoke_command (en_json rp) d reason rotation now a = (b, r2) \<Longrightarrow> agent_step rp hash a b"
| as_subscribe: "subscribe_events cur (ag_events a) = (l, r3) \<Longrightarrow> agent_step rp hash a (a\<lparr>ag_events := l\<rparr>)"
| as_control_command: "db_step (en_json rp) hash (ag_control a) db \<Longrightarrow> agent_step rp hash a (a\<lparr>ag_control := db\<rparr>)"
| as_project_command: "db_step (en_json rp) hash (ag_projects a p) db \<Longrightarrow> agent_step rp hash a (set_project p db a)"

lemma moves_frame: "process_remote_frame rp ck bs leaf a = (b, r) \<Longrightarrow> agent_moves (en_json rp) hash a b"
proof -
  assume run: "process_remote_frame rp ck bs leaf a = (b, r)"
  obtain seen q where auth: "authenticate_remote_control_frame rp bs leaf (ag_root a)
      (list_device_revocations (ag_control a)) (ag_policy a) (rn_now ck) (ag_replay a) = (seen, q)"
    by fastforce
  show ?thesis
  proof (cases q)
    case (Inl resp)
    obtain db x where rec: "record_audit_event_at (en_json rp) (security_block_audit resp) (rn_op_now ck) (ag_control a) = (db, x)"
      by fastforce
    then have "b = a\<lparr>ag_replay := seen, ag_control := db\<rparr>"
      using run rejected_frame [OF auth [unfolded Inl]] by (simp add: record_remote_security_block_def)
    with run_audit [OF rec] show ?thesis by (simp add: agent_moves_def)
  next
    case (Inr cx)
    then have "dispatch_remote_request rp ck cx (a\<lparr>ag_replay := seen\<rparr>) = (b, r)"
      using run auth by (simp add: process_remote_frame_def)
    from moves_remote [OF change_dispatch [OF this]] show ?thesis by simp
  qed
qed

lemma moves_local_mutations:
  "handle_handoff_begin ck i bp a = (b, r) \<Longrightarrow> agent_moves c hash a b"
  "handle_handoff_target_verify ck i p a = (b, r) \<Longrightarrow> agent_moves c hash a b"
  "handle_handoff_source_ready ck i p a = (b, r) \<Longrightarrow> agent_moves c hash a b"
  "handle_handoff_abort c ck i p a = (b, r) \<Longrightarrow> agent_moves c hash a b"
  "handle_handoff_commit c ck i cp a = (b, r) \<Longrightarrow> agent_moves c hash a b"
  unfolding handle_handoff_begin_def handle_handoff_target_verify_def handle_handoff_source_ready_def
    handle_handoff_abort_def handle_handoff_id_mutation_def handle_handoff_commit_def
  by (auto split: sum.splits elim!: moves_mutate simp: runs)

lemma moves_local_recover: "handle_handoff_recover c ck i cp a = (b, r) \<Longrightarrow> agent_moves c hash a b"
  unfolding handle_handoff_recover_def
  by (erule moves_mutate) (simp add: run_recover split: prod.split sum.split option.split, metis fst_conv run_recover)

lemma moves_recover_open: "handle_recover_open env ck i p a = (b, r) \<Longrightarrow> agent_moves (en_json env) hash a b"
  unfolding handle_recover_open_def by (auto split: prod.splits sum.splits dest: moves_open_recovery)

lemma moves_revoke: "device_revoke_command c d reason rotation now a = (b, r) \<Longrightarrow> agent_moves c hash a b"
  unfolding device_revoke_command_def
  by (auto split: prod.splits intro!: moves_control intro: run_revoke)

lemma agent_step_moves:
  assumes "agent_step rp hash a b"
  shows "agent_moves (en_json rp) hash a b"
  using assms
  by cases (auto intro: moves_frame moves_local_mutations moves_local_recover moves_settings moves_projects_remove
      moves_revoke moves_control moves_project dest: moves_apply_snapshot [where hash = hash] moves_recover_open [where hash = hash]
      moves_projects_add [where hash = hash] moves_editor_event [where hash = hash]
      moves_context_update [where hash = hash] moves_restore_ack [where hash = hash])

definition fresh_agent :: "agent \<Rightarrow> bool" where
  "fresh_agent a \<longleftrightarrow> ag_control a = empty_db \<and> (\<forall>p. ag_projects a p = empty_db)"

lemma reach_star: "reach init step s \<Longrightarrow> step\<^sup>*\<^sup>* s t \<Longrightarrow> reach init step t"
  by (erule rtranclp_induct [rotated]) (auto intro: reach_step)

text \<open>
  C3. The agent is no weaker than its databases: whatever remote frames, local requests and
  commands are processed in whatever order, accepted or refused, the control database and every
  project database are always states that the metadata database alone could have reached. So
  every invariant proved of that one (one pending handoff per lease, growing epochs, publication
  and pairing rules) holds of each database of a running agent.
\<close>

theorem agent_refines_databases:
  assumes "reach fresh_agent (agent_step rp hash) a"
  shows "reach (\<lambda>db. db = empty_db) (db_step (en_json rp) hash) (ag_control a)
    \<and> (\<forall>p. reach (\<lambda>db. db = empty_db) (db_step (en_json rp) hash) (ag_projects a p)) \<and> db_inv (ag_control a)
    \<and> (\<forall>p. db_inv (ag_projects a p))"
proof -
  have "reach (\<lambda>db. db = empty_db) (db_step (en_json rp) hash) (ag_control a)
    \<and> (\<forall>p. reach (\<lambda>db. db = empty_db) (db_step (en_json rp) hash) (ag_projects a p))"
    using assms
  proof induction
    case (reach_init a) then show ?case by (auto simp: fresh_agent_def intro: reach.reach_init)
  next
    case (reach_step a b)
    then show ?case using agent_step_moves [OF reach_step(2)]
      by (auto simp: agent_moves_def intro: reach_star)
  qed
  then show ?thesis using metadata.reach_inv by blast
qed

theorem agent_refines_databases_witness:
  "\<exists>b. reach fresh_agent (agent_step (ex_remote ''handoff.commit'') id) b
     \<and> reach (\<lambda>db. db = empty_db) (db_step ex_codec id) (ag_control b) \<and> db_inv (ag_control b)"
proof -
  obtain b r where run: "process_remote_frame (ex_remote ''handoff.commit'') ex_clock ''frame'' ''leaf'' (ex_agent empty_db) = (b, r)"
    by fastforce
  have "reach fresh_agent (agent_step (ex_remote ''handoff.commit'') id) (ex_agent empty_db)"
    by (rule reach_init) (simp add: fresh_agent_def)
  then have R: "reach fresh_agent (agent_step (ex_remote ''handoff.commit'') id) b"
    by (rule reach_step) (rule as_frame [OF run])
  from agent_refines_databases [OF R] R show ?thesis by auto
qed

section \<open>Editor events\<close>

text \<open>After an abort: no handoff appears, none changes but by becoming aborted, and that one is.\<close>

definition handoffs_end :: "metadata_db \<Rightarrow> metadata_db \<Rightarrow> string set \<Rightarrow> bool" where
  "handoffs_end x y ids \<longleftrightarrow> (\<forall>r\<in>set (db_handoffs y).
     (\<exists>q\<in>set (db_handoffs x). ho_handoff_id r = ho_handoff_id q \<and> ho_source_device_id r = ho_source_device_id q
        \<and> ho_project_id r = ho_project_id q \<and> (ho_state r = ho_state q \<or> ho_state r = Aborted))
     \<and> (ho_handoff_id r \<in> ids \<longrightarrow> ho_state r = Aborted))"

lemma handoffs_end_refl: "handoffs_end x x {}"
  by (auto simp: handoffs_end_def)

lemma handoffs_end_trans: "handoffs_end x y I \<Longrightarrow> handoffs_end y z J \<Longrightarrow> handoffs_end x z (I \<union> J)"
  unfolding handoffs_end_def by (auto 4 4)

lemma abort_ends:
  assumes pk: "pk_wf ho_handoff_id (db_handoffs x)" and run: "abort_handoff_at c i now why x = (y, Inr h)"
  shows "handoffs_end x y {i} \<and> pk_wf ho_handoff_id (db_handoffs y)"
proof -
  from abort_InrD [OF run] obtain r where r: "sel_row ho_handoff_id i (db_handoffs x) = Some r"
    and d: "ho_state r = Aborted \<and> y = x \<or> db_handoffs y = db_handoffs (abort_rows i (ho_lease_id r) now x)"
    by auto
  from d show ?thesis
  proof (elim disjE conjE)
    assume "ho_state r = Aborted" "y = x"
    then show ?thesis using pk sel_row_mem [OF pk] r by (fastforce simp: handoffs_end_def)
  next
    assume "db_handoffs y = db_handoffs (abort_rows i (ho_lease_id r) now x)"
    then show ?thesis using pk
      by (auto simp: handoffs_end_def abort_rows_def set_update_rows pk_wf_update split: if_splits)
  qed
qed

lemma abort_each_ends:
  assumes "abort_each env ck p hs ab a = (b, Inr res)" "pk_wf ho_handoff_id (db_handoffs (ag_projects a p))"
  shows "handoffs_end (ag_projects a p) (ag_projects b p) (ho_handoff_id ` set hs) \<and> same_writers a b
    \<and> ag_generations b = ag_generations a \<and> ag_config b = ag_config a"
  using assms
proof (induction hs arbitrary: ab a)
  case Nil then show ?case by (simp add: handoffs_end_refl)
next
  case (Cons h hs)
  obtain db x where op: "abort_handoff_at (en_json env) (ho_handoff_id h) (rn_op_now ck)
      ''source generation changed by editor event'' (ag_projects a p) = (db, x)"
    by fastforce
  obtain h' where x: "x = Inr h'" using Cons.prems(1) op by (cases x) (auto simp: abort_handoff_with_reason_def)
  obtain a1 y where pub: "publish_handoff_state_changed (rn_millis ck) h' (Some (ho_state h)) (set_project p db a) = (a1, y)"
    by fastforce
  then have rest: "abort_each env ck p hs (ab @ [h']) a1 = (b, Inr res)"
    using Cons.prems(1) op x by (cases y) (auto simp: abort_handoff_with_reason_def)
  have a1: "a1 = (set_project p db a)\<lparr>ag_events := ag_events a1\<rparr>" by (rule publish_handoff_frame [OF pub])
  have pj: "ag_projects a1 p = db" "ag_generations a1 = ag_generations a" "ag_config a1 = ag_config a"
    by (subst a1, simp)+
  have "same_writers a (set_project p db a)" using abort_writers [OF op] by (simp add: same_writers_def)
  then have w: "same_writers a a1" by (subst a1) simp
  note E = abort_ends [OF Cons.prems(2) op [unfolded x]]
  with Cons.IH [OF rest] pj have "handoffs_end db (ag_projects b p) (ho_handoff_id ` set hs)" "same_writers a1 b"
      "ag_generations b = ag_generations a" "ag_config b = ag_config a" by simp_all
  then show ?case using handoffs_end_trans [of "ag_projects a p" db "{ho_handoff_id h}"] E w same_writers_trans by auto
qed

text \<open>
  C13. An edit ends the handoffs it invalidates. When the agent accepts a meaningful edit of a text
  document in a registered project, then afterwards no handoff of that project whose source is
  this device is pending, whatever state it was in; the edit counter of the project has moved on
  (it saturates), and no lease has changed its holder or its epoch.
\<close>

theorem editor_edit_ends_handoffs:
  assumes "pk_wf ho_handoff_id (db_handoffs (ag_projects a p))"
    and "resolve_editor_event_project env a ep = Inr (Some p)"
    and "eep_event_kind ep = TextDocumentChanged" "eep_meaningful_edit ep"
    and "handle_editor_event_record env ck i ep a = (b, reply)" "rps_error reply = None"
  shows "(\<forall>h\<in>set (list_handoffs (Some p) (ag_projects b p)).
      ho_source_device_id h = ag_device_id a \<longrightarrow> handoff_is_terminal (ho_state h))
    \<and> bt_get (ag_generations b) (''project:'' @ p) =
        Some (sat_add (bt_get_or 0 (ag_generations a) (''project:'' @ p)) 1)
    \<and> same_writers a b"
proof -
  let ?key = "''project:'' @ p"
  let ?a1 = "a\<lparr>ag_generations := bt_insert ?key (sat_add (bt_get_or 0 (ag_generations a) ?key) 1) (ag_generations a)\<rparr>"
  obtain db where db: "open_registered_project_db a p = Inr db" "db = ag_projects a p"
    and res: "\<exists>res. abort_each env ck p
      (filter (\<lambda>h. \<not> handoff_is_terminal (ho_state h) \<and> ho_source_device_id h = ag_device_id a)
         (list_handoffs (Some p) db)) [] ?a1 = (b, Inr res)"
    using assms(2-6)
    by (auto simp: handle_editor_event_record_def Let_def editor_source_generation_key_def
        abort_source_handoffs_after_editor_edit_def open_registered_project_db_def rpc_failure_def
        split: sum.splits prod.splits if_splits)
  obtain res where run: "abort_each env ck p
      (filter (\<lambda>h. \<not> handoff_is_terminal (ho_state h) \<and> ho_source_device_id h = ag_device_id a)
         (list_handoffs (Some p) (ag_projects a p))) [] ?a1 = (b, Inr res)"
    using res db(2) by blast
  note E = abort_each_ends [OF run]
  have e: "handoffs_end (ag_projects a p) (ag_projects b p)
      (ho_handoff_id ` set (filter (\<lambda>h. \<not> handoff_is_terminal (ho_state h) \<and> ho_source_device_id h = ag_device_id a)
         (list_handoffs (Some p) (ag_projects a p))))"
    and w: "same_writers ?a1 b" and g: "ag_generations b = ag_generations ?a1"
    using E assms(1) by simp_all
  have "handoff_is_terminal (ho_state h)"
    if h: "h \<in> set (list_handoffs (Some p) (ag_projects b p))" "ho_source_device_id h = ag_device_id a" for h
  proof (rule ccontr)
    assume nt: "\<not> handoff_is_terminal (ho_state h)"
    obtain r where r: "r \<in> set (db_handoffs (ag_projects b p))" "ho_project_id r = p" "h = handoff_from_row r"
      using h(1) by (auto simp: list_handoffs_def sql_query_def)
    then obtain q where q: "q \<in> set (db_handoffs (ag_projects a p))" "ho_handoff_id r = ho_handoff_id q"
        "ho_source_device_id r = ho_source_device_id q" "ho_project_id r = ho_project_id q"
        "ho_state r = ho_state q \<or> ho_state r = Aborted"
      using e unfolding handoffs_end_def by blast
    have st: "ho_state h = ho_state r" "ho_source_device_id h = ho_source_device_id r"
      using r(3) by simp_all
    have "handoff_from_row q \<in> set (list_handoffs (Some p) (ag_projects a p))"
      using q r by (auto simp: list_handoffs_def sql_query_def)
    then have "ho_handoff_id r \<in> ho_handoff_id ` set (filter (\<lambda>h. \<not> handoff_is_terminal (ho_state h)
        \<and> ho_source_device_id h = ag_device_id a) (list_handoffs (Some p) (ag_projects a p)))"
      using q st nt h(2) by (intro image_eqI [of _ _ "handoff_from_row q"]) auto
    then have "ho_state r = Aborted" using e r(1) unfolding handoffs_end_def by blast
    with nt st show False by simp
  qed
  moreover have "same_writers a b" using w by (simp add: same_writers_def)
  ultimately show ?thesis using g by simp
qed

definition ex_edit :: editor_event_params where
  "ex_edit = \<lparr>eep_project = Some ''p1'', eep_workspace_path = None, eep_event_kind = TextDocumentChanged,
     eep_meaningful_edit = True\<rparr>"

lemma ex_abort: "\<exists>db h. abort_handoff_at ex_codec ''h1'' 130 why ex_ready = (db, Inr h)"
  by (simp add: abort_handoff_at_def ex_eval normalize_journal_detail_def abort_rows_def)

lemma trim_p1: "trim_str ''p1'' = ''p1''"
  by (simp add: trim_str_def trim_start.simps trim_end.simps trailing_space_def is_ascii_space_def)

lemma publish_fresh: "\<exists>b. publish_handoff_state_changed ms h prev a = (b, Inr ())"
  if "ag_events a = empty_event_log"
  using that by (simp add: publish_handoff_state_changed_def publish_event_def event_sequence_new_def
      empty_event_log_def checked_add_def Let_def)

theorem editor_edit_ends_handoffs_witness:
  "\<exists>b reply. handle_editor_event_record ex_env ex_clock (RpcNumber 1) ex_edit (ex_agent ex_ready) = (b, reply)
     \<and> rps_error reply = None \<and> bt_get (ag_generations b) ''project:p1'' = Some 1
     \<and> (\<forall>h\<in>set (list_handoffs (Some ''p1'') (ag_projects b ''p1'')).
          ho_source_device_id h = ''a'' \<longrightarrow> handoff_is_terminal (ho_state h))"
proof -
  let ?a = "ex_agent ex_ready"
  have R: "resolve_editor_event_project ex_env ?a ex_edit = Inr (Some ''p1'')"
    by (simp add: resolve_editor_event_project_def ex_edit_def trim_p1 bt_get_def)
  have L: "list_handoffs (Some ''p1'') ex_ready = [handoff_from_row (ex_handoff SourceReady)]"
    by (simp add: list_handoffs_def sql_query_def ex_ready_def) (simp add: ex_handoff_def)
  obtain db h where ab: "abort_handoff_at ex_codec ''h1'' 130 ''source generation changed by editor event'' ex_ready = (db, Inr h)"
    using ex_abort by blast
  let ?a1 = "?a\<lparr>ag_generations := [(''project:p1'', 1)]\<rparr>"
  obtain b0 where pub: "publish_handoff_state_changed 130000 h (Some SourceReady) (set_project ''p1'' db ?a1) = (b0, Inr ())"
    using publish_fresh [of "set_project ''p1'' db ?a1" 130000 h "Some SourceReady"] by auto
  have E: "ho_state (ex_handoff SourceReady) = SourceReady" "ho_source_device_id (ex_handoff SourceReady) = ''a''"
    "ho_handoff_id (ex_handoff SourceReady) = ''h1''" "en_json ex_env = ex_codec"
    by (simp_all add: ex_handoff_def ex_env_def)
  have "abort_each ex_env ex_clock ''p1'' [handoff_from_row (ex_handoff SourceReady)] [] ?a1 = (b0, Inr [h])"
    using ab pub by (simp add: abort_handoff_with_reason_def E ex_clock_def)
  then have run: "handle_editor_event_record ex_env ex_clock (RpcNumber 1) ex_edit ?a =
      (b0, rpc_success (RpcNumber 1) (EditorEventReply
        \<lparr>eer_project = Some ''p1'', eer_source_generation = 1, eer_aborted_handoffs = [h]\<rparr>))"
    by (simp add: handle_editor_event_record_def R Let_def editor_source_generation_key_def bt_get_or_def
        abort_source_handoffs_after_editor_edit_def open_registered_project_db_def bt_get_def L E)
      (simp add: ex_edit_def sat_add_def)
  have "pk_wf ho_handoff_id (db_handoffs (ag_projects ?a ''p1''))"
    by (simp add: ex_ready_def pk_wf_def)
  from editor_edit_ends_handoffs [OF this R _ _ run] show ?thesis
    by (intro exI [of _ b0] exI [of _ "rpc_success (RpcNumber 1) (EditorEventReply
        \<lparr>eer_project = Some ''p1'', eer_source_generation = 1, eer_aborted_handoffs = [h]\<rparr>)"]) (use run in \<open>simp add: rpc_success_def ex_edit_def bt_get_or_def sat_add_def\<close>)
qed

end
