(* ===== verification/Agent_Requests.thy ===== *)
theory Agent_Requests
  imports Agent_System
begin

text \<open>
  Properties of single requests that the transition system does not show: revocation against
  pending handoffs, the lifetime of handoffs, settings and the project registry.
\<close>

section \<open>Revocation and pending handoffs\<close>

lemma source_ready_commits:
  assumes I: "handoff_inv db" and fk: "project_fk db"
    and r: "sel_row ho_handoff_id i (db_handoffs db) = Some r" "ho_state r = SourceReady"
    and ok: "commit_abort_reason (handoff_from_row r) obs now = None" "\<not> device_revoked db (ho_target_device_id r)"
      "db_fault db \<noteq> Some DuringLeaseCommit"
    and ep: "\<forall>l\<in>set (db_leases db). unat (lr_epoch l) < 2 ^ 63"
    and rb: "\<And>h. reads_back c (ai_detail (lease_transfer_audit h))"
  shows "\<exists>db'. commit_handoff c i obs now db = (db', Inr ((handoff_from_row r)\<lparr>ho_state := Committed\<rparr>))"
proof -
  have nt: "\<not> handoff_is_terminal (ho_state r)" using r(2) by simp
  obtain l where l: "sel_row lr_lease_id (ho_lease_id r) (db_leases db) = Some l" "backs l r" "lr_handoff_id l = Some i"
    using carrier [OF I r(1) nt] by blast
  have lm: "l \<in> set (db_leases db)" "lr_lease_id l = ho_lease_id r" using sel_row_SomeD [OF l(1)] by auto
  have e: "column_u64 (lr_epoch l) = lr_epoch l" using ep lm by (simp add: column_u64_id)
  have "column_u64 (ho_expected_epoch r) = lr_epoch l"
    using l(2) e by (simp add: backs_def)
  then have "count_rows (\<lambda>m. lr_lease_id m = ho_lease_id r \<and> lr_epoch m = column_u64 (ho_expected_epoch r)
      \<and> lr_handoff_id m = Some i) (db_leases db) = 1"
    using l(1,3) lm I
    by (subst count_rows_pk [where pk = lr_lease_id and k = "ho_lease_id r"]) (auto simp: handoff_inv_def links_def)
  from commit_ok [OF r(1,2) ok(1,2) _ ok(3) this fk rb, of None] show ?thesis
    by (simp add: commit_handoff_def)
qed

lemma mutate_registered:
  assumes run: "mutate_project ck j u p prev op of_h wrap a = (b, reply)" and reg: "bt_get (ag_registry a) p \<noteq> None"
  shows "\<exists>ev. b = (set_project p (fst (op (ag_projects a p))) a)\<lparr>ag_events := ev\<rparr>"
proof -
  obtain db m where op: "op (ag_projects a p) = (db, m)" by fastforce
  let ?a1 = "set_project p db a"
  show ?thesis
  proof (cases m)
    case (Inl err)
    then have "b = ?a1" using run reg op by (auto simp: mutate_project_def open_registered_project_db_def)
    moreover have "?a1\<lparr>ag_events := ag_events ?a1\<rparr> = ?a1" by simp
    ultimately show ?thesis using op by (metis fst_conv)
  next
    case (Inr x)
    obtain a2 q where pub: "publish_handoff_state_changed (rn_millis ck) (of_h x) (prev (ag_projects a p)) ?a1 = (a2, q)"
      by fastforce
    then have "b = a2" using run reg op Inr
      by (cases q) (auto simp: mutate_project_def open_registered_project_db_def)
    with publish_handoff_frame [OF pub] op show ?thesis by (metis fst_conv)
  qed
qed

lemma mutate_project_db:
  assumes "mutate_project ck j u p prev op of_h wrap a = (b, reply)" "bt_get (ag_registry a) p \<noteq> None"
  shows "ag_projects b p = fst (op (ag_projects a p))" "ag_control b = ag_control a"
  using mutate_registered [OF assms] by auto

lemma mutate_accepted:
  assumes "mutate_project ck j u p prev op of_h wrap a = (b, reply)" "rps_error reply = None"
  shows "bt_get (ag_registry a) p \<noteq> None" "\<exists>m. snd (op (ag_projects a p)) = Inr m \<and> reply = rpc_success j (wrap m)"
proof -
  obtain db x where op: "op (ag_projects a p) = (db, x)" by fastforce
  show reg: "bt_get (ag_registry a) p \<noteq> None"
    using assms by (cases "bt_get (ag_registry a) p = None")
      (auto simp: mutate_project_def open_registered_project_db_def rpc_failure_def)
  show "\<exists>m. snd (op (ag_projects a p)) = Inr m \<and> reply = rpc_success j (wrap m)"
    using assms reg op
    by (auto simp: mutate_project_def open_registered_project_db_def rpc_failure_def split: sum.splits prod.splits)
qed

lemma revoked_after: "revoke_device_at c d by_d reason rot now db = (db', Inr r) \<Longrightarrow> device_revoked db' d"
proof -
  assume run: "revoke_device_at c d by_d reason rot now db = (db', Inr r)"
  have "k \<in> pk ` set (upsert_row pk (\<lambda>_. x) x rs)" if "pk x = k" for pk :: "device_revocation_record \<Rightarrow> string" and k x rs
    using that unfolding upsert_row_def
    by (cases "sel_row pk (pk x) rs")
      (auto simp: set_update_rows image_iff dest!: sel_row_SomeD intro!: bexI [of _ x])
  with revoke_InrD [OF run] show ?thesis by (auto simp: device_revoked_def)
qed

text \<open>
  The gap between the two revocation lists. The revocation command writes the control
  database, and a commit consults only the project's database: so a device that is revoked
  after its handoff became ready still receives the lease when the handoff is committed, and at
  that moment the control database lists it as revoked.
\<close>

theorem revocation_misses_pending_handoff:
  assumes "handoff_inv (ag_projects a p)" "project_fk (ag_projects a p)" "bt_get (ag_registry a) p \<noteq> None"
    and "sel_row ho_handoff_id i (db_handoffs (ag_projects a p)) = Some r" "ho_state r = SourceReady"
    and "commit_abort_reason (handoff_from_row r) obs (rn_op_now ck) = None"
    and "\<not> device_revoked (ag_projects a p) (ho_target_device_id r)"
    and "db_fault (ag_projects a p) \<noteq> Some DuringLeaseCommit"
    and "\<forall>l\<in>set (db_leases (ag_projects a p)). unat (lr_epoch l) < 2 ^ 63"
    and "\<And>h. reads_back c (ai_detail (lease_transfer_audit h))"
    and "device_revoke_command c (ho_target_device_id r) reason rotation now a = (a1, Inr rec)"
    and "handle_handoff_commit c ck j \<lparr>hi_project = p, hi_handoff_id = i, hi_observed_source_generation = obs\<rparr> a1 = (b, reply)"
  shows "device_revoked (ag_control b) (ho_target_device_id r)
    \<and> (\<exists>epoch. writers_of (ag_projects b p) (ho_lease_id r) = Some (Some (ho_target_device_id r), epoch))"
proof -
  obtain db where db: "revoke_device_at c (ho_target_device_id r) (ag_device_id a) reason rotation now (ag_control a) = (db, Inr rec)"
      "a1 = a\<lparr>ag_control := db\<rparr>"
    using assms(11) by (auto simp: device_revoke_command_def split: prod.splits)
  have rev: "device_revoked (ag_control a1) (ho_target_device_id r)"
    using revoked_after [OF db(1)] db(2) by simp
  obtain x where x: "commit_handoff c i obs (rn_op_now ck) (ag_projects a p) = (x, Inr ((handoff_from_row r)\<lparr>ho_state := Committed\<rparr>))"
    using source_ready_commits [OF assms(1,2,4-10)] by blast
  note M = mutate_project_db [OF assms(12) [unfolded handle_handoff_commit_def]]
  have b: "ag_projects b p = x" "ag_control b = ag_control a1"
    using M db(2) x assms(3) by simp_all
  have "writers_of x (ho_lease_id r) = Some (Some (ho_target_device_id r), column_u64 (sat_add (column_u64 (ho_expected_epoch r)) 1))"
    using commit_transfers_lease_aux [OF assms(1) x [unfolded commit_handoff_def]] assms(4)
    by (auto simp: writers_of_def get_handoff_def)
  with b rev show ?thesis by auto
qed

theorem revocation_misses_pending_handoff_witness:
  "\<exists>a1 rec b reply. device_revoke_command ex_codec ''b'' ''lost'' False 120 (ex_agent ex_ready) = (a1, Inr rec)
     \<and> handle_handoff_commit ex_codec ex_clock (RpcNumber 1)
          \<lparr>hi_project = ''p1'', hi_handoff_id = ''h1'', hi_observed_source_generation = ''g1''\<rparr> a1 = (b, reply)
     \<and> device_revoked (ag_control b) ''b''
     \<and> (\<exists>epoch. writers_of (ag_projects b ''p1'') ''l1'' = Some (Some ''b'', epoch))"
proof -
  have rb: "reads_back ex_codec v" for v by (simp add: reads_back_def ex_codec_def)
  obtain a1 rec where rev: "device_revoke_command ex_codec ''b'' ''lost'' False 120 (ex_agent ex_ready) = (a1, Inr rec)"
    by (simp add: device_revoke_command_def revoke_device_at_def run_tx_def ex_agent_def ex_config_def
        validate_non_empty_def insert_audit_event_def validate_audit_input_def revocation_audit_def audit_new_def
        ex_codec_def from_str_def not_trims_to_empty is_ascii_space_def empty_db_def Let_def upsert_row_def)
  obtain b reply where run: "handle_handoff_commit ex_codec ex_clock (RpcNumber 1)
      \<lparr>hi_project = ''p1'', hi_handoff_id = ''h1'', hi_observed_source_generation = ''g1''\<rparr> a1 = (b, reply)"
    by fastforce
  have E: "ho_target_device_id (ex_handoff SourceReady) = ''b''" "ho_lease_id (ex_handoff SourceReady) = ''l1''"
    by (simp_all add: ex_handoff_def)
  have r: "sel_row ho_handoff_id ''h1'' (db_handoffs (ag_projects (ex_agent ex_ready) ''p1'')) = Some (ex_handoff SourceReady)"
    by (simp add: ex_ready_def) (simp add: ex_handoff_def)
  have "device_revoked (ag_control b) (ho_target_device_id (ex_handoff SourceReady))
    \<and> (\<exists>epoch. writers_of (ag_projects b ''p1'') (ho_lease_id (ex_handoff SourceReady))
          = Some (Some (ho_target_device_id (ex_handoff SourceReady)), epoch))"
    by (rule revocation_misses_pending_handoff [OF _ _ _ r _ _ _ _ _ rb _ run, where reason = "''lost''" and rotation = False and now = 120 and rec = rec])
      (use ex_ready_inv rev in \<open>simp_all add: E bt_get_def project_fk_def\<close>,
       simp_all add: ex_eval ex_clock_def)
  with rev run show ?thesis unfolding E by blast
qed

section \<open>The lifetime of a handoff\<close>

text \<open>
  The remote server passes the requested lifetime on unchecked: one that is too long is stored as a
  time the database reads back as zero, so the handoff counts as expired from its first second.
\<close>

lemma oversized_ttl_expires_at_once:
  assumes "begin_handoff i now lid s t g ttl db = (db', Inr h)" "2 ^ 63 \<le> unat (sat_add now (max ttl 1))"
    and "sel_row lr_lease_id lid (db_leases db) = Some l" "0 < later"
  shows "\<exists>h'. get_handoff i db' = Some h' \<and> ho_expires_at h' = 0
    \<and> commit_abort_reason h' obs later \<noteq> None"
proof -
  have ge: "get_handoff i db' = Some (handoff_from_row (handoff_row_of h now))"
    and h: "h = new_handoff i now (lease_from_row l) s t g ttl"
    using begin_frame [OF assms(3,1)] by (simp_all add: get_handoff_def)
  have "ho_expires_at (handoff_from_row (handoff_row_of h now)) = 0"
    using column_u64_zero [OF assms(2)] by (simp add: h handoff_from_row_def handoff_record.defs new_handoff_def)
  with ge assms(4) show ?thesis by (auto simp: commit_abort_reason_def)
qed

lemma local_ttl_bounds: "1 \<le> unat (local_handoff_ttl ttl)" "unat (local_handoff_ttl ttl) \<le> 86400"
  unfolding local_handoff_ttl_def DEFAULT_HANDOFF_TTL_SECONDS_def MAX_HANDOFF_TTL_SECONDS_def
  by (auto simp: min_def max_def word_le_nat_alt split: option.split)

lemma local_ttl_exact:
  "unat (local_handoff_ttl ttl) = min (max (case ttl of None \<Rightarrow> 600 | Some t \<Rightarrow> unat t) 1) 86400"
  unfolding local_handoff_ttl_def DEFAULT_HANDOFF_TTL_SECONDS_def MAX_HANDOFF_TTL_SECONDS_def
  by (auto simp: min_def max_def word_le_nat_alt split: option.split)

text \<open>
  C38. A handoff that the local server begins, from this device to the requested target, lives
  exactly as long as the request asks for, ten minutes when it does not say, cut to at least one
  second and at most a day: the stored handoff expires that many seconds after the time it was
  begun, so after it and no later than 86400 seconds after it.
\<close>

theorem local_handoff_lifetime:
  assumes "handle_handoff_begin ck i p a = (b, reply)" "rps_error reply = None"
    and "unat (rn_op_now ck) + 86400 < 2 ^ 63"
  shows "\<exists>h. get_handoff (rn_new_id ck) (ag_projects b (hb_project p)) = Some h
    \<and> ho_state h = TargetPrepare
    \<and> ho_source_device_id h = ag_device_id a \<and> ho_target_device_id h = hb_target_device_id p
    \<and> unat (ho_expires_at h) = unat (rn_op_now ck)
        + min (max (case hb_ttl_seconds p of None \<Rightarrow> 600 | Some t \<Rightarrow> unat t) 1) 86400
    \<and> unat (rn_op_now ck) < unat (ho_expires_at h) \<and> unat (ho_expires_at h) \<le> unat (rn_op_now ck) + 86400"
proof -
  let ?ttl = "local_handoff_ttl (hb_ttl_seconds p)" and ?now = "rn_op_now ck"
  let ?op = "\<lambda>db. failing_with internal_error (handoff_mutation_result (begin_handoff (rn_new_id ck) ?now
      (hb_lease_id p) (ag_device_id a) (hb_target_device_id p) (hb_source_generation p) ?ttl db))"
  obtain u prev of_h wrap where run: "mutate_project ck i u (hb_project p) prev ?op of_h wrap a = (b, reply)"
    using assms(1,2) unfolding handle_handoff_begin_def
    by (auto simp: rpc_failure_def split: sum.splits)
  obtain db q where beg0: "begin_handoff (rn_new_id ck) ?now (hb_lease_id p) (ag_device_id a) (hb_target_device_id p)
        (hb_source_generation p) ?ttl (ag_projects a (hb_project p)) = (db, q)" by fastforce
  obtain h where q: "q = Inr h"
    using mutate_accepted(2) [OF run assms(2)] beg0
    by (cases q) (auto simp: failing_with_def handoff_mutation_result_def)
  note beg = beg0 [unfolded q]
  have b: "ag_projects b (hb_project p) = db"
    using mutate_project_db(1) [OF run mutate_accepted(1) [OF run assms(2)]] beg by simp
  obtain l where l: "sel_row lr_lease_id (hb_lease_id p) (db_leases (ag_projects a (hb_project p))) = Some l"
    using begin_handoff_InrD [OF beg] by blast
  note F = begin_frame [OF l beg]
  have s: "unat (sat_add ?now (max ?ttl 1)) = unat ?now + unat ?ttl"
  proof -
    have m: "max ?ttl 1 = ?ttl"
      using local_ttl_bounds(1) [of "hb_ttl_seconds p"] by (intro max_absorb1) (simp add: word_le_nat_alt)
    have "unat ?now + unat ?ttl < 2 ^ 64" using local_ttl_bounds(2) [of "hb_ttl_seconds p"] assms(3) by simp
    then show ?thesis unfolding m by (simp add: sat_add_def unat_word_ariths)
  qed
  then have "column_u64 (sat_add ?now (max ?ttl 1)) = sat_add ?now (max ?ttl 1)"
    using local_ttl_bounds(2) [of "hb_ttl_seconds p"] assms(3) by (simp add: column_u64_id)
  then have "get_handoff (rn_new_id ck) db = Some (handoff_from_row (handoff_row_of h ?now))"
    "ho_expires_at (handoff_from_row (handoff_row_of h ?now)) = sat_add ?now (max ?ttl 1)"
    "ho_state (handoff_from_row (handoff_row_of h ?now)) = TargetPrepare"
    "ho_source_device_id (handoff_from_row (handoff_row_of h ?now)) = ag_device_id a"
    "ho_target_device_id (handoff_from_row (handoff_row_of h ?now)) = hb_target_device_id p"
    using F(1,2) by (simp_all add: get_handoff_def new_handoff_def handoff_from_row_def handoff_record.defs)
  with b s local_ttl_bounds [of "hb_ttl_seconds p"] show ?thesis unfolding local_ttl_exact by simp
qed

definition ex_begin :: handoff_begin_params where
  "ex_begin = \<lparr>hb_project = ''p1'', hb_lease_id = ''l1'', hb_target_device_id = ''b'',
     hb_source_generation = ''g1'', hb_ttl_seconds = Some (100000000)\<rparr>"

definition ex_paired :: agent where
  "ex_paired = (ex_agent ex_base)\<lparr>ag_control := empty_db\<lparr>db_devices := [\<lparr>dv_device_id = ''b'',
     dv_display_name = ''B'', dv_platform_key = ''linux'', dv_architecture = ''arm64'', dv_capabilities_json = ''{}'',
     dv_paired_at = None, dv_last_seen = 1\<rparr>]\<rparr>\<rparr>"

lemma ex_paired_knows: "ensure_known_target_device ex_paired ''b'' = Inr ()"
  by (simp add: ensure_known_target_device_def ex_paired_def get_device_def empty_db_def ensure_device_not_revoked_def)

lemma ex_paired_sel [simp]:
  "ag_registry ex_paired = [(''p1'', ex_project)]" "ag_device_id ex_paired = ''a''"
  "ag_projects ex_paired p = ex_base" "ag_events ex_paired = empty_event_log"
  by (simp_all add: ex_paired_def)

theorem local_handoff_lifetime_witness:
  "\<exists>b reply h. handle_handoff_begin ex_clock (RpcNumber 1) ex_begin ex_paired = (b, reply)
     \<and> rps_error reply = None
     \<and> get_handoff ''n1'' (ag_projects b ''p1'') = Some h
     \<and> ho_target_device_id h = ''b'' \<and> unat (ho_expires_at h) = 86530"
proof -
  have fk: "project_fk ex_base" by (simp add: project_fk_def ex_eval)
  have l: "sel_row lr_lease_id ''l1'' (db_leases ex_base) = Some (ex_lease Active None)"
    "lr_state (ex_lease Active None) = Active" "lr_holder_device_id (ex_lease Active None) = Some ''a''"
    by (simp_all add: ex_eval)
  obtain db h where beg: "begin_handoff ''n1'' 130 ''l1'' ''a'' ''b'' ''g1'' (local_handoff_ttl (Some (100000000))) ex_base = (db, Inr h)"
    using begin_ok [OF l _ _ _ _ fk, where i = "''n1''" and t = "''b''" and now = 130 and g = "''g1''"
        and ttl = "local_handoff_ttl (Some (100000000))"] by (auto simp: ex_eval)
  let ?a = "set_project ''p1'' db ex_paired"
  obtain b0 where pub: "publish_handoff_state_changed 130000 h None ?a = (b0, Inr ())"
    using publish_fresh [of ?a 130000 h None] by auto
  obtain m where m: "handoff_mutation_result (db, Inr h) = (db, Inr m)" "hm_handoff m = h"
    by (simp add: handoff_mutation_result_def)
  have "handle_handoff_begin ex_clock (RpcNumber 1) ex_begin ex_paired = (b0, rpc_success (RpcNumber 1) (MutationReply m))"
    by (simp add: handle_handoff_begin_def ex_begin_def ex_paired_knows mutate_project_def open_registered_project_db_def
        bt_get_def ex_clock_def beg m pub failing_with_def)
  from local_handoff_lifetime [OF this] this show ?thesis
    by (auto simp: rpc_success_def ex_begin_def ex_clock_def)
qed

section \<open>Refused requests that still take effect\<close>

text \<open>
  The settings handler writes the profile and the discovery flag into the shared configuration
  before it checks the editor command, and the registry handlers change the registry before
  they save it: the client gets an error, the running agent keeps the change.
\<close>

lemma refused_settings_take_effect:
  assumes "handle_settings_update env i p a = (b, reply)" "sup_editor_command p = Some []"
    and "sup_resource_profile p = Some profile"
  shows "rps_error reply \<noteq> None \<and> cfg_resource_profile (ag_config b) = profile"
  using assms by (auto simp: handle_settings_update_def Let_def rpc_failure_def split: option.splits)

lemma unsaved_removal_takes_effect:
  assumes "handle_projects_remove env i k a = (b, reply)" "bt_get (ag_registry a) k = Some p" "pr_project_id p = k"
    and "save_config (en_json env) (en_write_config env) (ag_config (set_registry (bt_remove k (ag_registry a)) a)) = Inl e"
  shows "rps_error reply \<noteq> None \<and> bt_get (ag_registry b) k = None"
  using assms by (auto simp: handle_projects_remove_def find_project_def Let_def rpc_failure_def)

end
