(* ===== verification/Agent_Registry.thy ===== *)
theory Agent_Registry
  imports Agent_System
begin

text \<open>
  The project registry of the configuration under all requests of the agent: keys and identifiers
  agree and no directory is registered twice. The handlers are walked through once, in a locale
  over any relation that the changes of the configuration respect.
\<close>

section \<open>The registry as a table of workspaces\<close>

definition ws_at :: "project_registry \<Rightarrow> string \<Rightarrow> string \<Rightarrow> workspace_entry option" where
  "ws_at reg k j = (case bt_get reg k of None \<Rightarrow> None | Some p \<Rightarrow> bt_get (pr_workspaces p) j)"

definition registry_wf :: "project_registry \<Rightarrow> bool" where
  "registry_wf reg \<longleftrightarrow> bt_wf reg
     \<and> (\<forall>k p. bt_get reg k = Some p \<longrightarrow> pr_project_id p = k \<and> bt_wf (pr_workspaces p))
     \<and> (\<forall>k j w. ws_at reg k j = Some w \<longrightarrow> we_workspace_id w = j \<and> we_project_id w = k)
     \<and> (\<forall>k j w k' j' w'. ws_at reg k j = Some w \<longrightarrow> ws_at reg k' j' = Some w'
          \<longrightarrow> path_eq (we_local_path w) (we_local_path w') \<longrightarrow> k = k' \<and> j = j')"

lemma registry_unique:
  "registry_wf reg \<Longrightarrow> ws_at reg k j = Some w \<Longrightarrow> ws_at reg k' j' = Some w' \<Longrightarrow>
    path_eq (we_local_path w) (we_local_path w') \<Longrightarrow> k = k' \<and> j = j'"
  unfolding registry_wf_def by blast

lemma path_eq_refl [simp]: "path_eq a a"
  by (simp add: path_eq_def)

lemma bt_get_iff: "bt_wf m \<Longrightarrow> bt_get m k = Some v \<longleftrightarrow> (k, v) \<in> set m"
  using bt_wf_distinct [of m] by (simp add: bt_get_def)

lemma find_map_NoneD: "find_map f xs = None \<Longrightarrow> x \<in> set xs \<Longrightarrow> f x = None"
  by (induction xs) (auto split: option.splits)

lemma find_map_SomeD: "find_map f xs = Some y \<Longrightarrow> \<exists>x\<in>set xs. f x = Some y"
  by (induction xs) (auto split: option.splits)

lemma path_not_found:
  assumes "workspace_by_path reg root = None" "ws_at reg k j = Some w"
  shows "\<not> path_eq (we_local_path w) root"
proof -
  obtain p where p: "(k, p) \<in> set reg" "(j, w) \<in> set (pr_workspaces p)"
    using assms(2) by (auto simp: ws_at_def split: option.splits dest!: bt_get_in)
  from find_map_NoneD [OF assms(1) [unfolded workspace_by_path_def], of p] p(1)
  have "find (\<lambda>w. path_eq (we_local_path w) root) (bt_values (pr_workspaces p)) = None"
    by (simp add: bt_values_def image_iff) (metis snd_conv)
  with p(2) show ?thesis by (auto simp: find_None_iff bt_values_def)
qed

lemma unregistered_path:
  "ensure_workspace_not_registered reg root = Inr () \<Longrightarrow> ws_at reg k j = Some w \<Longrightarrow> \<not> path_eq (we_local_path w) root"
  by (rule path_not_found) (auto simp: ensure_workspace_not_registered_def split: option.splits)

lemma by_path:
  assumes W: "registry_wf reg"
  shows "case workspace_by_path reg path of
      None \<Rightarrow> (\<forall>k j w. ws_at reg k j = Some w \<longrightarrow> \<not> path_eq (we_local_path w) path)
    | Some (p, w) \<Rightarrow> ws_at reg (pr_project_id p) (we_workspace_id w) = Some w \<and> path_eq (we_local_path w) path
        \<and> (\<forall>k j w'. ws_at reg k j = Some w' \<longrightarrow> path_eq (we_local_path w') path \<longrightarrow> w' = w)"
proof (cases "workspace_by_path reg path")
  case None
  then show ?thesis using path_not_found by auto
next
  case (Some pw)
  obtain p w where pw: "pw = (p, w)" by fastforce
  from Some pw obtain k where k: "(k, p) \<in> set reg"
    and f: "find (\<lambda>w. path_eq (we_local_path w) path) (bt_values (pr_workspaces p)) = Some w"
    by (auto simp: workspace_by_path_def bt_values_def dest!: find_map_SomeD)
  from f obtain j where j: "(j, w) \<in> set (pr_workspaces p)" "path_eq (we_local_path w) path"
    by (auto simp: find_Some_iff bt_values_def in_set_conv_nth) (metis nth_mem prod.collapse)
  have at: "ws_at reg k j = Some w"
  proof -
    have p: "bt_get reg k = Some p" "bt_wf (pr_workspaces p)"
      using W k bt_get_iff [of reg k p] unfolding registry_wf_def by blast+
    then show ?thesis using j(1) by (simp add: ws_at_def bt_get_iff)
  qed
  have id: "pr_project_id p = k" "we_workspace_id w = j"
    using W k at bt_get_iff [of reg k p] unfolding registry_wf_def by blast+
  have "\<forall>k' j' w'. ws_at reg k' j' = Some w' \<longrightarrow> path_eq (we_local_path w') path \<longrightarrow> w' = w"
  proof (intro allI impI)
    fix k' j' w' assume that: "ws_at reg k' j' = Some w'" "path_eq (we_local_path w') path"
    have "path_eq (we_local_path w') (we_local_path w)" using that(2) j(2) by (simp add: path_eq_def)
    with registry_unique [OF W that(1) at] that at show "w' = w" by simp
  qed
  with at j(2) show ?thesis unfolding Some pw option.case prod.case id by blast
qed

text \<open>Registering a workspace under a path that is not registered keeps the registry consistent.\<close>

lemma registry_insert:
  assumes W: "registry_wf reg"
    and free: "\<And>k j w. ws_at reg k j = Some w \<Longrightarrow> \<not> path_eq (we_local_path w) (we_local_path x)"
    and p: "pr_project_id p = k" "bt_wf (pr_workspaces p)" "we_project_id x = k" "we_workspace_id x = j"
    and tab: "\<And>i. bt_get (pr_workspaces p) i = (if i = j then Some x else ws_at reg k i)"
  shows "registry_wf (bt_insert k p reg)"
proof -
  have at: "ws_at (bt_insert k p reg) k' j' = (if k' = k \<and> j' = j then Some x else ws_at reg k' j')" for k' j'
    using tab by (auto simp: ws_at_def)
  have free': "\<And>k j w. ws_at reg k j = Some w \<Longrightarrow> path_components (we_local_path w) \<noteq> path_components (we_local_path x)"
    using free by (simp add: path_eq_def)
  have "bt_wf (bt_insert k p reg)" using W by (simp add: registry_wf_def)
  moreover have "\<forall>k' p'. bt_get (bt_insert k p reg) k' = Some p' \<longrightarrow> pr_project_id p' = k' \<and> bt_wf (pr_workspaces p')"
    using W p by (auto simp: registry_wf_def)
  moreover have "\<forall>k' j' w. ws_at (bt_insert k p reg) k' j' = Some w \<longrightarrow> we_workspace_id w = j' \<and> we_project_id w = k'"
    using W p unfolding at registry_wf_def by auto
  moreover have "k1 = k2 \<and> j1 = j2"
    if "ws_at (bt_insert k p reg) k1 j1 = Some w1" "ws_at (bt_insert k p reg) k2 j2 = Some w2"
      "path_eq (we_local_path w1) (we_local_path w2)" for k1 j1 w1 k2 j2 w2
  proof (cases "k1 = k \<and> j1 = j \<or> k2 = k \<and> j2 = j")
    case True
    then show ?thesis using that free' unfolding at path_eq_def by (auto split: if_splits)
  next
    case False
    then show ?thesis using that W unfolding at registry_wf_def by (metis (no_types, lifting))
  qed
  ultimately show ?thesis unfolding registry_wf_def by blast
qed

lemma registry_register:
  assumes W: "registry_wf reg" and run: "register_recovery_workspace env device project path reg = (reg', r)"
  shows "registry_wf reg'"
proof (cases r)
  case (Inl e)
  with run W show ?thesis
    by (auto simp: register_recovery_workspace_def Let_def split: sum.splits option.splits)
next
  case (Inr w)
  then obtain root p where free: "ensure_workspace_not_registered reg root = Inr ()"
    and p: "bt_get reg project = Some p"
    and w: "w = new_workspace_entry env project device root" and reg': "reg' = bt_insert project (insert_workspace w p) reg"
    using run by (auto simp: register_recovery_workspace_def Let_def split: sum.splits option.splits)
  have wf: "pr_project_id p = project" "bt_wf (pr_workspaces p)" using W p by (auto simp: registry_wf_def)
  show ?thesis unfolding reg'
    by (rule registry_insert [OF W, where x = w and j = "we_workspace_id w"])
      (use wf unregistered_path [OF free] p in \<open>auto simp: w new_workspace_entry_def insert_workspace_def ws_at_def\<close>)
qed

lemma registry_merge:
  assumes W: "registry_wf reg" and b: "build_project_registry_entry env device path manifest = Inr entry"
    and free: "ensure_workspace_not_registered reg (pr_local_path entry) = Inr ()"
  shows "registry_wf (merge_project_registry_entry entry reg)"
proof -
  obtain w where w: "pr_workspaces entry = [(we_workspace_id w, w)]" "we_project_id w = pr_project_id entry"
      "we_local_path w = pr_local_path entry"
  proof
    let ?w = "new_workspace_entry env (pr_project_id entry) device (pr_local_path entry)"
    show "pr_workspaces entry = [(we_workspace_id ?w, ?w)]"
      using b by (auto simp: build_project_registry_entry_def bind_r_Inr_iff Let_def)
  qed (simp_all add: new_workspace_entry_def)
  note F = unregistered_path [OF free]
  show ?thesis
  proof (cases "bt_get reg (pr_project_id entry)")
    case None
    then have "merge_project_registry_entry entry reg = bt_insert (pr_project_id entry) entry reg"
      by (simp add: merge_project_registry_entry_def)
    also have "registry_wf \<dots>"
      by (rule registry_insert [OF W, where x = w and j = "we_workspace_id w"])
        (use F w None in \<open>auto simp: ws_at_def bt_get_def\<close>)
    finally show ?thesis .
  next
    case (Some old)
    have wf: "pr_project_id old = pr_project_id entry" "bt_wf (pr_workspaces old)"
      using W Some by (auto simp: registry_wf_def)
    show ?thesis unfolding merge_project_registry_entry_def Some option.case
      by (rule registry_insert [OF W, where x = w and j = "we_workspace_id w"])
        (use F w Some wf in \<open>auto simp: ws_at_def\<close>)
  qed
qed

lemma registry_remove: "registry_wf reg \<Longrightarrow> registry_wf (bt_remove k reg)"
proof -
  assume W: "registry_wf reg"
  have at: "ws_at (bt_remove k reg) k' j = (if k' = k then None else ws_at reg k' j)" for k' j
    by (simp add: ws_at_def)
  have "\<forall>k' p. bt_get (bt_remove k reg) k' = Some p \<longrightarrow> pr_project_id p = k' \<and> bt_wf (pr_workspaces p)"
    using W by (simp add: registry_wf_def)
  moreover have "bt_wf (bt_remove k reg)" using W by (simp add: registry_wf_def)
  ultimately show ?thesis using W unfolding registry_wf_def at by (simp (no_asm_simp))
qed

section \<open>What every request respects\<close>

text \<open>
  A relation between agents that is reflexive and transitive, holds when only databases, events and
  counters change, and is respected by the four ways to change the configuration.
\<close>

locale agent_frame =
  fixes R :: "agent \<Rightarrow> agent \<Rightarrow> bool"
  assumes trans: "R a b \<Longrightarrow> R b d \<Longrightarrow> R a d"
    and frame: "ag_config b = ag_config a \<Longrightarrow> ag_root b = ag_root a \<Longrightarrow> ag_policy b = ag_policy a \<Longrightarrow> R a b"
    and register: "register_recovery_workspace env (ag_device_id a) project path (ag_registry a) = (reg, r) \<Longrightarrow>
      R a (set_registry reg a)"
    and merge: "build_project_registry_entry env (ag_device_id a) path manifest = Inr entry \<Longrightarrow>
      ensure_workspace_not_registered (ag_registry a) (pr_local_path entry) = Inr () \<Longrightarrow>
      R a (set_registry (merge_project_registry_entry entry (ag_registry a)) a)"
    and remove: "R a (set_registry (bt_remove k (ag_registry a)) a)"
    and settings: "cfg_registry cfg = ag_registry a \<Longrightarrow> cfg_device_id cfg = ag_device_id a \<Longrightarrow> R a (a\<lparr>ag_config := cfg\<rparr>)"
begin

lemma refl [intro]: "R a a"
  by (rule frame) simp_all

lemma mutate: "mutate_project ck i u project prev op of_h wrap a = (b, r) \<Longrightarrow> R a b"
  by (drule mutate_shape) (auto simp: set_project_def intro!: frame)

lemma record_project: "record_project_audit env ck p i a = (b, r) \<Longrightarrow> R a b"
  unfolding record_project_audit_def by (auto simp: set_project_def split: prod.splits intro!: frame)

lemma record_control: "record_control_audit env ck i a = (b, r) \<Longrightarrow> R a b"
  unfolding record_control_audit_def by (auto split: prod.splits intro!: frame)

lemma record_scoped: "record_scoped_audit env ck p i a = (b, r) \<Longrightarrow> R a b"
  unfolding record_scoped_audit_def by (auto split: option.splits intro: record_project record_control)

lemma publish_workspace: "publish_workspace_state_changed ms w prev a = (b, r) \<Longrightarrow> R a b"
  by (drule publish_workspace_frame) (erule ssubst, rule frame, simp_all)

lemma publish_all: "publish_workspaces ms ws a = (b, r) \<Longrightarrow> R a b"
  by (drule publish_workspaces_frame) (erule ssubst, rule frame, simp_all)

lemma publish_handoff: "publish_handoff_state_changed ms h prev a = (b, r) \<Longrightarrow> R a b"
  by (drule publish_handoff_frame) (erule ssubst, rule frame, simp_all)

lemma recovery:
  "open_recovery env ck refused failed operation wrap p a = (b, r) \<Longrightarrow> R a b"
proof -
  have reg: "R a1 (set_registry reg a1)" "R a1 d"
    if "register_recovery_workspace env (ag_device_id a1) project path (ag_registry a1) = (reg, x)"
      and "publish_workspace_state_changed ms w None (set_registry reg a1) = (d, y)" for a1 project path reg x ms w d y
    using register [OF that(1)] trans [OF register [OF that(1)] publish_workspace [OF that(2)]] by blast+
  assume "open_recovery env ck refused failed operation wrap p a = (b, r)"
  then show ?thesis
    unfolding open_recovery_def
    by (auto simp: Let_def split: sum.splits prod.splits if_splits dest!: record_project
        intro: trans [OF _ register] trans [OF _ reg(2)])
qed

lemma apply_snapshot: "handle_apply_snapshot env ck i p a = (b, r) \<Longrightarrow> R a b"
proof -
  have step: "R a (a\<lparr>ag_events := e\<rparr>)" for a e by (rule frame) simp_all
  assume "handle_apply_snapshot env ck i p a = (b, r)"
  then show ?thesis
    unfolding handle_apply_snapshot_def
    by (auto simp: Let_def split: sum.splits prod.splits if_splits dest!: record_project
        intro: step trans [OF step] trans [OF trans [OF step _] step])
qed

lemma projects_add: "handle_projects_add env ck i p a = (b, r) \<Longrightarrow> R a b"
proof -
  have step: "R (set_registry reg a) (set_project q db (set_registry reg a))" for q db reg
    by (rule frame) (simp_all add: set_project_def)
  assume "handle_projects_add env ck i p a = (b, r)"
  then show ?thesis
    unfolding handle_projects_add_def
    by (auto simp: Let_def split: sum.splits prod.splits if_splits dest!: publish_all
        intro: merge trans [OF trans [OF merge step]] trans [OF merge step])
qed

lemma abort_all: "abort_each env ck project hs ab a = (b, r) \<Longrightarrow> R a b"
proof (induction hs arbitrary: ab a)
  case (Cons h hs)
  have step: "R a (set_project project db a)" for db
    by (rule frame) (simp_all add: set_project_def)
  from Cons.prems show ?case
    by (auto split: sum.splits prod.splits dest!: publish_handoff Cons.IH intro: step trans [OF step] trans [OF trans [OF step]])
qed (simp add: refl)

lemma editor_event: "handle_editor_event_record env ck i p a = (b, r) \<Longrightarrow> R a b"
proof -
  have step: "R a (a\<lparr>ag_generations := g\<rparr>)" for g by (rule frame) simp_all
  assume "handle_editor_event_record env ck i p a = (b, r)"
  then show ?thesis
    unfolding handle_editor_event_record_def abort_source_handoffs_after_editor_edit_def
    by (auto simp: Let_def split: sum.splits prod.splits if_splits option.splits dest!: abort_all
        intro: step trans [OF step])
qed

lemma context_update: "handle_editor_context_update env ck i p a = (b, r) \<Longrightarrow> R a b"
  unfolding handle_editor_context_update_def
  by (auto simp: Let_def split: sum.splits prod.splits if_splits dest!: record_scoped)

lemma restore_ack: "handle_editor_restore_ack env ck i p a = (b, r) \<Longrightarrow> R a b"
  unfolding handle_editor_restore_ack_def
  by (auto simp: Let_def split: sum.splits prod.splits if_splits dest!: record_scoped)

lemma settings_update: "handle_settings_update env i p a = (b, r) \<Longrightarrow> R a b"
  unfolding handle_settings_update_def by (auto simp: Let_def split: sum.splits option.splits if_splits intro!: settings)

lemma projects_remove: "handle_projects_remove env i p a = (b, r) \<Longrightarrow> R a b"
  unfolding handle_projects_remove_def by (auto simp: Let_def split: sum.splits option.splits intro!: remove)

lemma remote: "remote_change rp m actor a b \<Longrightarrow> R a b"
  unfolding remote_change_def
  by (elim disjE exE conjE) (simp add: refl, simp add: set_project_def, rule frame, simp_all add: recovery)

lemma remote_frame: "process_remote_frame rp ck bs leaf a = (b, r) \<Longrightarrow> R a b"
proof -
  assume run: "process_remote_frame rp ck bs leaf a = (b, r)"
  obtain seen q where auth: "authenticate_remote_control_frame rp bs leaf (ag_root a)
      (list_device_revocations (ag_control a)) (ag_policy a) (rn_now ck) (ag_replay a) = (seen, q)"
    by fastforce
  have seen: "R a (a\<lparr>ag_replay := seen\<rparr>)" by (rule frame) simp_all
  show ?thesis
  proof (cases q)
    case (Inl resp)
    then show ?thesis
      using run rejected_frame [OF auth [unfolded Inl]]
      by (auto simp: record_remote_security_block_def split: prod.splits intro!: frame)
  next
    case (Inr cx)
    then have "dispatch_remote_request rp ck cx (a\<lparr>ag_replay := seen\<rparr>) = (b, r)"
      using run auth by (simp add: process_remote_frame_def)
    from trans [OF seen remote [OF change_dispatch [OF this]]] show ?thesis .
  qed
qed

lemma local_mutations:
  "handle_handoff_begin ck i bp a = (b, r) \<Longrightarrow> R a b"
  "handle_handoff_target_verify ck i p a = (b, r) \<Longrightarrow> R a b"
  "handle_handoff_source_ready ck i p a = (b, r) \<Longrightarrow> R a b"
  "handle_handoff_abort c ck i p a = (b, r) \<Longrightarrow> R a b"
  "handle_handoff_commit c ck i cp a = (b, r) \<Longrightarrow> R a b"
  "handle_handoff_recover c ck i cp a = (b, r) \<Longrightarrow> R a b"
  unfolding handle_handoff_begin_def handle_handoff_target_verify_def handle_handoff_source_ready_def
    handle_handoff_abort_def handle_handoff_id_mutation_def handle_handoff_commit_def handle_handoff_recover_def
  by (auto split: sum.splits dest: mutate)

lemma recover_open: "handle_recover_open env ck i p a = (b, r) \<Longrightarrow> R a b"
  unfolding handle_recover_open_def by (auto split: prod.splits sum.splits dest: recovery)

lemma revoke: "device_revoke_command c d reason rotation now a = (b, r) \<Longrightarrow> R a b"
  unfolding device_revoke_command_def by (auto split: prod.splits intro!: frame)

lemma step: "agent_step rp hash a b \<Longrightarrow> R a b"
proof (induction rule: agent_step.cases)
  case (as_project_command a p db) then show ?case by (auto simp: set_project_def intro!: frame)
qed (auto intro: frame dest: remote_frame local_mutations apply_snapshot recover_open projects_add projects_remove
    editor_event context_update restore_ack settings_update revoke)

end

interpretation registry: agent_frame "\<lambda>a b. registry_wf (ag_registry a) \<longrightarrow> registry_wf (ag_registry b)"
  by unfold_locales (auto dest: registry_register registry_merge registry_remove)

interpretation identity: agent_frame
  "\<lambda>a b. ag_device_id b = ag_device_id a \<and> ag_root b = ag_root a \<and> ag_policy b = ag_policy a"
  by unfold_locales simp_all

text \<open>
  C37. The registry stays consistent. Whatever requests the agent serves: a project is kept under
  its own identifier and a workspace under its own, within its project; a lookup by path
  finds the workspace registered there, and at most one registered workspace has a given path, in
  whichever project. No request changes the agent's own identity, the pinned root or the
  transport policy.
\<close>

theorem registry_stays_consistent:
  assumes "(agent_step rp hash)\<^sup>*\<^sup>* a b" and "registry_wf (ag_registry a)"
  shows "registry_wf (ag_registry b)
    \<and> ag_device_id b = ag_device_id a \<and> ag_root b = ag_root a \<and> ag_policy b = ag_policy a
    \<and> (\<forall>path. case workspace_by_path (ag_registry b) path of
          None \<Rightarrow> (\<forall>k j w. ws_at (ag_registry b) k j = Some w \<longrightarrow> \<not> path_eq (we_local_path w) path)
        | Some (p, w) \<Rightarrow> ws_at (ag_registry b) (pr_project_id p) (we_workspace_id w) = Some w
            \<and> path_eq (we_local_path w) path
            \<and> (\<forall>k j w'. ws_at (ag_registry b) k j = Some w' \<longrightarrow> path_eq (we_local_path w') path \<longrightarrow> w' = w))"
proof -
  have W: "registry_wf (ag_registry b)"
    using assms(1) by (induction rule: rtranclp_induct) (use assms(2) registry.step in blast)+
  have I: "ag_device_id b = ag_device_id a \<and> ag_root b = ag_root a \<and> ag_policy b = ag_policy a"
    using assms(1)
  proof (induction rule: rtranclp_induct)
    case (step c d)
    from identity.step [OF step.hyps(2)] step.IH show ?case by simp
  qed simp
  have "case workspace_by_path (ag_registry b) path of
          None \<Rightarrow> (\<forall>k j w. ws_at (ag_registry b) k j = Some w \<longrightarrow> \<not> path_eq (we_local_path w) path)
        | Some (p, w) \<Rightarrow> ws_at (ag_registry b) (pr_project_id p) (we_workspace_id w) = Some w
            \<and> path_eq (we_local_path w) path
            \<and> (\<forall>k j w'. ws_at (ag_registry b) k j = Some w' \<longrightarrow> path_eq (we_local_path w') path \<longrightarrow> w' = w)" for path
    using by_path [OF W, of path] .
  with W I show ?thesis by blast
qed

theorem registry_stays_consistent_witness:
  "\<exists>b r. handle_projects_remove (rp_env (ex_remote ''m'')) (RpcNumber 1) ''p1'' (ex_agent ex_base) = (b, r)
     \<and> registry_wf (ag_registry b) \<and> ag_registry b = [] \<and> ag_device_id b = ''a''"
proof -
  obtain b r where run: "handle_projects_remove (rp_env (ex_remote ''m'')) (RpcNumber 1) ''p1'' (ex_agent ex_base) = (b, r)"
    by fastforce
  have reg: "ag_registry b = []"
    using run by (auto simp: handle_projects_remove_def find_project_def bt_get_def ex_project_def bt_remove_def Let_def
        split: sum.splits)
  have W: "registry_wf (ag_registry (ex_agent ex_base))"
    by (simp add: registry_wf_def ws_at_def bt_get_def ex_project_def split: if_splits)
  have "(agent_step (ex_remote ''m'') hash)\<^sup>*\<^sup>* (ex_agent ex_base) b" for hash
    using agent_step.as_remove [OF run] by (rule r_into_rtranclp)
  from registry_stays_consistent [OF this W] run reg show ?thesis by simp
qed

end
