(* ===== verification/Structured_Log.thy ===== *)
theory Structured_Log
  imports Path_Policy Db_State
begin

text \<open>
  Structured logs, \<open>logging.rs\<close>: records with their JSON and human forms, the redaction of secrets
  from texts and JSON values, and the log file with its rotation. The file system is a map from
  paths to contents; JSON printing is an argument. A text is its UTF-8 bytes: the searched
  characters are ASCII, and a white-space character is recognised by its first byte.
\<close>

section \<open>Records\<close>

datatype log_level = LogError | LogWarn | LogInfo | LogDebug | LogTrace

fun log_level_as_str :: "log_level \<Rightarrow> string" where
  "log_level_as_str LogError = ''error''"
| "log_level_as_str LogWarn = ''warn''"
| "log_level_as_str LogInfo = ''info''"
| "log_level_as_str LogDebug = ''debug''"
| "log_level_as_str LogTrace = ''trace''"

datatype log_format = LogJsonLine | LogHuman

record log_record =
  lo_timestamp :: u64
  lo_level :: log_level
  lo_target :: string
  lo_message :: string
  lo_request_id :: "string option"
  lo_operation_id :: "string option"
  lo_fields :: "(string, string) btree_map"



section \<open>Redaction\<close>

definition REDACTED :: string where "REDACTED = ''<redacted>''"
definition REDACTED_PATH :: string where "REDACTED_PATH = ''<path>''"

definition secret_key_fragments :: "string list" where
  "secret_key_fragments = [''api_key'', ''apikey'', ''auth'', ''credential'', ''password'', ''passwd'',
     ''private_key'', ''secret'', ''token'']"

definition url_schemes :: "string list" where
  "url_schemes = [''https://'', ''http://'', ''ssh://'']"

definition find_next_scheme :: "string \<Rightarrow> (nat \<times> string) option" where
  "find_next_scheme s =
     fold (\<lambda>sch best. case str_find sch s of
         None \<Rightarrow> best
       | Some i \<Rightarrow> (case best of None \<Rightarrow> Some (i, sch) | Some (j, _) \<Rightarrow> if i < j then Some (i, sch) else best))
       url_schemes None"

definition ends_url :: "string \<Rightarrow> bool" where
  "ends_url s \<longleftrightarrow> s \<noteq> [] \<and> (0 < whitespace_len s \<or> hd s \<in> {CHR 0x22, CHR 0x27, CHR '')'', CHR '']''})"

text \<open>The number of bytes before the first position where \<open>P\<close> holds of the rest.\<close>

fun run_until :: "(string \<Rightarrow> bool) \<Rightarrow> string \<Rightarrow> nat" where
  "run_until P [] = 0"
| "run_until P (c # cs) = (if P (c # cs) then 0 else Suc (run_until P cs))"

definition redact_url_userinfo :: "string \<Rightarrow> string \<Rightarrow> string" where
  "redact_url_userinfo url scheme =
     (let rest = drop (length scheme) url; authority = takeWhile (\<lambda>c. c \<noteq> CHR ''/'') rest
      in if CHR ''@'' \<notin> set authority then url
         else take (length scheme) url @ REDACTED
           @ drop (length authority - Suc (length (takeWhile (\<lambda>c. c \<noteq> CHR ''@'') (rev authority)))) rest)"

lemma next_scheme_SomeD:
  "find_next_scheme s = Some (i, sch) \<Longrightarrow> sch \<in> set url_schemes \<and> str_find sch s = Some i"
  by (auto simp: find_next_scheme_def url_schemes_def split: option.splits if_splits)

lemma run_until_le: "run_until P s \<le> length s"
  by (induction s) auto

lemma scheme_runs:
  "find_next_scheme s = Some (i, sch) \<Longrightarrow> 0 < run_until ends_url (drop i s)"
proof -
  assume "find_next_scheme s = Some (i, sch)"
  from next_scheme_SomeD [OF this] obtain r where "sch \<in> set url_schemes" "drop i s = sch @ r"
    using str_find_SomeD by (fastforce simp: starts_with_iff)
  then show ?thesis by (auto simp: url_schemes_def ends_url_def is_ascii_space_def split: list.splits)
qed

function redact_credentialed_urls :: "string \<Rightarrow> string" where
  "redact_credentialed_urls s =
     (case find_next_scheme s of
        None \<Rightarrow> s
      | Some (i, scheme) \<Rightarrow>
          (let n = run_until ends_url (drop i s)
           in take i s @ redact_url_userinfo (take n (drop i s)) scheme @ redact_credentialed_urls (drop (i + n) s)))"
  by pat_completeness auto

termination
proof (relation "measure length")
  fix s i scheme and p n assume p: "find_next_scheme s = Some p" "(i, scheme) = p" "n = run_until ends_url (drop i s)"
  then have "0 < n" using scheme_runs [of s i scheme] by simp
  moreover have "n \<le> length s - i" using p(3) run_until_le [of ends_url "drop i s"] by simp
  ultimately show "(drop (i + n) s, s) \<in> measure length" by simp
qed simp

declare redact_credentialed_urls.simps [simp del]

definition raw_secret_tokens :: "string \<Rightarrow> string list" where
  "raw_secret_tokens s = filter looks_like_known_token (token_candidates s)"

definition redact_raw_secret_tokens :: "string \<Rightarrow> string" where
  "redact_raw_secret_tokens s = fold (\<lambda>t. str_replace t REDACTED) (raw_secret_tokens s) s"

definition ends_value :: "string \<Rightarrow> bool" where
  "ends_value s \<longleftrightarrow> s \<noteq> [] \<and> (0 < whitespace_len s \<or> hd s \<in> {CHR '','', CHR '';'', CHR ''&''})"

definition leading_space :: "string \<Rightarrow> nat" where
  "leading_space s = length s - length (trim_start s)"

function redact_assignment_prefix :: "string \<Rightarrow> string \<Rightarrow> string" where
  "redact_assignment_prefix prefix s =
     (if prefix = [] then s
      else case str_find prefix (to_ascii_lowercase s) of
        None \<Rightarrow> s
      | Some i \<Rightarrow>
          (let start = i + length prefix + leading_space (drop (i + length prefix) s);
               n = run_until ends_value (drop start s)
           in take start s @ (if 0 < n then REDACTED else []) @ redact_assignment_prefix prefix (drop (start + n) s)))"
  by pat_completeness auto

termination
proof (relation "measure (length \<circ> snd)")
  fix prefix s :: string and i start n
  assume "prefix \<noteq> []" "str_find prefix (to_ascii_lowercase s) = Some i"
    "start = i + length prefix + leading_space (drop (i + length prefix) s)"
  then show "((prefix, drop (start + n) s), prefix, s) \<in> measure (length \<circ> snd)"
    using str_find_SomeD [of prefix "to_ascii_lowercase s" i] by (cases prefix) (auto simp: to_ascii_lowercase_def)
qed simp

declare redact_assignment_prefix.simps [simp del]

definition redact_secret_assignments :: "string \<Rightarrow> string" where
  "redact_secret_assignments s =
     fold (\<lambda>k v. redact_assignment_prefix (k @ '':'') (redact_assignment_prefix (k @ ''='') v)) secret_key_fragments s"

definition is_secret_key :: "string \<Rightarrow> bool" where
  "is_secret_key k \<longleftrightarrow> list_ex (\<lambda>f. str_contains f (to_ascii_lowercase k)) secret_key_fragments"

record log_redactor =
  rx_redact_local_paths :: bool
  rx_local_paths :: "string list"

definition redactor_new :: log_redactor where
  "redactor_new = \<lparr>rx_redact_local_paths = False, rx_local_paths = []\<rparr>"

definition redactor_for_diagnostics :: "string list \<Rightarrow> log_redactor" where
  "redactor_for_diagnostics paths =
     \<lparr>rx_redact_local_paths = True, rx_local_paths = sort_key (\<lambda>p. - int (length p)) paths\<rparr>"

definition redact_paths :: "log_redactor \<Rightarrow> string \<Rightarrow> string" where
  "redact_paths rd s = fold (\<lambda>p v. if p = [] then v else str_replace p REDACTED_PATH v) (rx_local_paths rd) s"

definition redact_text :: "log_redactor \<Rightarrow> string \<Rightarrow> string" where
  "redact_text rd s =
     (let v = redact_secret_assignments (redact_raw_secret_tokens (redact_credentialed_urls s))
      in if rx_redact_local_paths rd then redact_paths rd v else v)"

definition redact_field :: "log_redactor \<Rightarrow> string \<Rightarrow> string \<Rightarrow> string" where
  "redact_field rd k v = (if is_secret_key k then REDACTED else redact_text rd v)"

lemma json_member_size: "(k, v) \<in> set kvs \<Longrightarrow> size v < size (JObj kvs)"
  by (induction kvs) auto

text \<open>Nested JSON: a string under a secret key is a field, any other string is text.\<close>

function redact_json_value :: "log_redactor \<Rightarrow> json \<Rightarrow> json" where
  "redact_json_value rd (JStr s) = JStr (redact_text rd s)"
| "redact_json_value rd (JArr vs) = JArr (map (redact_json_value rd) vs)"
| "redact_json_value rd (JObj kvs) = JObj (map (\<lambda>(k, v). (k, case v of
        JStr s \<Rightarrow> JStr (redact_field rd k s) | _ \<Rightarrow> redact_json_value rd v)) kvs)"
| "redact_json_value rd JNull = JNull"
| "redact_json_value rd (JBool b) = JBool b"
| "redact_json_value rd (JNum n) = JNum n"
  by pat_completeness auto

termination
proof (relation "measure (\<lambda>(_, v). size v)")
  fix rd :: log_redactor and kvs and z :: "string \<times> json" and k v
  assume "z \<in> set kvs" "(k, v) = z"
  then show "((rd, v), rd, JObj kvs) \<in> measure (\<lambda>(_, v). size v)"
    using json_member_size [of k v kvs] by simp
qed (auto simp: less_Suc_eq_le intro: size_list_estimation')

section \<open>Lines\<close>

fun join_with :: "string \<Rightarrow> string list \<Rightarrow> string" where
  "join_with sep [] = []"
| "join_with sep [x] = x"
| "join_with sep (x # y # ys) = x @ sep @ join_with sep (y # ys)"

definition to_human_line :: "log_redactor \<Rightarrow> log_record \<Rightarrow> string" where
  "to_human_line rd r =
     join_with '' ''
       ([dec_u64 (lo_timestamp r), log_level_as_str (lo_level r), lo_target r, redact_text rd (lo_message r)]
        @ (case lo_request_id r of None \<Rightarrow> [] | Some i \<Rightarrow> [''request_id='' @ redact_text rd i])
        @ (case lo_operation_id r of None \<Rightarrow> [] | Some i \<Rightarrow> [''operation_id='' @ redact_text rd i])
        @ map (\<lambda>(k, v). k @ ''='' @ redact_field rd k v) (lo_fields r))"

definition to_json_value :: "log_redactor \<Rightarrow> log_record \<Rightarrow> json" where
  "to_json_value rd r = JObj
     [(''fields'', JObj (map (\<lambda>(k, v). (k, JStr (redact_field rd k v))) (lo_fields r))),
      (''level'', JStr (log_level_as_str (lo_level r))),
      (''message'', JStr (redact_text rd (lo_message r))),
      (''operation_id'', json_opt_str (map_option (redact_text rd) (lo_operation_id r))),
      (''request_id'', json_opt_str (map_option (redact_text rd) (lo_request_id r))),
      (''target'', JStr (lo_target r)),
      (''timestamp_unix_millis'', JNum (dec_u64 (lo_timestamp r)))]"

definition to_json_line :: "json_codec \<Rightarrow> log_redactor \<Rightarrow> log_record \<Rightarrow> string" where
  "to_json_line c rd r = js_print c (to_json_value rd r)"

section \<open>The log file\<close>

type_synonym log_files = "string \<Rightarrow> string option"

record log_file =
  lf_path :: string
  lf_format :: log_format
  lf_redactor :: log_redactor
  lf_max_bytes :: nat
  lf_max_files :: nat


definition rotated_path :: "string \<Rightarrow> nat \<Rightarrow> string" where
  "rotated_path path i = path @ ''.'' @ dec_nat i"

definition rename_file :: "string \<Rightarrow> string \<Rightarrow> log_files \<Rightarrow> log_files" where
  "rename_file from to fs = (case fs from of None \<Rightarrow> fs | Some c \<Rightarrow> fs(from := None, to := Some c))"

definition rotate_log_files :: "string \<Rightarrow> nat \<Rightarrow> log_files \<Rightarrow> log_files" where
  "rotate_log_files path max_files fs =
     (if max_files = 0 then fs(path := None)
      else rename_file path (rotated_path path 1)
        (fold (\<lambda>i. rename_file (rotated_path path i) (rotated_path path (Suc i))) (rev [1..<max_files])
          (fs(rotated_path path max_files := None))))"

definition rotate_if_needed :: "log_file \<Rightarrow> nat \<Rightarrow> log_files \<Rightarrow> log_files" where
  "rotate_if_needed lf incoming fs =
     (if lf_max_bytes lf = 0 then fs
      else case fs (lf_path lf) of
        None \<Rightarrow> fs
      | Some c \<Rightarrow> if c = [] \<or> length c + incoming \<le> lf_max_bytes lf then fs
          else rotate_log_files (lf_path lf) (lf_max_files lf) fs)"

definition log_line :: "json_codec \<Rightarrow> log_file \<Rightarrow> log_record \<Rightarrow> string" where
  "log_line c lf r = (case lf_format lf of
      LogJsonLine \<Rightarrow> to_json_line c (lf_redactor lf) r
    | LogHuman \<Rightarrow> to_human_line (lf_redactor lf) r) @ [CHR 0x0A]"

definition append_log :: "json_codec \<Rightarrow> log_file \<Rightarrow> log_record \<Rightarrow> log_files \<Rightarrow> log_files" where
  "append_log c lf r fs =
     (let line = log_line c lf r; fs1 = rotate_if_needed lf (length line) fs
      in fs1(lf_path lf := Some ((case fs1 (lf_path lf) of None \<Rightarrow> [] | Some old \<Rightarrow> old) @ line)))"

section \<open>Rotation shifts the files\<close>

definition log_text :: "log_files \<Rightarrow> string \<Rightarrow> string" where
  "log_text fs p = (case fs p of None \<Rightarrow> [] | Some c \<Rightarrow> c)"

lemma rotated_path_neq [simp]: "rotated_path p i \<noteq> p" "p \<noteq> rotated_path p i"
  by (simp_all add: rotated_path_def)

lemma rotated_path_inj [simp]: "rotated_path p i = rotated_path p j \<longleftrightarrow> i = j"
  by (simp add: rotated_path_def)

lemma rename_at:
  "rename_file a b fs q = (if fs a = None then fs q else if q = b then fs a else if q = a then None else fs q)"
  by (auto simp: rename_file_def)

lemma shift_up:
  assumes "fs (rotated_path p m) = None" "m \<noteq> 0"
  shows "fold (\<lambda>i. rename_file (rotated_path p i) (rotated_path p (Suc i))) (rev [Suc 0..<m]) fs q =
    (if \<exists>k\<in>{2..m}. q = rotated_path p k then fs (rotated_path p ((THE k. q = rotated_path p k) - 1))
     else if q = rotated_path p (Suc 0) then None else fs q)"
  using assms
proof (induction m arbitrary: fs)
  case (Suc m)
  show ?case
  proof (cases "m = 0")
    case True
    with Suc.prems show ?thesis by auto
  next
    case False
    let ?fs = "rename_file (rotated_path p m) (rotated_path p (Suc m)) fs"
    have n: "?fs (rotated_path p m) = None" using Suc.prems by (simp add: rename_at)
    have up: "rev [Suc 0..<Suc m] = m # rev [Suc 0..<m]" using False by simp
    show ?thesis unfolding up list.simps fold_simps comp_apply Suc.IH [of ?fs, OF n False]
    proof (cases "\<exists>k. q = rotated_path p k")
      case True
      then obtain k where q: "q = rotated_path p k" by blast
      show "(if \<exists>k\<in>{2..m}. q = rotated_path p k then ?fs (rotated_path p ((THE k. q = rotated_path p k) - 1))
         else if q = rotated_path p (Suc 0) then None else ?fs q) =
        (if \<exists>k\<in>{2..Suc m}. q = rotated_path p k then fs (rotated_path p ((THE k. q = rotated_path p k) - 1))
         else if q = rotated_path p (Suc 0) then None else fs q)"
        using Suc.prems False unfolding q by (auto simp: rename_at)
    next
      case False
      then show "(if \<exists>k\<in>{2..m}. q = rotated_path p k then ?fs (rotated_path p ((THE k. q = rotated_path p k) - 1))
         else if q = rotated_path p (Suc 0) then None else ?fs q) =
        (if \<exists>k\<in>{2..Suc m}. q = rotated_path p k then fs (rotated_path p ((THE k. q = rotated_path p k) - 1))
         else if q = rotated_path p (Suc 0) then None else fs q)" by (auto simp: rename_at)
    qed
  qed
qed simp

lemma rotate_shifts:
  assumes n: "n \<noteq> 0"
  shows "rotate_log_files p n fs p = None"
    "rotate_log_files p n fs (rotated_path p k) =
       (if k = 1 then fs p else if k \<in> {2..n} then fs (rotated_path p (k - 1)) else fs (rotated_path p k))"
    "\<forall>i. q \<noteq> rotated_path p i \<Longrightarrow> q \<noteq> p \<Longrightarrow> rotate_log_files p n fs q = fs q"
proof -
  let ?fs = "fs(rotated_path p n := None)"
  note S = shift_up [of ?fs p n, OF _ n]
  show "rotate_log_files p n fs p = None"
    using n by (simp add: rotate_log_files_def rename_at S)
  show "rotate_log_files p n fs (rotated_path p k) =
       (if k = 1 then fs p else if k \<in> {2..n} then fs (rotated_path p (k - 1)) else fs (rotated_path p k))"
    using n by (auto simp: rotate_log_files_def rename_at S)
  show "\<forall>i. q \<noteq> rotated_path p i \<Longrightarrow> q \<noteq> p \<Longrightarrow> rotate_log_files p n fs q = fs q"
    using n by (auto simp: rotate_log_files_def rename_at S)
qed

section \<open>Properties\<close>

text \<open>The rotated files from the oldest to the newest, then the current one.\<close>

definition log_history :: "log_file \<Rightarrow> log_files \<Rightarrow> string" where
  "log_history lf fs =
     concat (map (\<lambda>i. log_text fs (rotated_path (lf_path lf) i)) (rev [1..<Suc (lf_max_files lf)]))
     @ log_text fs (lf_path lf)"

definition rotates :: "log_file \<Rightarrow> nat \<Rightarrow> log_files \<Rightarrow> bool" where
  "rotates lf incoming fs \<longleftrightarrow> lf_max_bytes lf \<noteq> 0 \<and> log_text fs (lf_path lf) \<noteq> []
     \<and> lf_max_bytes lf < length (log_text fs (lf_path lf)) + incoming"

definition oldest_log :: "log_file \<Rightarrow> log_files \<Rightarrow> string" where
  "oldest_log lf fs = log_text fs (if lf_max_files lf = 0 then lf_path lf
     else rotated_path (lf_path lf) (lf_max_files lf))"

lemma rotate_if_needed_alt:
  "rotate_if_needed lf n fs = (if rotates lf n fs then rotate_log_files (lf_path lf) (lf_max_files lf) fs else fs)"
  by (auto simp: rotate_if_needed_def rotates_def log_text_def split: option.split)

lemma shifted_texts:
  assumes "n \<noteq> 0" "\<And>k. k \<in> {2..n} \<Longrightarrow> g k = f (k - 1)" "g 1 = x"
  shows "f n @ concat (map g (rev [1..<Suc n])) = concat (map f (rev [1..<Suc n])) @ x"
proof -
  have "concat (map g (rev [1..<Suc n])) = concat (map f (rev [1..<n])) @ x"
    using assms
  proof (induction n)
    case (Suc n)
    show ?case
    proof (cases "n = 0")
      case False
      have up: "rev [1..<Suc (Suc n)] = Suc n # rev [1..<Suc n]" "rev [1..<Suc n] = n # rev [1..<n]" using False by simp_all
      have "concat (map g (rev [1..<Suc n])) = concat (map f (rev [1..<n])) @ x"
        by (rule Suc.IH [OF False]) (use Suc.prems in auto)
      moreover have "g (Suc n) = f n" using Suc.prems(2) [of "Suc n"] False by simp
      ultimately show ?thesis by (simp only: up list.map concat.simps append_assoc)
    qed (use Suc.prems in simp)
  qed simp
  moreover have "rev [1..<Suc n] = n # rev [1..<n]" using assms(1) by simp
  ultimately show ?thesis by (simp only: list.map concat.simps append_assoc)
qed

lemma rotated_history:
  "oldest_log lf fs @ log_history lf (rotate_log_files (lf_path lf) (lf_max_files lf) fs) = log_history lf fs"
proof (cases "lf_max_files lf = 0")
  case True
  then show ?thesis by (simp add: oldest_log_def log_history_def rotate_log_files_def log_text_def)
next
  case False
  let ?p = "lf_path lf" and ?n = "lf_max_files lf"
  let ?fs = "rotate_log_files ?p ?n fs"
  have "log_text fs (rotated_path ?p ?n) @ concat (map (\<lambda>i. log_text ?fs (rotated_path ?p i)) (rev [1..<Suc ?n]))
      = concat (map (\<lambda>i. log_text fs (rotated_path ?p i)) (rev [1..<Suc ?n])) @ log_text fs ?p"
    by (rule shifted_texts [where f = "\<lambda>i. log_text fs (rotated_path ?p i)"
          and g = "\<lambda>i. log_text ?fs (rotated_path ?p i)"])
      (use False in \<open>simp_all add: log_text_def rotate_shifts\<close>)
  moreover have "log_text ?fs ?p = []" using False by (simp add: log_text_def rotate_shifts)
  ultimately show ?thesis using False by (simp add: oldest_log_def log_history_def)
qed

lemma rotated_current: "log_text (rotate_log_files p n fs) p = []"
  by (cases "n = 0") (simp_all add: rotate_log_files_def [of p 0] log_text_def rotate_shifts)

text \<open>
  What an append does to the log. Read from the oldest rotated file to the current one, the
  log after an append is the log before it followed by the new line; when the current file has
  no room left the append first shifts every file by one and loses exactly the oldest, and the
  line then starts a fresh file. The current file never exceeds its limit unless it holds a
  single line, and files that are not of this log keep their content.
\<close>

theorem append_keeps_history:
  "log_history lf (append_log c lf r fs) =
     (if rotates lf (length (log_line c lf r)) fs then drop (length (oldest_log lf fs)) (log_history lf fs)
      else log_history lf fs) @ log_line c lf r
   \<and> (length (log_text (append_log c lf r fs) (lf_path lf)) \<le> lf_max_bytes lf \<or> lf_max_bytes lf = 0
      \<or> log_text (append_log c lf r fs) (lf_path lf) = log_line c lf r)
   \<and> (\<forall>q. append_log c lf r fs q = fs q \<or> q = lf_path lf
        \<or> (\<exists>i. q = rotated_path (lf_path lf) i))"
proof -
  let ?p = "lf_path lf" and ?line = "log_line c lf r" and ?n = "lf_max_files lf"
  let ?fs1 = "rotate_if_needed lf (length ?line) fs"
  have cur: "log_text (append_log c lf r fs) ?p = log_text ?fs1 ?p @ ?line"
    by (simp add: append_log_def Let_def log_text_def)
  have other: "append_log c lf r fs q = ?fs1 q" if "q \<noteq> ?p" for q
    using that by (simp add: append_log_def Let_def)
  have h: "log_history lf (append_log c lf r fs) = log_history lf ?fs1 @ ?line"
    using cur other by (simp add: log_history_def log_text_def)
  have "log_history lf ?fs1 = (if rotates lf (length ?line) fs then drop (length (oldest_log lf fs)) (log_history lf fs)
      else log_history lf fs)"
    using rotated_history [of lf fs, symmetric] by (simp add: rotate_if_needed_alt)
  moreover have "length (log_text ?fs1 ?p @ ?line) \<le> lf_max_bytes lf \<or> lf_max_bytes lf = 0 \<or> log_text ?fs1 ?p @ ?line = ?line"
    using rotated_current [of ?p ?n fs] by (auto simp: rotate_if_needed_alt rotates_def)
  moreover have "append_log c lf r fs q = fs q \<or> q = ?p \<or> (\<exists>i. q = rotated_path ?p i)" for q
  proof (cases "q = ?p \<or> (\<exists>i. q = rotated_path ?p i)")
    case False
    then have "rotate_log_files ?p ?n fs q = fs q"
      using rotate_shifts(3) [of ?n q ?p fs] by (cases "?n = 0") (simp_all add: rotate_log_files_def [of ?p 0])
    with False other [of q] show ?thesis by (simp add: rotate_if_needed_alt)
  qed blast
  ultimately show ?thesis unfolding h cur by blast
qed

section \<open>What redaction hides\<close>

text \<open>
  A value behind a secret key disappears from a text whatever it is, and so do the credentials of a
  URL.
\<close>

lemma assignment_value_replaced:
  assumes p: "prefix \<noteq> []" "str_find prefix (to_ascii_lowercase (pre @ key @ ws @ secret @ rest)) = Some (length pre)"
    and k: "length key = length prefix" "trim_start (ws @ secret @ rest) = secret @ rest"
    and v: "run_until ends_value (secret @ rest) = length secret" "secret \<noteq> []"
  shows "redact_assignment_prefix prefix (pre @ key @ ws @ secret @ rest) =
    pre @ key @ ws @ REDACTED @ redact_assignment_prefix prefix rest"
proof -
  have "leading_space (ws @ secret @ rest) = length ws" using k(2) by (simp add: leading_space_def)
  then show ?thesis
    by (subst redact_assignment_prefix.simps) (use p k v in \<open>simp add: Let_def\<close>)
qed













text \<open>
  The raw-token pass looks only at the start of a candidate, and a candidate extends over an equals
  sign: a token right after one is not recognised unless its key is a secret key.
\<close>

definition leaked_text :: string where
  "leaked_text = ''GH=ghp_'' @ replicate 35 (CHR ''0'') @ ''0''"

lemma token_after_equals_leaks: "redact_text redactor_new leaked_text = leaked_text"
proof -
  have chars: "set leaked_text = set ''GH=ghp_0''" by (auto simp: leaked_text_def)
  have low: "set (to_ascii_lowercase leaked_text) = set ''gh=p_0''"
  proof -
    have "map to_ascii_lower_char ''GH=ghp_0'' = ''gh=ghp_0''" by code_simp
    then have "to_ascii_lower_char ` set ''GH=ghp_0'' = set ''gh=ghp_0''" by (metis set_map)
    then show ?thesis unfolding to_ascii_lowercase_def set_map chars by auto
  qed
  have u: "redact_credentialed_urls leaked_text = leaked_text"
    by (subst redact_credentialed_urls.simps)
      (simp add: find_next_scheme_def url_schemes_def str_find_None chars)
  have "token_pieces (replicate n (CHR ''0'') @ ''0'') = [replicate n (CHR ''0'') @ ''0'']" for n
    by (induction n) (simp_all add: is_token_char_def is_ascii_alphanumeric_def is_ascii_digit_def)
  then have "token_pieces leaked_text = [leaked_text]"
    by (simp add: leaked_text_def is_token_char_def is_ascii_alphanumeric_def is_ascii_digit_def is_ascii_upper_def is_ascii_lower_def)
  moreover have "trim_token_value leaked_text = leaked_text"
    by (simp add: trim_token_value_def leaked_text_def is_quote_char_def)
  then have "\<not> looks_like_known_token leaked_text"
    by (simp add: looks_like_known_token_def starts_with_def Let_def) (simp add: leaked_text_def)
  ultimately have "raw_secret_tokens leaked_text = []"
    by (simp add: raw_secret_tokens_def token_candidates_def)
  then have t: "redact_raw_secret_tokens leaked_text = leaked_text" by (simp add: redact_raw_secret_tokens_def)
  have a: "redact_assignment_prefix p leaked_text = leaked_text" if "\<not> set p \<subseteq> set ''gh=p_0''" for p
    using that by (subst redact_assignment_prefix.simps) (auto simp: low str_find_None)
  have "redact_secret_assignments leaked_text = leaked_text"
    by (simp add: redact_secret_assignments_def secret_key_fragments_def a)
  with u t show ?thesis by (simp add: redact_text_def redactor_new_def)
qed

end
