(* ===== verification/Json_Lines.thy ===== *)
theory Json_Lines
  imports Rust_Text Error_Model
begin

text \<open>
  Files of one JSON record per line, as the task log spool and the crash journal keep them:
  printing, splitting into lines and parsing with the number of the line in the error.
\<close>

definition jsonl_text :: "('r \<Rightarrow> string) \<Rightarrow> 'r list \<Rightarrow> string" where
  "jsonl_text print rs = concat (map (\<lambda>r. print r @ [CHR 0x0A]) rs)"

fun parse_jsonl :: "(nat \<Rightarrow> 'e \<Rightarrow> dr_error) \<Rightarrow> (string \<Rightarrow> 'e + 'r) \<Rightarrow> nat \<Rightarrow> string list \<Rightarrow> 'r list result" where
  "parse_jsonl err parse i [] = Inr []"
| "parse_jsonl err parse i (l # ls) =
     (if trims_to_empty l then parse_jsonl err parse (Suc i) ls
      else case parse l of
        Inl e \<Rightarrow> Inl (err i e)
      | Inr r \<Rightarrow> bind_r (parse_jsonl err parse (Suc i) ls) (\<lambda>rs. Inr (r # rs)))"

text \<open>What is used of serde: a record is printed on one line as an object that parses back to it.\<close>

locale json_lines =
  fixes print :: "'r \<Rightarrow> string" and parse :: "string \<Rightarrow> 'e + 'r"
  assumes parse_print: "parse (print r) = Inr r"
    and one_line: "CHR 0x0A \<notin> set (print r)"
    and an_object: "\<exists>body. print r = CHR 0x7B # body @ [CHR 0x7D]"
begin

lemma strip_print [simp]: "strip_cr (print r) = print r"
  using an_object [of r] by (auto simp: strip_cr_def)

lemma print_not_blank: "\<not> trims_to_empty (print r)"
proof -
  obtain body where b: "print r = CHR 0x7B # body @ [CHR 0x7D]" using an_object by blast
  show ?thesis unfolding b by (rule not_trims_to_empty) (simp_all add: is_ascii_space_def)
qed

lemma split_text: "split_on (CHR 0x0A) (jsonl_text print rs @ t) = map print rs @ split_on (CHR 0x0A) t"
  by (induction rs) (simp_all add: jsonl_text_def split_line one_line)

lemma lines_text: "str_lines (jsonl_text print rs) = map print rs"
  using split_text [of rs "[]"] by (simp add: str_lines_def Let_def comp_def)

lemma parse_prefix:
  "parse_jsonl err parse i (map print rs @ ls) =
    bind_r (parse_jsonl err parse (i + length rs) ls) (\<lambda>qs. Inr (rs @ qs))"
proof (induction rs arbitrary: i)
  case Nil
  show ?case by (cases "parse_jsonl err parse i ls") simp_all
next
  case (Cons r rs)
  then show ?case
    by (cases "parse_jsonl err parse (Suc i + length rs) ls") (simp_all add: print_not_blank parse_print)
qed

lemma parse_text: "parse_jsonl err parse i (str_lines (jsonl_text print rs)) = Inr rs"
  using parse_prefix [of err i rs "[]"] by (simp add: lines_text)

text \<open>A last line without its line feed, as a crash leaves it.\<close>

lemma parse_torn:
  assumes t: "t \<noteq> []" "CHR 0x0A \<notin> set t" "\<not> trims_to_empty t" "parse t = Inl e"
  shows "parse_jsonl err parse i (str_lines (jsonl_text print rs @ t)) = Inl (err (i + length rs) e)"
proof -
  have "split_on (CHR 0x0A) t = [t]" using t(2) by (induction t) auto
  then have "str_lines (jsonl_text print rs @ t) = map print rs @ [t]"
    using split_text [of rs t] t(1) by (simp add: str_lines_def Let_def comp_def butlast_append)
  then show ?thesis using parse_prefix [of err i rs "[t]"] t by simp
qed

end

section \<open>A sample format\<close>

text \<open>
  Fields separated by commas between braces, with the separators, line feeds and backslashes
  escaped: the printer of the sample records in the witnesses.
\<close>

definition escape_char :: "char \<Rightarrow> string" where
  "escape_char c = (if c = CHR 0x0A then [CHR 0x5C, CHR ''n''] else if c = CHR '','' then [CHR 0x5C, CHR ''c'']
     else if c = CHR 0x5C then [c, c] else [c])"

definition escape :: "string \<Rightarrow> string" where
  "escape s = concat (map escape_char s)"

fun unescape :: "string \<Rightarrow> string" where
  "unescape (a # b # s) = (if a = CHR 0x5C
     then (if b = CHR ''n'' then CHR 0x0A else if b = CHR ''c'' then CHR '','' else b) # unescape s
     else a # unescape (b # s))"
| "unescape s = s"

lemma unescape_cons: "a \<noteq> CHR 0x5C \<Longrightarrow> unescape (a # s) = a # unescape s"
  by (cases s) simp_all

lemma unescape_escape [simp]: "unescape (escape s) = s"
  by (induction s) (simp_all add: escape_def escape_char_def unescape_cons)

lemma escape_clean: "CHR 0x0A \<notin> set (escape s)" "CHR '','' \<notin> set (escape s)"
  by (induction s) (auto simp: escape_def escape_char_def)

definition print_fields :: "string list \<Rightarrow> string" where
  "print_fields fs = CHR 0x7B # concat (map (\<lambda>f. escape f @ '','') fs) @ [CHR 0x7D]"

definition parse_fields :: "string \<Rightarrow> string list" where
  "parse_fields s = map unescape (butlast (split_on (CHR '','') (butlast (tl s))))"

lemma parse_print_fields: "parse_fields (print_fields fs) = fs"
proof -
  have "split_on (CHR '','') (concat (map (\<lambda>f. escape f @ '','') fs)) = map escape fs @ [[]]"
    by (induction fs) (simp_all add: split_line escape_clean)
  then show ?thesis by (simp add: parse_fields_def print_fields_def comp_def)
qed

lemma print_fields_line: "CHR 0x0A \<notin> set (print_fields fs)"
  using escape_clean(1) by (auto simp: print_fields_def)

lemma print_fields_shape: "\<exists>body. print_fields fs = CHR 0x7B # body @ [CHR 0x7D]"
  unfolding print_fields_def by blast

end
