(* ===== verification/Task_Logs.thy ===== *)
theory Task_Logs
  imports Structured_Log Manifest_Trust Json_Lines "HOL-Library.While_Combinator"
begin

text \<open>
  The log of a task run, \<open>task_logs.rs\<close>: a bounded buffer of live records and the spool file with
  its truncation marker. Byte counts are natural numbers with the saturation written out; the
  spool is the content of its file; printing and parsing a record (serde) are arguments.
\<close>

section \<open>Records and the store\<close>

definition TASK_LOG_TRUNCATION_MARKER :: string where
  "TASK_LOG_TRUNCATION_MARKER = ''[devrelay log truncated]'' @ [CHR 0x0A]"

datatype log_stream = StreamStdout | StreamStderr

record task_log_config =
  tc_live_buffer_bytes :: nat
  tc_spool_bytes :: nat

definition default_task_log_config :: task_log_config where
  "default_task_log_config = \<lparr>tc_live_buffer_bytes = 64 * 1024, tc_spool_bytes = 16 * 1024 * 1024\<rparr>"

record task_log_record =
  tl_sequence :: u64
  tl_stream :: log_stream
  tl_chunk :: string
  tl_truncated :: bool

record task_log_store =
  ts_config :: task_log_config
  ts_live_buffer :: "task_log_record list"
  ts_live_buffer_bytes :: nat
  ts_spool_bytes :: nat
  ts_next_sequence :: u64
  ts_spool_truncated :: bool
  ts_file :: string

record task_log_codec =
  tk_print :: "task_log_record \<Rightarrow> string"
  tk_parse :: "string \<Rightarrow> string + task_log_record"

definition usize_max :: nat where "usize_max = 2 ^ 64 - 1"

definition sat_sum :: "nat \<Rightarrow> nat \<Rightarrow> nat" where
  "sat_sum a b = min (a + b) usize_max"

definition validate_task_run_id :: "string \<Rightarrow> unit result" where
  "validate_task_run_id run_id =
     (if run_id = [] \<or> 128 < length run_id
        \<or> list_ex (\<lambda>c. \<not> (is_ascii_alphanumeric c \<or> c = CHR ''_'' \<or> c = CHR ''-'' \<or> c = CHR ''.'')) run_id
      then Inl (Config (''invalid task run id '' @ debug_str run_id)) else Inr ())"

definition open_task_log :: "task_log_config \<Rightarrow> string \<Rightarrow> task_log_store result" where
  "open_task_log cfg run_id =
     bind_r (validate_task_run_id run_id) (\<lambda>_. Inr
       \<lparr>ts_config = cfg, ts_live_buffer = [], ts_live_buffer_bytes = 0, ts_spool_bytes = 0,
        ts_next_sequence = 0, ts_spool_truncated = False, ts_file = []\<rparr>)"

section \<open>Truncation\<close>

function floor_boundary :: "string \<Rightarrow> nat \<Rightarrow> nat" where
  "floor_boundary s n = (if is_char_boundary s n then n else floor_boundary s (n - 1))"
  by pat_completeness auto

termination
proof (relation "measure snd")
  fix s :: string and n :: nat assume "\<not> is_char_boundary s n"
  then have "n \<noteq> 0" by (auto simp: is_char_boundary_def)
  then show "((s, n - 1), s, n) \<in> measure snd" by simp
qed simp

declare floor_boundary.simps [simp del]

definition truncate_to_byte_limit :: "string \<Rightarrow> nat \<Rightarrow> string \<times> bool" where
  "truncate_to_byte_limit v limit =
     (if length v \<le> limit then (v, False)
      else if limit \<le> length TASK_LOG_TRUNCATION_MARKER
      then (take (floor_boundary TASK_LOG_TRUNCATION_MARKER limit) TASK_LOG_TRUNCATION_MARKER, True)
      else (take (floor_boundary v (max (limit - length TASK_LOG_TRUNCATION_MARKER) 1)) v
              @ TASK_LOG_TRUNCATION_MARKER, True))"

section \<open>Appending\<close>

definition live_record :: "task_log_store \<Rightarrow> log_stream \<Rightarrow> string \<Rightarrow> task_log_record" where
  "live_record s stream chunk =
     (case truncate_to_byte_limit chunk (max (tc_live_buffer_bytes (ts_config s)) 1) of
        (c, t) \<Rightarrow> \<lparr>tl_sequence = ts_next_sequence s, tl_stream = stream, tl_chunk = c, tl_truncated = t\<rparr>)"

fun drop_live :: "nat \<Rightarrow> nat \<Rightarrow> task_log_record list \<Rightarrow> nat \<times> task_log_record list" where
  "drop_live limit n [] = (n, [])"
| "drop_live limit n (r # rs) =
     (if limit < n then drop_live limit (n - length (tl_chunk r)) rs else (n, r # rs))"

definition push_live_record :: "task_log_record \<Rightarrow> task_log_store \<Rightarrow> task_log_store" where
  "push_live_record r s =
     (case drop_live (tc_live_buffer_bytes (ts_config s)) (sat_sum (ts_live_buffer_bytes s) (length (tl_chunk r)))
             (ts_live_buffer s @ [r]) of
        (n, rs) \<Rightarrow> s\<lparr>ts_live_buffer_bytes := n, ts_live_buffer := rs\<rparr>)"

definition encode_record :: "task_log_codec \<Rightarrow> task_log_record \<Rightarrow> string" where
  "encode_record c r = tk_print c r @ [CHR 0x0A]"

definition write_encoded_record :: "string \<Rightarrow> task_log_store \<Rightarrow> task_log_store" where
  "write_encoded_record e s = s\<lparr>ts_file := ts_file s @ e, ts_spool_bytes := sat_sum (ts_spool_bytes s) (length e)\<rparr>"

definition write_truncation_marker :: "task_log_codec \<Rightarrow> log_stream \<Rightarrow> task_log_store \<Rightarrow> task_log_store" where
  "write_truncation_marker c stream s =
     (let r = \<lparr>tl_sequence = ts_next_sequence s, tl_stream = stream, tl_chunk = TASK_LOG_TRUNCATION_MARKER,
                tl_truncated = True\<rparr>;
          s1 = write_encoded_record (encode_record c r) s
      in push_live_record r (s1\<lparr>ts_next_sequence := ts_next_sequence s1 + 1, ts_spool_truncated := True\<rparr>))"

definition append_record :: "task_log_codec \<Rightarrow> log_stream \<Rightarrow> string \<Rightarrow> task_log_store \<Rightarrow> task_log_store" where
  "append_record c stream chunk s =
     (let redacted = redact_text redactor_new chunk;
          s1 = push_live_record (live_record s stream redacted) s
      in if ts_spool_truncated s1 then s1
         else
           (let e = encode_record c \<lparr>tl_sequence = ts_next_sequence s1, tl_stream = stream, tl_chunk = redacted,
                      tl_truncated = False\<rparr>
            in if tc_spool_bytes (ts_config s1) < sat_sum (ts_spool_bytes s1) (length e)
               then write_truncation_marker c stream s1
               else (let s2 = write_encoded_record e s1 in s2\<lparr>ts_next_sequence := ts_next_sequence s2 + 1\<rparr>)))"

section \<open>Reading back\<close>

definition read_task_log_spool :: "task_log_codec \<Rightarrow> string \<Rightarrow> (task_log_record list \<times> bool) result" where
  "read_task_log_spool c file =
     bind_r (parse_jsonl (\<lambda>_ e. Json e) (tk_parse c) 1 (str_lines file)) (\<lambda>rs. Inr (rs, list_ex tl_truncated rs))"

section \<open>The loops end\<close>

lemma while_floor: "while_option (\<lambda>e. \<not> is_char_boundary s e) (\<lambda>e. e - 1) n = Some (floor_boundary s n)"
proof (induction s n rule: floor_boundary.induct)
  case (1 s n)
  then show ?case by (subst while_option_unfold, subst floor_boundary.simps) simp
qed

lemma floor_boundary_is:
  "is_char_boundary s (floor_boundary s n) \<and> floor_boundary s n \<le> n
    \<and> (\<forall>k. floor_boundary s n < k \<longrightarrow> k \<le> n \<longrightarrow> \<not> is_char_boundary s k)"
proof (induction s n rule: floor_boundary.induct)
  case (1 s n)
  show ?case
  proof (cases "is_char_boundary s n")
    case False
    then have n: "n \<noteq> 0" by (auto simp: is_char_boundary_def)
    have u: "floor_boundary s n = floor_boundary s (n - 1)" using False by (subst floor_boundary.simps) simp
    show ?thesis unfolding u
    proof (intro conjI allI impI)
      fix k assume k: "floor_boundary s (n - 1) < k" "k \<le> n"
      show "\<not> is_char_boundary s k"
      proof (cases "k = n")
        case False
        then have "k \<le> n - 1" using k(2) by simp
        with 1 \<open>\<not> is_char_boundary s n\<close> k(1) show ?thesis by blast
      qed (use \<open>\<not> is_char_boundary s n\<close> in simp)
    qed (use 1 False in auto)
  qed (simp add: floor_boundary.simps)
qed

lemma truncated_fits: "length (fst (truncate_to_byte_limit v limit)) \<le> limit" if "0 < limit"
proof -
  let ?m = "length TASK_LOG_TRUNCATION_MARKER"
  have "floor_boundary v (max (limit - ?m) 1) \<le> max (limit - ?m) 1" using floor_boundary_is by blast
  moreover have "floor_boundary TASK_LOG_TRUNCATION_MARKER limit \<le> limit" using floor_boundary_is by blast
  ultimately show ?thesis using that by (auto simp: truncate_to_byte_limit_def)
qed

text \<open>
  C26. Truncation ends and is exact. The loop that walks back to a character boundary stops for
  every text and every start, at the last boundary that is not after the start; a truncated text
  never exceeds the limit, is cut at a boundary, and ends with the marker or with as much of it as
  fits.
\<close>

theorem truncation_terminates:
  "while_option (\<lambda>e. \<not> is_char_boundary s e) (\<lambda>e. e - 1) n = Some (floor_boundary s n)
   \<and> is_char_boundary s (floor_boundary s n) \<and> floor_boundary s n \<le> n
   \<and> {k. floor_boundary s n < k \<and> k \<le> n \<and> is_char_boundary s k} = {}
   \<and> (case truncate_to_byte_limit s (Suc limit) of (t, shortened) \<Rightarrow>
        length t \<le> Suc limit \<and> shortened = (Suc limit < length s)
        \<and> (if \<not> shortened then t = s
           else (\<exists>k. t = take k TASK_LOG_TRUNCATION_MARKER)
             \<or> (\<exists>k. t = take k s @ TASK_LOG_TRUNCATION_MARKER \<and> is_char_boundary s k)))"
proof -
  have f: "is_char_boundary s (floor_boundary s k)" for k using floor_boundary_is by blast
  have t: "length (fst (truncate_to_byte_limit s (Suc limit))) \<le> Suc limit" by (rule truncated_fits) simp
  have "case truncate_to_byte_limit s (Suc limit) of (t, shortened) \<Rightarrow>
        length t \<le> Suc limit \<and> shortened = (Suc limit < length s)
        \<and> (if \<not> shortened then t = s
           else (\<exists>k. t = take k TASK_LOG_TRUNCATION_MARKER)
             \<or> (\<exists>k. t = take k s @ TASK_LOG_TRUNCATION_MARKER \<and> is_char_boundary s k))"
    using t f by (auto simp: truncate_to_byte_limit_def)
  with while_floor [of s n] floor_boundary_is [of s n] show ?thesis by auto
qed

section \<open>The live buffer\<close>

definition live_bytes :: "task_log_record list \<Rightarrow> nat" where
  "live_bytes rs = sum_list (map (length \<circ> tl_chunk) rs)"

lemma drop_live_bounds:
  "n = live_bytes rs \<Longrightarrow> drop_live limit n rs = (m, qs) \<Longrightarrow>
    m = live_bytes qs \<and> m \<le> limit \<and> (\<exists>k. qs = drop k rs)"
proof (induction limit n rs rule: drop_live.induct)
  case (2 limit n r rs)
  show ?case
  proof (cases "limit < n")
    case True
    with 2 have "m = live_bytes qs \<and> m \<le> limit \<and> (\<exists>k. qs = drop k rs)"
      by (intro "2.IH") (simp_all add: live_bytes_def)
    then show ?thesis by (metis drop_Suc_Cons)
  qed (use 2 in \<open>auto intro: exI [of _ 0]\<close>)
qed (auto simp: live_bytes_def)

definition live_ok :: "task_log_store \<Rightarrow> bool" where
  "live_ok s \<longleftrightarrow> ts_live_buffer_bytes s = live_bytes (ts_live_buffer s)
     \<and> ts_live_buffer_bytes s \<le> tc_live_buffer_bytes (ts_config s)"

lemma push_live_ok:
  assumes "live_ok s" "tc_live_buffer_bytes (ts_config s) < 2 ^ 63" "length (tl_chunk r) < 2 ^ 63"
  shows "live_ok (push_live_record r s)"
    "ts_config (push_live_record r s) = ts_config s" "ts_file (push_live_record r s) = ts_file s"
    "ts_next_sequence (push_live_record r s) = ts_next_sequence s"
    "ts_spool_truncated (push_live_record r s) = ts_spool_truncated s"
    "ts_spool_bytes (push_live_record r s) = ts_spool_bytes s"
proof -
  obtain n rs where d: "drop_live (tc_live_buffer_bytes (ts_config s)) (sat_sum (ts_live_buffer_bytes s) (length (tl_chunk r)))
      (ts_live_buffer s @ [r]) = (n, rs)" by fastforce
  have "sat_sum (ts_live_buffer_bytes s) (length (tl_chunk r)) = live_bytes (ts_live_buffer s @ [r])"
    using assms by (simp add: sat_sum_def usize_max_def live_ok_def live_bytes_def)
  from drop_live_bounds [OF this d] show "live_ok (push_live_record r s)"
    by (simp add: push_live_record_def d live_ok_def)
qed (simp_all add: push_live_record_def split: prod.split)

lemma live_record_small:
  assumes "tc_live_buffer_bytes (ts_config s) < 2 ^ 63"
  shows "length (tl_chunk (live_record s st c)) < 2 ^ 63"
proof -
  let ?l = "max (tc_live_buffer_bytes (ts_config s)) 1"
  have "length (tl_chunk (live_record s st c)) = length (fst (truncate_to_byte_limit c ?l))"
    by (simp add: live_record_def case_prod_unfold)
  also have "\<dots> \<le> ?l" by (rule truncated_fits) simp
  also have "\<dots> < 2 ^ 63" using assms by simp
  finally show ?thesis .
qed

section \<open>The spool\<close>

definition spool_record :: "(log_stream \<times> string) list \<Rightarrow> nat \<Rightarrow> task_log_record" where
  "spool_record evs i = \<lparr>tl_sequence = of_nat i, tl_stream = fst (evs ! i),
     tl_chunk = redact_text redactor_new (snd (evs ! i)), tl_truncated = False\<rparr>"

definition marker_record :: "(log_stream \<times> string) list \<Rightarrow> nat \<Rightarrow> task_log_record" where
  "marker_record evs i = \<lparr>tl_sequence = of_nat i, tl_stream = fst (evs ! i),
     tl_chunk = TASK_LOG_TRUNCATION_MARKER, tl_truncated = True\<rparr>"

definition spooled :: "(log_stream \<times> string) list \<Rightarrow> nat \<Rightarrow> task_log_record list" where
  "spooled evs k = map (spool_record evs) [0..<k] @ (if k < length evs then [marker_record evs k] else [])"

definition log_events :: "task_log_codec \<Rightarrow> (log_stream \<times> string) list \<Rightarrow> task_log_store \<Rightarrow> task_log_store" where
  "log_events c evs s = foldl (\<lambda>s (st, chunk). append_record c st chunk s) s evs"

text \<open>The bytes of the first \<open>k\<close> records.\<close>

definition spool_size :: "task_log_codec \<Rightarrow> (log_stream \<times> string) list \<Rightarrow> nat \<Rightarrow> nat" where
  "spool_size c evs k = length (concat (map (encode_record c) (map (spool_record evs) [0..<k])))"

definition spool_ok :: "task_log_codec \<Rightarrow> (log_stream \<times> string) list \<Rightarrow> nat \<Rightarrow> task_log_store \<Rightarrow> bool" where
  "spool_ok c evs k s \<longleftrightarrow> k \<le> length evs \<and> ts_spool_truncated s = (k < length evs)
     \<and> ts_file s = concat (map (encode_record c) (spooled evs k))
     \<and> ts_next_sequence s = of_nat (length (spooled evs k))
     \<and> spool_size c evs k \<le> tc_spool_bytes (ts_config s)
     \<and> (k < length evs \<longrightarrow> tc_spool_bytes (ts_config s) < spool_size c evs (Suc k))
     \<and> (ts_spool_truncated s \<or> ts_spool_bytes s = length (ts_file s))"

lemma spooled_prefix: "k < length evs \<Longrightarrow> spooled (evs @ [e]) k = spooled evs k"
  by (simp add: spooled_def spool_record_def marker_record_def nth_append)

lemma records_prefix: "k \<le> length evs \<Longrightarrow> map (spool_record (evs @ [e])) [0..<k] = map (spool_record evs) [0..<k]"
  by (simp add: spool_record_def nth_append)

lemma size_prefix: "k \<le> length evs \<Longrightarrow> spool_size c (evs @ [e]) k = spool_size c evs k"
  unfolding spool_size_def by (simp only: records_prefix)

lemma spool_size_0 [simp]: "spool_size c evs 0 = 0"
  by (simp add: spool_size_def)

lemma spool_size_Suc: "spool_size c evs (Suc k) = spool_size c evs k + length (encode_record c (spool_record evs k))"
  by (simp add: spool_size_def)

lemma append_spool:
  assumes I: "spool_ok c evs k s" and L: "live_ok s"
    and lim: "tc_spool_bytes (ts_config s) < usize_max" "tc_live_buffer_bytes (ts_config s) < 2 ^ 63"
  shows "\<exists>k'. spool_ok c (evs @ [(st, chunk)]) k' (append_record c st chunk s)
    \<and> live_ok (append_record c st chunk s) \<and> ts_config (append_record c st chunk s) = ts_config s"
proof -
  let ?r = "redact_text redactor_new chunk"
  define s1 where "s1 = push_live_record (live_record s st ?r) s"
  note P = push_live_ok [OF L lim(2) live_record_small [OF lim(2)], of st ?r, folded s1_def]
  let ?rec = "\<lparr>tl_sequence = ts_next_sequence s1, tl_stream = st, tl_chunk = ?r, tl_truncated = False\<rparr>"
  let ?e = "encode_record c ?rec"
  show ?thesis
  proof (cases "ts_spool_truncated s")
    case True
    then have "append_record c st chunk s = s1" using P by (simp add: append_record_def s1_def [symmetric])
    moreover have "k < length evs" using True I by (simp add: spool_ok_def)
    ultimately show ?thesis using I P True
      by (intro exI [of _ k]) (simp add: spool_ok_def spooled_prefix size_prefix)
  next
    case False
    then have k: "k = length evs" "ts_spool_bytes s = length (ts_file s)" "ts_next_sequence s = of_nat k"
        "ts_file s = concat (map (encode_record c) (map (spool_record evs) [0..<k]))"
      using I by (auto simp: spool_ok_def spooled_def)
    have rec: "?rec = spool_record (evs @ [(st, chunk)]) k" using k P by (simp add: spool_record_def nth_append)
    have bytes: "ts_spool_bytes s = spool_size c evs k" using k by (simp add: spool_size_def)
    have grown: "spool_size c (evs @ [(st, chunk)]) (Suc k) = spool_size c evs k + length ?e"
      using k(1) by (simp only: spool_size_Suc rec) (simp add: size_prefix)
    show ?thesis
    proof (cases "tc_spool_bytes (ts_config s) < sat_sum (ts_spool_bytes s) (length ?e)")
      case True
      let ?m = "\<lparr>tl_sequence = ts_next_sequence s1, tl_stream = st, tl_chunk = TASK_LOG_TRUNCATION_MARKER, tl_truncated = True\<rparr>"
      let ?s2 = "(write_encoded_record (encode_record c ?m) s1)\<lparr>ts_next_sequence := ts_next_sequence s1 + 1, ts_spool_truncated := True\<rparr>"
      have a: "append_record c st chunk s = push_live_record ?m ?s2"
        using True False P by (simp add: append_record_def s1_def [symmetric] write_truncation_marker_def Let_def
            write_encoded_record_def)
      have m: "?m = marker_record (evs @ [(st, chunk)]) k" using k P by (simp add: marker_record_def nth_append)
      have L2: "live_ok ?s2" "tc_live_buffer_bytes (ts_config ?s2) < 2 ^ 63" "length (tl_chunk ?m) < 2 ^ 63"
        using P lim by (simp_all add: live_ok_def write_encoded_record_def TASK_LOG_TRUNCATION_MARKER_def)
      note Q = push_live_ok [OF L2]
      have "spool_ok c (evs @ [(st, chunk)]) k (append_record c st chunk s)"
      proof -
        have len: "spool_size c evs k \<le> tc_spool_bytes (ts_config s)" using I by (simp add: spool_ok_def)
        have full: "tc_spool_bytes (ts_config s) < spool_size c (evs @ [(st, chunk)]) (Suc k)"
          using True unfolding grown bytes by (simp add: sat_sum_def)
        have sp: "spooled (evs @ [(st, chunk)]) k = map (spool_record evs) [0..<k] @ [?m]"
          unfolding spooled_def m using records_prefix [of k evs "(st, chunk)"] k(1) by (simp only: length_append) simp
        show ?thesis
          using P k len full unfolding a spool_ok_def Q sp size_prefix [OF eq_refl [OF k(1)], of c "(st, chunk)"]
          by (simp add: write_encoded_record_def)
      qed
      with Q P show ?thesis unfolding a by (intro exI [of _ k]) (simp add: write_encoded_record_def)
    next
      case no: False
      let ?s2 = "(write_encoded_record ?e s1)\<lparr>ts_next_sequence := ts_next_sequence s1 + 1\<rparr>"
      have a: "append_record c st chunk s = ?s2"
        using no False P by (simp add: append_record_def s1_def [symmetric] Let_def write_encoded_record_def)
      have fit: "ts_spool_bytes s + length ?e \<le> tc_spool_bytes (ts_config s)"
        using no lim(1) by (auto simp: sat_sum_def min_def split: if_splits)
      have e: "map (spool_record (evs @ [(st, chunk)])) [0..<Suc k] = map (spool_record evs) [0..<k] @ [?rec]"
        using records_prefix [of k evs "(st, chunk)"] k rec by simp
      have "spool_ok c (evs @ [(st, chunk)]) (Suc k) ?s2"
        using P k fit [unfolded bytes] no lim(1) False unfolding spool_ok_def spooled_def e grown
        by (simp add: write_encoded_record_def sat_sum_def)
      moreover have "live_ok ?s2" using P by (simp add: live_ok_def write_encoded_record_def)
      ultimately show ?thesis using P unfolding a by (intro exI [of _ "Suc k"]) (simp add: write_encoded_record_def)
    qed
  qed
qed

section \<open>Reading the spool\<close>

lemma read_encoded:
  assumes "json_lines (tk_print c) (tk_parse c)"
  shows "read_task_log_spool c (concat (map (encode_record c) rs)) = Inr (rs, list_ex tl_truncated rs)"
  using json_lines.parse_text [OF assms, of "\<lambda>_ e. Json e" 1 rs]
  by (simp add: read_task_log_spool_def jsonl_text_def encode_record_def [abs_def])

lemma spooled_truncated: "k \<le> length evs \<Longrightarrow> list_ex tl_truncated (spooled evs k) \<longleftrightarrow> k < length evs"
  by (auto simp: spooled_def list_ex_iff spool_record_def marker_record_def)

text \<open>
  C25. The spool reads back. However many chunks a task logs, reading its spool gives the redacted
  chunks in order, numbered from zero without gaps, up to the first one for which there was no
  room, followed in that case by one truncation marker. The records before the marker never
  exceed the spool's limit, and when one was left out, they and it together do, so the spool is
  cut at exactly the longest beginning that fits; the live buffer never exceeds its own limit.
\<close>

theorem spool_reads_back:
  assumes "json_lines (tk_print c) (tk_parse c)" and "open_task_log cfg run_id = Inr s0" and "log_events c evs s0 = s"
    and "tc_spool_bytes cfg < usize_max" "tc_live_buffer_bytes cfg < 2 ^ 63"
  shows "\<exists>k\<le>length evs.
      read_task_log_spool c (ts_file s) =
        Inr (map (spool_record evs) [0..<k] @ (if k < length evs then [marker_record evs k] else []), k < length evs)
    \<and> spool_size c evs k \<le> tc_spool_bytes cfg
    \<and> (k < length evs \<longrightarrow> tc_spool_bytes cfg < spool_size c evs (Suc k))
    \<and> sum_list (map (length \<circ> tl_chunk) (ts_live_buffer s)) \<le> tc_live_buffer_bytes cfg"
proof -
  have s0: "s0 = \<lparr>ts_config = cfg, ts_live_buffer = [], ts_live_buffer_bytes = 0, ts_spool_bytes = 0,
        ts_next_sequence = 0, ts_spool_truncated = False, ts_file = []\<rparr>"
    using assms(2) by (auto simp: open_task_log_def bind_r_Inr_iff)
  have "(\<exists>k. spool_ok c evs k (log_events c evs s0)) \<and> live_ok (log_events c evs s0)
      \<and> ts_config (log_events c evs s0) = cfg"
  proof (induction evs rule: rev_induct)
    case Nil
    show ?case by (auto simp: log_events_def s0 spool_ok_def spooled_def live_ok_def live_bytes_def)
  next
    case (snoc e evs)
    obtain st chunk where e: "e = (st, chunk)" by fastforce
    have step: "log_events c (evs @ [(st, chunk)]) s0 = append_record c st chunk (log_events c evs s0)"
      by (simp add: log_events_def)
    obtain k where k: "spool_ok c evs k (log_events c evs s0)" using snoc.IH by blast
    from append_spool [OF k, of st chunk] snoc.IH assms(4,5) show ?case unfolding e step by auto
  qed
  then obtain k where k: "spool_ok c evs k s" "live_ok s" "ts_config s = cfg" using assms(3) by blast
  then have "read_task_log_spool c (ts_file s) = Inr (spooled evs k, k < length evs)"
    using read_encoded [OF assms(1), of "spooled evs k"] spooled_truncated [of k evs] by (simp add: spool_ok_def)
  with k show ?thesis
    by (intro exI [of _ k]) (auto simp: spool_ok_def live_ok_def live_bytes_def spooled_def)
qed

text \<open>A small codec that meets the assumption: the chunk is escaped.\<close>

definition ex_print :: "task_log_record \<Rightarrow> string" where
  "ex_print r = CHR 0x7B # dec_u64 (tl_sequence r)
     @ (if tl_stream r = StreamStdout then ''o'' else ''e'') @ (if tl_truncated r then ''t'' else ''f'')
     @ escape (tl_chunk r) @ [CHR 0x7D]"

definition ex_parse :: "string \<Rightarrow> string + task_log_record" where
  "ex_parse s =
     (let number = takeWhile is_ascii_digit (tl s); rest = dropWhile is_ascii_digit (tl s)
      in case rest of
        a # b # body \<Rightarrow> Inr \<lparr>tl_sequence = of_nat (dec_value number),
            tl_stream = (if a = CHR ''o'' then StreamStdout else StreamStderr),
            tl_chunk = unescape (butlast body), tl_truncated = (b = CHR ''t'')\<rparr>
      | _ \<Rightarrow> Inl ''short'')"

definition ex_task_codec :: task_log_codec where
  "ex_task_codec = \<lparr>tk_print = ex_print, tk_parse = ex_parse\<rparr>"

interpretation sample: json_lines ex_print ex_parse
proof -
  have all: "\<forall>c\<in>set (dec_nat n). is_ascii_digit c" for n
    using dec_nat_digits [of n] by (simp add: list_all_iff)
  have t: "takeWhile is_ascii_digit (dec_nat n @ a # s) = dec_nat n" "dropWhile is_ascii_digit (dec_nat n @ a # s) = a # s"
    if "\<not> is_ascii_digit a" for n a s
    using that all by (simp_all add: takeWhile_append2 dropWhile_append2)
  have lf: "CHR 0x0A \<notin> set (dec_nat n)" for n
    using all [of n] by (auto simp: is_ascii_digit_def)
  have p: "ex_parse (CHR 0x7B # dec_u64 n @ a # b # body @ [CHR 0x7D]) =
      Inr \<lparr>tl_sequence = n, tl_stream = (if a = CHR ''o'' then StreamStdout else StreamStderr),
        tl_chunk = unescape body, tl_truncated = (b = CHR ''t'')\<rparr>" if "\<not> is_ascii_digit a" for n a b body
    by (simp add: ex_parse_def dec_u64_def t [OF that] dec_nat_value)
  have d: "\<not> is_ascii_digit (CHR ''o'')" "\<not> is_ascii_digit (CHR ''e'')" by (simp_all add: is_ascii_digit_def)
  have "ex_parse (ex_print r) = Inr r" for r
    using p [OF d(1), of "tl_sequence r" _ "escape (tl_chunk r)"] p [OF d(2), of "tl_sequence r" _ "escape (tl_chunk r)"]
    by (cases r; cases "tl_stream r"; cases "tl_truncated r") (simp_all add: ex_print_def unescape_escape)
  then show "json_lines ex_print ex_parse"
    by unfold_locales (use lf escape_clean(1) in \<open>simp_all add: ex_print_def dec_u64_def\<close>)
qed

lemma ex_task_codec_lines: "json_lines (tk_print ex_task_codec) (tk_parse ex_task_codec)"
  by (simp add: ex_task_codec_def sample.json_lines_axioms)

text \<open>Room for one of two chunks.\<close>

definition ex_chunks :: "(log_stream \<times> string) list" where
  "ex_chunks = [(StreamStdout, ''ok''), (StreamStderr, ''no'')]"

lemma short_text:
  assumes "s \<in> {''ok'', ''no''}"
  shows "redact_text redactor_new s = s"
proof -
  have chars: "set s \<subseteq> set ''okn''" "set (to_ascii_lowercase s) \<subseteq> set ''okn''"
    using assms by (auto simp: to_ascii_lowercase_def to_ascii_lower_char_def is_ascii_upper_def)
  have absent: "str_find p s = None" "str_find p (to_ascii_lowercase s) = None" if "\<not> set p \<subseteq> set ''okn''" for p
    using that chars by (auto intro!: str_find_None)
  have "redact_credentialed_urls s = s"
    by (subst redact_credentialed_urls.simps) (simp add: find_next_scheme_def url_schemes_def absent)
  moreover have "redact_raw_secret_tokens s = s"
  proof -
    have "token_pieces ''ok'' = [''ok'']" "token_pieces ''no'' = [''no'']"
      by (simp_all add: is_token_char_def is_ascii_alphanumeric_def is_ascii_lower_def)
    moreover have "trim_token_value ''ok'' = ''ok''" "trim_token_value ''no'' = ''no''"
      by (simp_all add: trim_token_value_def is_quote_char_def)
    then have "\<not> looks_like_known_token ''ok''" "\<not> looks_like_known_token ''no''"
      by (simp_all add: looks_like_known_token_def starts_with_def)
    ultimately have "raw_secret_tokens ''ok'' = []" "raw_secret_tokens ''no'' = []"
      by (simp_all add: raw_secret_tokens_def token_candidates_def)
    then show ?thesis using assms by (auto simp: redact_raw_secret_tokens_def)
  qed
  moreover have "redact_assignment_prefix p s = s" if "\<not> set p \<subseteq> set ''okn''" for p
    using absent [OF that] by (subst redact_assignment_prefix.simps) simp
  then have "redact_secret_assignments s = s" by (simp add: redact_secret_assignments_def secret_key_fragments_def)
  ultimately show ?thesis by (simp add: redact_text_def redactor_new_def)
qed

lemma ex_spool_size: "spool_size ex_task_codec ex_chunks (Suc 0) = 8" "spool_size ex_task_codec ex_chunks 2 = 16"
proof -
  have r: "redact_text redactor_new ''ok'' = ''ok''" "redact_text redactor_new ''no'' = ''no''"
    by (simp_all add: short_text)
  have e: "escape ''ok'' = ''ok''" "escape ''no'' = ''no''" by code_simp+
  show "spool_size ex_task_codec ex_chunks (Suc 0) = 8" "spool_size ex_task_codec ex_chunks 2 = 16"
    by (simp_all add: numeral_2_eq_2 spool_size_def ex_task_codec_def ex_chunks_def encode_record_def ex_print_def
        spool_record_def r e dec_u64_def dec_nat.simps)
qed

theorem spool_reads_back_witness:
  "\<exists>s0. open_task_log \<lparr>tc_live_buffer_bytes = 4, tc_spool_bytes = 10\<rparr> ''tr_1'' = Inr s0
     \<and> read_task_log_spool ex_task_codec (ts_file (log_events ex_task_codec ex_chunks s0)) =
          Inr ([spool_record ex_chunks 0, marker_record ex_chunks 1], True)"
proof -
  let ?cfg = "\<lparr>tc_live_buffer_bytes = 4, tc_spool_bytes = 10\<rparr> :: task_log_config"
  obtain s0 where s0: "open_task_log ?cfg ''tr_1'' = Inr s0"
    by (simp add: open_task_log_def validate_task_run_id_def is_ascii_alphanumeric_def is_ascii_digit_def
        is_ascii_lower_def)
  have lim: "tc_spool_bytes ?cfg < usize_max" "tc_live_buffer_bytes ?cfg < 2 ^ 63"
    by (simp_all add: usize_max_def)
  have len: "length ex_chunks = 2" by (simp add: ex_chunks_def)
  obtain k where k: "k \<le> 2" "spool_size ex_task_codec ex_chunks k \<le> 10"
      "k < 2 \<longrightarrow> 10 < spool_size ex_task_codec ex_chunks (Suc k)"
      "read_task_log_spool ex_task_codec (ts_file (log_events ex_task_codec ex_chunks s0)) =
         Inr (map (spool_record ex_chunks) [0..<k] @ (if k < 2 then [marker_record ex_chunks k] else []), k < 2)"
    using spool_reads_back [OF ex_task_codec_lines s0 refl lim, of ex_chunks, unfolded len] by auto
  have "k = 1"
  proof -
    have "k = 0 \<or> k = 1 \<or> k = 2" using k(1) by auto
    then show ?thesis using k(2,3) ex_spool_size by auto
  qed
  with k(4) s0 show ?thesis by simp
qed

text \<open>
  Once the spool is full nothing numbers the live records any more: each later one has the
  sequence number of the one before.
\<close>

lemma live_numbers_repeat:
  "ts_spool_truncated s \<Longrightarrow> ts_next_sequence (append_record c st chunk s) = ts_next_sequence s"
  by (simp add: append_record_def push_live_record_def Let_def split: prod.split)

end
