(* ===== verification/Crash_Journal.thy ===== *)
theory Crash_Journal
  imports Json_Lines Paths Db_State "HOL-Library.Multiset"
begin

text \<open>
  The crash journal, \<open>crash_journal.rs\<close>: an append-only file of one JSON record per line that says
  how far each operation came. The file is its content, absent before the first append; a crash
  inside a write leaves a prefix of the line. Printing and parsing a record (serde), the printed
  detail and the clock are arguments.
\<close>

section \<open>Records\<close>

datatype crash_phase =
    SnapshotCreationStart | SnapshotCreationComplete | PublishStart | PublishComplete | TargetApplyStart
  | TargetBackupComplete | BaseApplied | WorkApplied | IndexApplied | PhaseVerified | LeaseCommitted

fun crash_phase_as_str :: "crash_phase \<Rightarrow> string" where
  "crash_phase_as_str SnapshotCreationStart = ''snapshot-creation-start''"
| "crash_phase_as_str SnapshotCreationComplete = ''snapshot-creation-complete''"
| "crash_phase_as_str PublishStart = ''publish-start''"
| "crash_phase_as_str PublishComplete = ''publish-complete''"
| "crash_phase_as_str TargetApplyStart = ''target-apply-start''"
| "crash_phase_as_str TargetBackupComplete = ''target-backup-complete''"
| "crash_phase_as_str BaseApplied = ''base-applied''"
| "crash_phase_as_str WorkApplied = ''work-applied''"
| "crash_phase_as_str IndexApplied = ''index-applied''"
| "crash_phase_as_str PhaseVerified = ''verified''"
| "crash_phase_as_str LeaseCommitted = ''lease-committed''"

definition crash_phase_is_terminal :: "crash_phase \<Rightarrow> bool" where
  "crash_phase_is_terminal p \<longleftrightarrow> p \<in> {SnapshotCreationComplete, PublishComplete, PhaseVerified, LeaseCommitted}"

record crash_record =
  cj_sequence :: u64
  cj_operation_id :: string
  cj_project_id :: "string option"
  cj_workspace_id :: "string option"
  cj_snapshot_id :: "string option"
  cj_lease_id :: "string option"
  cj_phase :: crash_phase
  cj_detail_json :: string
  cj_created_at :: u64

record crash_input =
  ci_operation_id :: string
  ci_project_id :: "string option"
  ci_workspace_id :: "string option"
  ci_snapshot_id :: "string option"
  ci_lease_id :: "string option"
  ci_phase :: crash_phase
  ci_detail :: json

record operation_replay =
  op_operation_id :: string
  op_records :: "crash_record list"
  op_latest_phase :: "crash_phase option"
  op_terminal :: bool

datatype crash_fault = BeforeAppend | AfterRecordWrite

fun crash_fault_as_str :: "crash_fault \<Rightarrow> string" where
  "crash_fault_as_str BeforeAppend = ''before-append''"
| "crash_fault_as_str AfterRecordWrite = ''after-record-write''"

record crash_codec =
  ck_print :: "crash_record \<Rightarrow> string"
  ck_parse :: "string \<Rightarrow> string + crash_record"

record crash_journal =
  jn_path :: string
  jn_fault :: "crash_fault option"

type_synonym journal_file = "string option"

section \<open>Inputs of the recording functions\<close>

definition snapshot_detail :: "string \<Rightarrow> json" where
  "snapshot_detail s = JObj [(''snapshot_id'', JStr s)]"

definition snapshot_creation_start :: "string \<Rightarrow> string \<Rightarrow> string \<Rightarrow> crash_input" where
  "snapshot_creation_start op p w = \<lparr>ci_operation_id = op, ci_project_id = Some p, ci_workspace_id = Some w,
     ci_snapshot_id = None, ci_lease_id = None, ci_phase = SnapshotCreationStart, ci_detail = JObj []\<rparr>"

definition snapshot_creation_complete :: "string \<Rightarrow> string \<Rightarrow> string \<Rightarrow> string \<Rightarrow> crash_input" where
  "snapshot_creation_complete op p w s = \<lparr>ci_operation_id = op, ci_project_id = Some p, ci_workspace_id = Some w,
     ci_snapshot_id = Some s, ci_lease_id = None, ci_phase = SnapshotCreationComplete, ci_detail = snapshot_detail s\<rparr>"

definition publish_start :: "string \<Rightarrow> string \<Rightarrow> string \<Rightarrow> crash_input" where
  "publish_start op p s = \<lparr>ci_operation_id = op, ci_project_id = Some p, ci_workspace_id = None,
     ci_snapshot_id = Some s, ci_lease_id = None, ci_phase = PublishStart, ci_detail = snapshot_detail s\<rparr>"

definition publish_complete :: "string \<Rightarrow> string \<Rightarrow> string \<Rightarrow> crash_input" where
  "publish_complete op p s = \<lparr>ci_operation_id = op, ci_project_id = Some p, ci_workspace_id = None,
     ci_snapshot_id = Some s, ci_lease_id = None, ci_phase = PublishComplete, ci_detail = snapshot_detail s\<rparr>"

definition target_apply_start :: "string \<Rightarrow> string \<Rightarrow> string \<Rightarrow> string \<Rightarrow> crash_input" where
  "target_apply_start op p w s = \<lparr>ci_operation_id = op, ci_project_id = Some p, ci_workspace_id = Some w,
     ci_snapshot_id = Some s, ci_lease_id = None, ci_phase = TargetApplyStart, ci_detail = snapshot_detail s\<rparr>"

definition target_backup_complete :: "string \<Rightarrow> string \<Rightarrow> string \<Rightarrow> string \<Rightarrow> crash_input" where
  "target_backup_complete op p w s = \<lparr>ci_operation_id = op, ci_project_id = Some p, ci_workspace_id = Some w,
     ci_snapshot_id = Some s, ci_lease_id = None, ci_phase = TargetBackupComplete, ci_detail = snapshot_detail s\<rparr>"

text \<open>\<open>base-applied\<close>, \<open>work-applied\<close>, \<open>index-applied\<close> and \<open>verified\<close> share this one.\<close>

definition apply_phase :: "string \<Rightarrow> string \<Rightarrow> string \<Rightarrow> string \<Rightarrow> crash_phase \<Rightarrow> crash_input" where
  "apply_phase op p w s phase = \<lparr>ci_operation_id = op, ci_project_id = Some p, ci_workspace_id = Some w,
     ci_snapshot_id = Some s, ci_lease_id = None, ci_phase = phase, ci_detail = snapshot_detail s\<rparr>"

definition lease_committed :: "string \<Rightarrow> string \<Rightarrow> string \<Rightarrow> string \<Rightarrow> string \<Rightarrow> crash_input" where
  "lease_committed op p w s l = \<lparr>ci_operation_id = op, ci_project_id = Some p, ci_workspace_id = Some w,
     ci_snapshot_id = Some s, ci_lease_id = Some l, ci_phase = LeaseCommitted,
     ci_detail = JObj [(''lease_id'', JStr l), (''snapshot_id'', JStr s)]\<rparr>"

section \<open>Operations\<close>

definition crash_inject_fault :: "crash_fault option \<Rightarrow> crash_fault \<Rightarrow> unit result" where
  "crash_inject_fault configured fault =
     (if configured = Some fault
      then Inl (Config (''injected crash journal fault at '' @ crash_fault_as_str fault)) else Inr ())"

definition journal_records :: "crash_codec \<Rightarrow> crash_journal \<Rightarrow> journal_file \<Rightarrow> crash_record list result" where
  "journal_records c j f =
     (case f of
        None \<Rightarrow> Inr []
      | Some content \<Rightarrow>
          bind_r (parse_jsonl (\<lambda>i e. Config (''invalid crash journal line '' @ dec_nat i @ '' in '' @ jn_path j
                    @ '': '' @ e)) (ck_parse c) 1 (str_lines content))
            (\<lambda>rs. Inr (sort_key cj_sequence rs)))"

definition next_sequence_number :: "crash_codec \<Rightarrow> crash_journal \<Rightarrow> journal_file \<Rightarrow> u64 result" where
  "next_sequence_number c j f =
     bind_r (journal_records c j f) (\<lambda>rs. Inr (if rs = [] then 1 else sat_add (cj_sequence (last rs)) 1))"

definition append_crash_record ::
    "crash_codec \<Rightarrow> (json \<Rightarrow> string) \<Rightarrow> u64 \<Rightarrow> crash_journal \<Rightarrow> crash_input \<Rightarrow> journal_file
      \<Rightarrow> journal_file \<times> crash_record result" where
  "append_crash_record c print_detail now j i f =
     (case crash_inject_fault (jn_fault j) BeforeAppend of
        Inl e \<Rightarrow> (f, Inl e)
      | Inr _ \<Rightarrow>
     (case next_sequence_number c j f of
        Inl e \<Rightarrow> (f, Inl e)
      | Inr n \<Rightarrow>
          (let r = \<lparr>cj_sequence = n, cj_operation_id = ci_operation_id i, cj_project_id = ci_project_id i,
                 cj_workspace_id = ci_workspace_id i, cj_snapshot_id = ci_snapshot_id i, cj_lease_id = ci_lease_id i,
                 cj_phase = ci_phase i, cj_detail_json = print_detail (ci_detail i), cj_created_at = now\<rparr>;
               f1 = Some ((case f of None \<Rightarrow> [] | Some t \<Rightarrow> t) @ ck_print c r @ [CHR 0x0A])
           in case crash_inject_fault (jn_fault j) AfterRecordWrite of
                Inl e \<Rightarrow> (f1, Inl e)
              | Inr _ \<Rightarrow> (f1, Inr r))))"

definition group_records :: "crash_record list \<Rightarrow> (string, crash_record list) btree_map" where
  "group_records rs = foldl (\<lambda>m r. bt_entry [] (cj_operation_id r) (\<lambda>g. g @ [r]) m) [] rs"

definition replay_operation :: "string \<times> crash_record list \<Rightarrow> operation_replay" where
  "replay_operation = (\<lambda>(i, g).
     let rs = sort_key cj_sequence g; latest = (if rs = [] then None else Some (cj_phase (last rs)))
     in \<lparr>op_operation_id = i, op_records = rs, op_latest_phase = latest,
         op_terminal = (case latest of None \<Rightarrow> False | Some p \<Rightarrow> crash_phase_is_terminal p)\<rparr>)"

definition replay_journal :: "crash_codec \<Rightarrow> crash_journal \<Rightarrow> journal_file \<Rightarrow> operation_replay list result" where
  "replay_journal c j f = bind_r (journal_records c j f) (\<lambda>rs. Inr (map replay_operation (group_records rs)))"

definition rewrite_records :: "crash_codec \<Rightarrow> crash_record list \<Rightarrow> journal_file" where
  "rewrite_records c rs = Some (jsonl_text (ck_print c) rs)"

definition cleanup_completed ::
    "crash_codec \<Rightarrow> crash_journal \<Rightarrow> journal_file \<Rightarrow> journal_file \<times> nat result" where
  "cleanup_completed c j f =
     (case replay_journal c j f of
        Inl e \<Rightarrow> (f, Inl e)
      | Inr ops \<Rightarrow>
          (rewrite_records c (concat (map op_records (filter (\<lambda>p. \<not> op_terminal p) ops))),
           Inr (sum_list (map (length \<circ> op_records) (filter op_terminal ops)))))"

section \<open>Grouping\<close>

abbreviation of_operation :: "string \<Rightarrow> crash_record list \<Rightarrow> crash_record list" where
  "of_operation i rs \<equiv> filter (\<lambda>r. cj_operation_id r = i) rs"

lemma group_wf: "bt_wf (group_records rs)"
  by (induction rs rule: rev_induct) (simp_all add: group_records_def)

lemma group_get: "bt_get (group_records rs) i = (if of_operation i rs = [] then None else Some (of_operation i rs))"
proof (induction rs rule: rev_induct)
  case (snoc r rs)
  have "group_records (rs @ [r]) = bt_entry [] (cj_operation_id r) (\<lambda>g. g @ [r]) (group_records rs)"
    by (simp add: group_records_def)
  with snoc show ?case by (auto simp: bt_get_or_def)
qed (simp add: group_records_def)

lemma in_group: "(i, g) \<in> set (group_records rs) \<longleftrightarrow> g = of_operation i rs \<and> g \<noteq> []"
proof -
  have "(i, g) \<in> set (group_records rs) \<longleftrightarrow> bt_get (group_records rs) i = Some g"
    using bt_wf_distinct [OF group_wf] by (simp add: bt_get_def)
  then show ?thesis by (auto simp: group_get)
qed

text \<open>Sequence numbers grow along the journal.\<close>

definition in_sequence :: "crash_record list \<Rightarrow> bool" where
  "in_sequence rs \<longleftrightarrow> sorted_wrt (<) (map cj_sequence rs)"

lemma in_sequence_facts:
  assumes "in_sequence rs"
  shows "sort_key cj_sequence rs = rs" "distinct rs" "inj_on cj_sequence (set rs)"
    "in_sequence (filter P rs)"
proof -
  have d: "distinct (map cj_sequence rs)" and s: "sorted (map cj_sequence rs)"
    using assms by (simp_all add: in_sequence_def strict_sorted_iff)
  then show "distinct rs" and i: "inj_on cj_sequence (set rs)" by (simp_all add: distinct_map)
  show "sort_key cj_sequence rs = rs" using s by (rule sort_key_id_if_sorted)
  show "in_sequence (filter P rs)"
    using assms unfolding in_sequence_def sorted_wrt_map by (rule sorted_wrt_filter)
qed

lemma in_sequence_last:
  assumes "in_sequence rs" "rs \<noteq> []" "x \<in> set rs"
  shows "cj_sequence x \<le> cj_sequence (last rs)"
  using assms(2,1,3)
  by (cases rs rule: rev_cases) (auto simp: in_sequence_def sorted_wrt_append intro: less_imp_le)

definition finished :: "crash_record list \<Rightarrow> string \<Rightarrow> bool" where
  "finished rs i \<longleftrightarrow> crash_phase_is_terminal (cj_phase (last (of_operation i rs)))"

lemma replay_group:
  assumes "in_sequence rs" "(i, g) \<in> set (group_records rs)"
  shows "replay_operation (i, g) = \<lparr>op_operation_id = i, op_records = of_operation i rs,
      op_latest_phase = Some (cj_phase (last (of_operation i rs))), op_terminal = finished rs i\<rparr>"
  using assms in_sequence_facts(1) [OF in_sequence_facts(4) [OF assms(1)]]
  by (auto simp: replay_operation_def in_group finished_def Let_def)

lemma groups_partition:
  assumes S: "in_sequence rs"
  shows "sort_key cj_sequence (concat (map op_records (filter (\<lambda>p. Q (op_terminal p)) (map replay_operation (group_records rs)))))
      = filter (\<lambda>r. Q (finished rs (cj_operation_id r))) rs"
    "sum_list (map (length \<circ> op_records) (filter (\<lambda>p. Q (op_terminal p)) (map replay_operation (group_records rs))))
      = length (filter (\<lambda>r. Q (finished rs (cj_operation_id r))) rs)"
proof -
  let ?ops = "filter (\<lambda>p. Q (op_terminal p)) (map replay_operation (group_records rs))"
  let ?xs = "concat (map op_records ?ops)" and ?ys = "filter (\<lambda>r. Q (finished rs (cj_operation_id r))) rs"
  let ?gs = "filter (\<lambda>(i, g). Q (finished rs i)) (group_records rs)"
  have map: "map op_records (filter (\<lambda>p. Q (op_terminal p)) (map replay_operation (group_records rs))) = map snd ?gs"
    using replay_group [OF S] by (auto simp: filter_map comp_def in_group intro!: map_cong filter_cong)
  have set: "set ?xs = set ?ys" unfolding map by (auto simp: in_group image_iff filter_empty_conv)
  have dxs: "distinct ?xs" unfolding map
  proof (rule distinct_concat)
    have "inj_on snd (set (group_records rs))"
    proof (rule inj_onI)
      fix x y assume x: "x \<in> set (group_records rs)" and y: "y \<in> set (group_records rs)" and e: "snd x = snd y"
      obtain i g j h where ij: "x = (i, g)" "y = (j, h)" by (cases x, cases y)
      have g: "of_operation i rs = of_operation j rs" "of_operation i rs \<noteq> []"
        using x y e unfolding ij by (auto simp: in_group)
      then have "last (of_operation i rs) \<in> set (of_operation j rs)" by (metis last_in_set)
      moreover have "last (of_operation i rs) \<in> set (of_operation i rs)" using g(2) by (rule last_in_set)
      ultimately have "i = j" by simp
      then show "x = y" using ij e by simp
    qed
    then show "distinct (map snd ?gs)"
      using bt_wf_distinct [OF group_wf, of rs] by (auto simp: distinct_map intro: inj_on_subset)
  next
    fix ys assume "ys \<in> set (map snd ?gs)"
    then show "distinct ys" using in_sequence_facts(2) [OF S] by (auto simp: in_group)
  next
    fix ys zs assume "ys \<in> set (map snd ?gs)" "zs \<in> set (map snd ?gs)" "ys \<noteq> zs"
    then show "set ys \<inter> set zs = {}" by (auto simp: in_group)
  qed
  have m: "mset ?xs = mset ?ys"
    using set_eq_iff_mset_eq_distinct [OF dxs, of ?ys] set distinct_filter [OF in_sequence_facts(2) [OF S]] by blast
  show "sort_key cj_sequence ?xs = ?ys"
  proof (rule sort_key_inj_key_eq [OF m])
    show "inj_on cj_sequence (set ?xs)" unfolding set using in_sequence_facts(3) [OF S] by (auto intro: inj_on_subset)
    show "sorted (map cj_sequence ?ys)"
      using in_sequence_facts(4) [OF S] by (simp add: in_sequence_def strict_sorted_iff)
  qed
  have "length ?xs = length ?ys" using m by (metis size_mset)
  then show "sum_list (map (length \<circ> op_records) ?ops) = length ?ys"
    by (simp add: length_concat comp_def)
qed

section \<open>Properties\<close>

text \<open>
  C24. The journal keeps its promise. For a journal of records in sequence, replay lists every
  operation once, each with exactly its records in order and its last phase; an append adds one
  record, numbered 1 in an empty journal and otherwise one more than the last record, with the
  operation, phase, detail and time it was given; and cleanup removes exactly the operations whose last phase is
  terminal, every record of the others survives, and the count it reports is the number removed.
\<close>

theorem journal_replays_and_cleans:
  assumes "json_lines (ck_print c) (ck_parse c)" and "in_sequence rs"
    and "jn_fault j = None" and "rs \<noteq> [] \<Longrightarrow> cj_sequence (last rs) \<noteq> - 1"
  shows "\<exists>ops f r g. replay_journal c j (Some (jsonl_text (ck_print c) rs)) = Inr ops
    \<and> sorted_wrt (<) (map op_operation_id ops) \<and> op_operation_id ` set ops = cj_operation_id ` set rs
    \<and> (\<forall>p\<in>set ops. op_records p = filter (\<lambda>r. cj_operation_id r = op_operation_id p) rs
         \<and> op_latest_phase p = Some (cj_phase (last (op_records p)))
         \<and> op_terminal p = crash_phase_is_terminal (cj_phase (last (op_records p))))
    \<and> append_crash_record c d now j i (Some (jsonl_text (ck_print c) rs)) = (f, Inr r)
    \<and> journal_records c j f = Inr (rs @ [r]) \<and> in_sequence (rs @ [r]) \<and> cj_operation_id r = ci_operation_id i
    \<and> cj_phase r = ci_phase i
    \<and> unat (cj_sequence r) = (if rs = [] then 1 else Suc (unat (cj_sequence (last rs))))
    \<and> cj_detail_json r = d (ci_detail i) \<and> cj_created_at r = now
    \<and> cleanup_completed c j (Some (jsonl_text (ck_print c) rs)) =
         (g, Inr (length (filter (\<lambda>r. finished rs (cj_operation_id r)) rs)))
    \<and> journal_records c j g = Inr (filter (\<lambda>r. \<not> finished rs (cj_operation_id r)) rs)"
proof -
  note S = assms(2)
  let ?f = "Some (jsonl_text (ck_print c) rs)"
  have read: "journal_records c j (Some (jsonl_text (ck_print c) qs)) = Inr (sort_key cj_sequence qs)" for qs
    using json_lines.parse_text [OF assms(1)] by (simp add: journal_records_def)
  have rd: "journal_records c j ?f = Inr rs" using read in_sequence_facts(1) [OF S] by simp
  let ?ops = "map replay_operation (group_records rs)"
  have replay: "replay_journal c j ?f = Inr ?ops" using rd by (simp add: replay_journal_def)
  have ids: "map op_operation_id ?ops = map fst (group_records rs)"
    by (auto simp: replay_operation_def Let_def)
  have sorted: "sorted_wrt (<) (map op_operation_id ?ops)" unfolding ids using group_wf by (simp add: bt_wf_def)
  have all: "op_operation_id ` set ?ops = cj_operation_id ` set rs"
  proof -
    have "op_operation_id ` set ?ops = fst ` set (group_records rs)" using ids by (metis set_map)
    also have "\<dots> = cj_operation_id ` set rs"
    proof (rule set_eqI)
      fix k
      have "k \<in> fst ` set (group_records rs) \<longleftrightarrow> (\<exists>g. (k, g) \<in> set (group_records rs))" by force
      then show "k \<in> fst ` set (group_records rs) \<longleftrightarrow> k \<in> cj_operation_id ` set rs"
        by (auto simp: in_group filter_empty_conv)
    qed
    finally show ?thesis .
  qed
  have each: "\<forall>p\<in>set ?ops. op_records p = filter (\<lambda>r. cj_operation_id r = op_operation_id p) rs
         \<and> op_latest_phase p = Some (cj_phase (last (op_records p)))
         \<and> op_terminal p = crash_phase_is_terminal (cj_phase (last (op_records p)))"
    using replay_group [OF S] by (auto simp: finished_def)
  let ?r = "\<lparr>cj_sequence = (if rs = [] then 1 else sat_add (cj_sequence (last rs)) 1), cj_operation_id = ci_operation_id i,
      cj_project_id = ci_project_id i, cj_workspace_id = ci_workspace_id i, cj_snapshot_id = ci_snapshot_id i,
      cj_lease_id = ci_lease_id i, cj_phase = ci_phase i, cj_detail_json = d (ci_detail i), cj_created_at = now\<rparr>"
  let ?g = "Some (jsonl_text (ck_print c) (rs @ [?r]))"
  have app: "append_crash_record c d now j i ?f = (?g, Inr ?r)"
    using assms(3) rd by (simp add: append_crash_record_def next_sequence_number_def crash_inject_fault_def jsonl_text_def Let_def)
  have S': "in_sequence (rs @ [?r])"
  proof (cases "rs = []")
    case False
    have "cj_sequence (last rs) < cj_sequence ?r"
      using unat_sat_add_1 [OF assms(4) [OF False]] False by (simp add: word_less_nat_alt)
    then have "cj_sequence x < cj_sequence ?r" if "x \<in> set rs" for x
      using in_sequence_last [OF S False that] by (rule le_less_trans [rotated])
    with S show ?thesis using S by (auto simp: in_sequence_def sorted_wrt_append)
  qed (simp add: in_sequence_def)
  have number: "unat (cj_sequence ?r) = (if rs = [] then 1 else Suc (unat (cj_sequence (last rs))))"
    using unat_sat_add_1 [OF assms(4)] by simp
  have rd': "journal_records c j ?g = Inr (rs @ [?r])" using read in_sequence_facts(1) [OF S'] by simp
  note P = groups_partition [OF S]
  have cl: "cleanup_completed c j ?f = (Some (jsonl_text (ck_print c) (concat (map op_records (filter (\<lambda>p. \<not> op_terminal p) ?ops)))),
      Inr (length (filter (\<lambda>r. finished rs (cj_operation_id r)) rs)))"
    using replay P(2) [of "\<lambda>b. b"] by (simp add: cleanup_completed_def rewrite_records_def)
  show ?thesis
    by (intro exI conjI, rule replay, rule sorted, rule all, rule each, rule app, rule rd', rule S', simp, simp, rule number, simp, simp, rule cl)
      (simp only: read P(1) [of Not])
qed

text \<open>A codec that meets the assumption, for sample journals.\<close>

definition print_option :: "string option \<Rightarrow> string" where
  "print_option v = (case v of None \<Rightarrow> ''n'' | Some s \<Rightarrow> ''s'' @ s)"

definition parse_option :: "string \<Rightarrow> string option" where
  "parse_option s = (if take 1 s = ''s'' then Some (drop 1 s) else None)"

definition all_crash_phases :: "crash_phase list" where
  "all_crash_phases = [SnapshotCreationStart, SnapshotCreationComplete, PublishStart, PublishComplete, TargetApplyStart,
     TargetBackupComplete, BaseApplied, WorkApplied, IndexApplied, PhaseVerified, LeaseCommitted]"

definition parse_phase :: "string \<Rightarrow> crash_phase" where
  "parse_phase s = (case find (\<lambda>p. crash_phase_as_str p = s) all_crash_phases of None \<Rightarrow> PublishStart | Some p \<Rightarrow> p)"

definition ex_print_crash :: "crash_record \<Rightarrow> string" where
  "ex_print_crash r = print_fields [dec_u64 (cj_sequence r), cj_operation_id r, print_option (cj_project_id r),
     print_option (cj_workspace_id r), print_option (cj_snapshot_id r), print_option (cj_lease_id r),
     crash_phase_as_str (cj_phase r), cj_detail_json r, dec_u64 (cj_created_at r)]"

definition ex_parse_crash :: "string \<Rightarrow> string + crash_record" where
  "ex_parse_crash s = (case parse_fields s of
      [a, b, p, w, sn, l, ph, d, t] \<Rightarrow> Inr \<lparr>cj_sequence = of_nat (dec_value a), cj_operation_id = b,
        cj_project_id = parse_option p, cj_workspace_id = parse_option w, cj_snapshot_id = parse_option sn,
        cj_lease_id = parse_option l, cj_phase = parse_phase ph, cj_detail_json = d,
        cj_created_at = of_nat (dec_value t)\<rparr>
    | _ \<Rightarrow> Inl ''not a record'')"

definition ex_crash_codec :: crash_codec where
  "ex_crash_codec = \<lparr>ck_print = ex_print_crash, ck_parse = ex_parse_crash\<rparr>"

lemma parse_print_option [simp]: "parse_option (print_option v) = v"
  by (simp add: parse_option_def print_option_def split: option.split)

lemma parse_print_phase [simp]: "parse_phase (crash_phase_as_str p) = p"
  by (cases p) (simp_all add: parse_phase_def all_crash_phases_def)

interpretation crash_sample: json_lines ex_print_crash ex_parse_crash
  by unfold_locales
    (simp_all add: ex_print_crash_def ex_parse_crash_def parse_print_fields dec_u64_def dec_nat_value print_fields_shape
      print_fields_line)

definition ex_crash :: "u64 \<Rightarrow> string \<Rightarrow> crash_phase \<Rightarrow> crash_record" where
  "ex_crash n i ph = \<lparr>cj_sequence = n, cj_operation_id = i, cj_project_id = Some ''p1'', cj_workspace_id = None,
     cj_snapshot_id = Some ''s1'', cj_lease_id = None, cj_phase = ph, cj_detail_json = ''{}'', cj_created_at = 5\<rparr>"

theorem journal_replays_and_cleans_witness:
  "\<exists>g f r. cleanup_completed ex_crash_codec \<lparr>jn_path = ''j'', jn_fault = None\<rparr>
        (Some (jsonl_text ex_print_crash [ex_crash 1 ''a'' PublishStart, ex_crash 2 ''b'' PublishStart,
           ex_crash 3 ''a'' PublishComplete])) = (g, Inr 2)
     \<and> journal_records ex_crash_codec \<lparr>jn_path = ''j'', jn_fault = None\<rparr> g = Inr [ex_crash 2 ''b'' PublishStart]
     \<and> append_crash_record ex_crash_codec (\<lambda>_. []) 5 \<lparr>jn_path = ''j'', jn_fault = None\<rparr> (publish_start ''a'' ''p'' ''s'')
        (Some (jsonl_text ex_print_crash [ex_crash 1 ''a'' PublishStart, ex_crash 2 ''b'' PublishStart,
           ex_crash 3 ''a'' PublishComplete])) = (f, Inr r)
     \<and> unat (cj_sequence r) = 4"
proof -
  let ?j = "\<lparr>jn_path = ''j'', jn_fault = None\<rparr>"
  let ?rs = "[ex_crash 1 ''a'' PublishStart, ex_crash 2 ''b'' PublishStart, ex_crash 3 ''a'' PublishComplete]"
  have L: "json_lines (ck_print ex_crash_codec) (ck_parse ex_crash_codec)"
    by (simp add: ex_crash_codec_def crash_sample.json_lines_axioms)
  have S: "in_sequence ?rs" "cj_sequence (last ?rs) \<noteq> - 1" by (simp_all add: in_sequence_def ex_crash_def)
  have F: "filter (\<lambda>r. finished ?rs (cj_operation_id r)) ?rs = [ex_crash 1 ''a'' PublishStart, ex_crash 3 ''a'' PublishComplete]"
    "filter (\<lambda>r. \<not> finished ?rs (cj_operation_id r)) ?rs = [ex_crash 2 ''b'' PublishStart]"
    by (simp_all add: finished_def ex_crash_def crash_phase_is_terminal_def)
  have "jn_fault \<lparr>jn_path = ''j'', jn_fault = None\<rparr> = None" by simp
  from journal_replays_and_cleans [OF L S(1) this S(2), of "\<lambda>_. []" 5 "publish_start ''a'' ''p'' ''s''", unfolded F]
  obtain g f r where "cleanup_completed ex_crash_codec ?j (Some (jsonl_text ex_print_crash ?rs)) = (g, Inr 2)"
      "journal_records ex_crash_codec ?j g = Inr [ex_crash 2 ''b'' PublishStart]"
      "append_crash_record ex_crash_codec (\<lambda>_. []) 5 ?j (publish_start ''a'' ''p'' ''s'')
         (Some (jsonl_text ex_print_crash ?rs)) = (f, Inr r)" "unat (cj_sequence r) = 4"
    by (auto simp: ex_crash_codec_def) (simp add: ex_crash_def)
  then show ?thesis by blast
qed

text \<open>
  A crash inside a write stops the journal for good. When a crash leaves a proper beginning of
  a line at the end of a valid journal, replay fails, every later append fails and writes
  nothing, and cleanup fails too: the operations whose progress was recorded cannot be resumed
  from the journal.
\<close>

theorem torn_write_blocks_journal:
  assumes "json_lines (ck_print c) (ck_parse c)" and "0 < k" "k < length (ck_print c r)"
    and "ck_parse c (take k (ck_print c r)) = Inl e" and "f = Some (jsonl_text (ck_print c) rs @ take k (ck_print c r))"
  shows "(\<exists>err. replay_journal c j f = Inl err)
    \<and> (\<exists>err. append_crash_record c d now j i f = (f, Inl err))
    \<and> (\<exists>err. cleanup_completed c j f = (f, Inl err))"
proof -
  let ?t = "take k (ck_print c r)"
  obtain body where b: "ck_print c r = CHR 0x7B # body @ [CHR 0x7D]"
    using json_lines.an_object [OF assms(1)] by blast
  obtain m where k: "k = Suc m" using assms(2) by (cases k) auto
  have t: "?t = CHR 0x7B # take m (body @ [CHR 0x7D])" by (simp add: b k)
  have nb: "\<not> trims_to_empty ?t" unfolding t by (rule not_trims_to_empty) (simp_all add: is_ascii_space_def)
  have nl: "CHR 0x0A \<notin> set ?t" using json_lines.one_line [OF assms(1)] by (auto dest: in_set_takeD)
  have "parse_jsonl err (ck_parse c) 1 (str_lines (jsonl_text (ck_print c) rs @ ?t)) = Inl (err (1 + length rs) e)" for err
    by (rule json_lines.parse_torn [OF assms(1) _ nl nb assms(4)]) (simp add: t)
  then have "\<exists>err. journal_records c j f = Inl err" by (simp add: journal_records_def assms(5))
  then obtain err where "journal_records c j f = Inl err" ..
  then show ?thesis
    by (auto simp: replay_journal_def append_crash_record_def next_sequence_number_def cleanup_completed_def
        crash_inject_fault_def)
qed

theorem torn_write_blocks_journal_witness:
  "\<exists>err. replay_journal ex_crash_codec \<lparr>jn_path = ''j'', jn_fault = None\<rparr>
     (Some (jsonl_text ex_print_crash [] @ take 3 (ex_print_crash (ex_crash 7 ''a'' PublishStart)))) = Inl err"
proof -
  have L: "json_lines (ck_print ex_crash_codec) (ck_parse ex_crash_codec)"
    by (simp add: ex_crash_codec_def crash_sample.json_lines_axioms)
  have p: "ck_parse ex_crash_codec (take 3 (ck_print ex_crash_codec (ex_crash 7 ''a'' PublishStart))) = Inl ''not a record''"
    by code_simp
  have l: "3 < length (ck_print ex_crash_codec (ex_crash 7 ''a'' PublishStart))"
    by code_simp
  have "ck_print ex_crash_codec = ex_print_crash" by (simp add: ex_crash_codec_def)
  with torn_write_blocks_journal [OF L _ l p refl, where rs = "[]" and j = "\<lparr>jn_path = ''j'', jn_fault = None\<rparr>"] show ?thesis by simp
qed

end
