(* ===== verification/Ipc_Framing.thy ===== *)
theory Ipc_Framing
  imports Error_Model Identity_Certificates
begin

unbundle bit_operations_syntax

text \<open>
  Message framing of the local socket and the remote TLS stream, \<open>ipc.rs\<close>: a 32-bit big-endian
  length and the payload. A reader is the bytes still to come and how the stream ends; a
  writer is the bytes sent, how many more it takes before it fails, and how. Durations are
  nanoseconds.
\<close>

section \<open>Limits\<close>

record ipc_limits =
  il_connect_timeout :: nat
  il_request_timeout :: nat
  il_max_message_bytes :: u64

definition default_ipc_limits :: ipc_limits where
  "default_ipc_limits = \<lparr>il_connect_timeout = 2 * 1000000000, il_request_timeout = 30 * 1000000000,
     il_max_message_bytes = 1024 * 1024\<rparr>"

definition ipc_error :: "string \<Rightarrow> dr_error" where
  "ipc_error detail = Ipc detail"

definition ipc_limits_validate :: "ipc_limits \<Rightarrow> unit result" where
  "ipc_limits_validate l =
     (if il_connect_timeout l = 0 then Inl (ipc_error ''IPC connect timeout must be greater than zero'')
      else if il_request_timeout l = 0 then Inl (ipc_error ''IPC request timeout must be greater than zero'')
      else if il_max_message_bytes l = 0 then Inl (ipc_error ''IPC max message size must be greater than zero'')
      else Inr ())"

section \<open>Streams\<close>

datatype io_kind = UnexpectedEof | TimedOut | WouldBlock | OtherIo string

definition is_io_timeout :: "io_kind \<Rightarrow> bool" where
  "is_io_timeout k \<longleftrightarrow> k = TimedOut \<or> k = WouldBlock"

fun io_display :: "io_kind \<Rightarrow> string" where
  "io_display UnexpectedEof = ''failed to fill whole buffer''"
| "io_display TimedOut = ''timed out''"
| "io_display WouldBlock = ''operation would block''"
| "io_display (OtherIo s) = s"

record reader =
  rd_input :: bytes
  rd_end :: io_kind

record writer =
  wr_sent :: bytes
  wr_room :: "nat option"
  wr_failure :: io_kind
  wr_flush :: "unit + io_kind"

definition read_exact :: "nat \<Rightarrow> reader \<Rightarrow> reader \<times> (io_kind + bytes)" where
  "read_exact n s =
     (if n \<le> length (rd_input s) then (s\<lparr>rd_input := drop n (rd_input s)\<rparr>, Inr (take n (rd_input s)))
      else (s\<lparr>rd_input := []\<rparr>, Inl (rd_end s)))"

definition write_all :: "bytes \<Rightarrow> writer \<Rightarrow> writer \<times> (io_kind + unit)" where
  "write_all b w = (case wr_room w of
       None \<Rightarrow> (w\<lparr>wr_sent := wr_sent w @ b\<rparr>, Inr ())
     | Some k \<Rightarrow>
         if length b \<le> k then (w\<lparr>wr_sent := wr_sent w @ b, wr_room := Some (k - length b)\<rparr>, Inr ())
         else (w\<lparr>wr_sent := wr_sent w @ take k b, wr_room := Some 0\<rparr>, Inl (wr_failure w)))"

definition read_exact_or_ipc :: "nat \<Rightarrow> string \<Rightarrow> reader \<Rightarrow> reader \<times> bytes result" where
  "read_exact_or_ipc n malformed s = (case read_exact n s of
       (s', Inr b) \<Rightarrow> (s', Inr b)
     | (s', Inl k) \<Rightarrow> (s', Inl
         (if k = UnexpectedEof then ipc_error malformed
          else if is_io_timeout k then ipc_error ''timed out reading IPC message''
          else Io (io_display k))))"

definition write_all_or_ipc :: "bytes \<Rightarrow> writer \<Rightarrow> writer \<times> unit result" where
  "write_all_or_ipc b w = (case write_all b w of
       (w', Inr u) \<Rightarrow> (w', Inr ())
     | (w', Inl k) \<Rightarrow> (w', Inl
         (if is_io_timeout k then ipc_error ''timed out writing IPC message'' else Io (io_display k))))"

section \<open>Frames\<close>

definition u32_to_be_bytes :: "u32 \<Rightarrow> bytes" where
  "u32_to_be_bytes n = [ucast (drop_bit 24 n), ucast (drop_bit 16 n), ucast (drop_bit 8 n), ucast n]"

definition u32_from_be_bytes :: "bytes \<Rightarrow> u32" where
  "u32_from_be_bytes b = foldl (\<lambda>n x. push_bit 8 n OR ucast x) 0 b"

definition read_framed_message :: "ipc_limits \<Rightarrow> reader \<Rightarrow> reader \<times> bytes result" where
  "read_framed_message l s = (case ipc_limits_validate l of
       Inl e \<Rightarrow> (s, Inl e)
     | Inr _ \<Rightarrow> (case read_exact_or_ipc 4 ''malformed IPC message: missing length prefix'' s of
         (s1, Inl e) \<Rightarrow> (s1, Inl e)
       | (s1, Inr len_bytes) \<Rightarrow>
           (let len = unat (u32_from_be_bytes len_bytes)
            in if unat (il_max_message_bytes l) < len
               then (s1, Inl (ipc_error (''IPC message size '' @ dec_nat len @ '' exceeds configured maximum ''
                      @ dec_u64 (il_max_message_bytes l))))
               else read_exact_or_ipc len ''malformed IPC message: truncated payload'' s1)))"

definition write_framed_message :: "ipc_limits \<Rightarrow> bytes \<Rightarrow> writer \<Rightarrow> writer \<times> unit result" where
  "write_framed_message l payload w = (case ipc_limits_validate l of
       Inl e \<Rightarrow> (w, Inl e)
     | Inr _ \<Rightarrow>
         if unat (il_max_message_bytes l) < length payload
         then (w, Inl (ipc_error (''IPC message size '' @ dec_nat (length payload) @ '' exceeds configured maximum ''
                 @ dec_u64 (il_max_message_bytes l))))
         else if 4294967296 \<le> length payload then (w, Inl (ipc_error ''IPC message is too large to encode''))
         else (case write_all_or_ipc (u32_to_be_bytes (of_nat (length payload))) w of
             (w1, Inl e) \<Rightarrow> (w1, Inl e)
           | (w1, Inr _) \<Rightarrow> (case write_all_or_ipc payload w1 of
               (w2, Inl e) \<Rightarrow> (w2, Inl e)
             | (w2, Inr _) \<Rightarrow> (case wr_flush w2 of
                 Inl _ \<Rightarrow> (w2, Inr ())
               | Inr k \<Rightarrow> (w2, Inl (ipc_error (''failed to flush IPC message: '' @ io_display k)))))))"

section \<open>Local socket\<close>

record peer_credentials =
  pc_uid :: u32
  pc_gid :: u32
  pc_pid :: "u32 option"

definition is_current_user :: "u32 \<Rightarrow> peer_credentials \<Rightarrow> bool" where
  "is_current_user current p \<longleftrightarrow> pc_uid p = current"

text \<open>\<open>accept\<close> checks the peer before the connection is served; what the platform reports is an argument.\<close>

definition ensure_peer_is_current_user :: "u32 \<Rightarrow> peer_credentials option result \<Rightarrow> unit result" where
  "ensure_peer_is_current_user current credentials = bind_r credentials (\<lambda>c. case c of
       Some p \<Rightarrow> if is_current_user current p then Inr ()
         else Inl (ipc_error (''rejected IPC peer uid '' @ dec_u64 (pc_uid p) @ '' for current uid '' @ dec_u64 current))
     | None \<Rightarrow> Inr ())"

datatype socket_path =
    NoFile
  | OtherFile
  | LiveSocket
  | DeniedSocket string
  | StaleSocket

text \<open>\<open>prepare_socket_path\<close>: what is at the path before and after.\<close>

definition prepare_socket_path :: "string \<Rightarrow> socket_path \<Rightarrow> socket_path \<times> unit result" where
  "prepare_socket_path path f = (case f of
       NoFile \<Rightarrow> (f, Inr ())
     | OtherFile \<Rightarrow> (f, Inl (ipc_error (''IPC path exists and is not a Unix socket: '' @ path)))
     | LiveSocket \<Rightarrow> (f, Inl (ipc_error (''active IPC socket already exists: '' @ path)))
     | DeniedSocket err \<Rightarrow> (f, Inl (ipc_error (''cannot inspect existing IPC socket '' @ path @ '': '' @ err)))
     | StaleSocket \<Rightarrow> (NoFile, Inr ()))"

section \<open>Lemmas\<close>

lemma length_be_bytes [simp]: "length (u32_to_be_bytes n) = 4"
  by (simp add: u32_to_be_bytes_def)

lemma be_bytes_roundtrip [simp]: "u32_from_be_bytes (u32_to_be_bytes n) = n"
proof (rule bit_word_eqI)
  fix k assume "k < LENGTH(32)"
  then have "k < 32" by simp
  then consider "k < 8" | m where "k = m + 8" "m < 8" | m where "k = m + 16" "m < 8" | m where "k = m + 24" "m < 8"
    by atomize_elim presburger
  then show "bit (u32_from_be_bytes (u32_to_be_bytes n)) k = bit n k"
    by cases (auto simp: u32_from_be_bytes_def u32_to_be_bytes_def bit_simps add.commute)
qed

lemma from_be_bytes_inject:
  assumes "length a = 4" shows "u32_to_be_bytes (u32_from_be_bytes a) = a"
proof -
  obtain p q r s where a: "a = [p, q, r, s]" using assms
    by (auto simp: length_Suc_conv eval_nat_numeral)
  have "ucast (drop_bit 24 (u32_from_be_bytes a)) = p" unfolding a u32_from_be_bytes_def
    by (rule bit_word_eqI) (auto simp: bit_simps dest: bit_imp_le_length)
  moreover have "ucast (drop_bit 16 (u32_from_be_bytes a)) = q" unfolding a u32_from_be_bytes_def
    by (rule bit_word_eqI) (auto simp: bit_simps dest: bit_imp_le_length)
  moreover have "ucast (drop_bit 8 (u32_from_be_bytes a)) = r" unfolding a u32_from_be_bytes_def
    by (rule bit_word_eqI) (auto simp: bit_simps dest: bit_imp_le_length)
  moreover have "ucast (u32_from_be_bytes a) = s" unfolding a u32_from_be_bytes_def
    by (rule bit_word_eqI) (auto simp: bit_simps dest: bit_imp_le_length)
  ultimately show ?thesis by (simp add: u32_to_be_bytes_def a)
qed


text \<open>A frame, and the reader's verdict: it delivers exactly what was framed.\<close>

definition frame :: "bytes \<Rightarrow> bytes" where
  "frame p = u32_to_be_bytes (of_nat (length p)) @ p"

lemma frame_size: "length p < 4294967296 \<Longrightarrow> unat (of_nat (length p) :: u32) = length p"
  by (simp add: unat_of_nat)

lemma validate_cases: "ipc_limits_validate l = Inr () \<or> (\<exists>e. ipc_limits_validate l = Inl e)"
  by (cases "ipc_limits_validate l") auto

lemma read_exact_Inr: "read_exact_or_ipc n m s = (s', Inr b) \<longleftrightarrow>
    n \<le> length (rd_input s) \<and> b = take n (rd_input s) \<and> s' = s\<lparr>rd_input := drop n (rd_input s)\<rparr>"
  by (auto simp: read_exact_or_ipc_def read_exact_def split: if_splits)

lemma read_framed_iff:
  "read_framed_message l s = (s', Inr p) \<longleftrightarrow>
     ipc_limits_validate l = Inr () \<and> length p \<le> unat (il_max_message_bytes l) \<and> length p < 4294967296
     \<and> rd_input s = frame p @ rd_input s' \<and> s' = s\<lparr>rd_input := rd_input s'\<rparr>"
  (is "?L \<longleftrightarrow> ?R")
proof
  assume ?L
  then obtain b s1 where v: "ipc_limits_validate l = Inr ()"
    and b: "read_exact_or_ipc 4 ''malformed IPC message: missing length prefix'' s = (s1, Inr b)"
    and m: "unat (u32_from_be_bytes b) \<le> unat (il_max_message_bytes l)"
    and p: "read_exact_or_ipc (unat (u32_from_be_bytes b)) ''malformed IPC message: truncated payload'' s1 = (s', Inr p)"
    by (auto simp: read_framed_message_def Let_def not_less split: sum.splits prod.splits if_splits)
  note b = b [unfolded read_exact_Inr] and p = p [unfolded read_exact_Inr]
  have len: "length p = unat (u32_from_be_bytes b)" using p by simp
  moreover have "unat (u32_from_be_bytes b) < 2 ^ LENGTH(32)" by (rule unsigned_less)
  moreover have "u32_to_be_bytes (of_nat (length p)) = b" unfolding len using b by (simp add: from_be_bytes_inject)
  moreover have "b @ p @ rd_input s' = rd_input s" using b p by simp (metis append_take_drop_id drop_drop add.commute)
  ultimately show ?R using v m b p by (simp add: frame_def)
next
  assume R: ?R
  then have s': "s' = s\<lparr>rd_input := rd_input s'\<rparr>" by simp
  show ?L using R
    by (subst s') (simp add: read_framed_message_def frame_def frame_size Let_def read_exact_or_ipc_def read_exact_def)
qed

lemma write_all_Cases:
  "write_all_or_ipc b w = (w', r) \<Longrightarrow> \<exists>k\<le>length b. wr_sent w' = wr_sent w @ take k b \<and> wr_flush w' = wr_flush w
     \<and> (r = Inr () \<longleftrightarrow> k = length b)"
  by (auto simp: write_all_or_ipc_def write_all_def split: option.splits if_splits prod.splits sum.splits
      intro: exI [of _ "length b"] exI [of _ "the (wr_room w)"])

lemma write_framed_cases:
  assumes "write_framed_message l p w = (w', r)"
  shows "wr_sent w' = wr_sent w \<and> (\<exists>e. r = Inl e)
    \<or> ipc_limits_validate l = Inr () \<and> length p \<le> unat (il_max_message_bytes l) \<and> length p < 4294967296
      \<and> (\<exists>k\<le>length (frame p). wr_sent w' = wr_sent w @ take k (frame p) \<and> (r = Inr () \<longrightarrow> k = length (frame p)))"
proof -
  have "r = Inr () \<or> (\<exists>e. r = Inl e)" by (cases r) auto
  show ?thesis
  proof (cases "ipc_limits_validate l = Inr () \<and> length p \<le> unat (il_max_message_bytes l) \<and> length p < 4294967296")
    case False
    then show ?thesis using assms validate_cases [of l]
      by (cases "ipc_limits_validate l") (auto simp: write_framed_message_def not_less not_le split: if_splits)
  next
    case True
    let ?n = "u32_to_be_bytes (of_nat (length p))"
    obtain w1 r1 where 1: "write_all_or_ipc ?n w = (w1, r1)" by fastforce
    obtain w2 r2 where 2: "write_all_or_ipc p w1 = (w2, r2)" by fastforce
    from write_all_Cases [OF 1] obtain k1 where k1: "k1 \<le> 4" "wr_sent w1 = wr_sent w @ take k1 ?n" "r1 = Inr () \<longleftrightarrow> k1 = 4"
      by auto
    from write_all_Cases [OF 2] obtain k2 where k2: "k2 \<le> length p" "wr_sent w2 = wr_sent w1 @ take k2 p"
      "r2 = Inr () \<longleftrightarrow> k2 = length p" by auto
    show ?thesis
    proof (cases r1)
      case (Inl e)
      then have "w' = w1" "r = Inl e" using assms True 1 by (auto simp: write_framed_message_def)
      moreover have "take k1 (frame p) = take k1 ?n" using k1(1) by (simp add: frame_def)
      ultimately show ?thesis using True k1 by (auto simp: frame_def intro!: exI [of _ k1])
    next
      case (Inr u)
      then have w': "w' = w2" "r = Inr () \<Longrightarrow> r2 = Inr ()"
        using assms True 1 2 by (auto simp: write_framed_message_def split: sum.splits)
      have "wr_sent w2 = wr_sent w @ take (4 + k2) (frame p)" using Inr k1 k2 by (simp add: frame_def)
      then show ?thesis using True w' k2 by (auto simp: frame_def intro!: exI [of _ "4 + k2"])
    qed
  qed
qed

text \<open>A frame cut short is never delivered.\<close>

lemma torn_frame_unread:
  assumes n: "n < length (frame p)" and p: "length p < 4294967296"
  shows "\<exists>s' err. read_framed_message l \<lparr>rd_input = take n (frame p), rd_end = k\<rparr> = (s', Inl err)"
proof -
  obtain s' q where R: "read_framed_message l \<lparr>rd_input = take n (frame p), rd_end = k\<rparr> = (s', q)" by fastforce
  have "q \<noteq> Inr m" for m
  proof
    assume "q = Inr m"
    from R [unfolded this read_framed_iff] have F: "take n (frame p) = frame m @ rd_input s'"
      and m: "length m < 4294967296" by simp_all
    have "4 \<le> n" using arg_cong [OF F, of length] n by (simp add: frame_def)
    then have "u32_to_be_bytes (of_nat (length p)) = u32_to_be_bytes (of_nat (length m))"
      using arg_cong [OF F, of "take 4"] by (simp add: frame_def)
    from arg_cong [OF this, of "\<lambda>b. unat (u32_from_be_bytes b)"]
    have "length p = length m" by (simp only: be_bytes_roundtrip frame_size [OF p] frame_size [OF m])
    then show False using arg_cong [OF F, of length] n by (simp add: frame_def)
  qed
  then show ?thesis using R by (cases q) auto
qed

section \<open>Properties\<close>

text \<open>
  C22. Framing is faithful. Whatever a write puts on the stream is read back with the same limits:
  after a write that succeeds the reader delivers exactly the payload and leaves what follows
  untouched, and after a write that fails the reader delivers nothing, however the stream ends,
  unless the whole frame had gone out before the flush failed.
\<close>

theorem framing_round_trips:
  "case write_framed_message l p w of (w', r) \<Rightarrow>
     \<exists>b. wr_sent w' = wr_sent w @ b
       \<and> (case r of
            Inr _ \<Rightarrow> (\<forall>rest k. read_framed_message l \<lparr>rd_input = b @ rest, rd_end = k\<rparr>
                       = (\<lparr>rd_input = rest, rd_end = k\<rparr>, Inr p))
          | Inl _ \<Rightarrow> b = frame p \<or> (\<forall>k. \<exists>s' err. read_framed_message l \<lparr>rd_input = b, rd_end = k\<rparr> = (s', Inl err)))"
proof -
  obtain w' r where W: "write_framed_message l p w = (w', r)" by fastforce
  from write_framed_cases [OF W] show ?thesis
  proof (elim disjE conjE exE)
    fix e assume "wr_sent w' = wr_sent w" "r = Inl e"
    moreover have "\<exists>s' err. read_framed_message l \<lparr>rd_input = [], rd_end = k\<rparr> = (s', Inl err)" for k
      using validate_cases [of l]
      by (auto simp: read_framed_message_def read_exact_or_ipc_def read_exact_def)
    ultimately show ?thesis by (simp add: W)
  next
    fix n assume v: "ipc_limits_validate l = Inr ()" "length p \<le> unat (il_max_message_bytes l)" "length p < 4294967296"
      and n: "n \<le> length (frame p)" "wr_sent w' = wr_sent w @ take n (frame p)" "r = Inr () \<longrightarrow> n = length (frame p)"
    have full: "read_framed_message l \<lparr>rd_input = frame p @ rest, rd_end = k\<rparr> = (\<lparr>rd_input = rest, rd_end = k\<rparr>, Inr p)"
      for rest k using v by (simp add: read_framed_iff)
    show ?thesis
    proof (cases "n = length (frame p)")
      case True
      with n full show ?thesis unfolding W by (cases r) (auto intro!: exI [of _ "frame p"])
    next
      case False
      with n(1) have less: "n < length (frame p)" by simp
      obtain e where r: "r = Inl e" using n(3) False by (cases r) auto
      have "\<forall>k. \<exists>s' err. read_framed_message l \<lparr>rd_input = take n (frame p), rd_end = k\<rparr> = (s', Inl err)"
        using torn_frame_unread [OF less v(3)] by simp
      then show ?thesis unfolding W r using n(2) by (simp del: take_all_iff)
    qed
  qed
qed

end
