(* ===== verification/Cas_Store.thy ===== *)
theory Cas_Store
  imports Manifest_Trust Json_Lines
begin

text \<open>
  The content-addressed store of large sidecar data, \<open>cas.rs\<close>: chunks named by their hash, manifests
  named by the hash of their chunk list, and reachability roots. The directory is a map from file
  names, relative to the store's root, to contents. BLAKE3, the JSON of manifests and roots, the
  clock and the outcome of each write (\<open>None\<close>, or the failure that leaves only a temporary file,
  which is removed) are arguments.
\<close>

section \<open>Records\<close>

type_synonym cas_files = "string \<Rightarrow> string option"

record cas_chunk_record =
  ccr_hash :: string
  ccr_size_bytes :: u64

record cas_upload_result =
  cur_chunk :: cas_chunk_record
  cur_stored :: bool

record cas_manifest_chunk =
  cmc_hash :: string
  cmc_offset_bytes :: u64
  cmc_size_bytes :: u64

record cas_manifest =
  cm_schema_version :: u32
  cm_manifest_id :: string
  cm_total_bytes :: u64
  cm_chunks :: "cas_manifest_chunk list"
  cm_created_at :: u64

record cas_reachability_root =
  crr_root_id :: string
  crr_manifest_id :: string
  crr_created_at :: u64

record cas_env =
  ce_blake3 :: "string \<Rightarrow> string"
  ce_print_manifest :: "cas_manifest \<Rightarrow> string"
  ce_parse_manifest :: "string \<Rightarrow> cas_manifest result"
  ce_print_root :: "cas_reachability_root \<Rightarrow> string"
  ce_parse_root :: "string \<Rightarrow> cas_reachability_root result"
  ce_not_found :: string

section \<open>Names\<close>

definition CAS_SCHEMA_VERSION :: u32 where
  "CAS_SCHEMA_VERSION = 1"

definition CAS_HASH_PREFIX :: string where
  "CAS_HASH_PREFIX = ''b3_''"

definition BLAKE3_HEX_LEN :: nat where
  "BLAKE3_HEX_LEN = 64"

definition validate_hash_format :: "string \<Rightarrow> unit result" where
  "validate_hash_format v =
     (if \<not> starts_with CAS_HASH_PREFIX v
      then Inl (Config (''CAS hash '' @ v @ '' must start with '' @ CAS_HASH_PREFIX))
      else let hex = drop (length CAS_HASH_PREFIX) v in
        if length hex \<noteq> BLAKE3_HEX_LEN \<or> \<not> list_all is_lower_hexdigit hex
        then Inl (Config (''CAS hash '' @ v @ '' must contain '' @ dec_nat BLAKE3_HEX_LEN @ '' lowercase hex characters''))
        else Inr ())"

definition cas_hash_from_bytes :: "(string \<Rightarrow> string) \<Rightarrow> string \<Rightarrow> string" where
  "cas_hash_from_bytes blake3 b = CAS_HASH_PREFIX @ blake3 b"

definition cas_hash_parse :: "string \<Rightarrow> string result" where
  "cas_hash_parse v = bind_r (validate_hash_format v) (\<lambda>_. Inr v)"

definition chunk_path :: "string \<Rightarrow> string" where
  "chunk_path hash = (let hex = drop (length CAS_HASH_PREFIX) hash
     in ''chunks/b3/'' @ take 2 hex @ ''/'' @ drop 2 hex @ ''.chunk'')"

definition manifest_path :: "string \<Rightarrow> string result" where
  "manifest_path manifest_id =
     bind_r (validate_hash_format manifest_id) (\<lambda>_. Inr (''manifests/'' @ manifest_id @ ''.json''))"

text \<open>The test of an identifier before it becomes a file name.\<close>

definition unsafe_component :: "string \<Rightarrow> bool" where
  "unsafe_component i \<longleftrightarrow> i = [] \<or> i \<in> {''.'', ''..''} \<or> CHR ''/'' \<in> set i \<or> CHR 0x5C \<in> set i \<or> str_contains ''..'' i
     \<or> list_ex (\<lambda>c. c \<le> CHR 0x20 \<or> c = CHR 0x7F) i"

definition validate_root_id :: "string \<Rightarrow> unit result" where
  "validate_root_id i =
     (if unsafe_component i
      then Inl (Config (''CAS reachability root id '' @ i @ '' is not safe for a file path''))
      else Inr ())"

definition reachability_root_path :: "string \<Rightarrow> string result" where
  "reachability_root_path i = bind_r (validate_root_id i) (\<lambda>_. Inr (''roots/'' @ i @ ''.json''))"

section \<open>Manifests\<close>

definition manifest_chunk_input :: "cas_manifest_chunk \<Rightarrow> string" where
  "manifest_chunk_input c = cmc_hash c @ le_bytes_u64 (cmc_offset_bytes c) @ le_bytes_u64 (cmc_size_bytes c)"

definition manifest_id_input :: "cas_manifest_chunk list \<Rightarrow> string" where
  "manifest_id_input chunks = ''devrelay.cas.manifest.v1'' @ concat (map manifest_chunk_input chunks)"

definition calculate_manifest_id :: "(string \<Rightarrow> string) \<Rightarrow> cas_manifest_chunk list \<Rightarrow> string" where
  "calculate_manifest_id blake3 chunks = CAS_HASH_PREFIX @ blake3 (manifest_id_input chunks)"

fun check_offsets :: "u64 \<Rightarrow> cas_manifest_chunk list \<Rightarrow> u64 result" where
  "check_offsets offset [] = Inr offset"
| "check_offsets offset (c # cs) =
     (if cmc_offset_bytes c \<noteq> offset
      then Inl (Config (''CAS manifest chunk offset '' @ dec_u64 (cmc_offset_bytes c) @ '' does not match expected ''
             @ dec_u64 offset))
      else check_offsets (sat_add offset (cmc_size_bytes c)) cs)"

definition cas_manifest_validate :: "(string \<Rightarrow> string) \<Rightarrow> cas_manifest \<Rightarrow> unit result" where
  "cas_manifest_validate blake3 m =
     (if cm_schema_version m \<noteq> CAS_SCHEMA_VERSION
      then Inl (Config (''unsupported CAS manifest schema '' @ dec_u64 (cm_schema_version m) @ '', expected ''
             @ dec_u64 CAS_SCHEMA_VERSION))
      else bind_r (validate_hash_format (cm_manifest_id m)) (\<lambda>_.
        let expected = calculate_manifest_id blake3 (cm_chunks m) in
        if cm_manifest_id m \<noteq> expected
        then Inl (Config (''CAS manifest id '' @ cm_manifest_id m @ '' does not match content hash '' @ expected))
        else bind_r (check_offsets 0 (cm_chunks m)) (\<lambda>offset.
          if cm_total_bytes m \<noteq> offset
          then Inl (Config (''CAS manifest total_bytes '' @ dec_u64 (cm_total_bytes m) @ '' does not match chunks ''
                 @ dec_u64 offset))
          else Inr ())))"

section \<open>Chunks\<close>

definition download_chunk :: "cas_env \<Rightarrow> cas_files \<Rightarrow> string \<Rightarrow> string result" where
  "download_chunk e fs hash = (case fs (chunk_path hash) of
       None \<Rightarrow> Inl (Io (ce_not_found e))
     | Some b \<Rightarrow>
         (let actual = cas_hash_from_bytes (ce_blake3 e) b in
          if actual \<noteq> hash
          then Inl (Config (''CAS chunk '' @ hash @ '' failed download verification; got '' @ actual))
          else Inr b))"

definition verify_chunk_file :: "cas_env \<Rightarrow> cas_files \<Rightarrow> string \<Rightarrow> u64 result" where
  "verify_chunk_file e fs hash = bind_r (download_chunk e fs hash) (\<lambda>b. Inr (of_nat (length b)))"

definition missing_chunks :: "cas_env \<Rightarrow> cas_files \<Rightarrow> string list \<Rightarrow> string list" where
  "missing_chunks e fs hashes = filter (\<lambda>h. case verify_chunk_file e fs h of Inl _ \<Rightarrow> True | Inr _ \<Rightarrow> False) hashes"

definition upload_chunk ::
    "cas_env \<Rightarrow> dr_error option \<Rightarrow> string \<Rightarrow> string \<Rightarrow> cas_files \<Rightarrow> cas_files \<times> cas_upload_result result" where
  "upload_chunk e write b expected fs =
     (let actual = cas_hash_from_bytes (ce_blake3 e) b;
          chunk = \<lparr>ccr_hash = expected, ccr_size_bytes = of_nat (length b)\<rparr>
      in if actual \<noteq> expected
         then (fs, Inl (Config (''CAS chunk upload hash mismatch: expected '' @ expected @ '', got '' @ actual)))
         else if fs (chunk_path expected) \<noteq> None
         then (fs, bind_r (verify_chunk_file e fs expected) (\<lambda>_. Inr \<lparr>cur_chunk = chunk, cur_stored = False\<rparr>))
         else (case write of
             Some err \<Rightarrow> (fs, Inl err)
           | None \<Rightarrow> (fs(chunk_path expected \<mapsto> b), Inr \<lparr>cur_chunk = chunk, cur_stored = True\<rparr>)))"

section \<open>Manifests and roots on disk\<close>

definition write_json_atomically :: "dr_error option \<Rightarrow> string \<Rightarrow> string \<Rightarrow> cas_files \<Rightarrow> cas_files \<times> unit result" where
  "write_json_atomically write path text fs = (case write of
       Some err \<Rightarrow> (fs, Inl err)
     | None \<Rightarrow> (fs(path \<mapsto> text @ [CHR 0x0A]), Inr ()))"

fun manifest_chunks :: "cas_env \<Rightarrow> cas_files \<Rightarrow> u64 \<Rightarrow> string list \<Rightarrow> (cas_manifest_chunk list \<times> u64) result" where
  "manifest_chunks e fs offset [] = Inr ([], offset)"
| "manifest_chunks e fs offset (h # hs) =
     bind_r (verify_chunk_file e fs h) (\<lambda>size.
     bind_r (manifest_chunks e fs (sat_add offset size) hs) (\<lambda>(cs, end_offset).
       Inr (\<lparr>cmc_hash = h, cmc_offset_bytes = offset, cmc_size_bytes = size\<rparr> # cs, end_offset)))"

definition create_manifest ::
    "cas_env \<Rightarrow> u64 \<Rightarrow> dr_error option \<Rightarrow> string list \<Rightarrow> cas_files \<Rightarrow> cas_files \<times> cas_manifest result" where
  "create_manifest e now write hashes fs =
     (case manifest_chunks e fs 0 hashes of
        Inl err \<Rightarrow> (fs, Inl err)
      | Inr (chunks, end_offset) \<Rightarrow>
          (let m = \<lparr>cm_schema_version = CAS_SCHEMA_VERSION, cm_manifest_id = calculate_manifest_id (ce_blake3 e) chunks,
                 cm_total_bytes = end_offset, cm_chunks = chunks, cm_created_at = now\<rparr>
           in case cas_manifest_validate (ce_blake3 e) m of
                Inl err \<Rightarrow> (fs, Inl err)
              | Inr _ \<Rightarrow> (case manifest_path (cm_manifest_id m) of
                  Inl err \<Rightarrow> (fs, Inl err)
                | Inr path \<Rightarrow> (case write_json_atomically write path (ce_print_manifest e m) fs of
                    (fs', Inl err) \<Rightarrow> (fs', Inl err)
                  | (fs', Inr _) \<Rightarrow> (fs', Inr m)))))"

definition fetch_manifest :: "cas_env \<Rightarrow> cas_files \<Rightarrow> string \<Rightarrow> cas_manifest result" where
  "fetch_manifest e fs manifest_id =
     bind_r (validate_hash_format manifest_id) (\<lambda>_.
     bind_r (manifest_path manifest_id) (\<lambda>path.
     bind_r (case fs path of None \<Rightarrow> Inl (Io (ce_not_found e)) | Some raw \<Rightarrow> ce_parse_manifest e raw) (\<lambda>m.
     bind_r (cas_manifest_validate (ce_blake3 e) m) (\<lambda>_.
     if cm_manifest_id m \<noteq> manifest_id
     then Inl (Config (''CAS manifest file '' @ manifest_id @ '' contained '' @ cm_manifest_id m))
     else Inr m))))"

definition add_reachability_root ::
    "cas_env \<Rightarrow> u64 \<Rightarrow> dr_error option \<Rightarrow> string \<Rightarrow> string \<Rightarrow> cas_files \<Rightarrow> cas_files \<times> cas_reachability_root result" where
  "add_reachability_root e now write root_id manifest_id fs =
     (case bind_r (validate_root_id root_id) (\<lambda>_. bind_r (fetch_manifest e fs manifest_id) (\<lambda>_. reachability_root_path root_id)) of
        Inl err \<Rightarrow> (fs, Inl err)
      | Inr path \<Rightarrow>
          (let r = \<lparr>crr_root_id = root_id, crr_manifest_id = manifest_id, crr_created_at = now\<rparr>
           in case write_json_atomically write path (ce_print_root e r) fs of
                (fs', Inl err) \<Rightarrow> (fs', Inl err)
              | (fs', Inr _) \<Rightarrow> (fs', Inr r)))"

definition fetch_reachability_root :: "cas_env \<Rightarrow> cas_files \<Rightarrow> string \<Rightarrow> cas_reachability_root result" where
  "fetch_reachability_root e fs root_id =
     bind_r (validate_root_id root_id) (\<lambda>_.
     bind_r (reachability_root_path root_id) (\<lambda>path.
     bind_r (case fs path of None \<Rightarrow> Inl (Io (ce_not_found e)) | Some raw \<Rightarrow> ce_parse_root e raw) (\<lambda>r.
     bind_r (validate_root_id (crr_root_id r)) (\<lambda>_.
     bind_r (validate_hash_format (crr_manifest_id r)) (\<lambda>_. Inr r)))))"

definition remove_reachability_root ::
    "dr_error option \<Rightarrow> string \<Rightarrow> cas_files \<Rightarrow> cas_files \<times> bool result" where
  "remove_reachability_root failure root_id fs =
     (case bind_r (validate_root_id root_id) (\<lambda>_. reachability_root_path root_id) of
        Inl err \<Rightarrow> (fs, Inl err)
      | Inr path \<Rightarrow> (case fs path of
          None \<Rightarrow> (fs, Inr False)
        | Some _ \<Rightarrow> (case failure of
            Some err \<Rightarrow> (fs, Inl err)
          | None \<Rightarrow> (fs(path := None), Inr True))))"

section \<open>Facts\<close>

text \<open>What is used of BLAKE3's text form, and of serde.\<close>

definition hex_hash :: "(string \<Rightarrow> string) \<Rightarrow> bool" where
  "hex_hash blake3 \<longleftrightarrow> (\<forall>b. length (blake3 b) = BLAKE3_HEX_LEN \<and> list_all is_lower_hexdigit (blake3 b))"

definition valid_hashes :: "string list \<Rightarrow> bool" where
  "valid_hashes hs \<longleftrightarrow> (\<forall>h\<in>set hs. validate_hash_format h = Inr ())"

text \<open>Decoding a manifest decodes its hashes, which checks their form.\<close>

definition manifest_codec :: "cas_env \<Rightarrow> bool" where
  "manifest_codec e \<longleftrightarrow>
     (\<forall>m. valid_hashes (map cmc_hash (cm_chunks m)) \<longrightarrow> ce_parse_manifest e (ce_print_manifest e m @ [CHR 0x0A]) = Inr m)
     \<and> (\<forall>t m. ce_parse_manifest e t = Inr m \<longrightarrow> valid_hashes (map cmc_hash (cm_chunks m)))"

lemma valid_hash_iff: "validate_hash_format v = Inr () \<longleftrightarrow>
    (\<exists>hex. v = CAS_HASH_PREFIX @ hex \<and> length hex = 64 \<and> list_all is_lower_hexdigit hex)"
  by (auto simp: validate_hash_format_def BLAKE3_HEX_LEN_def starts_with_iff Let_def)

lemma valid_hash_length: "validate_hash_format v = Inr () \<Longrightarrow> length v = 67"
  by (auto simp: valid_hash_iff CAS_HASH_PREFIX_def)

lemma hash_is_valid: "hex_hash blake3 \<Longrightarrow> validate_hash_format (CAS_HASH_PREFIX @ blake3 b) = Inr ()"
  by (auto simp: valid_hash_iff hex_hash_def BLAKE3_HEX_LEN_def)

lemma le_bytes_length [simp]: "length (le_bytes_u64 w) = 8"
  by (simp add: le_bytes_u64_def)

lemma base_256_inject:
  fixes m n :: nat
  assumes "m < 256 ^ k" "n < 256 ^ k" "\<forall>i<k. m div 256 ^ i mod 256 = n div 256 ^ i mod 256"
  shows "m = n"
  using assms
proof (induction k arbitrary: m n)
  case (Suc k)
  have "m div 256 = n div 256"
  proof (rule Suc.IH)
    show "m div 256 < 256 ^ k" "n div 256 < 256 ^ k" using Suc.prems by (simp_all add: less_mult_imp_div_less mult.commute)
    show "\<forall>i<k. m div 256 div 256 ^ i mod 256 = n div 256 div 256 ^ i mod 256"
      using Suc.prems(3) by (auto simp: div_mult2_eq [symmetric] dest: spec [of _ "Suc _"])
  qed
  moreover have "m mod 256 = n mod 256" using Suc.prems(3) by (auto dest: spec [of _ 0])
  ultimately show ?case by (metis div_mult_mod_eq)
qed simp

lemma le_bytes_inject: "le_bytes_u64 v = le_bytes_u64 w \<longleftrightarrow> v = w"
proof
  assume E: "le_bytes_u64 v = le_bytes_u64 w"
  have "unat v div 256 ^ i mod 256 = unat w div 256 ^ i mod 256" if "i < 8" for i
  proof -
    have "char_of (unat v div 256 ^ i mod 256) = (char_of (unat w div 256 ^ i mod 256) :: char)"
      using arg_cong [OF E, of "\<lambda>l. l ! i"] that by (simp add: le_bytes_u64_def)
    then show ?thesis by (metis char_of_eq_iff mod_mod_trivial of_char_of)
  qed
  then have "unat v = unat w"
    using base_256_inject [of "unat v" 8 "unat w"] unsigned_less [of v, where 'a = nat] unsigned_less [of w, where 'a = nat]
    by simp
  then show "v = w" by (rule unsigned_word_eqI)
qed simp

text \<open>The manifest identifier's input determines the chunks.\<close>

lemma manifest_input_inject:
  assumes "valid_hashes (map cmc_hash cs)" "valid_hashes (map cmc_hash ds)"
    and "concat (map manifest_chunk_input cs) = concat (map manifest_chunk_input ds)"
  shows "cs = ds"
  using assms
proof (induction cs arbitrary: ds)
  case Nil
  then show ?case by (cases ds) (auto simp: manifest_chunk_input_def valid_hashes_def dest: valid_hash_length)
next
  case (Cons c cs)
  then obtain d ds' where ds: "ds = d # ds'"
    by (cases ds) (auto simp: manifest_chunk_input_def valid_hashes_def dest: valid_hash_length)
  have v: "length (cmc_hash c) = 67" "length (cmc_hash d) = 67"
    using Cons.prems ds by (simp_all add: valid_hashes_def valid_hash_length)
  have E: "cmc_hash c @ le_bytes_u64 (cmc_offset_bytes c) @ le_bytes_u64 (cmc_size_bytes c) @ concat (map manifest_chunk_input cs)
      = cmc_hash d @ le_bytes_u64 (cmc_offset_bytes d) @ le_bytes_u64 (cmc_size_bytes d) @ concat (map manifest_chunk_input ds')"
    using Cons.prems(3) by (simp add: ds manifest_chunk_input_def [of c] manifest_chunk_input_def [of d])
  then have "c = d" "concat (map manifest_chunk_input cs) = concat (map manifest_chunk_input ds')"
    using v by (simp_all add: le_bytes_inject)
  moreover from this Cons have "cs = ds'" by (simp add: ds valid_hashes_def)
  ultimately show ?case by (simp add: ds)
qed

text \<open>The chunk list built from verified chunks.\<close>

lemma manifest_chunks_built:
  assumes "map (download_chunk e fs) hs = map Inr bs" "unat offset + length (concat bs) < 2 ^ 64"
  shows "\<exists>cs. manifest_chunks e fs offset hs = Inr (cs, offset + of_nat (length (concat bs)))
    \<and> map cmc_hash cs = hs \<and> check_offsets offset cs = Inr (offset + of_nat (length (concat bs)))
    \<and> (\<forall>pre. length pre = unat offset \<longrightarrow>
        map (\<lambda>c. take (unat (cmc_size_bytes c)) (drop (unat (cmc_offset_bytes c)) (pre @ concat bs))) cs = bs)"
  using assms
proof (induction hs arbitrary: offset bs)
  case (Cons h hs)
  then obtain b bs' where bs: "bs = b # bs'" and d: "download_chunk e fs h = Inr b"
    and ds: "map (download_chunk e fs) hs = map Inr bs'" by (cases bs) auto
  have len: "unat offset + length b + length (concat bs') < 2 ^ 64" using Cons.prems(2) by (simp add: bs)
  then have ub: "unat (of_nat (length b) :: u64) = length b" by (simp add: unat_of_nat)
  have sum: "sat_add offset (of_nat (length b)) = offset + of_nat (length b)" "unat (offset + of_nat (length b)) = unat offset + length b"
    using len ub by (simp_all add: sat_add_def unat_word_ariths)
  from Cons.IH [OF ds, of "offset + of_nat (length b)"] len sum(2) obtain cs where
    cs: "manifest_chunks e fs (offset + of_nat (length b)) hs = Inr (cs, offset + of_nat (length b) + of_nat (length (concat bs')))"
      "map cmc_hash cs = hs" "check_offsets (offset + of_nat (length b)) cs = Inr (offset + of_nat (length b) + of_nat (length (concat bs')))"
    and slices: "\<forall>pre. length pre = unat offset + length b \<longrightarrow>
      map (\<lambda>c. take (unat (cmc_size_bytes c)) (drop (unat (cmc_offset_bytes c)) (pre @ concat bs'))) cs = bs'" by auto
  let ?c = "\<lparr>cmc_hash = h, cmc_offset_bytes = offset, cmc_size_bytes = of_nat (length b)\<rparr>"
  have "map (\<lambda>c. take (unat (cmc_size_bytes c)) (drop (unat (cmc_offset_bytes c)) (pre @ concat bs))) (?c # cs) = bs"
    if "length pre = unat offset" for pre
    using slices [rule_format, of "pre @ b"] that by (simp add: bs ub)
  moreover have "manifest_chunks e fs offset (h # hs) = Inr (?c # cs, offset + of_nat (length (concat bs)))"
    using cs(1) sum(1) by (simp add: verify_chunk_file_def d bs add.assoc)
  ultimately show ?case using cs sum(1)
    by (intro exI [of _ "?c # cs"]) (auto simp: bs add.assoc)
qed simp

lemma path_of_manifest: "validate_hash_format i = Inr () \<Longrightarrow> manifest_path i = Inr (''manifests/'' @ i @ ''.json'')"
  by (simp add: manifest_path_def)

section \<open>A manifest of one chunk\<close>

definition one_chunk :: "cas_env \<Rightarrow> string \<Rightarrow> cas_manifest_chunk list" where
  "one_chunk e b = [\<lparr>cmc_hash = cas_hash_from_bytes (ce_blake3 e) b, cmc_offset_bytes = 0, cmc_size_bytes = of_nat (length b)\<rparr>]"

definition one_id :: "cas_env \<Rightarrow> string \<Rightarrow> string" where
  "one_id e b = calculate_manifest_id (ce_blake3 e) (one_chunk e b)"

lemma download_same:
  "(\<And>h. fs' (chunk_path h) = fs (chunk_path h)) \<Longrightarrow> download_chunk e fs' h = download_chunk e fs h"
  by (simp add: download_chunk_def)

lemma sat_add_0 [simp]: "sat_add 0 (w :: u64) = w"
proof -
  have "unat w < 2 ^ LENGTH(64)" by (rule unsigned_less)
  then show ?thesis by (simp add: sat_add_def)
qed

lemma one_id_valid: "hex_hash (ce_blake3 e) \<Longrightarrow> validate_hash_format (one_id e b) = Inr ()"
  by (simp add: one_id_def calculate_manifest_id_def hash_is_valid)

lemma create_one:
  assumes e: "hex_hash (ce_blake3 e)" "manifest_codec e" and d: "download_chunk e fs (cas_hash_from_bytes (ce_blake3 e) b) = Inr b"
  shows "\<exists>m. cm_manifest_id m = one_id e b \<and> cm_chunks m = one_chunk e b \<and> cm_total_bytes m = of_nat (length b)
    \<and> create_manifest e now w [cas_hash_from_bytes (ce_blake3 e) b] fs = (case w of Some err \<Rightarrow> (fs, Inl err)
        | None \<Rightarrow> (fs(''manifests/'' @ one_id e b @ ''.json'' \<mapsto> ce_print_manifest e m @ [CHR 0x0A]), Inr m))
    \<and> (\<forall>fs'. fs' (''manifests/'' @ one_id e b @ ''.json'') = Some (ce_print_manifest e m @ [CHR 0x0A])
        \<longrightarrow> fetch_manifest e fs' (one_id e b) = Inr m)"
proof -
  have mc: "manifest_chunks e fs 0 [cas_hash_from_bytes (ce_blake3 e) b] = Inr (one_chunk e b, of_nat (length b))"
    using d by (simp add: verify_chunk_file_def one_chunk_def)
  let ?m = "\<lparr>cm_schema_version = CAS_SCHEMA_VERSION, cm_manifest_id = one_id e b, cm_total_bytes = of_nat (length b),
      cm_chunks = one_chunk e b, cm_created_at = now\<rparr>"
  have v: "validate_hash_format (one_id e b) = Inr ()" by (rule one_id_valid [OF e(1)])
  have "valid_hashes (map cmc_hash (one_chunk e b))"
    using hash_is_valid [OF e(1)] by (simp add: valid_hashes_def one_chunk_def cas_hash_from_bytes_def)
  then have p: "ce_parse_manifest e (ce_print_manifest e ?m @ [CHR 0x0A]) = Inr ?m" using e(2) by (simp add: manifest_codec_def)
  have ok: "cas_manifest_validate (ce_blake3 e) ?m = Inr ()"
    using v by (simp add: cas_manifest_validate_def one_id_def Let_def) (simp add: one_chunk_def)
  have "create_manifest e now w [cas_hash_from_bytes (ce_blake3 e) b] fs = (case w of Some err \<Rightarrow> (fs, Inl err)
        | None \<Rightarrow> (fs(''manifests/'' @ one_id e b @ ''.json'' \<mapsto> ce_print_manifest e ?m @ [CHR 0x0A]), Inr ?m))"
    using mc ok path_of_manifest [OF v]
    by (simp add: create_manifest_def one_id_def [symmetric] write_json_atomically_def Let_def split: option.splits)
  then show ?thesis using v ok p path_of_manifest [OF v] by (intro exI [of _ ?m]) (simp add: fetch_manifest_def)
qed

section \<open>Properties\<close>

text \<open>
  C23. A manifest is a faithful table of contents. When every listed chunk is stored intact, creating a
  manifest succeeds, fetching it by its identifier returns the same manifest, its chunks are the
  listed ones in order, its offsets and sizes cut the concatenated contents exactly at the chunk
  borders and its total is their length; no chunk is touched.
\<close>

theorem manifest_round_trip:
  assumes "hex_hash (ce_blake3 e)" and "manifest_codec e" and "valid_hashes hs"
    and "map (download_chunk e fs) hs = map Inr bs" and "length (concat bs) < 2 ^ 64"
  shows "\<exists>m fs'. create_manifest e now None hs fs = (fs', Inr m) \<and> fetch_manifest e fs' (cm_manifest_id m) = Inr m
    \<and> map cmc_hash (cm_chunks m) = hs \<and> cm_total_bytes m = of_nat (length (concat bs))
    \<and> map (\<lambda>c. take (unat (cmc_size_bytes c)) (drop (unat (cmc_offset_bytes c)) (concat bs))) (cm_chunks m) = bs
    \<and> (\<forall>h. download_chunk e fs' h = download_chunk e fs h)"
proof -
  from manifest_chunks_built [OF assms(4), of 0] assms(5) obtain cs where
    cs: "manifest_chunks e fs 0 hs = Inr (cs, of_nat (length (concat bs)))" "map cmc_hash cs = hs"
      "check_offsets 0 cs = Inr (of_nat (length (concat bs)))"
      "map (\<lambda>c. take (unat (cmc_size_bytes c)) (drop (unat (cmc_offset_bytes c)) (concat bs))) cs = bs" by auto
  let ?i = "calculate_manifest_id (ce_blake3 e) cs"
  let ?m = "\<lparr>cm_schema_version = CAS_SCHEMA_VERSION, cm_manifest_id = ?i, cm_total_bytes = of_nat (length (concat bs)),
      cm_chunks = cs, cm_created_at = now\<rparr>"
  let ?fs = "fs(''manifests/'' @ ?i @ ''.json'' \<mapsto> ce_print_manifest e ?m @ [CHR 0x0A])"
  have i: "validate_hash_format ?i = Inr ()" using hash_is_valid [OF assms(1)] by (simp add: calculate_manifest_id_def)
  have ok: "cas_manifest_validate (ce_blake3 e) ?m = Inr ()" using i cs(3) by (simp add: cas_manifest_validate_def Let_def)
  have create: "create_manifest e now None hs fs = (?fs, Inr ?m)"
    using cs(1) ok path_of_manifest [OF i] by (simp add: create_manifest_def write_json_atomically_def Let_def)
  have "ce_parse_manifest e (ce_print_manifest e ?m @ [CHR 0x0A]) = Inr ?m"
    using assms(2,3) cs(2) by (simp add: manifest_codec_def)
  then have "fetch_manifest e ?fs ?i = Inr ?m" using i ok path_of_manifest [OF i] by (simp add: fetch_manifest_def)
  moreover have "download_chunk e ?fs h = download_chunk e fs h" for h
    by (simp add: download_chunk_def chunk_path_def Let_def)
  ultimately show ?thesis using create cs by (intro exI [of _ ?m] exI [of _ ?fs]) simp
qed

text \<open>A sample hash and sample JSON for the witnesses.\<close>

definition ex_blake3 :: "string \<Rightarrow> string" where
  "ex_blake3 b = (let d = dec_nat (length b mod 1000) in replicate (64 - length d) (CHR ''0'') @ d)"

definition ex_print_manifest :: "cas_manifest \<Rightarrow> string" where
  "ex_print_manifest m = print_fields ([dec_u64 (cm_schema_version m), cm_manifest_id m, dec_u64 (cm_total_bytes m),
     dec_u64 (cm_created_at m)]
     @ concat (map (\<lambda>c. [cmc_hash c, dec_u64 (cmc_offset_bytes c), dec_u64 (cmc_size_bytes c)]) (cm_chunks m)))"

fun ex_parse_chunks :: "string list \<Rightarrow> cas_manifest_chunk list result" where
  "ex_parse_chunks (h # a # b # fs) = bind_r (validate_hash_format h) (\<lambda>_. bind_r (ex_parse_chunks fs) (\<lambda>cs.
     Inr (\<lparr>cmc_hash = h, cmc_offset_bytes = of_nat (dec_value a), cmc_size_bytes = of_nat (dec_value b)\<rparr> # cs)))"
| "ex_parse_chunks fs = Inr []"

definition ex_parse_manifest :: "string \<Rightarrow> cas_manifest result" where
  "ex_parse_manifest t = (case parse_fields (butlast t) of
       v # i # n # now # fs \<Rightarrow> bind_r (ex_parse_chunks fs) (\<lambda>cs. Inr \<lparr>cm_schema_version = of_nat (dec_value v),
         cm_manifest_id = i, cm_total_bytes = of_nat (dec_value n), cm_chunks = cs, cm_created_at = of_nat (dec_value now)\<rparr>)
     | _ \<Rightarrow> Inl (Json ''not a manifest''))"

definition ex_cas_env :: cas_env where
  "ex_cas_env = \<lparr>ce_blake3 = ex_blake3, ce_print_manifest = ex_print_manifest, ce_parse_manifest = ex_parse_manifest,
     ce_print_root = (\<lambda>r. print_fields [crr_root_id r, crr_manifest_id r, dec_u64 (crr_created_at r)]),
     ce_parse_root = (\<lambda>_. Inl (Json ''unused'')), ce_not_found = ''No such file or directory''\<rparr>"

lemma ex_blake3_hex: "hex_hash ex_blake3"
proof -
  have "length (dec_nat (n mod 1000)) \<le> 64" "list_all is_lower_hexdigit (dec_nat (n mod 1000))" for n
    using dec_nat_length [of 3 "n mod 1000"] dec_nat_digits [of "n mod 1000"]
    by (auto simp: list_all_iff is_lower_hexdigit_def)
  then show ?thesis
    by (auto simp: hex_hash_def ex_blake3_def Let_def BLAKE3_HEX_LEN_def list_all_iff is_lower_hexdigit_def is_ascii_digit_def)
qed

lemma ex_parse_print_chunks:
  "valid_hashes (map cmc_hash cs) \<Longrightarrow> ex_parse_chunks
     (concat (map (\<lambda>c. [cmc_hash c, dec_u64 (cmc_offset_bytes c), dec_u64 (cmc_size_bytes c)]) cs)) = Inr cs"
  by (induction cs) (auto simp: valid_hashes_def dec_u64_def dec_nat_value)

lemma ex_parsed_chunks_valid: "ex_parse_chunks fs = Inr cs \<Longrightarrow> valid_hashes (map cmc_hash cs)"
  by (induction fs arbitrary: cs rule: ex_parse_chunks.induct) (auto simp: valid_hashes_def tx_simps)

lemma ex_manifest_codec: "manifest_codec ex_cas_env"
  unfolding manifest_codec_def
  by (auto simp: ex_cas_env_def ex_parse_manifest_def ex_print_manifest_def parse_print_fields ex_parse_print_chunks
      dec_u64_def dec_nat_value tx_simps ex_parse_print_chunks [unfolded dec_u64_def]
      split: list.splits dest: ex_parsed_chunks_valid)

definition ex_cas_files :: cas_files where
  "ex_cas_files = [chunk_path (cas_hash_from_bytes ex_blake3 ''first'') \<mapsto> ''first'',
     chunk_path (cas_hash_from_bytes ex_blake3 ''second'') \<mapsto> ''second'']"

lemma ex_hashes:
  "ex_blake3 ''first'' = replicate 63 (CHR ''0'') @ ''5''" "ex_blake3 ''second'' = replicate 63 (CHR ''0'') @ ''6''"
  "ex_blake3 ''damage'' = replicate 63 (CHR ''0'') @ ''6''"
  by (simp_all add: ex_blake3_def dec_nat.simps Let_def char_of_def) (code_simp)+

lemma ex_download:
  "download_chunk ex_cas_env ex_cas_files (cas_hash_from_bytes ex_blake3 ''first'') = Inr ''first''"
  "download_chunk ex_cas_env ex_cas_files (cas_hash_from_bytes ex_blake3 ''second'') = Inr ''second''"
  by (simp_all add: download_chunk_def ex_cas_files_def ex_cas_env_def cas_hash_from_bytes_def ex_hashes chunk_path_def
      CAS_HASH_PREFIX_def eval_nat_numeral)

theorem manifest_round_trip_witness:
  "\<exists>m fs'. create_manifest ex_cas_env 7 None
        [cas_hash_from_bytes ex_blake3 ''first'', cas_hash_from_bytes ex_blake3 ''second''] ex_cas_files = (fs', Inr m)
      \<and> fetch_manifest ex_cas_env fs' (cm_manifest_id m) = Inr m \<and> cm_total_bytes m = 11"
proof -
  let ?hs = "[cas_hash_from_bytes ex_blake3 ''first'', cas_hash_from_bytes ex_blake3 ''second'']"
  have h: "hex_hash (ce_blake3 ex_cas_env)" using ex_blake3_hex by (simp add: ex_cas_env_def)
  have v: "valid_hashes ?hs" using hash_is_valid [OF ex_blake3_hex] by (simp add: valid_hashes_def cas_hash_from_bytes_def)
  have d: "map (download_chunk ex_cas_env ex_cas_files) ?hs = map Inr [''first'', ''second'']" by (simp add: ex_download)
  have "length (concat [''first'', ''second'']) < 2 ^ 64" by simp
  from manifest_round_trip [OF h ex_manifest_codec v d this, of 7] show ?thesis by auto
qed

text \<open>
  A manifest identifier names one content. Two manifests fetched under the same identifier, from
  any two states of any stores, list the same chunks with the same offsets and sizes, and a chunk
  that downloads from both has the same bytes, unless BLAKE3 collides on the data at hand.
\<close>

theorem manifest_id_names_content:
  assumes "manifest_codec e" and "fetch_manifest e fs i = Inr m" and "fetch_manifest e fs' i = Inr m'"
    and "inj_on (ce_blake3 e) A" and "manifest_id_input (cm_chunks m) \<in> A" "manifest_id_input (cm_chunks m') \<in> A"
  shows "cm_chunks m = cm_chunks m' \<and> cm_total_bytes m = cm_total_bytes m'
    \<and> (\<forall>h b b'. download_chunk e fs h = Inr b \<and> download_chunk e fs' h = Inr b' \<and> b \<in> A \<and> b' \<in> A \<longrightarrow> b = b')"
proof -
  have v: "valid_hashes (map cmc_hash (cm_chunks m))" "valid_hashes (map cmc_hash (cm_chunks m'))"
    using assms(1-3) by (auto simp: fetch_manifest_def tx_simps manifest_codec_def split: option.splits)
  have i: "i = calculate_manifest_id (ce_blake3 e) (cm_chunks m)" "i = calculate_manifest_id (ce_blake3 e) (cm_chunks m')"
    and t: "check_offsets 0 (cm_chunks m) = Inr (cm_total_bytes m)" "check_offsets 0 (cm_chunks m') = Inr (cm_total_bytes m')"
    using assms(2,3) by (auto simp: fetch_manifest_def cas_manifest_validate_def Let_def tx_simps)
  have "ce_blake3 e (manifest_id_input (cm_chunks m)) = ce_blake3 e (manifest_id_input (cm_chunks m'))"
    using i by (simp add: calculate_manifest_id_def)
  with assms(4-6) have "manifest_id_input (cm_chunks m) = manifest_id_input (cm_chunks m')" by (simp add: inj_on_eq_iff)
  then have c: "cm_chunks m = cm_chunks m'" using v by (simp add: manifest_id_input_def manifest_input_inject)
  moreover have "b = b'" if "download_chunk e fs h = Inr b" "download_chunk e fs' h = Inr b'" "b \<in> A" "b' \<in> A" for h b b'
  proof -
    have "ce_blake3 e b = ce_blake3 e b'" using that(1,2)
      by (auto simp: download_chunk_def cas_hash_from_bytes_def Let_def split: option.splits if_splits)
    then show ?thesis using assms(4) that(3,4) by (simp add: inj_on_eq_iff)
  qed
  ultimately show ?thesis using t by auto
qed

theorem manifest_id_names_content_witness:
  "\<exists>m m' f f'. create_manifest ex_cas_env 7 None [] Map.empty = (f, Inr m)
     \<and> create_manifest ex_cas_env 9 None [] Map.empty = (f', Inr m') \<and> m \<noteq> m'
     \<and> cm_manifest_id m' = cm_manifest_id m \<and> cm_chunks m = cm_chunks m'"
proof -
  let ?m = "\<lambda>now. \<lparr>cm_schema_version = 1, cm_manifest_id = calculate_manifest_id ex_blake3 [], cm_total_bytes = 0, cm_chunks = [],
      cm_created_at = now\<rparr>"
  let ?i = "calculate_manifest_id ex_blake3 []"
  let ?fs = "\<lambda>now. [''manifests/'' @ ?i @ ''.json'' \<mapsto> ex_print_manifest (?m now) @ [CHR 0x0A]]"
  have i: "validate_hash_format ?i = Inr ()" using hash_is_valid [OF ex_blake3_hex] by (simp add: calculate_manifest_id_def)
  have p: "ex_parse_manifest (ex_print_manifest (?m now) @ [CHR 0x0A]) = Inr (?m now)" for now
    using ex_manifest_codec by (simp add: manifest_codec_def ex_cas_env_def valid_hashes_def)
  have ok: "cas_manifest_validate ex_blake3 (?m now) = Inr ()" for now
    using i by (simp add: cas_manifest_validate_def Let_def CAS_SCHEMA_VERSION_def)
  have f: "fetch_manifest ex_cas_env (?fs now) ?i = Inr (?m now)" for now
    using i ok p path_of_manifest [OF i] by (simp add: fetch_manifest_def ex_cas_env_def)
  have c: "create_manifest ex_cas_env now None [] Map.empty = (?fs now, Inr (?m now))" for now
    using ok path_of_manifest [OF i] by (simp add: create_manifest_def write_json_atomically_def ex_cas_env_def Let_def CAS_SCHEMA_VERSION_def)
  have "cm_chunks (?m 7) = cm_chunks (?m 9)"
    using manifest_id_names_content [OF ex_manifest_codec f f, of "{manifest_id_input []}"] by simp
  then show ?thesis using c
    by (intro exI [of _ "?m 7"] exI [of _ "?m 9"] exI [of _ "?fs 7"] exI [of _ "?fs 9"]) simp
qed

text \<open>
  A damaged chunk cannot be repaired through the store. Once the file of a chunk holds other
  bytes, the store reports the chunk as missing, yet every upload of the right bytes fails and
  leaves the damaged file in place.
\<close>

theorem damaged_chunk_blocks_upload:
  assumes "fs (chunk_path (cas_hash_from_bytes (ce_blake3 e) b)) = Some d"
    and "ce_blake3 e d \<noteq> ce_blake3 e b"
  shows "missing_chunks e fs [cas_hash_from_bytes (ce_blake3 e) b] = [cas_hash_from_bytes (ce_blake3 e) b]
    \<and> (\<exists>err. upload_chunk e w b (cas_hash_from_bytes (ce_blake3 e) b) fs = (fs, Inl err))"
  using assms
  by (simp add: missing_chunks_def upload_chunk_def verify_chunk_file_def download_chunk_def cas_hash_from_bytes_def Let_def)

theorem damaged_chunk_blocks_upload_witness:
  "\<exists>err. upload_chunk ex_cas_env None ''first'' (cas_hash_from_bytes ex_blake3 ''first'')
     [chunk_path (cas_hash_from_bytes ex_blake3 ''first'') \<mapsto> ''damage'']
   = ([chunk_path (cas_hash_from_bytes ex_blake3 ''first'') \<mapsto> ''damage''], Inl err)"
proof -
  have b: "ce_blake3 ex_cas_env = ex_blake3" by (simp add: ex_cas_env_def)
  have "ex_blake3 ''damage'' \<noteq> ex_blake3 ''first''" by (simp add: ex_hashes)
  then show ?thesis
    using damaged_chunk_blocks_upload [where e = ex_cas_env and b = "''first''" and d = "''damage''" and w = None
        and fs = "[chunk_path (cas_hash_from_bytes ex_blake3 ''first'') \<mapsto> ''damage'']"] by (simp add: b)
qed

end
