(* ===== verification/Data_Plane.thy ===== *)
theory Data_Plane
  imports Local_Config Path_Policy Rust_Text
begin

text \<open>
  What a transfer of snapshot objects is checked against, \<open>data_plane.rs\<close>, and the choice of its
  route, \<open>route_selection.rs\<close>. The output of a Git command is an argument.
\<close>

section \<open>Policy and requests\<close>

definition DEVRELAY_REF_NAMESPACE :: string where
  "DEVRELAY_REF_NAMESPACE = ''refs/devrelay/''"

definition DEVRELAY_SNAPSHOT_REF_NAMESPACE :: string where
  "DEVRELAY_SNAPSHOT_REF_NAMESPACE = ''refs/devrelay/snapshots/''"

record data_plane_policy =
  dp_allowed_ref_namespace :: string
  dp_snapshot_ref_namespace :: string
  dp_max_object_bytes :: u64
  dp_repository_quota_bytes :: u64

definition default_data_plane_policy :: data_plane_policy where
  "default_data_plane_policy = \<lparr>dp_allowed_ref_namespace = DEVRELAY_REF_NAMESPACE,
     dp_snapshot_ref_namespace = DEVRELAY_SNAPSHOT_REF_NAMESPACE, dp_max_object_bytes = 128 * 1024 * 1024,
     dp_repository_quota_bytes = 10 * 1024 * 1024 * 1024\<rparr>"

record ref_spec =
  rs_source :: string
  rs_destination :: string

datatype data_plane_operation = FetchSnapshot | PushSnapshot

fun data_plane_operation_as_str :: "data_plane_operation \<Rightarrow> string" where
  "data_plane_operation_as_str FetchSnapshot = ''fetch-snapshot''"
| "data_plane_operation_as_str PushSnapshot = ''push-snapshot''"

record data_plane_authorization =
  da_project_id :: string
  da_device_id :: string
  da_operation :: data_plane_operation
  da_workspace_ids :: "string list"

record object_inspection =
  oi_object_id :: string
  oi_object_type :: string
  oi_size_bytes :: u64

record repository_size =
  rz_loose_objects_bytes :: u64
  rz_packed_objects_bytes :: u64
  rz_total_bytes :: u64

section \<open>Ref names\<close>

definition permitted_refname :: "string \<Rightarrow> bool" where
  "permitted_refname r \<longleftrightarrow> \<not> (str_contains ''..'' r \<or> ends_with ''.lock'' r \<or> str_contains ''//'' r
     \<or> list_ex (\<lambda>c. c \<le> CHR 0x20 \<or> c = CHR 0x7F) r
     \<or> list_ex (\<lambda>c. c \<in> {CHR ''~'', CHR 0x5E, CHR '':'', CHR ''?'', CHR ''*'', CHR ''['', CHR 0x5C}) r
     \<or> list_ex (starts_with ''.'') (split_on (CHR ''/'') r))"

definition validate_refname :: "string \<Rightarrow> string \<Rightarrow> unit result" where
  "validate_refname r label =
     (if r = [] then Inl (Config (label @ '' ref must not be empty''))
      else if starts_with ''/'' r \<or> ends_with ''/'' r
      then Inl (Config (label @ '' ref '' @ r @ '' must not start or end with /''))
      else if \<not> permitted_refname r then Inl (Config (label @ '' ref '' @ r @ '' is not a permitted Git ref name''))
      else Inr ())"

definition validate_allowed_ref :: "data_plane_policy \<Rightarrow> string \<Rightarrow> string \<Rightarrow> unit result" where
  "validate_allowed_ref p r label =
     bind_r (validate_refname r label) (\<lambda>_.
     if \<not> starts_with (dp_allowed_ref_namespace p) r
     then Inl (Config (label @ '' '' @ r @ '' must stay under '' @ dp_allowed_ref_namespace p))
     else Inr ())"

definition validate_snapshot_ref :: "data_plane_policy \<Rightarrow> string \<Rightarrow> string \<Rightarrow> unit result" where
  "validate_snapshot_ref p r label =
     bind_r (validate_allowed_ref p r label) (\<lambda>_.
     if \<not> starts_with (dp_snapshot_ref_namespace p) r
     then Inl (Config (label @ '' '' @ r @ '' must stay under '' @ dp_snapshot_ref_namespace p))
     else let parts = split_on (CHR ''/'') (drop (length (dp_snapshot_ref_namespace p)) r);
              snapshot_id = (case parts of a # _ \<Rightarrow> a | _ \<Rightarrow> []); leaf = (case parts of _ # b # _ \<Rightarrow> b | _ \<Rightarrow> [])
          in if snapshot_id = [] \<or> leaf \<notin> {''index'', ''work''} \<or> 2 < length parts
             then Inl (Config (label @ '' '' @ r @ '' must target a snapshot index or work ref''))
             else Inr ())"

definition validate_fetch_refspec :: "data_plane_policy \<Rightarrow> ref_spec \<Rightarrow> unit result" where
  "validate_fetch_refspec p s =
     bind_r (validate_allowed_ref p (rs_source s) ''fetch source'') (\<lambda>_.
     validate_allowed_ref p (rs_destination s) ''fetch destination'')"

definition validate_push_refspec :: "data_plane_policy \<Rightarrow> ref_spec \<Rightarrow> unit result" where
  "validate_push_refspec p s =
     bind_r (validate_allowed_ref p (rs_source s) ''push source'') (\<lambda>_.
     validate_snapshot_ref p (rs_destination s) ''push destination'')"

section \<open>Authorization\<close>

definition authorize_git_data_plane_project ::
    "project_registry \<Rightarrow> string \<Rightarrow> string \<Rightarrow> data_plane_operation \<Rightarrow> data_plane_authorization result" where
  "authorize_git_data_plane_project registry project_id device_id operation =
     (if project_id = [] then Inl (Config ''data-plane project authorization requires project_id'')
      else if device_id = [] then Inl (Config ''data-plane project authorization requires device_id'')
      else case bt_get registry project_id of
        None \<Rightarrow> Inl (Config (''data-plane '' @ data_plane_operation_as_str operation @ '' rejected: project ''
                  @ project_id @ '' is not registered''))
      | Some project \<Rightarrow>
          (let ids = sort (map we_workspace_id (filter (\<lambda>w. we_project_id w = pr_project_id project
                  \<and> we_device_id w = device_id \<and> we_state w \<in> {WsActive, WsInactive})
                (map snd (pr_workspaces project))))
           in if ids = []
              then Inl (Config (''data-plane '' @ data_plane_operation_as_str operation @ '' rejected: device ''
                     @ device_id @ '' is not authorized for project '' @ project_id))
              else Inr \<lparr>da_project_id = pr_project_id project, da_device_id = device_id, da_operation = operation,
                     da_workspace_ids = ids\<rparr>))"

section \<open>Objects\<close>

text \<open>\<open>str::parse::<u64>\<close>\<close>

fun parse_digits :: "nat \<Rightarrow> string \<Rightarrow> string + u64" where
  "parse_digits n [] = Inr (of_nat n)"
| "parse_digits n (c # cs) =
     (if \<not> is_ascii_digit c then Inl ''invalid digit found in string''
      else let k = 10 * n + (of_char c - 48)
           in if 2 ^ 64 \<le> k then Inl ''number too large to fit in target type'' else parse_digits k cs)"

definition parse_u64 :: "string \<Rightarrow> string + u64" where
  "parse_u64 s =
     (if s = [] then Inl ''cannot parse integer from empty string''
      else if s \<in> {''+'', ''-''} then Inl ''invalid digit found in string''
      else if hd s = CHR ''+'' then parse_digits 0 (tl s) else parse_digits 0 s)"

definition validate_object_id :: "string \<Rightarrow> unit result" where
  "validate_object_id i =
     (if length i \<notin> {40, 64} \<or> \<not> list_all is_ascii_hexdigit i
      then Inl (Config (''git object id '' @ i @ '' must be a SHA-1 or SHA-256 hex object id'')) else Inr ())"

definition validate_object_size :: "data_plane_policy \<Rightarrow> object_inspection \<Rightarrow> unit result" where
  "validate_object_size p obj =
     (if dp_max_object_bytes p < oi_size_bytes obj
      then Inl (Config (''git object '' @ oi_object_id obj @ '' is '' @ dec_u64 (oi_size_bytes obj) @ '' bytes, above limit ''
             @ dec_u64 (dp_max_object_bytes p)))
      else Inr ())"

definition validate_repository_quota :: "data_plane_policy \<Rightarrow> repository_size \<Rightarrow> unit result" where
  "validate_repository_quota p sz =
     (if dp_repository_quota_bytes p < rz_total_bytes sz
      then Inl (Config (''git object store is '' @ dec_u64 (rz_total_bytes sz) @ '' bytes, above quota ''
             @ dec_u64 (dp_repository_quota_bytes p)))
      else Inr ())"

definition inspect_git_object ::
    "(string list \<Rightarrow> string result) \<Rightarrow> string \<Rightarrow> data_plane_policy \<Rightarrow> object_inspection result" where
  "inspect_git_object run i p =
     bind_r (validate_object_id i) (\<lambda>_.
     bind_r (run [''cat-file'', ''-t'', i]) (\<lambda>object_type.
     bind_r (run [''cat-file'', ''-s'', i]) (\<lambda>raw.
     bind_r (case parse_u64 raw of
         Inl err \<Rightarrow> Inl (Config (''git object '' @ i @ '' reported invalid size '' @ raw @ '': '' @ err))
       | Inr n \<Rightarrow> Inr n) (\<lambda>n.
     let obj = \<lparr>oi_object_id = i, oi_object_type = object_type, oi_size_bytes = n\<rparr>
     in bind_r (validate_object_size p obj) (\<lambda>_. Inr obj)))))"

definition ensure_git_object_available ::
    "(string list \<Rightarrow> string result) \<Rightarrow> string \<Rightarrow> data_plane_policy \<Rightarrow> object_inspection result" where
  "ensure_git_object_available run i p =
     bind_r (validate_object_id i) (\<lambda>_. bind_r (run [''cat-file'', ''-e'', i]) (\<lambda>_. inspect_git_object run i p))"

definition parse_count_objects_value :: "string \<Rightarrow> string \<Rightarrow> u64 result" where
  "parse_count_objects_value key v = (case parse_u64 v of
       Inl err \<Rightarrow> Inl (Config (''git count-objects reported invalid '' @ key @ '' value '' @ v @ '': '' @ err))
     | Inr n \<Rightarrow> Inr n)"

text \<open>The loop over the lines: the last value of \<open>count\<close>, \<open>size\<close> and \<open>size-pack\<close>.\<close>

fun count_lines :: "u64 \<times> u64 \<times> u64 \<Rightarrow> string list \<Rightarrow> (u64 \<times> u64 \<times> u64) result" where
  "count_lines acc [] = Inr acc"
| "count_lines (objects, loose, packed) (l # ls) =
     (if CHR '':'' \<notin> set l then count_lines (objects, loose, packed) ls
      else let key = takeWhile (\<lambda>c. c \<noteq> CHR '':'') l; raw = drop (Suc (length key)) l
           in bind_r (parse_count_objects_value key (trim_str raw)) (\<lambda>v.
                count_lines (if key = ''count'' then (v, loose, packed) else if key = ''size'' then (objects, v, packed)
                  else if key = ''size-pack'' then (objects, loose, v) else (objects, loose, packed)) ls))"

definition inspect_git_repository_size :: "(string list \<Rightarrow> string result) \<Rightarrow> repository_size result" where
  "inspect_git_repository_size run =
     bind_r (run [''count-objects'', ''-v'']) (\<lambda>out.
     bind_r (count_lines (0, 0, 0) (str_lines out)) (\<lambda>(objects, loose_kib, packed_kib).
     let loose = max (sat_mul loose_kib 1024) objects; packed = sat_mul packed_kib 1024
     in Inr \<lparr>rz_loose_objects_bytes = loose, rz_packed_objects_bytes = packed, rz_total_bytes = sat_add loose packed\<rparr>))"

definition verify_git_repository_integrity :: "(string list \<Rightarrow> string result) \<Rightarrow> unit result" where
  "verify_git_repository_integrity run = bind_r (run [''fsck'', ''--strict'', ''--no-progress'']) (\<lambda>_. Inr ())"

section \<open>Routes\<close>

datatype transfer_route = DirectPeer | AnchorCache | SourceRequired

record route_measurements =
  rm_source_online :: bool
  rm_anchor_available :: bool
  rm_anchor_has_snapshot :: bool

record route_policy =
  rp_direct_peer_enabled :: bool
  rp_anchor_cache_enabled :: bool
  rp_require_source :: bool

definition default_route_policy :: route_policy where
  "default_route_policy = \<lparr>rp_direct_peer_enabled = True, rp_anchor_cache_enabled = True, rp_require_source = False\<rparr>"

record route_metrics =
  rt_source_online :: bool
  rt_anchor_available :: bool
  rt_anchor_has_snapshot :: bool
  rt_direct_peer_enabled :: bool
  rt_anchor_cache_enabled :: bool
  rt_require_source :: bool
  rt_fallback_candidate :: "transfer_route option"
  rt_failed_route :: "transfer_route option"

record route_decision =
  rd_route :: transfer_route
  rd_available :: bool
  rd_explanation :: string
  rd_fallback_route :: "transfer_route option"
  rd_metrics :: route_metrics

text \<open>A probe is \<open>None\<close> when the repository is not given.\<close>

definition measure_snapshot_route ::
    "bool option \<Rightarrow> (bool \<times> bool \<times> bool) option \<Rightarrow> route_measurements" where
  "measure_snapshot_route source_git_dir anchor =
     \<lparr>rm_source_online = (source_git_dir = Some True),
      rm_anchor_available = (case anchor of None \<Rightarrow> False | Some (head_exists, git_dir, _) \<Rightarrow> head_exists \<and> git_dir),
      rm_anchor_has_snapshot = (case anchor of None \<Rightarrow> False | Some (_, _, verified) \<Rightarrow> verified)\<rparr>"

definition direct_peer_ready :: "route_measurements \<Rightarrow> route_policy \<Rightarrow> bool" where
  "direct_peer_ready m p \<longleftrightarrow> rp_direct_peer_enabled p \<and> rm_source_online m"

definition anchor_cache_ready :: "route_measurements \<Rightarrow> route_policy \<Rightarrow> bool" where
  "anchor_cache_ready m p \<longleftrightarrow> rp_anchor_cache_enabled p \<and> rm_anchor_available m \<and> rm_anchor_has_snapshot m"

definition decision ::
    "transfer_route \<Rightarrow> bool \<Rightarrow> string \<Rightarrow> transfer_route option \<Rightarrow> route_measurements \<Rightarrow> route_policy
      \<Rightarrow> transfer_route option \<Rightarrow> route_decision" where
  "decision r a explanation fallback m p failed = \<lparr>rd_route = r, rd_available = a, rd_explanation = explanation,
     rd_fallback_route = fallback, rd_metrics = \<lparr>rt_source_online = rm_source_online m,
       rt_anchor_available = rm_anchor_available m, rt_anchor_has_snapshot = rm_anchor_has_snapshot m,
       rt_direct_peer_enabled = rp_direct_peer_enabled p, rt_anchor_cache_enabled = rp_anchor_cache_enabled p,
       rt_require_source = rp_require_source p,
       rt_fallback_candidate = fallback, rt_failed_route = failed\<rparr>\<rparr>"

definition select_snapshot_route_inner ::
    "route_measurements \<Rightarrow> route_policy \<Rightarrow> transfer_route option \<Rightarrow> route_decision" where
  "select_snapshot_route_inner m p failed =
     (if rp_require_source p
      then decision SourceRequired (direct_peer_ready m p)
             ''source-required policy selected; cached anchor data will not be used'' None m p failed
      else if direct_peer_ready m p
      then decision DirectPeer True ''source is online; direct peer route selected''
             (if anchor_cache_ready m p then Some AnchorCache else None) m p failed
      else if anchor_cache_ready m p
      then decision AnchorCache True ''source is offline; anchor cache has the snapshot'' None m p failed
      else decision SourceRequired False ''source is required because no usable cached snapshot is available''
             None m p failed)"

definition select_snapshot_route :: "route_measurements \<Rightarrow> route_policy \<Rightarrow> route_decision" where
  "select_snapshot_route m p = select_snapshot_route_inner m p None"

definition select_snapshot_route_after_failure ::
    "route_measurements \<Rightarrow> route_policy \<Rightarrow> transfer_route \<Rightarrow> route_decision" where
  "select_snapshot_route_after_failure m p failed =
     (if \<not> rp_require_source p \<and> failed = DirectPeer \<and> anchor_cache_ready m p
      then decision AnchorCache True ''direct peer route failed; falling back to anchor cache'' None m p (Some failed)
      else if \<not> rp_require_source p \<and> failed = AnchorCache \<and> direct_peer_ready m p
      then decision DirectPeer True ''anchor cache route failed; falling back to direct peer'' None m p (Some failed)
      else decision SourceRequired False
             ''source is required because the selected route failed and no fallback is available'' None m p (Some failed))"

section \<open>Facts\<close>

lemma refname_char_neq [simp]: "CHR ''/'' \<notin> set i \<Longrightarrow> split_on (CHR ''/'') i = [i]"
  by (induction i) auto

lemma contains_dots: "str_contains ''..'' (i @ CHR ''/'' # s) \<longleftrightarrow> str_contains ''..'' i \<or> str_contains ''..'' s"
proof (induction i)
  case Nil
  then show ?case by (simp add: starts_with_def)
next
  case (Cons c i)
  then show ?case by (cases i) (auto simp: starts_with_def)
qed

lemma contains_slashes: "CHR ''/'' \<notin> set i \<Longrightarrow> i \<noteq> [] \<Longrightarrow>
    str_contains ''//'' (i @ CHR ''/'' # s) \<longleftrightarrow> str_contains ''//'' (CHR ''/'' # s)"
proof (induction i)
  case (Cons c i)
  then show ?case by (cases i) (auto simp: starts_with_def)
qed simp

lemma split_two:
  "(\<exists>a b. split_on d s = [a, b] \<and> P a b) \<longleftrightarrow> (\<exists>a b. s = a @ d # b \<and> d \<notin> set a \<and> d \<notin> set b \<and> P a b)"
proof
  assume "\<exists>a b. split_on d s = [a, b] \<and> P a b"
  then obtain a b where ab: "split_on d s = [a, b]" "P a b" by blast
  have parts: "\<forall>w\<in>set (split_on d t). d \<notin> set w" for t
    by (induction t) (auto split: list.splits)
  have "s = a @ d # b" using join_split [of d s] ab(1) by simp
  with ab parts [of s] show "\<exists>a b. s = a @ d # b \<and> d \<notin> set a \<and> d \<notin> set b \<and> P a b" by auto
next
  assume "\<exists>a b. s = a @ d # b \<and> d \<notin> set a \<and> d \<notin> set b \<and> P a b"
  then obtain a b where ab: "s = a @ d # b" "d \<notin> set a" "d \<notin> set b" "P a b" by blast
  have "split_on d b = [b]" using ab(3) by (induction b) auto
  then show "\<exists>a b. split_on d s = [a, b] \<and> P a b" using ab by (simp add: split_line)
qed

text \<open>The characters and shape of one component of a ref name.\<close>

definition plain_component :: "string \<Rightarrow> bool" where
  "plain_component i \<longleftrightarrow> i \<noteq> [] \<and> CHR ''/'' \<notin> set i \<and> \<not> starts_with ''.'' i \<and> \<not> str_contains ''..'' i
     \<and> (\<forall>c\<in>set i. CHR 0x20 < c \<and> c \<notin> {CHR 0x7F, CHR ''~'', CHR 0x5E, CHR '':'', CHR ''?'', CHR ''*'', CHR ''['', CHR 0x5C})"

lemma snapshot_refname_ok:
  assumes "i \<noteq> []" "CHR ''/'' \<notin> set i" "leaf \<in> {''index'', ''work''}"
  shows "validate_refname (''refs/devrelay/snapshots/'' @ i @ ''/'' @ leaf) label = Inr () \<longleftrightarrow> plain_component i"
proof -
  let ?r = "''refs/devrelay/snapshots/'' @ i @ ''/'' @ leaf"
  have dots: "str_contains ''..'' ?r \<longleftrightarrow> str_contains ''..'' i"
    using contains_dots [of i leaf] assms(3) by (auto simp: starts_with_def)
  have slashes: "\<not> str_contains ''//'' ?r"
    using contains_slashes [OF assms(2,1), of leaf] assms by (cases i) (auto simp: starts_with_def)
  have lock: "\<not> ends_with ''.lock'' ?r" "\<not> ends_with ''/'' ?r" "\<not> starts_with ''/'' ?r"
    using assms(3) by (auto simp: ends_with_def starts_with_def)
  have split: "split_on (CHR ''/'') ?r = [''refs'', ''devrelay'', ''snapshots'', i, leaf]"
    using assms(2,3) by (auto simp: split_line)
  have parts: "list_ex (starts_with ''.'') (split_on (CHR ''/'') ?r) \<longleftrightarrow> starts_with ''.'' i"
    unfolding split using assms(3) by (auto simp: starts_with_def)
  have low: "list_ex (\<lambda>c. c \<le> CHR 0x20 \<or> c = CHR 0x7F) ?r \<longleftrightarrow> list_ex (\<lambda>c. c \<le> CHR 0x20 \<or> c = CHR 0x7F) i"
    using assms(3) by (auto simp: less_eq_char_def)
  have special: "list_ex (\<lambda>c. c \<in> {CHR ''~'', CHR 0x5E, CHR '':'', CHR ''?'', CHR ''*'', CHR ''['', CHR 0x5C}) ?r
      \<longleftrightarrow> list_ex (\<lambda>c. c \<in> {CHR ''~'', CHR 0x5E, CHR '':'', CHR ''?'', CHR ''*'', CHR ''['', CHR 0x5C}) i"
    using assms(3) by auto
  have "permitted_refname ?r \<longleftrightarrow> plain_component i"
    unfolding permitted_refname_def plain_component_def dots parts low special
    using slashes lock assms(1,2) by (auto simp: list_ex_iff not_le)
  then show ?thesis using lock by (simp add: validate_refname_def)
qed

section \<open>Properties\<close>

text \<open>
  A push can only write snapshot refs. A push is accepted exactly when its source is an allowed ref
  and its destination is the index or the work ref of one snapshot identifier: a single component
  with no separator, no leading or double dot and none of the characters Git forbids.
\<close>

theorem push_writes_snapshot_refs:
  "validate_push_refspec default_data_plane_policy s = Inr () \<longleftrightarrow>
     validate_allowed_ref default_data_plane_policy (rs_source s) ''push source'' = Inr ()
     \<and> (\<exists>i leaf. rs_destination s = ''refs/devrelay/snapshots/'' @ i @ ''/'' @ leaf
          \<and> leaf \<in> {''index'', ''work''} \<and> plain_component i)"
proof -
  let ?p = default_data_plane_policy and ?l = "''push destination''"
  have "validate_snapshot_ref ?p r ?l = Inr () \<longleftrightarrow>
      (\<exists>i leaf. r = ''refs/devrelay/snapshots/'' @ i @ ''/'' @ leaf \<and> leaf \<in> {''index'', ''work''} \<and> plain_component i)"
    (is "?L \<longleftrightarrow> ?R") for r
  proof
    assume L: ?L
    then obtain t where r: "r = ''refs/devrelay/snapshots/'' @ t" and v: "validate_refname r ?l = Inr ()"
      by (auto simp: validate_snapshot_ref_def validate_allowed_ref_def tx_simps starts_with_iff default_data_plane_policy_def
          DEVRELAY_SNAPSHOT_REF_NAMESPACE_def)
    have "\<exists>a b. split_on (CHR ''/'') t = [a, b] \<and> a \<noteq> [] \<and> b \<in> {''index'', ''work''}"
      using L unfolding r
      by (auto simp: validate_snapshot_ref_def tx_simps default_data_plane_policy_def DEVRELAY_SNAPSHOT_REF_NAMESPACE_def
          Let_def split: list.splits if_splits)
    then obtain i leaf where t: "t = i @ CHR ''/'' # leaf" "CHR ''/'' \<notin> set i" "i \<noteq> []" "leaf \<in> {''index'', ''work''}"
      unfolding split_two by blast
    with v snapshot_refname_ok [OF t(3,2,4), of ?l] show ?R by (auto simp: r)
  next
    assume ?R
    then obtain i leaf where r: "r = ''refs/devrelay/snapshots/'' @ i @ ''/'' @ leaf" and leaf: "leaf \<in> {''index'', ''work''}"
      and i: "plain_component i" by blast
    have "i \<noteq> []" "CHR ''/'' \<notin> set i" using i by (simp_all add: plain_component_def)
    moreover have "split_on (CHR ''/'') (i @ ''/'' @ leaf) = [i, leaf]" using leaf calculation(2) by (auto simp: split_line)
    ultimately show ?L using snapshot_refname_ok [OF _ _ leaf, of i ?l] i leaf
      by (auto simp: r validate_snapshot_ref_def validate_allowed_ref_def default_data_plane_policy_def
          DEVRELAY_SNAPSHOT_REF_NAMESPACE_def DEVRELAY_REF_NAMESPACE_def Let_def starts_with_def)
  qed
  then show ?thesis by (auto simp: validate_push_refspec_def tx_simps)
qed

text \<open>
  The announced fallback is what a failure selects. Whatever is measured, the fallback a route
  decision announces is exactly the route chosen, and available, once the selected route has
  failed; an available route is one whose peer or cache is ready, and a policy that requires the
  source is never served from the cache.
\<close>

theorem fallback_is_taken:
  "(rd_fallback_route (select_snapshot_route m p) = Some r \<longleftrightarrow>
      rd_available (select_snapshot_route_after_failure m p (rd_route (select_snapshot_route m p)))
      \<and> rd_route (select_snapshot_route_after_failure m p (rd_route (select_snapshot_route m p))) = r)
   \<and> (rd_available (select_snapshot_route m p) \<longleftrightarrow>
      direct_peer_ready m p \<or> \<not> rp_require_source p \<and> anchor_cache_ready m p)
   \<and> (rd_route (select_snapshot_route m p) = AnchorCache \<longleftrightarrow>
      \<not> rp_require_source p \<and> \<not> direct_peer_ready m p \<and> anchor_cache_ready m p)"
  by (auto simp: select_snapshot_route_def select_snapshot_route_inner_def select_snapshot_route_after_failure_def decision_def)

end
