(* ===== verification/Home_Paths.thy ===== *)
theory Home_Paths
  imports Identity_Certificates Path_Policy
begin

text \<open>
  The data directory, \<open>home.rs\<close>: how it is found and which paths belong to which project. Paths are
  their text, \<open>path_join\<close> is \<open>Path::join\<close> on Unix; the environment variables and what the file
  system answers are arguments.
\<close>

section \<open>Joining\<close>

definition path_join :: "string \<Rightarrow> string \<Rightarrow> string" where
  "path_join a b =
     (if starts_with ''/'' b then b
      else if a = [] \<or> ends_with ''/'' a then a @ b
      else a @ ''/'' @ b)"

section \<open>The root\<close>

record devrelay_home =
  hm_root :: string

definition DEVRELAY_HOME_ENV :: string where
  "DEVRELAY_HOME_ENV = ''DEVRELAY_HOME''"

definition require_env_path :: "string \<Rightarrow> string option \<Rightarrow> string result" where
  "require_env_path name v = (case v of
       None \<Rightarrow> Inl (Config (name @ '' is not set''))
     | Some s \<Rightarrow> if s = [] then Inl (Config (name @ '' must not be empty'')) else Inr s)"

text \<open>The branch for Unix systems other than macOS.\<close>

definition default_root_from_env :: "string option \<Rightarrow> string option \<Rightarrow> string result" where
  "default_root_from_env home xdg_data_home =
     (case xdg_data_home of
        Some p \<Rightarrow> if p \<noteq> [] then Inr (path_join p ''devrelay'')
          else bind_r (require_env_path ''HOME'' home)
                 (\<lambda>h. Inr (path_join (path_join (path_join h ''.local'') ''share'') ''devrelay''))
      | None \<Rightarrow> bind_r (require_env_path ''HOME'' home)
                 (\<lambda>h. Inr (path_join (path_join (path_join h ''.local'') ''share'') ''devrelay'')))"

definition home_new :: "string \<Rightarrow> devrelay_home" where
  "home_new p = \<lparr>hm_root = p\<rparr>"

definition resolve_from_env_value :: "string option \<Rightarrow> string option \<Rightarrow> string option \<Rightarrow> devrelay_home result" where
  "resolve_from_env_value v home xdg_data_home =
     (case v of
        Some s \<Rightarrow> if s = [] then Inl (Config (DEVRELAY_HOME_ENV @ '' must not be empty'')) else Inr (home_new s)
      | None \<Rightarrow> bind_r (default_root_from_env home xdg_data_home) (\<lambda>r. Inr (home_new r)))"

section \<open>Paths\<close>

definition config_file :: "devrelay_home \<Rightarrow> string" where
  "config_file h = path_join (hm_root h) ''config.toml''"

definition projects_dir :: "devrelay_home \<Rightarrow> string" where
  "projects_dir h = path_join (hm_root h) ''projects''"

definition project_data_dir :: "devrelay_home \<Rightarrow> string \<Rightarrow> string" where
  "project_data_dir h project_id = path_join (projects_dir h) project_id"

definition snapshot_bare_repo_path :: "devrelay_home \<Rightarrow> string \<Rightarrow> string" where
  "snapshot_bare_repo_path h project_id = path_join (project_data_dir h project_id) ''snapshots.git''"

definition metadata_db_path :: "devrelay_home \<Rightarrow> string \<Rightarrow> string" where
  "metadata_db_path h project_id = path_join (project_data_dir h project_id) ''metadata.sqlite''"

definition cas_dir :: "devrelay_home \<Rightarrow> string \<Rightarrow> string" where
  "cas_dir h project_id = path_join (project_data_dir h project_id) ''cas''"

definition plain_text :: "string \<Rightarrow> bool" where
  "plain_text v \<longleftrightarrow> v \<noteq> [] \<and> list_all (\<lambda>b. is_ascii_alphanumeric b \<or> b = CHR ''-'' \<or> b = CHR ''_'') v"

definition safe_path_component :: "string \<Rightarrow> string" where
  "safe_path_component v =
     (if plain_text v \<and> v \<noteq> ''.'' \<and> v \<noteq> ''..'' then v else ''hex-'' @ hex_encode (map of_char v))"

definition hydration_state_file_name :: "string option \<Rightarrow> string" where
  "hydration_state_file_name w = (case w of
       Some workspace_id \<Rightarrow> ''workspace-'' @ safe_path_component workspace_id @ ''.json''
     | None \<Rightarrow> ''project.json'')"

definition hydration_state_path :: "devrelay_home \<Rightarrow> string \<Rightarrow> string option \<Rightarrow> string" where
  "hydration_state_path h project_id w =
     path_join (path_join (project_data_dir h project_id) ''hydration'') (hydration_state_file_name w)"

definition log_dir :: "devrelay_home \<Rightarrow> string" where
  "log_dir h = path_join (hm_root h) ''logs''"

definition diagnostics_dir :: "devrelay_home \<Rightarrow> string" where
  "diagnostics_dir h = path_join (hm_root h) ''diagnostics''"

definition metrics_dir :: "devrelay_home \<Rightarrow> string" where
  "metrics_dir h = path_join (hm_root h) ''metrics''"

definition anchor_dir :: "devrelay_home \<Rightarrow> string" where
  "anchor_dir h = path_join (hm_root h) ''anchor''"

definition anchor_metadata_db_path :: "devrelay_home \<Rightarrow> string" where
  "anchor_metadata_db_path h = path_join (anchor_dir h) ''metadata.sqlite''"

definition anchor_snapshot_repo_root :: "devrelay_home \<Rightarrow> string" where
  "anchor_snapshot_repo_root h = path_join (anchor_dir h) ''snapshots''"

definition anchor_cas_root :: "devrelay_home \<Rightarrow> string" where
  "anchor_cas_root h = path_join (anchor_dir h) ''cas''"

definition anchor_startup_path :: "devrelay_home \<Rightarrow> string" where
  "anchor_startup_path h = path_join (anchor_dir h) ''startup.json''"

definition identity_dir :: "devrelay_home \<Rightarrow> string" where
  "identity_dir h = path_join (hm_root h) ''identity''"

definition fabric_secret_path :: "devrelay_home \<Rightarrow> string" where
  "fabric_secret_path h = path_join (identity_dir h) ''dev-fabric-secret.json''"

record anchor_layout =
  al_data_dir :: string
  al_metadata_db_path :: string
  al_snapshot_repo_root :: string
  al_cas_root :: string
  al_startup_path :: string

definition anchor_layout_of :: "devrelay_home \<Rightarrow> anchor_layout" where
  "anchor_layout_of h = \<lparr>al_data_dir = anchor_dir h, al_metadata_db_path = anchor_metadata_db_path h,
     al_snapshot_repo_root = anchor_snapshot_repo_root h, al_cas_root = anchor_cas_root h,
     al_startup_path = anchor_startup_path h\<rparr>"

definition agent_socket_path :: "devrelay_home \<Rightarrow> string" where
  "agent_socket_path h = path_join (hm_root h) ''agent.sock''"

definition agent_remote_address_path :: "devrelay_home \<Rightarrow> string" where
  "agent_remote_address_path h = path_join (hm_root h) ''agent-remote.addr''"

section \<open>Creating directories\<close>

text \<open>The directories that exist, and the failure of creating one, if any.\<close>

fun create_all :: "(string \<Rightarrow> dr_error option) \<Rightarrow> string list \<Rightarrow> string set \<Rightarrow> string set \<times> unit result" where
  "create_all mkdir [] ds = (ds, Inr ())"
| "create_all mkdir (d # rest) ds = (case mkdir d of
       Some e \<Rightarrow> (ds, Inl e)
     | None \<Rightarrow> create_all mkdir rest (insert d ds))"

record home_probe =
  hp_metadata :: "bool result"
  hp_probe_write :: "unit result"
  hp_probe_remove :: "unit result"

definition check_permissions :: "home_probe \<Rightarrow> devrelay_home \<Rightarrow> unit result" where
  "check_permissions p h =
     bind_r (hp_metadata p) (\<lambda>is_dir.
     if \<not> is_dir then Inl (Config (hm_root h @ '' is not a directory''))
     else bind_r (hp_probe_write p) (\<lambda>_. hp_probe_remove p))"

definition create_base_dirs ::
    "(string \<Rightarrow> dr_error option) \<Rightarrow> home_probe \<Rightarrow> devrelay_home \<Rightarrow> string set \<Rightarrow> string set \<times> unit result" where
  "create_base_dirs mkdir p h ds =
     (case create_all mkdir [hm_root h, projects_dir h, log_dir h, diagnostics_dir h, metrics_dir h] ds of
        (ds', Inl e) \<Rightarrow> (ds', Inl e)
      | (ds', Inr _) \<Rightarrow> (ds', check_permissions p h))"

definition create_anchor_dirs ::
    "(string \<Rightarrow> dr_error option) \<Rightarrow> home_probe \<Rightarrow> devrelay_home \<Rightarrow> string set \<Rightarrow> string set \<times> unit result" where
  "create_anchor_dirs mkdir p h ds =
     (case create_base_dirs mkdir p h ds of
        (ds', Inl e) \<Rightarrow> (ds', Inl e)
      | (ds', Inr _) \<Rightarrow> create_all mkdir [anchor_dir h, anchor_snapshot_repo_root h, anchor_cas_root h] ds')"

definition create_project_dirs ::
    "(string \<Rightarrow> dr_error option) \<Rightarrow> string \<Rightarrow> devrelay_home \<Rightarrow> string set \<Rightarrow> string set \<times> unit result" where
  "create_project_dirs mkdir project_id h ds = create_all mkdir [project_data_dir h project_id, cas_dir h project_id] ds"

section \<open>Facts\<close>

text \<open>An absolute project id replaces the whole path: nothing keeps its files in the data directory.\<close>

lemma absolute_project_escapes:
  "starts_with ''/'' p \<Longrightarrow> project_data_dir h p = p \<and> create_project_dirs (\<lambda>_. None) p h {} = ({p, cas_dir h p}, Inr ())"
  by (auto simp: project_data_dir_def path_join_def create_project_dirs_def)

lemma hex_digit_char_plain: "unat d < 16 \<Longrightarrow> is_ascii_alphanumeric (hex_digit_char d)"
proof -
  assume d: "unat d < 16"
  have "hex_digit_char d \<in> set hex_digits"
    unfolding hex_digit_char_def by (rule nth_mem) (use d in \<open>simp add: hex_digits_def\<close>)
  then show ?thesis
    by (auto simp: hex_digits_def is_ascii_alphanumeric_def is_ascii_digit_def is_ascii_lower_def less_eq_char_def)
qed

lemma hex_encode_plain: "list_all (\<lambda>b. is_ascii_alphanumeric b \<or> b = CHR ''-'' \<or> b = CHR ''_'') (hex_encode bs)"
  by (induction bs) (auto simp: hex_digit_char_plain byte_less_16)

lemma hex_digit_char_inject: "unat c < 16 \<Longrightarrow> unat d < 16 \<Longrightarrow> hex_digit_char c = hex_digit_char d \<longleftrightarrow> c = d"
  by (metis hex_digit_char option.inject)

lemma hex_encode_inject: "hex_encode as = hex_encode bs \<longleftrightarrow> as = bs"
proof (induction as arbitrary: bs)
  case Nil
  then show ?case by (cases bs) auto
next
  case (Cons a as)
  show ?case
  proof (cases bs)
    case (Cons b bs')
    have "drop_bit 4 a = drop_bit 4 b \<and> a AND 15 = b AND 15 \<longleftrightarrow> a = b" by (metis nibbles_join)
    then show ?thesis using Cons.IH [of bs'] unfolding Cons
      by (auto simp: hex_digit_char_inject byte_less_16)
  qed simp
qed

lemma of_char_inject: "map (of_char :: char \<Rightarrow> u8) v = map of_char w \<longleftrightarrow> v = w"
proof
  have i: "inj (of_char :: char \<Rightarrow> u8)"
  proof (rule injI)
    fix c d :: char assume "(of_char c :: u8) = of_char d"
    then have "unat (of_char c :: u8) = unat (of_char d :: u8)" by simp
    moreover have "unat (of_char x :: u8) = of_char x" for x :: char
    proof -
      have "of_char x mod 256 = (of_char x :: nat)" by (metis of_char_of char_of_char)
      then have "unat (of_nat (of_char x) :: u8) = of_char x" by (simp add: unat_of_nat)
      then show ?thesis by (simp only: of_nat_of_char)
    qed
    ultimately show "c = d" by simp
  qed
  assume "map (of_char :: char \<Rightarrow> u8) v = map of_char w"
  then show "v = w" using i by (simp add: inj_map_eq_map)
qed simp

section \<open>Properties\<close>

text \<open>
  State files stay in place. The file that keeps a workspace's hydration state is a single file
  name of letters, digits, hyphens and underscores, whatever bytes the identifier holds, and two
  workspaces share a file exactly when one identifier is literally the escaped form of the other.
\<close>

theorem state_file_names:
  "(\<exists>name. hydration_state_file_name (Some v) = ''workspace-'' @ name @ ''.json'' \<and> plain_text name)
   \<and> (hydration_state_file_name (Some v) = hydration_state_file_name (Some w) \<longleftrightarrow>
        v = w \<or> plain_text v \<and> \<not> plain_text w \<and> v = ''hex-'' @ hex_encode (map of_char w)
        \<or> plain_text w \<and> \<not> plain_text v \<and> w = ''hex-'' @ hex_encode (map of_char v))"
proof
  have hex: "plain_text (''hex-'' @ hex_encode bs)" for bs
    using hex_encode_plain [of bs]
    by (simp add: plain_text_def is_ascii_alphanumeric_def is_ascii_digit_def is_ascii_lower_def less_eq_char_def)
  have dots: "plain_text x \<Longrightarrow> x \<noteq> ''.'' \<and> x \<noteq> ''..''" for x
    by (auto simp: plain_text_def is_ascii_alphanumeric_def is_ascii_digit_def is_ascii_lower_def is_ascii_upper_def less_eq_char_def)
  show "\<exists>name. hydration_state_file_name (Some v) = ''workspace-'' @ name @ ''.json'' \<and> plain_text name"
    using hex by (simp add: hydration_state_file_name_def safe_path_component_def)
  have "safe_path_component x = (if plain_text x then x else ''hex-'' @ hex_encode (map of_char x))" for x
    using dots by (simp add: safe_path_component_def)
  then show "hydration_state_file_name (Some v) = hydration_state_file_name (Some w) \<longleftrightarrow>
        v = w \<or> plain_text v \<and> \<not> plain_text w \<and> v = ''hex-'' @ hex_encode (map of_char w)
        \<or> plain_text w \<and> \<not> plain_text v \<and> w = ''hex-'' @ hex_encode (map of_char v)"
    by (auto simp: hydration_state_file_name_def hex_encode_inject of_char_inject)
qed

end
