(* ===== verification/Background_Checkpoint.thy ===== *)
theory Background_Checkpoint
  imports Snapshot_Store Debounce Events Local_Config Home_Paths
begin

text \<open>
  The manager that turns debounced changes into snapshots, \<open>background_checkpoint.rs\<close>. It runs on
  the database of the snapshot store; loading the manifest, the Git status, opening the store, the
  capture of the work tree and the import into the anchor repository are arguments. The anchor is
  the list of the snapshots it holds.
\<close>

section \<open>Records\<close>

definition DEFAULT_FAILURE_NOTIFICATION_THRESHOLD :: u32 where
  "DEFAULT_FAILURE_NOTIFICATION_THRESHOLD = 3"

record background_workspace =
  bw_project_id :: string
  bw_workspace_id :: string
  bw_device_id :: "string option"
  bw_repo_path :: string
  bw_manifest_path :: "string option"

definition background_workspace_from_registry :: "project_entry \<Rightarrow> workspace_entry \<Rightarrow> background_workspace" where
  "background_workspace_from_registry p w =
     \<lparr>bw_project_id = pr_project_id p, bw_workspace_id = we_workspace_id w, bw_device_id = Some (we_device_id w),
      bw_repo_path = we_local_path w,
      bw_manifest_path = (case pr_manifest_path p of
          Some m \<Rightarrow> Some m | None \<Rightarrow> Some (path_join (pr_local_path p) ''devrelay.toml''))\<rparr>"

record workspace_checkpoint_state =
  cs_dirty :: bool
  cs_last_observed_generation :: "u64 option"
  cs_last_checkpoint_generation :: "u64 option"
  cs_last_snapshot_id :: "string option"
  cs_last_state_hash :: "string option"
  cs_repeated_failures :: u32

definition default_checkpoint_state :: workspace_checkpoint_state where
  "default_checkpoint_state = \<lparr>cs_dirty = False, cs_last_observed_generation = None,
     cs_last_checkpoint_generation = None, cs_last_snapshot_id = None, cs_last_state_hash = None,
     cs_repeated_failures = 0\<rparr>"

datatype background_outcome =
    OutcomeCreated string string
  | OutcomeUnchanged string string
  | OutcomeFailed string

record background_report =
  br_project_id :: string
  br_workspace_id :: string
  br_source_generation :: u64
  br_outcome :: background_outcome
  br_snapshot :: "stored_snapshot option"
  br_event :: protection_event

record background_manager =
  bm_failure_notification_threshold :: u32
  bm_workspaces :: "(string, workspace_checkpoint_state) btree_map"

definition manager_with_threshold :: "u32 \<Rightarrow> background_manager" where
  "manager_with_threshold t = \<lparr>bm_failure_notification_threshold = max t 1, bm_workspaces = []\<rparr>"

definition manager_new :: background_manager where
  "manager_new = manager_with_threshold DEFAULT_FAILURE_NOTIFICATION_THRESHOLD"

definition workspace_state_of :: "string \<Rightarrow> background_manager \<Rightarrow> workspace_checkpoint_state option" where
  "workspace_state_of w m = bt_get (bm_workspaces m) w"

section \<open>Bookkeeping\<close>

definition protection_status_event ::
    "background_workspace \<Rightarrow> protection_status \<Rightarrow> u64 \<Rightarrow> string option \<Rightarrow> string option \<Rightarrow> u32 \<Rightarrow> bool
      \<Rightarrow> string option \<Rightarrow> protection_event" where
  "protection_status_event w status gen snapshot hash failures visible detail =
     \<lparr>pe_project_id = bw_project_id w, pe_workspace_id = bw_workspace_id w, pe_device_id = bw_device_id w,
      pe_status = status, pe_source_generation = gen, pe_snapshot_id = snapshot, pe_state_hash = hash,
      pe_repeated_failures = failures, pe_user_visible = visible, pe_detail = detail\<rparr>"

definition observe_generation :: "u64 \<Rightarrow> workspace_checkpoint_state \<Rightarrow> workspace_checkpoint_state" where
  "observe_generation gen s =
     s\<lparr>cs_last_observed_generation := Some (max (case cs_last_observed_generation s of None \<Rightarrow> 0 | Some g \<Rightarrow> g) gen)\<rparr>"

definition mark_dirty :: "background_workspace \<Rightarrow> u64 \<Rightarrow> background_manager \<Rightarrow> background_manager \<times> protection_event" where
  "mark_dirty w gen m =
     (let ws = bt_entry default_checkpoint_state (bw_workspace_id w)
                 (\<lambda>s. observe_generation gen (s\<lparr>cs_dirty := True\<rparr>)) (bm_workspaces m);
          failures = cs_repeated_failures (bt_get_or default_checkpoint_state ws (bw_workspace_id w))
      in (m\<lparr>bm_workspaces := ws\<rparr>, protection_status_event w ProtDirty gen None None failures False None))"

definition record_success ::
    "background_workspace \<Rightarrow> u64 \<Rightarrow> string \<Rightarrow> string \<Rightarrow> background_manager \<Rightarrow> background_manager" where
  "record_success w gen snapshot hash m =
     m\<lparr>bm_workspaces := bt_entry default_checkpoint_state (bw_workspace_id w)
         (\<lambda>s. (observe_generation gen (s\<lparr>cs_dirty := False\<rparr>))\<lparr>cs_last_checkpoint_generation := Some gen,
            cs_last_snapshot_id := Some snapshot, cs_last_state_hash := Some hash, cs_repeated_failures := 0\<rparr>)
         (bm_workspaces m)\<rparr>"

definition record_created ::
    "background_workspace \<Rightarrow> u64 \<Rightarrow> stored_snapshot \<Rightarrow> background_manager \<Rightarrow> background_manager \<times> background_report" where
  "record_created w gen s m =
     (let i = sn_snapshot_id s; h = sm_state_hash (sn_metadata s)
      in (record_success w gen i h m,
          \<lparr>br_project_id = bw_project_id w, br_workspace_id = bw_workspace_id w, br_source_generation = gen,
           br_outcome = OutcomeCreated i h, br_snapshot = Some s,
           br_event = protection_status_event w ProtProtected gen (Some i) (Some h) 0 False None\<rparr>))"

definition record_unchanged ::
    "background_workspace \<Rightarrow> u64 \<Rightarrow> string \<Rightarrow> string \<Rightarrow> background_manager \<Rightarrow> background_manager \<times> background_report" where
  "record_unchanged w gen i h m =
     (record_success w gen i h m,
      \<lparr>br_project_id = bw_project_id w, br_workspace_id = bw_workspace_id w, br_source_generation = gen,
       br_outcome = OutcomeUnchanged i h, br_snapshot = None,
       br_event = protection_status_event w ProtUnchanged gen (Some i) (Some h) 0 False None\<rparr>)"

definition record_failure ::
    "background_workspace \<Rightarrow> u64 \<Rightarrow> dr_error \<Rightarrow> background_manager \<Rightarrow> background_manager \<times> background_report" where
  "record_failure w gen err m =
     (let ws = bt_entry default_checkpoint_state (bw_workspace_id w)
                 (\<lambda>s. let t = observe_generation gen (s\<lparr>cs_dirty := True\<rparr>)
                      in t\<lparr>cs_repeated_failures := sat_add (cs_repeated_failures t) 1\<rparr>) (bm_workspaces m);
          failures = cs_repeated_failures (bt_get_or default_checkpoint_state ws (bw_workspace_id w));
          visible = (bm_failure_notification_threshold m \<le> failures); detail = error_to_string err
      in (m\<lparr>bm_workspaces := ws\<rparr>,
          \<lparr>br_project_id = bw_project_id w, br_workspace_id = bw_workspace_id w, br_source_generation = gen,
           br_outcome = OutcomeFailed detail, br_snapshot = None,
           br_event = protection_status_event w ProtFailed gen None None failures visible (Some detail)\<rparr>))"

section \<open>Checkpoints\<close>

record checkpoint_env =
  ke_load_manifest :: "string \<Rightarrow> dr_error + string"
  ke_status :: "string \<Rightarrow> unit result"
  ke_open_store :: "string \<Rightarrow> unit result"
  ke_capture :: "string \<Rightarrow> snapshot_metadata result"
  ke_git :: git_effects
  ke_anchor_import :: "stored_snapshot \<Rightarrow> unit result"

text \<open>A loaded manifest is its project id.\<close>

definition handle_checkpoint_inner ::
    "checkpoint_env \<Rightarrow> u64 \<Rightarrow> background_workspace \<Rightarrow> debounced_checkpoint \<Rightarrow> string list option \<Rightarrow> metadata_db
      \<Rightarrow> metadata_db \<times> string list option \<times> checkpoint_result result" where
  "handle_checkpoint_inner e now w ck anchor db =
     (if dk_workspace_id ck \<noteq> bw_workspace_id w
      then (db, anchor, Inl (Config (''debounced checkpoint for workspace '' @ dk_workspace_id ck
              @ '' does not match registered workspace '' @ bw_workspace_id w)))
      else
        (let path = (case bw_manifest_path w of Some p \<Rightarrow> p | None \<Rightarrow> path_join (bw_repo_path w) ''devrelay.toml'') in
         case ke_load_manifest e path of
           Inl err \<Rightarrow> (db, anchor, Inl (Manifest (''failed to load '' @ path @ '': '' @ error_to_string err)))
         | Inr project \<Rightarrow>
             if project \<noteq> bw_project_id w
             then (db, anchor, Inl (Config (''manifest project_id '' @ project
                     @ '' does not match registered project '' @ bw_project_id w)))
             else (case bind_r (ke_status e (bw_repo_path w)) (\<lambda>_. bind_r (ke_open_store e project)
                     (\<lambda>_. ke_capture e (bw_repo_path w))) of
                 Inl err \<Rightarrow> (db, anchor, Inl err)
               | Inr m \<Rightarrow>
                   (case checkpoint_if_changed (ke_git e) project None now m False
                       (Some (''background-'' @ dec_u64 (dk_source_generation ck))) db of
                      (db', Inl err) \<Rightarrow> (db', anchor, Inl err)
                    | (db', Inr (CkUnchanged i h)) \<Rightarrow> (db', anchor, Inr (CkUnchanged i h))
                    | (db', Inr (CkCreated s)) \<Rightarrow>
                        (case anchor of
                           None \<Rightarrow> (db', anchor, Inr (CkCreated s))
                         | Some held \<Rightarrow>
                             (case ke_anchor_import e s of
                                Inl err \<Rightarrow> (db', anchor, Inl err)
                              | Inr _ \<Rightarrow> (db', Some (held @ [sn_snapshot_id s]), Inr (CkCreated s))))))))"

definition handle_checkpoint_with_anchor ::
    "checkpoint_env \<Rightarrow> u64 \<Rightarrow> background_workspace \<Rightarrow> debounced_checkpoint
      \<Rightarrow> background_manager \<times> metadata_db \<times> string list option
      \<Rightarrow> (background_manager \<times> metadata_db \<times> string list option) \<times> background_report" where
  "handle_checkpoint_with_anchor e now w ck st =
     (case st of (m, db, anchor) \<Rightarrow>
     (case handle_checkpoint_inner e now w ck anchor db of
        (db', anchor', r) \<Rightarrow>
          (let (m', report) = (case r of
               Inr (CkCreated s) \<Rightarrow> record_created w (dk_source_generation ck) s m
             | Inr (CkUnchanged i h) \<Rightarrow> record_unchanged w (dk_source_generation ck) i h m
             | Inl err \<Rightarrow> record_failure w (dk_source_generation ck) err m)
           in ((m', db', anchor'), report))))"

section \<open>Facts\<close>

definition state_after :: "background_workspace \<Rightarrow> background_manager \<Rightarrow> workspace_checkpoint_state" where
  "state_after w m = bt_get_or default_checkpoint_state (bm_workspaces m) (bw_workspace_id w)"

lemma get_or_entry [simp]: "bt_get_or d (bt_entry d k f ws) j = (if j = k then f (bt_get_or d ws k) else bt_get_or d ws j)"
  by (simp add: bt_get_or_def)

lemmas record_defs = record_created_def record_unchanged_def record_failure_def record_success_def Let_def
  protection_status_event_def observe_generation_def state_after_def

lemma created_is_latest:
  assumes I: "snapshot_inv db"
    and run: "checkpoint_if_changed git project fault now m pinned label db = (db', Inr (CkCreated s))"
  shows "snapshot_inv db'" "store_latest_snapshot project db' = Some s" "db_snapshots db' = db_snapshots db @ [s]"
    "sm_state_hash (sn_metadata s) = sm_state_hash m"
proof -
  have st: "store_snapshot git project fault now m pinned label db = (db', Inr s)"
    using run by (auto simp: checkpoint_if_changed_def Let_def tx_simps split: option.splits if_splits prod.splits)
  have A: "snapshot_inv db'" "db_snapshots db' = db_snapshots db @ [s] \<and> sn_project_id s = project"
    using store_snapshot_atomic_aux [OF I st] by (auto simp: tx_simps eq_commute [of "Inr s"])
  then show "snapshot_inv db'" "db_snapshots db' = db_snapshots db @ [s]" by simp_all
  show "store_latest_snapshot project db' = Some s" using A by (auto intro: store_latest_unique)
  show "sm_state_hash (sn_metadata s) = sm_state_hash m" by (rule store_snapshot_InrD [OF st])
qed

lemma unchanged_is_latest:
  assumes "checkpoint_if_changed git project fault now m pinned label db = (db', Inr (CkUnchanged i h))"
  shows "db' = db" "\<exists>s. store_latest_snapshot project db = Some s \<and> sn_snapshot_id s = i \<and> sm_state_hash (sn_metadata s) = h"
  using assms
  by (auto simp: checkpoint_if_changed_def Let_def tx_simps split: option.splits if_splits prod.splits)

lemma inner_created:
  assumes "handle_checkpoint_inner e now w ck anchor db = (db', anchor', Inr (CkCreated s))"
  shows "\<exists>m. checkpoint_if_changed (ke_git e) (bw_project_id w) None now m False
      (Some (''background-'' @ dec_u64 (dk_source_generation ck))) db = (db', Inr (CkCreated s))"
    "anchor' = map_option (\<lambda>held. held @ [sn_snapshot_id s]) anchor"
  using assms
  by (auto simp: handle_checkpoint_inner_def Let_def split: if_splits sum.splits prod.splits checkpoint_result.splits option.splits)

lemma inner_unchanged:
  assumes "handle_checkpoint_inner e now w ck anchor db = (db', anchor', Inr (CkUnchanged i h))"
  shows "\<exists>m. checkpoint_if_changed (ke_git e) (bw_project_id w) None now m False
      (Some (''background-'' @ dec_u64 (dk_source_generation ck))) db = (db', Inr (CkUnchanged i h))"
    "anchor' = anchor"
  using assms
  by (auto simp: handle_checkpoint_inner_def Let_def split: if_splits sum.splits prod.splits checkpoint_result.splits option.splits)

section \<open>Properties\<close>

text \<open>
  C40. Protected means stored. When the manager reports a checkpoint as created or unchanged, its event
  says protected or unchanged and names the snapshot and the state, and that snapshot with that state
  is the latest snapshot of the project in the database; a created one was appended just then and
  handed to the anchor, and the workspace is clean with no failures. A failed checkpoint says failed,
  names no snapshot, leaves the workspace dirty, counts one more failure and is shown to the user
  exactly from the threshold on. The event is for the workspace and its generation, and no other
  workspace is touched.
\<close>

theorem protected_means_stored:
  assumes I: "snapshot_inv db"
    and run: "handle_checkpoint_with_anchor e now w ck (m, db, anchor) = ((m', db', anchor'), rep)"
  shows "(case br_outcome rep of
       OutcomeCreated i h \<Rightarrow> pe_status (br_event rep) = ProtProtected
         \<and> pe_snapshot_id (br_event rep) = Some i \<and> pe_state_hash (br_event rep) = Some h
         \<and> pe_repeated_failures (br_event rep) = 0 \<and> (\<exists>s. store_latest_snapshot (bw_project_id w) db' = Some s \<and> sn_snapshot_id s = i
           \<and> sm_state_hash (sn_metadata s) = h \<and> db_snapshots db' = db_snapshots db @ [s] \<and> br_snapshot rep = Some s
           \<and> anchor' = map_option (\<lambda>held. held @ [i]) anchor)
         \<and> \<not> cs_dirty (state_after w m') \<and> cs_repeated_failures (state_after w m') = 0
         \<and> cs_last_snapshot_id (state_after w m') = Some i
     | OutcomeUnchanged i h \<Rightarrow> pe_status (br_event rep) = ProtUnchanged
         \<and> pe_snapshot_id (br_event rep) = Some i \<and> pe_state_hash (br_event rep) = Some h
         \<and> pe_repeated_failures (br_event rep) = 0 \<and> (\<exists>s. store_latest_snapshot (bw_project_id w) db' = Some s \<and> sn_snapshot_id s = i
           \<and> sm_state_hash (sn_metadata s) = h) \<and> db' = db \<and> anchor' = anchor
         \<and> \<not> cs_dirty (state_after w m') \<and> cs_repeated_failures (state_after w m') = 0
         \<and> cs_last_snapshot_id (state_after w m') = Some i
     | OutcomeFailed d \<Rightarrow> pe_status (br_event rep) = ProtFailed
         \<and> pe_snapshot_id (br_event rep) = None \<and> pe_state_hash (br_event rep) = None \<and> pe_detail (br_event rep) = Some d
         \<and> pe_repeated_failures (br_event rep) = cs_repeated_failures (state_after w m')
         \<and> cs_dirty (state_after w m')
         \<and> cs_repeated_failures (state_after w m') = sat_add (cs_repeated_failures (state_after w m)) 1
         \<and> pe_user_visible (br_event rep) =
             (bm_failure_notification_threshold m \<le> cs_repeated_failures (state_after w m')))
     \<and> pe_project_id (br_event rep) = bw_project_id w \<and> pe_workspace_id (br_event rep) = bw_workspace_id w
     \<and> pe_source_generation (br_event rep) = dk_source_generation ck
     \<and> (\<forall>j. j \<noteq> bw_workspace_id w \<longrightarrow> bt_get (bm_workspaces m') j = bt_get (bm_workspaces m) j)"
proof -
  obtain r where inner: "handle_checkpoint_inner e now w ck anchor db = (db', anchor', r)"
    using run by (auto simp: handle_checkpoint_with_anchor_def split: prod.splits)
  show ?thesis
  proof (cases r)
    case (Inl err)
    then show ?thesis using run inner by (auto simp: handle_checkpoint_with_anchor_def record_defs)
  next
    case (Inr c)
    show ?thesis
    proof (cases c)
      case (CkCreated s)
      note inner = inner [unfolded Inr CkCreated]
      from inner_created(1) [OF inner] obtain mm where
        c: "checkpoint_if_changed (ke_git e) (bw_project_id w) None now mm False
          (Some (''background-'' @ dec_u64 (dk_source_generation ck))) db = (db', Inr (CkCreated s))" ..
      have "(m', rep) = record_created w (dk_source_generation ck) s m"
        using run inner by (simp add: handle_checkpoint_with_anchor_def split: prod.splits)
      then show ?thesis using created_is_latest [OF I c] inner_created(2) [OF inner] by (simp add: record_defs)
    next
      case (CkUnchanged i h)
      note inner = inner [unfolded Inr CkUnchanged]
      from inner_unchanged(1) [OF inner] obtain mm where
        c: "checkpoint_if_changed (ke_git e) (bw_project_id w) None now mm False
          (Some (''background-'' @ dec_u64 (dk_source_generation ck))) db = (db', Inr (CkUnchanged i h))" ..
      have "(m', rep) = record_unchanged w (dk_source_generation ck) i h m"
        using run inner by (simp add: handle_checkpoint_with_anchor_def split: prod.splits)
      then show ?thesis using unchanged_is_latest [OF c] inner_unchanged(2) [OF inner] by (simp add: record_defs)
    qed
  qed
qed

definition ex_workspace :: background_workspace where
  "ex_workspace = \<lparr>bw_project_id = ''p1'', bw_workspace_id = ''w1'', bw_device_id = Some ''d1'', bw_repo_path = ''/src/p1'',
     bw_manifest_path = None\<rparr>"

definition ex_checkpoint :: debounced_checkpoint where
  "ex_checkpoint = \<lparr>dk_workspace_id = ''w1'', dk_source_generation = 4, dk_reason = QuietWindow, dk_paths = []\<rparr>"

definition ex_checkpoint_env :: checkpoint_env where
  "ex_checkpoint_env = \<lparr>ke_load_manifest = (\<lambda>p. if p = ''/src/p1/devrelay.toml'' then Inr ''p1'' else Inl (Io ''missing'')),
     ke_status = (\<lambda>_. Inr ()), ke_open_store = (\<lambda>_. Inr ()), ke_capture = (\<lambda>_. Inr ex_meta), ke_git = ex_git,
     ke_anchor_import = (\<lambda>_. Inl (Io ''offline''))\<rparr>"

theorem protected_means_stored_witness:
  "\<exists>m' db' rep i h s. handle_checkpoint_with_anchor ex_checkpoint_env 200 ex_workspace ex_checkpoint (manager_new, empty_db, None)
        = ((m', db', None), rep)
     \<and> br_outcome rep = OutcomeCreated i h \<and> pe_status (br_event rep) = ProtProtected \<and> store_latest_snapshot ''p1'' db' = Some s \<and> sn_snapshot_id s = i
     \<and> \<not> cs_dirty (state_after ex_workspace m')"
proof -
  have I: "snapshot_inv empty_db" by (simp add: snapshot_inv_def empty_db_def)
  have latest: "store_latest_snapshot ''p1'' empty_db = None"
    by (simp add: store_latest_snapshot_def empty_db_def sql_first_def sql_query_def)
  obtain db' s where run: "checkpoint_if_changed ex_git ''p1'' None 200 ex_meta False
      (Some (''background-'' @ dec_u64 (dk_source_generation ex_checkpoint))) empty_db = (db', Inr (CkCreated s))"
    using latest
    by (simp add: checkpoint_if_changed_def store_snapshot_def ex_meta_valid inject_store_fault_def
        store_insert_snapshot_def insert_snapshot_row_def insert_row_def insert_or_ignore_session_def
        upsert_project_name_def remove_source_snapshot_refs_def run_tx_def ex_git_def Let_def
        empty_db_def update_rows_def)
  have inner: "handle_checkpoint_inner ex_checkpoint_env 200 ex_workspace ex_checkpoint None empty_db
      = (db', None, Inr (CkCreated s))"
    using run by (simp add: handle_checkpoint_inner_def ex_checkpoint_env_def ex_workspace_def ex_checkpoint_def path_join_def
        starts_with_def ends_with_def)
  obtain m' rep where H: "handle_checkpoint_with_anchor ex_checkpoint_env 200 ex_workspace ex_checkpoint
      (manager_new, empty_db, None) = ((m', db', None), rep)"
    and o: "br_outcome rep = OutcomeCreated (sn_snapshot_id s) (sm_state_hash (sn_metadata s))"
    using inner by (simp add: handle_checkpoint_with_anchor_def record_created_def Let_def)
  from protected_means_stored [OF I H] o H show ?thesis by (auto simp: ex_workspace_def)
qed

definition captures :: "checkpoint_env \<Rightarrow> background_workspace \<Rightarrow> snapshot_metadata \<Rightarrow> bool" where
  "captures e w m \<longleftrightarrow>
     ke_load_manifest e (case bw_manifest_path w of Some p \<Rightarrow> p | None \<Rightarrow> path_join (bw_repo_path w) ''devrelay.toml'')
       = Inr (bw_project_id w)
     \<and> ke_status e (bw_repo_path w) = Inr () \<and> ke_open_store e (bw_project_id w) = Inr ()
     \<and> ke_capture e (bw_repo_path w) = Inr m"

text \<open>
  A failed import into the anchor is forgotten. When a snapshot was stored but its import into the
  anchor failed, the checkpoint is reported as failed; the next checkpoint of the same state then
  reports the workspace as unchanged and clean with no failures, although the anchor works again
  and still does not hold the snapshot.
\<close>

theorem failed_anchor_import_is_forgotten:
  assumes I: "snapshot_inv db" and ck: "dk_workspace_id ck = bw_workspace_id w" "dk_workspace_id ck' = bw_workspace_id w"
    and e: "captures e w mm" "ke_anchor_import e s = Inl err"
    and created: "checkpoint_if_changed (ke_git e) (bw_project_id w) None now mm False
        (Some (''background-'' @ dec_u64 (dk_source_generation ck))) db = (db1, Inr (CkCreated s))"
    and e': "captures e' w mm'" "sm_state_hash mm' = sm_state_hash mm" "remove_source_snapshot_refs (ke_git e') None mm' = Inr ()"
  shows "\<exists>m1 r1 m2 r2. handle_checkpoint_with_anchor e now w ck (m, db, Some held) = ((m1, db1, Some held), r1)
    \<and> br_outcome r1 = OutcomeFailed (error_to_string err) \<and> cs_dirty (state_after w m1)
    \<and> handle_checkpoint_with_anchor e' now' w ck' (m1, db1, Some held) = ((m2, db1, Some held), r2)
    \<and> br_outcome r2 = OutcomeUnchanged (sn_snapshot_id s) (sm_state_hash mm)
    \<and> \<not> cs_dirty (state_after w m2) \<and> cs_repeated_failures (state_after w m2) = 0"
proof -
  have 1: "handle_checkpoint_inner e now w ck (Some held) db = (db1, Some held, Inl err)"
    using e ck(1) created by (simp add: handle_checkpoint_inner_def captures_def Let_def)
  have "checkpoint_if_changed (ke_git e') (bw_project_id w) None now' mm' False
        (Some (''background-'' @ dec_u64 (dk_source_generation ck'))) db1
      = (db1, Inr (CkUnchanged (sn_snapshot_id s) (sm_state_hash mm)))"
    using created_is_latest [OF I created] e'(2,3) by (simp add: checkpoint_if_changed_def)
  then have 2: "handle_checkpoint_inner e' now' w ck' (Some held) db1
      = (db1, Some held, Inr (CkUnchanged (sn_snapshot_id s) (sm_state_hash mm)))"
    using e'(1) ck(2) by (simp add: handle_checkpoint_inner_def captures_def Let_def)
  show ?thesis using 1 2 by (auto simp: handle_checkpoint_with_anchor_def record_defs)
qed

end
