(* ===== verification/Anchor_Repo.thy ===== *)
theory Anchor_Repo
  imports Data_Plane Cas_Store Home_Paths Snapshot_Schema
begin

text \<open>
  The anchor's repository of one project, \<open>anchor_snapshot.rs\<close>: the checks around the import and
  the export of a snapshot, the scan for refs without a snapshot and snapshots without refs, and the
  guarded garbage collection. The repository is any type with the Git commands as functions on it:
  \<open>ag_query\<close> the ones that only read, \<open>ag_fetch\<close>, \<open>ag_delete_ref\<close> and \<open>ag_gc\<close> those that write.
\<close>

section \<open>The repository\<close>

record 'g anchor_git =
  ag_query :: "'g \<Rightarrow> string list \<Rightarrow> string result"
  ag_fetch :: "'g \<Rightarrow> (string \<times> string) list \<Rightarrow> 'g \<times> unit result"
  ag_delete_ref :: "'g \<Rightarrow> string \<Rightarrow> 'g \<times> unit result"
  ag_gc :: "'g \<Rightarrow> 'g \<times> unit result"

record anchor_repo =
  ar_project_id :: string
  ar_repo_path :: string
  ar_policy :: data_plane_policy

record anchor_snapshot_ref =
  rf_snapshot_id :: string
  rf_refname :: string

record maintenance_report =
  mr_orphan_refs :: "anchor_snapshot_ref list"
  mr_missing_refs :: "anchor_snapshot_ref list"
  mr_repository_size :: repository_size
  mr_gc_ran :: bool

record serve_plan =
  sp_authorization :: data_plane_authorization
  sp_project_id :: string
  sp_repo_path :: string
  sp_allowed_ref_namespace :: string
  sp_refspecs :: "ref_spec list"

definition validate_anchor_project_id :: "string \<Rightarrow> unit result" where
  "validate_anchor_project_id i =
     (if unsafe_component i
      then Inl (Config (''anchor project_id '' @ i @ '' is not safe for a repository path'')) else Inr ())"

definition anchor_project_snapshot_repo_path :: "devrelay_home \<Rightarrow> string \<Rightarrow> string result" where
  "anchor_project_snapshot_repo_path h i =
     bind_r (validate_anchor_project_id i) (\<lambda>_. Inr (path_join (anchor_snapshot_repo_root h) (i @ ''.git'')))"

text \<open>Opening a repository that must exist: what of the file system is used is whether \<open>HEAD\<close> is there.\<close>

definition open_existing_with_policy ::
    "unit result \<Rightarrow> (string \<Rightarrow> bool) \<Rightarrow> devrelay_home \<Rightarrow> string \<Rightarrow> data_plane_policy \<Rightarrow> anchor_repo result" where
  "open_existing_with_policy dirs exists h i p =
     bind_r dirs (\<lambda>_. bind_r (anchor_project_snapshot_repo_path h i) (\<lambda>path.
     if \<not> exists (path_join path ''HEAD'')
     then Inl (Config (''anchor snapshot repo for project '' @ i @ '' does not exist''))
     else Inr \<lparr>ar_project_id = i, ar_repo_path = path, ar_policy = p\<rparr>))"

definition open_existing ::
    "unit result \<Rightarrow> (string \<Rightarrow> bool) \<Rightarrow> devrelay_home \<Rightarrow> string \<Rightarrow> anchor_repo result" where
  "open_existing dirs exists h i = open_existing_with_policy dirs exists h i default_data_plane_policy"

text \<open>Opening creates a missing repository: \<open>init\<close> is the outcome of making its parent and of \<open>git init --bare\<close>.\<close>

definition ensure_bare_repo :: "(string \<Rightarrow> bool) \<Rightarrow> (string \<Rightarrow> unit result) \<Rightarrow> string \<Rightarrow> unit result" where
  "ensure_bare_repo exists init path = (if exists (path_join path ''HEAD'') then Inr () else init path)"

definition open_with_policy ::
    "unit result \<Rightarrow> (string \<Rightarrow> bool) \<Rightarrow> (string \<Rightarrow> unit result) \<Rightarrow> devrelay_home \<Rightarrow> string \<Rightarrow> data_plane_policy
      \<Rightarrow> anchor_repo result" where
  "open_with_policy dirs exists init h i p =
     bind_r dirs (\<lambda>_. bind_r (anchor_project_snapshot_repo_path h i) (\<lambda>path.
     bind_r (ensure_bare_repo exists init path) (\<lambda>_. Inr \<lparr>ar_project_id = i, ar_repo_path = path, ar_policy = p\<rparr>)))"

definition open_anchor_repo ::
    "unit result \<Rightarrow> (string \<Rightarrow> bool) \<Rightarrow> (string \<Rightarrow> unit result) \<Rightarrow> devrelay_home \<Rightarrow> string \<Rightarrow> anchor_repo result" where
  "open_anchor_repo dirs exists init h i = open_with_policy dirs exists init h i default_data_plane_policy"

section \<open>Refs\<close>

definition index_ref :: "snapshot_metadata \<Rightarrow> string" where
  "index_ref m = ''refs/devrelay/snapshots/'' @ sm_snapshot_id m @ ''/index''"

definition work_ref :: "snapshot_metadata \<Rightarrow> string" where
  "work_ref m = ''refs/devrelay/snapshots/'' @ sm_snapshot_id m @ ''/work''"

definition expected_snapshot_refs :: "string \<Rightarrow> string list" where
  "expected_snapshot_refs i = [DEVRELAY_SNAPSHOT_REF_NAMESPACE @ i @ ''/index'', DEVRELAY_SNAPSHOT_REF_NAMESPACE @ i @ ''/work'']"

definition parse_snapshot_ref :: "string \<Rightarrow> (string \<times> string) option" where
  "parse_snapshot_ref r =
     (if \<not> starts_with DEVRELAY_SNAPSHOT_REF_NAMESPACE r then None
      else case split_on (CHR ''/'') (drop (length DEVRELAY_SNAPSHOT_REF_NAMESPACE) r) of
        [i, kind] \<Rightarrow> if i = [] then None else Some (i, kind)
      | _ \<Rightarrow> None)"

section \<open>Checks\<close>

definition validate_snapshot_metadata :: "anchor_repo \<Rightarrow> snapshot_metadata \<Rightarrow> unit result" where
  "validate_snapshot_metadata a m =
     bind_r (validate_metadata m) (\<lambda>_.
     if sm_project_id m \<noteq> ar_project_id a
     then Inl (Config (''snapshot project_id '' @ sm_project_id m @ '' does not match anchor project_id '' @ ar_project_id a))
     else bind_r (validate_fetch_refspec (ar_policy a) \<lparr>rs_source = index_ref m, rs_destination = index_ref m\<rparr>) (\<lambda>_.
       bind_r (validate_fetch_refspec (ar_policy a) \<lparr>rs_source = work_ref m, rs_destination = work_ref m\<rparr>) (\<lambda>_.
       bind_r (validate_snapshot_ref (ar_policy a) (index_ref m) ''snapshot index ref'') (\<lambda>_.
       validate_snapshot_ref (ar_policy a) (work_ref m) ''snapshot work ref''))))"

definition ensure_snapshot_objects :: "'g anchor_git \<Rightarrow> anchor_repo \<Rightarrow> snapshot_metadata \<Rightarrow> 'g \<Rightarrow> unit result" where
  "ensure_snapshot_objects git a m g =
     bind_r (ag_query git g [''rev-parse'', ''--verify'', index_ref m]) (\<lambda>index_oid.
     bind_r (ag_query git g [''rev-parse'', ''--verify'', work_ref m]) (\<lambda>work_oid.
     bind_r (ensure_git_object_available (ag_query git g) index_oid (ar_policy a)) (\<lambda>_.
     bind_r (ensure_git_object_available (ag_query git g) work_oid (ar_policy a)) (\<lambda>_. Inr ()))))"

definition validate_quota :: "'g anchor_git \<Rightarrow> anchor_repo \<Rightarrow> 'g \<Rightarrow> unit result" where
  "validate_quota git a g =
     bind_r (inspect_git_repository_size (ag_query git g)) (\<lambda>n. validate_repository_quota (ar_policy a) n)"

definition verify_snapshot_available :: "'g anchor_git \<Rightarrow> anchor_repo \<Rightarrow> snapshot_metadata \<Rightarrow> 'g \<Rightarrow> unit result" where
  "verify_snapshot_available git a m g = bind_r (validate_snapshot_metadata a m) (\<lambda>_. ensure_snapshot_objects git a m g)"

section \<open>Import and export\<close>

definition import_snapshot_from_repo :: "'g anchor_git \<Rightarrow> anchor_repo \<Rightarrow> snapshot_metadata \<Rightarrow> 'g \<Rightarrow> 'g \<times> unit result" where
  "import_snapshot_from_repo git a m g =
     (case validate_snapshot_metadata a m of
        Inl e \<Rightarrow> (g, Inl e)
      | Inr _ \<Rightarrow> (case ag_fetch git g [(index_ref m, index_ref m), (work_ref m, work_ref m)] of
          (g', Inl e) \<Rightarrow> (g', Inl e)
        | (g', Inr _) \<Rightarrow> (g', bind_r (ensure_snapshot_objects git a m g') (\<lambda>_. validate_quota git a g'))))"

definition authorize_device :: "anchor_repo \<Rightarrow> project_registry \<Rightarrow> string \<Rightarrow> data_plane_operation \<Rightarrow> data_plane_authorization result" where
  "authorize_device a registry device op = authorize_git_data_plane_project registry (ar_project_id a) device op"

definition import_snapshot_from_repo_authorized ::
    "'g anchor_git \<Rightarrow> anchor_repo \<Rightarrow> snapshot_metadata \<Rightarrow> project_registry \<Rightarrow> string \<Rightarrow> 'g
      \<Rightarrow> 'g \<times> data_plane_authorization result" where
  "import_snapshot_from_repo_authorized git a m registry device g =
     (case authorize_device a registry device PushSnapshot of
        Inl e \<Rightarrow> (g, Inl e)
      | Inr auth \<Rightarrow> (case import_snapshot_from_repo git a m g of
          (g', r) \<Rightarrow> (g', bind_r r (\<lambda>_. Inr auth))))"

text \<open>An export writes to the target's repository, \<open>t\<close>, with the target's Git.\<close>

definition export_snapshot_to_repo ::
    "'g anchor_git \<Rightarrow> anchor_repo \<Rightarrow> snapshot_metadata \<Rightarrow> 'g \<Rightarrow> 't anchor_git \<Rightarrow> 't \<Rightarrow> 't \<times> unit result" where
  "export_snapshot_to_repo git a m g target t =
     (case bind_r (validate_snapshot_metadata a m) (\<lambda>_. ensure_snapshot_objects git a m g) of
        Inl e \<Rightarrow> (t, Inl e)
      | Inr _ \<Rightarrow> ag_fetch target t [(index_ref m, index_ref m), (work_ref m, work_ref m)])"

definition export_snapshot_to_repo_authorized ::
    "'g anchor_git \<Rightarrow> anchor_repo \<Rightarrow> snapshot_metadata \<Rightarrow> project_registry \<Rightarrow> string \<Rightarrow> 'g \<Rightarrow> 't anchor_git \<Rightarrow> 't
      \<Rightarrow> 't \<times> data_plane_authorization result" where
  "export_snapshot_to_repo_authorized git a m registry device g target t =
     (case authorize_device a registry device FetchSnapshot of
        Inl e \<Rightarrow> (t, Inl e)
      | Inr auth \<Rightarrow> (case export_snapshot_to_repo git a m g target t of
          (t', r) \<Rightarrow> (t', bind_r r (\<lambda>_. Inr auth))))"

definition serve_snapshot_bare_repo_authorized ::
    "'g anchor_git \<Rightarrow> anchor_repo \<Rightarrow> snapshot_metadata \<Rightarrow> project_registry \<Rightarrow> string \<Rightarrow> 'g \<Rightarrow> serve_plan result" where
  "serve_snapshot_bare_repo_authorized git a m registry device g =
     bind_r (authorize_device a registry device FetchSnapshot) (\<lambda>auth.
     bind_r (validate_snapshot_metadata a m) (\<lambda>_.
     bind_r (ensure_snapshot_objects git a m g) (\<lambda>_.
     Inr \<lparr>sp_authorization = auth, sp_project_id = ar_project_id a, sp_repo_path = ar_repo_path a,
       sp_allowed_ref_namespace = dp_allowed_ref_namespace (ar_policy a),
       sp_refspecs = [\<lparr>rs_source = index_ref m, rs_destination = index_ref m\<rparr>,
         \<lparr>rs_source = work_ref m, rs_destination = work_ref m\<rparr>]\<rparr>)))"

section \<open>Maintenance\<close>

definition list_snapshot_refs :: "'g anchor_git \<Rightarrow> 'g \<Rightarrow> string list result" where
  "list_snapshot_refs git g =
     bind_r (ag_query git g [''for-each-ref'', ''--format=%(refname)'', ''refs/devrelay/snapshots''])
       (\<lambda>raw. Inr (filter (\<lambda>l. l \<noteq> []) (str_lines raw)))"

definition scan_orphan_snapshot_refs :: "'g anchor_git \<Rightarrow> string list \<Rightarrow> 'g \<Rightarrow> anchor_snapshot_ref list result" where
  "scan_orphan_snapshot_refs git known g =
     bind_r (list_snapshot_refs git g) (\<lambda>refs. Inr (List.map_filter (\<lambda>r.
       case parse_snapshot_ref r of
         None \<Rightarrow> Some \<lparr>rf_snapshot_id = [], rf_refname = r\<rparr>
       | Some (i, kind) \<Rightarrow> if i \<notin> set known \<or> kind \<notin> {''index'', ''work''}
           then Some \<lparr>rf_snapshot_id = i, rf_refname = r\<rparr> else None) refs))"

definition missing_snapshot_refs :: "'g anchor_git \<Rightarrow> string list \<Rightarrow> 'g \<Rightarrow> anchor_snapshot_ref list" where
  "missing_snapshot_refs git known g =
     concat (map (\<lambda>i. map (\<lambda>r. \<lparr>rf_snapshot_id = i, rf_refname = r\<rparr>)
       (filter (\<lambda>r. case ag_query git g [''rev-parse'', ''--verify'', r] of Inl _ \<Rightarrow> True | Inr _ \<Rightarrow> False)
         (expected_snapshot_refs i))) known)"

definition inspect_maintenance :: "'g anchor_git \<Rightarrow> string list \<Rightarrow> 'g \<Rightarrow> maintenance_report result" where
  "inspect_maintenance git known g =
     bind_r (scan_orphan_snapshot_refs git known g) (\<lambda>orphans.
     bind_r (inspect_git_repository_size (ag_query git g)) (\<lambda>n.
     Inr \<lparr>mr_orphan_refs = orphans, mr_missing_refs = missing_snapshot_refs git known g, mr_repository_size = n,
       mr_gc_ran = False\<rparr>))"

definition run_guarded_gc :: "'g anchor_git \<Rightarrow> anchor_repo \<Rightarrow> string list \<Rightarrow> 'g \<Rightarrow> 'g \<times> maintenance_report result" where
  "run_guarded_gc git a known g =
     (case bind_r (inspect_maintenance git known g) (\<lambda>report.
        if mr_orphan_refs report \<noteq> []
        then Inl (Config (''refusing anchor repo gc with '' @ dec_nat (length (mr_orphan_refs report)) @ '' orphan snapshot refs''))
        else if mr_missing_refs report \<noteq> []
        then Inl (Config (''refusing anchor repo gc with '' @ dec_nat (length (mr_missing_refs report)) @ '' missing snapshot refs''))
        else bind_r (verify_git_repository_integrity (ag_query git g)) (\<lambda>_.
          bind_r (validate_repository_quota (ar_policy a) (mr_repository_size report)) (\<lambda>_. Inr report))) of
        Inl e \<Rightarrow> (g, Inl e)
      | Inr report \<Rightarrow> (case ag_gc git g of
          (g', Inl e) \<Rightarrow> (g', Inl e)
        | (g', Inr _) \<Rightarrow> (g', bind_r (verify_git_repository_integrity (ag_query git g')) (\<lambda>_.
            bind_r (inspect_git_repository_size (ag_query git g')) (\<lambda>n.
              Inr (report\<lparr>mr_repository_size := n, mr_gc_ran := True\<rparr>))))))"

section \<open>Properties\<close>

lemma parse_snapshot_ref_Some:
  "parse_snapshot_ref r = Some (i, k) \<longleftrightarrow>
     r = DEVRELAY_SNAPSHOT_REF_NAMESPACE @ i @ CHR ''/'' # k \<and> i \<noteq> [] \<and> CHR ''/'' \<notin> set i \<and> CHR ''/'' \<notin> set k"
proof
  assume P: "parse_snapshot_ref r = Some (i, k)"
  then obtain t where r: "r = DEVRELAY_SNAPSHOT_REF_NAMESPACE @ t"
    by (auto simp: parse_snapshot_ref_def starts_with_iff split: if_splits)
  have "split_on (CHR ''/'') t = [i, k] \<and> i \<noteq> []"
    using P by (auto simp: parse_snapshot_ref_def r split: if_splits list.splits)
  then have "\<exists>a b. split_on (CHR ''/'') t = [a, b] \<and> a = i \<and> b = k" "i \<noteq> []" by simp_all
  then show "r = DEVRELAY_SNAPSHOT_REF_NAMESPACE @ i @ CHR ''/'' # k \<and> i \<noteq> [] \<and> CHR ''/'' \<notin> set i \<and> CHR ''/'' \<notin> set k"
    unfolding split_two by (auto simp: r)
qed (auto simp: parse_snapshot_ref_def split_line)

text \<open>
  Garbage collection is guarded. If a guarded collection changes the repository at all, then just
  before it every ref under the snapshot namespace was the index or work ref of a known snapshot,
  both refs of every known snapshot resolved, the object store was intact and within its quota.
\<close>

theorem gc_is_guarded:
  assumes run: "run_guarded_gc git a known g = (g', r)" and changed: "g' \<noteq> g"
  shows "\<exists>refs. list_snapshot_refs git g = Inr refs
    \<and> (\<forall>f\<in>set refs. \<exists>i\<in>set known. f \<in> set (expected_snapshot_refs i))
    \<and> (\<forall>i\<in>set known. \<forall>f\<in>set (expected_snapshot_refs i). \<exists>oid. ag_query git g [''rev-parse'', ''--verify'', f] = Inr oid)
    \<and> verify_git_repository_integrity (ag_query git g) = Inr () \<and> validate_quota git a g = Inr ()"
proof -
  obtain report where R: "inspect_maintenance git known g = Inr report"
    and none: "mr_orphan_refs report = []" "mr_missing_refs report = []"
    and ok: "verify_git_repository_integrity (ag_query git g) = Inr ()"
      "validate_repository_quota (ar_policy a) (mr_repository_size report) = Inr ()"
    using run changed by (auto simp: run_guarded_gc_def tx_simps split: sum.splits if_splits)
  from R obtain refs n where refs: "list_snapshot_refs git g = Inr refs"
    and n: "inspect_git_repository_size (ag_query git g) = Inr n" "mr_repository_size report = n"
    and o: "mr_orphan_refs report = List.map_filter (\<lambda>r. case parse_snapshot_ref r of
         None \<Rightarrow> Some \<lparr>rf_snapshot_id = [], rf_refname = r\<rparr>
       | Some (i, kind) \<Rightarrow> if i \<notin> set known \<or> kind \<notin> {''index'', ''work''}
           then Some \<lparr>rf_snapshot_id = i, rf_refname = r\<rparr> else None) refs"
    and m: "mr_missing_refs report = missing_snapshot_refs git known g"
    by (auto simp: inspect_maintenance_def scan_orphan_snapshot_refs_def tx_simps)
  have "\<exists>i\<in>set known. f \<in> set (expected_snapshot_refs i)" if f: "f \<in> set refs" for f
  proof -
    have "(case parse_snapshot_ref f of None \<Rightarrow> Some \<lparr>rf_snapshot_id = [], rf_refname = f\<rparr>
       | Some (i, kind) \<Rightarrow> if i \<notin> set known \<or> kind \<notin> {''index'', ''work''}
           then Some \<lparr>rf_snapshot_id = i, rf_refname = f\<rparr> else None) = None"
      using none(1) f unfolding o map_filter_def by (auto simp: filter_empty_conv)
    then obtain i k where "parse_snapshot_ref f = Some (i, k)" "i \<in> set known" "k \<in> {''index'', ''work''}"
      by (auto split: option.splits if_splits)
    then show ?thesis by (auto simp: parse_snapshot_ref_Some expected_snapshot_refs_def)
  qed
  moreover have "\<exists>oid. ag_query git g [''rev-parse'', ''--verify'', f] = Inr oid"
    if "i \<in> set known" "f \<in> set (expected_snapshot_refs i)" for i f
  proof -
    have "filter (\<lambda>r. case ag_query git g [''rev-parse'', ''--verify'', r] of Inl _ \<Rightarrow> True | Inr _ \<Rightarrow> False)
        (expected_snapshot_refs i) = []"
      using none(2) that(1) unfolding m missing_snapshot_refs_def by simp
    then have "\<not> (case ag_query git g [''rev-parse'', ''--verify'', f] of Inl _ \<Rightarrow> True | Inr _ \<Rightarrow> False)"
      using that(2) unfolding filter_empty_conv by (rule bspec)
    then show ?thesis by (simp split: sum.splits)
  qed
  moreover have "validate_quota git a g = Inr ()" using n ok(2) by (simp add: validate_quota_def)
  ultimately show ?thesis using refs ok(1) by auto
qed

text \<open>The refs of a verified snapshot exist, but need not be the commits its metadata names.\<close>

lemma verification_ignores_commits:
  assumes "sm_index_commit_oid m \<noteq> []" "sm_work_commit_oid m \<noteq> []" "x \<noteq> []" "y \<noteq> []"
  shows "verify_snapshot_available git a (m\<lparr>sm_index_commit_oid := x, sm_work_commit_oid := y\<rparr>) g
     = verify_snapshot_available git a m g"
  using assms
  by (simp add: verify_snapshot_available_def validate_snapshot_metadata_def ensure_snapshot_objects_def index_ref_def
      work_ref_def validate_metadata_def)

text \<open>The quota is only looked at when the objects are in: a push that exceeds it is refused, and stays.\<close>

lemma refused_push_stays:
  assumes "validate_snapshot_metadata a m = Inr ()"
    and "ag_fetch git g [(index_ref m, index_ref m), (work_ref m, work_ref m)] = (g', Inr ())"
    and "ensure_snapshot_objects git a m g' = Inr ()" and "validate_quota git a g' = Inl e"
  shows "import_snapshot_from_repo git a m g = (g', Inl e)"
  using assms by (simp add: import_snapshot_from_repo_def)

end
