(* ===== verification/Snapshot_Upload.thy ===== *)
theory Snapshot_Upload
  imports Anchor_Repo Publish_Safety Cas_Store
begin

text \<open>
  The upload of a snapshot to the anchor, \<open>snapshot_upload.rs\<close>: the data goes first, Git refs and
  sidecar chunks, then it is verified, and only then does the metadata database learn of the
  snapshot; a marker file names an upload that is under way. The state is the anchor's repository,
  its chunk store, the marker files and the database; the source side of a fetch is part of the
  Git commands given as argument, and the outcome of each write is an argument.
\<close>

section \<open>State\<close>

datatype upload_fault =
    AfterPendingMarker
  | AfterGitObjects
  | DuringCasUploadDiskFull
  | AfterCasObjects
  | AfterDataVerification

fun upload_fault_as_str :: "upload_fault \<Rightarrow> string" where
  "upload_fault_as_str AfterPendingMarker = ''after-pending-marker''"
| "upload_fault_as_str AfterGitObjects = ''after-git-objects''"
| "upload_fault_as_str DuringCasUploadDiskFull = ''disk-full-during-cas-upload''"
| "upload_fault_as_str AfterCasObjects = ''after-cas-objects''"
| "upload_fault_as_str AfterDataVerification = ''after-data-verification''"

record pending_upload =
  pu_snapshot_id :: string
  pu_project_id :: string
  pu_index_ref :: string
  pu_work_ref :: string
  pu_cas_manifest_ids :: "string list"
  pu_cas_root_ids :: "string list"
  pu_created_at :: u64

record pending_cleanup =
  pc_snapshot_id :: string
  pc_removed_refs :: "string list"
  pc_removed_root_ids :: "string list"
  pc_marker_removed :: bool

text \<open>
  What the operations read of their surroundings: the stores (the source's chunk files, and whether
  an anchor store was given), the clock at each file written, and the failure of each write.
\<close>

record upload_env =
  ue_cas :: cas_env
  ue_source_cas :: "cas_files option"
  ue_has_anchor_cas :: bool
  ue_fault :: "upload_fault option"
  ue_now :: u64
  ue_manifest_now :: "nat \<Rightarrow> u64"
  ue_root_now :: "nat \<Rightarrow> u64"
  ue_marker_write :: "dr_error option"
  ue_chunk_write :: "string \<Rightarrow> dr_error option"
  ue_manifest_write :: "nat \<Rightarrow> dr_error option"
  ue_root_write :: "nat \<Rightarrow> dr_error option"
  ue_marker_remove :: "dr_error option"
  ue_root_remove :: "string \<Rightarrow> dr_error option"
  ue_print_marker :: "pending_upload \<Rightarrow> string"
  ue_parse_marker :: "string \<Rightarrow> pending_upload result"

record 'g upload_world =
  uw_anchor :: 'g
  uw_cas :: cas_files
  uw_markers :: "string \<Rightarrow> string option"
  uw_db :: metadata_db

section \<open>Helpers\<close>

definition inject_fault :: "upload_fault option \<Rightarrow> upload_fault \<Rightarrow> unit result" where
  "inject_fault configured f =
     (if configured = Some f then Inl (Config (''injected upload fault at '' @ upload_fault_as_str f)) else Inr ())"

definition inject_disk_full_fault :: "upload_fault option \<Rightarrow> upload_fault \<Rightarrow> unit result" where
  "inject_disk_full_fault configured f =
     (if configured = Some f then Inl (Io (''injected upload fault at '' @ upload_fault_as_str f)) else Inr ())"

definition validate_pending_snapshot_id :: "string \<Rightarrow> unit result" where
  "validate_pending_snapshot_id i =
     (if unsafe_component i then Inl (Config (''snapshot upload id '' @ i @ '' is not safe for a file path'')) else Inr ())"

definition pending_upload_dir :: "anchor_repo \<Rightarrow> string" where
  "pending_upload_dir a = path_join (ar_repo_path a) ''devrelay-pending-uploads''"

definition pending_upload_marker_path :: "anchor_repo \<Rightarrow> string \<Rightarrow> string result" where
  "pending_upload_marker_path a i =
     bind_r (validate_pending_snapshot_id i) (\<lambda>_. Inr (path_join (pending_upload_dir a) (i @ ''.json'')))"

definition sidecar_reachability_root_id :: "string \<Rightarrow> nat \<Rightarrow> string" where
  "sidecar_reachability_root_id i n = ''snapshot-upload-'' @ i @ ''-'' @ dec_nat n"

definition snapshot_metadata_exists :: "metadata_db \<Rightarrow> string \<Rightarrow> bool" where
  "snapshot_metadata_exists db i \<longleftrightarrow> i \<in> sn_snapshot_id ` set (db_snapshots db)"

definition validate_pending_marker :: "anchor_repo \<Rightarrow> pending_upload \<Rightarrow> unit result" where
  "validate_pending_marker a p =
     bind_r (validate_pending_snapshot_id (pu_snapshot_id p)) (\<lambda>_.
     if pu_project_id p \<noteq> ar_project_id a
     then Inl (Config (''pending upload project_id '' @ pu_project_id p @ '' does not match anchor project_id '' @ ar_project_id a))
     else if pu_index_ref p \<noteq> ''refs/devrelay/snapshots/'' @ pu_snapshot_id p @ ''/index''
       \<or> pu_work_ref p \<noteq> ''refs/devrelay/snapshots/'' @ pu_snapshot_id p @ ''/work''
     then Inl (Config (''pending upload '' @ pu_snapshot_id p @ '' contains unexpected snapshot refs''))
     else Inr ())"

section \<open>Markers\<close>

definition upload_marker :: "u64 \<Rightarrow> snapshot_metadata \<Rightarrow> pending_upload" where
  "upload_marker now m =
     \<lparr>pu_snapshot_id = sm_snapshot_id m, pu_project_id = sm_project_id m, pu_index_ref = index_ref m, pu_work_ref = work_ref m,
      pu_cas_manifest_ids = map sd_cas_manifest_id (sm_sidecars m),
      pu_cas_root_ids = map (sidecar_reachability_root_id (sm_snapshot_id m)) [0..<length (sm_sidecars m)],
      pu_created_at = now\<rparr>"

definition mark_snapshot_upload_pending ::
    "upload_env \<Rightarrow> anchor_repo \<Rightarrow> snapshot_metadata \<Rightarrow> 'g upload_world \<Rightarrow> 'g upload_world \<times> pending_upload result" where
  "mark_snapshot_upload_pending u a m w =
     (case bind_r (validate_metadata m) (\<lambda>_.
        if ar_project_id a \<noteq> sm_project_id m
        then Inl (Config (''snapshot project_id '' @ sm_project_id m @ '' does not match anchor project_id '' @ ar_project_id a))
        else pending_upload_marker_path a (sm_snapshot_id m)) of
        Inl e \<Rightarrow> (w, Inl e)
      | Inr path \<Rightarrow>
          (let p = upload_marker (ue_now u) m
           in case write_json_atomically (ue_marker_write u) path (ue_print_marker u p) (uw_markers w) of
                (ms, Inl e) \<Rightarrow> (w\<lparr>uw_markers := ms\<rparr>, Inl e)
              | (ms, Inr _) \<Rightarrow> (w\<lparr>uw_markers := ms\<rparr>, Inr p)))"

definition finish_snapshot_upload ::
    "upload_env \<Rightarrow> anchor_repo \<Rightarrow> string \<Rightarrow> 'g upload_world \<Rightarrow> 'g upload_world \<times> bool result" where
  "finish_snapshot_upload u a i w =
     (case pending_upload_marker_path a i of
        Inl e \<Rightarrow> (w, Inl e)
      | Inr path \<Rightarrow> (case uw_markers w path of
          None \<Rightarrow> (w, Inr False)
        | Some _ \<Rightarrow> (case ue_marker_remove u of
            Some e \<Rightarrow> (w, Inl e)
          | None \<Rightarrow> (w\<lparr>uw_markers := (uw_markers w)(path := None)\<rparr>, Inr True))))"

text \<open>The listing: \<open>names\<close> are the files of the marker directory, in the order of \<open>read_dir\<close>.\<close>

definition has_json_extension :: "string \<Rightarrow> bool" where
  "has_json_extension name \<longleftrightarrow> length name > 5 \<and> drop (length name - 5) name = ''.json''"

fun read_markers :: "upload_env \<Rightarrow> (string \<Rightarrow> string option) \<Rightarrow> string \<Rightarrow> string list \<Rightarrow> pending_upload list result" where
  "read_markers u ms dir [] = Inr []"
| "read_markers u ms dir (n # ns) =
     (if \<not> has_json_extension n then read_markers u ms dir ns
      else bind_r (case ms (path_join dir n) of None \<Rightarrow> Inl (Io (ce_not_found (ue_cas u))) | Some raw \<Rightarrow> ue_parse_marker u raw)
        (\<lambda>p. bind_r (read_markers u ms dir ns) (\<lambda>ps. Inr (p # ps))))"

definition list_pending_snapshot_uploads ::
    "upload_env \<Rightarrow> anchor_repo \<Rightarrow> string list \<Rightarrow> 'g upload_world \<Rightarrow> pending_upload list result" where
  "list_pending_snapshot_uploads u a names w =
     bind_r (read_markers u (uw_markers w) (pending_upload_dir a) names) (\<lambda>ps.
       Inr (sort_key (\<lambda>p. (pu_created_at p, pu_snapshot_id p)) ps))"

section \<open>Sidecars\<close>

fun copy_chunks ::
    "upload_env \<Rightarrow> snapshot_sidecar \<Rightarrow> cas_files \<Rightarrow> cas_manifest_chunk list \<Rightarrow> cas_files \<Rightarrow> cas_files \<times> unit result" where
  "copy_chunks u s src [] fs = (fs, Inr ())"
| "copy_chunks u s src (c # cs) fs =
     (if cmc_size_bytes c > sd_chunk_size_bytes s
      then (fs, Inl (Verification (''sidecar '' @ sd_logical_path s @ '' chunk '' @ cmc_hash c @ '' exceeds declared chunk size'')))
      else case download_chunk (ue_cas u) src (cmc_hash c) of
        Inl e \<Rightarrow> (fs, Inl e)
      | Inr b \<Rightarrow>
          if of_nat (length b) \<noteq> cmc_size_bytes c
          then (fs, Inl (Verification (''sidecar '' @ sd_logical_path s @ '' chunk '' @ cmc_hash c @ '' size mismatch'')))
          else (case upload_chunk (ue_cas u) (ue_chunk_write u (cmc_hash c)) b (cmc_hash c) fs of
              (fs', Inl e) \<Rightarrow> (fs', Inl e)
            | (fs', Inr _) \<Rightarrow> (case inject_disk_full_fault (ue_fault u) DuringCasUploadDiskFull of
                Inl e \<Rightarrow> (fs', Inl e)
              | Inr _ \<Rightarrow> copy_chunks u s src cs fs')))"

definition check_sidecar_manifest :: "(string \<Rightarrow> dr_error) \<Rightarrow> snapshot_sidecar \<Rightarrow> cas_manifest \<Rightarrow> cas_manifest result" where
  "check_sidecar_manifest err s mf =
     (if cm_manifest_id mf \<noteq> sd_root_hash s \<or> cm_total_bytes mf \<noteq> sd_size_bytes s then Inl (err (sd_logical_path s)) else Inr mf)"

definition copy_sidecar ::
    "upload_env \<Rightarrow> string \<Rightarrow> cas_files \<Rightarrow> nat \<Rightarrow> snapshot_sidecar \<Rightarrow> cas_files \<Rightarrow> cas_files \<times> unit result" where
  "copy_sidecar u i src n s fs =
     (case bind_r (validate_sidecar s) (\<lambda>_. bind_r (fetch_manifest (ue_cas u) src (sd_cas_manifest_id s))
        (check_sidecar_manifest (\<lambda>p. Verification (''sidecar '' @ p @ '' CAS manifest does not match snapshot metadata'')) s)) of
        Inl e \<Rightarrow> (fs, Inl e)
      | Inr mf \<Rightarrow> (case copy_chunks u s src (cm_chunks mf) fs of
          (fs1, Inl e) \<Rightarrow> (fs1, Inl e)
        | (fs1, Inr _) \<Rightarrow> (case create_manifest (ue_cas u) (ue_manifest_now u n) (ue_manifest_write u n)
              (map cmc_hash (cm_chunks mf)) fs1 of
            (fs2, Inl e) \<Rightarrow> (fs2, Inl e)
          | (fs2, Inr copied) \<Rightarrow>
              if cm_manifest_id copied \<noteq> cm_manifest_id mf
              then (fs2, Inl (Verification (''sidecar '' @ sd_logical_path s @ '' copied manifest id mismatch'')))
              else (case add_reachability_root (ue_cas u) (ue_root_now u n) (ue_root_write u n)
                  (sidecar_reachability_root_id i n) (cm_manifest_id copied) fs2 of
                (fs3, Inl e) \<Rightarrow> (fs3, Inl e)
              | (fs3, Inr _) \<Rightarrow> (fs3, Inr ())))))"

fun copy_sidecars ::
    "upload_env \<Rightarrow> string \<Rightarrow> cas_files \<Rightarrow> nat \<Rightarrow> snapshot_sidecar list \<Rightarrow> cas_files \<Rightarrow> cas_files \<times> unit result" where
  "copy_sidecars u i src n [] fs = (fs, Inr ())"
| "copy_sidecars u i src n (s # ss) fs =
     (case copy_sidecar u i src n s fs of
        (fs', Inl e) \<Rightarrow> (fs', Inl e)
      | (fs', Inr _) \<Rightarrow> copy_sidecars u i src (Suc n) ss fs')"

definition copy_snapshot_sidecars_to_anchor_cas ::
    "upload_env \<Rightarrow> snapshot_metadata \<Rightarrow> cas_files \<Rightarrow> cas_files \<times> unit result" where
  "copy_snapshot_sidecars_to_anchor_cas u m fs =
     (if sm_sidecars m = [] then (fs, Inr ())
      else case ue_source_cas u of
        None \<Rightarrow> (fs, Inl (Config ''snapshot has sidecars but source CAS was not provided''))
      | Some src \<Rightarrow>
          if \<not> ue_has_anchor_cas u then (fs, Inl (Config ''snapshot has sidecars but anchor CAS was not provided''))
          else copy_sidecars u (sm_snapshot_id m) src 0 (sm_sidecars m) fs)"

definition ensure_sidecar :: "upload_env \<Rightarrow> cas_files \<Rightarrow> snapshot_sidecar \<Rightarrow> unit result" where
  "ensure_sidecar u fs s =
     bind_r (validate_sidecar s) (\<lambda>_. bind_r (fetch_manifest (ue_cas u) fs (sd_cas_manifest_id s)) (\<lambda>mf.
     bind_r (check_sidecar_manifest (\<lambda>p. Verification (''sidecar '' @ p @ '' is not available in anchor CAS'')) s mf) (\<lambda>_.
     let missing = missing_chunks (ue_cas u) fs (map cmc_hash (cm_chunks mf)) in
     if missing \<noteq> []
     then Inl (MissingSourceObject (''anchor CAS is missing '' @ dec_nat (length missing) @ '' chunks for sidecar '' @ sd_logical_path s))
     else Inr ())))"

definition ensure_snapshot_sidecars_in_anchor_cas :: "upload_env \<Rightarrow> snapshot_metadata \<Rightarrow> cas_files \<Rightarrow> unit result" where
  "ensure_snapshot_sidecars_in_anchor_cas u m fs =
     (if sm_sidecars m = [] then Inr ()
      else if \<not> ue_has_anchor_cas u then Inl (Config ''snapshot has sidecars but anchor CAS was not provided'')
      else validate_all (ensure_sidecar u fs) (sm_sidecars m))"

section \<open>The upload\<close>

text \<open>The metadata step: it publishes, and drops the marker once the snapshot is in the database.\<close>

definition publish_and_finish ::
    "upload_env \<Rightarrow> json_codec \<Rightarrow> anchor_repo \<Rightarrow> canonical_publish_request \<Rightarrow> 'g upload_world
      \<Rightarrow> 'g upload_world \<times> canonical_publish_result result" where
  "publish_and_finish u c a q w =
     (case publish_snapshot_canonical c q (uw_db w) of
        (db, r) \<Rightarrow>
          if snapshot_metadata_exists db (sm_snapshot_id (cq_metadata q))
          then (case finish_snapshot_upload u a (sm_snapshot_id (cq_metadata q)) (w\<lparr>uw_db := db\<rparr>) of
              (w', Inl e) \<Rightarrow> (w', Inl e)
            | (w', Inr _) \<Rightarrow> (w', r))
          else (w\<lparr>uw_db := db\<rparr>, r))"

definition publish_snapshot_canonical_with_data ::
    "'g anchor_git \<Rightarrow> upload_env \<Rightarrow> json_codec \<Rightarrow> anchor_repo \<Rightarrow> canonical_publish_request \<Rightarrow> 'g upload_world
      \<Rightarrow> 'g upload_world \<times> canonical_publish_result result" where
  "publish_snapshot_canonical_with_data git u c a q w =
     (let m = cq_metadata q in
      case validate_metadata m of
        Inl e \<Rightarrow> (w, Inl e)
      | Inr _ \<Rightarrow> (case mark_snapshot_upload_pending u a m w of
          (w1, Inl e) \<Rightarrow> (w1, Inl e)
        | (w1, Inr _) \<Rightarrow> (case inject_fault (ue_fault u) AfterPendingMarker of
          Inl e \<Rightarrow> (w1, Inl e)
        | Inr _ \<Rightarrow> (case import_snapshot_from_repo git a m (uw_anchor w1) of
          (g, Inl e) \<Rightarrow> (w1\<lparr>uw_anchor := g\<rparr>, Inl e)
        | (g, Inr _) \<Rightarrow> (case inject_fault (ue_fault u) AfterGitObjects of
          Inl e \<Rightarrow> (w1\<lparr>uw_anchor := g\<rparr>, Inl e)
        | Inr _ \<Rightarrow> (case copy_snapshot_sidecars_to_anchor_cas u m (uw_cas w1) of
          (fs, Inl e) \<Rightarrow> (w1\<lparr>uw_anchor := g, uw_cas := fs\<rparr>, Inl e)
        | (fs, Inr _) \<Rightarrow> (case bind_r (inject_fault (ue_fault u) AfterCasObjects) (\<lambda>_.
              bind_r (verify_snapshot_available git a m g) (\<lambda>_.
              bind_r (ensure_snapshot_sidecars_in_anchor_cas u m fs) (\<lambda>_. inject_fault (ue_fault u) AfterDataVerification))) of
          Inl e \<Rightarrow> (w1\<lparr>uw_anchor := g, uw_cas := fs\<rparr>, Inl e)
        | Inr _ \<Rightarrow> publish_and_finish u c a q (w1\<lparr>uw_anchor := g, uw_cas := fs\<rparr>))))))))"

section \<open>Cleaning up\<close>

fun delete_refs :: "'g anchor_git \<Rightarrow> string list \<Rightarrow> 'g \<Rightarrow> 'g \<times> string list result" where
  "delete_refs git [] g = (g, Inr [])"
| "delete_refs git (r # rs) g =
     (case ag_delete_ref git g r of
        (g', Inl e) \<Rightarrow> (g', Inl e)
      | (g', Inr _) \<Rightarrow> (case delete_refs git rs g' of
          (g'', Inl e) \<Rightarrow> (g'', Inl e)
        | (g'', Inr removed) \<Rightarrow> (g'', Inr (r # removed))))"

fun remove_roots :: "upload_env \<Rightarrow> string list \<Rightarrow> cas_files \<Rightarrow> cas_files \<times> string list result" where
  "remove_roots u [] fs = (fs, Inr [])"
| "remove_roots u (i # is) fs =
     (case remove_reachability_root (ue_root_remove u i) i fs of
        (fs', Inl e) \<Rightarrow> (fs', Inl e)
      | (fs', Inr b) \<Rightarrow> (case remove_roots u is fs' of
          (fs'', Inl e) \<Rightarrow> (fs'', Inl e)
        | (fs'', Inr removed) \<Rightarrow> (fs'', Inr (if b then i # removed else removed))))"

definition cleanup_pending_snapshot_upload ::
    "'g anchor_git \<Rightarrow> upload_env \<Rightarrow> anchor_repo \<Rightarrow> string \<Rightarrow> 'g upload_world \<Rightarrow> 'g upload_world \<times> pending_cleanup option result" where
  "cleanup_pending_snapshot_upload git u a i w =
     (case pending_upload_marker_path a i of
        Inl e \<Rightarrow> (w, Inl e)
      | Inr path \<Rightarrow> (case uw_markers w path of
          None \<Rightarrow> (w, Inr None)
        | Some raw \<Rightarrow> (case bind_r (ue_parse_marker u raw) (\<lambda>p. bind_r (validate_pending_marker a p) (\<lambda>_. Inr p)) of
            Inl e \<Rightarrow> (w, Inl e)
          | Inr p \<Rightarrow> (case delete_refs git [pu_index_ref p, pu_work_ref p] (uw_anchor w) of
              (g, Inl e) \<Rightarrow> (w\<lparr>uw_anchor := g\<rparr>, Inl e)
            | (g, Inr refs) \<Rightarrow> (case (if ue_has_anchor_cas u then remove_roots u (pu_cas_root_ids p) (uw_cas w) else (uw_cas w, Inr [])) of
                (fs, Inl e) \<Rightarrow> (w\<lparr>uw_anchor := g, uw_cas := fs\<rparr>, Inl e)
              | (fs, Inr roots) \<Rightarrow> (case ue_marker_remove u of
                  Some e \<Rightarrow> (w\<lparr>uw_anchor := g, uw_cas := fs\<rparr>, Inl e)
                | None \<Rightarrow> (w\<lparr>uw_anchor := g, uw_cas := fs, uw_markers := (uw_markers w)(path := None)\<rparr>,
                    Inr (Some \<lparr>pc_snapshot_id = pu_snapshot_id p, pc_removed_refs = refs, pc_removed_root_ids = roots,
                      pc_marker_removed = True\<rparr>))))))))"

section \<open>Facts\<close>

text \<open>The way to the metadata step: what holds when \<open>publish_and_finish\<close> is entered, and when it is not.\<close>

definition data_is_in :: "'g anchor_git \<Rightarrow> upload_env \<Rightarrow> anchor_repo \<Rightarrow> snapshot_metadata \<Rightarrow> 'g upload_world \<Rightarrow> bool" where
  "data_is_in git u a m w \<longleftrightarrow> verify_snapshot_available git a m (uw_anchor w) = Inr ()
     \<and> ensure_snapshot_sidecars_in_anchor_cas u m (uw_cas w) = Inr ()"

definition marker_is_set :: "upload_env \<Rightarrow> anchor_repo \<Rightarrow> snapshot_metadata \<Rightarrow> 'g upload_world \<Rightarrow> bool" where
  "marker_is_set u a m w \<longleftrightarrow> (\<exists>path. pending_upload_marker_path a (sm_snapshot_id m) = Inr path
     \<and> uw_markers w path = Some (ue_print_marker u (upload_marker (ue_now u) m) @ [CHR 0x0A]))"

lemma mark_cases:
  assumes "mark_snapshot_upload_pending u a m w = (w1, r)"
  shows "uw_anchor w1 = uw_anchor w \<and> uw_cas w1 = uw_cas w \<and> uw_db w1 = uw_db w
    \<and> (\<forall>p. r = Inr p \<longrightarrow> marker_is_set u a m w1 \<and> ar_project_id a = sm_project_id m)"
  using assms
  by (auto simp: mark_snapshot_upload_pending_def marker_is_set_def write_json_atomically_def Let_def tx_simps
      split: sum.splits option.splits prod.splits if_splits)

lemma upload_cases:
  assumes "publish_snapshot_canonical_with_data git u c a q w = (w', r)"
  shows "(uw_db w' = uw_db w \<and> (uw_anchor w' = uw_anchor w \<and> uw_cas w' = uw_cas w \<or> marker_is_set u a (cq_metadata q) w'))
    \<or> (\<exists>w2. uw_db w2 = uw_db w \<and> marker_is_set u a (cq_metadata q) w2 \<and> data_is_in git u a (cq_metadata q) w2
         \<and> import_snapshot_from_repo git a (cq_metadata q) (uw_anchor w) = (uw_anchor w2, Inr ())
         \<and> publish_and_finish u c a q w2 = (w', r))"
proof (cases "validate_metadata (cq_metadata q)")
  case (Inl e) then show ?thesis using assms by (simp add: publish_snapshot_canonical_with_data_def)
next
  case v: (Inr x)
  let ?m = "cq_metadata q"
  obtain w1 r1 where mk: "mark_snapshot_upload_pending u a ?m w = (w1, r1)" by fastforce
  note M = mark_cases [OF mk]
  show ?thesis
  proof (cases r1)
    case (Inl e) then show ?thesis using assms v mk M by (auto simp: publish_snapshot_canonical_with_data_def)
  next
    case (Inr p)
    then have set1: "marker_is_set u a ?m w1" using M by blast
    have kept: "marker_is_set u a ?m (w1\<lparr>uw_anchor := g\<rparr>)" "marker_is_set u a ?m (w1\<lparr>uw_anchor := g, uw_cas := fs\<rparr>)" for g fs
      using set1 by (simp_all add: marker_is_set_def)
    show ?thesis using assms v mk Inr M set1 kept
      by (auto simp: publish_snapshot_canonical_with_data_def Let_def tx_simps data_is_in_def split: sum.splits prod.splits)
  qed
qed

lemma publish_and_finish_cases:
  assumes "publish_and_finish u c a q w = (w', r)"
  shows "uw_anchor w' = uw_anchor w \<and> uw_cas w' = uw_cas w \<and> uw_db w' = fst (publish_snapshot_canonical c q (uw_db w))
    \<and> (uw_markers w' = uw_markers w \<or> snapshot_metadata_exists (uw_db w') (sm_snapshot_id (cq_metadata q)))"
  using assms
  by (auto simp: publish_and_finish_def finish_snapshot_upload_def split: sum.splits prod.splits option.splits if_splits)

text \<open>An import that succeeds is a fetch of the two refs under their own names that succeeds.\<close>

lemma import_fetches:
  "import_snapshot_from_repo git a m g = (g', Inr ()) \<Longrightarrow>
    ag_fetch git g [(index_ref m, index_ref m), (work_ref m, work_ref m)] = (g', Inr ())"
  by (auto simp: import_snapshot_from_repo_def split: sum.splits prod.splits)

definition ref_available :: "'g anchor_git \<Rightarrow> data_plane_policy \<Rightarrow> string \<Rightarrow> 'g \<Rightarrow> bool" where
  "ref_available git policy r g \<longleftrightarrow> (\<exists>i obj. ag_query git g [''rev-parse'', ''--verify'', r] = Inr i
     \<and> ensure_git_object_available (ag_query git g) i policy = Inr obj)"

lemma verified_refs:
  "verify_snapshot_available git a m g = Inr () \<Longrightarrow>
    ref_available git (ar_policy a) (index_ref m) g \<and> ref_available git (ar_policy a) (work_ref m) g"
  by (auto simp: verify_snapshot_available_def ensure_snapshot_objects_def ref_available_def tx_simps)

lemma ensure_sidecarD:
  assumes "ensure_sidecar u fs s = Inr ()"
  shows "\<exists>mf. fetch_manifest (ue_cas u) fs (sd_cas_manifest_id s) = Inr mf \<and> cm_total_bytes mf = sd_size_bytes s
    \<and> (\<forall>h\<in>set (map cmc_hash (cm_chunks mf)). \<exists>b. download_chunk (ue_cas u) fs h = Inr b)"
proof -
  obtain mf where mf: "fetch_manifest (ue_cas u) fs (sd_cas_manifest_id s) = Inr mf" "cm_total_bytes mf = sd_size_bytes s"
    and none: "missing_chunks (ue_cas u) fs (map cmc_hash (cm_chunks mf)) = []"
    using assms by (auto simp: ensure_sidecar_def check_sidecar_manifest_def Let_def tx_simps split: if_splits)
  have "\<exists>b. download_chunk (ue_cas u) fs h = Inr b" if "h \<in> set (map cmc_hash (cm_chunks mf))" for h
  proof -
    have "\<not> (case verify_chunk_file (ue_cas u) fs h of Inl _ \<Rightarrow> True | Inr _ \<Rightarrow> False)"
      using none that unfolding missing_chunks_def filter_empty_conv by (rule bspec)
    then show ?thesis by (auto simp: verify_chunk_file_def tx_simps split: sum.splits)
  qed
  with mf show ?thesis by blast
qed

section \<open>Sample data\<close>

text \<open>
  Sample data: a repository that is the set of its refs, all of them one small object, and an
  environment in which every write works.
\<close>

definition ex_anchor_git :: "string set anchor_git" where
  "ex_anchor_git = \<lparr>ag_query = (\<lambda>g args. case args of [x, y, z] \<Rightarrow>
        if x = ''rev-parse'' then (if z \<in> g then Inr (replicate 40 (CHR ''a'')) else Inl (GitCommand x [] ''unknown revision''))
        else if y = ''-s'' then Inr ''5'' else Inr [] | _ \<Rightarrow> Inr []),
     ag_fetch = (\<lambda>g specs. (g \<union> snd ` set specs, Inr ())), ag_delete_ref = (\<lambda>g r. (g - {r}, Inr ())),
     ag_gc = (\<lambda>g. (g, Inr ()))\<rparr>"

definition ex_anchor :: anchor_repo where
  "ex_anchor = \<lparr>ar_project_id = ''p1'', ar_repo_path = ''/anchor/p1.git'', ar_policy = default_data_plane_policy\<rparr>"

definition ex_upload :: "dr_error option \<Rightarrow> upload_fault option \<Rightarrow> upload_env" where
  "ex_upload remove f = \<lparr>ue_cas = ex_cas_env, ue_source_cas = None, ue_has_anchor_cas = False, ue_fault = f, ue_now = 7,
     ue_manifest_now = (\<lambda>_. 7), ue_root_now = (\<lambda>_. 7), ue_marker_write = None, ue_chunk_write = (\<lambda>_. None),
     ue_manifest_write = (\<lambda>_. None), ue_root_write = (\<lambda>_. None), ue_marker_remove = remove, ue_root_remove = (\<lambda>_. None),
     ue_print_marker = pu_snapshot_id, ue_parse_marker = (\<lambda>_. Inr (upload_marker 7 ex_meta))\<rparr>"

definition ex_world :: "string set upload_world" where
  "ex_world = \<lparr>uw_anchor = {}, uw_cas = Map.empty, uw_markers = Map.empty, uw_db = ex_base\<lparr>db_sessions := [ex_session]\<rparr>\<rparr>"

lemma ex_upload_sel [simp]:
  "ue_fault (ex_upload x f) = f" "ue_marker_remove (ex_upload x f) = x" "ue_marker_write (ex_upload x f) = None"
  "ue_has_anchor_cas (ex_upload x f) = False" "ue_parse_marker (ex_upload x f) = (\<lambda>_. Inr (upload_marker 7 ex_meta))"
  by (simp_all add: ex_upload_def)

lemma ex_refs: "index_ref ex_meta = ''refs/devrelay/snapshots/s1_0123456789abcdef01234567/index''"
  "work_ref ex_meta = ''refs/devrelay/snapshots/s1_0123456789abcdef01234567/work''"
  by (simp_all add: index_ref_def work_ref_def)

lemma ex_metadata_accepted: "validate_snapshot_metadata ex_anchor ex_meta = Inr ()"
  by (simp add: validate_snapshot_metadata_def ex_meta_valid ex_anchor_def ex_refs validate_fetch_refspec_def
      validate_allowed_ref_def validate_refname_def permitted_refname_def validate_snapshot_ref_def default_data_plane_policy_def
      DEVRELAY_REF_NAMESPACE_def DEVRELAY_SNAPSHOT_REF_NAMESPACE_def starts_with_def ends_with_def Let_def)

lemma ex_object: "ensure_git_object_available (ag_query ex_anchor_git g) (replicate 40 (CHR ''a'')) default_data_plane_policy
    = Inr \<lparr>oi_object_id = replicate 40 (CHR ''a''), oi_object_type = [], oi_size_bytes = 5\<rparr>"
  by (simp add: ensure_git_object_available_def inspect_git_object_def ex_anchor_git_def validate_object_id_def parse_u64_def
      validate_object_size_def default_data_plane_policy_def is_ascii_hexdigit_def is_ascii_digit_def list_all_iff Let_def)

lemma ex_verified: "verify_snapshot_available ex_anchor_git ex_anchor ex_meta {index_ref ex_meta, work_ref ex_meta} = Inr ()"
  unfolding verify_snapshot_available_def ensure_snapshot_objects_def ex_metadata_accepted
  using ex_object by (simp add: ex_anchor_git_def ex_anchor_def)

lemma ex_import: "import_snapshot_from_repo ex_anchor_git ex_anchor ex_meta {} = ({index_ref ex_meta, work_ref ex_meta}, Inr ())"
proof -
  have "validate_quota ex_anchor_git ex_anchor g = Inr ()" for g
    by (simp add: validate_quota_def inspect_git_repository_size_def ex_anchor_git_def str_lines_def sat_mul_def sat_add_def
        validate_repository_quota_def Let_def)
  then show ?thesis using ex_verified
    by (simp add: import_snapshot_from_repo_def verify_snapshot_available_def ex_metadata_accepted ex_anchor_git_def)
qed

lemma ex_marker_path: "pending_upload_marker_path ex_anchor ''s1_0123456789abcdef01234567''
    = Inr ''/anchor/p1.git/devrelay-pending-uploads/s1_0123456789abcdef01234567.json''"
  by (simp add: pending_upload_marker_path_def validate_pending_snapshot_id_def unsafe_component_def pending_upload_dir_def
      path_join_def ex_anchor_def starts_with_def ends_with_def)

lemma ex_mark: "mark_snapshot_upload_pending (ex_upload x f) ex_anchor ex_meta ex_world
    = (ex_world\<lparr>uw_markers := [''/anchor/p1.git/devrelay-pending-uploads/s1_0123456789abcdef01234567.json''
         \<mapsto> ''s1_0123456789abcdef01234567'' @ [CHR 0x0A]]\<rparr>, Inr (upload_marker 7 ex_meta))"
  using ex_marker_path
  by (simp add: mark_snapshot_upload_pending_def ex_meta_valid write_json_atomically_def Let_def)
    (simp add: ex_anchor_def ex_world_def ex_upload_def upload_marker_def)

lemma ex_published: "\<exists>db res. publish_snapshot_canonical ex_codec ex_publish (ex_base\<lparr>db_sessions := [ex_session]\<rparr>) = (db, Inr res)
    \<and> db \<noteq> ex_base\<lparr>db_sessions := [ex_session]\<rparr> \<and> snapshot_metadata_exists db ''s1_0123456789abcdef01234567''"
  by (simp add: publish_snapshot_canonical_def ex_meta_valid ex_publish_def ex_session_def snapshot_metadata_exists_def
      insert_snapshot_row_def insert_row_def stale_reason_def publish_audit_def ex_eval)

section \<open>Properties\<close>

text \<open>
  C28. Data before metadata. If an upload changes the metadata database at all, then the anchor's
  repository is what a successful fetch of the snapshot's two refs from the source left, and each of
  the refs resolves there to an object that is present and within the size limit (whether it is the
  commit the metadata names is not compared); the anchor's chunk store holds, for every sidecar, a
  valid manifest of the announced size and every chunk of it, intact; and the change of the database
  is exactly the canonical publish.
\<close>

theorem data_before_metadata:
  assumes "publish_snapshot_canonical_with_data git u c a q w = (w', r)" and "uw_db w' \<noteq> uw_db w"
  shows "ag_fetch git (uw_anchor w) [(index_ref (cq_metadata q), index_ref (cq_metadata q)),
        (work_ref (cq_metadata q), work_ref (cq_metadata q))] = (uw_anchor w', Inr ())
    \<and> verify_snapshot_available git a (cq_metadata q) (uw_anchor w') = Inr ()
    \<and> ref_available git (ar_policy a) (index_ref (cq_metadata q)) (uw_anchor w')
    \<and> ref_available git (ar_policy a) (work_ref (cq_metadata q)) (uw_anchor w')
    \<and> (\<forall>s\<in>set (sm_sidecars (cq_metadata q)). \<exists>mf. fetch_manifest (ue_cas u) (uw_cas w') (sd_cas_manifest_id s) = Inr mf
        \<and> cm_total_bytes mf = sd_size_bytes s
        \<and> (\<forall>h\<in>set (map cmc_hash (cm_chunks mf)). \<exists>b. download_chunk (ue_cas u) (uw_cas w') h = Inr b))
    \<and> uw_db w' = fst (publish_snapshot_canonical c q (uw_db w))"
proof -
  from upload_cases [OF assms(1)] assms(2) obtain w2 where w2: "uw_db w2 = uw_db w" "data_is_in git u a (cq_metadata q) w2"
    "import_snapshot_from_repo git a (cq_metadata q) (uw_anchor w) = (uw_anchor w2, Inr ())"
    "publish_and_finish u c a q w2 = (w', r)" by blast
  note P = publish_and_finish_cases [OF w2(4)]
  have "ensure_snapshot_sidecars_in_anchor_cas u (cq_metadata q) (uw_cas w') = Inr ()"
    using P w2(2) by (simp add: data_is_in_def)
  then have "\<forall>s\<in>set (sm_sidecars (cq_metadata q)). ensure_sidecar u (uw_cas w') s = Inr ()"
    by (auto simp: ensure_snapshot_sidecars_in_anchor_cas_def split: if_splits)
  moreover have v: "verify_snapshot_available git a (cq_metadata q) (uw_anchor w') = Inr ()"
    using P w2(2) by (simp add: data_is_in_def)
  ultimately show ?thesis using P w2(1) import_fetches [OF w2(3)] ensure_sidecarD verified_refs [OF v] by auto
qed

text \<open>The same snapshot with a sidecar of one chunk, which the source's store holds.\<close>

definition ex_sidecar :: snapshot_sidecar where
  "ex_sidecar = \<lparr>sd_logical_path = ''data.bin'', sd_file_mode = ''100644'', sd_classification = ''large'',
     sd_size_bytes = 5, sd_chunk_size_bytes = 4096, sd_root_hash = one_id ex_cas_env ''first'',
     sd_cas_manifest_id = one_id ex_cas_env ''first''\<rparr>"

definition ex_side_meta :: snapshot_metadata where
  "ex_side_meta = ex_meta\<lparr>sm_sidecars := [ex_sidecar]\<rparr>"

definition ex_side_upload :: upload_env where
  "ex_side_upload = (ex_upload None None)\<lparr>ue_has_anchor_cas := True, ue_source_cas := Some (fst (create_manifest ex_cas_env 7 None
     [cas_hash_from_bytes ex_blake3 ''first''] ex_cas_files))\<rparr>"

lemma ex_side_sel [simp]:
  "ue_fault ex_side_upload = None" "ue_marker_remove ex_side_upload = None" "ue_marker_write ex_side_upload = None"
  "ue_has_anchor_cas ex_side_upload" "ue_cas ex_side_upload = ex_cas_env" "ue_chunk_write ex_side_upload h = None"
  "ue_manifest_write ex_side_upload n = None" "ue_root_write ex_side_upload n = None" "ue_now ex_side_upload = 7"
  "ue_manifest_now ex_side_upload n = 7" "ue_root_now ex_side_upload n = 7" "ue_print_marker ex_side_upload = pu_snapshot_id"
  "index_ref ex_side_meta = index_ref ex_meta" "work_ref ex_side_meta = work_ref ex_meta"
  "sm_sidecars ex_side_meta = [ex_sidecar]" "sm_snapshot_id ex_side_meta = ''s1_0123456789abcdef01234567''"
  "sm_project_id ex_side_meta = ''p1''"
  by (simp_all add: ex_side_upload_def ex_upload_def ex_side_meta_def index_ref_def work_ref_def)

text \<open>The copy of the sidecar, and the anchor's store after it.\<close>

lemma ex_sidecar_valid: "validate_sidecar ex_sidecar = Inr ()"
  by (simp add: validate_sidecar_def ex_sidecar_def not_repository_relative_def starts_with_def one_id_def
      calculate_manifest_id_def CAS_HASH_PREFIX_def)

lemma ex_side_meta_valid: "validate_metadata ex_side_meta = Inr ()"
  using ex_meta_valid ex_sidecar_valid unfolding validate_metadata_Inr ex_side_meta_def by simp

lemma ex_copied:
  "\<exists>fs. copy_snapshot_sidecars_to_anchor_cas ex_side_upload ex_side_meta Map.empty = (fs, Inr ())
     \<and> ensure_snapshot_sidecars_in_anchor_cas ex_side_upload ex_side_meta fs = Inr ()"
proof -
  let ?e = ex_cas_env and ?b = "''first''"
  let ?h = "cas_hash_from_bytes (ce_blake3 ?e) ?b" and ?id = "one_id ?e ?b"
  let ?path = "''manifests/'' @ ?id @ ''.json''"
  have e: "hex_hash (ce_blake3 ?e)" "manifest_codec ?e" using ex_blake3_hex ex_manifest_codec by (simp_all add: ex_cas_env_def)
  have b: "cas_hash_from_bytes ex_blake3 ?b = ?h" by (simp add: ex_cas_env_def)
  have "download_chunk ?e ex_cas_files ?h = Inr ?b" using ex_download(1) by (simp add: b)
  from create_one [OF e this, of 7 None] obtain m0 where m0: "cm_manifest_id m0 = ?id" "cm_chunks m0 = one_chunk ?e ?b"
      "cm_total_bytes m0 = 5"
    and src: "fst (create_manifest ?e 7 None [?h] ex_cas_files) = ex_cas_files(?path \<mapsto> ce_print_manifest ?e m0 @ [CHR 0x0A])"
    and fetch0: "\<And>fs. fs ?path = Some (ce_print_manifest ?e m0 @ [CHR 0x0A]) \<Longrightarrow> fetch_manifest ?e fs ?id = Inr m0"
    by auto
  let ?src = "ex_cas_files(?path \<mapsto> ce_print_manifest ?e m0 @ [CHR 0x0A])"
  let ?fs1 = "[chunk_path ?h \<mapsto> ?b]"
  have "download_chunk ?e ?src ?h = download_chunk ?e ex_cas_files ?h"
    by (rule download_same) (simp add: chunk_path_def Let_def)
  then have "download_chunk ?e ?src ?h = Inr ?b" using ex_download(1) by (simp add: b)
  moreover have "upload_chunk ?e None ?b ?h Map.empty = (?fs1, Inr \<lparr>cur_chunk = \<lparr>ccr_hash = ?h, ccr_size_bytes = 5\<rparr>, cur_stored = True\<rparr>)"
    by (simp add: upload_chunk_def Let_def)
  ultimately have chunks: "copy_chunks ex_side_upload ex_sidecar ?src (one_chunk ?e ?b) Map.empty = (?fs1, Inr ())"
    by (simp add: one_chunk_def inject_disk_full_fault_def) (simp add: ex_sidecar_def)
  have d1: "download_chunk ?e ?fs1 ?h = Inr ?b" by (simp add: download_chunk_def Let_def)
  from create_one [OF e d1, of 7 None] obtain m1 where m1: "cm_manifest_id m1 = ?id" "cm_chunks m1 = one_chunk ?e ?b"
      "cm_total_bytes m1 = 5"
    and cr: "create_manifest ?e 7 None [?h] ?fs1 = (?fs1(?path \<mapsto> ce_print_manifest ?e m1 @ [CHR 0x0A]), Inr m1)"
    and fetch1: "\<And>fs. fs ?path = Some (ce_print_manifest ?e m1 @ [CHR 0x0A]) \<Longrightarrow> fetch_manifest ?e fs ?id = Inr m1"
    by auto
  let ?fs2 = "?fs1(?path \<mapsto> ce_print_manifest ?e m1 @ [CHR 0x0A])"
  let ?root = "sidecar_reachability_root_id ''s1_0123456789abcdef01234567'' 0"
  have "dec_nat 0 = ''0''" by code_simp
  then have "validate_root_id ?root = Inr ()"
    by (simp add: validate_root_id_def sidecar_reachability_root_id_def unsafe_component_def starts_with_def)
  then obtain r raw where root: "add_reachability_root ?e 7 None ?root ?id ?fs2 = (?fs2(''roots/'' @ ?root @ ''.json'' \<mapsto> raw), Inr r)"
    using fetch1 [of ?fs2] by (simp add: add_reachability_root_def reachability_root_path_def write_json_atomically_def Let_def)
  let ?fs3 = "?fs2(''roots/'' @ ?root @ ''.json'' \<mapsto> raw)"
  have ids: "sd_cas_manifest_id ex_sidecar = ?id" "sd_root_hash ex_sidecar = ?id" "sd_size_bytes ex_sidecar = 5"
    by (simp_all add: ex_sidecar_def)
  have hs: "map cmc_hash (one_chunk ?e ?b) = [?h]" by (simp add: one_chunk_def)
  have "copy_snapshot_sidecars_to_anchor_cas ex_side_upload ex_side_meta Map.empty = (?fs3, Inr ())"
  proof -
    have s: "ue_source_cas ex_side_upload = Some ?src" using src by (simp add: ex_side_upload_def b)
    show ?thesis
      using chunks cr root fetch0 [of ?src] hs
      by (simp add: copy_snapshot_sidecars_to_anchor_cas_def s copy_sidecar_def ex_sidecar_valid ids check_sidecar_manifest_def
          m0 m1)
  qed
  moreover have "ensure_snapshot_sidecars_in_anchor_cas ex_side_upload ex_side_meta ?fs3 = Inr ()"
  proof -
    have "fetch_manifest ?e ?fs3 ?id = Inr m1" by (rule fetch1) simp
    moreover have "download_chunk ?e ?fs3 ?h = download_chunk ?e ?fs1 ?h"
      by (rule download_same) (simp add: chunk_path_def Let_def)
    then have "missing_chunks ?e ?fs3 [?h] = []" by (simp add: missing_chunks_def verify_chunk_file_def d1)
    ultimately show ?thesis
      by (simp add: ensure_snapshot_sidecars_in_anchor_cas_def ensure_sidecar_def ex_sidecar_valid ids check_sidecar_manifest_def
          m1 hs Let_def)
  qed
  ultimately show ?thesis by blast
qed

lemma ex_side_git:
  "verify_snapshot_available git a ex_side_meta g = verify_snapshot_available git a ex_meta g"
  "import_snapshot_from_repo git a ex_side_meta g = import_snapshot_from_repo git a ex_meta g"
proof -
  have "validate_snapshot_metadata a ex_side_meta = validate_snapshot_metadata a ex_meta"
    by (simp add: validate_snapshot_metadata_def ex_side_meta_valid ex_meta_valid)
  then show "verify_snapshot_available git a ex_side_meta g = verify_snapshot_available git a ex_meta g"
    "import_snapshot_from_repo git a ex_side_meta g = import_snapshot_from_repo git a ex_meta g"
    by (simp_all add: verify_snapshot_available_def import_snapshot_from_repo_def ensure_snapshot_objects_def
        cong: sum.case_cong prod.case_cong)
qed

lemma ex_side_mark: "\<exists>w1 p. mark_snapshot_upload_pending ex_side_upload ex_anchor ex_side_meta ex_world = (w1, Inr p)
    \<and> uw_anchor w1 = {} \<and> uw_cas w1 = Map.empty \<and> uw_db w1 = uw_db ex_world"
  using ex_marker_path
  by (simp add: mark_snapshot_upload_pending_def ex_side_meta_valid write_json_atomically_def Let_def)
    (simp add: ex_anchor_def ex_world_def)

lemma ex_side_published:
  "\<exists>db res. publish_snapshot_canonical ex_codec (ex_publish\<lparr>cq_metadata := ex_side_meta\<rparr>) (uw_db ex_world) = (db, Inr res)
    \<and> db \<noteq> uw_db ex_world"
  by (simp add: publish_snapshot_canonical_def ex_side_meta_valid ex_publish_def ex_session_def ex_world_def
      insert_snapshot_row_def insert_row_def stale_reason_def publish_audit_def ex_eval) (simp add: ex_side_meta_def)

theorem data_before_metadata_witness:
  "\<exists>w' r mf. publish_snapshot_canonical_with_data ex_anchor_git ex_side_upload ex_codec ex_anchor
       (ex_publish\<lparr>cq_metadata := ex_side_meta\<rparr>) ex_world = (w', r) \<and> uw_db w' \<noteq> uw_db ex_world
     \<and> uw_anchor w' = {index_ref ex_meta, work_ref ex_meta}
     \<and> fetch_manifest ex_cas_env (uw_cas w') (sd_cas_manifest_id ex_sidecar) = Inr mf \<and> cm_total_bytes mf = 5"
proof -
  let ?q = "ex_publish\<lparr>cq_metadata := ex_side_meta\<rparr>"
  from ex_side_published obtain db res where p: "publish_snapshot_canonical ex_codec ?q (uw_db ex_world) = (db, Inr res)"
    "db \<noteq> uw_db ex_world" by blast
  obtain w1 x where mk: "mark_snapshot_upload_pending ex_side_upload ex_anchor ex_side_meta ex_world = (w1, Inr x)"
    "uw_anchor w1 = {}" "uw_cas w1 = Map.empty" "uw_db w1 = uw_db ex_world" using ex_side_mark by blast
  obtain fs where fs: "copy_snapshot_sidecars_to_anchor_cas ex_side_upload ex_side_meta Map.empty = (fs, Inr ())"
    "ensure_snapshot_sidecars_in_anchor_cas ex_side_upload ex_side_meta fs = Inr ()" using ex_copied by blast
  obtain w' r where run: "publish_snapshot_canonical_with_data ex_anchor_git ex_side_upload ex_codec ex_anchor ?q ex_world = (w', r)"
    by fastforce
  let ?w2 = "w1\<lparr>uw_anchor := {index_ref ex_meta, work_ref ex_meta}, uw_cas := fs\<rparr>"
  have "publish_and_finish ex_side_upload ex_codec ex_anchor ?q ?w2 = (w', r)"
    using run mk fs ex_import ex_verified
    by (simp add: publish_snapshot_canonical_with_data_def ex_side_meta_valid inject_fault_def ex_side_git)
  from publish_and_finish_cases [OF this] have changed: "uw_db w' \<noteq> uw_db ex_world" using p mk(4) by simp
  have side: "sm_sidecars (cq_metadata ?q) = [ex_sidecar]" "sd_size_bytes ex_sidecar = 5" by (simp_all add: ex_sidecar_def)
  note D = data_before_metadata [OF run changed]
  from D have "uw_anchor w' = {index_ref ex_meta, work_ref ex_meta}"
    by (simp add: ex_anchor_git_def ex_world_def)
  moreover from D obtain mf where "fetch_manifest ex_cas_env (uw_cas w') (sd_cas_manifest_id ex_sidecar) = Inr mf"
      "cm_total_bytes mf = 5"
    by (auto simp: side)
  ultimately show ?thesis using run changed by blast
qed

text \<open>
  C29. No upload is forgotten. Whatever fails, an upload that has touched the anchor's repository or
  its chunk store leaves either the snapshot in the metadata database or the marker that names its
  refs and roots, so that it can be cleaned up.
\<close>

theorem interrupted_upload_is_marked:
  assumes "publish_snapshot_canonical_with_data git u c a q w = (w', r)"
    and "uw_anchor w' \<noteq> uw_anchor w \<or> uw_cas w' \<noteq> uw_cas w"
  shows "snapshot_metadata_exists (uw_db w') (sm_snapshot_id (cq_metadata q)) \<or> marker_is_set u a (cq_metadata q) w'"
  using upload_cases [OF assms(1)] assms(2) by (auto dest!: publish_and_finish_cases simp: marker_is_set_def)

theorem interrupted_upload_is_marked_witness:
  "\<exists>w' e. publish_snapshot_canonical_with_data ex_anchor_git (ex_upload None (Some AfterGitObjects)) ex_codec ex_anchor ex_publish ex_world
       = (w', Inl e) \<and> uw_db w' = uw_db ex_world \<and> uw_anchor w' \<noteq> {}
     \<and> marker_is_set (ex_upload None (Some AfterGitObjects)) ex_anchor ex_meta w'"
proof -
  have m: "cq_metadata ex_publish = ex_meta" by (simp add: ex_publish_def)
  obtain w' e where run: "publish_snapshot_canonical_with_data ex_anchor_git (ex_upload None (Some AfterGitObjects)) ex_codec ex_anchor
      ex_publish ex_world = (w', Inl e)" "uw_db w' = uw_db ex_world" "uw_anchor w' \<noteq> {}"
    using ex_mark ex_import
    by (simp add: publish_snapshot_canonical_with_data_def Let_def m ex_meta_valid inject_fault_def ex_world_def)
  have "uw_anchor w' \<noteq> uw_anchor ex_world" using run(3) by (simp add: ex_world_def)
  moreover have "\<not> snapshot_metadata_exists (uw_db w') (sm_snapshot_id ex_meta)"
    using run(2) by (simp add: snapshot_metadata_exists_def ex_world_def ex_eval)
  ultimately show ?thesis using interrupted_upload_is_marked [OF run(1)] run by (auto simp: m)
qed

text \<open>
  The clean-up does not ask the database. When the snapshot is published but its marker cannot be
  removed, the publisher sees an error, the marker stays, and the clean-up deletes the refs of the
  published snapshot.
\<close>

theorem cleanup_takes_published_refs:
  "\<exists>w' w'' report. publish_snapshot_canonical_with_data ex_anchor_git (ex_upload (Some (Io ''busy'')) None) ex_codec ex_anchor ex_publish ex_world
       = (w', Inl (Io ''busy''))
     \<and> snapshot_metadata_exists (uw_db w') (sm_snapshot_id ex_meta)
     \<and> cleanup_pending_snapshot_upload ex_anchor_git (ex_upload None None) ex_anchor (sm_snapshot_id ex_meta) w' = (w'', Inr (Some report))
     \<and> snapshot_metadata_exists (uw_db w'') (sm_snapshot_id ex_meta) \<and> uw_anchor w'' = {}"
proof -
  from ex_published obtain db res where
    p: "publish_snapshot_canonical ex_codec ex_publish (ex_base\<lparr>db_sessions := [ex_session]\<rparr>) = (db, Inr res)"
      "snapshot_metadata_exists db ''s1_0123456789abcdef01234567''" by blast
  have m: "cq_metadata ex_publish = ex_meta" "sm_sidecars ex_meta = []" by (simp_all add: ex_publish_def ex_meta_def)
  let ?path = "''/anchor/p1.git/devrelay-pending-uploads/s1_0123456789abcdef01234567.json''"
  let ?w = "ex_world\<lparr>uw_anchor := {index_ref ex_meta, work_ref ex_meta}, uw_db := db,
      uw_markers := [?path \<mapsto> ''s1_0123456789abcdef01234567'' @ [CHR 0x0A]]\<rparr>"
  have run: "publish_snapshot_canonical_with_data ex_anchor_git (ex_upload (Some (Io ''busy'')) None) ex_codec ex_anchor ex_publish ex_world
      = (?w, Inl (Io ''busy''))"
    using ex_mark ex_import ex_verified ex_marker_path p
    by (simp add: publish_snapshot_canonical_with_data_def Let_def m ex_meta_valid inject_fault_def ex_world_def
        copy_snapshot_sidecars_to_anchor_cas_def ensure_snapshot_sidecars_in_anchor_cas_def publish_and_finish_def
        finish_snapshot_upload_def)
  have v: "validate_pending_marker ex_anchor (upload_marker 7 ex_meta) = Inr ()"
    by (simp add: validate_pending_marker_def upload_marker_def validate_pending_snapshot_id_def unsafe_component_def
        ex_anchor_def ex_refs starts_with_def)
  have "\<exists>report. cleanup_pending_snapshot_upload ex_anchor_git (ex_upload None None) ex_anchor (sm_snapshot_id ex_meta) ?w
      = (?w\<lparr>uw_anchor := {}, uw_markers := Map.empty\<rparr>, Inr (Some report))"
    using ex_marker_path v
    by (simp add: cleanup_pending_snapshot_upload_def upload_marker_def ex_anchor_git_def ex_world_def m insert_Diff_if)
  with run p(2) show ?thesis by (force simp: ex_world_def)
qed

end
