(* ===== verification/Task_Results.thy ===== *)
theory Task_Results
  imports Cas_Store Home_Paths Task_Model
begin

text \<open>
  What a task leaves behind: the capture of its output files into the content-addressed store and
  their retrieval, \<open>task_artifacts.rs\<close>, and the cache that finds the outputs of an earlier run with
  the same inputs, \<open>task_cache.rs\<close>. The work tree of a run is the list of its files with their
  contents, or the error of reading one; globs, JSON, the clock, the platform and the outcome of each
  write are arguments.
\<close>

section \<open>Files\<close>

text \<open>
  \<open>fs::write\<close>, after the creation of the parent directories: a write that fails leaves whatever it
  has got to, possibly a part of the text.
\<close>

type_synonym write_outcome = "(dr_error \<times> string option) option"

definition fs_write :: "write_outcome \<Rightarrow> string \<Rightarrow> string \<Rightarrow> cas_files \<Rightarrow> cas_files \<times> unit result" where
  "fs_write w path text fs = (case w of
       Some (e, left) \<Rightarrow> (fs(path := left), Inl e)
     | None \<Rightarrow> (fs(path \<mapsto> text), Inr ()))"

definition safe_relative_path :: "string \<Rightarrow> string result" where
  "safe_relative_path p =
     (if trim_str p = [] \<or> list_ex (\<lambda>c. c = ParentDir \<or> c = RootDir) (path_components p)
      then Inl (Config (''artifact path must stay inside the runner workspace: '' @ debug_str p))
      else Inr p)"

section \<open>Artifacts\<close>

record artifact_entry =
  af_path :: string
  af_size_bytes :: u64
  af_chunk_hash :: string
  af_cas_manifest_id :: string
  af_cas_root_id :: string

record artifact_index =
  ax_task_run_id :: string
  ax_project_id :: string
  ax_task_name :: string
  ax_platform_key :: string
  ax_command_definition_hash :: string
  ax_outputs :: "string list"
  ax_entries :: "artifact_entry list"
  ax_missing_outputs :: "string list"
  ax_created_at :: u64

record capture_summary =
  as_task_run_id :: string
  as_captured_count :: nat
  as_missing_outputs :: "string list"
  as_total_bytes :: u64
  as_index_path :: string
  as_index :: artifact_index

record pull_result =
  pl_path :: string
  pl_destination :: string
  pl_size_bytes :: u64

record artifact_env =
  xe_cas :: cas_env
  xe_glob :: "string \<Rightarrow> (string \<Rightarrow> bool) result"
  xe_platform :: string
  xe_now :: u64
  xe_manifest_now :: "nat \<Rightarrow> u64"
  xe_root_now :: "nat \<Rightarrow> u64"
  xe_chunk_write :: "nat \<Rightarrow> dr_error option"
  xe_manifest_write :: "nat \<Rightarrow> dr_error option"
  xe_root_write :: "nat \<Rightarrow> dr_error option"
  xe_index_write :: write_outcome
  xe_print_index :: "artifact_index \<Rightarrow> string"
  xe_parse_index :: "string \<Rightarrow> artifact_index result"

definition validate_artifact_run_id :: "string \<Rightarrow> unit result" where
  "validate_artifact_run_id i =
     (if i = [] \<or> 128 < length i
        \<or> list_ex (\<lambda>c. \<not> (is_ascii_alphanumeric c \<or> c = CHR ''_'' \<or> c = CHR ''-'' \<or> c = CHR ''.'')) i
      then Inl (Config (''invalid task run id '' @ debug_str i)) else Inr ())"

definition validate_output_patterns :: "string list \<Rightarrow> unit result" where
  "validate_output_patterns outputs = check_all (\<lambda>o'. bind_r (safe_relative_path o') (\<lambda>_. Inr ())) outputs"

fun build_output_globs :: "(string \<Rightarrow> (string \<Rightarrow> bool) result) \<Rightarrow> string list \<Rightarrow> (string \<Rightarrow> bool) list result" where
  "build_output_globs glob [] = Inr []"
| "build_output_globs glob (p # ps) = bind_r (glob p) (\<lambda>g. bind_r (build_output_globs glob ps) (\<lambda>gs. Inr (g # gs)))"

definition matching_pattern_indexes :: "(string \<Rightarrow> bool) list \<Rightarrow> string \<Rightarrow> nat list" where
  "matching_pattern_indexes globs r = filter (\<lambda>i. (globs ! i) r) [0..<length globs]"

definition relative_text :: "string \<Rightarrow> string" where
  "relative_text p = map (\<lambda>c. if c = CHR 0x5C then CHR ''/'' else c) p"

definition artifact_root_id :: "string \<Rightarrow> nat \<Rightarrow> string" where
  "artifact_root_id run n = ''artifact-'' @ run @ ''-'' @ dec_nat n"

definition mark_matched :: "nat list \<Rightarrow> bool list \<Rightarrow> bool list" where
  "mark_matched is matched = foldl (\<lambda>m i. m[i := True]) matched is"

text \<open>The part of the loop that stores one file.\<close>

definition store_artifact ::
    "artifact_env \<Rightarrow> string \<Rightarrow> nat \<Rightarrow> string \<Rightarrow> string \<Rightarrow> cas_files \<Rightarrow> cas_files \<times> artifact_entry result" where
  "store_artifact x run n r b fs =
     (let hash = cas_hash_from_bytes (ce_blake3 (xe_cas x)) b in
      case upload_chunk (xe_cas x) (xe_chunk_write x n) b hash fs of
        (fs1, Inl e) \<Rightarrow> (fs1, Inl e)
      | (fs1, Inr _) \<Rightarrow> (case create_manifest (xe_cas x) (xe_manifest_now x n) (xe_manifest_write x n) [hash] fs1 of
          (fs2, Inl e) \<Rightarrow> (fs2, Inl e)
        | (fs2, Inr m) \<Rightarrow> (case add_reachability_root (xe_cas x) (xe_root_now x n) (xe_root_write x n) (artifact_root_id run n)
              (cm_manifest_id m) fs2 of
            (fs3, Inl e) \<Rightarrow> (fs3, Inl e)
          | (fs3, Inr _) \<Rightarrow> (fs3, Inr \<lparr>af_path = r, af_size_bytes = of_nat (length b), af_chunk_hash = hash,
                af_cas_manifest_id = cm_manifest_id m, af_cas_root_id = artifact_root_id run n\<rparr>))))"

fun capture_files ::
    "artifact_env \<Rightarrow> string \<Rightarrow> (string \<Rightarrow> bool) list \<Rightarrow> (string \<times> string result) list
      \<Rightarrow> artifact_entry list \<times> bool list \<times> u64 \<Rightarrow> cas_files \<Rightarrow> cas_files \<times> (artifact_entry list \<times> bool list \<times> u64) result" where
  "capture_files x run globs [] acc fs = (fs, Inr acc)"
| "capture_files x run globs ((p, content) # files) (entries, matched, total_bytes) fs =
     (let r = relative_text p; is = matching_pattern_indexes globs r in
      if is = [] then capture_files x run globs files (entries, matched, total_bytes) fs
      else case content of
        Inl e \<Rightarrow> (fs, Inl e)
      | Inr b \<Rightarrow> (case store_artifact x run (length entries) r b fs of
          (fs', Inl e) \<Rightarrow> (fs', Inl e)
        | (fs', Inr entry) \<Rightarrow> capture_files x run globs files
            (entries @ [entry], mark_matched is matched, sat_add total_bytes (of_nat (length b))) fs'))"

definition task_artifact_index_path :: "devrelay_home \<Rightarrow> string \<Rightarrow> string \<Rightarrow> string" where
  "task_artifact_index_path h project run = path_join (path_join (project_data_dir h project) ''artifacts'') (run @ ''.json'')"

definition missing_outputs_of :: "string list \<Rightarrow> bool list \<Rightarrow> string list" where
  "missing_outputs_of outputs matched = map fst (filter (\<lambda>(_, found). \<not> found) (zip outputs matched))"

text \<open>
  The capture. \<open>tree\<close> is what the walk over the work tree finds: paths relative to its dir, in any order.
  The first map is the chunk store, the second the files of the data directory.
\<close>

definition capture_task_artifacts ::
    "artifact_env \<Rightarrow> devrelay_home \<Rightarrow> string \<Rightarrow> (string \<times> string result) list result \<Rightarrow> task_definition
      \<Rightarrow> cas_files \<times> cas_files \<Rightarrow> (cas_files \<times> cas_files) \<times> capture_summary result" where
  "capture_task_artifacts x h run tree d st =
     (case st of (cas, data) \<Rightarrow>
     (case bind_r (validate_artifact_run_id run) (\<lambda>_. bind_r (validate_output_patterns (td_outputs d)) (\<lambda>_.
        bind_r (build_output_globs (xe_glob x) (td_outputs d)) (\<lambda>globs. bind_r tree (\<lambda>files.
          Inr (globs, sort_key (\<lambda>f. path_components (fst f)) files))))) of
       Inl e \<Rightarrow> (st, Inl e)
     | Inr (globs, files) \<Rightarrow> (case capture_files x run globs files ([], replicate (length (td_outputs d)) False, 0) cas of
         (cas', Inl e) \<Rightarrow> ((cas', data), Inl e)
       | (cas', Inr (entries, matched, total_bytes)) \<Rightarrow>
           (let missing = missing_outputs_of (td_outputs d) matched;
                idx = \<lparr>ax_task_run_id = run, ax_project_id = td_project_id d, ax_task_name = td_task_name d,
                  ax_platform_key = xe_platform x, ax_command_definition_hash = td_command_definition_hash d,
                  ax_outputs = td_outputs d, ax_entries = sort_key af_path entries, ax_missing_outputs = missing,
                  ax_created_at = xe_now x\<rparr>;
                path = task_artifact_index_path h (td_project_id d) run
            in case fs_write (xe_index_write x) path (xe_print_index x idx) data of
                 (data', Inl e) \<Rightarrow> ((cas', data'), Inl e)
               | (data', Inr _) \<Rightarrow> ((cas', data'), Inr \<lparr>as_task_run_id = run, as_captured_count = length entries,
                     as_missing_outputs = missing, as_total_bytes = total_bytes, as_index_path = path, as_index = idx\<rparr>)))))"

fun download_all :: "cas_env \<Rightarrow> cas_files \<Rightarrow> cas_manifest_chunk list \<Rightarrow> string result" where
  "download_all e fs [] = Inr []"
| "download_all e fs (c # cs) = bind_r (download_chunk e fs (cmc_hash c)) (\<lambda>b. bind_r (download_all e fs cs) (\<lambda>bs. Inr (b @ bs)))"

definition pull_task_artifact ::
    "cas_env \<Rightarrow> write_outcome \<Rightarrow> artifact_index \<Rightarrow> string \<Rightarrow> cas_files \<Rightarrow> string \<Rightarrow> cas_files \<Rightarrow> cas_files \<times> pull_result result" where
  "pull_task_artifact e w idx p cas dir dest =
     (case bind_r (case find (\<lambda>a. af_path a = p) (ax_entries idx) of
             None \<Rightarrow> Inl (Config (''unknown artifact path '' @ debug_str p)) | Some a \<Rightarrow> Inr a) (\<lambda>a.
           bind_r (safe_relative_path (af_path a)) (\<lambda>r. bind_r (fetch_manifest e cas (af_cas_manifest_id a)) (\<lambda>m.
           bind_r (download_all e cas (cm_chunks m)) (\<lambda>b. Inr (af_path a, path_join dir r, b))))) of
        Inl err \<Rightarrow> (dest, Inl err)
      | Inr (path, target, b) \<Rightarrow> (case fs_write w target b dest of
          (dest', Inl err) \<Rightarrow> (dest', Inl err)
        | (dest', Inr _) \<Rightarrow> (dest', Inr \<lparr>pl_path = path, pl_destination = target, pl_size_bytes = of_nat (length b)\<rparr>)))"

fun remove_artifact_roots :: "(string \<Rightarrow> dr_error option) \<Rightarrow> artifact_entry list \<Rightarrow> cas_files \<Rightarrow> cas_files \<times> string list result" where
  "remove_artifact_roots failure [] fs = (fs, Inr [])"
| "remove_artifact_roots failure (a # as) fs =
     (case remove_reachability_root (failure (af_cas_root_id a)) (af_cas_root_id a) fs of
        (fs', Inl e) \<Rightarrow> (fs', Inl e)
      | (fs', Inr b) \<Rightarrow> (case remove_artifact_roots failure as fs' of
          (fs'', Inl e) \<Rightarrow> (fs'', Inl e)
        | (fs'', Inr removed) \<Rightarrow> (fs'', Inr (if b then af_cas_root_id a # removed else removed))))"

definition apply_task_artifact_retention ::
    "(string \<Rightarrow> dr_error option) \<Rightarrow> artifact_index \<Rightarrow> cas_files \<Rightarrow> cas_files \<times> string list result" where
  "apply_task_artifact_retention failure idx fs = remove_artifact_roots failure (ax_entries idx) fs"

section \<open>The result cache\<close>

record sidecar_input =
  si_logical_path :: string
  si_file_mode :: string
  si_classification :: string
  si_size_bytes :: u64
  si_chunk_size_bytes :: u64
  si_root_hash :: string
  si_cas_manifest_id :: string

record cache_key_parts =
  kp_schema :: string
  kp_project_id :: string
  kp_task_name :: string
  kp_command_definition_hash :: string
  kp_platform_key :: string
  kp_environment_fingerprint :: string
  kp_input_state_hash :: string
  kp_input_head_oid :: string
  kp_input_index_tree_oid :: string
  kp_input_work_tree_oid :: string
  kp_sidecars :: "sidecar_input list"
  kp_outputs :: "string list"

record cache_key =
  ck_key :: string
  ck_parts :: cache_key_parts

record cache_eligibility =
  el_read :: bool
  el_write :: bool
  el_secret_sensitive :: bool
  el_explanation :: string

record cache_entry =
  en_key :: string
  en_key_parts :: cache_key_parts
  en_project_id :: string
  en_task_name :: string
  en_task_run_id :: string
  en_artifact_index :: artifact_index
  en_created_at :: u64

record cache_env =
  cv_blake3 :: "string \<Rightarrow> string"
  cv_print_parts :: "cache_key_parts \<Rightarrow> string"
  cv_print_entry :: "cache_entry \<Rightarrow> string"
  cv_parse_entry :: "string \<Rightarrow> cache_entry result"

definition validate_cache_field :: "string \<Rightarrow> string \<Rightarrow> unit result" where
  "validate_cache_field field v =
     (if trim_str v = [] then Inl (Config (''task result cache '' @ field @ '' must not be empty'')) else Inr ())"

definition sidecar_input_of :: "snapshot_sidecar \<Rightarrow> sidecar_input" where
  "sidecar_input_of s = \<lparr>si_logical_path = sd_logical_path s, si_file_mode = sd_file_mode s,
     si_classification = sd_classification s, si_size_bytes = sd_size_bytes s, si_chunk_size_bytes = sd_chunk_size_bytes s,
     si_root_hash = sd_root_hash s, si_cas_manifest_id = sd_cas_manifest_id s\<rparr>"

definition hash_cache_key_parts :: "cache_env \<Rightarrow> cache_key_parts \<Rightarrow> string" where
  "hash_cache_key_parts c parts = ''tc_'' @ take 32 (cv_blake3 c (cv_print_parts c parts))"

definition task_result_cache_key ::
    "cache_env \<Rightarrow> task_definition \<Rightarrow> snapshot_metadata \<Rightarrow> string \<Rightarrow> string \<Rightarrow> cache_key result" where
  "task_result_cache_key c d m platform fingerprint =
     bind_r (validate_cache_field ''platform_key'' platform) (\<lambda>_.
     bind_r (validate_cache_field ''environment_fingerprint'' fingerprint) (\<lambda>_.
     bind_r (validate_metadata m) (\<lambda>_.
     let parts = \<lparr>kp_schema = ''devrelay.task-result-cache.v1'', kp_project_id = td_project_id d, kp_task_name = td_task_name d,
           kp_command_definition_hash = td_command_definition_hash d, kp_platform_key = platform,
           kp_environment_fingerprint = fingerprint, kp_input_state_hash = sm_state_hash m, kp_input_head_oid = sm_head_oid m,
           kp_input_index_tree_oid = sm_index_tree_oid m, kp_input_work_tree_oid = sm_work_tree_oid m,
           kp_sidecars = sort_key (\<lambda>s. (si_logical_path s, si_cas_manifest_id s)) (map sidecar_input_of (sm_sidecars m)),
           kp_outputs = td_outputs d\<rparr>
     in Inr \<lparr>ck_key = hash_cache_key_parts c parts, ck_parts = parts\<rparr>)))"

definition task_result_cache_eligibility :: "task_definition \<Rightarrow> manifest \<Rightarrow> bool \<Rightarrow> cache_eligibility" where
  "task_result_cache_eligibility d m allow_secret_sensitive =
     (let (r, w, why) = (case (case td_cache d of None \<Rightarrow> CacheOff | Some v \<Rightarrow> v) of
            CacheOff \<Rightarrow> (False, False, ''task cache is off'')
          | CacheRead \<Rightarrow> (True, False, ''task cache is read-only'')
          | CacheWrite \<Rightarrow> (False, True, ''task cache is write-only'')
          | CacheReadWrite \<Rightarrow> (True, True, ''task cache is read-write''));
          secret = (pm_secrets m \<noteq> [])
      in if secret \<and> \<not> allow_secret_sensitive
         then \<lparr>el_read = False, el_write = False, el_secret_sensitive = secret,
           el_explanation = ''task cache disabled because the manifest declares secrets''\<rparr>
         else \<lparr>el_read = r, el_write = w, el_secret_sensitive = secret, el_explanation = why\<rparr>)"

definition validate_task_result_cache_key :: "string \<Rightarrow> unit result" where
  "validate_task_result_cache_key key =
     (if \<not> starts_with ''tc_'' key then Inl (Config (''invalid task result cache key '' @ debug_str key))
      else if length (drop 3 key) \<noteq> 32 \<or> \<not> list_all is_ascii_hexdigit (drop 3 key)
      then Inl (Config (''invalid task result cache key '' @ debug_str key)) else Inr ())"

definition task_result_cache_entry_path :: "devrelay_home \<Rightarrow> string \<Rightarrow> string \<Rightarrow> string result" where
  "task_result_cache_entry_path h project key =
     bind_r (validate_task_result_cache_key key) (\<lambda>_.
     Inr (path_join (path_join (project_data_dir h project) ''task-result-cache'') (key @ ''.json'')))"

definition validate_cache_result_matches_key :: "cache_key \<Rightarrow> artifact_index \<Rightarrow> unit result" where
  "validate_cache_result_matches_key k a =
     check_all (\<lambda>(field, actual, expected). if actual \<noteq> expected
         then Inl (Config (''task result cache artifact index '' @ field @ '' '' @ debug_str actual @ '' does not match key ''
                @ debug_str expected)) else Inr ())
       [(''project_id'', ax_project_id a, kp_project_id (ck_parts k)),
        (''task_name'', ax_task_name a, kp_task_name (ck_parts k)),
        (''platform_key'', ax_platform_key a, kp_platform_key (ck_parts k)),
        (''command_definition_hash'', ax_command_definition_hash a, kp_command_definition_hash (ck_parts k))]"

definition cache_entry_of :: "u64 \<Rightarrow> cache_key \<Rightarrow> artifact_index \<Rightarrow> cache_entry" where
  "cache_entry_of now k a = \<lparr>en_key = ck_key k, en_key_parts = ck_parts k, en_project_id = kp_project_id (ck_parts k),
     en_task_name = kp_task_name (ck_parts k), en_task_run_id = ax_task_run_id a, en_artifact_index = a, en_created_at = now\<rparr>"

definition store_task_result_cache ::
    "cache_env \<Rightarrow> u64 \<Rightarrow> write_outcome \<Rightarrow> devrelay_home \<Rightarrow> cache_key \<Rightarrow> artifact_index \<Rightarrow> cache_eligibility \<Rightarrow> cas_files
      \<Rightarrow> cas_files \<times> (string \<times> cache_entry) option result" where
  "store_task_result_cache c now w h k a el data =
     (if \<not> el_write el then (data, Inr None)
      else case bind_r (validate_cache_result_matches_key k a) (\<lambda>_.
          task_result_cache_entry_path h (kp_project_id (ck_parts k)) (ck_key k)) of
        Inl e \<Rightarrow> (data, Inl e)
      | Inr path \<Rightarrow>
          (let entry = cache_entry_of now k a
           in case fs_write w path (cv_print_entry c entry) data of
                (data', Inl e) \<Rightarrow> (data', Inl e)
              | (data', Inr _) \<Rightarrow> (data', Inr (Some (path, entry)))))"

definition lookup_task_result_cache ::
    "cache_env \<Rightarrow> devrelay_home \<Rightarrow> cache_key \<Rightarrow> cache_eligibility \<Rightarrow> cas_files \<Rightarrow> (string \<times> cache_entry) option result" where
  "lookup_task_result_cache c h k el data =
     (if \<not> el_read el then Inr None
      else bind_r (task_result_cache_entry_path h (kp_project_id (ck_parts k)) (ck_key k)) (\<lambda>path.
        case data path of
          None \<Rightarrow> Inr None
        | Some raw \<Rightarrow> bind_r (cv_parse_entry c raw) (\<lambda>entry.
            if en_key entry \<noteq> ck_key k \<or> en_key_parts entry \<noteq> ck_parts k
            then Inl (Config (''task result cache entry '' @ ck_key k @ '' does not match requested key''))
            else bind_r (validate_cache_result_matches_key k (en_artifact_index entry)) (\<lambda>_. Inr (Some (path, entry))))))"

fun restore_entries ::
    "cas_env \<Rightarrow> (string \<Rightarrow> write_outcome) \<Rightarrow> artifact_index \<Rightarrow> artifact_entry list \<Rightarrow> cas_files \<Rightarrow> string \<Rightarrow> pull_result list \<times> u64
      \<Rightarrow> cas_files \<Rightarrow> cas_files \<times> (pull_result list \<times> u64) result" where
  "restore_entries e w idx [] cas dir acc dest = (dest, Inr acc)"
| "restore_entries e w idx (a # as) cas dir (restored, total_bytes) dest =
     (case pull_task_artifact e (w (af_path a)) idx (af_path a) cas dir dest of
        (dest', Inl err) \<Rightarrow> (dest', Inl err)
      | (dest', Inr p) \<Rightarrow> restore_entries e w idx as cas dir (restored @ [p], sat_add total_bytes (pl_size_bytes p)) dest')"

definition restore_task_result_cache_hit ::
    "cas_env \<Rightarrow> (string \<Rightarrow> write_outcome) \<Rightarrow> cache_entry \<Rightarrow> cas_files \<Rightarrow> string \<Rightarrow> cas_files
      \<Rightarrow> cas_files \<times> (pull_result list \<times> u64) result" where
  "restore_task_result_cache_hit e w entry cas dir dest =
     restore_entries e w (en_artifact_index entry) (ax_entries (en_artifact_index entry)) cas dir ([], 0) dest"

section \<open>Facts\<close>

text \<open>What it is for a store to hold a content with its one-chunk manifest.\<close>

definition listed :: "cas_env \<Rightarrow> cas_files \<Rightarrow> string \<Rightarrow> bool" where
  "listed e fs b \<longleftrightarrow> (\<exists>m. fetch_manifest e fs (one_id e b) = Inr m \<and> cm_chunks m = one_chunk e b)"

definition held :: "cas_env \<Rightarrow> cas_files \<Rightarrow> string \<Rightarrow> bool" where
  "held e fs b \<longleftrightarrow> download_chunk e fs (cas_hash_from_bytes (ce_blake3 e) b) = Inr b \<and> listed e fs b"

text \<open>The contents at hand, \<open>A\<close>: BLAKE3 tells them and their manifests apart, and the store has no others.\<close>

definition no_collision :: "cas_env \<Rightarrow> string set \<Rightarrow> bool" where
  "no_collision e A \<longleftrightarrow> inj_on (ce_blake3 e) (A \<union> (\<lambda>b. manifest_id_input (one_chunk e b)) ` A)"

definition contents_in :: "cas_env \<Rightarrow> cas_files \<Rightarrow> string set \<Rightarrow> bool" where
  "contents_in e fs A \<longleftrightarrow> (\<forall>h c. download_chunk e fs h = Inr c \<longrightarrow> c \<in> A)"

lemma fetch_same:
  assumes "\<And>i. fs' (''manifests/'' @ i @ ''.json'') = fs (''manifests/'' @ i @ ''.json'')"
  shows "fetch_manifest e fs' i = fetch_manifest e fs i"
proof (cases "validate_hash_format i")
  case (Inr x)
  then show ?thesis using assms [of i] path_of_manifest [of i] by (simp add: fetch_manifest_def)
qed (simp add: fetch_manifest_def)

lemma download_hash: "download_chunk e fs h = Inr c \<Longrightarrow> h = cas_hash_from_bytes (ce_blake3 e) c \<and> fs (chunk_path h) = Some c"
  by (auto simp: download_chunk_def Let_def split: option.splits if_splits)

lemma upload_step:
  assumes up: "upload_chunk e w b (cas_hash_from_bytes (ce_blake3 e) b) fs = (fs', Inr r)"
    and A: "no_collision e A" "contents_in e fs A" "b \<in> A"
  shows "download_chunk e fs' (cas_hash_from_bytes (ce_blake3 e) b) = Inr b \<and> contents_in e fs' A
    \<and> (\<forall>h c. download_chunk e fs h = Inr c \<longrightarrow> download_chunk e fs' h = Inr c)
    \<and> (\<forall>i. fetch_manifest e fs' i = fetch_manifest e fs i)"
proof (cases "fs (chunk_path (cas_hash_from_bytes (ce_blake3 e) b))")
  case None
  then have fs': "fs' = fs(chunk_path (cas_hash_from_bytes (ce_blake3 e) b) \<mapsto> b)"
    using up by (auto simp: upload_chunk_def Let_def split: option.splits)
  have "download_chunk e fs' h = Inr c" if "download_chunk e fs h = Inr c" for h c
    using download_hash [OF that] that None by (auto simp: fs' download_chunk_def)
  moreover have "c \<in> A" if "download_chunk e fs' h = Inr c" for h c
  proof (cases "chunk_path h = chunk_path (cas_hash_from_bytes (ce_blake3 e) b)")
    case True then show ?thesis using download_hash [OF that] A(3) by (auto simp: fs')
  next
    case False
    then have "download_chunk e fs h = Inr c" using that by (simp add: download_chunk_def fs')
    then show ?thesis using A(2) by (auto simp: contents_in_def)
  qed
  moreover have "download_chunk e fs' (cas_hash_from_bytes (ce_blake3 e) b) = Inr b" by (simp add: fs' download_chunk_def)
  moreover have "fetch_manifest e fs' i = fetch_manifest e fs i" for i by (rule fetch_same) (simp add: fs' chunk_path_def Let_def)
  ultimately show ?thesis by (auto simp: contents_in_def)
next
  case (Some c)
  then obtain n where "fs' = fs" "verify_chunk_file e fs (cas_hash_from_bytes (ce_blake3 e) b) = Inr n"
    using up by (auto simp: upload_chunk_def Let_def tx_simps)
  moreover from this(2) obtain d where d: "download_chunk e fs (cas_hash_from_bytes (ce_blake3 e) b) = Inr d"
    by (auto simp: verify_chunk_file_def tx_simps)
  moreover have "d = b"
    using download_hash [OF d] d A by (auto simp: cas_hash_from_bytes_def no_collision_def contents_in_def inj_on_def)
  ultimately show ?thesis using A by simp
qed

lemma one_id_inject:
  assumes "hex_hash (ce_blake3 e)" "no_collision e A" "b \<in> A" "c \<in> A" "one_id e b = one_id e c"
  shows "one_chunk e b = one_chunk e c"
proof -
  have "manifest_id_input (one_chunk e b) = manifest_id_input (one_chunk e c)"
    using assms by (auto simp: one_id_def calculate_manifest_id_def no_collision_def inj_on_def)
  moreover have "valid_hashes (map cmc_hash (one_chunk e d))" for d
    using hash_is_valid [OF assms(1)] by (simp add: valid_hashes_def one_chunk_def cas_hash_from_bytes_def)
  ultimately show ?thesis by (intro manifest_input_inject) (simp_all add: manifest_id_input_def)
qed

lemma create_step:
  assumes cr: "create_manifest e now w [cas_hash_from_bytes (ce_blake3 e) b] fs = (fs', Inr m)"
    and e: "hex_hash (ce_blake3 e)" "manifest_codec e" and A: "no_collision e A" "b \<in> A"
    and d: "download_chunk e fs (cas_hash_from_bytes (ce_blake3 e) b) = Inr b"
  shows "cm_manifest_id m = one_id e b \<and> listed e fs' b \<and> (\<forall>h. download_chunk e fs' h = download_chunk e fs h)
    \<and> (\<forall>c\<in>A. listed e fs c \<longrightarrow> listed e fs' c)"
proof -
  from create_one [OF e d, of now w] cr have
    m: "cm_manifest_id m = one_id e b" "cm_chunks m = one_chunk e b"
    and fs': "fs' = fs(''manifests/'' @ one_id e b @ ''.json'' \<mapsto> ce_print_manifest e m @ [CHR 0x0A])"
    and f: "fetch_manifest e fs' (one_id e b) = Inr m"
    by (auto split: option.splits)
  have here: "listed e fs' b" using m f by (auto simp: listed_def)
  have "listed e fs' c" if "c \<in> A" "listed e fs c" for c
  proof (cases "one_id e c = one_id e b")
    case True
    then show ?thesis using here one_id_inject [OF e(1) A(1) that(1) A(2)] by (simp add: listed_def)
  next
    case False
    then have "fetch_manifest e fs' (one_id e c) = fetch_manifest e fs (one_id e c)"
      using one_id_valid [OF e(1)] path_of_manifest [of "one_id e c"] by (simp add: fetch_manifest_def fs')
    then show ?thesis using that by (simp add: listed_def)
  qed
  moreover have "download_chunk e fs' h = download_chunk e fs h" for h
    by (rule download_same) (simp add: fs' chunk_path_def Let_def)
  ultimately show ?thesis using here m by simp
qed

lemma root_step:
  assumes "add_reachability_root e now w i mid fs = (fs', Inr r)"
  shows "(\<forall>h. download_chunk e fs' h = download_chunk e fs h) \<and> (\<forall>j. fetch_manifest e fs' j = fetch_manifest e fs j)"
proof -
  obtain t where fs': "fs' = fs(''roots/'' @ i @ ''.json'' \<mapsto> t)"
    using assms by (auto simp: add_reachability_root_def reachability_root_path_def write_json_atomically_def tx_simps Let_def
        split: sum.splits option.splits)
  show ?thesis by (intro conjI allI download_same fetch_same) (simp_all add: fs' chunk_path_def Let_def)
qed

lemma store_step:
  assumes st: "store_artifact x run n r b fs = (fs', Inr a)"
    and e: "hex_hash (ce_blake3 (xe_cas x))" "manifest_codec (xe_cas x)"
    and A: "no_collision (xe_cas x) A" "contents_in (xe_cas x) fs A" "b \<in> A"
  shows "af_path a = r \<and> af_cas_manifest_id a = one_id (xe_cas x) b \<and> held (xe_cas x) fs' b \<and> contents_in (xe_cas x) fs' A
    \<and> (\<forall>c\<in>A. held (xe_cas x) fs c \<longrightarrow> held (xe_cas x) fs' c)"
proof -
  let ?e = "xe_cas x" and ?h = "cas_hash_from_bytes (ce_blake3 (xe_cas x)) b"
  from st obtain fs1 u fs2 m q where
    u: "upload_chunk ?e (xe_chunk_write x n) b ?h fs = (fs1, Inr u)"
    and m: "create_manifest ?e (xe_manifest_now x n) (xe_manifest_write x n) [?h] fs1 = (fs2, Inr m)"
    and q: "add_reachability_root ?e (xe_root_now x n) (xe_root_write x n) (artifact_root_id run n) (cm_manifest_id m) fs2 = (fs', Inr q)"
    and a: "af_path a = r" "af_cas_manifest_id a = cm_manifest_id m"
    by (auto simp: store_artifact_def Let_def split: prod.splits sum.splits)
  note U = upload_step [OF u A]
  note M = create_step [OF m e A(1) A(3) conjunct1 [OF U]]
  note Q = root_step [OF q]
  have l: "listed ?e fs' c \<longleftrightarrow> listed ?e fs2 c" "listed ?e fs1 c \<longleftrightarrow> listed ?e fs c" for c
    using Q U by (simp_all add: listed_def)
  show ?thesis using a U M Q l by (simp add: held_def contents_in_def)
qed

definition stored_as :: "cas_env \<Rightarrow> cas_files \<Rightarrow> artifact_entry \<Rightarrow> string \<times> string result \<Rightarrow> bool" where
  "stored_as e fs a f \<longleftrightarrow> (\<exists>b. snd f = Inr b \<and> af_path a = relative_text (fst f) \<and> af_cas_manifest_id a = one_id e b \<and> held e fs b)"

lemma capture_loop:
  assumes "capture_files x run globs files (entries, matched, n) fs = (fs', Inr (entries', matched', n'))"
    and e: "hex_hash (ce_blake3 (xe_cas x))" "manifest_codec (xe_cas x)"
    and A: "no_collision (xe_cas x) A" "contents_in (xe_cas x) fs A" "\<forall>f\<in>set files. \<forall>b. snd f = Inr b \<longrightarrow> b \<in> A"
  shows "(\<exists>new. entries' = entries @ new
      \<and> list_all2 (stored_as (xe_cas x) fs') new
          (filter (\<lambda>f. matching_pattern_indexes globs (relative_text (fst f)) \<noteq> []) files))
    \<and> (\<forall>c\<in>A. held (xe_cas x) fs c \<longrightarrow> held (xe_cas x) fs' c)"
  using assms(1) A(2,3)
proof (induction files arbitrary: entries matched n fs)
  case (Cons f files)
  obtain p content where f: "f = (p, content)" by fastforce
  show ?case
  proof (cases "matching_pattern_indexes globs (relative_text p) = []")
    case True
    then show ?thesis using Cons by (simp add: f)
  next
    case False
    then obtain b fs1 a where b: "content = Inr b" "store_artifact x run (length entries) (relative_text p) b fs = (fs1, Inr a)"
      and rest: "capture_files x run globs files (entries @ [a], mark_matched (matching_pattern_indexes globs (relative_text p)) matched,
          sat_add n (of_nat (length b))) fs1 = (fs', Inr (entries', matched', n'))"
      using Cons.prems(1) by (auto simp: f Let_def split: sum.splits prod.splits)
    have "b \<in> A" using Cons.prems(3) by (simp add: f b(1))
    note S = store_step [OF b(2) e A(1) Cons.prems(2) this]
    from Cons.IH [OF rest] S Cons.prems(3) obtain new where
      new: "entries' = (entries @ [a]) @ new" "list_all2 (stored_as (xe_cas x) fs') new
          (filter (\<lambda>f. matching_pattern_indexes globs (relative_text (fst f)) \<noteq> []) files)"
      and keep: "\<forall>c\<in>A. held (xe_cas x) fs1 c \<longrightarrow> held (xe_cas x) fs' c" by auto
    have "stored_as (xe_cas x) fs' a f" using S keep \<open>b \<in> A\<close> by (auto simp: stored_as_def f b(1))
    then show ?thesis using new keep S False by (intro conjI exI [of _ "a # new"]) (auto simp: f)
  qed
qed simp


lemma globs_built: "build_output_globs glob ps = Inr globs \<Longrightarrow> list_all2 (\<lambda>p g. glob p = Inr g) ps globs"
  by (induction ps arbitrary: globs) (auto simp: tx_simps)

lemma matching_iff: "matching_pattern_indexes globs r \<noteq> [] \<longleftrightarrow> (\<exists>g\<in>set globs. g r)"
  by (auto simp: matching_pattern_indexes_def filter_empty_conv set_conv_nth)

lemma find_unique: "distinct (map f xs) \<Longrightarrow> x \<in> set xs \<Longrightarrow> find (\<lambda>a. f a = f x) xs = Some x"
  by (induction xs) (auto simp: rev_image_eqI)

lemma stored_paths:
  "list_all2 (stored_as e fs) new files \<Longrightarrow> map af_path new = map (\<lambda>f. relative_text (fst f)) files"
  by (induction rule: list_all2_induct) (auto simp: stored_as_def)

lemma stored_lookup:
  assumes "list_all2 (stored_as e fs) new files" "(p, Inr b) \<in> set files"
  shows "\<exists>a\<in>set new. af_path a = relative_text p \<and> af_cas_manifest_id a = one_id e b \<and> held e fs b"
  using assms by (induction rule: list_all2_induct) (auto simp: stored_as_def)

lemma safe_path_same: "safe_relative_path p = Inr q \<Longrightarrow> q = p"
  by (simp add: safe_relative_path_def split: if_splits)

section \<open>Properties\<close>

text \<open>
  C35. What a run leaves is what a pull delivers. After a capture, every file of the work tree that
  matches a declared output can be pulled by its path, through the manifest and the chunks of the
  store, and the destination then holds exactly its bytes; paths must be distinct once
  backslashes are read as slashes, and BLAKE3 must not collide on the contents at hand.
\<close>

theorem artifacts_round_trip:
  assumes e: "hex_hash (ce_blake3 (xe_cas x))" "manifest_codec (xe_cas x)"
    and A: "no_collision (xe_cas x) A" "contents_in (xe_cas x) cas A" "\<forall>f\<in>set files. \<forall>b. snd f = Inr b \<longrightarrow> b \<in> A"
    and dist: "distinct (map (\<lambda>f. relative_text (fst f)) files)"
    and run: "capture_task_artifacts x h i (Inr files) d (cas, data) = ((cas', data'), Inr s)"
    and hit: "(p, Inr b) \<in> set files" "pat \<in> set (td_outputs d)" "xe_glob x pat = Inr g" "g (relative_text p)"
    and safe: "safe_relative_path (relative_text p) = Inr r"
  shows "pull_task_artifact (xe_cas x) None (as_index s) (relative_text p) cas' dir dest
    = (dest(path_join dir r \<mapsto> b), Inr \<lparr>pl_path = relative_text p, pl_destination = path_join dir r, pl_size_bytes = of_nat (length b)\<rparr>)"
proof -
  let ?files = "sort_key (\<lambda>f. path_components (fst f)) files"
  obtain globs entries matched n where g: "build_output_globs (xe_glob x) (td_outputs d) = Inr globs"
    and loop: "capture_files x i globs ?files ([], replicate (length (td_outputs d)) False, 0) cas = (cas', Inr (entries, matched, n))"
    and s: "ax_entries (as_index s) = sort_key af_path entries"
    using run by (auto simp: capture_task_artifacts_def tx_simps Let_def split: sum.splits prod.splits)
  from globs_built [OF g] hit(2,3) have "g \<in> set globs"
    by (auto simp: list_all2_conv_all_nth in_set_conv_nth)
  then have found: "matching_pattern_indexes globs (relative_text p) \<noteq> []" using hit(4) by (auto simp: matching_iff)
  let ?hits = "filter (\<lambda>f. matching_pattern_indexes globs (relative_text (fst f)) \<noteq> []) ?files"
  have st: "list_all2 (stored_as (xe_cas x) cas') entries ?hits"
    using capture_loop [OF loop e A(1,2)] A(3) by auto
  have "distinct (map (\<lambda>f. relative_text (fst f)) ?files)"
  proof -
    have "mset (map (\<lambda>f. relative_text (fst f)) ?files) = mset (map (\<lambda>f. relative_text (fst f)) files)" by simp
    then show ?thesis using dist by (metis mset_eq_imp_distinct_iff)
  qed
  then have "distinct (map af_path entries)" by (simp add: stored_paths [OF st] distinct_map_filter)
  moreover have "mset (map af_path (sort_key af_path entries)) = mset (map af_path entries)" by simp
  ultimately have dp: "distinct (map af_path (sort_key af_path entries))" by (metis mset_eq_imp_distinct_iff)
  from stored_lookup [OF st, of p b] hit(1) found obtain a where
    a: "a \<in> set entries" "af_path a = relative_text p" "af_cas_manifest_id a = one_id (xe_cas x) b" "held (xe_cas x) cas' b" by auto
  have f: "find (\<lambda>q. af_path q = relative_text p) (sort_key af_path entries) = Some a"
    using find_unique [OF dp, of a] a(1,2) by simp
  from a(4) obtain m where m: "fetch_manifest (xe_cas x) cas' (one_id (xe_cas x) b) = Inr m"
    "cm_chunks m = one_chunk (xe_cas x) b" "download_chunk (xe_cas x) cas' (cas_hash_from_bytes (ce_blake3 (xe_cas x)) b) = Inr b"
    by (auto simp: held_def listed_def)
  show ?thesis using f m a(2,3) safe safe_path_same [OF safe]
    by (simp add: pull_task_artifact_def s one_chunk_def fs_write_def)
qed

text \<open>Sample data: one output file, one pattern that matches everything.\<close>

definition ex_task_output :: task_definition where
  "ex_task_output = \<lparr>td_project_id = ''p1'', td_task_name = ''build'', td_profile_name = ''dev'', td_profile_kind = EnvNative,
     td_command = [''make''], td_platforms = [], td_cpu = None, td_memory_mib = None, td_disk_mib = None, td_interactive = False,
     td_cache = Some CacheReadWrite, td_outputs = [''*''], td_features = [], td_sandbox = None,
     td_command_definition_hash = ''h''\<rparr>"

definition ex_artifact_env :: artifact_env where
  "ex_artifact_env = \<lparr>xe_cas = ex_cas_env, xe_glob = (\<lambda>_. Inr (\<lambda>_. True)), xe_platform = ''linux-x86_64'', xe_now = 7,
     xe_manifest_now = (\<lambda>_. 7), xe_root_now = (\<lambda>_. 7), xe_chunk_write = (\<lambda>_. None), xe_manifest_write = (\<lambda>_. None),
     xe_root_write = (\<lambda>_. None), xe_index_write = None, xe_print_index = ax_task_run_id, xe_parse_index = (\<lambda>_. Inl (Json []))\<rparr>"

lemma ex_artifact_env_sel [simp]:
  "xe_cas ex_artifact_env = ex_cas_env" "xe_glob ex_artifact_env = (\<lambda>_. Inr (\<lambda>_. True))"
  "xe_manifest_now ex_artifact_env = (\<lambda>_. 7)" "xe_root_now ex_artifact_env = (\<lambda>_. 7)"
  "xe_chunk_write ex_artifact_env = (\<lambda>_. None)" "xe_manifest_write ex_artifact_env = (\<lambda>_. None)"
  "xe_root_write ex_artifact_env = (\<lambda>_. None)" "xe_index_write ex_artifact_env = None"
  by (simp_all add: ex_artifact_env_def)

lemma ex_no_collision: "no_collision ex_cas_env {''first''}"
proof -
  let ?i = "manifest_id_input (one_chunk ex_cas_env ''first'')"
  have "length ?i = 107"
    using valid_hash_length [OF hash_is_valid [OF ex_blake3_hex, of "''first''"]]
    by (simp add: manifest_id_input_def manifest_chunk_input_def one_chunk_def cas_hash_from_bytes_def ex_cas_env_def)
  moreover have "ex_blake3 b = replicate 61 (CHR ''0'') @ ''107''" if "length b = 107" for b
  proof -
    have "dec_nat 107 = ''107''" by code_simp
    then show ?thesis by (simp add: ex_blake3_def that)
  qed
  ultimately have "ex_blake3 ?i = replicate 61 (CHR ''0'') @ ''107''" by blast
  then have "ex_blake3 ?i \<noteq> ex_blake3 ''first''" by (simp add: ex_hashes eval_nat_numeral)
  moreover have "ce_blake3 ex_cas_env = ex_blake3" by (simp add: ex_cas_env_def)
  ultimately show ?thesis by (auto simp: no_collision_def)
qed

lemma ex_store: "\<exists>cas' a. store_artifact ex_artifact_env ''run-1'' 0 ''out.txt'' ''first'' Map.empty = (cas', Inr a)"
proof -
  let ?h = "cas_hash_from_bytes ex_blake3 ''first''"
  let ?fs = "[chunk_path ?h \<mapsto> ''first'']"
  have b: "ce_blake3 ex_cas_env = ex_blake3" by (simp add: ex_cas_env_def)
  have d: "download_chunk ex_cas_env ?fs (cas_hash_from_bytes (ce_blake3 ex_cas_env) ''first'') = Inr ''first''"
    by (simp add: download_chunk_def b)
  have e: "hex_hash (ce_blake3 ex_cas_env)" using ex_blake3_hex by (simp add: b)
  from create_one [OF e ex_manifest_codec d, of 7 None] obtain m where
    m: "cm_manifest_id m = one_id ex_cas_env ''first''"
      "create_manifest ex_cas_env 7 None [?h] ?fs
        = (?fs(''manifests/'' @ one_id ex_cas_env ''first'' @ ''.json'' \<mapsto> ce_print_manifest ex_cas_env m @ [CHR 0x0A]), Inr m)"
      "fetch_manifest ex_cas_env (?fs(''manifests/'' @ one_id ex_cas_env ''first'' @ ''.json'' \<mapsto> ce_print_manifest ex_cas_env m @ [CHR 0x0A]))
        (one_id ex_cas_env ''first'') = Inr m"
    by (auto simp: b)
  have zero: "dec_nat 0 = ''0''" by code_simp
  have r: "validate_root_id (artifact_root_id ''run-1'' 0) = Inr ()"
    by (simp add: validate_root_id_def unsafe_component_def artifact_root_id_def starts_with_def zero)
  have u: "upload_chunk ex_cas_env None ''first'' ?h Map.empty
      = (?fs, Inr \<lparr>cur_chunk = \<lparr>ccr_hash = ?h, ccr_size_bytes = 5\<rparr>, cur_stored = True\<rparr>)"
    by (simp add: upload_chunk_def b Let_def)
  show ?thesis using m r u
    by (simp add: store_artifact_def b add_reachability_root_def reachability_root_path_def
        write_json_atomically_def Let_def)
qed

theorem artifacts_round_trip_witness:
  "\<exists>st s. capture_task_artifacts ex_artifact_env (home_new ''/home'') ''run-1'' (Inr [(''out.txt'', Inr ''first'')]) ex_task_output
        (Map.empty, Map.empty) = (st, Inr s)
     \<and> fst (pull_task_artifact ex_cas_env None (as_index s) ''out.txt'' (fst st) ''/tmp'' Map.empty) ''/tmp/out.txt'' = Some ''first''"
proof -
  have r: "relative_text ''out.txt'' = ''out.txt''" by (simp add: relative_text_def)
  have safe: "safe_relative_path ''*'' = Inr ''*''" "safe_relative_path ''out.txt'' = Inr ''out.txt''" by code_simp+
  from ex_store obtain cas' a where st: "store_artifact ex_artifact_env ''run-1'' 0 ''out.txt'' ''first'' Map.empty = (cas', Inr a)"
    by blast
  have "\<exists>data' s. capture_task_artifacts ex_artifact_env (home_new ''/home'') ''run-1'' (Inr [(''out.txt'', Inr ''first'')])
      ex_task_output (Map.empty, Map.empty) = ((cas', data'), Inr s)"
    using st safe(1)
    by (simp add: capture_task_artifacts_def validate_artifact_run_id_def is_ascii_alphanumeric_def is_ascii_digit_def
        is_ascii_lower_def validate_output_patterns_def ex_task_output_def r
        matching_pattern_indexes_def mark_matched_def fs_write_def Let_def)
  then obtain data' s where run: "capture_task_artifacts ex_artifact_env (home_new ''/home'') ''run-1''
      (Inr [(''out.txt'', Inr ''first'')]) ex_task_output (Map.empty, Map.empty) = ((cas', data'), Inr s)" by blast
  have "pull_task_artifact (xe_cas ex_artifact_env) None (as_index s) (relative_text ''out.txt'') cas' ''/tmp'' Map.empty
    = ([path_join ''/tmp'' ''out.txt'' \<mapsto> ''first''], Inr \<lparr>pl_path = relative_text ''out.txt'',
        pl_destination = path_join ''/tmp'' ''out.txt'', pl_size_bytes = of_nat (length ''first'')\<rparr>)"
  proof (rule artifacts_round_trip [OF _ _ _ _ _ _ run])
    show "hex_hash (ce_blake3 (xe_cas ex_artifact_env))" using ex_blake3_hex by (simp add: ex_cas_env_def)
    show "manifest_codec (xe_cas ex_artifact_env)" by (simp add: ex_manifest_codec)
    show "no_collision (xe_cas ex_artifact_env) {''first''}" by (simp add: ex_no_collision)
    show "contents_in (xe_cas ex_artifact_env) Map.empty {''first''}" by (simp add: contents_in_def download_chunk_def)
    show "''*'' \<in> set (td_outputs ex_task_output)" by (simp add: ex_task_output_def)
    show "xe_glob ex_artifact_env ''*'' = Inr (\<lambda>_. True)" by simp
    show "safe_relative_path (relative_text ''out.txt'') = Inr ''out.txt''" using safe(2) by (simp add: r)
  qed simp_all
  moreover have "path_join ''/tmp'' ''out.txt'' = ''/tmp/out.txt''" by (simp add: path_join_def starts_with_def ends_with_def)
  ultimately show ?thesis using run by (intro exI [of _ "(cas', data')"] exI [of _ s]) (simp add: r)
qed

text \<open>
  A cache hit is for the same inputs. Whatever the cache directory holds, a hit for the key of an
  execution was stored for the same state hash, head and trees of the snapshot, the same sidecars,
  the same command definition, platform and environment, and its artifacts carry that identity.
\<close>

theorem cache_hit_is_genuine:
  assumes "task_result_cache_key c d m platform fingerprint = Inr k"
    and "lookup_task_result_cache c h k el data = Inr (Some (path, en))"
  shows "el_read el \<and> kp_input_state_hash (en_key_parts en) = sm_state_hash m \<and> kp_input_head_oid (en_key_parts en) = sm_head_oid m
    \<and> kp_input_index_tree_oid (en_key_parts en) = sm_index_tree_oid m \<and> kp_input_work_tree_oid (en_key_parts en) = sm_work_tree_oid m
    \<and> set (kp_sidecars (en_key_parts en)) = sidecar_input_of ` set (sm_sidecars m)
    \<and> kp_command_definition_hash (en_key_parts en) = td_command_definition_hash d
    \<and> kp_platform_key (en_key_parts en) = platform \<and> kp_environment_fingerprint (en_key_parts en) = fingerprint
    \<and> ax_project_id (en_artifact_index en) = td_project_id d \<and> ax_task_name (en_artifact_index en) = td_task_name d
    \<and> ax_platform_key (en_artifact_index en) = platform
    \<and> ax_command_definition_hash (en_artifact_index en) = td_command_definition_hash d"
  using assms
  by (auto simp: task_result_cache_key_def lookup_task_result_cache_def validate_cache_result_matches_key_def tx_simps Let_def
      split: if_splits option.splits)

text \<open>
  What is stored is found. With a cache that may be read and written, storing the artifacts of a run
  under the key of its execution makes the lookup of that key return exactly this entry, and no
  other key's entry changes.
\<close>

theorem stored_result_is_found:
  assumes k: "task_result_cache_key c d m platform fingerprint = Inr k" and hex: "hex_hash (cv_blake3 c)"
    and codec: "cv_parse_entry c (cv_print_entry c (cache_entry_of now k a)) = Inr (cache_entry_of now k a)" and el: "el_read el" "el_write el"
    and a: "validate_cache_result_matches_key k a = Inr ()"
  shows "\<exists>path en data'. store_task_result_cache c now None h k a el data = (data', Inr (Some (path, en)))
    \<and> en_artifact_index en = a \<and> lookup_task_result_cache c h k el data' = Inr (Some (path, en))
    \<and> (\<forall>q. q \<noteq> path \<longrightarrow> data' q = data q)"
proof -
  have key: "ck_key k = ''tc_'' @ take 32 (cv_blake3 c (cv_print_parts c (ck_parts k)))"
    using k by (auto simp: task_result_cache_key_def hash_cache_key_parts_def tx_simps Let_def)
  let ?hx = "cv_blake3 c (cv_print_parts c (ck_parts k))"
  have "length ?hx = 64" "list_all is_lower_hexdigit ?hx" using hex by (simp_all add: hex_hash_def BLAKE3_HEX_LEN_def)
  then have "length (take 32 ?hx) = 32" "list_all is_ascii_hexdigit (take 32 ?hx)"
    by (auto simp: list_all_iff is_lower_hexdigit_def is_ascii_hexdigit_def dest!: in_set_takeD)
  then have "validate_task_result_cache_key (ck_key k) = Inr ()"
    by (simp add: validate_task_result_cache_key_def key starts_with_def)
  then obtain path where p: "task_result_cache_entry_path h (kp_project_id (ck_parts k)) (ck_key k) = Inr path"
    by (simp add: task_result_cache_entry_path_def)
  show ?thesis using p el a codec
    by (simp add: store_task_result_cache_def lookup_task_result_cache_def fs_write_def cache_entry_of_def Let_def)
qed

text \<open>A torn entry makes every lookup of its key fail, where a missing one is a plain miss.\<close>

lemma torn_entry_fails_lookup:
  assumes "store_task_result_cache c now (Some (e, Some left)) h k a el data = (data', Inl e)" "el_write el" "el_read el"
    and "validate_cache_result_matches_key k a = Inr ()" "cv_parse_entry c left = Inl err"
    and "task_result_cache_entry_path h (kp_project_id (ck_parts k)) (ck_key k) = Inr path"
  shows "lookup_task_result_cache c h k el data' = Inl err"
  using assms by (auto simp: store_task_result_cache_def lookup_task_result_cache_def fs_write_def Let_def)

end
