(* ===== verification/Polling_Watcher.thy ===== *)
theory Polling_Watcher
  imports Watch_State
begin

text \<open>
  The polling watcher of \<open>watcher.rs\<close>, for file systems without change notification: it keeps the last
  scan of every workspace and reports the paths whose fingerprint differs in the next. The disk is
  a function from a workspace's root to the tree found there; a node or a directory that cannot be
  read carries its error.
\<close>

section \<open>Scanning\<close>

datatype fs_tree =
    Unreadable dr_error
  | Entry file_fingerprint "(string \<times> fs_tree) list result"

type_synonym scan = "(path, file_fingerprint) btree_map"

fun scan_path :: "path \<Rightarrow> fs_tree \<Rightarrow> scan \<Rightarrow> scan result"
  and scan_entries :: "path \<Rightarrow> (string \<times> fs_tree) list \<Rightarrow> scan \<Rightarrow> scan result" where
  "scan_path p (Unreadable e) acc = Inl e"
| "scan_path p (Entry f (Inl e)) acc = (if ff_is_dir f then Inl e else Inr (bt_insert p f acc))"
| "scan_path p (Entry f (Inr cs)) acc =
     (if ff_is_dir f then scan_entries p cs (bt_insert p f acc) else Inr (bt_insert p f acc))"
| "scan_entries p [] acc = Inr acc"
| "scan_entries p ((n, t) # cs) acc = bind_r (scan_path (p @ [Normal n]) t acc) (\<lambda>acc'. scan_entries p cs acc')"

definition scan_workspace :: "path \<Rightarrow> fs_tree \<Rightarrow> scan result" where
  "scan_workspace r t = (case t of
       Unreadable e \<Rightarrow> Inl e
     | Entry f es \<Rightarrow> if ff_is_dir f then bind_r es (\<lambda>cs. scan_entries r cs []) else Inr [(r, f)])"

section \<open>The watcher\<close>

record polling_watcher =
  pw_workspaces :: "(string, workspace_watch) btree_map"
  pw_snapshots :: "(string, scan) btree_map"

definition new_polling_watcher :: polling_watcher where
  "new_polling_watcher = \<lparr>pw_workspaces = [], pw_snapshots = []\<rparr>"

definition poll_watch :: "(path \<Rightarrow> fs_tree) \<Rightarrow> workspace_watch \<Rightarrow> polling_watcher \<Rightarrow> polling_watcher \<times> unit result" where
  "poll_watch disk w s =
     (case bind_r (validate_watch w) (\<lambda>_. scan_workspace (ww_root w) (disk (ww_root w))) of
        Inl e \<Rightarrow> (s, Inl e)
      | Inr sc \<Rightarrow> (s\<lparr>pw_snapshots := bt_insert (ww_workspace_id w) sc (pw_snapshots s),
            pw_workspaces := bt_insert (ww_workspace_id w) w (pw_workspaces s)\<rparr>, Inr ()))"

definition poll_unwatch :: "string \<Rightarrow> polling_watcher \<Rightarrow> polling_watcher" where
  "poll_unwatch k s = s\<lparr>pw_snapshots := bt_remove k (pw_snapshots s), pw_workspaces := bt_remove k (pw_workspaces s)\<rparr>"

definition poll_shutdown :: "polling_watcher \<Rightarrow> polling_watcher" where
  "poll_shutdown s = s\<lparr>pw_snapshots := [], pw_workspaces := []\<rparr>"

text \<open>
  One poll. The events are sent to the channel as they are found, so those found before an error have
  been sent; the second component is what was sent.
\<close>

fun poll_workspaces ::
    "(path \<Rightarrow> fs_tree) \<Rightarrow> (string \<times> workspace_watch) list \<Rightarrow> (string, scan) btree_map \<Rightarrow> fs_raw_event list
      \<Rightarrow> (string, scan) btree_map \<times> fs_raw_event list \<times> unit result" where
  "poll_workspaces disk [] snaps sent = (snaps, sent, Inr ())"
| "poll_workspaces disk ((k, w) # ws) snaps sent =
     (case scan_workspace (ww_root w) (disk (ww_root w)) of
        Inl e \<Rightarrow> (snaps, sent, Inl e)
      | Inr current \<Rightarrow>
          (let paths = changed_paths (bt_get_or [] snaps k) current; snaps' = bt_insert k current snaps
           in if paths = [] then poll_workspaces disk ws snaps' sent
              else poll_workspaces disk ws snaps' (sent @ [new_raw_event Modify paths])))"

definition poll_once ::
    "(path \<Rightarrow> fs_tree) \<Rightarrow> polling_watcher \<Rightarrow> polling_watcher \<times> fs_raw_event list \<times> fs_raw_event list result" where
  "poll_once disk s = (case poll_workspaces disk (pw_workspaces s) (pw_snapshots s) [] of
       (snaps, sent, r) \<Rightarrow> (s\<lparr>pw_snapshots := snaps\<rparr>, sent, bind_r r (\<lambda>_. Inr sent)))"

text \<open>A run of polls, one for each state of the disk, and everything it sends.\<close>

fun poll_run :: "(path \<Rightarrow> fs_tree) list \<Rightarrow> polling_watcher \<Rightarrow> polling_watcher \<times> fs_raw_event list" where
  "poll_run [] s = (s, [])"
| "poll_run (disk # disks) s = (case poll_once disk s of
       (s', sent, _) \<Rightarrow> (case poll_run disks s' of (s'', later) \<Rightarrow> (s'', sent @ later)))"

section \<open>Facts\<close>

definition polling_wf :: "polling_watcher \<Rightarrow> bool" where
  "polling_wf s \<longleftrightarrow> bt_wf (pw_workspaces s) \<and> (\<forall>k sc. bt_get (pw_snapshots s) k = Some sc \<longrightarrow> bt_wf sc)"

lemma scan_wf:
  "scan_path p t acc = Inr sc \<Longrightarrow> bt_wf acc \<Longrightarrow> bt_wf sc"
  "scan_entries p cs acc = Inr sc \<Longrightarrow> bt_wf acc \<Longrightarrow> bt_wf sc"
  by (induction p t acc and p cs acc arbitrary: sc and sc rule: scan_path_scan_entries.induct)
    (auto simp: tx_simps split: if_splits)

lemma scan_workspace_wf: "scan_workspace r t = Inr sc \<Longrightarrow> bt_wf sc"
  by (auto simp: scan_workspace_def tx_simps dest: scan_wf(2) split: fs_tree.splits if_splits)

lemma changed_paths_iff:
  assumes "bt_wf current"
  shows "p \<in> set (changed_paths previous current) \<longleftrightarrow> bt_get previous p \<noteq> bt_get current p"
proof -
  have c: "(p, f) \<in> set current \<longleftrightarrow> bt_get current p = Some f" for f
    using btree.in_entries_iff [OF assms] by simp
  have k: "p \<in> set (bt_keys previous) \<longleftrightarrow> bt_get previous p \<noteq> None"
    by (simp add: bt_keys_def bt_get_def map_of_eq_None_iff)
  have "p \<in> set (changed_paths previous current) \<longleftrightarrow> p \<in> set (bt_keys previous) \<and> bt_get current p = None
      \<or> p \<in> fst ` {q \<in> set current. case q of (p, f) \<Rightarrow> bt_get previous p \<noteq> Some f}"
    by (simp add: changed_paths_def)
  also have "p \<in> fst ` {q \<in> set current. case q of (p, f) \<Rightarrow> bt_get previous p \<noteq> Some f}
      \<longleftrightarrow> (\<exists>f. (p, f) \<in> set current \<and> bt_get previous p \<noteq> Some f)" by force
  finally show ?thesis unfolding c k
    by (cases "bt_get current p"; cases "bt_get previous p") simp_all
qed

lemma polled_workspaces:
  assumes "poll_workspaces disk ws snaps sent = (snaps', sent', r)" "distinct (map fst ws)"
    and "\<forall>k sc. bt_get snaps k = Some sc \<longrightarrow> bt_wf sc"
  shows "set sent \<subseteq> set sent' \<and> (\<forall>k sc. bt_get snaps' k = Some sc \<longrightarrow> bt_wf sc)
    \<and> (\<forall>k p. bt_get (bt_get_or [] snaps k) p \<noteq> bt_get (bt_get_or [] snaps' k) p \<longrightarrow> (\<exists>ev\<in>set sent'. p \<in> set (fe_paths ev)))
    \<and> (\<forall>k. k \<notin> fst ` set ws \<longrightarrow> bt_get snaps' k = bt_get snaps k)
    \<and> (r = Inr () \<longrightarrow> (\<forall>(k, w)\<in>set ws. \<exists>sc. scan_workspace (ww_root w) (disk (ww_root w)) = Inr sc \<and> bt_get snaps' k = Some sc))"
  using assms
proof (induction ws arbitrary: snaps sent)
  case (Cons a ws)
  obtain k w where a: "a = (k, w)" by fastforce
  note run = Cons.prems(1) [unfolded a]
  show ?case
  proof (cases "scan_workspace (ww_root w) (disk (ww_root w))")
    case (Inl e) then show ?thesis using run Cons.prems(3) by (auto simp: a)
  next
    case sc: (Inr current)
    let ?paths = "changed_paths (bt_get_or [] snaps k) current" and ?s = "bt_insert k current snaps"
    let ?sent = "if ?paths = [] then sent else sent @ [new_raw_event Modify ?paths]"
    have rest: "poll_workspaces disk ws ?s ?sent = (snaps', sent', r)"
      using run by (simp add: sc Let_def split: if_splits)
    have wf: "\<forall>j s. bt_get ?s j = Some s \<longrightarrow> bt_wf s" using Cons.prems(3) scan_workspace_wf [OF sc] by simp
    have d: "distinct (map fst ws)" "k \<notin> fst ` set ws" using Cons.prems(2) by (simp_all add: a)
    note IH = Cons.IH [OF rest d(1) wf]
    have "\<exists>ev\<in>set sent'. p \<in> set (fe_paths ev)"
      if "bt_get (bt_get_or [] snaps j) p \<noteq> bt_get (bt_get_or [] snaps' j) p" for j p
    proof (cases "bt_get (bt_get_or [] ?s j) p = bt_get (bt_get_or [] snaps' j) p")
      case True
      then have "j = k" "bt_get (bt_get_or [] snaps k) p \<noteq> bt_get current p"
        using that by (auto simp: bt_get_or_def split: if_splits)
      then have "p \<in> set ?paths" by (simp add: changed_paths_iff [OF scan_workspace_wf [OF sc]])
      then have "new_raw_event Modify ?paths \<in> set ?sent" by auto
      then show ?thesis using IH \<open>p \<in> set ?paths\<close> by (force simp: new_raw_event_def)
    next
      case False then show ?thesis using IH by blast
    qed
    moreover have "bt_get snaps' k = Some current" using IH d(2) by simp
    ultimately show ?thesis using IH sc by (auto simp: a split: if_splits)
  qed
qed auto

lemma poll_once_facts:
  assumes "poll_once disk s = (s', sent, r)" "polling_wf s"
  shows "polling_wf s' \<and> pw_workspaces s' = pw_workspaces s
    \<and> (bt_get (bt_get_or [] (pw_snapshots s) k) p \<noteq> bt_get (bt_get_or [] (pw_snapshots s') k) p
        \<longrightarrow> (\<exists>ev\<in>set sent. p \<in> set (fe_paths ev)))"
proof -
  obtain q where q: "poll_workspaces disk (pw_workspaces s) (pw_snapshots s) [] = (pw_snapshots s', sent, q)"
    "pw_workspaces s' = pw_workspaces s"
    using assms(1) by (auto simp: poll_once_def split: prod.splits)
  from polled_workspaces [OF q(1)] assms(2) q(2) show ?thesis
    by (auto simp: polling_wf_def bt_wf_distinct)
qed

section \<open>Properties\<close>

text \<open>
  No change between two scans is lost. Over any run of polls, failing ones included, a path whose
  fingerprint in the kept scan of a workspace differs at the end from the one at the start is
  in an event that was sent; and the watcher stays well formed.
\<close>

theorem polls_miss_no_change:
  assumes "poll_run disks s = (s', sent)" and "polling_wf s"
    and "bt_get (bt_get_or [] (pw_snapshots s) k) p \<noteq> bt_get (bt_get_or [] (pw_snapshots s') k) p"
  shows "polling_wf s' \<and> (\<exists>ev\<in>set sent. p \<in> set (fe_paths ev))"
  using assms
proof (induction disks arbitrary: s sent)
  case (Cons disk disks)
  obtain s1 now r where one: "poll_once disk s = (s1, now, r)" by (cases "poll_once disk s") auto
  obtain later where rest: "poll_run disks s1 = (s', later)" "sent = now @ later"
    using Cons.prems(1) one by (auto split: prod.splits)
  note F = poll_once_facts [OF one Cons.prems(2)]
  have wf': "polling_wf s'"
  proof -
    have "poll_run ds t = (t', m) \<Longrightarrow> polling_wf t \<Longrightarrow> polling_wf t'" for ds t t' m
    proof (induction ds arbitrary: t m)
      case (Cons d ds)
      then show ?case by (auto split: prod.splits dest: poll_once_facts)
    qed simp
    from this [OF rest(1)] F show ?thesis by blast
  qed
  show ?case
  proof (cases "bt_get (bt_get_or [] (pw_snapshots s1) k) p = bt_get (bt_get_or [] (pw_snapshots s') k) p")
    case True then show ?thesis using F [of k p] Cons.prems(3) wf' rest(2) by auto
  next
    case False then show ?thesis using Cons.IH [OF rest(1) _ False] F rest(2) by auto
  qed
qed simp

text \<open>
  One unreadable workspace stops the polling of all that follow it. As long as the root of workspace
  \<open>j\<close> cannot be read, no poll looks at a workspace with a larger identifier.
\<close>

lemma unreadable_workspace_starves_later:
  assumes "poll_run disks s = (s', sent)" "bt_wf (pw_workspaces s)" "bt_get (pw_workspaces s) j = Some w" "j < k"
    and "\<forall>disk\<in>set disks. \<exists>e. disk (ww_root w) = Unreadable e"
  shows "bt_get (pw_snapshots s') k = bt_get (pw_snapshots s) k"
  using assms
proof (induction disks arbitrary: s sent)
  case (Cons disk disks)
  have skip: "bt_get (fst (poll_workspaces disk ws snaps sent)) k = bt_get snaps k"
    if "bt_wf ws" "(j, w) \<in> set ws" for ws snaps sent
    using that
  proof (induction ws arbitrary: snaps sent)
    case (Cons a ws)
    obtain i v where a: "a = (i, v)" by fastforce
    show ?case
    proof (cases "i = j")
      case True
      then have "v = w" using Cons.prems a by (auto simp: image_iff)
      then show ?thesis using \<open>\<forall>d\<in>set (disk # disks). \<exists>e. d (ww_root w) = Unreadable e\<close>
        by (auto simp: a scan_workspace_def)
    next
      case False
      then have "i < j" "(j, w) \<in> set ws" "bt_wf ws" using Cons.prems a by auto
      then show ?thesis using Cons.IH \<open>j < k\<close>
        by (auto simp: a Let_def split: sum.splits)
    qed
  qed simp
  obtain s1 now r where one: "poll_once disk s = (s1, now, r)" by (cases "poll_once disk s") auto
  have "bt_get (pw_snapshots s1) k = bt_get (pw_snapshots s) k" "pw_workspaces s1 = pw_workspaces s"
    using skip [OF Cons.prems(2) bt_get_in [OF Cons.prems(3)], of "pw_snapshots s" "[]"] one
    by (auto simp: poll_once_def split: prod.splits)
  moreover obtain later where "poll_run disks s1 = (s', later)" using Cons.prems(1) one by (auto split: prod.splits)
  ultimately show ?case using Cons.IH [of s1 later] Cons.prems by simp
qed simp

end
