(* ===== verification/Operation_Capsule.thy ===== *)
theory Operation_Capsule
  imports Data_Plane Manifest_Trust
begin

text \<open>
  The capture of a Git operation that is in progress, \<open>operation_capsule.rs\<close>: which operation it is and
  how far it has come, read from the files of the Git directory; the conflicting stages of the
  index, read from \<open>git ls-files -u -z\<close>; and the commands that put the stages back. The files of
  the Git directory and of the work tree and the answers of Git are arguments.
\<close>

section \<open>Files of the Git directory\<close>

record dir_files =
  df_exists :: "string \<Rightarrow> bool"
  df_is_dir :: "string \<Rightarrow> bool"
  df_read :: "string \<Rightarrow> string result"

definition optional_lines_file :: "dir_files \<Rightarrow> string \<Rightarrow> string list result" where
  "optional_lines_file d p = (if \<not> df_exists d p then Inr [] else bind_r (df_read d p) (\<lambda>t. Inr (str_lines t)))"

definition optional_trimmed_file :: "dir_files \<Rightarrow> string \<Rightarrow> string option result" where
  "optional_trimmed_file d p =
     (if \<not> df_exists d p then Inr None
      else bind_r (df_read d p) (\<lambda>t. Inr (find (\<lambda>l. l \<noteq> []) (map trim_str (str_lines t)))))"

definition optional_oid_file :: "dir_files \<Rightarrow> string \<Rightarrow> string option result" where
  "optional_oid_file d p = optional_trimmed_file d p"

definition optional_u64_file :: "dir_files \<Rightarrow> string \<Rightarrow> u64 option result" where
  "optional_u64_file d p = bind_r (optional_trimmed_file d p) (\<lambda>v. case v of
       None \<Rightarrow> Inr None
     | Some t \<Rightarrow> (case parse_u64 t of
         Inl _ \<Rightarrow> Inl (Config (''unexpected numeric Git operation value: '' @ debug_str t))
       | Inr n \<Rightarrow> Inr (Some n)))"

definition marker_oids :: "dir_files \<Rightarrow> string \<Rightarrow> string list result" where
  "marker_oids d p =
     (if df_is_dir d p then Inr []
      else bind_r (df_read d p) (\<lambda>t. Inr (filter (\<lambda>l. l \<noteq> []) (map trim_str (str_lines t)))))"

section \<open>Progress\<close>

definition todo_command_count :: "string list \<Rightarrow> u64" where
  "todo_command_count ls = of_nat (length (filter (\<lambda>l. trim_str l \<noteq> [] \<and> \<not> starts_with ''#'' (trim_str l)) ls))"

definition infer_step :: "string list \<Rightarrow> string list \<Rightarrow> git_operation_step" where
  "infer_step done_lines todo =
     (let done_count = todo_command_count done_lines; todo_count = todo_command_count todo; all_count = done_count + todo_count
      in \<lparr>st_current = (if 0 < all_count then Some (min (done_count + 1) all_count) else None),
          st_total = (if 0 < all_count then Some all_count else None)\<rparr>)"

definition step_or_none :: "u64 option \<Rightarrow> u64 option \<Rightarrow> git_operation_step option" where
  "step_or_none current all_count =
     (if current \<noteq> None \<or> all_count \<noteq> None then Some \<lparr>st_current = current, st_total = all_count\<rparr> else None)"

definition capture_rebase_progress :: "dir_files \<Rightarrow> string \<Rightarrow> git_operation_progress option result" where
  "capture_rebase_progress d p =
     bind_r (optional_lines_file d (p @ ''/git-rebase-todo'')) (\<lambda>todo.
     bind_r (optional_lines_file d (p @ ''/done'')) (\<lambda>done_lines.
     bind_r (optional_u64_file d (p @ ''/msgnum'')) (\<lambda>msgnum.
     bind_r (optional_u64_file d (p @ ''/end'')) (\<lambda>end_number.
     let inferred = infer_step done_lines todo;
         current = (if msgnum = None \<or> end_number = None then (case msgnum of None \<Rightarrow> st_current inferred | Some n \<Rightarrow> Some n) else msgnum);
         all_count = (if msgnum = None \<or> end_number = None then (case end_number of None \<Rightarrow> st_total inferred | Some n \<Rightarrow> Some n)
           else end_number)
     in bind_r (optional_oid_file d (p @ ''/orig-head'')) (\<lambda>orig.
        bind_r (optional_oid_file d (p @ ''/onto'')) (\<lambda>onto.
        bind_r (optional_trimmed_file d (p @ ''/head-name'')) (\<lambda>name.
        Inr (Some \<lparr>pr_interactive = df_exists d (p @ ''/interactive''), pr_original_head_oid = orig, pr_onto_oid = onto,
          pr_head_name = name, pr_todo = todo, pr_done = done_lines, pr_current_step = step_or_none current all_count\<rparr>))))))))"

definition capture_sequencer_progress :: "dir_files \<Rightarrow> string \<Rightarrow> git_operation_progress option result" where
  "capture_sequencer_progress d p =
     bind_r (optional_lines_file d (p @ ''/todo'')) (\<lambda>todo.
     bind_r (optional_lines_file d (p @ ''/done'')) (\<lambda>done_lines.
     let inferred = infer_step done_lines todo
     in bind_r (optional_oid_file d (p @ ''/head'')) (\<lambda>orig.
        Inr (Some \<lparr>pr_interactive = False, pr_original_head_oid = orig, pr_onto_oid = None, pr_head_name = None,
          pr_todo = todo, pr_done = done_lines, pr_current_step = step_or_none (st_current inferred) (st_total inferred)\<rparr>))))"

fun capture_operation_progress :: "dir_files \<Rightarrow> git_operation_kind \<Rightarrow> string \<Rightarrow> git_operation_progress option result" where
  "capture_operation_progress d RebaseMerge p = capture_rebase_progress d p"
| "capture_operation_progress d RebaseApply p = capture_rebase_progress d p"
| "capture_operation_progress d Sequencer p = capture_sequencer_progress d p"
| "capture_operation_progress d Merge p = Inr None"
| "capture_operation_progress d CherryPick p = Inr None"
| "capture_operation_progress d Revert p = Inr None"

definition operation_markers :: "(git_operation_kind \<times> string) list" where
  "operation_markers = [(Merge, ''MERGE_HEAD''), (CherryPick, ''CHERRY_PICK_HEAD''), (Revert, ''REVERT_HEAD''),
     (RebaseMerge, ''rebase-merge''), (RebaseApply, ''rebase-apply''), (Sequencer, ''sequencer'')]"

text \<open>Paths are relative to the Git directory, which the first command finds.\<close>

definition capture_operation_metadata ::
    "(string list \<Rightarrow> string result) \<Rightarrow> unit result \<Rightarrow> dir_files \<Rightarrow> git_operation_metadata option result" where
  "capture_operation_metadata run git_dir d =
     bind_r git_dir (\<lambda>_. case find (\<lambda>(_, p). df_exists d p) operation_markers of
       None \<Rightarrow> Inr None
     | Some (kind, p) \<Rightarrow>
         bind_r (capture_operation_progress d kind p) (\<lambda>progress.
         bind_r (optional_oid_file d ''ORIG_HEAD'') (\<lambda>orig_head.
         bind_r (run [''rev-parse'', ''HEAD'']) (\<lambda>head.
         bind_r (marker_oids d p) (\<lambda>oids.
         Inr (Some \<lparr>op_kind = kind, op_current_head_oid = head, op_operation_oids = oids,
           op_original_head_oid = (case Option.bind progress pr_original_head_oid of None \<Rightarrow> orig_head | Some i \<Rightarrow> Some i),
           op_progress = progress\<rparr>))))))"

section \<open>Conflicting stages\<close>

function split_fields :: "string \<Rightarrow> string \<Rightarrow> string list" where
  "split_fields cur s =
     (if s = [] then [cur]
      else if whitespace_len s = 0 then split_fields (cur @ [hd s]) (tl s)
      else cur # split_fields [] (drop (whitespace_len s) s))"
  by pat_completeness auto

termination
proof (relation "measure (\<lambda>(_, s). length s)")
  fix cur s :: string assume "s \<noteq> []" "whitespace_len s \<noteq> 0"
  then show "(([], drop (whitespace_len s) s), cur, s) \<in> measure (\<lambda>(_, s). length s)" by (cases s) auto
qed (auto simp: neq_Nil_conv)

declare split_fields.simps [simp del]

definition split_whitespace :: "string \<Rightarrow> string list" where
  "split_whitespace s = filter (\<lambda>w. w \<noteq> []) (split_fields [] s)"

definition parse_u8 :: "string \<Rightarrow> 8 word option" where
  "parse_u8 s = (case parse_u64 s of Inl _ \<Rightarrow> None | Inr n \<Rightarrow> if n < 256 then Some (ucast n) else None)"

definition malformed_record :: "string \<Rightarrow> dr_error" where
  "malformed_record r = Config (''unexpected git ls-files -u record: '' @ debug_str r)"

definition slashed :: "string \<Rightarrow> string" where
  "slashed p = map (\<lambda>c. if c = CHR 0x5C then CHR ''/'' else c) p"

definition parse_unmerged_record :: "string \<Rightarrow> (string \<times> index_stage_entry) result" where
  "parse_unmerged_record r =
     (if CHR 0x09 \<notin> set r then Inl (malformed_record r)
      else let meta = takeWhile (\<lambda>c. c \<noteq> CHR 0x09) r; p = drop (Suc (length meta)) r
           in case split_whitespace meta of
                mode # i # stage # _ \<Rightarrow> (case parse_u8 stage of
                    None \<Rightarrow> Inl (malformed_record r)
                  | Some n \<Rightarrow> Inr (slashed p, \<lparr>ix_stage = n, ix_mode = mode, ix_oid = i\<rparr>))
              | _ \<Rightarrow> Inl (malformed_record r))"

fun collect_unmerged :: "string list \<Rightarrow> (string, index_stage_entry list) btree_map \<Rightarrow> (string, index_stage_entry list) btree_map result" where
  "collect_unmerged [] m = Inr m"
| "collect_unmerged (r # rs) m =
     bind_r (parse_unmerged_record r) (\<lambda>(p, s). collect_unmerged rs (bt_entry [] p (\<lambda>ss. ss @ [s]) m))"

definition capture_unmerged_index_entries :: "(string list \<Rightarrow> string result) \<Rightarrow> unmerged_index_entry list result" where
  "capture_unmerged_index_entries run =
     bind_r (run [''ls-files'', ''-u'', ''-z'']) (\<lambda>raw.
     bind_r (collect_unmerged (filter (\<lambda>r. r \<noteq> []) (split_on (CHR 0x00) raw)) []) (\<lambda>m.
     Inr (map (\<lambda>(p, ss). \<lparr>un_path = p, un_stages = sort_key ix_stage ss\<rparr>) m)))"

text \<open>The work tree: \<open>None\<close> for a path that is missing or no regular file.\<close>

fun capture_conflict_worktree_files ::
    "(string \<Rightarrow> string result option) \<Rightarrow> unmerged_index_entry list \<Rightarrow> conflict_worktree_file list result" where
  "capture_conflict_worktree_files tree [] = Inr []"
| "capture_conflict_worktree_files tree (u # us) = (case tree (un_path u) of
       None \<Rightarrow> capture_conflict_worktree_files tree us
     | Some content \<Rightarrow> bind_r content (\<lambda>b. bind_r (capture_conflict_worktree_files tree us) (\<lambda>fs.
         Inr (\<lparr>cw_path = un_path u, cw_contents = b\<rparr> # fs))))"

definition capture_operation_capsule ::
    "(string list \<Rightarrow> string result) \<Rightarrow> unit result \<Rightarrow> dir_files \<Rightarrow> (string \<Rightarrow> string result option) \<Rightarrow> operation_capsule option result" where
  "capture_operation_capsule run git_dir d tree =
     bind_r (capture_operation_metadata run git_dir d) (\<lambda>op. case op of
       None \<Rightarrow> Inr None
     | Some oper \<Rightarrow> bind_r (capture_unmerged_index_entries run) (\<lambda>us.
         bind_r (capture_conflict_worktree_files tree us) (\<lambda>fs.
         Inr (Some \<lparr>oc_operation = oper, oc_unmerged_entries = us, oc_worktree_files = fs\<rparr>))))"

section \<open>Putting the stages back\<close>

definition stage_line :: "string \<Rightarrow> index_stage_entry \<Rightarrow> string" where
  "stage_line p s = ix_mode s @ '' '' @ ix_oid s @ '' '' @ dec_nat (unat (ix_stage s)) @ [CHR 0x09] @ p @ [CHR 0x0A]"

definition index_info :: "unmerged_index_entry list \<Rightarrow> string" where
  "index_info us = concat (map (\<lambda>u. concat (map (stage_line (un_path u)) (un_stages u))) us)"

text \<open>Git as a function of a command, its input and the repository \<open>g\<close>.\<close>

fun force_remove :: "(string list \<Rightarrow> string \<Rightarrow> 'g \<Rightarrow> 'g \<times> unit result) \<Rightarrow> unmerged_index_entry list \<Rightarrow> 'g \<Rightarrow> 'g \<times> unit result" where
  "force_remove git [] g = (g, Inr ())"
| "force_remove git (u # us) g = (case git [''update-index'', ''--force-remove'', ''--'', un_path u] [] g of
       (g', Inl e) \<Rightarrow> (g', Inl e)
     | (g', Inr _) \<Rightarrow> force_remove git us g')"

definition apply_unmerged_index_entries ::
    "(string list \<Rightarrow> string \<Rightarrow> 'g \<Rightarrow> 'g \<times> unit result) \<Rightarrow> operation_capsule \<Rightarrow> 'g \<Rightarrow> 'g \<times> unit result" where
  "apply_unmerged_index_entries git c g =
     (if oc_unmerged_entries c = [] then (g, Inr ())
      else case force_remove git (oc_unmerged_entries c) g of
        (g', Inl e) \<Rightarrow> (g', Inl e)
      | (g', Inr _) \<Rightarrow> git [''update-index'', ''--index-info''] (index_info (oc_unmerged_entries c)) g')"

section \<open>Facts\<close>

lemma foldl_digits_ge: "(n :: nat) \<le> foldl (\<lambda>n ch. 10 * n + (of_char ch - 48)) n s"
proof (induction s arbitrary: n)
  case (Cons c s)
  have "n \<le> 10 * n + (of_char c - 48)" by simp
  also have "\<dots> \<le> foldl (\<lambda>n ch. 10 * n + (of_char ch - 48)) (10 * n + (of_char c - 48)) s" by (rule Cons)
  finally show ?case by simp
qed simp

lemma parse_digits_value:
  "list_all is_ascii_digit s \<Longrightarrow> foldl (\<lambda>n ch. 10 * n + (of_char ch - 48)) n s < 2 ^ 64
    \<Longrightarrow> parse_digits n s = Inr (of_nat (foldl (\<lambda>n ch. 10 * n + (of_char ch - 48)) n s))"
proof (induction s arbitrary: n)
  case (Cons c s)
  have "10 * n + (of_char c - 48) < 2 ^ 64"
    using foldl_digits_ge [of "10 * n + (of_char c - 48)" s] Cons.prems(2) by simp
  then show ?case using Cons by (simp add: Let_def)
qed simp

lemma dec_nat_not_Nil [simp]: "dec_nat n \<noteq> []"
  by (subst dec_nat.simps) simp

lemma parse_printed: "n < 2 ^ 64 \<Longrightarrow> parse_u64 (dec_nat n) = Inr (of_nat n)"
proof -
  assume n: "n < 2 ^ 64"
  obtain c s where d: "dec_nat n = c # s" by (cases "dec_nat n") auto
  have "is_ascii_digit c" using dec_nat_digits [of n] by (simp add: d)
  then have "c \<noteq> CHR ''+''" "c \<noteq> CHR ''-''" by (auto simp: is_ascii_digit_def)
  moreover have "parse_digits 0 (dec_nat n) = Inr (of_nat n)"
    using parse_digits_value [OF dec_nat_digits, of 0 n] dec_nat_value [of n] n by (simp add: dec_value_def)
  ultimately show ?thesis by (simp add: parse_u64_def d)
qed

lemma parse_stage: "parse_u8 (dec_nat (unat n)) = Some n"
proof -
  have "unat n < 2 ^ LENGTH(8)" by (rule unsigned_less)
  then have u: "unat n < 256" by simp
  then have "unat (ucast n :: u64) = unat n" by (simp add: unsigned_ucast_eq take_bit_nat_eq_self)
  then have "(ucast n :: u64) < 256" using u by (simp add: word_less_nat_alt)
  moreover have "ucast (ucast n :: u64) = n" by (rule bit_word_eqI) (simp add: bit_simps)
  ultimately show ?thesis using u parse_printed [of "unat n"] by (simp add: parse_u8_def)
qed

text \<open>Text without white space, as modes and object ids are.\<close>

definition graphic :: "string \<Rightarrow> bool" where
  "graphic w \<longleftrightarrow> w \<noteq> [] \<and> list_all (\<lambda>c. CHR 0x21 \<le> c \<and> c \<le> CHR 0x7E) w"

lemma graphic_char: "CHR 0x21 \<le> c \<Longrightarrow> c \<le> CHR 0x7E \<Longrightarrow> whitespace_len (c # s) = 0 \<and> c \<noteq> CHR 0x09 \<and> c \<noteq> CHR 0x00"
proof -
  assume c: "CHR 0x21 \<le> c" "c \<le> CHR 0x7E"
  then have n: "c \<notin> {CHR 0xC2, CHR 0xE1, CHR 0xE2, CHR 0xE3, CHR 0x09, CHR 0x00}" "\<not> is_ascii_space c"
    by (auto simp: is_ascii_space_def less_eq_char_def)
  then show ?thesis by (auto split: list.splits)
qed

lemma split_fields_word: "list_all (\<lambda>c. CHR 0x21 \<le> c \<and> c \<le> CHR 0x7E) w \<Longrightarrow> split_fields cur (w @ s) = split_fields (cur @ w) s"
proof (induction w arbitrary: cur)
  case (Cons c w)
  then have "whitespace_len (c # w @ s) = 0" using graphic_char by simp
  then show ?case using Cons by (subst split_fields.simps) simp
qed simp

lemma split_fields_space: "split_fields cur (CHR '' '' # s) = cur # split_fields [] s"
  by (subst split_fields.simps) (simp add: is_ascii_space_def)

lemma split_meta:
  assumes "graphic a" "graphic b" "graphic c"
  shows "split_whitespace (a @ '' '' @ b @ '' '' @ c) = [a, b, c]"
proof -
  have "split_fields [] (a @ '' '' @ b @ '' '' @ c) = [a, b, c]"
    using assms split_fields_word [of a "[]"] split_fields_word [of b "[]"] split_fields_word [of c "[]" "[]"]
    by (simp add: graphic_def split_fields_space split_fields.simps [of c "[]"])
  then show ?thesis using assms by (simp add: split_whitespace_def graphic_def)
qed

text \<open>What \<open>git ls-files -u -z\<close> prints for these stages, and which of them it prints unambiguously.\<close>

definition ls_record :: "string \<Rightarrow> index_stage_entry \<Rightarrow> string" where
  "ls_record p s = ix_mode s @ '' '' @ ix_oid s @ '' '' @ dec_nat (unat (ix_stage s)) @ [CHR 0x09] @ p"

definition ls_files_text :: "unmerged_index_entry list \<Rightarrow> string" where
  "ls_files_text us = concat (map (\<lambda>u. concat (map (\<lambda>s. ls_record (un_path u) s @ [CHR 0x00]) (un_stages u))) us)"

definition clean_unmerged :: "unmerged_index_entry list \<Rightarrow> bool" where
  "clean_unmerged us \<longleftrightarrow> sorted_wrt (<) (map un_path us)
     \<and> (\<forall>u\<in>set us. un_stages u \<noteq> [] \<and> sorted (map ix_stage (un_stages u)) \<and> CHR 0x00 \<notin> set (un_path u) \<and> CHR 0x5C \<notin> set (un_path u)
          \<and> (\<forall>s\<in>set (un_stages u). graphic (ix_mode s) \<and> graphic (ix_oid s)))"

lemma digits_graphic: "graphic (dec_nat n)"
  using dec_nat_digits [of n] by (auto simp: graphic_def list_all_iff is_ascii_digit_def less_eq_char_def)

lemma graphic_no_tab: "graphic w \<Longrightarrow> CHR 0x09 \<notin> set w \<and> CHR 0x00 \<notin> set w"
  using graphic_char by (auto simp: graphic_def list_all_iff)

lemma parse_printed_record:
  assumes "graphic (ix_mode s)" "graphic (ix_oid s)" "CHR 0x5C \<notin> set p"
  shows "parse_unmerged_record (ls_record p s) = Inr (p, s)"
proof -
  let ?meta = "ix_mode s @ '' '' @ ix_oid s @ '' '' @ dec_nat (unat (ix_stage s))"
  have t: "CHR 0x09 \<notin> set ?meta" using assms graphic_no_tab digits_graphic by simp
  have r: "ls_record p s = ?meta @ CHR 0x09 # p" by (simp add: ls_record_def)
  have "takeWhile (\<lambda>c. c \<noteq> CHR 0x09) (ls_record p s) = ?meta"
    unfolding r using t by (subst takeWhile_append2) auto
  moreover have "slashed p = p" using assms(3) by (induction p) (auto simp: slashed_def)
  moreover have "CHR 0x09 \<in> set (ls_record p s)" by (simp add: r)
  moreover have "drop (Suc (length xs)) (xs @ c # ys) = ys" for xs ys :: string and c by simp
  then have "drop (Suc (length ?meta)) (ls_record p s) = p" unfolding r .
  ultimately show ?thesis
    using split_meta [OF assms(1,2) digits_graphic] parse_stage [of "ix_stage s"]
    by (simp add: parse_unmerged_record_def Let_def)
qed

lemma split_ls_files:
  assumes "\<forall>r\<in>set rs. CHR 0x00 \<notin> set r"
  shows "split_on (CHR 0x00) (concat (map (\<lambda>r. r @ [CHR 0x00]) rs)) = rs @ [[]]"
  using assms by (induction rs) (auto simp: split_line)

lemma insert_last: "\<forall>j\<in>fst ` set m. j < k \<Longrightarrow> bt_insert k v m = m @ [(k, v)]"
  by (induction m) auto

lemma collect_more_stages:
  assumes "\<forall>s\<in>set ss. parse_unmerged_record (r s) = Inr (p, s)" "bt_wf (m @ [(p, ts)])"
  shows "collect_unmerged (map r ss @ rs) (m @ [(p, ts)]) = collect_unmerged rs (m @ [(p, ts @ ss)])"
  using assms
proof (induction ss arbitrary: ts)
  case (Cons s ss)
  have "bt_entry [] p (\<lambda>xs. xs @ [s]) (m @ [(p, ts)]) = m @ [(p, ts @ [s])]"
    using bt_insert_here [of m p ts "[]"] bt_get_here [of m p ts "[]"] Cons.prems(2) by (simp add: bt_entry_def bt_get_or_def)
  moreover have "bt_wf (m @ [(p, ts @ [s])])" using Cons.prems(2) by (simp add: bt_wf_def)
  ultimately show ?case using Cons by simp
qed simp

lemma collect_printed:
  assumes "\<forall>u\<in>set us. un_stages u \<noteq> [] \<and> (\<forall>s\<in>set (un_stages u). parse_unmerged_record (ls_record (un_path u) s) = Inr (un_path u, s))"
    and "bt_wf (m @ map (\<lambda>u. (un_path u, un_stages u)) us)"
  shows "collect_unmerged (concat (map (\<lambda>u. map (ls_record (un_path u)) (un_stages u)) us)) m
    = Inr (m @ map (\<lambda>u. (un_path u, un_stages u)) us)"
  using assms
proof (induction us arbitrary: m)
  case (Cons u us)
  obtain s ss where ss: "un_stages u = s # ss" using Cons.prems(1) by (cases "un_stages u") auto
  let ?p = "un_path u"
  have less: "\<forall>j\<in>fst ` set m. j < ?p" and wf: "bt_wf m" using Cons.prems(2) by (auto simp: bt_wf_append)
  then have one: "bt_entry [] ?p (\<lambda>xs. xs @ [s]) m = m @ [(?p, [s])]"
    by (auto simp: bt_entry_def bt_get_or_def insert_last bt_get_def image_iff split: option.splits dest!: map_of_SomeD)
  have w1: "bt_wf (m @ [(?p, [s])])" using less wf by (auto simp: bt_wf_append)
  have "collect_unmerged (map (ls_record ?p) (un_stages u) @ rs) m = collect_unmerged rs (m @ [(?p, un_stages u)])" for rs
    using Cons.prems(1) collect_more_stages [OF _ w1, of ss "ls_record ?p" rs] by (simp add: ss one)
  then show ?case using Cons.IH [of "m @ [(?p, un_stages u)]"] Cons.prems by simp
qed simp

section \<open>Properties\<close>

text \<open>
  The conflict is read as it is. From what Git prints for any set of conflicting stages, in path
  and stage order, the capture recovers exactly these paths with these stages, provided that no
  path holds a backslash or a zero byte.
\<close>

theorem unmerged_round_trip:
  assumes c: "clean_unmerged us" and run: "run [''ls-files'', ''-u'', ''-z''] = Inr (ls_files_text us)"
  shows "capture_unmerged_index_entries run = Inr us"
proof -
  let ?rs = "concat (map (\<lambda>u. map (ls_record (un_path u)) (un_stages u)) us)"
  have parts: "ls_files_text us = concat (map (\<lambda>r. r @ [CHR 0x00]) ?rs)"
    by (induction us) (simp_all add: ls_files_text_def comp_def)
  have clean: "\<forall>r\<in>set ?rs. CHR 0x00 \<notin> set r \<and> r \<noteq> []"
    using c graphic_no_tab digits_graphic by (auto simp: ls_record_def clean_unmerged_def)
  then have "filter (\<lambda>r. r \<noteq> []) (split_on (CHR 0x00) (ls_files_text us)) = ?rs"
    using split_ls_files [of ?rs] by (simp add: parts filter_id_conv)
  moreover have "collect_unmerged ?rs [] = Inr (map (\<lambda>u. (un_path u, un_stages u)) us)"
    using collect_printed [of us "[]"] c parse_printed_record by (auto simp: clean_unmerged_def bt_wf_def comp_def)
  moreover have "map (\<lambda>u. \<lparr>un_path = un_path u, un_stages = sort_key ix_stage (un_stages u)\<rparr>) us = us"
    using c by (intro map_idI) (auto simp: clean_unmerged_def sort_key_id_if_sorted)
  ultimately show ?thesis using run by (simp add: capture_unmerged_index_entries_def comp_def)
qed

theorem unmerged_round_trip_witness:
  "\<exists>us. length us = 2 \<and> capture_unmerged_index_entries (\<lambda>_. Inr (ls_files_text us)) = Inr us"
proof -
  let ?s = "\<lambda>n. \<lparr>ix_stage = n, ix_mode = ''100644'', ix_oid = ''e69de29bb2d1d6434b8b29ae775ad8c2e48c5391''\<rparr>"
  let ?us = "[\<lparr>un_path = ''a b.txt'', un_stages = [?s 1, ?s 2, ?s 3]\<rparr>, \<lparr>un_path = ''src/c.rs'', un_stages = [?s 2, ?s 3]\<rparr>]"
  have "clean_unmerged ?us" by (simp add: clean_unmerged_def graphic_def less_eq_char_def)
  from unmerged_round_trip [OF this, of "\<lambda>_. Inr (ls_files_text ?us)"] show ?thesis by (intro exI [of _ ?us]) simp
qed

text \<open>
  The way back is not as careful: the stages are read with zero bytes between them and written as
  lines, so a path with a line feed is torn into two.
\<close>

lemma newline_path_is_torn:
  "length (str_lines (index_info [\<lparr>un_path = [CHR ''a'', CHR 0x0A, CHR ''b''], un_stages = [\<lparr>ix_stage = 1, ix_mode = ''100644'', ix_oid = ''0''\<rparr>]\<rparr>])) = 2"
proof -
  have "dec_nat 1 = ''1''" by code_simp
  then show ?thesis by (simp add: index_info_def stage_line_def str_lines_def)
qed

end
