(* ===== verification/Spec2Isabelle.thy ===== *)
theory Spec2Isabelle
  imports Metadata_System Identity_Certificates Transport_Security Watch_State Path_Policy Scheduler Hydration Remote_Rpc Rust_Text Agent_State Agent_Remote Agent_Local Agent_Safety Agent_System Agent_Requests Agent_Registry Structured_Log Task_Logs Crash_Journal Ipc_Framing Cas_Store Data_Plane Home_Paths Background_Checkpoint Anchor_Repo Snapshot_Upload Task_Results Polling_Watcher Operation_Capsule
begin

text \<open>
  Verification of DevRelay: the core library (\<open>src/crates/devrelay-core\<close>) and the request handlers of
  the agent (\<open>src/crates/devrelay-agent/src/main.rs\<close>), with one command of the client
  (\<open>src/crates/devrelay-cli/src/main.rs\<close>). File names below without a directory are those of the core.

  The program. DevRelay moves unfinished work between the devices of one user. A project has a
  metadata database with a lease that says which device may write, sessions, and the
  snapshots of its work tree. A snapshot's data are Git objects under two refs and large files cut
  into content-addressed chunks. A watcher and a debouncer decide when work is checkpointed; a
  handoff moves the lease from a source to a target device in acknowledged steps; devices become
  known by pairing, carry certificates and can be revoked; commands of a project run only when the
  user trusts them. The agent serves all of this to local tools over a socket and to other
  devices over an authenticated channel, and keeps an event stream for its subscribers.

  How a state is modelled. A database is the record \<open>metadata_db\<close> of its tables, each a list of
  rows in insertion order; an operation is a function from a database to a database and a result,
  and a transaction rolls back when its body fails (\<open>run_tx\<close>). A \<open>u64\<close> is a \<open>64 word\<close>;
  saturating, wrapping and checked arithmetic are written as in the code, and a column holds the raw
  bits, read back the way the code reads them (\<open>column_u64\<close>). Errors are values of \<open>dr_error\<close>, with
  their texts. A \<open>BTreeMap\<close> is a sorted association list, a file system a map from names to
  contents, a process an explicit state. Arguments of the definitions stand for what is not
  under \<open>src/\<close>: the clock and fresh identifiers, BLAKE3, Ed25519 and X25519, the encoders of JSON and TOML, glob
  matching, Git commands and the outcome of each write. What is used of them appears as a named
  hypothesis (\<open>json_lines\<close>, \<open>manifest_codec\<close>, \<open>hex_hash\<close>, injectivity of a hash on the data at hand), and
  each such property has a witness with a concrete instance.

  The theories, by layer.

  \<^item> Vocabulary. \<open>Prelude\<close>: machine integers, results, transactions, and the interfaces \<open>wire_enum\<close>
    (names of an enum and back) and \<open>safe_system\<close> (an invariant of a step relation). \<open>Rust_Text\<close>,
    \<open>Paths\<close>, \<open>Ordered_Map\<close>: trimming and character boundaries, path components, and the interface
    \<open>keyed_store\<close> with the ordered map and the SQL table as its providers. \<open>Error_Model\<close> (\<open>error.rs\<close>).
    \<open>Json_Lines\<close>: files of one record per line, for the task logs and the crash journal.
  \<^item> Metadata. \<open>Lease_Model\<close> (\<open>lease.rs\<close>, \<open>handoff.rs\<close>, \<open>session.rs\<close>), \<open>Snapshot_Schema\<close> (\<open>snapshot_schema.rs\<close>),
    \<open>Db_State\<close>, \<open>Handoff_Db\<close>, \<open>Publish_Db\<close>, \<open>Identity_Db\<close>, \<open>Trust_Db\<close> (\<open>storage.rs\<close>, \<open>audit.rs\<close>), \<open>Pairing_Db\<close>
    (\<open>pairing.rs\<close>, \<open>storage.rs\<close>), \<open>Retention\<close> (\<open>retention.rs\<close>), \<open>Snapshot_Store\<close> (\<open>snapshot_store.rs\<close>): tables and
    operations. \<open>Handoff_Safety\<close>, \<open>Handoff_Theorems\<close>, \<open>Publish_Safety\<close>, \<open>Pairing_Safety\<close>: the contract of each group:
    when an operation succeeds, what it then does, what a failure leaves. \<open>Metadata_System\<close>: all of
    them in any order as one transition system \<open>db_step\<close>, its invariant \<open>db_inv\<close>, and frames that say
    which tables an operation leaves alone.
  \<^item> Devices and channels. \<open>Identity_Certificates\<close> (\<open>identity.rs\<close>), \<open>Transport_Security\<close>
    (\<open>transport_security.rs\<close>), \<open>Ipc_Framing\<close> (\<open>ipc.rs\<close>), \<open>Remote_Rpc\<close> (\<open>rpc.rs\<close>, \<open>remote_rpc.rs\<close>).
  \<^item> Capture. \<open>Watch_State\<close> and \<open>Polling_Watcher\<close> (\<open>watcher.rs\<close>), \<open>Debounce\<close> (\<open>debounce.rs\<close>), \<open>Path_Policy\<close> (\<open>policy.rs\<close>: which files
    a snapshot may carry), \<open>Background_Checkpoint\<close> (\<open>background_checkpoint.rs\<close>),
    \<open>Operation_Capsule\<close> (\<open>operation_capsule.rs\<close>: a merge or rebase in progress).
  \<^item> Data. \<open>Cas_Store\<close> (\<open>cas.rs\<close>), \<open>Data_Plane\<close> (\<open>data_plane.rs\<close>, \<open>route_selection.rs\<close>), \<open>Anchor_Repo\<close>
    (\<open>anchor_snapshot.rs\<close>), \<open>Snapshot_Upload\<close> (\<open>snapshot_upload.rs\<close>), \<open>Home_Paths\<close> (\<open>home.rs\<close>).
  \<^item> Projects and tasks. \<open>Manifest_Trust\<close> (\<open>manifest.rs\<close>), \<open>Task_Model\<close> (\<open>task_model.rs\<close>), \<open>Task_Results\<close>
    (\<open>task_artifacts.rs\<close>, \<open>task_cache.rs\<close>), \<open>Scheduler\<close> (\<open>scheduler_constraints.rs\<close>, \<open>scheduler_score.rs\<close>), \<open>Hydration\<close> (\<open>hydration.rs\<close>), \<open>Local_Config\<close> (\<open>config.rs\<close>).
  \<^item> Records of what happened. \<open>Events\<close> (\<open>events.rs\<close> and the agent's log), \<open>Structured_Log\<close> (\<open>logging.rs\<close>),
    \<open>Task_Logs\<close> (\<open>task_logs.rs\<close>), \<open>Crash_Journal\<close> (\<open>crash_journal.rs\<close>).
  \<^item> The agent. \<open>Agent_State\<close>: \<open>agent_state\<close> and the handlers both servers share; \<open>Agent_Local\<close> and
    \<open>Agent_Remote\<close>: the local requests and the authenticated remote frames. \<open>Agent_Safety\<close> shows that a
    handler changes a database only by operations of \<open>db_step\<close>; \<open>Agent_System\<close> is the agent over
    all its requests, a refinement of one \<open>db_step\<close> system per project; \<open>Agent_Requests\<close> and
    \<open>Agent_Registry\<close> hold properties of single requests and of the project registry, proved in the
    locale \<open>agent_frame\<close>.

  What is shown. This theory states what spans components: over every reachable database a lease has at most
  one pending handoff, epochs fence former holders, snapshots form a history, logs only
  grow, a revoked device gains no lease, and the leases refine an abstract machine with one writer per
  epoch. Below it, the handoff is characterised operation by operation and shown to be completable;
  publication is a compare-and-swap; retention and pruning keep what they promise;
  pairing needs the code of a genuine transcript; trust is granted exactly as approved; a nonce is accepted
  once; framing, manifests of chunks and log files round-trip; the data of an upload are fetched and checked before its metadata; changes reach
  a checkpoint; a subscriber that keeps its end receives the log's events without gaps; the scheduler's choice is the best eligible device; the values of secret fields and the credentials of URLs do not
  reach a log; the local and remote requests of the agent inherit the guarantees of the database.
  Lemmas named as findings in the manifest show where the code does not do what it says, for instance
  \<open>failed_anchor_import_is_forgotten\<close>, \<open>cleanup_takes_published_refs\<close> and \<open>torn_write_blocks_journal\<close>.

  Bounds. No definition uses fuel: the recursions are structural or end by a measure, and the one loop of the code
  that walks to a character boundary is proved to end. Statements about
  epochs hold below \<open>2^63\<close> where the saturating increment of the code is exact; the store round trip
  bounds the total size by \<open>2^64\<close>; the means of the scheduler ask for
  amounts whose product with the scale fits a \<open>u64\<close> (\<open>measurable\<close>). Entropy thresholds of \<open>Path_Policy\<close> are compared as reals, where
  the code uses floating point. Distinct projects are taken to have distinct databases.
  Snapshot sequence numbers are integers where the code has an \<open>i64\<close> with an overflow error. Two
  failures of the code do not appear: an event payload that does not print as JSON, which leaves a gap in the
  stream, and revocations that cannot be loaded, for which the agent refuses the frame. The transition system
  uses \<open>upsert_lease\<close> for new leases only.

  Not modelled. The rest of the client and the desktop application, which parse arguments, forward requests and
  print; sockets, threads and start-up of the agent; the capture and restoration of a work tree and the
  repository reports (\<open>git.rs\<close>, \<open>snapshot.rs\<close>, \<open>lfs.rs\<close>, \<open>submodule.rs\<close>, \<open>sparse.rs\<close>, the doctors) and backup anchors (\<open>backup_anchor.rs\<close>), whose effect is that
  of Git and of the file system; environments and the execution of tasks (child processes); services of the host
  (\<open>service.rs\<close>, \<open>discovery.rs\<close>, \<open>platform.rs\<close>, \<open>tls_identity.rs\<close>). Schema migrations and the opening of the SQLite
  file are I/O; the database starts as the empty one a migration creates.
\<close>

section \<open>Properties of the whole database\<close>

text \<open>
  C8. In every database that any sequence of operations can reach, a lease has at most one
  pending handoff; that handoff's lease is in the pending state, names the handoff, is held by
  its source, and still has the epoch the handoff expects; and the journal of every handoff
  records exactly the milestones its state requires.
\<close>

theorem one_pending_handoff_per_lease:
  assumes "reach (\<lambda>db. db = empty_db) (db_step c hash) db"
  shows "(\<forall>r\<in>set (db_handoffs db). \<forall>q\<in>set (db_handoffs db). \<not> handoff_is_terminal (ho_state r)
        \<and> \<not> handoff_is_terminal (ho_state q) \<and> ho_lease_id r = ho_lease_id q \<longrightarrow> r = q)
    \<and> (\<forall>r\<in>set (db_handoffs db). \<not> handoff_is_terminal (ho_state r) \<longrightarrow>
        (\<exists>l. get_lease (ho_lease_id r) db = Some l \<and> lr_state l = HandoffPending
           \<and> lr_handoff_id l = Some (ho_handoff_id r) \<and> lr_epoch l = ho_expected_epoch r
           \<and> lr_holder_device_id l = Some (ho_source_device_id r)))
    \<and> (\<forall>r\<in>set (db_handoffs db). journal_matches (ho_state r) (milestones (ho_handoff_id r) (db_journal db)))"
proof -
  have I: "handoff_inv db" using metadata.reach_inv [OF assms] by (simp add: db_inv_def)
  then have L: "links (db_handoffs db) (db_leases db)" and J: "journal_wf (db_handoffs db) (db_journal db)"
    by (simp_all add: handoff_inv_def)
  have "\<exists>l. get_lease (ho_lease_id r) db = Some l \<and> lr_state l = HandoffPending
           \<and> lr_handoff_id l = Some (ho_handoff_id r) \<and> lr_epoch l = ho_expected_epoch r
           \<and> lr_holder_device_id l = Some (ho_source_device_id r)"
    if r: "r \<in> set (db_handoffs db)" "\<not> handoff_is_terminal (ho_state r)" for r
    using carrier [OF I sel_row_mem [OF links_pk(2) [OF L] r(1)] r(2)] by (auto simp: get_lease_def backs_def)
  then show ?thesis using links_unique [OF L] J by (auto simp: journal_wf_def)
qed

theorem one_pending_handoff_per_lease_witness:
  "\<exists>db r. reach (\<lambda>db. db = empty_db) (db_step ex_codec (\<lambda>_. ex_key)) db \<and> db_handoffs db = [r]
     \<and> (\<exists>l. get_lease ''l1'' db = Some l \<and> lr_state l = HandoffPending)"
proof -
  obtain db h r where run: "begin_handoff ''h1'' 100 ''l1'' ''a'' ''b'' ''g1'' 60 ex_d2 = (db, Inr h)"
    and r: "db_handoffs db = [r]" "ho_lease_id r = ''l1''" "ho_state r = TargetPrepare"
    using ex_begin by blast
  have "reach (\<lambda>db. db = empty_db) (db_step ex_codec (\<lambda>_. ex_key)) db"
    by (rule reach_step [OF ex_reach_d2 db_handoff [OF hs_begin [OF run]]])
  from one_pending_handoff_per_lease [OF this] this r show ?thesis by auto
qed

text \<open>
  C9. The snapshot table of every reachable database is a history: snapshot ids are unique,
  sequence numbers strictly grow within a project, and the parent of a snapshot is stored and is
  not a later one, whatever was published, forked, stored or pruned.
\<close>

theorem snapshots_form_a_history:
  assumes "reach (\<lambda>db. db = empty_db) (db_step c hash) db" and j: "j < length (db_snapshots db)"
  shows "(\<forall>i<j. sn_snapshot_id (db_snapshots db ! i) \<noteq> sn_snapshot_id (db_snapshots db ! j)
        \<and> (sn_project_id (db_snapshots db ! i) = sn_project_id (db_snapshots db ! j) \<longrightarrow>
             sn_sequence_number (db_snapshots db ! i) < sn_sequence_number (db_snapshots db ! j)))
    \<and> (\<forall>p. sn_parent_snapshot_id (db_snapshots db ! j) = Some p \<longrightarrow>
         (\<exists>i\<le>j. sn_snapshot_id (db_snapshots db ! i) = p))"
proof -
  have "history_from [] (db_snapshots db)" using metadata.reach_inv [OF assms(1)] by (simp add: db_inv_def snapshot_inv_def)
  from history_nth [OF this j] have e: "extends_history (take j (db_snapshots db)) (db_snapshots db ! j)" by simp
  have m: "db_snapshots db ! i \<in> set (take j (db_snapshots db))" if "i < j" for i
    using that j by (auto simp: in_set_conv_nth intro!: exI [of _ i])
  have "\<exists>i\<le>j. sn_snapshot_id (db_snapshots db ! i) = p"
    if "sn_parent_snapshot_id (db_snapshots db ! j) = Some p" for p
  proof (cases "p = sn_snapshot_id (db_snapshots db ! j)")
    case False
    with e that obtain q where "q \<in> set (take j (db_snapshots db))" "sn_snapshot_id q = p"
      by (auto simp: extends_history_def)
    then show ?thesis by (auto simp: in_set_conv_nth intro: less_imp_le)
  qed auto
  then show ?thesis using e m unfolding extends_history_def by blast
qed

theorem snapshots_form_a_history_witness:
  "\<exists>db s. reach (\<lambda>db. db = empty_db) (db_step ex_codec (\<lambda>_. ex_key)) db \<and> db_snapshots db = [s]
     \<and> sn_parent_snapshot_id s = None"
proof -
  obtain db res where run: "publish_snapshot_canonical ex_codec ex_publish ex_d2 = (db, Inr res)"
    and s: "\<exists>s. db_snapshots db = [s] \<and> sn_parent_snapshot_id s = None"
    by (simp add: publish_snapshot_canonical_def ex_meta_valid ex_publish_def ex_session_def ex_d2_def ex_d1_def
        insert_snapshot_row_def insert_row_def stale_reason_def publish_audit_def ex_eval)
  have R: "reach (\<lambda>db. db = empty_db) (db_step ex_codec (\<lambda>_. ex_key)) db"
    by (rule reach_step [OF ex_reach_d2 db_publish [OF run]])
  from s obtain x where "db_snapshots db = [x]" "sn_parent_snapshot_id x = None" by blast
  with R snapshots_form_a_history [OF R, of 0] show ?thesis by auto
qed

text \<open>
  C4. Within an epoch a lease has one holder: over any run of up to \<open>n\<close> operations that stays
  below the range of the signed column, the epoch of a lease never goes back, grows by at most
  the number of operations, and a lease read with the same epoch has the same holder.
\<close>

theorem one_holder_per_epoch:
  assumes "db_inv a" and "(db_step c hash ^^ n) a b" and "get_lease k a = Some l"
    and "unat (lr_epoch l) + n < 2 ^ 63"
  shows "\<exists>l'. get_lease k b = Some l' \<and> unat (lr_epoch l) \<le> unat (lr_epoch l')
    \<and> unat (lr_epoch l') \<le> unat (lr_epoch l) + n
    \<and> (lr_epoch l' = lr_epoch l \<longrightarrow> lr_holder_device_id l' = lr_holder_device_id l)"
  using epoch_run [OF assms] by blast

theorem one_holder_per_epoch_witness:
  "\<exists>db l'. (db_step ex_codec (\<lambda>_. ex_key) ^^ 1) ex_ready db \<and> get_lease ''l1'' db = Some l'
     \<and> lr_epoch l' = 5 \<and> unat (lr_epoch l') \<le> unat (4 :: u64) + 1"
proof -
  obtain db h where run: "commit_handoff_inner ex_codec ''h1'' ''g1'' 130 None ex_ready = (db, Inr h)"
    and l': "get_lease ''l1'' db = Some ((ex_lease Active None)\<lparr>lr_epoch := 5, lr_holder_device_id := Some ''b''\<rparr>)"
    using ex_commit by blast
  from one_holder_per_epoch [OF ex_ready_db_inv ex_commit_step [OF run] ex_ready_lease]
  show ?thesis using ex_commit_step [OF run] l' by (auto simp: ex_lease_def)
qed

text \<open>
  C5. A former holder is fenced off: once a lease has passed to another holder, a canonical
  publish that still carries the epoch of the former one never advances the lease, whoever sends
  it and whatever happened in between; the publisher gets an error.
\<close>

theorem former_holder_is_fenced:
  assumes I: "db_inv a" and run: "(db_step c hash ^^ n) a b"
    and old: "get_lease k a = Some l" and cur: "get_lease k b = Some l'"
    and bound: "unat (lr_epoch l) + n < 2 ^ 63"
    and moved: "lr_holder_device_id l' \<noteq> lr_holder_device_id l"
    and q: "cq_lease_id q = k" "cq_expected_epoch q = lr_epoch l"
    and publish: "publish_snapshot_canonical c' q b = (d, r)"
  shows "get_lease k d = Some l' \<and> (\<exists>e. r = Inl e)"
proof -
  have e: "lr_epoch l' \<noteq> lr_epoch l" using epoch_run [OF I run old bound] cur moved by auto
  from publish_cases [OF publish] show ?thesis
  proof (elim disjE exE conjE)
    fix m s au
    assume m: "get_lease (cq_lease_id q) b = Some m"
      and r: "r = (case stale_reason q m of Some e \<Rightarrow> Inl e
              | None \<Rightarrow> Inr \<lparr>cr_snapshot = s, cr_latest_snapshot_id = sn_snapshot_id s\<rparr>)"
      and d: "d = b\<lparr>db_snapshots := db_snapshots b @ [s],
            db_leases := (if stale_reason q m = None
               then update_rows (\<lambda>r. lr_lease_id r = cq_lease_id q)
                 (\<lambda>r. r\<lparr>lr_latest_snapshot_id := Some (sn_snapshot_id s)\<rparr>) (db_leases b)
               else db_leases b),
            db_audit := db_audit b @ [au], db_next_audit_id := Suc (db_next_audit_id b)\<rparr>"
    have "m = l'" using m cur q by simp
    then obtain why where "stale_reason q m = Some why" using e q by (auto simp: stale_reason_def)
    then show ?thesis using r d cur by (simp add: get_lease_def)
  qed (use cur in simp)
qed

theorem former_holder_is_fenced_witness:
  "\<exists>db d e. commit_handoff_inner ex_codec ''h1'' ''g1'' 130 None ex_ready = (db, d)
     \<and> snd (publish_snapshot_canonical ex_codec ex_publish db) = Inl e"
proof -
  obtain db h where run: "commit_handoff_inner ex_codec ''h1'' ''g1'' 130 None ex_ready = (db, Inr h)"
    and l': "get_lease ''l1'' db = Some ((ex_lease Active None)\<lparr>lr_epoch := 5, lr_holder_device_id := Some ''b''\<rparr>)"
    using ex_commit by blast
  obtain d r where pub: "publish_snapshot_canonical ex_codec ex_publish db = (d, r)" by fastforce
  have "\<exists>e. r = Inl e"
    using former_holder_is_fenced [OF ex_ready_db_inv ex_commit_step [OF run] ex_ready_lease l' _ _ _ _ pub]
    by (simp add: ex_lease_def ex_publish_def)
  with run pub show ?thesis by fastforce
qed

text \<open>
  The logs only grow: over any run of operations the audit log and the handoff journal keep
  every entry they had, in order, and a device that was revoked stays revoked.
\<close>

theorem logs_are_append_only:
  assumes "(db_step c hash)\<^sup>*\<^sup>* a b" and "db_inv a"
  shows "(\<exists>es. db_audit b = db_audit a @ es) \<and> (\<exists>js. db_journal b = db_journal a @ js)
    \<and> (device_revoked a d \<longrightarrow> device_revoked b d)"
  using logs_run [OF assms] by (auto simp: logs_grow_def device_revoked_def)

theorem logs_are_append_only_witness:
  "\<exists>db js. (db_step ex_codec (\<lambda>_. ex_key))\<^sup>*\<^sup>* ex_ready db \<and> db_journal db = db_journal ex_ready @ js"
proof -
  have "(db_step ex_codec (\<lambda>_. ex_key))\<^sup>*\<^sup>* ex_ready (fst (abort_handoff_at ex_codec ''h1'' 120 ''user'' ex_ready))"
    by (intro r_into_rtranclp db_handoff hs_abort [OF surjective_pairing])
  from this logs_are_append_only [OF this ex_ready_db_inv] show ?thesis by blast
qed

text \<open>
  C7. Revocation is final for leases: a revoked device that does not hold a lease never comes to
  hold it, in any run of operations.
\<close>

theorem revoked_device_gains_no_lease:
  assumes "(db_step c hash)\<^sup>*\<^sup>* a b" and "db_inv a" and "device_revoked a d"
    and "get_lease k a = Some l" and "lr_holder_device_id l \<noteq> Some d"
  shows "\<exists>l'. get_lease k b = Some l' \<and> lr_holder_device_id l' \<noteq> Some d"
  by (rule revoked_run [OF assms])

theorem revoked_device_gains_no_lease_witness:
  "\<exists>l'. get_lease ''l1'' (fst (commit_handoff_inner ex_codec ''h1'' ''g1'' 130 None ex_revoked)) = Some l'
     \<and> lr_holder_device_id l' \<noteq> Some ''b''"
proof -
  have "db_inv ex_revoked" using ex_ready_db_inv handoff_inv_cong [of ex_revoked ex_ready]
    by (simp add: ex_revoked_def db_inv_def snapshot_inv_def pairing_inv_def pairing_row_ok_def trust_inv_def)
  moreover have "get_lease ''l1'' ex_revoked = Some (ex_lease HandoffPending (Some ''h1''))"
    using ex_ready_lease by (simp add: ex_revoked_def get_lease_def)
  moreover have "(db_step ex_codec (\<lambda>_. ex_key))\<^sup>*\<^sup>* ex_revoked
      (fst (commit_handoff_inner ex_codec ''h1'' ''g1'' 130 None ex_revoked))"
    by (intro r_into_rtranclp db_handoff hs_commit [OF surjective_pairing])
  moreover have "device_revoked ex_revoked ''b''" by (simp add: device_revoked_def ex_revoked_def)
  ultimately show ?thesis using revoked_device_gains_no_lease by (simp add: ex_lease_def)
qed

text \<open>
  C6. The lease table refines the abstract lease machine: read through \<open>writers_of\<close>, which keeps
  only each lease's holder and epoch, every operation of the database is a stutter, the grant of
  a new lease, or one hand-over of one lease to the next epoch.
\<close>

theorem leases_refine_writer_machine:
  assumes "db_inv a" and "db_step c hash a b"
  shows "writer_step (writers_of a) (writers_of b)"
  using db_step_ok [OF assms] by (auto simp: step_ok_def intro: writers_step)

theorem leases_refine_writer_machine_witness:
  "\<exists>db. writers_of ex_ready ''l1'' = Some (Some ''a'', 4) \<and> writers_of db ''l1'' = Some (Some ''b'', 5)
     \<and> writer_step (writers_of ex_ready) (writers_of db)"
proof -
  obtain db h where run: "commit_handoff_inner ex_codec ''h1'' ''g1'' 130 None ex_ready = (db, Inr h)"
    and l': "get_lease ''l1'' db = Some ((ex_lease Active None)\<lparr>lr_epoch := 5, lr_holder_device_id := Some ''b''\<rparr>)"
    using ex_commit by blast
  have "writer_step (writers_of ex_ready) (writers_of db)"
    by (rule leases_refine_writer_machine [OF ex_ready_db_inv db_handoff [OF hs_commit [OF run]]])
  then show ?thesis using l' ex_ready_lease
    by (intro exI [of _ db]) (simp add: writers_of_def ex_lease_def)
qed

end
